(* ===== verification/Prelude.thy ===== *)
theory Prelude
  imports Complex_Main "HOL-Library.AList" "HOL-Library.Multiset"
begin

text \<open>
  Shared vocabulary of the development: the types the OrcMesh sources share (floats, instants,
  node numbers), the Python containers they use (a bounded \<open>deque\<close>, an insertion-ordered
  \<open>dict\<close>), the \<open>or\<close> operator on optional values, and the generic list lemmas the
  component theories lean on.  The collections \<open>ring_simps\<close> and \<open>odict_simps\<close> bundle
  the facts on the two containers.
\<close>

named_theorems ring_simps "facts on bounded deques"
named_theorems odict_simps "facts on insertion-ordered dictionaries"

section \<open>Types of the sources\<close>

text \<open>Python floats are modelled by exact rationals: rounding, infinities and NaN are not
  modelled, except where the code itself treats NaN as a value (there it is \<open>None\<close>).\<close>

type_synonym pyfloat = rat

text \<open>An aware UTC \<open>datetime\<close> is its number of microseconds since the epoch.\<close>

type_synonym instant = int

text \<open>A Meshtastic node number, a 32 bit unsigned value that Python keeps as an int.\<close>

type_synonym node_id = int

section \<open>Bounded deques: \<open>deque(maxlen=n)\<close>\<close>

definition ring_append :: "nat \<Rightarrow> 'a list \<Rightarrow> 'a \<Rightarrow> 'a list" where
  "ring_append n xs x = drop (Suc (length xs) - n) (xs @ [x])"

lemma ring_append_length [ring_simps]: "length (ring_append n xs x) = min n (Suc (length xs))"
  by (simp add: ring_append_def)

lemma ring_append_bound: "length (ring_append n xs x) \<le> n"
  by (simp add: ring_simps)

lemma ring_append_set [ring_simps]: "set (ring_append n xs x) \<subseteq> insert x (set xs)"
  unfolding ring_append_def using set_drop_subset by fastforce

text \<open>Appending to the last \<open>n\<close> elements of a stream gives the last \<open>n\<close> of the longer stream.\<close>

definition last_n :: "nat \<Rightarrow> 'a list \<Rightarrow> 'a list" where
  "last_n n xs = drop (length xs - n) xs"

lemma last_n_Nil [simp]: "last_n n [] = []"
  by (simp add: last_n_def)

lemma length_last_n [simp]: "length (last_n n xs) = min n (length xs)"
  by (simp add: last_n_def)

lemma last_n_all: "length xs \<le> n \<Longrightarrow> last_n n xs = xs"
  by (simp add: last_n_def)

lemma ring_append_last_n [ring_simps]: "ring_append n (last_n n xs) x = last_n n (xs @ [x])"
proof (cases "length xs < n")
  case True
  then show ?thesis by (simp add: ring_append_def last_n_def)
next
  case False
  then have "Suc (length (last_n n xs)) - n = 1" by (simp add: last_n_def)
  with False show ?thesis
    by (cases n) (simp_all add: ring_append_def last_n_def Suc_diff_Suc flip: drop_Suc)
qed

section \<open>Insertion-ordered dictionaries: \<open>OrderedDict\<close> and \<open>dict\<close>\<close>

text \<open>
  An association list whose order is the insertion order.  Storing under a present key keeps its
  place, storing under a new key appends; this is \<open>AList.update\<close>.
\<close>

abbreviation odict_keys :: "('k \<times> 'v) list \<Rightarrow> 'k list" where
  "odict_keys d \<equiv> map fst d"

abbreviation odict_put :: "'k \<Rightarrow> 'v \<Rightarrow> ('k \<times> 'v) list \<Rightarrow> ('k \<times> 'v) list" where
  "odict_put \<equiv> AList.update"

definition move_to_end :: "'k \<Rightarrow> ('k \<times> 'v) list \<Rightarrow> ('k \<times> 'v) list" where
  "move_to_end k d =
     (case map_of d k of None \<Rightarrow> d | Some v \<Rightarrow> filter (\<lambda>e. fst e \<noteq> k) d @ [(k, v)])"

lemma odict_put_new [odict_simps]: "k \<notin> set (odict_keys d) \<Longrightarrow> odict_put k v d = d @ [(k, v)]"
  by (induction d) auto

lemma odict_put_distinct [odict_simps]:
  "distinct (odict_keys d) \<Longrightarrow> distinct (odict_keys (odict_put k v d))"
  by (simp add: distinct_update)

lemma odict_put_lookup [odict_simps]: "map_of (odict_put k v d) = (map_of d)(k \<mapsto> v)"
  by (simp add: update_conv')

lemma odict_put_length [odict_simps]:
  "length (odict_put k v d) = (if k \<in> set (odict_keys d) then length d else Suc (length d))"
  by (induction d) auto

lemma map_of_filter_key: "map_of (filter (\<lambda>e. fst e \<noteq> k) d) = (map_of d)(k := None)"
  by (induction d) (auto simp: fun_eq_iff)

lemma map_of_append_one: "map_of (d @ [(k, v)]) k' =
    (case map_of d k' of None \<Rightarrow> if k' = k then Some v else None | Some w \<Rightarrow> Some w)"
  by (auto simp: map_add_def split: option.splits)

lemma move_to_end_lookup [odict_simps]: "map_of (move_to_end k d) = map_of d"
  by (rule ext)
    (auto simp: move_to_end_def map_of_filter_key map_add_def fun_upd_def split: option.splits)

lemma filter_keys: "odict_keys (filter (\<lambda>e. fst e \<noteq> k) d) = filter (\<lambda>x. x \<noteq> k) (odict_keys d)"
  by (induction d) auto

lemma move_to_end_distinct [odict_simps]:
  "distinct (odict_keys d) \<Longrightarrow> distinct (odict_keys (move_to_end k d))"
  by (auto simp: move_to_end_def filter_keys split: option.splits)

lemma length_filter_key:
  "distinct (odict_keys d) \<Longrightarrow> k \<in> set (odict_keys d) \<Longrightarrow>
    Suc (length (filter (\<lambda>e. fst e \<noteq> k) d)) = length d"
proof (induction d)
  case Nil
  then show ?case by simp
next
  case (Cons e d)
  show ?case
  proof (cases "fst e = k")
    case True
    with Cons.prems have "fst e \<notin> fst ` set d" by simp
    with True have "\<forall>x \<in> set d. fst x \<noteq> k" by (metis imageI)
    then have "filter (\<lambda>e. fst e \<noteq> k) d = d" by (simp add: filter_id_conv)
    with True show ?thesis by simp
  next
    case False
    with Cons show ?thesis by auto
  qed
qed

lemma move_to_end_length [odict_simps]:
  assumes "distinct (odict_keys d)"
  shows "length (move_to_end k d) = length d"
proof (cases "map_of d k")
  case None
  then show ?thesis by (simp add: move_to_end_def)
next
  case (Some v)
  then have "k \<in> set (odict_keys d)" by (force dest: map_of_SomeD)
  with Some length_filter_key [OF assms] show ?thesis by (simp add: move_to_end_def)
qed

lemma move_to_end_set [odict_simps]:
  "distinct (odict_keys d) \<Longrightarrow> set (move_to_end k d) = set d"
  by (auto simp: move_to_end_def eq_key_imp_eq_value dest: map_of_SomeD split: option.splits)

lemma map_of_drop_Some:
  assumes "distinct (odict_keys d)" "map_of (drop n d) k = Some v"
  shows "map_of d k = Some v"
proof -
  from assms(2) have "(k, v) \<in> set (drop n d)" by (rule map_of_SomeD)
  then have "(k, v) \<in> set d" using set_drop_subset by fast
  with assms(1) show ?thesis by simp
qed

section \<open>Optional values and truthiness\<close>

text \<open>The value of \<open>a or b\<close> for an optional string: \<open>None\<close> and the empty string are false.\<close>

definition py_or_str :: "string option \<Rightarrow> string option \<Rightarrow> string option" where
  "py_or_str a b = (case a of None \<Rightarrow> b | Some s \<Rightarrow> if s = [] then b else Some s)"

lemma py_or_str_simps [simp]:
  "py_or_str None b = b"
  "py_or_str (Some []) b = b"
  "py_or_str (Some (c # cs)) b = Some (c # cs)"
  by (simp_all add: py_or_str_def)

definition truthy_str :: "string option \<Rightarrow> bool" where
  "truthy_str a \<longleftrightarrow> a \<noteq> None \<and> a \<noteq> Some []"

lemma py_or_str_truthy: "truthy_str a \<Longrightarrow> py_or_str a b = a"
  by (auto simp: truthy_str_def py_or_str_def split: option.splits)

section \<open>Lists\<close>

lemma sorted_dropWhile: "sorted xs \<Longrightarrow> sorted (dropWhile P xs)"
  by (metis sorted_wrt_append takeWhile_dropWhile_id)

lemma dropWhile_le_eq_filter:
  fixes c :: "'a :: linorder"
  shows "sorted xs \<Longrightarrow> dropWhile (\<lambda>t. t \<le> c) xs = filter (\<lambda>t. c < t) xs"
proof (induction xs)
  case Nil
  then show ?case by simp
next
  case (Cons x xs)
  show ?case
  proof (cases "x \<le> c")
    case True
    with Cons show ?thesis by auto
  next
    case False
    with Cons.prems have "\<forall>y \<in> set (x # xs). c < y" by auto
    then have "filter (\<lambda>t. c < t) (x # xs) = x # xs" by (simp add: filter_id_conv)
    with False show ?thesis by simp
  qed
qed

lemma sorted_append_one:
  fixes x :: "'a :: linorder"
  shows "sorted (xs @ [x]) \<longleftrightarrow> sorted xs \<and> (\<forall>y \<in> set xs. y \<le> x)"
  by (simp add: sorted_wrt_append)

lemma find_append: "find P (xs @ ys) = (case find P xs of None \<Rightarrow> find P ys | Some x \<Rightarrow> Some x)"
  by (induction xs) auto

lemma find_sound: "find P xs = Some x \<Longrightarrow> x \<in> set xs \<and> P x"
  by (induction xs) (auto split: if_splits)

lemma find_complete: "x \<in> set xs \<Longrightarrow> P x \<Longrightarrow> \<exists>y. find P xs = Some y"
  by (induction xs) auto

lemma distinct_filter_map: "distinct (map f xs) \<Longrightarrow> distinct (map f (filter P xs))"
  by (induction xs) auto

section \<open>Results\<close>

text \<open>Sequencing of operations that fail with a value of their own.\<close>

definition and_then :: "'e + 'a \<Rightarrow> ('a \<Rightarrow> 'e + 'b) \<Rightarrow> 'e + 'b" where
  "and_then r f = (case r of Inl e \<Rightarrow> Inl e | Inr x \<Rightarrow> f x)"

fun collect :: "('e + 'a) list \<Rightarrow> 'e + 'a list" where
  "collect [] = Inr []"
| "collect (r # rs) = and_then r (\<lambda>x. and_then (collect rs) (\<lambda>xs. Inr (x # xs)))"

lemma and_then_Inr: "and_then r f = Inr y \<longleftrightarrow> (\<exists>x. r = Inr x \<and> f x = Inr y)"
  by (auto simp: and_then_def split: sum.splits)

lemma collect_Inr_map: "list_all (\<lambda>x. f x = Inr (g x)) xs \<Longrightarrow> collect (map f xs) = Inr (map g xs)"
  by (induction xs) (auto simp: and_then_def)

lemma collect_all:
  "list_all (\<lambda>x. \<exists>y. f x = Inr y \<and> P x y) xs \<Longrightarrow> \<exists>ys. collect (map f xs) = Inr ys \<and> list_all2 P xs ys"
proof (induction xs)
  case (Cons x xs)
  then obtain y ys where "f x = Inr y" "P x y" "collect (map f xs) = Inr ys" "list_all2 P xs ys" by auto
  then show ?case by (intro exI [of _ "y # ys"]) (simp add: and_then_def)
qed simp

lemma map_filter_append: "List.map_filter f (xs @ ys) = List.map_filter f xs @ List.map_filter f ys"
  by (simp add: List.map_filter_def)

lemma map_filter_single: "List.map_filter f [x] = (case f x of None \<Rightarrow> [] | Some y \<Rightarrow> [y])"
  by (simp add: List.map_filter_def split: option.splits)

lemma map_filter_cong [fundef_cong]:
  "xs = ys \<Longrightarrow> (\<And>x. x \<in> set ys \<Longrightarrow> f x = g x) \<Longrightarrow> List.map_filter f xs = List.map_filter g ys"
  by (induction ys arbitrary: xs) (auto simp: List.map_filter_def)

lemma map_filter_map: "List.map_filter f (map g xs) = List.map_filter (\<lambda>x. f (g x)) xs"
  by (induction xs) (auto simp: List.map_filter_def)

end
