(* ===== verification/Rates.thy ===== *)
theory Rates
  imports Prelude
begin

text \<open>
  \<open>analytics/rolling_rates.py\<close>: the sliding-window event counter \<open>RollingRate\<close> and the
  pair of them that feeds the per-minute and per-hour packet rates.  The monotonic clock is an
  argument of every operation.  The lock is not modelled: each operation is one step.
\<close>

section \<open>RollingRate\<close>

record rolling_rate =
  rr_window :: pyfloat
  rr_timestamps :: "pyfloat list"

definition rolling_rate_new :: "pyfloat \<Rightarrow> rolling_rate" where
  "rolling_rate_new w = \<lparr>rr_window = w, rr_timestamps = []\<rparr>"

definition rr_prune :: "pyfloat \<Rightarrow> rolling_rate \<Rightarrow> rolling_rate" where
  "rr_prune now r =
     (let cutoff = now - rr_window r
      in r\<lparr>rr_timestamps := dropWhile (\<lambda>t. t \<le> cutoff) (rr_timestamps r)\<rparr>)"

definition rr_record :: "pyfloat \<Rightarrow> rolling_rate \<Rightarrow> rolling_rate" where
  "rr_record ts r = rr_prune ts (r\<lparr>rr_timestamps := rr_timestamps r @ [ts]\<rparr>)"

definition rr_count :: "pyfloat \<Rightarrow> rolling_rate \<Rightarrow> nat \<times> rolling_rate" where
  "rr_count now r = (let r' = rr_prune now r in (length (rr_timestamps r'), r'))"

definition rr_reset :: "rolling_rate \<Rightarrow> rolling_rate" where
  "rr_reset r = r\<lparr>rr_timestamps := []\<rparr>"

lemma rr_window_frame [simp]:
  "rr_window (rr_prune t r) = rr_window r"
  "rr_window (rr_record t r) = rr_window r"
  "rr_window (snd (rr_count t r)) = rr_window r"
  "rr_window (rr_reset r) = rr_window r"
  by (simp_all add: rr_prune_def rr_record_def rr_count_def rr_reset_def Let_def)

text \<open>The abstract counter keeps every event ever recorded; its answer is a filter.\<close>

definition window_count :: "pyfloat \<Rightarrow> pyfloat list \<Rightarrow> pyfloat \<Rightarrow> nat" where
  "window_count w events now = length (filter (\<lambda>t. now - w < t) events)"

text \<open>
  The deque stands for the events it was fed: they arrived in time order, nothing younger than
  some earlier cutoff \<open>c\<close> has been dropped, and everything up to it has.
\<close>

definition rr_models :: "pyfloat list \<Rightarrow> pyfloat \<Rightarrow> rolling_rate \<Rightarrow> bool" where
  "rr_models events now r \<longleftrightarrow>
     sorted events \<and> (\<forall>t \<in> set events. t \<le> now) \<and>
     (\<exists>c. c \<le> now - rr_window r \<and> rr_timestamps r = filter (\<lambda>t. c < t) events)"

lemma rr_models_new: "rr_models [] now (rolling_rate_new w)"
  by (auto simp: rr_models_def rolling_rate_new_def)

lemma rr_prune_models:
  assumes "rr_models events now r" "now \<le> t"
  shows "rr_timestamps (rr_prune t r) = filter (\<lambda>x. t - rr_window r < x) events"
proof -
  from assms obtain c where c: "c \<le> now - rr_window r" "sorted events"
    "rr_timestamps r = filter (\<lambda>x. c < x) events" by (auto simp: rr_models_def)
  then have "rr_timestamps (rr_prune t r)
      = filter (\<lambda>x. t - rr_window r < x) (filter (\<lambda>x. c < x) events)"
    by (simp add: rr_prune_def Let_def dropWhile_le_eq_filter sorted_filter [of id, simplified])
  also have "\<dots> = filter (\<lambda>x. t - rr_window r < x) events"
    using c(1) assms(2) by (auto simp: filter_filter intro!: filter_cong)
  finally show ?thesis .
qed

lemma rr_prune_keeps_models:
  assumes "rr_models events now r" "now \<le> t"
  shows "rr_models events t (rr_prune t r)"
  using assms rr_prune_models [OF assms] by (force simp: rr_models_def)

lemma rr_record_models:
  assumes "rr_models events now r" "now \<le> t"
  shows "rr_models (events @ [t]) t (rr_record t r)"
proof -
  from assms obtain c where c: "c \<le> now - rr_window r" "sorted events"
      "\<forall>x \<in> set events. x \<le> now" "rr_timestamps r = filter (\<lambda>x. c < x) events"
    by (auto simp: rr_models_def)
  let ?r = "r\<lparr>rr_timestamps := rr_timestamps r @ [t]\<rparr>"
  let ?c = "min c (t - rr_window r - 1)"
  have s: "sorted (events @ [t])" using c assms(2) by (force simp: sorted_append_one)
  show ?thesis
  proof (cases "c < t")
    case True
    with c assms(2) s have "rr_models (events @ [t]) t ?r"
      unfolding rr_models_def by (intro conjI exI [of _ c]) force+
    from rr_prune_keeps_models [OF this] show ?thesis by (simp add: rr_record_def)
  next
    case False
    then have old: "rr_timestamps r = []" using c assms(2) by (force simp: filter_empty_conv)
    have "t \<le> t - rr_window r" using False c(1) assms(2) by simp
    then have "rr_timestamps (rr_record t r) = []"
      by (simp add: rr_record_def rr_prune_def Let_def old)
    moreover have "filter (\<lambda>x. t < x) (events @ [t]) = []"
      using s by (auto simp: sorted_append_one filter_empty_conv)
    ultimately show ?thesis
      using s \<open>t \<le> t - rr_window r\<close> unfolding rr_models_def sorted_append_one
      by (intro conjI exI [of _ t]) auto
  qed
qed

fun rr_record_all :: "pyfloat list \<Rightarrow> rolling_rate \<Rightarrow> rolling_rate" where
  "rr_record_all [] r = r"
| "rr_record_all (t # ts) r = rr_record_all ts (rr_record t r)"

lemma rr_record_all_models:
  "rr_models events now r \<Longrightarrow> sorted (now # ts) \<Longrightarrow>
    rr_models (events @ ts) (last (now # ts)) (rr_record_all ts r)"
proof (induction ts arbitrary: events now r)
  case Nil
  then show ?case by simp
next
  case (Cons t ts)
  then have "rr_models (events @ [t]) t (rr_record t r)" by (auto intro: rr_record_models)
  from Cons.IH [OF this] Cons.prems(2) show ?case by auto
qed

lemma rr_window_record_all [simp]: "rr_window (rr_record_all ts r) = rr_window r"
  by (induction ts arbitrary: r) auto

lemma rr_count_models:
  "rr_models events now r \<Longrightarrow> now \<le> t \<Longrightarrow> fst (rr_count t r) = window_count (rr_window r) events t"
  by (simp add: rr_count_def Let_def rr_prune_models window_count_def)

section \<open>DualRateTracker\<close>

record dual_rate =
  dr_per_min :: rolling_rate
  dr_per_hour :: rolling_rate

definition dual_rate_new :: dual_rate where
  "dual_rate_new = \<lparr>dr_per_min = rolling_rate_new 60, dr_per_hour = rolling_rate_new 3600\<rparr>"

definition dual_record :: "pyfloat \<Rightarrow> dual_rate \<Rightarrow> dual_rate" where
  "dual_record ts d =
     d\<lparr>dr_per_min := rr_record ts (dr_per_min d), dr_per_hour := rr_record ts (dr_per_hour d)\<rparr>"

definition dual_per_minute :: "pyfloat \<Rightarrow> dual_rate \<Rightarrow> nat \<times> dual_rate" where
  "dual_per_minute now d =
     (let (n, r) = rr_count now (dr_per_min d) in (n, d\<lparr>dr_per_min := r\<rparr>))"

definition dual_per_hour :: "pyfloat \<Rightarrow> dual_rate \<Rightarrow> nat \<times> dual_rate" where
  "dual_per_hour now d =
     (let (n, r) = rr_count now (dr_per_hour d) in (n, d\<lparr>dr_per_hour := r\<rparr>))"

definition dual_reset :: "dual_rate \<Rightarrow> dual_rate" where
  "dual_reset d =
     d\<lparr>dr_per_min := rr_reset (dr_per_min d), dr_per_hour := rr_reset (dr_per_hour d)\<rparr>"

fun dual_record_all :: "pyfloat list \<Rightarrow> dual_rate \<Rightarrow> dual_rate" where
  "dual_record_all [] d = d"
| "dual_record_all (t # ts) d = dual_record_all ts (dual_record t d)"

lemma dual_record_all_parts:
  "dr_per_min (dual_record_all ts d) = rr_record_all ts (dr_per_min d)"
  "dr_per_hour (dual_record_all ts d) = rr_record_all ts (dr_per_hour d)"
  by (induction ts arbitrary: d) (simp_all add: dual_record_def)

lemma dual_counts:
  assumes "sorted ts" "\<forall>t \<in> set ts. t \<le> now"
  shows "fst (dual_per_minute now (dual_record_all ts dual_rate_new)) = window_count 60 ts now"
    and "fst (dual_per_hour now (dual_record_all ts dual_rate_new)) = window_count 3600 ts now"
proof -
  have count: "fst (rr_count now (rr_record_all ts (rolling_rate_new w))) = window_count w ts now"
    for w
  proof (cases ts)
    case Nil
    then show ?thesis using rr_count_models [OF rr_models_new order_refl, of now w]
      by (simp add: rolling_rate_new_def)
  next
    case (Cons u us)
    with assms have m: "rr_models ([] @ ts) (last (u # ts)) (rr_record_all ts (rolling_rate_new w))"
      by (intro rr_record_all_models rr_models_new) auto
    from Cons have "last (u # ts) \<in> set ts" by simp
    with assms(2) have "last (u # ts) \<le> now" by blast
    from rr_count_models [OF m this] show ?thesis by (simp add: rolling_rate_new_def)
  qed
  show "fst (dual_per_minute now (dual_record_all ts dual_rate_new)) = window_count 60 ts now"
    and "fst (dual_per_hour now (dual_record_all ts dual_rate_new)) = window_count 3600 ts now"
    using count [of 60] count [of 3600]
    by (simp_all add: dual_per_minute_def dual_per_hour_def dual_record_all_parts
        dual_rate_new_def case_prod_beta Let_def)
qed

end
