(* ===== verification/PyText.thy ===== *)
theory PyText
  imports Prelude
begin

text \<open>
  The operations of Python's \<open>str\<close> the sources use, on byte strings: decimal and hexadecimal
  rendering of integers, ASCII case folding and whitespace stripping, substring tests, splitting
  and replacing.  A string literal of the sources is its UTF-8 encoding.
\<close>

definition digit_char :: "nat \<Rightarrow> char" where
  "digit_char d = (char_of (if d < 10 then 48 + d else 87 + d) :: char)"

text \<open>\<open>str(n)\<close> and \<open>f"{n:x}"\<close> for a natural number, by base.\<close>

fun show_base :: "nat \<Rightarrow> nat \<Rightarrow> string" where
  "show_base b n =
     (if n < b \<or> b < 2 then [digit_char n] else show_base b (n div b) @ [digit_char (n mod b)])"

declare show_base.simps [simp del]

definition show_nat :: "nat \<Rightarrow> string" where
  "show_nat n = show_base 10 n"

definition show_int :: "int \<Rightarrow> string" where
  "show_int i = (if i < 0 then ''-'' @ show_nat (nat (- i)) else show_nat (nat i))"

definition pad_left :: "nat \<Rightarrow> char \<Rightarrow> string \<Rightarrow> string" where
  "pad_left w c s = replicate (w - length s) c @ s"

text \<open>\<open>f"!{n:08x}"\<close>, the textual id of a node number.\<close>

definition bang_hex8 :: "node_id \<Rightarrow> string" where
  "bang_hex8 n = CHR ''!'' # pad_left 8 (CHR ''0'') (show_base 16 (nat n))"

definition hex4 :: "node_id \<Rightarrow> string" where
  "hex4 n = pad_left 4 (CHR ''0'') (show_base 16 (nat n))"

definition is_space :: "char \<Rightarrow> bool" where
  "is_space c \<longleftrightarrow> (let k = (of_char c :: nat) in (9 \<le> k \<and> k \<le> 13) \<or> (28 \<le> k \<and> k \<le> 32))"

definition is_digit :: "char \<Rightarrow> bool" where
  "is_digit c \<longleftrightarrow> (let k = (of_char c :: nat) in 48 \<le> k \<and> k \<le> 57)"

definition is_upper :: "char \<Rightarrow> bool" where
  "is_upper c \<longleftrightarrow> (let k = (of_char c :: nat) in 65 \<le> k \<and> k \<le> 90)"

definition is_lower :: "char \<Rightarrow> bool" where
  "is_lower c \<longleftrightarrow> (let k = (of_char c :: nat) in 97 \<le> k \<and> k \<le> 122)"

definition is_alpha :: "char \<Rightarrow> bool" where
  "is_alpha c \<longleftrightarrow> is_upper c \<or> is_lower c"

definition to_lower :: "char \<Rightarrow> char" where
  "to_lower c = (if is_upper c then char_of ((of_char c :: nat) + 32) else c)"

definition to_upper :: "char \<Rightarrow> char" where
  "to_upper c = (if is_lower c then char_of ((of_char c :: nat) - 32) else c)"

definition lower :: "string \<Rightarrow> string" where
  "lower s = map to_lower s"

text \<open>
  \<open>str.strip()\<close> removes Unicode whitespace.  On UTF-8 bytes a whitespace character is one, two or
  three bytes long; \<open>space_len s\<close> is the length of the one \<open>s\<close> begins with, 0 if there is none, and
  \<open>rspace_len\<close> the same for the last character of a reversed string.
\<close>

definition space2 :: "nat list \<Rightarrow> bool" where
  "space2 bs \<longleftrightarrow> bs = [0xC2, 0x85] \<or> bs = [0xC2, 0xA0]"

definition space3 :: "nat list \<Rightarrow> bool" where
  "space3 bs \<longleftrightarrow>
     (case bs of
        [x, y, z] \<Rightarrow>
          (x = 0xE1 \<and> y = 0x9A \<and> z = 0x80) \<or>
          (x = 0xE2 \<and> y = 0x80 \<and> ((0x80 \<le> z \<and> z \<le> 0x8A) \<or> z = 0xA8 \<or> z = 0xA9 \<or> z = 0xAF)) \<or>
          (x = 0xE2 \<and> y = 0x81 \<and> z = 0x9F) \<or>
          (x = 0xE3 \<and> y = 0x80 \<and> z = 0x80)
      | _ \<Rightarrow> False)"

definition space_len :: "string \<Rightarrow> nat" where
  "space_len s =
     (case s of
        [] \<Rightarrow> 0
      | c # cs \<Rightarrow>
          if is_space c then 1
          else if space2 (map of_char (take 2 s)) then 2
          else if space3 (map of_char (take 3 s)) then 3
          else 0)"

definition rspace_len :: "string \<Rightarrow> nat" where
  "rspace_len s =
     (case s of
        [] \<Rightarrow> 0
      | c # cs \<Rightarrow>
          if is_space c then 1
          else if space2 (rev (map of_char (take 2 s))) then 2
          else if space3 (rev (map of_char (take 3 s))) then 3
          else 0)"

lemma space_len_Nil [simp]: "space_len [] = 0" "rspace_len [] = 0"
  by (simp_all add: space_len_def rspace_len_def)

lemma space_len_pos:
  "0 < space_len s \<Longrightarrow> length (drop (space_len s) s) < length s"
  "0 < rspace_len s \<Longrightarrow> length (drop (rspace_len s) s) < length s"
  by (cases s, simp_all)+

function lstrip :: "string \<Rightarrow> string" where
  "lstrip s = (if space_len s = 0 then s else lstrip (drop (space_len s) s))"
  by pat_completeness auto
termination
  by (relation "measure length") (auto dest: space_len_pos simp del: length_drop)

function rstrip_rev :: "string \<Rightarrow> string" where
  "rstrip_rev s = (if rspace_len s = 0 then s else rstrip_rev (drop (rspace_len s) s))"
  by pat_completeness auto
termination
  by (relation "measure length") (auto dest: space_len_pos simp del: length_drop)

declare lstrip.simps [simp del] rstrip_rev.simps [simp del]

definition rstrip :: "string \<Rightarrow> string" where
  "rstrip s = rev (rstrip_rev (rev s))"

definition strip :: "string \<Rightarrow> string" where
  "strip s = rstrip (lstrip s)"

fun starts_with :: "string \<Rightarrow> string \<Rightarrow> bool" where
  "starts_with [] s = True"
| "starts_with (p # ps) [] = False"
| "starts_with (p # ps) (c # cs) = (p = c \<and> starts_with ps cs)"

definition ends_with :: "string \<Rightarrow> string \<Rightarrow> bool" where
  "ends_with suf s = starts_with (rev suf) (rev s)"

text \<open>\<open>needle in haystack\<close>\<close>

fun contains :: "string \<Rightarrow> string \<Rightarrow> bool" where
  "contains needle [] = (needle = [])"
| "contains needle (c # cs) = (starts_with needle (c # cs) \<or> contains needle cs)"

fun split_on :: "char \<Rightarrow> string \<Rightarrow> string list" where
  "split_on d [] = [[]]"
| "split_on d (c # cs) =
     (if c = d then [] # split_on d cs
      else (case split_on d cs of [] \<Rightarrow> [[c]] | w # ws \<Rightarrow> (c # w) # ws))"

definition join_with :: "string \<Rightarrow> string list \<Rightarrow> string" where
  "join_with sep ws = (case ws of [] \<Rightarrow> [] | w # ws \<Rightarrow> w @ concat (map (\<lambda>x. sep @ x) ws))"

text \<open>\<open>s.replace(old, new)\<close> for a non-empty \<open>old\<close>: leftmost, non-overlapping occurrences.\<close>

fun replace_go :: "nat \<Rightarrow> string \<Rightarrow> string \<Rightarrow> string \<Rightarrow> string" where
  "replace_go 0 old new s = s"
| "replace_go (Suc n) old new [] = []"
| "replace_go (Suc n) old new (c # cs) =
     (if starts_with old (c # cs) then new @ replace_go n old new (drop (length old) (c # cs))
      else c # replace_go n old new cs)"

definition replace_str :: "string \<Rightarrow> string \<Rightarrow> string \<Rightarrow> string" where
  "replace_str old new s = replace_go (Suc (length s)) old new s"

text \<open>\<open>s.title()\<close>: a letter is upper case after a non-letter and lower case after a letter.\<close>

fun title_go :: "bool \<Rightarrow> string \<Rightarrow> string" where
  "title_go prev [] = []"
| "title_go prev (c # cs) =
     (if is_alpha c then (if prev then to_lower c else to_upper c) # title_go True cs
      else c # title_go False cs)"

definition title :: "string \<Rightarrow> string" where
  "title s = title_go False s"

definition digit_value :: "char \<Rightarrow> nat" where
  "digit_value c = (of_char c :: nat) - 48"

fun nat_of_digits :: "nat \<Rightarrow> string \<Rightarrow> nat" where
  "nat_of_digits acc [] = acc"
| "nat_of_digits acc (c # cs) = nat_of_digits (acc * 10 + digit_value c) cs"

text \<open>\<open>int(s)\<close> for plain decimal text: surrounding blanks, an optional sign, digits; anything else
  is the \<open>ValueError\<close> branch, here \<open>None\<close>.  Digit separators are not modelled.\<close>

definition parse_digits :: "string \<Rightarrow> nat option" where
  "parse_digits s = (if s \<noteq> [] \<and> list_all is_digit s then Some (nat_of_digits 0 s) else None)"

definition parse_int :: "string \<Rightarrow> int option" where
  "parse_int s =
     (let t = strip s
      in case t of
           [] \<Rightarrow> None
         | c # cs \<Rightarrow>
             if c = CHR ''-'' then map_option (\<lambda>n. - int n) (parse_digits cs)
             else if c = CHR ''+'' then map_option int (parse_digits cs)
             else map_option int (parse_digits t))"

section \<open>Punctuation\<close>

definition lf :: char where "lf = CHR 0x0A"
definition cr :: char where "cr = CHR 0x0D"
definition dq :: string where "dq = [CHR 0x22]"
definition ellipsis :: string where "ellipsis = [CHR 0xE2, CHR 0x80, CHR 0xA6]"
definition endash :: string where "endash = [CHR 0xE2, CHR 0x80, CHR 0x93]"
definition emdash :: string where "emdash = [CHR 0xE2, CHR 0x80, CHR 0x94]"
definition middot :: string where "middot = [CHR '' '', CHR 0xC2, CHR 0xB7, CHR '' '']"

text \<open>\<open>s.upper()\<close> on ASCII text.\<close>

definition upper :: "string \<Rightarrow> string" where
  "upper s = map to_upper s"

text \<open>\<open>s.splitlines()\<close>: \<open>break_len s\<close> is the length of the line break \<open>s\<close> begins with.\<close>

definition break_len :: "string \<Rightarrow> nat" where
  "break_len s =
     (case s of
        [] \<Rightarrow> 0
      | c # cs \<Rightarrow>
          (let k = (of_char c :: nat)
           in if k = 13 then (if cs \<noteq> [] \<and> hd cs = lf then 2 else 1)
              else if (10 \<le> k \<and> k \<le> 12) \<or> (28 \<le> k \<and> k \<le> 30) then 1
              else if take 2 s = [CHR 0xC2, CHR 0x85] then 2
              else if take 3 s = [CHR 0xE2, CHR 0x80, CHR 0xA8] \<or>
                      take 3 s = [CHR 0xE2, CHR 0x80, CHR 0xA9] then 3
              else 0))"

function split_lines_go :: "string \<Rightarrow> string \<Rightarrow> string list" where
  "split_lines_go line [] = (if line = [] then [] else [rev line])"
| "split_lines_go line (c # cs) =
     (let n = break_len (c # cs)
      in if n = 0 then split_lines_go (c # line) cs
         else rev line # split_lines_go [] (drop (n - 1) cs))"
  by pat_completeness auto
termination
  by (relation "measure (\<lambda>(line, s). length s)") auto

definition split_lines :: "string \<Rightarrow> string list" where
  "split_lines s = split_lines_go [] s"

section \<open>Facts\<close>

lemma starts_with_append: "starts_with p s \<longleftrightarrow> (\<exists>r. s = p @ r)"
  by (induction p s rule: starts_with.induct) auto

lemma of_char_char_of_small [simp]: "k < 256 \<Longrightarrow> of_char (char_of k :: char) = (k :: nat)"
  by (simp add: of_char_of)

lemma is_digit_digit_char: "d < 10 \<Longrightarrow> is_digit (digit_char d)"
  by (simp add: is_digit_def digit_char_def)

lemma digit_value_digit_char: "d < 10 \<Longrightarrow> digit_value (digit_char d) = d"
  by (simp add: digit_value_def digit_char_def)

lemma show_base_nonempty: "show_base b n \<noteq> []"
  by (subst show_base.simps) simp

lemma show_nat_digits: "list_all is_digit (show_nat n)"
proof -
  have "list_all is_digit (show_base 10 n)"
  proof (induction n rule: less_induct)
    case (less n)
    show ?case
      using less.IH [of "n div 10"] by (subst show_base.simps) (simp add: is_digit_digit_char)
  qed
  then show ?thesis by (simp add: show_nat_def)
qed

lemma nat_of_digits_append:
  "nat_of_digits acc (xs @ ys) = nat_of_digits (nat_of_digits acc xs) ys"
  by (induction xs arbitrary: acc) auto

lemma nat_of_digits_show_nat: "nat_of_digits 0 (show_nat n) = n"
proof -
  have "nat_of_digits 0 (show_base 10 n) = n"
  proof (induction n rule: less_induct)
    case (less n)
    show ?case
      using less.IH [of "n div 10"]
      by (subst show_base.simps) (simp add: nat_of_digits_append digit_value_digit_char)
  qed
  then show ?thesis by (simp add: show_nat_def)
qed

text \<open>Text of plain ASCII characters other than blanks is left alone by \<open>strip\<close>.\<close>

definition is_plain :: "char \<Rightarrow> bool" where
  "is_plain c \<longleftrightarrow> \<not> is_space c \<and> (of_char c :: nat) < 128"

lemma space_len_plain: "is_plain c \<Longrightarrow> space_len (c # cs) = 0"
  by (cases cs; cases "tl cs")
     (auto simp: is_plain_def space_len_def space2_def space3_def split: list.splits)

lemma rspace_len_plain: "is_plain c \<Longrightarrow> rspace_len (c # cs) = 0"
  by (cases cs; cases "tl cs")
     (auto simp: is_plain_def rspace_len_def space2_def space3_def split: list.splits)

lemma lstrip_plain: "list_all is_plain s \<Longrightarrow> lstrip s = s"
  by (cases s) (simp_all add: lstrip.simps space_len_plain)

lemma rstrip_plain: "list_all is_plain s \<Longrightarrow> rstrip s = s"
proof -
  assume "list_all is_plain s"
  then have "list_all is_plain (rev s)" by (simp add: list_all_iff)
  then have "rstrip_rev (rev s) = rev s"
    by (cases "rev s") (simp_all add: rstrip_rev.simps rspace_len_plain)
  then show ?thesis by (simp add: rstrip_def)
qed

lemma strip_plain: "list_all is_plain s \<Longrightarrow> strip s = s"
  by (simp add: strip_def lstrip_plain rstrip_plain)

lemma digit_plain: "is_digit c \<Longrightarrow> is_plain c"
  by (auto simp: is_plain_def is_digit_def is_space_def Let_def)

lemma lstrip_no_space: "space_len (lstrip s) = 0"
  by (induction s rule: lstrip.induct) (subst lstrip.simps, simp)

lemma rstrip_no_space: "rspace_len (rev (rstrip s)) = 0"
proof -
  have "rspace_len (rstrip_rev t) = 0" for t
    by (induction t rule: rstrip_rev.induct) (subst rstrip_rev.simps, simp)
  then show ?thesis by (simp add: rstrip_def)
qed

lemma lstrip_suffix: "\<exists>p. s = p @ lstrip s"
proof (induction s rule: lstrip.induct)
  case (1 s)
  show ?case
  proof (cases "space_len s = 0")
    case True
    then show ?thesis by (subst lstrip.simps) simp
  next
    case False
    with 1 obtain p where "drop (space_len s) s = p @ lstrip (drop (space_len s) s)" by blast
    then have "s = (take (space_len s) s @ p) @ lstrip (drop (space_len s) s)"
      by (metis append.assoc append_take_drop_id)
    moreover from False have "lstrip s = lstrip (drop (space_len s) s)"
      by (subst lstrip.simps) simp
    ultimately show ?thesis by metis
  qed
qed

lemma rstrip_prefix: "\<exists>q. s = rstrip s @ q"
proof -
  have "\<exists>p. t = p @ rstrip_rev t" for t
  proof (induction t rule: rstrip_rev.induct)
    case (1 s)
    show ?case
    proof (cases "rspace_len s = 0")
      case True
      then show ?thesis by (subst rstrip_rev.simps) simp
    next
      case False
      with 1 obtain p where "drop (rspace_len s) s = p @ rstrip_rev (drop (rspace_len s) s)" by blast
      then have "s = (take (rspace_len s) s @ p) @ rstrip_rev (drop (rspace_len s) s)"
        by (metis append.assoc append_take_drop_id)
      moreover from False have "rstrip_rev s = rstrip_rev (drop (rspace_len s) s)"
        by (subst rstrip_rev.simps) simp
      ultimately show ?thesis by metis
    qed
  qed
  from this [of "rev s"] obtain p where "rev s = p @ rstrip_rev (rev s)" by blast
  then have "s = rev (rstrip_rev (rev s)) @ rev p" by (metis rev_append rev_rev_ident)
  then show ?thesis by (auto simp: rstrip_def)
qed

lemma strip_infix: "\<exists>p q. s = p @ strip s @ q"
  using lstrip_suffix [of s] rstrip_prefix [of "lstrip s"] by (metis append.assoc strip_def)

lemma length_strip: "length (strip s) \<le> length s"
  using strip_infix [of s] by (metis add.commute le_add2 length_append trans_le_add1)

text \<open>Printing a number and parsing it back.\<close>

lemma parse_digits_show_nat: "parse_digits (show_nat n) = Some n"
  using show_nat_digits [of n] show_base_nonempty [of 10 n]
  by (simp add: parse_digits_def nat_of_digits_show_nat) (simp add: show_nat_def)

lemma digits_strip:
  assumes "list_all is_digit s" "is_plain c"
  shows "strip s = s" and "strip (c # s) = c # s"
proof -
  from assms(1) have a: "list_all is_plain s" using digit_plain by (simp add: list_all_iff)
  with assms(2) show "strip s = s" and "strip (c # s) = c # s"
    by (simp_all add: strip_plain)
qed

lemma parse_int_show_nat: "parse_int (show_nat n) = Some (int n)"
proof -
  have d: "list_all is_digit (show_nat n)" by (rule show_nat_digits)
  then have s: "strip (show_nat n) = show_nat n"
    by (rule digits_strip(1) [of _ "CHR ''-''"]) (simp add: is_plain_def is_space_def)
  obtain c cs where c: "show_nat n = c # cs"
    using show_base_nonempty [of 10 n] by (cases "show_nat n") (simp_all add: show_nat_def)
  with d have "is_digit c" by simp
  then have ne: "c \<noteq> CHR ''-''" "c \<noteq> CHR ''+''" by (auto simp: is_digit_def)
  have "parse_int (show_nat n) = map_option int (parse_digits (show_nat n))"
    unfolding parse_int_def s Let_def using ne by (simp add: c)
  then show ?thesis by (simp add: parse_digits_show_nat)
qed

lemma parse_int_show_int: "parse_int (show_int i) = Some i"
proof (cases "i < 0")
  case False
  then show ?thesis by (simp add: show_int_def parse_int_show_nat)
next
  case True
  let ?n = "nat (- i)"
  have "strip (CHR ''-'' # show_nat ?n) = CHR ''-'' # show_nat ?n"
    by (rule digits_strip(2)) (simp_all add: show_nat_digits is_plain_def is_space_def)
  with True show ?thesis by (simp add: show_int_def parse_int_def parse_digits_show_nat)
qed

end
