(* ===== verification/PyValue.thy ===== *)
theory PyValue
  imports PyText "HOL-Library.Monad_Syntax"
begin

text \<open>
  Dynamically typed Python values, as they reach the program in the packet dictionaries published
  by the meshtastic library and in JSON documents, with the operations the sources apply to them:
  truthiness, \<open>dict.get\<close>, the multi-key \<open>_get\<close>, numeric conversion, \<open>int(s, 0)\<close>, UTF-8 decoding,
  \<open>datetime.fromtimestamp\<close> and round-half-even.  In the option-valued operations \<open>None\<close> is a raised
  exception.
\<close>

datatype pyval =
    PNone
  | PBool bool
  | PInt int
  | PFloat pyfloat
  | PStr string
  | PBytes string
  | PDict "(string \<times> pyval) list"
  | PList "pyval list"

type_synonym pydict = "(string \<times> pyval) list"

primrec py_truthy :: "pyval \<Rightarrow> bool" where
  "py_truthy PNone = False"
| "py_truthy (PBool b) = b"
| "py_truthy (PInt i) = (i \<noteq> 0)"
| "py_truthy (PFloat r) = (r \<noteq> 0)"
| "py_truthy (PStr s) = (s \<noteq> [])"
| "py_truthy (PBytes s) = (s \<noteq> [])"
| "py_truthy (PDict d) = (d \<noteq> [])"
| "py_truthy (PList l) = (l \<noteq> [])"

text \<open>\<open>d.get(k)\<close>: an absent key and a stored \<open>None\<close> look alike.\<close>

definition dict_get :: "pydict \<Rightarrow> string \<Rightarrow> pyval" where
  "dict_get d k = (case map_of d k of None \<Rightarrow> PNone | Some v \<Rightarrow> v)"

text \<open>\<open>_get(d, *keys)\<close>: the first key that is present decides, even when it holds \<open>None\<close>.\<close>

fun py_get :: "pydict \<Rightarrow> string list \<Rightarrow> pyval" where
  "py_get d [] = PNone"
| "py_get d (k # ks) = (case map_of d k of Some v \<Rightarrow> v | None \<Rightarrow> py_get d ks)"

text \<open>\<open>d.get(k, {}) or {}\<close>; \<open>None\<close> when the value is not a dictionary and not false, on which the
  code's next \<open>.get\<close> raises.\<close>

definition sub_dict :: "pyval \<Rightarrow> pydict option" where
  "sub_dict v = (if \<not> py_truthy v then Some [] else case v of PDict d \<Rightarrow> Some d | _ \<Rightarrow> None)"

text \<open>Typed reads of a field: absent or \<open>None\<close> is \<open>Some None\<close>; a value the operation the code applies
  would raise on is \<open>None\<close>.\<close>

definition as_int :: "pyval \<Rightarrow> int option option" where
  "as_int v = (case v of PNone \<Rightarrow> Some None | PInt i \<Rightarrow> Some (Some i)
     | PBool b \<Rightarrow> Some (Some (if b then 1 else 0)) | _ \<Rightarrow> None)"

definition as_num :: "pyval \<Rightarrow> pyfloat option option" where
  "as_num v = (case v of PNone \<Rightarrow> Some None | PInt i \<Rightarrow> Some (Some (of_int i))
     | PFloat r \<Rightarrow> Some (Some r) | PBool b \<Rightarrow> Some (Some (if b then 1 else 0)) | _ \<Rightarrow> None)"

definition as_str :: "pyval \<Rightarrow> string option option" where
  "as_str v = (case v of PNone \<Rightarrow> Some None | PStr s \<Rightarrow> Some (Some s) | _ \<Rightarrow> None)"

definition as_bool :: "pyval \<Rightarrow> bool option" where
  "as_bool v = (case v of PNone \<Rightarrow> None | _ \<Rightarrow> Some (py_truthy v))"

definition str_field :: "pydict \<Rightarrow> string \<Rightarrow> string option" where
  "str_field d k = (case dict_get d k of PStr s \<Rightarrow> Some s | _ \<Rightarrow> None)"

definition num_field :: "pydict \<Rightarrow> string \<Rightarrow> pyfloat option" where
  "num_field d k = (case as_num (dict_get d k) of Some r \<Rightarrow> r | None \<Rightarrow> None)"

definition int_field :: "pydict \<Rightarrow> string \<Rightarrow> int option" where
  "int_field d k = (case as_int (dict_get d k) of Some r \<Rightarrow> r | None \<Rightarrow> None)"

text \<open>\<open>json.dumps\<close> accepts everything but bytes.\<close>

fun json_ok :: "pyval \<Rightarrow> bool" where
  "json_ok (PBytes _) = False"
| "json_ok (PDict d) = list_all (\<lambda>e. json_ok (snd e)) d"
| "json_ok (PList l) = list_all json_ok l"
| "json_ok _ = True"

text \<open>\<open>str(v)\<close> for the scalar values packet keys are made of.\<close>

primrec py_str :: "pyval \<Rightarrow> string" where
  "py_str PNone = ''None''"
| "py_str (PBool b) = (if b then ''True'' else ''False'')"
| "py_str (PInt i) = show_int i"
| "py_str (PFloat r) = show_int \<lfloor>r\<rfloor>"
| "py_str (PStr s) = s"
| "py_str (PBytes s) = s"
| "py_str (PDict d) = ''{}''"
| "py_str (PList l) = ''[]''"

text \<open>\<open>int(s, 0)\<close>: decimal without leading zeros, or a \<open>0x\<close>, \<open>0o\<close>, \<open>0b\<close> prefix.\<close>

definition hex_value :: "char \<Rightarrow> nat option" where
  "hex_value c =
     (let k = (of_char (to_lower c) :: nat)
      in if is_digit c then Some (k - 48) else if 97 \<le> k \<and> k \<le> 102 then Some (k - 87) else None)"

fun digits_base :: "nat \<Rightarrow> nat \<Rightarrow> string \<Rightarrow> nat option" where
  "digits_base b acc [] = Some acc"
| "digits_base b acc (c # cs) =
     (case hex_value c of
        None \<Rightarrow> None
      | Some v \<Rightarrow> if v < b then digits_base b (acc * b + v) cs else None)"

definition parse_unsigned0 :: "string \<Rightarrow> nat option" where
  "parse_unsigned0 s =
     (case s of
        [] \<Rightarrow> None
      | [c] \<Rightarrow> digits_base 10 0 [c]
      | c # d # ds \<Rightarrow>
          if c = CHR ''0'' then
            (if ds \<noteq> [] \<and> to_lower d = CHR ''x'' then digits_base 16 0 ds
             else if ds \<noteq> [] \<and> to_lower d = CHR ''o'' then digits_base 8 0 ds
             else if ds \<noteq> [] \<and> to_lower d = CHR ''b'' then digits_base 2 0 ds
             else if list_all (\<lambda>x. x = CHR ''0'') (d # ds) then Some 0 else None)
          else digits_base 10 0 s)"

definition parse_int0 :: "string \<Rightarrow> int option" where
  "parse_int0 s =
     (case strip s of
        [] \<Rightarrow> None
      | c # cs \<Rightarrow>
          if c = CHR ''-'' then map_option (\<lambda>n. - int n) (parse_unsigned0 cs)
          else if c = CHR ''+'' then map_option int (parse_unsigned0 cs)
          else map_option int (parse_unsigned0 (c # cs)))"

text \<open>\<open>bytes.decode("utf-8")\<close> succeeds exactly on well-formed sequences.\<close>

definition cont_byte :: "char \<Rightarrow> bool" where
  "cont_byte c \<longleftrightarrow> (let k = (of_char c :: nat) in 128 \<le> k \<and> k < 192)"

fun utf8_valid :: "string \<Rightarrow> bool" where
  "utf8_valid [] = True"
| "utf8_valid (a # s) =
     (let k = (of_char a :: nat) in
      if k < 128 then utf8_valid s
      else if 194 \<le> k \<and> k < 224 then
        (case s of b # r \<Rightarrow> cont_byte b \<and> utf8_valid r | _ \<Rightarrow> False)
      else if 224 \<le> k \<and> k < 240 then
        (case s of b # c # r \<Rightarrow>
           cont_byte b \<and> cont_byte c \<and>
           (k = 224 \<longrightarrow> 160 \<le> (of_char b :: nat)) \<and> (k = 237 \<longrightarrow> (of_char b :: nat) < 160) \<and>
           utf8_valid r
         | _ \<Rightarrow> False)
      else if 240 \<le> k \<and> k < 245 then
        (case s of b # c # d # r \<Rightarrow>
           cont_byte b \<and> cont_byte c \<and> cont_byte d \<and>
           (k = 240 \<longrightarrow> 144 \<le> (of_char b :: nat)) \<and> (k = 244 \<longrightarrow> (of_char b :: nat) < 144) \<and>
           utf8_valid r
         | _ \<Rightarrow> False)
      else False)"

definition round_half_even :: "pyfloat \<Rightarrow> int" where
  "round_half_even x =
     (let f = \<lfloor>x\<rfloor>; d = x - of_int f
      in if d < 1/2 then f else if d > 1/2 then f + 1 else if even f then f else f + 1)"

text \<open>\<open>datetime.fromtimestamp(secs, tz=utc)\<close>; outside the years 1 to 9999 it raises.\<close>

definition from_timestamp :: "pyfloat \<Rightarrow> instant option" where
  "from_timestamp secs =
     (let us = round_half_even (secs * 1000000)
      in if -62135596800 * 1000000 \<le> us \<and> us < 253402300800 * 1000000 then Some us else None)"

text \<open>\<open>float(v)\<close> and \<open>int(v)\<close>; \<open>float_of\<close> parses a string, \<open>None\<close> is a raised exception.\<close>

definition py_float :: "(string \<Rightarrow> pyfloat option) \<Rightarrow> pyval \<Rightarrow> pyfloat option" where
  "py_float float_of v =
     (case v of PStr s \<Rightarrow> float_of s
      | _ \<Rightarrow> (case as_num v of Some r \<Rightarrow> r | None \<Rightarrow> None))"

definition trunc :: "pyfloat \<Rightarrow> int" where
  "trunc r = (if r < 0 then \<lceil>r\<rceil> else \<lfloor>r\<rfloor>)"

definition py_int :: "pyval \<Rightarrow> int option" where
  "py_int v =
     (case v of PInt i \<Rightarrow> Some i | PBool b \<Rightarrow> Some (if b then 1 else 0)
      | PFloat r \<Rightarrow> Some (trunc r) | PStr s \<Rightarrow> parse_int s | _ \<Rightarrow> None)"

text \<open>\<open>f"{r:.df}"\<close>: fixed-point text with \<open>d\<close> decimals, half to even.\<close>

definition fixed :: "nat \<Rightarrow> pyfloat \<Rightarrow> string" where
  "fixed d r =
     (let n = nat (round_half_even (\<bar>r\<bar> * 10 ^ d)); whole = show_nat (n div 10 ^ d);
          part = pad_left d (CHR ''0'') (show_nat (n mod 10 ^ d))
      in (if r < 0 then ''-'' else []) @ whole @ (if d = 0 then [] else CHR ''.'' # part))"

section \<open>Facts\<close>

lemma round_half_even_of_int [simp]: "round_half_even (of_int i) = i"
  by (simp add: round_half_even_def)

lemma round_half_even_near: "\<bar>x - of_int (round_half_even x)\<bar> \<le> 1/2"
proof -
  obtain f where f: "\<lfloor>x\<rfloor> = f" by simp
  have "of_int f \<le> x" "x < of_int f + 1" using f by linarith+
  then show ?thesis by (auto simp: round_half_even_def Let_def abs_if f)
qed

lemma py_get_Cons_present: "map_of d k = Some v \<Longrightarrow> py_get d (k # ks) = v"
  by simp

lemma py_get_two: "py_get d [k, l] = (case map_of d k of Some v \<Rightarrow> v | None \<Rightarrow> dict_get d l)"
  by (simp add: dict_get_def split: option.splits)

end
