(* ===== verification/Models.thy ===== *)
theory Models
  imports PyValue
begin

text \<open>
  The JSON text of the packet metadata is kept as the three values it renders.
  The data model of \<open>models/*.py\<close>: the normalised packet, the live node snapshot, position and
  telemetry samples, the monitoring session and the connection profile, each a record with the
  fields of its dataclass (prefixed per record, since HOL field names are global), and the derived
  properties of each class.
\<close>

section \<open>NetworkPacket\<close>

record network_packet =
  pk_session_id :: string
  pk_observed_at :: instant
  pk_rx_time :: "instant option"
  pk_sender_num :: "node_id option"
  pk_sender_id :: "string option"
  pk_destination_num :: "node_id option"
  pk_packet_id :: "int option"
  pk_channel_index :: "int option"
  pk_portnum :: "int option"
  pk_portnum_name :: string
  pk_text :: "string option"
  pk_payload_size :: "nat option"
  pk_rx_snr :: "pyfloat option"
  pk_rx_rssi :: "int option"
  pk_hop_start :: "int option"
  pk_hop_limit :: "int option"
  pk_hops_used :: "int option"
  pk_via_mqtt :: "bool option"
  pk_transport_mechanism :: "string option"
  pk_pki_encrypted :: "bool option"
  pk_want_ack :: "bool option"
  pk_priority :: "string option"
  pk_raw_metadata_json :: "(pyval \<times> pyval \<times> pyval) option"

definition packet_is_direct_rf :: "network_packet \<Rightarrow> bool" where
  "packet_is_direct_rf p \<longleftrightarrow>
     pk_hops_used p = Some 0 \<and>
     (case pk_hop_start p of None \<Rightarrow> False | Some s \<Rightarrow> s > 0) \<and>
     pk_via_mqtt p \<noteq> Some True"

definition packet_is_via_mqtt :: "network_packet \<Rightarrow> bool" where
  "packet_is_via_mqtt p \<longleftrightarrow> pk_via_mqtt p = Some True"

definition packet_portnum_label :: "network_packet \<Rightarrow> string" where
  "packet_portnum_label p =
     (if pk_portnum_name p \<noteq> [] then pk_portnum_name p
      else ''PORT_'' @ (case pk_portnum p of None \<Rightarrow> ''None'' | Some n \<Rightarrow> show_int n))"

section \<open>NodeSnapshot\<close>

record node_snapshot =
  nd_num :: node_id
  nd_node_id :: "string option"
  nd_long_name :: "string option"
  nd_short_name :: "string option"
  nd_role :: "string option"
  nd_hw_model :: "string option"
  nd_first_seen :: "instant option"
  nd_last_heard :: "instant option"
  nd_packet_count :: nat
  nd_text_count :: nat
  nd_position_count :: nat
  nd_telemetry_count :: nat
  nd_last_snr :: "pyfloat option"
  nd_last_rssi :: "int option"
  nd_last_hops_used :: "int option"
  nd_last_hop_start :: "int option"
  nd_last_via_mqtt :: "bool option"
  nd_via_mqtt_count :: nat
  nd_rf_count :: nat
  nd_last_telemetry_at :: "instant option"
  nd_battery_level :: "pyfloat option"
  nd_voltage :: "pyfloat option"
  nd_channel_utilization :: "pyfloat option"
  nd_air_util_tx :: "pyfloat option"
  nd_temperature_c :: "pyfloat option"
  nd_relative_humidity :: "pyfloat option"
  nd_barometric_pressure_hpa :: "pyfloat option"

definition node_new :: "node_id \<Rightarrow> node_snapshot" where
  "node_new num = \<lparr>nd_num = num, nd_node_id = None, nd_long_name = None, nd_short_name = None,
     nd_role = None, nd_hw_model = None, nd_first_seen = None, nd_last_heard = None,
     nd_packet_count = 0, nd_text_count = 0, nd_position_count = 0, nd_telemetry_count = 0,
     nd_last_snr = None, nd_last_rssi = None, nd_last_hops_used = None, nd_last_hop_start = None,
     nd_last_via_mqtt = None, nd_via_mqtt_count = 0, nd_rf_count = 0,
     nd_last_telemetry_at = None, nd_battery_level = None, nd_voltage = None,
     nd_channel_utilization = None, nd_air_util_tx = None, nd_temperature_c = None,
     nd_relative_humidity = None, nd_barometric_pressure_hpa = None\<rparr>"

definition node_display_name :: "node_snapshot \<Rightarrow> string" where
  "node_display_name n =
     (case py_or_str (nd_long_name n) (py_or_str (nd_short_name n) (py_or_str (nd_node_id n) None))
      of Some s \<Rightarrow> s | None \<Rightarrow> bang_hex8 (nd_num n))"

definition node_short_display :: "node_snapshot \<Rightarrow> string" where
  "node_short_display n =
     (case py_or_str (nd_short_name n) None of
        Some s \<Rightarrow> s
      | None \<Rightarrow> (case py_or_str (nd_node_id n) None of
          Some s \<Rightarrow> last_n 4 s
        | None \<Rightarrow> hex4 (nd_num n)))"

definition node_is_direct :: "node_snapshot \<Rightarrow> bool" where
  "node_is_direct n \<longleftrightarrow>
     nd_last_hops_used n = Some 0 \<and>
     (case nd_last_hop_start n of None \<Rightarrow> False | Some s \<Rightarrow> s > 0) \<and>
     nd_last_via_mqtt n \<noteq> Some True"

section \<open>PositionSample\<close>

record position_sample =
  ps_node_num :: node_id
  ps_observed_at :: instant
  ps_latitude :: "pyfloat option"
  ps_longitude :: "pyfloat option"
  ps_altitude_m :: "pyfloat option"
  ps_speed_ms :: "pyfloat option"
  ps_heading_deg :: "pyfloat option"
  ps_position_time :: "instant option"
  ps_precision_bits :: "int option"
  ps_sats_in_view :: "int option"

definition position_is_valid :: "position_sample \<Rightarrow> bool" where
  "position_is_valid p \<longleftrightarrow>
     (case (ps_latitude p, ps_longitude p) of
        (Some lat, Some lon) \<Rightarrow> -90 \<le> lat \<and> lat \<le> 90 \<and> -180 \<le> lon \<and> lon \<le> 180
      | _ \<Rightarrow> False)"

definition position_coords :: "position_sample \<Rightarrow> (pyfloat \<times> pyfloat) option" where
  "position_coords p =
     (if position_is_valid p
      then (case (ps_latitude p, ps_longitude p) of
              (Some lat, Some lon) \<Rightarrow> Some (lat, lon) | _ \<Rightarrow> None)
      else None)"

section \<open>TelemetrySample\<close>

record telemetry_sample =
  tl_node_num :: node_id
  tl_observed_at :: instant
  tl_telemetry_time :: "instant option"
  tl_battery_level :: "pyfloat option"
  tl_voltage :: "pyfloat option"
  tl_channel_utilization :: "pyfloat option"
  tl_air_util_tx :: "pyfloat option"
  tl_temperature_c :: "pyfloat option"
  tl_relative_humidity :: "pyfloat option"
  tl_barometric_pressure_hpa :: "pyfloat option"
  tl_gas_resistance_ohm :: "pyfloat option"
  tl_current_a :: "pyfloat option"
  tl_power_w :: "pyfloat option"
  tl_heart_rate_bpm :: "pyfloat option"
  tl_spo2_percent :: "pyfloat option"
  tl_body_temperature_c :: "pyfloat option"

definition telemetry_temperature_f :: "telemetry_sample \<Rightarrow> pyfloat option" where
  "telemetry_temperature_f t = map_option (\<lambda>c. c * 9 / 5 + 32) (tl_temperature_c t)"

section \<open>NetworkSession\<close>

record network_session =
  se_transport :: string
  se_connection_target :: string
  se_id :: string
  se_started_at :: instant
  se_ended_at :: "instant option"
  se_local_node_num :: "node_id option"
  se_local_node_id :: "string option"
  se_meshtastic_version :: "string option"
  se_firmware_version :: "string option"
  se_packet_count :: nat

text \<open>The fresh identifier and the clock are arguments.\<close>

definition session_new :: "string \<Rightarrow> instant \<Rightarrow> string \<Rightarrow> string \<Rightarrow> network_session" where
  "session_new uuid now transport target =
     \<lparr>se_transport = transport, se_connection_target = target, se_id = uuid, se_started_at = now,
      se_ended_at = None, se_local_node_num = None, se_local_node_id = None,
      se_meshtastic_version = None, se_firmware_version = None, se_packet_count = 0\<rparr>"

definition session_elapsed :: "instant \<Rightarrow> network_session \<Rightarrow> pyfloat" where
  "session_elapsed now s =
     of_int ((case se_ended_at s of Some e \<Rightarrow> e | None \<Rightarrow> now) - se_started_at s) / 1000000"

text \<open>\<open>int(x)\<close> truncates towards zero.\<close>

definition py_int_of_float :: "pyfloat \<Rightarrow> int" where
  "py_int_of_float x = (if x < 0 then \<lceil>x\<rceil> else \<lfloor>x\<rfloor>)"

definition session_format_elapsed :: "instant \<Rightarrow> network_session \<Rightarrow> string" where
  "session_format_elapsed now s =
     (let t = py_int_of_float (session_elapsed now s)
      in if t < 3600 then show_int (t div 60) @ ''m '' @ show_int (t mod 60) @ ''s''
         else if t < 86400
         then (let h = t div 3600; r = t mod 3600
               in show_int h @ ''h '' @ show_int (r div 60) @ ''m'')
         else (let d = t div 86400; r = t mod 86400
               in show_int d @ ''d '' @ show_int (r div 3600) @ ''h''))"

definition session_end :: "instant \<Rightarrow> network_session \<Rightarrow> network_session" where
  "session_end now s = s\<lparr>se_ended_at := Some now\<rparr>"

section \<open>ConnectionProfile\<close>

record connection_profile =
  cp_transport :: string
  cp_ble_address :: string
  cp_tcp_host :: string
  cp_tcp_port :: int
  cp_serial_port :: string

definition profile_connection_target :: "connection_profile \<Rightarrow> string" where
  "profile_connection_target p =
     (if cp_transport p = ''tcp'' then cp_tcp_host p @ '':'' @ show_int (cp_tcp_port p)
      else if cp_transport p = ''ble'' then cp_ble_address p
      else cp_serial_port p)"

section \<open>ChatMessage\<close>

datatype message_direction = INBOUND | OUTBOUND | SYSTEM

datatype message_status =
    RECEIVED | SENDING | ACCEPTED_BY_RADIO | ACKNOWLEDGED | FAILED | UNKNOWN_DELIVERY

text \<open>The \<open>.value\<close> of the two enums, as the database stores them.\<close>

primrec direction_value :: "message_direction \<Rightarrow> string" where
  "direction_value INBOUND = ''inbound''"
| "direction_value OUTBOUND = ''outbound''"
| "direction_value SYSTEM = ''system''"

primrec status_value :: "message_status \<Rightarrow> string" where
  "status_value RECEIVED = ''received''"
| "status_value SENDING = ''sending''"
| "status_value ACCEPTED_BY_RADIO = ''accepted_by_radio''"
| "status_value ACKNOWLEDGED = ''acknowledged''"
| "status_value FAILED = ''failed''"
| "status_value UNKNOWN_DELIVERY = ''unknown_delivery''"

record chat_message =
  cm_local_id :: string
  cm_packet_id :: "int option"
  cm_channel_index :: int
  cm_direction :: message_direction
  cm_sender_num :: "node_id option"
  cm_sender_id :: "string option"
  cm_sender_name :: string
  cm_text :: string
  cm_timestamp :: instant
  cm_status :: message_status
  cm_snr :: "pyfloat option"
  cm_hop_count :: "int option"
  cm_destination_num :: "node_id option"
  cm_session_id :: string

section \<open>Facts\<close>

lemma position_coords_iff:
  "position_coords p = Some (lat, lon) \<longleftrightarrow>
     ps_latitude p = Some lat \<and> ps_longitude p = Some lon \<and>
     -90 \<le> lat \<and> lat \<le> 90 \<and> -180 \<le> lon \<and> lon \<le> 180"
  by (auto simp: position_coords_def position_is_valid_def split: option.splits)

lemma session_end_elapsed:
  "session_elapsed later (session_end now s) = session_elapsed now (s\<lparr>se_ended_at := None\<rparr>)"
  by (simp add: session_elapsed_def session_end_def)

end
