(* ===== verification/Metrics.thy ===== *)
theory Metrics
  imports Models
begin

text \<open>
  The pure analytics: \<open>analytics/hop_metrics.py\<close>, \<open>analytics/packet_classifier.py\<close>,
  \<open>analytics/aggregations.py\<close> and \<open>utils/time_format.py\<close>.
\<close>

section \<open>Hop metrics\<close>

definition compute_hops_used :: "int option \<Rightarrow> int option \<Rightarrow> int option" where
  "compute_hops_used hop_start hop_limit =
     (case (hop_start, hop_limit) of
        (Some s, Some l) \<Rightarrow> if s = 0 then None else if l > s then None else Some (s - l)
      | _ \<Rightarrow> None)"

definition is_direct_rf :: "int option \<Rightarrow> int option \<Rightarrow> bool option \<Rightarrow> bool" where
  "is_direct_rf hops_used hop_start via_mqtt \<longleftrightarrow>
     hops_used = Some 0 \<and> (case hop_start of None \<Rightarrow> False | Some s \<Rightarrow> s > 0) \<and>
     via_mqtt \<noteq> Some True"

definition percent_hops_used :: "int option \<Rightarrow> int option \<Rightarrow> pyfloat option" where
  "percent_hops_used hops_used hop_start =
     (case (hops_used, hop_start) of
        (Some u, Some s) \<Rightarrow> if s = 0 then None else Some (of_int u / of_int s)
      | _ \<Rightarrow> None)"

text \<open>The UTF-8 encoding of the en dash of the bucket labels.\<close>

definition hop_efficiency_bucket :: "pyfloat option \<Rightarrow> string" where
  "hop_efficiency_bucket percent =
     (case percent of
        None \<Rightarrow> ''Unknown''
      | Some p \<Rightarrow>
          if p = 0 then ''0%''
          else if p < 1/4 then ''1'' @ endash @ ''24%''
          else if p < 1/2 then ''25'' @ endash @ ''49%''
          else if p < 3/4 then ''50'' @ endash @ ''74%''
          else if p < 1 then ''75'' @ endash @ ''99%''
          else ''100%'')"

lemma compute_hops_used_Some:
  "compute_hops_used s l = Some u \<longleftrightarrow>
     (\<exists>s' l'. s = Some s' \<and> l = Some l' \<and> s' \<noteq> 0 \<and> l' \<le> s' \<and> u = s' - l')"
  by (auto simp: compute_hops_used_def split: option.splits)

lemma compute_hops_used_nonneg: "compute_hops_used s l = Some u \<Longrightarrow> 0 \<le> u"
  by (auto simp: compute_hops_used_Some)

section \<open>Packet classification\<close>

definition PORTNUM_TEXT :: int where "PORTNUM_TEXT = 1"
definition PORTNUM_POSITION :: int where "PORTNUM_POSITION = 3"
definition PORTNUM_NODEINFO :: int where "PORTNUM_NODEINFO = 4"
definition PORTNUM_TELEMETRY :: int where "PORTNUM_TELEMETRY = 67"

definition portnum_labels :: "(int \<times> string) list" where
  "portnum_labels =
     [(0, ''Unknown Port''), (1, ''Text''), (3, ''Position''), (4, ''Node Info''),
      (5, ''Routing''), (67, ''Telemetry''), (70, ''Traceroute''), (71, ''Neighbor Info''),
      (73, ''Map Report''), (256, ''Private App'')]"

definition classify_portnum :: "int option \<Rightarrow> string" where
  "classify_portnum portnum =
     (case portnum of
        None \<Rightarrow> ''Unknown Port''
      | Some n \<Rightarrow> (case map_of portnum_labels n of
          Some l \<Rightarrow> l
        | None \<Rightarrow> ''Other Known ('' @ show_int n @ '')''))"

definition category_mapping :: "(int \<times> string) list" where
  "category_mapping =
     [(1, ''Text''), (3, ''Position''), (4, ''Node Info''), (5, ''Routing''),
      (67, ''Telemetry''), (70, ''Traceroute''), (71, ''Neighbor Info''),
      (73, ''Map Report''), (256, ''Private App'')]"

definition packet_category :: "int option \<Rightarrow> bool option \<Rightarrow> string" where
  "packet_category portnum pki_encrypted =
     (if pki_encrypted = Some True then ''Encrypted/Undecoded''
      else case portnum of
        None \<Rightarrow> ''Unknown Port''
      | Some n \<Rightarrow> (case map_of category_mapping n of
          Some l \<Rightarrow> l
        | None \<Rightarrow> if n = 0 then ''Unknown Port'' else ''Other Known''))"

definition is_text_packet :: "int option \<Rightarrow> bool" where
  "is_text_packet portnum \<longleftrightarrow> portnum = Some PORTNUM_TEXT"

definition is_position_packet :: "int option \<Rightarrow> bool" where
  "is_position_packet portnum \<longleftrightarrow> portnum = Some PORTNUM_POSITION"

definition is_telemetry_packet :: "int option \<Rightarrow> bool" where
  "is_telemetry_packet portnum \<longleftrightarrow> portnum = Some PORTNUM_TELEMETRY"

definition is_nodeinfo_packet :: "int option \<Rightarrow> bool" where
  "is_nodeinfo_packet portnum \<longleftrightarrow> portnum = Some PORTNUM_NODEINFO"

lemmas portnum_defs = PORTNUM_TEXT_def PORTNUM_POSITION_def PORTNUM_NODEINFO_def
  PORTNUM_TELEMETRY_def

text \<open>The packet list's label and the breakdown panel's category name the same port.\<close>

lemma category_agrees_with_label:
  "pki \<noteq> Some True \<Longrightarrow>
     packet_category p pki =
       (case p of
          None \<Rightarrow> classify_portnum None
        | Some n \<Rightarrow> if n \<in> set (map fst portnum_labels) then classify_portnum (Some n)
                   else ''Other Known'')"
  by (auto simp: packet_category_def classify_portnum_def category_mapping_def portnum_labels_def
      split: option.splits)

section \<open>Aggregations\<close>

text \<open>\<open>Counter\<close>: an insertion-ordered dict of counts; \<open>most_common()\<close> sorts by count,
  descending, and is stable.\<close>

fun counter_add :: "'k \<Rightarrow> ('k \<times> nat) list \<Rightarrow> ('k \<times> nat) list" where
  "counter_add k [] = [(k, 1)]"
| "counter_add k ((x, n) # c) = (if x = k then (x, Suc n) # c else (x, n) # counter_add k c)"

definition most_common :: "('k \<times> nat) list \<Rightarrow> ('k \<times> nat) list" where
  "most_common c = sort_key (\<lambda>e. - int (snd e)) c"

definition count_by_category :: "'a list \<Rightarrow> ('a \<Rightarrow> 'k) \<Rightarrow> ('k \<times> nat) list" where
  "count_by_category items key = most_common (fold (\<lambda>x c. counter_add (key x) c) items [])"

text \<open>Python's \<open>sorted(..., reverse=True)\<close> keeps the original order of equal elements.\<close>

definition py_sorted :: "('a \<Rightarrow> 'b :: linorder) \<Rightarrow> bool \<Rightarrow> 'a list \<Rightarrow> 'a list" where
  "py_sorted key reverse xs = (if reverse then rev (sort_key key (rev xs)) else sort_key key xs)"

definition top_n :: "'a list \<Rightarrow> ('a \<Rightarrow> 'b :: linorder) \<Rightarrow> nat \<Rightarrow> bool \<Rightarrow> 'a list" where
  "top_n items key n reverse = take n (py_sorted key reverse items)"

fun group_add :: "'k \<Rightarrow> 'a \<Rightarrow> ('k \<times> 'a list) list \<Rightarrow> ('k \<times> 'a list) list" where
  "group_add k x [] = [(k, [x])]"
| "group_add k x ((y, xs) # g) =
     (if y = k then (y, xs @ [x]) # g else (y, xs) # group_add k x g)"

definition group_by :: "'a list \<Rightarrow> ('a \<Rightarrow> 'k) \<Rightarrow> ('k \<times> 'a list) list" where
  "group_by items key = fold (\<lambda>x g. group_add (key x) x g) items []"

definition role_group :: "string option \<Rightarrow> string" where
  "role_group role =
     (if role \<in> Some ` {''ROUTER'', ''ROUTER_LATE'', ''CLIENT_BASE'', ''ROUTER_CLIENT'', ''REPEATER''}
      then ''Infrastructure''
      else if truthy_str role then ''Client-like'' else ''Unknown'')"

definition friendly_hw_name :: "string option \<Rightarrow> string" where
  "friendly_hw_name hw_model =
     (case py_or_str hw_model None of
        None \<Rightarrow> ''Unknown''
      | Some m \<Rightarrow>
          fold (\<lambda>(old, new) name. replace_str old new name)
            [(''Tbeam'', ''T-Beam''), (''Tlora'', ''T-Lora''), (''Heltec'', ''Heltec''),
             (''Seeed'', ''Seeed''), (''Rak'', ''RAK'')]
            (title (map (\<lambda>c. if c = CHR ''_'' then CHR '' '' else c) m)))"

lemma counter_add_lookup:
  "map_of (counter_add k c) x =
     (if x = k then Some (case map_of c k of None \<Rightarrow> 1 | Some n \<Rightarrow> Suc n) else map_of c x)"
  by (induction k c rule: counter_add.induct) auto

lemma counter_add_keys: "set (map fst (counter_add k c)) = insert k (set (map fst c))"
  by (induction k c rule: counter_add.induct) auto

lemma counter_add_distinct: "distinct (map fst c) \<Longrightarrow> distinct (map fst (counter_add k c))"
proof (induction k c rule: counter_add.induct)
  case (1 k)
  then show ?case by simp
next
  case (2 k x n c)
  then show ?case using counter_add_keys [of k c] by auto
qed

lemma counter_add_sum: "sum_list (map snd (counter_add k c)) = Suc (sum_list (map snd c))"
  by (induction k c rule: counter_add.induct) auto

lemma counter_fold:
  assumes "distinct (map fst c)"
  shows "distinct (map fst (fold (\<lambda>x c. counter_add (key x) c) items c))"
    and "sum_list (map snd (fold (\<lambda>x c. counter_add (key x) c) items c))
         = sum_list (map snd c) + length items"
  using assms
  by (induction items arbitrary: c) (simp_all add: counter_add_distinct counter_add_sum)

lemma counter_fold_lookup:
  "map_of (fold (\<lambda>x c. counter_add (key x) c) items c) k =
     (let m = length (filter (\<lambda>x. key x = k) items)
      in case map_of c k of None \<Rightarrow> if m = 0 then None else Some m | Some n \<Rightarrow> Some (n + m))"
  by (induction items arbitrary: c) (auto simp: counter_add_lookup Let_def split: option.splits)

lemma map_of_sort_key:
  assumes "distinct (map fst c)"
  shows "map_of (sort_key f c) k = map_of c k"
proof -
  have "mset (map fst (sort_key f c)) = mset (map fst c)" by simp
  then have "distinct (map fst (sort_key f c))"
    using assms mset_eq_imp_distinct_iff by blast
  with assms have "map_of (sort_key f c) k = Some v \<longleftrightarrow> map_of c k = Some v" for v
    by simp
  then show ?thesis by (metis option.exhaust)
qed

section \<open>Relative time\<close>

definition relative_age :: "instant \<Rightarrow> instant option \<Rightarrow> string \<Rightarrow> string \<Rightarrow> string" where
  "relative_age now ts placeholder suffix =
     (case ts of
        None \<Rightarrow> placeholder
      | Some t \<Rightarrow>
          (let delta0 = (of_int (now - t) / 1000000 :: pyfloat);
               delta = (if delta0 < 0 then 0 else delta0);
               value = (if delta < 60 then show_int (py_int_of_float delta) @ ''s''
                        else if delta < 3600 then show_int \<lfloor>delta / 60\<rfloor> @ ''m''
                        else if delta < 86400 then show_int \<lfloor>delta / 3600\<rfloor> @ ''h''
                        else show_int \<lfloor>delta / 86400\<rfloor> @ ''d'')
           in value @ suffix))"

definition format_elapsed :: "int \<Rightarrow> string" where
  "format_elapsed seconds =
     (if seconds < 60 then show_int seconds @ ''s''
      else if seconds < 3600 then show_int (seconds div 60) @ ''m''
      else if seconds < 86400
      then show_int (seconds div 3600) @ ''h '' @ show_int ((seconds mod 3600) div 60) @ ''m''
      else show_int (seconds div 86400) @ ''d '' @ show_int ((seconds mod 86400) div 3600) @ ''h'')"

end
