(* ===== verification/Database.thy ===== *)
theory Database
  imports Models
begin

text \<open>
  The tables of \<open>database/schema.py\<close> and the SQL statements of \<open>services/monitor_store.py\<close> that
  read and write them, as functions on a \<open>database\<close> record.  A table is the list of its rows in
  rowid order; a table with a primary key is an insertion-ordered association list.  Timestamps are
  stored as ISO-8601 text in UTC; the model keeps the instant and compares instants, which agrees
  with the text order for strings of that one shape.
\<close>

section \<open>Rows\<close>

text \<open>A row of \<open>packets\<close>: booleans are stored as integers, the message text is not stored.\<close>

record packet_row =
  pr_session_id :: string
  pr_observed_at :: instant
  pr_rx_time :: "instant option"
  pr_sender_num :: "node_id option"
  pr_sender_id :: "string option"
  pr_destination_num :: "node_id option"
  pr_packet_id :: "int option"
  pr_channel_index :: "int option"
  pr_portnum :: "int option"
  pr_portnum_name :: "string option"
  pr_payload_size :: "nat option"
  pr_rx_snr :: "pyfloat option"
  pr_rx_rssi :: "int option"
  pr_hop_start :: "int option"
  pr_hop_limit :: "int option"
  pr_hops_used :: "int option"
  pr_via_mqtt :: "int option"
  pr_transport_mechanism :: "string option"
  pr_pki_encrypted :: "int option"
  pr_want_ack :: "int option"
  pr_priority :: "string option"

record node_row =
  nr_node_id :: "string option"
  nr_long_name :: "string option"
  nr_short_name :: "string option"
  nr_role :: "string option"
  nr_hw_model :: "string option"
  nr_first_seen :: "instant option"
  nr_last_heard :: "instant option"
  nr_packet_count :: nat
  nr_text_count :: nat
  nr_last_snr :: "pyfloat option"
  nr_last_rssi :: "int option"
  nr_last_hops_used :: "int option"
  nr_last_hop_start :: "int option"
  nr_last_via_mqtt :: "int option"
  nr_rf_count :: nat
  nr_via_mqtt_count :: nat
  nr_position_count :: nat
  nr_telemetry_count :: nat

record message_row =
  mr_session_id :: string
  mr_local_id :: string
  mr_packet_id :: "int option"
  mr_channel_index :: int
  mr_destination_num :: "node_id option"
  mr_direction :: string
  mr_sender_num :: "node_id option"
  mr_sender_id :: "string option"
  mr_sender_name :: string
  mr_text :: string
  mr_observed_at :: instant
  mr_byte_count :: nat
  mr_status :: string

record telemetry_row =
  tr_node_num :: node_id
  tr_observed_at :: instant
  tr_battery_level :: "pyfloat option"
  tr_voltage :: "pyfloat option"
  tr_channel_utilization :: "pyfloat option"
  tr_air_util_tx :: "pyfloat option"
  tr_temperature_c :: "pyfloat option"
  tr_relative_humidity :: "pyfloat option"
  tr_barometric_pressure_hpa :: "pyfloat option"
  tr_gas_resistance_ohm :: "pyfloat option"

record position_row =
  or_node_num :: node_id
  or_observed_at :: instant
  or_latitude :: "pyfloat option"
  or_longitude :: "pyfloat option"
  or_altitude_m :: "pyfloat option"
  or_speed_ms :: "pyfloat option"
  or_heading_deg :: "pyfloat option"
  or_position_time :: "instant option"
  or_precision_bits :: "int option"

record session_row =
  sr_started_at :: instant
  sr_ended_at :: "instant option"
  sr_local_node_num :: "node_id option"
  sr_local_node_id :: "string option"
  sr_transport :: string
  sr_connection_target :: string
  sr_meshtastic_version :: "string option"
  sr_firmware_version :: "string option"

record database =
  db_sessions :: "(string \<times> session_row) list"
  db_packets :: "packet_row list"
  db_nodes :: "(node_id \<times> node_row) list"
  db_positions :: "position_row list"
  db_telemetry :: "telemetry_row list"
  db_messages :: "message_row list"
  db_settings :: "(string \<times> string) list"

definition empty_db :: database where
  "empty_db = \<lparr>db_sessions = [], db_packets = [], db_nodes = [], db_positions = [],
     db_telemetry = [], db_messages = [], db_settings = []\<rparr>"

section \<open>Statements that write\<close>

definition bool_int :: "bool option \<Rightarrow> int option" where
  "bool_int b = map_option (\<lambda>x. if x then 1 else 0) b"

definition int_bool :: "int option \<Rightarrow> bool option" where
  "int_bool i = map_option (\<lambda>x. x \<noteq> 0) i"

lemma int_bool_bool_int [simp]: "int_bool (bool_int b) = b"
  by (cases b) (simp_all add: bool_int_def int_bool_def)

definition packet_row_of :: "network_packet \<Rightarrow> packet_row" where
  "packet_row_of p = \<lparr>pr_session_id = pk_session_id p, pr_observed_at = pk_observed_at p,
     pr_rx_time = pk_rx_time p, pr_sender_num = pk_sender_num p, pr_sender_id = pk_sender_id p,
     pr_destination_num = pk_destination_num p, pr_packet_id = pk_packet_id p,
     pr_channel_index = pk_channel_index p, pr_portnum = pk_portnum p,
     pr_portnum_name = Some (pk_portnum_name p), pr_payload_size = pk_payload_size p,
     pr_rx_snr = pk_rx_snr p, pr_rx_rssi = pk_rx_rssi p, pr_hop_start = pk_hop_start p,
     pr_hop_limit = pk_hop_limit p, pr_hops_used = pk_hops_used p,
     pr_via_mqtt = bool_int (pk_via_mqtt p),
     pr_transport_mechanism = pk_transport_mechanism p,
     pr_pki_encrypted = bool_int (pk_pki_encrypted p), pr_want_ack = bool_int (pk_want_ack p),
     pr_priority = pk_priority p\<rparr>"

definition write_packet :: "network_packet \<Rightarrow> database \<Rightarrow> database" where
  "write_packet p db = db\<lparr>db_packets := db_packets db @ [packet_row_of p]\<rparr>"

text \<open>\<open>INSERT OR REPLACE\<close>: the conflicting row is deleted, the new one gets a new rowid.\<close>

definition replace_row :: "'k \<Rightarrow> 'v \<Rightarrow> ('k \<times> 'v) list \<Rightarrow> ('k \<times> 'v) list" where
  "replace_row k v t = filter (\<lambda>e. fst e \<noteq> k) t @ [(k, v)]"

definition write_session :: "network_session \<Rightarrow> database \<Rightarrow> database" where
  "write_session s db = db\<lparr>db_sessions := replace_row (se_id s)
     \<lparr>sr_started_at = se_started_at s, sr_ended_at = se_ended_at s,
      sr_local_node_num = se_local_node_num s, sr_local_node_id = se_local_node_id s,
      sr_transport = se_transport s, sr_connection_target = se_connection_target s,
      sr_meshtastic_version = se_meshtastic_version s,
      sr_firmware_version = se_firmware_version s\<rparr> (db_sessions db)\<rparr>"

definition position_row_of :: "position_sample \<Rightarrow> position_row" where
  "position_row_of p = \<lparr>or_node_num = ps_node_num p, or_observed_at = ps_observed_at p,
     or_latitude = ps_latitude p, or_longitude = ps_longitude p, or_altitude_m = ps_altitude_m p,
     or_speed_ms = ps_speed_ms p, or_heading_deg = ps_heading_deg p,
     or_position_time = ps_position_time p, or_precision_bits = ps_precision_bits p\<rparr>"

definition write_position :: "position_sample \<Rightarrow> database \<Rightarrow> database" where
  "write_position p db = db\<lparr>db_positions := db_positions db @ [position_row_of p]\<rparr>"

definition telemetry_row_of :: "telemetry_sample \<Rightarrow> telemetry_row" where
  "telemetry_row_of t = \<lparr>tr_node_num = tl_node_num t, tr_observed_at = tl_observed_at t,
     tr_battery_level = tl_battery_level t, tr_voltage = tl_voltage t,
     tr_channel_utilization = tl_channel_utilization t, tr_air_util_tx = tl_air_util_tx t,
     tr_temperature_c = tl_temperature_c t, tr_relative_humidity = tl_relative_humidity t,
     tr_barometric_pressure_hpa = tl_barometric_pressure_hpa t,
     tr_gas_resistance_ohm = tl_gas_resistance_ohm t\<rparr>"

definition write_telemetry :: "telemetry_sample \<Rightarrow> database \<Rightarrow> database" where
  "write_telemetry t db = db\<lparr>db_telemetry := db_telemetry db @ [telemetry_row_of t]\<rparr>"

text \<open>\<open>INSERT INTO nodes ... ON CONFLICT(node_num) DO UPDATE SET ...\<close>\<close>

definition node_row_of :: "node_snapshot \<Rightarrow> node_row" where
  "node_row_of n = \<lparr>nr_node_id = nd_node_id n, nr_long_name = nd_long_name n,
     nr_short_name = nd_short_name n, nr_role = nd_role n, nr_hw_model = nd_hw_model n,
     nr_first_seen = nd_first_seen n, nr_last_heard = nd_last_heard n,
     nr_packet_count = nd_packet_count n, nr_text_count = nd_text_count n,
     nr_last_snr = nd_last_snr n, nr_last_rssi = nd_last_rssi n,
     nr_last_hops_used = nd_last_hops_used n, nr_last_hop_start = nd_last_hop_start n,
     nr_last_via_mqtt = bool_int (nd_last_via_mqtt n), nr_rf_count = nd_rf_count n,
     nr_via_mqtt_count = nd_via_mqtt_count n, nr_position_count = nd_position_count n,
     nr_telemetry_count = nd_telemetry_count n\<rparr>"

definition coalesce :: "'a option \<Rightarrow> 'a option \<Rightarrow> 'a option" where
  "coalesce a b = (case a of None \<Rightarrow> b | Some x \<Rightarrow> Some x)"

text \<open>SQLite's scalar \<open>MAX(a, b)\<close> is NULL when either argument is.\<close>

definition sql_max :: "'a :: linorder option \<Rightarrow> 'a option \<Rightarrow> 'a option" where
  "sql_max a b = (case (a, b) of (Some x, Some y) \<Rightarrow> Some (max x y) | _ \<Rightarrow> None)"

text \<open>The guard of the five \<open>CASE\<close> expressions: the written observation is at least as new.\<close>

definition observation_newer :: "node_row \<Rightarrow> node_row \<Rightarrow> bool" where
  "observation_newer excluded old \<longleftrightarrow>
     (case nr_last_heard excluded of
        None \<Rightarrow> False
      | Some e \<Rightarrow> (case nr_last_heard old of None \<Rightarrow> True | Some l \<Rightarrow> e \<ge> l))"

definition merge_node_row :: "node_row \<Rightarrow> node_row \<Rightarrow> node_row" where
  "merge_node_row excluded old =
     (let newer = observation_newer excluded old in
      old\<lparr>nr_node_id := nr_node_id excluded,
          nr_long_name := coalesce (nr_long_name excluded) (nr_long_name old),
          nr_short_name := coalesce (nr_short_name excluded) (nr_short_name old),
          nr_role := coalesce (nr_role excluded) (nr_role old),
          nr_hw_model := coalesce (nr_hw_model excluded) (nr_hw_model old),
          nr_last_heard :=
            coalesce (sql_max (nr_last_heard excluded) (nr_last_heard old))
              (coalesce (nr_last_heard excluded) (nr_last_heard old)),
          nr_packet_count := max (nr_packet_count excluded) (nr_packet_count old),
          nr_text_count := max (nr_text_count excluded) (nr_text_count old),
          nr_last_snr := (if newer then nr_last_snr excluded else nr_last_snr old),
          nr_last_rssi := (if newer then nr_last_rssi excluded else nr_last_rssi old),
          nr_last_hops_used :=
            (if newer then nr_last_hops_used excluded else nr_last_hops_used old),
          nr_last_hop_start :=
            (if newer then nr_last_hop_start excluded else nr_last_hop_start old),
          nr_last_via_mqtt :=
            (if newer then nr_last_via_mqtt excluded else nr_last_via_mqtt old),
          nr_rf_count := max (nr_rf_count excluded) (nr_rf_count old),
          nr_via_mqtt_count := max (nr_via_mqtt_count excluded) (nr_via_mqtt_count old),
          nr_position_count := max (nr_position_count excluded) (nr_position_count old),
          nr_telemetry_count := max (nr_telemetry_count excluded) (nr_telemetry_count old)\<rparr>)"

definition write_node :: "node_snapshot \<Rightarrow> database \<Rightarrow> database" where
  "write_node n db =
     (case map_of (db_nodes db) (nd_num n) of
        None \<Rightarrow> db\<lparr>db_nodes := db_nodes db @ [(nd_num n, node_row_of n)]\<rparr>
      | Some old \<Rightarrow>
          db\<lparr>db_nodes := odict_put (nd_num n) (merge_node_row (node_row_of n) old) (db_nodes db)\<rparr>)"

text \<open>\<open>INSERT OR IGNORE INTO messages\<close>: \<open>local_id\<close> is UNIQUE, a second insert does nothing.\<close>

definition message_row_of :: "chat_message \<Rightarrow> message_row" where
  "message_row_of m = \<lparr>mr_session_id = cm_session_id m, mr_local_id = cm_local_id m,
     mr_packet_id = cm_packet_id m, mr_channel_index = cm_channel_index m,
     mr_destination_num = cm_destination_num m, mr_direction = direction_value (cm_direction m),
     mr_sender_num = cm_sender_num m, mr_sender_id = cm_sender_id m,
     mr_sender_name = cm_sender_name m, mr_text = cm_text m, mr_observed_at = cm_timestamp m,
     mr_byte_count = length (cm_text m), mr_status = status_value (cm_status m)\<rparr>"

definition write_message :: "chat_message \<Rightarrow> database \<Rightarrow> database" where
  "write_message m db =
     (if cm_local_id m \<in> set (map mr_local_id (db_messages db)) then db
      else db\<lparr>db_messages := db_messages db @ [message_row_of m]\<rparr>)"

text \<open>\<open>UPDATE messages SET status=?, packet_id=COALESCE(?, packet_id) WHERE local_id=?\<close>\<close>

definition write_message_status ::
    "string \<Rightarrow> int option \<Rightarrow> message_status \<Rightarrow> database \<Rightarrow> database" where
  "write_message_status local_id packet_id status db =
     db\<lparr>db_messages := map (\<lambda>r.
          if mr_local_id r = local_id
          then r\<lparr>mr_status := status_value status, mr_packet_id := coalesce packet_id (mr_packet_id r)\<rparr>
          else r) (db_messages db)\<rparr>"

definition write_setting :: "string \<Rightarrow> string \<Rightarrow> database \<Rightarrow> database" where
  "write_setting k v db = db\<lparr>db_settings := replace_row k v (db_settings db)\<rparr>"

section \<open>Statements that read\<close>

text \<open>\<open>ORDER BY observed_at DESC LIMIT n\<close>; rows with equal keys in rowid order.\<close>

definition newest_first :: "('a \<Rightarrow> instant) \<Rightarrow> 'a list \<Rightarrow> 'a list" where
  "newest_first key rows = sort_key (\<lambda>r. - key r) rows"

definition read_packets :: "string \<Rightarrow> nat \<Rightarrow> int option \<Rightarrow> database \<Rightarrow> packet_row list" where
  "read_packets session_id limit portnum db =
     take limit (newest_first pr_observed_at
       (filter (\<lambda>r. pr_session_id r = session_id \<and>
                    (case portnum of None \<Rightarrow> True | Some n \<Rightarrow> pr_portnum r = Some n))
          (db_packets db)))"

definition packet_of_row :: "packet_row \<Rightarrow> network_packet" where
  "packet_of_row r = \<lparr>pk_session_id = pr_session_id r, pk_observed_at = pr_observed_at r,
     pk_rx_time = pr_rx_time r, pk_sender_num = pr_sender_num r, pk_sender_id = pr_sender_id r,
     pk_destination_num = pr_destination_num r, pk_packet_id = pr_packet_id r,
     pk_channel_index = pr_channel_index r, pk_portnum = pr_portnum r,
     pk_portnum_name = (case pr_portnum_name r of None \<Rightarrow> [] | Some s \<Rightarrow> s),
     pk_text = None, pk_payload_size = pr_payload_size r, pk_rx_snr = pr_rx_snr r,
     pk_rx_rssi = pr_rx_rssi r, pk_hop_start = pr_hop_start r, pk_hop_limit = pr_hop_limit r,
     pk_hops_used = pr_hops_used r, pk_via_mqtt = int_bool (pr_via_mqtt r),
     pk_transport_mechanism = pr_transport_mechanism r,
     pk_pki_encrypted = int_bool (pr_pki_encrypted r), pk_want_ack = int_bool (pr_want_ack r),
     pk_priority = pr_priority r, pk_raw_metadata_json = None\<rparr>"

definition read_packets_as_objects :: "string \<Rightarrow> nat \<Rightarrow> database \<Rightarrow> network_packet list" where
  "read_packets_as_objects session_id limit db =
     map packet_of_row (read_packets session_id limit None db)"

definition packet_count :: "string \<Rightarrow> database \<Rightarrow> nat" where
  "packet_count session_id db =
     length (filter (\<lambda>r. pr_session_id r = session_id) (db_packets db))"

text \<open>\<open>ORDER BY last_heard DESC\<close>: NULL sorts as smaller than every value.\<close>

definition null_first :: "instant option \<Rightarrow> int \<times> int" where
  "null_first t = (case t of None \<Rightarrow> (0, 0) | Some i \<Rightarrow> (1, i))"

definition heard_desc :: "node_row \<Rightarrow> node_row \<Rightarrow> bool" where
  "heard_desc a b \<longleftrightarrow>
     (let x = null_first (nr_last_heard a); y = null_first (nr_last_heard b)
      in fst x > fst y \<or> (fst x = fst y \<and> snd x \<ge> snd y))"

fun insert_desc :: "(node_id \<times> node_row) \<Rightarrow> (node_id \<times> node_row) list \<Rightarrow> (node_id \<times> node_row) list"
where
  "insert_desc e [] = [e]"
| "insert_desc e (x # xs) =
     (if heard_desc (snd e) (snd x) then e # x # xs else x # insert_desc e xs)"

definition read_nodes :: "database \<Rightarrow> (node_id \<times> node_row) list" where
  "read_nodes db = foldr insert_desc (db_nodes db) []"

definition read_positions :: "node_id \<Rightarrow> nat \<Rightarrow> database \<Rightarrow> position_row list" where
  "read_positions node_num limit db =
     take limit (newest_first or_observed_at
       (filter (\<lambda>r. or_node_num r = node_num) (db_positions db)))"

definition read_latest_position :: "node_id \<Rightarrow> database \<Rightarrow> position_row option" where
  "read_latest_position node_num db =
     (case read_positions node_num 1 db of [] \<Rightarrow> None | r # _ \<Rightarrow> Some r)"

text \<open>The join of \<open>read_latest_positions\<close>: per node the latest \<open>observed_at\<close> among its rows with
  coordinates, and every row of that node at that time; the result dict keeps the last of them.\<close>

definition latest_obs :: "node_id \<Rightarrow> database \<Rightarrow> instant option" where
  "latest_obs n db =
     (let ts = map or_observed_at (filter (\<lambda>r. or_node_num r = n \<and> or_latitude r \<noteq> None \<and>
                 or_longitude r \<noteq> None) (db_positions db))
      in if ts = [] then None else Some (Max (set ts)))"

definition read_latest_positions :: "database \<Rightarrow> (node_id \<times> position_row) list" where
  "read_latest_positions db =
     fold (\<lambda>r d. odict_put (or_node_num r) r d)
       (filter (\<lambda>r. latest_obs (or_node_num r) db = Some (or_observed_at r)) (db_positions db)) []"

text \<open>The newest \<open>limit\<close> messages (by time, then rowid), returned oldest first.  A row's rowid is
  its index in the table.\<close>

definition read_messages :: "nat \<Rightarrow> database \<Rightarrow> message_row list" where
  "read_messages limit db =
     rev (take limit (rev (sort_key mr_observed_at (db_messages db))))"

definition get_setting :: "string \<Rightarrow> database \<Rightarrow> string option" where
  "get_setting k db = map_of (db_settings db) k"

section \<open>Pruning\<close>

definition day_us :: int where "day_us = 24 * 60 * 60 * 1000000"

text \<open>The three DELETEs of one transaction, and the non-zero counts in statement order.\<close>

definition prune_on :: "instant \<Rightarrow> int \<Rightarrow> database \<Rightarrow> (string \<times> nat) list \<times> database" where
  "prune_on now retain_days db =
     (let cutoff = now - retain_days * day_us;
          db' = db\<lparr>db_packets := filter (\<lambda>r. \<not> pr_observed_at r < cutoff) (db_packets db),
                   db_positions := filter (\<lambda>r. \<not> or_observed_at r < cutoff) (db_positions db),
                   db_telemetry := filter (\<lambda>r. \<not> tr_observed_at r < cutoff) (db_telemetry db)\<rparr>;
          counts =
            [(''packets'', length (filter (\<lambda>r. pr_observed_at r < cutoff) (db_packets db))),
             (''positions'', length (filter (\<lambda>r. or_observed_at r < cutoff) (db_positions db))),
             (''telemetry'', length (filter (\<lambda>r. tr_observed_at r < cutoff) (db_telemetry db)))]
      in (filter (\<lambda>c. snd c > 0) counts, db'))"

definition prune :: "instant \<Rightarrow> int \<Rightarrow> database \<Rightarrow> (string \<times> nat) list \<times> database" where
  "prune now retain_days db = (if retain_days \<le> 0 then ([], db) else prune_on now retain_days db)"


section \<open>Facts on the statements\<close>

lemma replace_row_lookup: "map_of (replace_row k v t) = (map_of t)(k \<mapsto> v)"
  by (rule ext) (auto simp: replace_row_def map_of_filter_key map_add_def split: option.splits)

lemma get_setting_write: "get_setting k (write_setting k' v db) =
    (if k = k' then Some v else get_setting k db)"
  by (simp add: get_setting_def write_setting_def replace_row_lookup)

lemma packet_row_roundtrip:
  "packet_of_row (packet_row_of p) = p\<lparr>pk_text := None, pk_raw_metadata_json := None\<rparr>"
  by (cases p) (simp add: packet_of_row_def packet_row_of_def)

lemma write_node_lookup:
  "map_of (db_nodes (write_node n db)) k =
     (if k = nd_num n
      then Some (case map_of (db_nodes db) k of
                   None \<Rightarrow> node_row_of n | Some old \<Rightarrow> merge_node_row (node_row_of n) old)
      else map_of (db_nodes db) k)"
  by (auto simp: write_node_def odict_put_lookup map_add_def split: option.splits)

lemma coalesce_idem [simp]: "coalesce a (coalesce a b) = coalesce a b"
  by (cases a) (simp_all add: coalesce_def)

lemma coalesce_None [simp]: "coalesce None b = b" "coalesce a None = a"
  by (cases a; simp add: coalesce_def)+

lemma coalesce_Some [simp]: "coalesce (Some x) b = Some x"
  by (simp add: coalesce_def)

lemma sql_max_simps [simp]:
  "sql_max None b = None" "sql_max a None = None" "sql_max (Some x) (Some y) = Some (max x y)"
  by (cases a; simp add: sql_max_def)+

text \<open>The time of the merged row is the later one, NULL counting as never.\<close>

definition later :: "instant option \<Rightarrow> instant option \<Rightarrow> instant option" where
  "later a b = (case a of None \<Rightarrow> b | Some x \<Rightarrow> (case b of None \<Rightarrow> a | Some y \<Rightarrow> Some (max x y)))"

lemma later_comm: "later a b = later b a"
  by (auto simp: later_def max.commute split: option.splits)

lemma later_assoc: "later a (later b c) = later (later a b) c"
  by (auto simp: later_def max.assoc split: option.splits)

lemma later_idem [simp]: "later a (later a b) = later a b"
  by (auto simp: later_def split: option.splits)

lemma merge_last_heard: "nr_last_heard (merge_node_row e o') = later (nr_last_heard e) (nr_last_heard o')"
  by (auto simp: merge_node_row_def later_def Let_def split: option.splits)

text \<open>The fields that describe one observation, taken together.\<close>

definition observation :: "node_row \<Rightarrow>
    pyfloat option \<times> int option \<times> int option \<times> int option \<times> int option" where
  "observation r = (nr_last_snr r, nr_last_rssi r, nr_last_hops_used r, nr_last_hop_start r,
     nr_last_via_mqtt r)"

lemma merge_observation:
  "observation (merge_node_row e o') = (if observation_newer e o' then observation e else observation o')"
  by (simp add: observation_def merge_node_row_def Let_def)

definition counters :: "node_row \<Rightarrow> nat list" where
  "counters r = [nr_packet_count r, nr_text_count r, nr_rf_count r, nr_via_mqtt_count r,
     nr_position_count r, nr_telemetry_count r]"

lemma merge_counters: "counters (merge_node_row e o') = map2 max (counters e) (counters o')"
  by (simp add: counters_def merge_node_row_def Let_def)

lemma observation_newer_merge: "observation_newer e (merge_node_row e o') = observation_newer e o'"
  by (auto simp: observation_newer_def merge_last_heard later_def split: option.splits)

lemma merge_node_row_idem: "merge_node_row e (merge_node_row e o') = merge_node_row e o'"
proof -
  have n: "observation_newer e (merge_node_row e o') = observation_newer e o'"
    by (rule observation_newer_merge)
  have h: "nr_last_heard (merge_node_row e (merge_node_row e o')) = nr_last_heard (merge_node_row e o')"
    by (simp add: merge_last_heard)
  show ?thesis
    by (rule node_row.equality)
       (use n h in \<open>simp_all add: merge_node_row_def Let_def\<close>)
qed

lemma merge_observation_order:
  assumes "nr_last_heard a \<noteq> nr_last_heard b \<or> nr_last_heard a = None"
  shows "observation (merge_node_row a (merge_node_row b o')) =
         observation (merge_node_row b (merge_node_row a o'))"
  using assms
  by (auto simp: merge_observation observation_newer_def merge_last_heard later_def max_def
      split: option.splits)

lemma sorted_newest_first: "sorted (map (\<lambda>r. - key r) (newest_first key rows))"
  by (simp add: newest_first_def)

lemma prune_on_frame:
  "db_nodes (snd (prune_on now d db)) = db_nodes db"
  "db_messages (snd (prune_on now d db)) = db_messages db"
  "db_sessions (snd (prune_on now d db)) = db_sessions db"
  "db_settings (snd (prune_on now d db)) = db_settings db"
  by (simp_all add: prune_on_def Let_def)

lemma prune_on_idem: "snd (prune_on now d (snd (prune_on now d db))) = snd (prune_on now d db)"
  by (simp add: prune_on_def Let_def filter_filter)

lemma prune_on_count:
  "sum_list (map snd (fst (prune_on now d db))) + length (db_packets (snd (prune_on now d db)))
     + length (db_positions (snd (prune_on now d db)))
     + length (db_telemetry (snd (prune_on now d db)))
   = length (db_packets db) + length (db_positions db) + length (db_telemetry db)"
proof -
  have sum_pos: "sum_list (map snd (filter (\<lambda>c. snd c > 0) cs)) = sum_list (map snd cs)"
    for cs :: "(string \<times> nat) list" by (induction cs) auto
  have split: "length (filter P xs) + length (filter (\<lambda>x. \<not> P x) xs) = length xs"
    for P and xs :: "'a list" by (rule sum_length_filter_compl)
  show ?thesis
    using split [of "\<lambda>r. pr_observed_at r < now - d * day_us" "db_packets db"]
      sum_length_filter_compl [of "\<lambda>r. or_observed_at r < now - d * day_us" "db_positions db"]
      sum_length_filter_compl [of "\<lambda>r. tr_observed_at r < now - d * day_us" "db_telemetry db"]
    by (simp add: prune_on_def Let_def sum_pos del: filter.simps)
qed

lemma set_read_messages: "set (read_messages n db) \<subseteq> set (db_messages db)"
  unfolding read_messages_def by (metis set_rev set_sort set_take_subset)

lemma read_messages_suffix:
  "read_messages n db = drop (length (db_messages db) - n) (sort_key mr_observed_at (db_messages db))"
  by (simp add: read_messages_def take_rev)

lemma sorted_read_messages: "sorted (map mr_observed_at (read_messages n db))"
  by (simp add: read_messages_suffix drop_map [symmetric] sorted_wrt_drop)

text \<open>What \<open>read_messages\<close> leaves out is no newer than what it returns.\<close>

lemma read_messages_newest:
  assumes "m \<in> set (db_messages db)" "m \<notin> set (read_messages n db)" "r \<in> set (read_messages n db)"
  shows "mr_observed_at m \<le> mr_observed_at r"
proof -
  let ?s = "sort_key mr_observed_at (db_messages db)"
  let ?k = "length (db_messages db) - n"
  have "m \<in> set ?s" using assms(1) by simp
  then have "m \<in> set (take ?k ?s) \<union> set (drop ?k ?s)" by (metis append_take_drop_id set_append)
  with assms(2) have "m \<in> set (take ?k ?s)" by (simp add: read_messages_suffix)
  moreover have "r \<in> set (drop ?k ?s)" using assms(3) by (simp add: read_messages_suffix)
  moreover have "sorted (map mr_observed_at (take ?k ?s) @ map mr_observed_at (drop ?k ?s))"
    by (metis append_take_drop_id map_append sorted_sort_key)
  ultimately show ?thesis by (auto simp: sorted_wrt_append)
qed

lemma write_message_status_ids:
  "map mr_local_id (db_messages (write_message_status l p st db)) = map mr_local_id (db_messages db)"
  by (simp add: write_message_status_def comp_def if_distrib cong: if_cong)

lemma write_message_ids:
  "distinct (map mr_local_id (db_messages db)) \<Longrightarrow>
     distinct (map mr_local_id (db_messages (write_message m db)))"
  by (auto simp: write_message_def message_row_of_def)

section \<open>Settings as a key-value store\<close>

text \<open>What the clients of the settings table rely on: a lookup returns the last value stored under
  the key, and storing under one key does not disturb another.\<close>

locale settings =
  fixes lookup :: "'k \<Rightarrow> 's \<Rightarrow> 'v option" and put :: "'k \<Rightarrow> 'v \<Rightarrow> 's \<Rightarrow> 's"
  assumes lookup_put: "lookup k (put k' v s) = (if k = k' then Some v else lookup k s)"
begin

definition put_all :: "('k \<times> 'v) list \<Rightarrow> 's \<Rightarrow> 's" where
  "put_all kvs s = fold (\<lambda>kv. put (fst kv) (snd kv)) kvs s"

lemma lookup_put_all_other: "k \<notin> set (map fst kvs) \<Longrightarrow> lookup k (put_all kvs s) = lookup k s"
  by (induction kvs arbitrary: s) (auto simp: put_all_def lookup_put)

lemma lookup_put_all:
  "distinct (map fst kvs) \<Longrightarrow> (k, v) \<in> set kvs \<Longrightarrow> lookup k (put_all kvs s) = Some v"
proof (induction kvs arbitrary: s)
  case (Cons kv kvs)
  show ?case
  proof (cases "(k, v) \<in> set kvs")
    case True
    with Cons show ?thesis by (simp add: put_all_def)
  next
    case False
    with Cons.prems(2) have "kv = (k, v)" by simp
    with Cons.prems(1) have kv: "kv = (k, v)" "k \<notin> set (map fst kvs)" by simp_all
    then have "lookup k (put_all kvs (put k v s)) = lookup k (put k v s)"
      by (intro lookup_put_all_other)
    with kv show ?thesis by (simp add: put_all_def lookup_put)
  qed
qed simp

end

interpretation db_settings: settings get_setting write_setting
  by unfold_locales (rule get_setting_write)

text \<open>Upserts of one node from two sources may reach the writer in either order (the radio's
  NodeDB seed and live packets, say): whatever the table held, the stored last-heard time, the
  reading of the newest observation and all counters come out the same.\<close>

theorem node_upserts_commute:
  assumes "nd_num a = k" "nd_num b = k" "nd_last_heard a \<noteq> nd_last_heard b"
  shows "\<exists>r1 r2. map_of (db_nodes (write_node a (write_node b db))) k = Some r1 \<and>
    map_of (db_nodes (write_node b (write_node a db))) k = Some r2 \<and>
    nr_last_heard r1 = nr_last_heard r2 \<and> observation r1 = observation r2 \<and>
    counters r1 = counters r2"
proof -
  have h: "nr_last_heard (node_row_of n) = nd_last_heard n" for n by (simp add: node_row_of_def)
  have c: "map2 max x (map2 max y z) = map2 max y (map2 max x z)"
    if "length x = length y" for x y z :: "nat list"
    using that by (auto simp: list_eq_iff_nth_eq max.left_commute)
  have c2: "map2 max x y = map2 max y x" for x y :: "nat list"
    by (auto simp: list_eq_iff_nth_eq max.commute)
  have l: "length (counters r) = 6" for r by (simp add: counters_def)
  show ?thesis
  proof (cases "map_of (db_nodes db) k")
    case None
    with assms show ?thesis
      by (auto simp: write_node_lookup merge_last_heard h later_comm merge_counters c2
          merge_observation observation_newer_def later_def split: option.splits)
  next
    case (Some old)
    with assms show ?thesis
      by (auto simp: write_node_lookup merge_last_heard h merge_counters c l
          later_assoc later_comm [of "nd_last_heard a" "nd_last_heard b"]
          intro!: merge_observation_order)
  qed
qed

text \<open>The chat history read back is the newest window of the table in reading order: it is
  ascending in time, has \<open>min limit\<close> rows, all of them rows of the table, and no row it leaves out is
  newer than one it returns.\<close>

theorem read_messages_newest_window:
  "sorted (map mr_observed_at (read_messages limit db)) \<and>
   length (read_messages limit db) = min limit (length (db_messages db)) \<and>
   mset (read_messages limit db) \<subseteq># mset (db_messages db) \<and>
   (\<forall>m \<in> set (db_messages db) - set (read_messages limit db).
      \<forall>r \<in> set (read_messages limit db). mr_observed_at m \<le> mr_observed_at r)"
proof -
  have "mset (drop n xs) \<subseteq># mset xs" for n and xs :: "message_row list"
    by (metis append_take_drop_id mset_append mset_subset_eq_add_right)
  from this [of "length (db_messages db) - limit" "sort_key mr_observed_at (db_messages db)"]
  have "mset (read_messages limit db) \<subseteq># mset (db_messages db)"
    by (simp add: read_messages_suffix)
  then show ?thesis
    using sorted_read_messages read_messages_newest by (auto simp: read_messages_suffix)
qed

text \<open>C17: pruning deletes exactly the packets, positions and telemetry older than the cutoff, reports
  their number, and touches no node, message, session or setting.\<close>

theorem prune_exact:
  assumes "prune now days db = (counts, db')" "0 < days"
  shows "set (db_packets db') = {r \<in> set (db_packets db). now - days * day_us \<le> pr_observed_at r} \<and>
    set (db_positions db') = {r \<in> set (db_positions db). now - days * day_us \<le> or_observed_at r} \<and>
    set (db_telemetry db') = {r \<in> set (db_telemetry db). now - days * day_us \<le> tr_observed_at r} \<and>
    sum_list (map snd counts) + length (db_packets db') + length (db_positions db')
      + length (db_telemetry db')
      = length (db_packets db) + length (db_positions db) + length (db_telemetry db) \<and>
    db_nodes db' = db_nodes db \<and> db_messages db' = db_messages db \<and>
    db_sessions db' = db_sessions db \<and> db_settings db' = db_settings db"
proof -
  have p: "counts = fst (prune_on now days db)" "db' = snd (prune_on now days db)"
    using assms by (auto simp: prune_def)
  have "set (db_packets db') = {r \<in> set (db_packets db). now - days * day_us \<le> pr_observed_at r}"
    "set (db_positions db') = {r \<in> set (db_positions db). now - days * day_us \<le> or_observed_at r}"
    "set (db_telemetry db') = {r \<in> set (db_telemetry db). now - days * day_us \<le> tr_observed_at r}"
    by (auto simp: p prune_on_def Let_def)
  then show ?thesis using prune_on_count [of now days db] prune_on_frame [of now days db]
    unfolding p by blast
qed

text \<open>Packets survive the database: after packets are written, reading their session back with a
  sufficient limit gives each of them, every column as it was; only the two fields that have no
  column (text and raw metadata) are lost.\<close>

theorem packets_read_back:
  assumes "p \<in> set ps" "length (db_packets db) + length ps \<le> limit"
  shows "p\<lparr>pk_text := None, pk_raw_metadata_json := None\<rparr>
    \<in> set (read_packets_as_objects (pk_session_id p) limit (fold write_packet ps db))"
proof -
  have w: "db_packets (fold write_packet ps db) = db_packets db @ map packet_row_of ps"
    by (induction ps arbitrary: db) (simp_all add: write_packet_def)
  let ?rows = "filter (\<lambda>r. pr_session_id r = pk_session_id p)
    (db_packets db @ map packet_row_of ps)"
  have "length ?rows \<le> length (db_packets db @ map packet_row_of ps)" by (rule length_filter_le)
  then have "take limit (newest_first pr_observed_at ?rows) = newest_first pr_observed_at ?rows"
    using assms(2) by (simp add: newest_first_def del: filter_append)
  moreover have "packet_row_of p \<in> set ?rows" using assms(1) by (auto simp: packet_row_of_def)
  ultimately have "packet_row_of p \<in> set (read_packets (pk_session_id p) limit None
      (fold write_packet ps db))"
    by (simp add: read_packets_def w newest_first_def del: filter_append)
  then show ?thesis
    unfolding read_packets_as_objects_def using packet_row_roundtrip [of p] by force
qed


text \<open>The upsert keeps every identity field it has no new value for but the node id, which a snapshot
  without one erases.\<close>

lemma upsert_erases_node_id:
  assumes "map_of (db_nodes db) (nd_num n) = Some old" "nd_node_id n = None"
  shows "map_option nr_node_id (map_of (db_nodes (write_node n db)) (nd_num n)) = Some None"
  using assms by (simp add: write_node_lookup merge_node_row_def node_row_of_def Let_def)

section \<open>Concrete rows\<close>

definition sample_packet :: network_packet where
  "sample_packet = \<lparr>pk_session_id = ''s'', pk_observed_at = 5, pk_rx_time = None,
     pk_sender_num = Some 7, pk_sender_id = Some ''!00000007'', pk_destination_num = None,
     pk_packet_id = Some 42, pk_channel_index = Some 0, pk_portnum = Some 1,
     pk_portnum_name = ''Text'', pk_text = Some ''hi'', pk_payload_size = Some 2,
     pk_rx_snr = Some 6, pk_rx_rssi = Some (- 90), pk_hop_start = Some 3, pk_hop_limit = Some 3,
     pk_hops_used = Some 0, pk_via_mqtt = Some False, pk_transport_mechanism = None,
     pk_pki_encrypted = None, pk_want_ack = None, pk_priority = None,
     pk_raw_metadata_json = None\<rparr>"

definition sample_message_row :: "instant \<Rightarrow> message_row" where
  "sample_message_row t = \<lparr>mr_session_id = ''s'', mr_local_id = ''m'', mr_packet_id = None,
     mr_channel_index = 0, mr_destination_num = None, mr_direction = ''inbound'',
     mr_sender_num = None, mr_sender_id = None, mr_sender_name = ''a'', mr_text = ''hi'',
     mr_observed_at = t, mr_byte_count = 2, mr_status = ''received''\<rparr>"

theorem node_upserts_commute_witness:
  "\<exists>r1 r2. map_of (db_nodes (write_node ((node_new 7)\<lparr>nd_last_heard := Some 5\<rparr>)
       (write_node ((node_new 7)\<lparr>nd_packet_count := 2\<rparr>) empty_db))) 7 = Some r1 \<and>
    map_of (db_nodes (write_node ((node_new 7)\<lparr>nd_packet_count := 2\<rparr>)
       (write_node ((node_new 7)\<lparr>nd_last_heard := Some 5\<rparr>) empty_db))) 7 = Some r2 \<and>
    nr_last_heard r1 = nr_last_heard r2 \<and> counters r1 = counters r2"
  using node_upserts_commute [of "(node_new 7)\<lparr>nd_last_heard := Some 5\<rparr>" 7
      "(node_new 7)\<lparr>nd_packet_count := 2\<rparr>" empty_db]
  by (auto simp: node_new_def)

theorem prune_exact_witness:
  "db_packets (snd (prune (2 * day_us) 1
      (empty_db\<lparr>db_packets := [packet_row_of sample_packet]\<rparr>))) = []"
proof -
  have t: "pr_observed_at (packet_row_of sample_packet) = 5"
    by (simp add: packet_row_of_def sample_packet_def)
  from prune_exact [of "2 * day_us" 1 "empty_db\<lparr>db_packets := [packet_row_of sample_packet]\<rparr>", OF
      prod.collapse [symmetric]]
  have "set (db_packets (snd (prune (2 * day_us) 1
      (empty_db\<lparr>db_packets := [packet_row_of sample_packet]\<rparr>))))
    = {r \<in> {packet_row_of sample_packet}. 2 * day_us - 1 * day_us \<le> pr_observed_at r}" by simp
  also have "\<dots> = {}" using t by (auto simp: day_us_def)
  finally show ?thesis by simp
qed

theorem packets_read_back_witness:
  "sample_packet\<lparr>pk_text := None, pk_raw_metadata_json := None\<rparr>
    \<in> set (read_packets_as_objects ''s'' 1 (fold write_packet [sample_packet] empty_db))"
  using packets_read_back [of sample_packet "[sample_packet]" empty_db 1]
  by (simp add: sample_packet_def empty_db_def)

theorem read_messages_newest_window_witness:
  "length (read_messages 1 (empty_db\<lparr>db_messages := [sample_message_row 2, sample_message_row 1]\<rparr>)) = 1"
  using read_messages_newest_window [of 1
      "empty_db\<lparr>db_messages := [sample_message_row 2, sample_message_row 1]\<rparr>"] by simp

end
