(* ===== verification/Store.thy ===== *)
theory Store
  imports Database "HOL-Library.Sublist"
begin

text \<open>
  \<open>services/monitor_store.py\<close>: the write queue, the writer thread's loop, the batch flush with its
  per-item savepoints and bounded retries, and the maintenance requests.  SQLite itself is not
  under \<open>src/\<close>: where a statement can raise, the exception it raises is an input of the model
  (\<open>fault\<close> values), and a rolled back savepoint or transaction restores the database it was opened
  on, as SQLite documents.
\<close>

section \<open>Exceptions and retry policy\<close>

datatype exc = OperationalError string | OtherError string

primrec exc_message :: "exc \<Rightarrow> string" where
  "exc_message (OperationalError m) = m"
| "exc_message (OtherError m) = m"

definition is_transient_sqlite_error :: "exc \<Rightarrow> bool" where
  "is_transient_sqlite_error e =
     (case e of
        OtherError _ \<Rightarrow> False
      | OperationalError m \<Rightarrow>
          (let msg = lower m in contains ''locked'' msg \<or> contains ''busy'' msg))"

definition MAX_WRITE_RETRIES :: nat where "MAX_WRITE_RETRIES = 3"
definition RETRY_BACKOFF_BASE_SECONDS :: pyfloat where "RETRY_BACKOFF_BASE_SECONDS = 5 / 100"

section \<open>Queued items\<close>

datatype item =
    IPacket network_packet
  | ISession network_session
  | IPosition position_sample
  | ITelemetry telemetry_sample
  | INode node_snapshot
  | IMessage chat_message
  | IMessageStatus string "int option" message_status
  | ISetting string string
  | IPrune int
  | IBackup "string option"
  | IVacuum

primrec item_kind :: "item \<Rightarrow> string" where
  "item_kind (IPacket _) = ''packet''"
| "item_kind (ISession _) = ''session''"
| "item_kind (IPosition _) = ''position''"
| "item_kind (ITelemetry _) = ''telemetry''"
| "item_kind (INode _) = ''node''"
| "item_kind (IMessage _) = ''message''"
| "item_kind (IMessageStatus _ _ _) = ''message_status''"
| "item_kind (ISetting _ _) = ''setting''"
| "item_kind (IPrune _) = ''prune''"
| "item_kind (IBackup _) = ''backup''"
| "item_kind IVacuum = ''vacuum''"

fun write_one :: "item \<Rightarrow> database \<Rightarrow> database" where
  "write_one (IPacket p) db = write_packet p db"
| "write_one (ISession s) db = write_session s db"
| "write_one (IPosition p) db = write_position p db"
| "write_one (ITelemetry t) db = write_telemetry t db"
| "write_one (INode n) db = write_node n db"
| "write_one (IMessage m) db = write_message m db"
| "write_one (IMessageStatus l p s) db = write_message_status l p s db"
| "write_one (ISetting k v) db = write_setting k v db"
| "write_one _ db = db"

section \<open>Health\<close>

record health =
  h_dropped :: nat
  h_failed :: nat
  h_last_error :: "string option"

definition record_failed_item :: "string \<Rightarrow> exc \<Rightarrow> health \<Rightarrow> health" where
  "record_failed_item kind e h =
     h\<lparr>h_failed := h_failed h + 1, h_last_error := Some (kind @ '': '' @ exc_message e)\<rparr>"

definition record_error :: "string \<Rightarrow> health \<Rightarrow> health" where
  "record_error m h = h\<lparr>h_last_error := Some m\<rparr>"

section \<open>One item: savepoint, write, retry\<close>

text \<open>Where in an attempt the exception is raised: opening the savepoint, the write itself, or
  releasing the savepoint.\<close>

datatype stage = AtSavepoint | AtWrite | AtRelease

type_synonym fault = "stage \<times> exc"

text \<open>
  One pass through the \<open>try\<close> block.  \<open>saved\<close> is what \<open>ROLLBACK TO SAVEPOINT\<close> restores; it is only
  issued when the savepoint was opened.
\<close>

definition attempt_write :: "item \<Rightarrow> fault option \<Rightarrow> database \<Rightarrow> exc option \<times> database" where
  "attempt_write it f db =
     (case f of
        None \<Rightarrow> (None, write_one it db)
      | Some (st, e) \<Rightarrow>
          (let saved = db;
               working = (case st of AtRelease \<Rightarrow> write_one it db | _ \<Rightarrow> db);
               savepoint_active = (st \<noteq> AtSavepoint)
           in (Some e, if savepoint_active then saved else working)))"

text \<open>
  The result of \<open>_write_item_with_retry\<close>: success, the database, the health counters, the
  remaining faults of the environment (one entry is consumed per attempt, an exhausted list means
  no further faults), the number of attempts made and the delays slept.
\<close>

record write_result =
  w_ok :: bool
  w_db :: database
  w_health :: health
  w_faults :: "fault option list"
  w_attempts :: nat
  w_sleeps :: "pyfloat list"

definition next_fault :: "fault option list \<Rightarrow> fault option" where
  "next_fault fs = (case fs of [] \<Rightarrow> None | f # _ \<Rightarrow> f)"

function write_attempts ::
    "item \<Rightarrow> nat \<Rightarrow> pyfloat \<Rightarrow> pyfloat list \<Rightarrow> fault option list \<Rightarrow> health \<Rightarrow> database \<Rightarrow> write_result"
where
  "write_attempts it tried delay slept fs h db =
     (let attempt = tried + 1;
          (err, db') = attempt_write it (next_fault fs) db
      in case err of
           None \<Rightarrow> \<lparr>w_ok = True, w_db = db', w_health = h, w_faults = tl fs,
                    w_attempts = attempt, w_sleeps = slept\<rparr>
         | Some e \<Rightarrow>
             if is_transient_sqlite_error e \<and> attempt \<le> MAX_WRITE_RETRIES
             then write_attempts it attempt (delay * 2) (slept @ [delay]) (tl fs) h db'
             else \<lparr>w_ok = False, w_db = db', w_health = record_failed_item (item_kind it) e h,
                    w_faults = tl fs, w_attempts = attempt, w_sleeps = slept\<rparr>)"
  by pat_completeness auto
termination
  by (relation "measure (\<lambda>(it, tried, _). Suc MAX_WRITE_RETRIES - tried)") auto

declare write_attempts.simps [simp del]

definition write_item_with_retry ::
    "item \<Rightarrow> fault option list \<Rightarrow> health \<Rightarrow> database \<Rightarrow> write_result" where
  "write_item_with_retry it fs h db = write_attempts it 0 RETRY_BACKOFF_BASE_SECONDS [] fs h db"

section \<open>A batch: one transaction, then maintenance\<close>

text \<open>What the maintenance part of a flush does, in order, with the database it acts on.\<close>

datatype maintenance =
    BackedUp "string option" database
  | BackupFailed "string option" exc
  | Vacuumed database
  | VacuumFailed exc
  | Pruned int "(string \<times> nat) list" database
  | PruneFailed int exc

text \<open>The faults one flush may meet, and the clock the prunes read.\<close>

record flush_env =
  fe_begin :: "exc option"
  fe_items :: "fault option list"
  fe_commit :: "exc option"
  fe_backup :: "string option \<Rightarrow> exc option"
  fe_vacuum :: "exc option"
  fe_prune :: "int \<Rightarrow> exc option"
  fe_now :: instant

definition quiet_env :: "instant \<Rightarrow> flush_env" where
  "quiet_env now = \<lparr>fe_begin = None, fe_items = [], fe_commit = None, fe_backup = (\<lambda>_. None),
     fe_vacuum = None, fe_prune = (\<lambda>_. None), fe_now = now\<rparr>"

primrec is_maintenance :: "item \<Rightarrow> bool" where
  "is_maintenance (IPacket _) = False"
| "is_maintenance (ISession _) = False"
| "is_maintenance (IPosition _) = False"
| "is_maintenance (ITelemetry _) = False"
| "is_maintenance (INode _) = False"
| "is_maintenance (IMessage _) = False"
| "is_maintenance (IMessageStatus _ _ _) = False"
| "is_maintenance (ISetting _ _) = False"
| "is_maintenance (IPrune _) = True"
| "is_maintenance (IBackup _) = True"
| "is_maintenance IVacuum = True"

fun write_batch ::
    "item list \<Rightarrow> fault option list \<Rightarrow> health \<Rightarrow> database \<Rightarrow> item list \<times> health \<times> database" where
  "write_batch [] fs h db = ([], h, db)"
| "write_batch (it # its) fs h db =
     (let r = write_item_with_retry it fs h db;
          (completed, h', db') = write_batch its (w_faults r) (w_health r) (w_db r)
      in (if w_ok r then it # completed else completed, h', db'))"

definition flush_writes :: "flush_env \<Rightarrow> item list \<Rightarrow> health \<Rightarrow> database \<Rightarrow> health \<times> database" where
  "flush_writes env batch h db =
     (if batch = [] then (h, db)
      else case fe_begin env of
        Some e \<Rightarrow> (record_error (exc_message e) h, db)
      | None \<Rightarrow>
          (let (completed, h', db') = write_batch batch (fe_items env) h db
           in case fe_commit env of
                None \<Rightarrow> (h', db')
              | Some e \<Rightarrow>
                  (fold (\<lambda>it h. record_failed_item (item_kind it) e h) completed
                     (record_error (exc_message e) h'), db)))"

definition run_backup :: "flush_env \<Rightarrow> database \<Rightarrow> string option \<Rightarrow> maintenance" where
  "run_backup env db dest =
     (case fe_backup env dest of None \<Rightarrow> BackedUp dest db | Some e \<Rightarrow> BackupFailed dest e)"

definition run_vacuum :: "flush_env \<Rightarrow> database \<Rightarrow> maintenance" where
  "run_vacuum env db = (case fe_vacuum env of None \<Rightarrow> Vacuumed db | Some e \<Rightarrow> VacuumFailed e)"

fun run_prunes :: "flush_env \<Rightarrow> int list \<Rightarrow> database \<Rightarrow> maintenance list \<times> database" where
  "run_prunes env [] db = ([], db)"
| "run_prunes env (d # ds) db =
     (case fe_prune env d of
        Some e \<Rightarrow> (let (log, db') = run_prunes env ds db in (PruneFailed d e # log, db'))
      | None \<Rightarrow>
          (let (counts, db1) = prune_on (fe_now env) d db;
               (log, db') = run_prunes env ds db1
           in (Pruned d counts db1 # log, db')))"

definition prunes_of :: "item list \<Rightarrow> int list" where
  "prunes_of batch = concat (map (\<lambda>it. case it of IPrune d \<Rightarrow> [d] | _ \<Rightarrow> []) batch)"

definition backups_of :: "item list \<Rightarrow> string option list" where
  "backups_of batch = concat (map (\<lambda>it. case it of IBackup d \<Rightarrow> [d] | _ \<Rightarrow> []) batch)"

definition vacuums_of :: "item list \<Rightarrow> unit list" where
  "vacuums_of batch = concat (map (\<lambda>it. case it of IVacuum \<Rightarrow> [()] | _ \<Rightarrow> []) batch)"

definition flush_batch ::
    "flush_env \<Rightarrow> item list \<Rightarrow> health \<Rightarrow> database \<Rightarrow> maintenance list \<times> health \<times> database" where
  "flush_batch env batch h db =
     (let (h', db') = flush_writes env (filter (\<lambda>it. \<not> is_maintenance it) batch) h db;
          backed = map (run_backup env db') (backups_of batch);
          vacuumed = map (\<lambda>_. run_vacuum env db') (vacuums_of batch);
          (pruned, db'') = run_prunes env (prunes_of batch) db'
      in (backed @ vacuumed @ pruned, h', db''))"

section \<open>The queue\<close>

record store =
  st_queue :: "item list"
  st_health :: health
  st_writer_alive :: bool

definition QUEUE_CAPACITY :: nat where "QUEUE_CAPACITY = 10000"

definition store_new :: store where
  "store_new = \<lparr>st_queue = [], st_health = \<lparr>h_dropped = 0, h_failed = 0, h_last_error = None\<rparr>,
     st_writer_alive = True\<rparr>"

definition enqueue :: "item \<Rightarrow> store \<Rightarrow> bool \<times> store" where
  "enqueue it s =
     (if length (st_queue s) < QUEUE_CAPACITY then (True, s\<lparr>st_queue := st_queue s @ [it]\<rparr>)
      else (False, s\<lparr>st_health := (st_health s)\<lparr>h_dropped := h_dropped (st_health s) + 1\<rparr>\<rparr>))"

definition save_packet :: "network_packet \<Rightarrow> store \<Rightarrow> store" where
  "save_packet p s = snd (enqueue (IPacket p) s)"

definition save_session :: "network_session \<Rightarrow> store \<Rightarrow> store" where
  "save_session x s = snd (enqueue (ISession x) s)"

definition save_position :: "position_sample \<Rightarrow> store \<Rightarrow> store" where
  "save_position p s = snd (enqueue (IPosition p) s)"

definition save_telemetry :: "telemetry_sample \<Rightarrow> store \<Rightarrow> store" where
  "save_telemetry t s = snd (enqueue (ITelemetry t) s)"

definition upsert_node :: "node_snapshot \<Rightarrow> store \<Rightarrow> store" where
  "upsert_node n s = snd (enqueue (INode n) s)"

definition save_message :: "chat_message \<Rightarrow> store \<Rightarrow> store" where
  "save_message m s = snd (enqueue (IMessage m) s)"

definition update_message_status ::
    "string \<Rightarrow> int option \<Rightarrow> message_status \<Rightarrow> store \<Rightarrow> store" where
  "update_message_status l p st s = snd (enqueue (IMessageStatus l p st) s)"

definition set_setting :: "string \<Rightarrow> string \<Rightarrow> store \<Rightarrow> store" where
  "set_setting k v s = snd (enqueue (ISetting k v) s)"

definition prune_async :: "int \<Rightarrow> store \<Rightarrow> store" where
  "prune_async d s = (if d > 0 then snd (enqueue (IPrune d) s) else s)"

definition vacuum_async :: "store \<Rightarrow> store" where
  "vacuum_async s = snd (enqueue IVacuum s)"

record writer_health =
  wh_queue_depth :: nat
  wh_queue_capacity :: nat
  wh_dropped_count :: nat
  wh_failed_count :: nat
  wh_writer_alive :: bool
  wh_last_error :: "string option"

definition store_health :: "store \<Rightarrow> writer_health" where
  "store_health s = \<lparr>wh_queue_depth = length (st_queue s), wh_queue_capacity = QUEUE_CAPACITY,
     wh_dropped_count = h_dropped (st_health s), wh_failed_count = h_failed (st_health s),
     wh_writer_alive = st_writer_alive s, wh_last_error = h_last_error (st_health s)\<rparr>"

text \<open>
  \<open>backup()\<close>: refuses when the writer is dead or the queue is full; otherwise the request is queued
  and the answer is what the writer reports before the timeout (\<open>None\<close> for no report in time).
\<close>

datatype backup_error = WriterDead | QueueFull | BackupTimeout | BackupRaised exc

definition backup ::
    "string option \<Rightarrow> (exc + string) option \<Rightarrow> store \<Rightarrow> (backup_error + string) \<times> store" where
  "backup dest report s =
     (if \<not> st_writer_alive s then (Inl WriterDead, s)
      else case enqueue (IBackup dest) s of
        (False, s') \<Rightarrow> (Inl QueueFull, s')
      | (True, s') \<Rightarrow>
          (case report of
             None \<Rightarrow> (Inl BackupTimeout, s')
           | Some (Inl e) \<Rightarrow> (Inl (BackupRaised e), s')
           | Some (Inr path) \<Rightarrow> (Inr path, s')))"

section \<open>The writer loop\<close>

text \<open>What \<open>get(timeout=0.1)\<close> returns to the loop: an item, the shutdown sentinel, or
  \<open>queue.Empty\<close>.  The list ends when the loop condition does.\<close>

datatype queue_event = Got item | GotSentinel | GotEmpty

definition BATCH_MAX :: nat where "BATCH_MAX = 100"

text \<open>The batches the loop hands to \<open>_flush\<close>, in order; the argument is the current batch.\<close>

fun writer_loop :: "item list \<Rightarrow> queue_event list \<Rightarrow> item list list" where
  "writer_loop batch [] = (if batch = [] then [] else [batch])"
| "writer_loop batch (GotSentinel # evs) = (if batch = [] then [] else [batch])"
| "writer_loop batch (GotEmpty # evs) =
     (if batch = [] then writer_loop [] evs else batch # writer_loop [] evs)"
| "writer_loop batch (Got it # evs) =
     (let batch' = batch @ [it]
      in if length batch' \<ge> BATCH_MAX then batch' # writer_loop [] evs
         else writer_loop batch' evs)"

text \<open>All flushes of a run, each under its own environment.\<close>

fun flush_all ::
    "flush_env list \<Rightarrow> item list list \<Rightarrow> health \<Rightarrow> database \<Rightarrow> maintenance list \<times> health \<times> database"
where
  "flush_all envs [] h db = ([], h, db)"
| "flush_all [] (b # bs) h db = ([], h, db)"
| "flush_all (e # envs) (b # bs) h db =
     (let (log, h', db') = flush_batch e b h db;
          (log', h'', db'') = flush_all envs bs h' db'
      in (log @ log', h'', db''))"


section \<open>Facts on one item\<close>

lemma attempt_write_cases:
  "attempt_write it f db = (err, db') \<Longrightarrow>
     (err = None \<and> f = None \<and> db' = write_one it db) \<or>
     (\<exists>st e. f = Some (st, e) \<and> err = Some e \<and> db' = db)"
  by (auto simp: attempt_write_def Let_def split: option.splits stage.splits prod.splits if_splits)

lemma attempt_write_simps [simp]:
  "attempt_write it None db = (None, write_one it db)"
  "attempt_write it (Some (st, e)) db = (Some e, db)"
  by (cases st; simp add: attempt_write_def)+

text \<open>What one run of the retry loop guarantees: all or nothing on the database, exactly one
  failure recorded when it gives up, and a bounded number of attempts.\<close>

definition retry_ok :: "item \<Rightarrow> health \<Rightarrow> database \<Rightarrow> write_result \<Rightarrow> bool" where
  "retry_ok it h db r \<longleftrightarrow>
     w_db r = (if w_ok r then write_one it db else db) \<and>
     h_dropped (w_health r) = h_dropped h \<and>
     h_failed (w_health r) = h_failed h + (if w_ok r then 0 else 1) \<and>
     (w_ok r \<longrightarrow> w_health r = h)"

lemma write_attempts_ok: "retry_ok it h db (write_attempts it tried delay slept fs h db)"
proof (induction it tried delay slept fs h db rule: write_attempts.induct)
  case (1 it tried delay slept fs h db)
  show ?case
  proof (cases "next_fault fs")
    case None
    then show ?thesis by (subst write_attempts.simps) (simp add: retry_ok_def)
  next
    case (Some f)
    obtain st e where f: "f = (st, e)" by (cases f)
    show ?thesis
      using 1 [of "tried + 1" "(Some e, db)" "Some e" db e] Some f
      by (subst write_attempts.simps)
         (auto simp: retry_ok_def record_failed_item_def Let_def)
  qed
qed

lemma write_attempts_bound:
  "tried \<le> MAX_WRITE_RETRIES \<Longrightarrow>
     (let r = write_attempts it tried delay slept fs h db
      in tried < w_attempts r \<and> w_attempts r \<le> Suc MAX_WRITE_RETRIES \<and>
         w_sleeps r = slept @ map (\<lambda>k. delay * 2 ^ k) [0..<w_attempts r - tried - 1])"
proof (induction it tried delay slept fs h db rule: write_attempts.induct)
  case (1 it tried delay slept fs h db)
  show ?case
  proof (cases "next_fault fs")
    case None
    with 1 show ?thesis by (subst (1) write_attempts.simps) (simp add: Let_def)
  next
    case (Some f)
    obtain st e where f: "f = (st, e)" by (cases f)
    let ?again = "is_transient_sqlite_error e \<and> tried + 1 \<le> MAX_WRITE_RETRIES"
    show ?thesis
    proof (cases ?again)
      case False
      with 1 Some f show ?thesis by (subst (1) write_attempts.simps) (auto simp: Let_def)
    next
      case True
      let ?r = "write_attempts it (tried + 1) (delay * 2) (slept @ [delay]) (tl fs) h db"
      have eq: "write_attempts it tried delay slept fs h db = ?r"
        using Some f True by (subst write_attempts.simps) (auto simp: Let_def)
      have ih: "tried + 1 < w_attempts ?r" "w_attempts ?r \<le> Suc MAX_WRITE_RETRIES"
        "w_sleeps ?r = (slept @ [delay]) @ map (\<lambda>k. (delay * 2) * 2 ^ k) [0..<w_attempts ?r - (tried + 1) - 1]"
        using 1(1) [of "tried + 1" "(Some e, db)" "Some e" db e] Some f True by (auto simp: Let_def)
      define m where "m = w_attempts ?r - tried - 2"
      from ih(1) have m: "w_attempts ?r - tried - 1 = Suc m" "w_attempts ?r - (tried + 1) - 1 = m"
        by (auto simp: m_def)
      have geo: "map (\<lambda>k. delay * 2 ^ k) [0..<Suc m] = delay # map (\<lambda>k. (delay * 2) * 2 ^ k) [0..<m]"
        by (subst upt_conv_Cons) (simp_all add: map_Suc_upt [symmetric] comp_def mult.assoc del: upt_Suc)
      have "w_sleeps ?r = slept @ map (\<lambda>k. delay * 2 ^ k) [0..<Suc m]"
        unfolding geo using ih(3) [unfolded m(2)] by simp
      then show ?thesis unfolding eq Let_def m(1) using ih(1,2) by auto
    qed
  qed
qed

lemma write_item_with_retry_ok: "retry_ok it h db (write_item_with_retry it fs h db)"
  by (simp add: write_item_with_retry_def write_attempts_ok)

lemma write_item_no_fault [simp]:
  "write_item_with_retry it [] h db =
     \<lparr>w_ok = True, w_db = write_one it db, w_health = h, w_faults = [], w_attempts = 1, w_sleeps = []\<rparr>"
  by (simp add: write_item_with_retry_def write_attempts.simps next_fault_def)

section \<open>Facts on batches\<close>

lemma write_batch_accounts:
  "write_batch its fs h db = (completed, h', db') \<Longrightarrow>
     subseq completed its \<and> db' = fold write_one completed db \<and>
     h_dropped h' = h_dropped h \<and> h_failed h' + length completed = h_failed h + length its"
proof (induction its arbitrary: fs h db completed h' db')
  case Nil
  then show ?case by simp
next
  case (Cons it its)
  let ?r = "write_item_with_retry it fs h db"
  obtain c2 h2 d2 where rest: "write_batch its (w_faults ?r) (w_health ?r) (w_db ?r) = (c2, h2, d2)"
    by (cases "write_batch its (w_faults ?r) (w_health ?r) (w_db ?r)") auto
  from Cons.IH [OF rest] write_item_with_retry_ok [of it h db fs] Cons.prems rest
  show ?case by (auto simp: retry_ok_def Let_def split: if_splits)
qed

lemma write_batch_no_fault: "write_batch its [] h db = (its, h, fold write_one its db)"
  by (induction its arbitrary: db) simp_all

lemma fold_record_failed:
  "h_failed (fold (\<lambda>it h. record_failed_item (item_kind it) e h) its h) = h_failed h + length its"
  "h_dropped (fold (\<lambda>it h. record_failed_item (item_kind it) e h) its h) = h_dropped h"
  by (induction its arbitrary: h) (simp_all add: record_failed_item_def)

lemma flush_writes_accounts:
  assumes "fe_begin env = None"
  shows "\<exists>written. subseq written batch \<and>
           snd (flush_writes env batch h db) = fold write_one written db \<and>
           h_failed (fst (flush_writes env batch h db)) + length written = h_failed h + length batch"
proof (cases "batch = []")
  case True
  then show ?thesis by (intro exI [of _ "[]"]) (simp add: flush_writes_def)
next
  case False
  obtain c h1 d1 where wb: "write_batch batch (fe_items env) h db = (c, h1, d1)"
    by (cases "write_batch batch (fe_items env) h db") auto
  note acc = write_batch_accounts [OF wb]
  show ?thesis
  proof (cases "fe_commit env")
    case None
    with False assms wb acc show ?thesis
      by (intro exI [of _ c]) (simp add: flush_writes_def)
  next
    case (Some e)
    with False assms wb acc show ?thesis
      by (intro exI [of _ "[]"]) (simp add: flush_writes_def fold_record_failed record_error_def)
  qed
qed

lemma flush_writes_quiet:
  "flush_writes (quiet_env now) batch h db = (h, fold write_one batch db)"
  by (simp add: flush_writes_def quiet_env_def write_batch_no_fault)

lemma flush_batch_health_db:
  "fst (snd (flush_batch env batch h db)) =
     fst (flush_writes env (filter (\<lambda>it. \<not> is_maintenance it) batch) h db)"
  by (simp add: flush_batch_def Let_def case_prod_beta)

lemma run_prunes_frame:
  "db_nodes (snd (run_prunes env ds db)) = db_nodes db"
  "db_messages (snd (run_prunes env ds db)) = db_messages db"
  "db_sessions (snd (run_prunes env ds db)) = db_sessions db"
  "db_settings (snd (run_prunes env ds db)) = db_settings db"
  by (induction ds arbitrary: db)
     (simp_all add: case_prod_beta Let_def prune_on_frame split: option.splits)

section \<open>Facts on the loop\<close>

fun items_before_sentinel :: "queue_event list \<Rightarrow> item list" where
  "items_before_sentinel [] = []"
| "items_before_sentinel (GotSentinel # evs) = []"
| "items_before_sentinel (GotEmpty # evs) = items_before_sentinel evs"
| "items_before_sentinel (Got it # evs) = it # items_before_sentinel evs"

lemma writer_loop_concat:
  "concat (writer_loop batch evs) = batch @ items_before_sentinel evs"
  by (induction batch evs rule: writer_loop.induct) (auto simp: Let_def)

lemma writer_loop_sizes:
  "length batch < BATCH_MAX \<Longrightarrow> b \<in> set (writer_loop batch evs) \<Longrightarrow>
     b \<noteq> [] \<and> length b \<le> BATCH_MAX"
  by (induction batch evs rule: writer_loop.induct)
     (auto simp: Let_def BATCH_MAX_def split: if_splits)

lemma enqueue_bound:
  "length (st_queue s) \<le> QUEUE_CAPACITY \<Longrightarrow> length (st_queue (snd (enqueue it s))) \<le> QUEUE_CAPACITY"
  by (simp add: enqueue_def)

lemma enqueue_accepts:
  "length (st_queue s) < QUEUE_CAPACITY \<Longrightarrow> enqueue it s = (True, s\<lparr>st_queue := st_queue s @ [it]\<rparr>)"
  by (simp add: enqueue_def)

section \<open>Properties\<close>


text \<open>One bad item does not take the batch with it: once the transaction is open, the items of a
  flush that end up in the database are a subsequence of the batch, applied in order, and the others
  are counted as failed, one each; when the commit itself fails, nothing is applied and every item is
  counted.\<close>

theorem flush_isolates_failures:
  assumes "fe_begin env = None"
  shows "\<exists>written. subseq written batch \<and>
    snd (flush_writes env batch h db) = fold write_one written db \<and>
    h_failed (fst (flush_writes env batch h db)) + length written = h_failed h + length batch"
  by (rule flush_writes_accounts [OF assms])

text \<open>A run of the writer thread with no faults and no prunes.\<close>

lemma flush_batch_quiet:
  assumes "\<forall>it \<in> set batch. \<not> is_maintenance it"
  shows "flush_batch (quiet_env now) batch h db = ([], h, fold write_one batch db)"
proof -
  have "filter (\<lambda>it. \<not> is_maintenance it) batch = batch"
    using assms by (simp add: filter_id_conv)
  moreover have "prunes_of batch = []" "backups_of batch = []" "vacuums_of batch = []"
    using assms by (auto simp: prunes_of_def backups_of_def vacuums_of_def split: item.splits)
  ultimately show ?thesis by (simp add: flush_batch_def flush_writes_quiet)
qed

lemma flush_all_quiet:
  "\<forall>b \<in> set bs. \<forall>it \<in> set b. \<not> is_maintenance it \<Longrightarrow> length nows = length bs \<Longrightarrow>
    flush_all (map quiet_env nows) bs h db = ([], h, fold write_one (concat bs) db)"
proof (induction bs arbitrary: nows db)
  case (Cons b bs)
  then obtain n ns where n: "nows = n # ns" by (cases nows) auto
  with Cons show ?case by (simp add: flush_batch_quiet)
qed simp


text \<open>When the transaction cannot even be opened, the whole batch is lost and no failure is
  counted.\<close>

lemma begin_failure_uncounted:
  assumes "fe_begin env = Some e"
  shows "snd (flush_writes env batch h db) = db \<and>
    h_failed (fst (flush_writes env batch h db)) = h_failed h"
  using assms by (simp add: flush_writes_def record_error_def)

text \<open>When a vacuum and a prune are in one batch, the vacuum runs first: it compacts a database that
  still holds the rows about to be deleted.\<close>

lemma vacuum_runs_before_prune:
  "fst (flush_batch (quiet_env now) [IPrune d, IVacuum] h db)
     = [Vacuumed db, Pruned d (fst (prune_on now d db)) (snd (prune_on now d db))]"
  by (simp add: flush_batch_def flush_writes_def prunes_of_def backups_of_def vacuums_of_def
      run_vacuum_def quiet_env_def case_prod_beta Let_def)

theorem flush_isolates_failures_witness:
  "\<exists>written. subseq written [ISetting ''k'' ''v'', ISetting ''x'' ''y''] \<and>
    snd (flush_writes ((quiet_env 0)\<lparr>fe_items := [Some (AtWrite, OtherError ''boom'')]\<rparr>)
      [ISetting ''k'' ''v'', ISetting ''x'' ''y''] \<lparr>h_dropped = 0, h_failed = 0, h_last_error = None\<rparr>
      empty_db) = fold write_one written empty_db"
  using flush_isolates_failures [of "(quiet_env 0)\<lparr>fe_items := [Some (AtWrite, OtherError ''boom'')]\<rparr>"
      "[ISetting ''k'' ''v'', ISetting ''x'' ''y'']"
      "\<lparr>h_dropped = 0, h_failed = 0, h_last_error = None\<rparr>" empty_db]
  by (auto simp: quiet_env_def)


end
