(* ===== verification/Ingestor.thy ===== *)
theory Ingestor
  imports Rates Metrics Store
begin

text \<open>
  \<open>services/packet_ingestor.py\<close>: deduplication, normalisation of raw packet dictionaries, the live
  node table, position and telemetry handling, and the two seeding paths.  The protobuf enum names
  and the hash function are parameters; the clocks are arguments, read once per call.  Emitted Qt
  signals are appended to a list in emission order; the locks are not modelled, each entry point is
  one step.
\<close>

section \<open>Ports and keys\<close>

type_synonym portnum_names = "string \<Rightarrow> int option"

definition coerce_portnum :: "portnum_names \<Rightarrow> pyval \<Rightarrow> int option" where
  "coerce_portnum names v =
     (case v of
        PBool _ \<Rightarrow> None
      | PInt i \<Rightarrow> Some i
      | PStr s \<Rightarrow> (case names s of Some i \<Rightarrow> Some i | None \<Rightarrow> parse_int0 s)
      | _ \<Rightarrow> None)"

definition py_opt_int :: "int option \<Rightarrow> string" where
  "py_opt_int i = (case i of None \<Rightarrow> ''None'' | Some n \<Rightarrow> show_int n)"

datatype py_error = TypeError

text \<open>\<open>_get(pkt, "channel", "channelIndex") or 0\<close>\<close>

definition channel_value :: "pydict \<Rightarrow> pyval" where
  "channel_value pkt =
     (let c = py_get pkt [''channel'', ''channelIndex''] in if py_truthy c then c else PInt 0)"

text \<open>
  The strong key when sender and id are both known, the hash of a 5 second bucketed fingerprint
  otherwise.  \<open>_get(decoded, "portnum")\<close> is a membership test and an index, which raise on most
  values that are not dictionaries, and nothing catches it (\<open>Inl\<close>); failures while building the
  fingerprint give no key.
\<close>

definition portnum_entry :: "pyval \<Rightarrow> py_error + pyval" where
  "portnum_entry decoded =
     (case decoded of
        PDict d \<Rightarrow> Inr (py_get d [''portnum''])
      | PStr s \<Rightarrow> if contains ''portnum'' s then Inl TypeError else Inr PNone
      | PList l \<Rightarrow> if PStr ''portnum'' \<in> set l then Inl TypeError else Inr PNone
      | _ \<Rightarrow> Inl TypeError)"

definition weak_key :: "(string \<Rightarrow> string) \<Rightarrow> pyfloat \<Rightarrow> string \<Rightarrow> pyval \<Rightarrow> string option" where
  "weak_key sha256 tick head decoded_v =
     (case decoded_v of
        PDict decoded \<Rightarrow>
          (let text0 = dict_get decoded ''text'';
               text = (if py_truthy text0 then py_str text0 else []);
               payload0 = dict_get decoded ''payload'';
               raw = head @ text;
               bucket = py_int_of_float (tick / 5) * 5
           in if \<not> py_truthy payload0 then Some (sha256 (raw @ show_int bucket))
              else case payload0 of
                     PBytes p \<Rightarrow> Some (sha256 (raw @ p @ show_int bucket))
                   | PStr p \<Rightarrow> Some (sha256 (raw @ p @ show_int bucket))
                   | _ \<Rightarrow> None)
      | _ \<Rightarrow> None)"

definition dedup_key ::
    "(string \<Rightarrow> string) \<Rightarrow> portnum_names \<Rightarrow> pyfloat \<Rightarrow> pydict \<Rightarrow> py_error + string option" where
  "dedup_key sha256 names tick pkt =
     (let sender = py_get pkt [''from'', ''fromNum''];
          pid = dict_get pkt ''id'';
          decoded = (case map_of pkt ''decoded'' of None \<Rightarrow> PDict [] | Some v \<Rightarrow> v)
      in case portnum_entry decoded of
           Inl e \<Rightarrow> Inl e
         | Inr v \<Rightarrow>
             (let portnum = coerce_portnum names v;
                  channel = channel_value pkt
              in if sender \<noteq> PNone \<and> pid \<noteq> PNone
                 then Inr (Some (py_str sender @ '':'' @ py_str pid @ '':'' @ py_opt_int portnum
                        @ '':'' @ py_str channel))
                 else Inr (weak_key sha256 tick
                        (py_str sender @ py_opt_int portnum @ py_str channel) decoded)))"

section \<open>The duplicate cache\<close>

type_synonym dedup_cache = "(string \<times> pyfloat) list"

definition DEDUP_TTL_S :: pyfloat where "DEDUP_TTL_S = 120"
definition DEDUP_MAX :: nat where "DEDUP_MAX = 5000"
definition DEDUP_EVICT :: nat where "DEDUP_EVICT = 2500"

fun prune_dedup :: "pyfloat \<Rightarrow> dedup_cache \<Rightarrow> dedup_cache" where
  "prune_dedup now [] = []"
| "prune_dedup now ((k, expiry) # d) = (if expiry > now then (k, expiry) # d else prune_dedup now d)"

definition is_duplicate :: "pyfloat \<Rightarrow> string \<Rightarrow> dedup_cache \<Rightarrow> bool \<times> dedup_cache" where
  "is_duplicate now key cache =
     (let d = prune_dedup now cache
      in if key \<in> set (odict_keys d) then (True, d)
         else (let d' = odict_put key (now + DEDUP_TTL_S) d
               in (False, if length d' > DEDUP_MAX then drop DEDUP_EVICT d' else d')))"

section \<open>Normalisation\<close>

definition rx_time_of :: "pyval \<Rightarrow> instant option option" where
  "rx_time_of v =
     (if \<not> py_truthy v then Some None
      else case as_num v of
             Some (Some r) \<Rightarrow> Some (from_timestamp r)
           | _ \<Rightarrow> None)"

definition text_of :: "int option \<Rightarrow> pydict \<Rightarrow> string option option" where
  "text_of portnum decoded =
     (if portnum \<noteq> Some PORTNUM_TEXT then Some None
      else case dict_get decoded ''text'' of
             PStr s \<Rightarrow> Some (Some s)
           | other \<Rightarrow>
               (case dict_get decoded ''payload'' of
                  PBytes p \<Rightarrow> if utf8_valid p then Some (Some p) else as_str other
                | _ \<Rightarrow> as_str other))"

definition payload_size_of :: "pydict \<Rightarrow> string option \<Rightarrow> nat option" where
  "payload_size_of decoded text =
     (case dict_get decoded ''payload'' of
        PBytes p \<Rightarrow> Some (length p)
      | _ \<Rightarrow> (if truthy_str text then map_option length text else None))"

definition normalize ::
    "portnum_names \<Rightarrow> string \<Rightarrow> instant \<Rightarrow> pydict \<Rightarrow> network_packet option" where
  "normalize names session_id now raw =
     do {
       decoded \<leftarrow> sub_dict (dict_get raw ''decoded'');
       let portnum = coerce_portnum names (py_get decoded [''portnum'']);
       sender_num \<leftarrow> as_int (py_get raw [''from'', ''fromNum'']);
       sender_id \<leftarrow> as_str (py_get raw [''fromId'']);
       hop_start \<leftarrow> as_int (py_get raw [''hopStart'', ''hop_start'']);
       hop_limit \<leftarrow> as_int (py_get raw [''hopLimit'', ''hop_limit'']);
       let hops_used = compute_hops_used hop_start hop_limit;
       rx_time \<leftarrow> rx_time_of (py_get raw [''rxTime'', ''rx_time'']);
       text \<leftarrow> text_of portnum decoded;
       let payload_size = payload_size_of decoded text;
       let via_mqtt = as_bool (py_get raw [''viaMqtt'', ''via_mqtt'']);
       let pki = as_bool (py_get decoded [''pkiEncrypted'', ''pki_encrypted'']);
       let meta = (dict_get raw ''id'', dict_get raw ''to'', py_get raw [''channel'']);
       destination \<leftarrow> as_int (py_get raw [''to'', ''toNum'']);
       packet_id \<leftarrow> as_int (dict_get raw ''id'');
       channel \<leftarrow> as_int (channel_value raw);
       rx_snr \<leftarrow> as_num (py_get raw [''rxSnr'', ''rx_snr'']);
       rx_rssi \<leftarrow> as_int (py_get raw [''rxRssi'', ''rx_rssi'']);
       transport \<leftarrow> as_str (py_get raw [''transportMechanism'', ''transport_mechanism'']);
       priority \<leftarrow> as_str (py_get decoded [''priority'']);
       Some \<lparr>pk_session_id = session_id, pk_observed_at = now, pk_rx_time = rx_time,
         pk_sender_num = sender_num, pk_sender_id = sender_id, pk_destination_num = destination,
         pk_packet_id = packet_id, pk_channel_index = channel, pk_portnum = portnum,
         pk_portnum_name = classify_portnum portnum, pk_text = text,
         pk_payload_size = payload_size, pk_rx_snr = rx_snr, pk_rx_rssi = rx_rssi,
         pk_hop_start = hop_start, pk_hop_limit = hop_limit, pk_hops_used = hops_used,
         pk_via_mqtt = via_mqtt, pk_transport_mechanism = transport, pk_pki_encrypted = pki,
         pk_want_ack = as_bool (dict_get raw ''wantAck''), pk_priority = priority,
         pk_raw_metadata_json = Some meta\<rparr>
     }"

section \<open>State and signals\<close>

datatype signal =
    SigPacket network_packet
  | SigNode node_snapshot
  | SigPosition position_sample
  | SigTelemetry telemetry_sample
  | SigStats nat nat
  | SigSeeded

record ingestor =
  ig_session :: network_session
  ig_store :: "store option"
  ig_rate :: dual_rate
  ig_dedup :: dedup_cache
  ig_nodes :: "(node_id \<times> node_snapshot) list"
  ig_recent :: "network_packet list"
  ig_signals :: "signal list"

definition RECENT_MAX :: nat where "RECENT_MAX = 10000"

definition ingestor_new :: "network_session \<Rightarrow> store option \<Rightarrow> ingestor" where
  "ingestor_new session st = \<lparr>ig_session = session, ig_store = st, ig_rate = dual_rate_new,
     ig_dedup = [], ig_nodes = [], ig_recent = [], ig_signals = []\<rparr>"

definition emit :: "signal \<Rightarrow> ingestor \<Rightarrow> ingestor" where
  "emit sig s = s\<lparr>ig_signals := ig_signals s @ [sig]\<rparr>"

definition with_store :: "(store \<Rightarrow> store) \<Rightarrow> ingestor \<Rightarrow> ingestor" where
  "with_store f s = s\<lparr>ig_store := map_option f (ig_store s)\<rparr>"

section \<open>Node snapshots\<close>

text \<open>The counters and the last-observation fields one packet updates.\<close>

definition count_packet :: "instant \<Rightarrow> network_packet \<Rightarrow> node_snapshot \<Rightarrow> node_snapshot" where
  "count_packet now p n =
     (let n1 = n\<lparr>nd_last_heard := Some now, nd_packet_count := nd_packet_count n + 1,
                 nd_last_snr := pk_rx_snr p, nd_last_rssi := pk_rx_rssi p,
                 nd_last_hops_used := pk_hops_used p, nd_last_hop_start := pk_hop_start p,
                 nd_last_via_mqtt := pk_via_mqtt p\<rparr>;
          n2 = (case pk_via_mqtt p of
                  Some True \<Rightarrow> n1\<lparr>nd_via_mqtt_count := nd_via_mqtt_count n1 + 1\<rparr>
                | Some False \<Rightarrow> n1\<lparr>nd_rf_count := nd_rf_count n1 + 1\<rparr>
                | None \<Rightarrow> n1)
      in if pk_portnum p = Some PORTNUM_TEXT then n2\<lparr>nd_text_count := nd_text_count n2 + 1\<rparr>
         else if pk_portnum p = Some PORTNUM_POSITION
         then n2\<lparr>nd_position_count := nd_position_count n2 + 1\<rparr>
         else if pk_portnum p = Some PORTNUM_TELEMETRY
         then n2\<lparr>nd_telemetry_count := nd_telemetry_count n2 + 1\<rparr>
         else n2)"

definition user_dict :: "pydict \<Rightarrow> pydict" where
  "user_dict raw =
     (case sub_dict (dict_get raw ''decoded'') of
        None \<Rightarrow> []
      | Some decoded \<Rightarrow> (case sub_dict (dict_get decoded ''user'') of None \<Rightarrow> [] | Some u \<Rightarrow> u))"

definition apply_user :: "pydict \<Rightarrow> string option \<Rightarrow> node_snapshot \<Rightarrow> node_snapshot" where
  "apply_user user sender_id n =
     (if user = [] then n
      else (let n1 = n\<lparr>
                nd_long_name := py_or_str (str_field user ''longName'')
                  (py_or_str (str_field user ''long_name'') (nd_long_name n)),
                nd_short_name := py_or_str (str_field user ''shortName'')
                  (py_or_str (str_field user ''short_name'') (nd_short_name n)),
                nd_role := py_or_str (str_field user ''role'') (nd_role n),
                nd_hw_model := py_or_str (str_field user ''hwModel'')
                  (py_or_str (str_field user ''hw_model'') (nd_hw_model n))\<rparr>
            in if truthy_str (nd_node_id n1) then n1
               else n1\<lparr>nd_node_id := py_or_str (str_field user ''id'') sender_id\<rparr>))"

definition node_or_new ::
    "(node_id \<times> node_snapshot) list \<Rightarrow> node_id \<Rightarrow> node_snapshot \<Rightarrow> node_snapshot" where
  "node_or_new nodes num fresh = (case map_of nodes num of Some n \<Rightarrow> n | None \<Rightarrow> fresh)"

definition update_node :: "instant \<Rightarrow> network_packet \<Rightarrow> pydict \<Rightarrow> ingestor \<Rightarrow> ingestor" where
  "update_node now p raw s =
     (case pk_sender_num p of
        None \<Rightarrow> s
      | Some num \<Rightarrow>
          (let node = node_or_new (ig_nodes s) num
                 ((node_new num)\<lparr>nd_node_id := pk_sender_id p, nd_first_seen := Some now\<rparr>);
               snap = apply_user (user_dict raw) (pk_sender_id p) (count_packet now p node)
           in emit (SigNode snap)
                (with_store (upsert_node snap)
                  (s\<lparr>ig_nodes := odict_put num snap (ig_nodes s)\<rparr>))))"

section \<open>Positions and telemetry\<close>

definition accept_position :: "position_sample \<Rightarrow> ingestor \<Rightarrow> ingestor" where
  "accept_position sample s =
     (if position_is_valid sample
      then emit (SigPosition sample) (with_store (save_position sample) s) else s)"

definition first_some :: "pyval \<Rightarrow> pyval \<Rightarrow> pyval" where
  "first_some a b = (if a = PNone then b else a)"

text \<open>The sample a position packet carries; \<open>None\<close> where building it raises, which the caller
  swallows.\<close>

definition position_of :: "pydict \<Rightarrow> node_id \<Rightarrow> instant \<Rightarrow> position_sample option" where
  "position_of pos num observed =
     do {
       lat \<leftarrow> as_num (first_some (dict_get pos ''latitudeI'') (dict_get pos ''latitude_i''));
       lon \<leftarrow> as_num (first_some (dict_get pos ''longitudeI'') (dict_get pos ''longitude_i''));
       alt \<leftarrow> as_num (dict_get pos ''altitude'');
       speed \<leftarrow> as_num (py_get pos [''groundSpeed'', ''ground_speed'']);
       heading \<leftarrow> as_num (py_get pos [''groundTrack'', ''ground_track'']);
       time \<leftarrow> rx_time_of (py_get pos [''time'']);
       bits \<leftarrow> as_int (py_get pos [''precisionBits'', ''precision_bits'']);
       Some \<lparr>ps_node_num = num, ps_observed_at = observed,
         ps_latitude = map_option (\<lambda>x. x / 10000000) lat,
         ps_longitude = map_option (\<lambda>x. x / 10000000) lon,
         ps_altitude_m = alt, ps_speed_ms = speed,
         ps_heading_deg = map_option (\<lambda>h. h / 100) heading,
         ps_position_time = time, ps_precision_bits = bits, ps_sats_in_view = None\<rparr>
     }"

definition decoded_of :: "pydict \<Rightarrow> pydict" where
  "decoded_of raw = (case sub_dict (dict_get raw ''decoded'') of None \<Rightarrow> [] | Some d \<Rightarrow> d)"

definition handle_position :: "pydict \<Rightarrow> network_packet \<Rightarrow> ingestor \<Rightarrow> ingestor" where
  "handle_position raw p s =
     (case pk_sender_num p of
        None \<Rightarrow> s
      | Some num \<Rightarrow>
          (case sub_dict (dict_get (decoded_of raw) ''position'') of
             None \<Rightarrow> s
           | Some pos \<Rightarrow>
               if pos = [] then s
               else (case position_of pos num (pk_observed_at p) of
                       None \<Rightarrow> s
                     | Some sample \<Rightarrow> accept_position sample s)))"

text \<open>\<open>_f(d, *keys)\<close>: the first key that holds something convertible.\<close>

fun first_float :: "pydict \<Rightarrow> string list \<Rightarrow> pyfloat option" where
  "first_float d [] = None"
| "first_float d (k # ks) =
     (case as_num (dict_get d k) of Some (Some r) \<Rightarrow> Some r | _ \<Rightarrow> first_float d ks)"

definition metrics_dict :: "pydict \<Rightarrow> string \<Rightarrow> string \<Rightarrow> pydict option" where
  "metrics_dict tel k1 k2 =
     (if py_truthy (dict_get tel k1) then sub_dict (dict_get tel k1)
      else sub_dict (dict_get tel k2))"

definition telemetry_of :: "pydict \<Rightarrow> node_id \<Rightarrow> instant \<Rightarrow> telemetry_sample option" where
  "telemetry_of tel num observed =
     do {
       dev \<leftarrow> metrics_dict tel ''deviceMetrics'' ''device_metrics'';
       env \<leftarrow> metrics_dict tel ''environmentMetrics'' ''environment_metrics'';
       Some \<lparr>tl_node_num = num, tl_observed_at = observed, tl_telemetry_time = None,
         tl_battery_level = first_float dev [''batteryLevel'', ''battery_level''],
         tl_voltage = first_float dev [''voltage''],
         tl_channel_utilization = first_float dev [''channelUtilization'', ''channel_utilization''],
         tl_air_util_tx = first_float dev [''airUtilTx'', ''air_util_tx''],
         tl_temperature_c = first_float env [''temperature''],
         tl_relative_humidity = first_float env [''relativeHumidity'', ''relative_humidity''],
         tl_barometric_pressure_hpa =
           first_float env [''barometricPressure'', ''barometric_pressure''],
         tl_gas_resistance_ohm = first_float env [''gasResistance'', ''gas_resistance''],
         tl_current_a = None, tl_power_w = None, tl_heart_rate_bpm = None,
         tl_spo2_percent = None, tl_body_temperature_c = None\<rparr>
     }"

definition keep_new :: "'a option \<Rightarrow> 'a option \<Rightarrow> 'a option" where
  "keep_new new old = (case new of None \<Rightarrow> old | Some v \<Rightarrow> Some v)"

definition merge_telemetry :: "telemetry_sample \<Rightarrow> node_snapshot \<Rightarrow> node_snapshot" where
  "merge_telemetry t n = n\<lparr>
     nd_last_telemetry_at := Some (tl_observed_at t),
     nd_battery_level := keep_new (tl_battery_level t) (nd_battery_level n),
     nd_voltage := keep_new (tl_voltage t) (nd_voltage n),
     nd_channel_utilization := keep_new (tl_channel_utilization t) (nd_channel_utilization n),
     nd_air_util_tx := keep_new (tl_air_util_tx t) (nd_air_util_tx n),
     nd_temperature_c := keep_new (tl_temperature_c t) (nd_temperature_c n),
     nd_relative_humidity := keep_new (tl_relative_humidity t) (nd_relative_humidity n),
     nd_barometric_pressure_hpa :=
       keep_new (tl_barometric_pressure_hpa t) (nd_barometric_pressure_hpa n)\<rparr>"

definition merge_telemetry_into_node :: "telemetry_sample \<Rightarrow> ingestor \<Rightarrow> ingestor" where
  "merge_telemetry_into_node t s =
     (let num = tl_node_num t;
          node = node_or_new (ig_nodes s) num
            ((node_new num)\<lparr>nd_first_seen := Some (tl_observed_at t)\<rparr>);
          snap = merge_telemetry t node
      in emit (SigNode snap)
           (with_store (upsert_node snap) (s\<lparr>ig_nodes := odict_put num snap (ig_nodes s)\<rparr>)))"

definition handle_telemetry :: "pydict \<Rightarrow> network_packet \<Rightarrow> ingestor \<Rightarrow> ingestor" where
  "handle_telemetry raw p s =
     (case pk_sender_num p of
        None \<Rightarrow> s
      | Some num \<Rightarrow>
          (case sub_dict (dict_get (decoded_of raw) ''telemetry'') of
             None \<Rightarrow> s
           | Some tel \<Rightarrow>
               if tel = [] then s
               else (case telemetry_of tel num (pk_observed_at p) of
                       None \<Rightarrow> s
                     | Some sample \<Rightarrow>
                         merge_telemetry_into_node sample
                           (emit (SigTelemetry sample) (with_store (save_telemetry sample) s)))))"

section \<open>The entry point\<close>

record clock =
  ck_mono :: pyfloat
  ck_utc :: instant

definition dispatch_packet :: "clock \<Rightarrow> pydict \<Rightarrow> network_packet \<Rightarrow> ingestor \<Rightarrow> ingestor" where
  "dispatch_packet ck raw p s0 =
     (let s1 = s0\<lparr>ig_recent := ring_append RECENT_MAX (ig_recent s0) p,
                  ig_session := (ig_session s0)\<lparr>se_packet_count := se_packet_count (ig_session s0) + 1\<rparr>,
                  ig_rate := dual_record (ck_mono ck) (ig_rate s0)\<rparr>;
          s2 = update_node (ck_utc ck) p raw s1;
          s3 = (if pk_portnum p = Some PORTNUM_POSITION then handle_position raw p s2
                else if pk_portnum p = Some PORTNUM_TELEMETRY then handle_telemetry raw p s2
                else s2);
          s4 = emit (SigPacket p) (with_store (save_packet p) s3);
          (per_min, r1) = dual_per_minute (ck_mono ck) (ig_rate s4);
          (per_hour, r2) = dual_per_hour (ck_mono ck) r1
      in emit (SigStats per_min per_hour) (s4\<lparr>ig_rate := r2\<rparr>))"

definition ingest_raw ::
    "(string \<Rightarrow> string) \<Rightarrow> portnum_names \<Rightarrow> clock \<Rightarrow> pydict \<Rightarrow> ingestor \<Rightarrow> py_error + ingestor" where
  "ingest_raw sha256 names ck raw s =
     (case dedup_key sha256 names (ck_mono ck) raw of
        Inl e \<Rightarrow> Inl e
      | Inr key \<Rightarrow>
          (let (dup, d) = (case key of
                             None \<Rightarrow> (False, ig_dedup s)
                           | Some k \<Rightarrow> if k = [] then (False, ig_dedup s)
                                      else is_duplicate (ck_mono ck) k (ig_dedup s));
               s0 = s\<lparr>ig_dedup := d\<rparr>
           in if dup then Inr s0
              else case normalize names (se_id (ig_session s0)) (ck_utc ck) raw of
                     None \<Rightarrow> Inr s0
                   | Some p \<Rightarrow> Inr (dispatch_packet ck raw p s0)))"

section \<open>Accessors\<close>

definition get_nodes :: "ingestor \<Rightarrow> node_snapshot list" where
  "get_nodes s = map snd (ig_nodes s)"

definition get_node :: "node_id \<Rightarrow> ingestor \<Rightarrow> node_snapshot option" where
  "get_node num s = map_of (ig_nodes s) num"

definition get_recent_packets :: "ingestor \<Rightarrow> network_packet list" where
  "get_recent_packets s = ig_recent s"

section \<open>Seeding\<close>

text \<open>From the radio's own NodeDB.  Entries that are not dictionaries or carry no number are
  skipped.\<close>

definition seed_snapshot :: "pydict \<Rightarrow> node_snapshot \<Rightarrow> node_snapshot" where
  "seed_snapshot data n =
     (let user = (case sub_dict (dict_get data ''user'') of None \<Rightarrow> [] | Some u \<Rightarrow> u);
          n1 = n\<lparr>nd_node_id := py_or_str (str_field user ''id'') (nd_node_id n),
                 nd_long_name := py_or_str (str_field user ''longName'') (nd_long_name n),
                 nd_short_name := py_or_str (str_field user ''shortName'') (nd_short_name n),
                 nd_role := py_or_str (str_field user ''role'') (nd_role n),
                 nd_hw_model := py_or_str (str_field user ''hwModel'') (nd_hw_model n)\<rparr>;
          heard = dict_get data ''lastHeard'';
          n2 = (if py_truthy heard \<and> nd_last_heard n1 = None
                then (case as_num heard of
                        Some (Some r) \<Rightarrow> (case from_timestamp r of
                            Some t \<Rightarrow> n1\<lparr>nd_last_heard := Some t\<rparr> | None \<Rightarrow> n1)
                      | _ \<Rightarrow> n1)
                else n1);
          dev = (case sub_dict (dict_get data ''deviceMetrics'') of None \<Rightarrow> [] | Some d \<Rightarrow> d)
      in n2\<lparr>nd_battery_level := keep_new (num_field dev ''batteryLevel'') (nd_battery_level n2),
            nd_voltage := keep_new (num_field dev ''voltage'') (nd_voltage n2),
            nd_channel_utilization :=
              keep_new (num_field dev ''channelUtilization'') (nd_channel_utilization n2),
            nd_air_util_tx := keep_new (num_field dev ''airUtilTx'') (nd_air_util_tx n2)\<rparr>)"

definition seed_position :: "pydict \<Rightarrow> node_id \<Rightarrow> instant \<Rightarrow> position_sample option" where
  "seed_position data num now =
     (let pos = (case sub_dict (dict_get data ''position'') of None \<Rightarrow> [] | Some p \<Rightarrow> p)
      in case (num_field pos ''latitude'', num_field pos ''longitude'') of
           (Some lat, Some lon) \<Rightarrow>
             if lat \<noteq> 0 \<or> lon \<noteq> 0
             then Some \<lparr>ps_node_num = num, ps_observed_at = now, ps_latitude = Some lat,
                    ps_longitude = Some lon, ps_altitude_m = num_field pos ''altitude'',
                    ps_speed_ms = None, ps_heading_deg = None, ps_position_time = None,
                    ps_precision_bits = int_field pos ''precisionBits'', ps_sats_in_view = None\<rparr>
             else None
         | _ \<Rightarrow> None)"

definition seed_one :: "instant \<Rightarrow> pyval \<Rightarrow> ingestor \<Rightarrow> ingestor" where
  "seed_one now v s =
     (case v of
        PDict data \<Rightarrow>
          (case int_field data ''num'' of
             None \<Rightarrow> s
           | Some num \<Rightarrow>
               (let node = node_or_new (ig_nodes s) num ((node_new num)\<lparr>nd_first_seen := Some now\<rparr>);
                    snap = seed_snapshot data node;
                    s1 = emit (SigNode snap)
                           (with_store (upsert_node snap)
                             (s\<lparr>ig_nodes := odict_put num snap (ig_nodes s)\<rparr>))
                in case seed_position data num now of
                     None \<Rightarrow> s1
                   | Some sample \<Rightarrow> accept_position sample s1))
      | _ \<Rightarrow> s)"

definition seed_from_nodedb :: "instant \<Rightarrow> pyval list \<Rightarrow> ingestor \<Rightarrow> ingestor" where
  "seed_from_nodedb now raw_nodes s = emit SigSeeded (fold (seed_one now) raw_nodes s)"

text \<open>From the persisted history.\<close>

definition restore_snapshot :: "node_row \<Rightarrow> node_snapshot \<Rightarrow> node_snapshot" where
  "restore_snapshot row n = n\<lparr>
     nd_node_id := py_or_str (nr_node_id row) (nd_node_id n),
     nd_long_name := py_or_str (nr_long_name row) (nd_long_name n),
     nd_short_name := py_or_str (nr_short_name row) (nd_short_name n),
     nd_role := py_or_str (nr_role row) (nd_role n),
     nd_hw_model := py_or_str (nr_hw_model row) (nd_hw_model n),
     nd_first_seen := keep_new (nd_first_seen n) (nr_first_seen row),
     nd_last_heard := keep_new (nd_last_heard n) (nr_last_heard row),
     nd_packet_count := max (nd_packet_count n) (nr_packet_count row),
     nd_text_count := max (nd_text_count n) (nr_text_count row),
     nd_rf_count := max (nd_rf_count n) (nr_rf_count row),
     nd_via_mqtt_count := max (nd_via_mqtt_count n) (nr_via_mqtt_count row),
     nd_position_count := max (nd_position_count n) (nr_position_count row),
     nd_telemetry_count := max (nd_telemetry_count n) (nr_telemetry_count row),
     nd_last_snr := keep_new (nd_last_snr n) (nr_last_snr row),
     nd_last_rssi := keep_new (nd_last_rssi n) (nr_last_rssi row),
     nd_last_hops_used := keep_new (nd_last_hops_used n) (nr_last_hops_used row),
     nd_last_hop_start := keep_new (nd_last_hop_start n) (nr_last_hop_start row),
     nd_last_via_mqtt := keep_new (nd_last_via_mqtt n) (int_bool (nr_last_via_mqtt row))\<rparr>"

definition restore_position :: "instant \<Rightarrow> node_id \<Rightarrow> position_row \<Rightarrow> position_sample option" where
  "restore_position now num r =
     (if or_latitude r \<noteq> None \<and> or_longitude r \<noteq> None
      then Some \<lparr>ps_node_num = num, ps_observed_at = or_observed_at r,
             ps_latitude = or_latitude r, ps_longitude = or_longitude r,
             ps_altitude_m = or_altitude_m r, ps_speed_ms = or_speed_ms r,
             ps_heading_deg = or_heading_deg r, ps_position_time = None,
             ps_precision_bits = or_precision_bits r, ps_sats_in_view = None\<rparr>
      else None)"

definition restore_one ::
    "instant \<Rightarrow> (node_id \<times> position_row) list \<Rightarrow> node_id \<times> node_row \<Rightarrow> ingestor \<Rightarrow> ingestor" where
  "restore_one now positions e s =
     (let num = fst e;
          snap = restore_snapshot (snd e) (node_or_new (ig_nodes s) num (node_new num));
          s1 = emit (SigNode snap) (s\<lparr>ig_nodes := odict_put num snap (ig_nodes s)\<rparr>)
      in case map_of positions num of
           None \<Rightarrow> s1
         | Some r \<Rightarrow>
             (case restore_position now num r of
                None \<Rightarrow> s1
              | Some sample \<Rightarrow>
                  if position_is_valid sample then emit (SigPosition sample) s1 else s1))"

definition seed_from_store ::
    "instant \<Rightarrow> (node_id \<times> node_row) list \<Rightarrow> (node_id \<times> position_row) list \<Rightarrow> ingestor \<Rightarrow> ingestor"
where
  "seed_from_store now rows positions s =
     emit SigSeeded (fold (restore_one now positions) rows s)"

section \<open>The duplicate cache: lemmas\<close>

text \<open>The cache under a monotonic clock: keys are distinct, expiries ascend and none lies more than
  one TTL ahead, and the cap holds.\<close>

definition dedup_inv :: "pyfloat \<Rightarrow> dedup_cache \<Rightarrow> bool" where
  "dedup_inv now d \<longleftrightarrow> distinct (odict_keys d) \<and> sorted (map snd d) \<and>
     (\<forall>e \<in> set d. snd e \<le> now + DEDUP_TTL_S)"

definition dedup_ok :: "pyfloat \<Rightarrow> dedup_cache \<Rightarrow> bool" where
  "dedup_ok now d \<longleftrightarrow> dedup_inv now d \<and> length d \<le> DEDUP_MAX"

lemma dedup_inv_suffix: "dedup_inv t (p @ d) \<Longrightarrow> dedup_inv t d"
  by (auto simp: dedup_inv_def sorted_append)

lemma dedup_inv_drop: "dedup_inv t d \<Longrightarrow> dedup_inv t (drop m d)"
  by (rule dedup_inv_suffix [of t "take m d"]) simp

lemma dedup_inv_snoc:
  "dedup_inv t d \<Longrightarrow> k \<notin> set (odict_keys d) \<Longrightarrow> dedup_inv t (d @ [(k, t + DEDUP_TTL_S)])"
  by (auto simp: dedup_inv_def sorted_append)

lemma dedup_ok_Nil: "dedup_ok now []"
  by (simp add: dedup_ok_def dedup_inv_def)

lemma prune_dedup_dropWhile: "prune_dedup now d = dropWhile (\<lambda>e. snd e \<le> now) d"
  by (induction d) (auto simp: not_le)

lemma prune_dedup_suffix: "\<exists>p. d = p @ prune_dedup now d"
  unfolding prune_dedup_dropWhile by (metis takeWhile_dropWhile_id)

lemma prune_dedup_filter:
  assumes "sorted (map snd d)"
  shows "prune_dedup now d = filter (\<lambda>e. now < snd e) d"
  using assms
proof (induction d)
  case (Cons e d)
  show ?case
  proof (cases "now < snd e")
    case True
    with Cons.prems have "filter (\<lambda>e. now < snd e) d = d" by (force simp: filter_id_conv)
    with True show ?thesis by (cases e) simp
  next
    case False
    with Cons show ?thesis by (cases e) simp
  qed
qed simp

lemma dedup_ok_mono: "dedup_ok t0 d \<Longrightarrow> t0 \<le> t \<Longrightarrow> dedup_ok t d"
  by (force simp: dedup_ok_def dedup_inv_def)

lemma dedup_ok_suffix: "dedup_ok t (p @ d) \<Longrightarrow> dedup_ok t d"
  by (auto simp: dedup_ok_def dedup_inv_def sorted_append)

lemma dedup_ok_prune: "dedup_ok t d \<Longrightarrow> dedup_ok t (prune_dedup now d)"
  using prune_dedup_suffix [of d now] dedup_ok_suffix by metis

lemma is_duplicate_ok:
  assumes "dedup_ok t0 d" "t0 \<le> t"
  shows "dedup_ok t (snd (is_duplicate t k d))"
proof -
  let ?p = "prune_dedup t d"
  have p: "dedup_ok t ?p" by (rule dedup_ok_prune [OF dedup_ok_mono [OF assms]])
  show ?thesis
  proof (cases "k \<in> set (odict_keys ?p)")
    case True
    with p show ?thesis by (simp add: is_duplicate_def Let_def)
  next
    case False
    let ?q = "?p @ [(k, t + DEDUP_TTL_S)]"
    have r: "snd (is_duplicate t k d) = (if length ?q > DEDUP_MAX then drop DEDUP_EVICT ?q else ?q)"
      using False by (simp add: is_duplicate_def Let_def odict_put_new)
    have "dedup_inv t ?q" using p False by (intro dedup_inv_snoc) (simp_all add: dedup_ok_def)
    moreover have "length ?q \<le> Suc DEDUP_MAX" using p by (simp add: dedup_ok_def)
    ultimately show ?thesis
      unfolding r dedup_ok_def using dedup_inv_drop [of t ?q DEDUP_EVICT]
      by (auto simp: DEDUP_MAX_def DEDUP_EVICT_def)
  qed
qed

lemma is_duplicate_iff:
  assumes "dedup_ok t0 d"
  shows "fst (is_duplicate t k d) \<longleftrightarrow> (\<exists>e. map_of d k = Some e \<and> t < e)"
  using assms by (force simp: is_duplicate_def Let_def prune_dedup_filter dedup_ok_def dedup_inv_def
      image_iff)

text \<open>An entry with few younger entries after it: those few are all an eviction may leave.\<close>

definition remembered :: "string \<Rightarrow> pyfloat \<Rightarrow> nat \<Rightarrow> dedup_cache \<Rightarrow> bool" where
  "remembered k e n d \<longleftrightarrow> (\<exists>p s. d = p @ (k, e) # s \<and> length s \<le> n)"

lemma remembered_prune:
  assumes "remembered k e n d" "t < e"
  shows "remembered k e n (prune_dedup t d)"
proof -
  from assms obtain p s where d: "d = p @ (k, e) # s" "length s \<le> n"
    by (auto simp: remembered_def)
  have "\<exists>p'. prune_dedup t (p @ (k, e) # s) = p' @ (k, e) # s"
    using \<open>t < e\<close> by (induction p) (auto split: if_splits)
  with d show ?thesis by (auto simp: remembered_def)
qed

lemma remembered_snoc: "remembered k e n d \<Longrightarrow> remembered k e (Suc n) (d @ [x])"
  by (force simp: remembered_def)

lemma remembered_mono: "remembered k e n d \<Longrightarrow> n \<le> m \<Longrightarrow> remembered k e m d"
  by (force simp: remembered_def)

lemma remembered_drop:
  assumes "remembered k e n d" "m + n < length d"
  shows "remembered k e n (drop m d)"
proof -
  from assms obtain p s where d: "d = p @ (k, e) # s" "length s \<le> n"
    by (auto simp: remembered_def)
  with assms(2) have "m \<le> length p" by simp
  with d show ?thesis by (auto simp: remembered_def)
qed

lemma remembered_key: "remembered k e n d \<Longrightarrow> k \<in> set (odict_keys d)"
  by (force simp: remembered_def)

lemma is_duplicate_remembers:
  assumes "remembered k e n d" "t < e" "n < DEDUP_EVICT"
  shows "remembered k e (Suc n) (snd (is_duplicate t k' d))"
proof -
  let ?p = "prune_dedup t d"
  have p: "remembered k e n ?p" by (rule remembered_prune [OF assms(1,2)])
  show ?thesis
  proof (cases "k' \<in> set (odict_keys ?p)")
    case True
    with p show ?thesis by (simp add: is_duplicate_def Let_def remembered_mono)
  next
    case False
    let ?q = "?p @ [(k', t + DEDUP_TTL_S)]"
    have q: "remembered k e (Suc n) ?q" by (rule remembered_snoc [OF p])
    have "remembered k e (Suc n) (drop DEDUP_EVICT ?q)" if "length ?q > DEDUP_MAX"
      using that assms(3) by (intro remembered_drop [OF q]) (simp add: DEDUP_EVICT_def DEDUP_MAX_def)
    with q False show ?thesis by (simp add: is_duplicate_def Let_def odict_put_new)
  qed
qed

lemma is_duplicate_accepts:
  assumes "\<not> fst (is_duplicate t k d)"
  shows "remembered k (t + DEDUP_TTL_S) 0 (snd (is_duplicate t k d))"
proof -
  have "k \<notin> set (odict_keys (prune_dedup t d))"
    using assms by (auto simp: is_duplicate_def Let_def split: if_splits)
  then show ?thesis
    by (auto simp: is_duplicate_def Let_def odict_put_new remembered_def DEDUP_MAX_def
        DEDUP_EVICT_def)
qed

lemma is_duplicate_remembered:
  assumes "remembered k e n d" "t < e"
  shows "is_duplicate t k d = (True, prune_dedup t d)"
  using remembered_key [OF remembered_prune [OF assms]] by (simp add: is_duplicate_def Let_def)

section \<open>What ingesting leaves alone\<close>

lemma emit_simps [simp]:
  "ig_nodes (emit x s) = ig_nodes s" "ig_dedup (emit x s) = ig_dedup s"
  "ig_recent (emit x s) = ig_recent s" "ig_session (emit x s) = ig_session s"
  "ig_store (emit x s) = ig_store s" "ig_rate (emit x s) = ig_rate s"
  "ig_signals (emit x s) = ig_signals s @ [x]"
  by (simp_all add: emit_def)

lemma with_store_simps [simp]:
  "ig_nodes (with_store f s) = ig_nodes s" "ig_dedup (with_store f s) = ig_dedup s"
  "ig_recent (with_store f s) = ig_recent s" "ig_session (with_store f s) = ig_session s"
  "ig_signals (with_store f s) = ig_signals s" "ig_rate (with_store f s) = ig_rate s"
  by (simp_all add: with_store_def)

text \<open>The packets announced so far, in order.\<close>

fun signal_packet :: "signal \<Rightarrow> network_packet option" where
  "signal_packet (SigPacket p) = Some p"
| "signal_packet _ = None"

definition announced :: "ingestor \<Rightarrow> network_packet list" where
  "announced s = List.map_filter signal_packet (ig_signals s)"

lemma map_filter_snoc: "List.map_filter f (xs @ [x]) =
    List.map_filter f xs @ (case f x of None \<Rightarrow> [] | Some y \<Rightarrow> [y])"
  by (simp add: List.map_filter_def split: option.splits)

lemma announced_emit [simp]: "announced (emit x s) =
    announced s @ (case signal_packet x of None \<Rightarrow> [] | Some p \<Rightarrow> [p])"
  by (simp add: announced_def map_filter_snoc)

lemma announced_with_store [simp]: "announced (with_store f s) = announced s"
  by (simp add: announced_def)

lemma announced_update [simp]:
  "announced (s\<lparr>ig_nodes := n\<rparr>) = announced s" "announced (s\<lparr>ig_rate := r\<rparr>) = announced s"
  "announced (s\<lparr>ig_recent := q\<rparr>) = announced s" "announced (s\<lparr>ig_session := e\<rparr>) = announced s"
  "announced (s\<lparr>ig_dedup := d\<rparr>) = announced s"
  by (simp_all add: announced_def)

text \<open>The handlers change the node table and the signals only; the position handler not even the
  table.\<close>

definition same_frame :: "ingestor \<Rightarrow> ingestor \<Rightarrow> bool" where
  "same_frame s s' \<longleftrightarrow> ig_dedup s' = ig_dedup s \<and> ig_recent s' = ig_recent s \<and>
     ig_session s' = ig_session s \<and> ig_rate s' = ig_rate s \<and> announced s' = announced s"

lemma accept_position_frame:
  "same_frame s (accept_position q s)" "ig_nodes (accept_position q s) = ig_nodes s"
  by (simp_all add: accept_position_def same_frame_def)

lemma handle_position_frame:
  "same_frame s (handle_position raw p s)" "ig_nodes (handle_position raw p s) = ig_nodes s"
  using accept_position_frame
  by (auto simp: handle_position_def same_frame_def split: option.splits)

lemma update_node_frame: "same_frame s (update_node now p raw s)"
  by (simp add: update_node_def same_frame_def Let_def split: option.splits)

lemma merge_telemetry_into_node_frame: "same_frame s (merge_telemetry_into_node t s)"
  by (simp add: merge_telemetry_into_node_def same_frame_def Let_def)

lemma handle_telemetry_frame: "same_frame s (handle_telemetry raw p s)"
  by (auto simp: handle_telemetry_def same_frame_def merge_telemetry_into_node_def Let_def
      split: option.splits)

text \<open>The six counters of a node, and those a list of packets amounts to.\<close>

definition node_counts :: "node_snapshot \<Rightarrow> nat list" where
  "node_counts n = [nd_packet_count n, nd_text_count n, nd_rf_count n, nd_via_mqtt_count n,
     nd_position_count n, nd_telemetry_count n]"

definition tally :: "node_id \<Rightarrow> network_packet list \<Rightarrow> nat list" where
  "tally num ps =
     (let mine = filter (\<lambda>p. pk_sender_num p = Some num) ps;
          count = (\<lambda>P. length (filter P mine))
      in [length mine, count (\<lambda>p. pk_portnum p = Some PORTNUM_TEXT),
          count (\<lambda>p. pk_via_mqtt p = Some False), count (\<lambda>p. pk_via_mqtt p = Some True),
          count (\<lambda>p. pk_portnum p = Some PORTNUM_POSITION),
          count (\<lambda>p. pk_portnum p = Some PORTNUM_TELEMETRY)])"

lemma apply_user_counts [simp]: "node_counts (apply_user u i n) = node_counts n"
  by (simp add: apply_user_def node_counts_def Let_def)

lemma merge_telemetry_counts [simp]: "node_counts (merge_telemetry t n) = node_counts n"
  by (simp add: merge_telemetry_def node_counts_def)

lemma tally_Nil: "node_counts (node_new num) = tally m []"
  by (simp add: tally_def node_counts_def node_new_def)

lemma node_counts_fresh [simp]:
  "node_counts (n\<lparr>nd_node_id := i\<rparr>) = node_counts n"
  "node_counts (n\<lparr>nd_first_seen := f\<rparr>) = node_counts n"
  by (simp_all add: node_counts_def)

lemma tally_other [simp]: "pk_sender_num p \<noteq> Some num \<Longrightarrow> tally num (ps @ [p]) = tally num ps"
  by (simp add: tally_def)

lemma count_packet_tally:
  assumes "pk_sender_num p = Some num" "node_counts n = tally num ps"
  shows "node_counts (count_packet now p n) = tally num (ps @ [p])"
  using assms
  by (auto simp: node_counts_def tally_def count_packet_def Let_def portnum_defs
      split: option.splits bool.splits)

text \<open>The node table counts exactly the packets of a list: a node is there with its tally, or is
  not there and no packet of the list came from it.\<close>

definition nodes_tally :: "(node_id \<times> node_snapshot) list \<Rightarrow> network_packet list \<Rightarrow> bool" where
  "nodes_tally nodes ps \<longleftrightarrow>
     (\<forall>num. case map_of nodes num of
        Some n \<Rightarrow> node_counts n = tally num ps
      | None \<Rightarrow> (\<forall>p \<in> set ps. pk_sender_num p \<noteq> Some num))"

lemma nodes_tally_None:
  "nodes_tally nodes ps \<Longrightarrow> map_of nodes num = None \<Longrightarrow> p \<in> set ps \<Longrightarrow> pk_sender_num p \<noteq> Some num"
  unfolding nodes_tally_def by (auto dest: spec [of _ num])

lemma nodes_tally_Some:
  "nodes_tally nodes ps \<Longrightarrow> map_of nodes num = Some n \<Longrightarrow> node_counts n = tally num ps"
  unfolding nodes_tally_def by (auto dest: spec [of _ num])

lemma nodes_tallyI:
  assumes "\<And>num n. map_of nodes num = Some n \<Longrightarrow> node_counts n = tally num ps"
    "\<And>num p. map_of nodes num = None \<Longrightarrow> p \<in> set ps \<Longrightarrow> pk_sender_num p \<noteq> Some num"
  shows "nodes_tally nodes ps"
  using assms unfolding nodes_tally_def by (force split: option.splits)

lemma tally_none: "\<forall>p \<in> set ps. pk_sender_num p \<noteq> Some num \<Longrightarrow> tally num ps = tally num []"
  by (induction ps) (simp_all add: tally_def)

lemma node_or_new_tally:
  assumes "nodes_tally nodes ps" "node_counts fresh = node_counts (node_new num)"
  shows "node_counts (node_or_new nodes num fresh) = tally num ps"
proof (cases "map_of nodes num")
  case None
  with assms show ?thesis
    using tally_none [of ps num] nodes_tally_None [OF assms(1)]
    by (simp add: node_or_new_def tally_Nil [of num num])
next
  case (Some n)
  with assms(1) show ?thesis by (simp add: node_or_new_def nodes_tally_Some)
qed

lemma nodes_tally_put:
  assumes "nodes_tally nodes ps" "node_counts n = tally num (ps @ qs)"
    "\<forall>q \<in> set qs. pk_sender_num q = Some num"
  shows "nodes_tally (odict_put num n nodes) (ps @ qs)"
proof -
  have other: "tally m (ps @ qs) = tally m ps" if "m \<noteq> num" for m
    using that assms(3) by (simp add: tally_def filter_empty_conv)
  show ?thesis
  proof (rule nodes_tallyI)
    fix m k
    assume "map_of (odict_put num n nodes) m = Some k"
    then show "node_counts k = tally m (ps @ qs)"
      using assms(2) other nodes_tally_Some [OF assms(1)]
      by (cases "m = num") (auto simp: odict_put_lookup)
  next
    fix m p
    assume m: "map_of (odict_put num n nodes) m = None" "p \<in> set (ps @ qs)"
    then have "m \<noteq> num" "map_of nodes m = None" by (auto simp: odict_put_lookup split: if_splits)
    with m(2) show "pk_sender_num p \<noteq> Some m"
      using assms(3) nodes_tally_None [OF assms(1)] by fastforce
  qed
qed

lemma update_node_tally:
  assumes "nodes_tally (ig_nodes s) ps"
  shows "nodes_tally (ig_nodes (update_node now p raw s)) (ps @ [p])"
proof (cases "pk_sender_num p")
  case None
  then show ?thesis
    by (auto simp: update_node_def nodes_tally_Some [OF assms] intro!: nodes_tallyI
        dest: nodes_tally_None [OF assms])
next
  case (Some num)
  show ?thesis unfolding update_node_def Let_def Some
    by (simp, intro nodes_tally_put assms)
      (simp_all add: Some count_packet_tally node_or_new_tally [OF assms])
qed

lemma handle_telemetry_tally:
  assumes "nodes_tally (ig_nodes s) ps"
  shows "nodes_tally (ig_nodes (handle_telemetry raw p s)) ps"
proof -
  have "nodes_tally (odict_put num (merge_telemetry t (node_or_new (ig_nodes s) num
      ((node_new num)\<lparr>nd_first_seen := f\<rparr>))) (ig_nodes s)) (ps @ [])" for num t f
    by (rule nodes_tally_put [OF assms]) (simp_all add: node_or_new_tally [OF assms])
  with assms show ?thesis
    by (simp add: handle_telemetry_def merge_telemetry_into_node_def Let_def split: option.splits)
qed

text \<open>The whole bookkeeping of the ingestor against the announced packets.\<close>

definition accounts :: "nat \<Rightarrow> ingestor \<Rightarrow> bool" where
  "accounts base s \<longleftrightarrow> se_packet_count (ig_session s) = base + length (announced s) \<and>
     ig_recent s = last_n RECENT_MAX (announced s) \<and> nodes_tally (ig_nodes s) (announced s)"

lemma accounts_new: "accounts (se_packet_count session) (ingestor_new session st)"
  by (simp add: accounts_def ingestor_new_def announced_def List.map_filter_def nodes_tally_def)

lemma dispatch_accounts:
  assumes "accounts base s"
  shows "accounts base (dispatch_packet ck raw p s) \<and>
    announced (dispatch_packet ck raw p s) = announced s @ [p] \<and>
    ig_dedup (dispatch_packet ck raw p s) = ig_dedup s"
proof -
  let ?s1 = "s\<lparr>ig_recent := ring_append RECENT_MAX (ig_recent s) p,
      ig_session := (ig_session s)\<lparr>se_packet_count := se_packet_count (ig_session s) + 1\<rparr>,
      ig_rate := dual_record (ck_mono ck) (ig_rate s)\<rparr>"
  let ?s2 = "update_node (ck_utc ck) p raw ?s1"
  let ?s3 = "if pk_portnum p = Some PORTNUM_POSITION then handle_position raw p ?s2
      else if pk_portnum p = Some PORTNUM_TELEMETRY then handle_telemetry raw p ?s2 else ?s2"
  have f: "same_frame ?s1 ?s3"
    using update_node_frame [of ?s1 "ck_utc ck" p raw] handle_position_frame(1) [of ?s2 raw p]
      handle_telemetry_frame [of ?s2 raw p] by (auto simp: same_frame_def)
  have "nodes_tally (ig_nodes ?s2) (announced s @ [p])"
    using assms by (intro update_node_tally) (simp add: accounts_def)
  then have n: "nodes_tally (ig_nodes ?s3) (announced s @ [p])"
    by (simp add: handle_position_frame(2) handle_telemetry_tally)
  have r: "ring_append RECENT_MAX (ig_recent s) p = last_n RECENT_MAX (announced s @ [p])"
    using assms by (simp add: accounts_def ring_append_last_n)
  show ?thesis using f n r assms
    unfolding dispatch_packet_def Let_def same_frame_def accounts_def
    by (simp add: case_prod_beta)
qed

section \<open>Runs of the ingestor\<close>

fun ingest_all ::
    "(string \<Rightarrow> string) \<Rightarrow> portnum_names \<Rightarrow> (clock \<times> pydict) list \<Rightarrow> ingestor \<Rightarrow> py_error + ingestor"
where
  "ingest_all sha256 names [] s = Inr s"
| "ingest_all sha256 names ((ck, raw) # evs) s =
     (case ingest_raw sha256 names ck raw s of
        Inl e \<Rightarrow> Inl e
      | Inr s' \<Rightarrow> ingest_all sha256 names evs s')"

lemma ingest_raw_cases:
  assumes "ingest_raw sha256 names ck raw s = Inr s'"
  obtains d where "s' = s\<lparr>ig_dedup := d\<rparr>"
    | d p where "s' = dispatch_packet ck raw p (s\<lparr>ig_dedup := d\<rparr>)"
proof -
  from assms obtain key where key: "dedup_key sha256 names (ck_mono ck) raw = Inr key"
    by (cases "dedup_key sha256 names (ck_mono ck) raw") (simp_all add: ingest_raw_def)
  obtain dup d where "(case key of None \<Rightarrow> (False, ig_dedup s)
      | Some k \<Rightarrow> if k = [] then (False, ig_dedup s)
          else is_duplicate (ck_mono ck) k (ig_dedup s)) = (dup, d)" by (rule prod.exhaust)
  with assms key that show thesis
    by (auto simp: ingest_raw_def Let_def split: option.splits if_splits)
qed

lemma accounts_dedup [simp]: "accounts base (s\<lparr>ig_dedup := d\<rparr>) = accounts base s"
  by (simp add: accounts_def)

lemma ingest_raw_accounts:
  "ingest_raw sha256 names ck raw s = Inr s' \<Longrightarrow> accounts base s \<Longrightarrow> accounts base s'"
  by (erule ingest_raw_cases) (simp_all add: dispatch_accounts)

lemma ingest_all_accounts:
  "ingest_all sha256 names evs s = Inr s' \<Longrightarrow> accounts base s \<Longrightarrow> accounts base s'"
proof (induction evs arbitrary: s)
  case (Cons ev evs)
  obtain ck raw where ev: "ev = (ck, raw)" by (cases ev)
  with Cons.prems(1) obtain s1 where s1: "ingest_raw sha256 names ck raw s = Inr s1"
      "ingest_all sha256 names evs s1 = Inr s'" by (auto split: sum.splits)
  show ?case by (rule Cons.IH [OF s1(2) ingest_raw_accounts [OF s1(1) Cons.prems(2)]])
qed simp

text \<open>The duplicate cache changes by at most one query per packet.\<close>

lemma dispatch_dedup: "ig_dedup (dispatch_packet ck raw p s) = ig_dedup s"
  using update_node_frame [of _ "ck_utc ck" p raw] handle_position_frame(1) [of _ raw p]
    handle_telemetry_frame [of _ raw p]
  by (auto simp: dispatch_packet_def Let_def case_prod_beta same_frame_def)

lemma ingest_raw_dedup:
  assumes "ingest_raw sha256 names ck raw s = Inr s'"
  shows "ig_dedup s' = ig_dedup s \<or> (\<exists>k. ig_dedup s' = snd (is_duplicate (ck_mono ck) k (ig_dedup s)))"
  using assms
  by (auto simp: ingest_raw_def Let_def case_prod_beta dispatch_dedup
      split: sum.splits option.splits if_splits)

lemma ingest_raw_remembers:
  assumes "ingest_raw sha256 names ck raw s = Inr s'" "remembered k e n (ig_dedup s)"
    "ck_mono ck < e" "n < DEDUP_EVICT"
  shows "remembered k e (Suc n) (ig_dedup s')"
  using ingest_raw_dedup [OF assms(1)] assms(2-4)
  by (auto intro: is_duplicate_remembers remembered_mono)

lemma ingest_all_remembers:
  "ingest_all sha256 names evs s = Inr s' \<Longrightarrow> remembered k e n (ig_dedup s) \<Longrightarrow>
    \<forall>ev \<in> set evs. ck_mono (fst ev) < e \<Longrightarrow> n + length evs \<le> DEDUP_EVICT \<Longrightarrow>
    remembered k e (n + length evs) (ig_dedup s')"
proof (induction evs arbitrary: s n)
  case (Cons ev evs)
  obtain ck raw where ev: "ev = (ck, raw)" by (cases ev)
  with Cons.prems(1) obtain s1 where s1: "ingest_raw sha256 names ck raw s = Inr s1"
      "ingest_all sha256 names evs s1 = Inr s'" by (auto split: sum.splits)
  have "remembered k e (Suc n) (ig_dedup s1)"
    by (rule ingest_raw_remembers [OF s1(1)]) (use Cons.prems ev in auto)
  from Cons.IH [OF s1(2) this] Cons.prems(3,4) show ?case by simp
qed simp

lemma ingest_raw_duplicate:
  assumes "dedup_key sha256 names (ck_mono ck) raw = Inr (Some k)" "k \<noteq> []"
    "fst (is_duplicate (ck_mono ck) k (ig_dedup s))"
  shows "ingest_raw sha256 names ck raw s
    = Inr (s\<lparr>ig_dedup := snd (is_duplicate (ck_mono ck) k (ig_dedup s))\<rparr>)"
  using assms by (simp add: ingest_raw_def Let_def case_prod_beta)

lemma ingest_raw_first:
  assumes "dedup_key sha256 names (ck_mono ck) raw = Inr (Some k)" "k \<noteq> []"
    "\<not> fst (is_duplicate (ck_mono ck) k (ig_dedup s))" "ingest_raw sha256 names ck raw s = Inr s'"
  shows "remembered k (ck_mono ck + DEDUP_TTL_S) 0 (ig_dedup s')"
  using assms is_duplicate_accepts [OF assms(3)]
  by (auto simp: ingest_raw_def Let_def case_prod_beta dispatch_dedup
      split: sum.splits option.splits)



section \<open>Seeding from the store\<close>

lemma keep_new_absorb [simp]: "keep_new (keep_new a b) b = keep_new a b"
  by (simp add: keep_new_def split: option.splits)

lemma py_or_str_absorb [simp]: "py_or_str a (py_or_str a b) = py_or_str a b"
  by (simp add: py_or_str_def split: option.splits)

lemma restore_snapshot_idem [simp]:
  "restore_snapshot row (restore_snapshot row n) = restore_snapshot row n"
  by (simp add: restore_snapshot_def)

lemma restore_one_nodes [simp]: "ig_nodes (restore_one now positions e s) =
    odict_put (fst e) (restore_snapshot (snd e) (node_or_new (ig_nodes s) (fst e) (node_new (fst e))))
      (ig_nodes s)"
  by (simp add: restore_one_def Let_def split: option.splits)

lemma restore_all_lookup:
  assumes "distinct (map fst rows)"
  shows "map_of (ig_nodes (fold (restore_one now positions) rows s)) num =
    (case map_of rows num of
       None \<Rightarrow> map_of (ig_nodes s) num
     | Some row \<Rightarrow> Some (restore_snapshot row (node_or_new (ig_nodes s) num (node_new num))))"
  using assms
proof (induction rows arbitrary: s)
  case (Cons e rows)
  from Cons.prems have new: "map_of rows (fst e) = None" by (auto simp: map_of_eq_None_iff)
  show ?case using Cons new
    by (auto simp: odict_put_lookup node_or_new_def split: option.splits)
qed simp

lemma seed_lookup:
  assumes "distinct (map fst rows)"
  shows "get_node num (seed_from_store now rows positions s) =
    (case map_of rows num of
       None \<Rightarrow> get_node num s
     | Some row \<Rightarrow> Some (restore_snapshot row (node_or_new (ig_nodes s) num (node_new num))))"
  unfolding get_node_def seed_from_store_def
  by (simp add: restore_all_lookup [OF assms] cong: option.case_cong)

text \<open>Restoring the persisted nodes can be repeated: a second \<open>seed_from_store\<close> with the same rows
  leaves every node as the first left it.\<close>

theorem seed_from_store_idem:
  assumes "distinct (map fst rows)"
  shows "get_node num (seed_from_store now' rows pos' (seed_from_store now rows pos s))
    = get_node num (seed_from_store now rows pos s)"
proof -
  have "map_of (ig_nodes (seed_from_store now rows pos s)) num
      = get_node num (seed_from_store now rows pos s)" by (simp add: get_node_def)
  then show ?thesis
    by (auto simp: seed_lookup [OF assms] node_or_new_def split: option.splits)
qed

text \<open>Restoring persisted nodes never takes a count away from a live node and never replaces what
  was heard live: each of the six counters ends at the larger of the two, first-seen, last-heard and
  the radio readings keep a live value.\<close>

theorem seed_from_store_monotone:
  assumes "distinct (map fst rows)" "get_node num s = Some n" "map_of rows num = Some row"
  shows "\<exists>n'. get_node num (seed_from_store now rows pos s) = Some n' \<and>
    node_counts n' = map2 max (node_counts n) [nr_packet_count row, nr_text_count row,
      nr_rf_count row, nr_via_mqtt_count row, nr_position_count row, nr_telemetry_count row] \<and>
    (nd_first_seen n \<noteq> None \<longrightarrow> nd_first_seen n' = nd_first_seen n) \<and>
    (nd_last_heard n \<noteq> None \<longrightarrow> nd_last_heard n' = nd_last_heard n) \<and>
    (nd_last_snr n \<noteq> None \<longrightarrow> nd_last_snr n' = nd_last_snr n) \<and>
    (nd_last_hops_used n \<noteq> None \<longrightarrow> nd_last_hops_used n' = nd_last_hops_used n)"
  using assms
  by (simp add: seed_lookup node_or_new_def restore_snapshot_def node_counts_def keep_new_def)
    (auto simp: get_node_def)

section \<open>Concrete runs\<close>

text \<open>A packet of node 7, one of node 8, and a fresh ingestor.\<close>

definition sample_raw :: pydict where
  "sample_raw = [(''from'', PInt 7), (''id'', PInt 42)]"

definition sample_raw2 :: pydict where
  "sample_raw2 = [(''from'', PInt 8), (''id'', PInt 43)]"

definition sample_clock :: "pyfloat \<Rightarrow> clock" where
  "sample_clock t = \<lparr>ck_mono = t, ck_utc = 0\<rparr>"

definition sample_ingestor :: ingestor where
  "sample_ingestor = ingestor_new (session_new ''s'' 0 ''tcp'' ''host'') None"

definition sample_node_row :: node_row where
  "sample_node_row = \<lparr>nr_node_id = Some ''!07'', nr_long_name = None, nr_short_name = None,
     nr_role = None, nr_hw_model = None, nr_first_seen = Some 5, nr_last_heard = Some 9,
     nr_packet_count = 4, nr_text_count = 1, nr_last_snr = None, nr_last_rssi = None,
     nr_last_hops_used = Some 2, nr_last_hop_start = None, nr_last_via_mqtt = Some 0,
     nr_rf_count = 4, nr_via_mqtt_count = 0, nr_position_count = 0, nr_telemetry_count = 3\<rparr>"

lemmas sample_defs = sample_raw_def sample_raw2_def sample_clock_def sample_ingestor_def

lemma sample_key: "dedup_key id (\<lambda>_. None) t sample_raw = Inr (Some ''7:42:None:0'')"
  "dedup_key id (\<lambda>_. None) t sample_raw2 = Inr (Some ''8:43:None:0'')"
  unfolding dedup_key_def portnum_entry_def sample_raw_def sample_raw2_def Let_def
  by (simp_all add: dict_get_def channel_value_def coerce_portnum_def
      py_opt_int_def show_int_def show_nat_def show_base.simps digit_char_def char_of_def bit_0)

text \<open>A packet whose \<open>decoded\<close> entry is \<open>None\<close> raises out of the entry point.\<close>

lemma decoded_none_raises:
  "ingest_raw sha256 names ck ((''decoded'', PNone) # rest) s = Inl TypeError"
  by (simp add: ingest_raw_def dedup_key_def portnum_entry_def)

lemma ingest_raw_total:
  assumes "dedup_key sha256 names (ck_mono ck) raw = Inr key"
  shows "\<exists>s'. ingest_raw sha256 names ck raw s = Inr s'"
  using assms by (simp add: ingest_raw_def Let_def case_prod_beta split: option.splits)



theorem seed_from_store_idem_witness:
  "get_node 7 (seed_from_store 1 [(7, sample_node_row)] []
      (seed_from_store 0 [(7, sample_node_row)] [] sample_ingestor))
    = get_node 7 (seed_from_store 0 [(7, sample_node_row)] [] sample_ingestor)"
  by (rule seed_from_store_idem) simp

theorem seed_from_store_monotone_witness:
  "\<exists>n'. get_node 7 (seed_from_store 0 [(7, sample_node_row)] []
      (sample_ingestor\<lparr>ig_nodes := [(7, (node_new 7)\<lparr>nd_text_count := 3\<rparr>)]\<rparr>)) = Some n' \<and>
    node_counts n' = [4, 3, 4, 0, 0, 3]"
  using seed_from_store_monotone [of "[(7, sample_node_row)]" 7
      "sample_ingestor\<lparr>ig_nodes := [(7, (node_new 7)\<lparr>nd_text_count := 3\<rparr>)]\<rparr>"
      "(node_new 7)\<lparr>nd_text_count := 3\<rparr>" sample_node_row 0 "[]"]
  by (auto simp: get_node_def node_counts_def node_new_def sample_node_row_def)

end
