(* ===== verification/Pipeline.thy ===== *)
theory Pipeline
  imports Ingestor
begin

text \<open>
  From the radio to the disk: the packet ingestor on the GUI thread, the store's queue, and the writer
  thread of \<open>services/monitor_store.py\<close>, run together.  The relation interleaves the slots of the
  ingestor with the iterations of \<open>_writer_loop\<close> and with \<open>shutdown\<close>, which the main window calls on
  the GUI thread as it closes, so that nothing arrives afterwards.  Each flush may meet any faults the
  set \<open>E\<close> allows.  The other clients of the queue are left out here: what they queue is in their own
  theories.
\<close>

section \<open>What the ingestor hands to the store\<close>

text \<open>Every signal of the ingestor but the statistics and the end of seeding goes with one item.\<close>

fun signal_item :: "signal \<Rightarrow> item option" where
  "signal_item (SigPacket p) = Some (IPacket p)"
| "signal_item (SigNode n) = Some (INode n)"
| "signal_item (SigPosition q) = Some (IPosition q)"
| "signal_item (SigTelemetry t) = Some (ITelemetry t)"
| "signal_item (SigStats _ _) = None"
| "signal_item SigSeeded = None"

definition issued :: "signal list \<Rightarrow> item list" where
  "issued sigs = List.map_filter signal_item sigs"

definition put_item :: "item \<Rightarrow> store \<Rightarrow> store" where
  "put_item it st = snd (enqueue it st)"

lemma issued_simps [simp]: "issued [] = []" "issued (xs @ ys) = issued xs @ issued ys"
  "issued [x] = (case signal_item x of None \<Rightarrow> [] | Some it \<Rightarrow> [it])"
  by (simp_all add: issued_def List.map_filter_def split: option.splits)

lemma issued_no_maintenance: "it \<in> set (issued sigs) \<Longrightarrow> \<not> is_maintenance it"
proof -
  have "\<not> is_maintenance it" if "signal_item x = Some it" for x
    using that by (cases x) auto
  then show "it \<in> set (issued sigs) \<Longrightarrow> \<not> is_maintenance it"
    by (auto simp: issued_def List.map_filter_def)
qed

lemma saves_put [simp]: "save_packet p = put_item (IPacket p)" "upsert_node n = put_item (INode n)"
  "save_position q = put_item (IPosition q)" "save_telemetry t = put_item (ITelemetry t)"
  by (simp_all add: fun_eq_iff save_packet_def upsert_node_def save_position_def save_telemetry_def
      put_item_def)

text \<open>A slot of the ingestor leads from one state to the other, and the store gets just the items of
  the signals it emits, in their order.\<close>

definition hands_over :: "ingestor \<Rightarrow> ingestor \<Rightarrow> bool" where
  "hands_over s s' \<longleftrightarrow> (\<exists>sigs. ig_signals s' = ig_signals s @ sigs \<and>
     ig_store s' = map_option (fold put_item (issued sigs)) (ig_store s))"

lemma hands_over_same:
  "ig_signals s' = ig_signals s \<Longrightarrow> ig_store s' = ig_store s \<Longrightarrow> hands_over s s'"
  by (auto simp: hands_over_def option.map_id intro!: exI [of _ "[]"])

lemma hands_over_trans [trans]: "hands_over s s' \<Longrightarrow> hands_over s' s'' \<Longrightarrow> hands_over s s''"
  unfolding hands_over_def by (elim exE conjE, rule exI, rule conjI) (auto simp: option.map_comp)

lemma hands_over_silent:
  assumes "hands_over s s'" "signal_item x = None"
  shows "hands_over s (emit x s')"
proof -
  have "hands_over s' (emit x s')"
    using assms(2) by (auto simp: hands_over_def emit_def option.map_id intro!: exI [of _ "[x]"])
  with assms(1) show ?thesis by (rule hands_over_trans)
qed

lemma hands_over_item:
  assumes "hands_over s s'" "signal_item x = Some it"
  shows "hands_over s (emit x (with_store (put_item it) s'))"
proof -
  have "hands_over s' (emit x (with_store (put_item it) s'))"
    using assms(2) by (auto simp: hands_over_def emit_def with_store_def intro!: exI [of _ "[x]"])
  with assms(1) show ?thesis by (rule hands_over_trans)
qed

lemmas hands_over_one = hands_over_item [OF hands_over_same]

lemma accept_position_hands_over: "hands_over s (accept_position q s)"
  by (auto simp: accept_position_def intro: hands_over_one hands_over_same)

lemma handle_position_hands_over: "hands_over s (handle_position raw p s)"
  by (auto simp: handle_position_def accept_position_hands_over split: option.splits
      intro!: hands_over_same)

lemma update_node_hands_over: "hands_over s (update_node now p raw s)"
  by (auto simp: update_node_def Let_def split: option.splits intro!: hands_over_one intro: hands_over_same)

lemma handle_telemetry_hands_over: "hands_over s (handle_telemetry raw p s)"
proof -
  have "hands_over s (merge_telemetry_into_node t (emit (SigTelemetry t)
      (with_store (put_item (ITelemetry t)) s)))" for t
  proof -
    have "hands_over s (emit (SigTelemetry t) (with_store (put_item (ITelemetry t)) s))"
      by (rule hands_over_item) (auto intro: hands_over_same)
    moreover have "hands_over s' (merge_telemetry_into_node t s')" for s'
      by (auto simp: merge_telemetry_into_node_def Let_def intro!: hands_over_one)
    ultimately show ?thesis by (rule hands_over_trans)
  qed
  then show ?thesis
    by (auto simp: handle_telemetry_def split: option.splits intro!: hands_over_same)
qed

lemma dispatch_packet_hands_over: "hands_over s (dispatch_packet ck raw p s)"
proof -
  let ?s1 = "s\<lparr>ig_recent := ring_append RECENT_MAX (ig_recent s) p,
      ig_session := (ig_session s)\<lparr>se_packet_count := se_packet_count (ig_session s) + 1\<rparr>,
      ig_rate := dual_record (ck_mono ck) (ig_rate s)\<rparr>"
  let ?s2 = "update_node (ck_utc ck) p raw ?s1"
  let ?s3 = "if pk_portnum p = Some PORTNUM_POSITION then handle_position raw p ?s2
      else if pk_portnum p = Some PORTNUM_TELEMETRY then handle_telemetry raw p ?s2 else ?s2"
  have 1: "hands_over s ?s1" by (rule hands_over_same) simp_all
  have 2: "hands_over ?s1 ?s2" by (rule update_node_hands_over)
  have 3: "hands_over ?s2 ?s3"
    by (simp add: handle_position_hands_over handle_telemetry_hands_over hands_over_same)
  have 4: "hands_over ?s3 (emit (SigPacket p) (with_store (put_item (IPacket p)) ?s3))"
    by (rule hands_over_item [OF hands_over_same]) simp_all
  have 5: "hands_over s' (emit (SigStats a b) (s'\<lparr>ig_rate := r\<rparr>))" for s' a b r
    by (rule hands_over_silent [OF hands_over_same]) simp_all
  show ?thesis
    unfolding dispatch_packet_def Let_def case_prod_beta saves_put
    by (rule hands_over_trans [OF hands_over_trans [OF hands_over_trans
          [OF hands_over_trans [OF 1 2] 3] 4] 5])
qed

lemma ingest_raw_hands_over:
  assumes "ingest_raw sha256 names ck raw s = Inr s'"
  shows "hands_over s s'"
  using assms
proof (cases rule: ingest_raw_cases)
  case (1 d)
  then show ?thesis by (simp add: hands_over_same)
next
  case (2 d p)
  have "hands_over s (s\<lparr>ig_dedup := d\<rparr>)" by (rule hands_over_same) simp_all
  then show ?thesis unfolding 2 by (rule hands_over_trans [OF _ dispatch_packet_hands_over])
qed

lemma seed_one_hands_over: "hands_over s (seed_one now v s)"
proof -
  have "hands_over s' (emit (SigNode n) (with_store (put_item (INode n)) (s'\<lparr>ig_nodes := t\<rparr>)))" for s' n t
    by (rule hands_over_item [OF hands_over_same]) simp_all
  then show ?thesis
    by (auto simp: seed_one_def Let_def hands_over_same split: pyval.splits option.splits
        intro: hands_over_trans [OF _ accept_position_hands_over])
qed

lemma seed_from_nodedb_hands_over: "hands_over s (seed_from_nodedb now raws s)"
proof -
  have "hands_over s (fold (seed_one now) raws s)"
    by (induction raws arbitrary: s)
      (auto intro: hands_over_same hands_over_trans [OF seed_one_hands_over])
  then show ?thesis unfolding seed_from_nodedb_def by (rule hands_over_silent) simp
qed

text \<open>A full queue drops and counts.\<close>

lemma put_item_room:
  "length (st_queue st) < QUEUE_CAPACITY \<Longrightarrow> put_item it st = st\<lparr>st_queue := st_queue st @ [it]\<rparr>"
  by (simp add: put_item_def enqueue_def)

lemma put_item_full:
  "\<not> length (st_queue st) < QUEUE_CAPACITY \<Longrightarrow> put_item it st =
    st\<lparr>st_health := (st_health st)\<lparr>h_dropped := h_dropped (st_health st) + 1\<rparr>\<rparr>"
  by (simp add: put_item_def enqueue_def)

lemma fold_put_item:
  "\<exists>kept. subseq kept its \<and> st_queue (fold put_item its st) = st_queue st @ kept \<and>
     h_dropped (st_health (fold put_item its st)) + length kept
       = h_dropped (st_health st) + length its \<and>
     h_failed (st_health (fold put_item its st)) = h_failed (st_health st) \<and>
     st_writer_alive (fold put_item its st) = st_writer_alive st"
proof (induction its arbitrary: st)
  case (Cons it its)
  from Cons.IH [of "put_item it st"] obtain kept where k: "subseq kept its"
    "st_queue (fold put_item its (put_item it st)) = st_queue (put_item it st) @ kept"
    "h_dropped (st_health (fold put_item its (put_item it st))) + length kept
      = h_dropped (st_health (put_item it st)) + length its"
    "h_failed (st_health (fold put_item its (put_item it st))) = h_failed (st_health (put_item it st))"
    "st_writer_alive (fold put_item its (put_item it st)) = st_writer_alive (put_item it st)"
    by blast
  show ?case
  proof (cases "length (st_queue st) < QUEUE_CAPACITY")
    case True
    with k show ?thesis by (intro exI [of _ "it # kept"]) (simp add: put_item_room)
  next
    case False
    with k show ?thesis by (intro exI [of _ kept]) (simp add: put_item_full list_emb_Cons)
  qed
qed simp

section \<open>The run\<close>

text \<open>The GUI thread is in \<open>Running\<close> until the window closes; \<open>shutdown\<close> then sets the stop event and
  puts the sentinel.\<close>

datatype shutdown_phase = Running | StopSet | SentinelPut

text \<open>The ingestor holds the store, and with it the queue and the health counters.  \<open>pi_opened\<close>: the
  writer has got its connection and is in the loop; \<open>pi_batch\<close> is the loop's batch.\<close>

record pipe =
  pi_ingestor :: ingestor
  pi_store :: store
  pi_opened :: bool
  pi_batch :: "item list"
  pi_db :: database
  pi_phase :: shutdown_phase

text \<open>Slots of the ingestor run on the shared store.\<close>

definition on_gui :: "(ingestor \<Rightarrow> ingestor) \<Rightarrow> pipe \<Rightarrow> pipe" where
  "on_gui f p = (let s = f ((pi_ingestor p)\<lparr>ig_store := Some (pi_store p)\<rparr>)
     in p\<lparr>pi_ingestor := s, pi_store := (case ig_store s of Some st \<Rightarrow> st | None \<Rightarrow> pi_store p)\<rparr>)"

text \<open>\<open>self._flush(conn, batch); batch.clear()\<close>\<close>

definition flush_pipe :: "flush_env \<Rightarrow> pipe \<Rightarrow> pipe" where
  "flush_pipe env p =
     (let (log, h, db) = flush_batch env (pi_batch p) (st_health (pi_store p)) (pi_db p)
      in p\<lparr>pi_batch := [], pi_db := db, pi_store := (pi_store p)\<lparr>st_health := h\<rparr>\<rparr>)"

text \<open>An item from the queue, with the flush when the batch is full.\<close>

definition take_item :: "flush_env \<Rightarrow> item \<Rightarrow> item list \<Rightarrow> pipe \<Rightarrow> pipe" where
  "take_item env it q p =
     (let p1 = p\<lparr>pi_batch := pi_batch p @ [it], pi_store := (pi_store p)\<lparr>st_queue := q\<rparr>\<rparr>
      in if length (pi_batch p1) \<ge> BATCH_MAX then flush_pipe env p1 else p1)"

definition leave_loop :: "flush_env \<Rightarrow> pipe \<Rightarrow> pipe" where
  "leave_loop env p =
     (let p1 = if pi_batch p = [] then p else flush_pipe env p
      in p1\<lparr>pi_store := (pi_store p1)\<lparr>st_writer_alive := False\<rparr>\<rparr>)"

definition crash_writer :: "string \<Rightarrow> pipe \<Rightarrow> pipe" where
  "crash_writer msg p = p\<lparr>pi_store := (pi_store p)\<lparr>st_writer_alive := False,
     st_health := record_error (''writer thread crashed: '' @ msg) (st_health (pi_store p))\<rparr>\<rparr>"

inductive pipe_step ::
    "(string \<Rightarrow> string) \<Rightarrow> portnum_names \<Rightarrow> (flush_env \<Rightarrow> bool) \<Rightarrow> pipe \<Rightarrow> pipe \<Rightarrow> bool"
  for sha256 names E where
  arrives: "pi_phase p = Running \<Longrightarrow>
      ingest_raw sha256 names ck raw ((pi_ingestor p)\<lparr>ig_store := Some (pi_store p)\<rparr>) = Inr s \<Longrightarrow>
      pipe_step sha256 names E p (on_gui (\<lambda>_. s) p)"
| seeds: "pi_phase p = Running \<Longrightarrow>
      pipe_step sha256 names E p (on_gui (seed_from_nodedb now raws) p)"
| opens: "st_writer_alive (pi_store p) \<Longrightarrow> \<not> pi_opened p \<Longrightarrow>
      pipe_step sha256 names E p (p\<lparr>pi_opened := True\<rparr>)"
| open_fails: "st_writer_alive (pi_store p) \<Longrightarrow> \<not> pi_opened p \<Longrightarrow>
      pipe_step sha256 names E p (crash_writer msg p)"
| takes: "st_writer_alive (pi_store p) \<Longrightarrow> pi_opened p \<Longrightarrow> st_queue (pi_store p) = it # q \<Longrightarrow> E env \<Longrightarrow>
      pipe_step sha256 names E p (take_item env it q p)"
| times_out: "st_writer_alive (pi_store p) \<Longrightarrow> pi_opened p \<Longrightarrow> st_queue (pi_store p) = [] \<Longrightarrow>
      pi_phase p \<noteq> SentinelPut \<Longrightarrow> pi_batch p \<noteq> [] \<Longrightarrow> E env \<Longrightarrow>
      pipe_step sha256 names E p (flush_pipe env p)"
| leaves: "st_writer_alive (pi_store p) \<Longrightarrow> pi_opened p \<Longrightarrow> st_queue (pi_store p) = [] \<Longrightarrow>
      pi_phase p \<noteq> Running \<Longrightarrow> E env \<Longrightarrow>
      pipe_step sha256 names E p (leave_loop env p)"
| stop_set: "pi_phase p = Running \<Longrightarrow> pipe_step sha256 names E p (p\<lparr>pi_phase := StopSet\<rparr>)"
| sentinel: "pi_phase p = StopSet \<Longrightarrow> length (st_queue (pi_store p)) < QUEUE_CAPACITY \<Longrightarrow>
      pipe_step sha256 names E p (p\<lparr>pi_phase := SentinelPut\<rparr>)"

inductive pipe_run ::
    "(string \<Rightarrow> string) \<Rightarrow> portnum_names \<Rightarrow> (flush_env \<Rightarrow> bool) \<Rightarrow> pipe \<Rightarrow> pipe \<Rightarrow> bool"
  for sha256 names E p0 where
  run_refl: "pipe_run sha256 names E p0 p0"
| run_step: "pipe_run sha256 names E p0 p \<Longrightarrow> pipe_step sha256 names E p p' \<Longrightarrow>
      pipe_run sha256 names E p0 p'"

text \<open>A store just opened on a database, and an ingestor that may have been seeded from it.\<close>

definition pipe_new :: "ingestor \<Rightarrow> database \<Rightarrow> pipe" where
  "pipe_new s db = \<lparr>pi_ingestor = s, pi_store = store_new, pi_opened = False, pi_batch = [],
     pi_db = db, pi_phase = Running\<rparr>"

text \<open>What the ingestor has issued since then.\<close>

definition issued_since :: "ingestor \<Rightarrow> pipe \<Rightarrow> item list" where
  "issued_since s0 p = issued (drop (length (ig_signals s0)) (ig_signals (pi_ingestor p)))"

section \<open>Conservation\<close>

lemma flush_writes_dropped: "h_dropped (fst (flush_writes env batch h db)) = h_dropped h"
proof -
  obtain c h1 d1 where wb: "write_batch batch (fe_items env) h db = (c, h1, d1)"
    by (rule prod_cases3)
  show ?thesis
    using write_batch_accounts [OF wb] wb
    by (simp add: flush_writes_def fold_record_failed record_error_def split: option.splits)
qed

lemma flush_batch_plain:
  assumes "\<forall>it \<in> set batch. \<not> is_maintenance it"
  shows "flush_batch env batch h db
    = ([], fst (flush_writes env batch h db), snd (flush_writes env batch h db))"
proof -
  have "filter (\<lambda>it. \<not> is_maintenance it) batch = batch"
    using assms by (simp add: filter_id_conv)
  moreover have "prunes_of batch = []" "backups_of batch = []" "vacuums_of batch = []"
    using assms by (auto simp: prunes_of_def backups_of_def vacuums_of_def split: item.splits)
  ultimately show ?thesis by (simp add: flush_batch_def case_prod_beta Let_def)
qed

text \<open>The ledger: every item issued is written, in the writer's hands, in the queue, or counted as lost; those not
  lost keep their order.\<close>

definition ledger :: "database \<Rightarrow> item list \<Rightarrow> pipe \<Rightarrow> item list \<Rightarrow> bool" where
  "ledger db0 its p written \<longleftrightarrow>
     subseq (written @ pi_batch p @ st_queue (pi_store p)) its \<and>
     pi_db p = fold write_one written db0 \<and>
     length written + length (pi_batch p) + length (st_queue (pi_store p))
       + h_dropped (st_health (pi_store p)) + h_failed (st_health (pi_store p)) = length its"

definition pipe_inv :: "ingestor \<Rightarrow> database \<Rightarrow> pipe \<Rightarrow> bool" where
  "pipe_inv s0 db0 p \<longleftrightarrow> (\<exists>sigs written. ig_signals (pi_ingestor p) = ig_signals s0 @ sigs \<and>
     ledger db0 (issued sigs) p written)"

lemma pipe_invI: "ig_signals (pi_ingestor p) = ig_signals s0 @ sigs \<Longrightarrow>
    ledger db0 (issued sigs) p written \<Longrightarrow> pipe_inv s0 db0 p"
  unfolding pipe_inv_def by blast

lemma pipe_invE:
  assumes "pipe_inv s0 db0 p"
  obtains sigs written where "ig_signals (pi_ingestor p) = ig_signals s0 @ sigs"
    "ledger db0 (issued sigs) p written"
  using assms unfolding pipe_inv_def by blast

lemma pipe_new_inv: "pipe_inv s db (pipe_new s db)"
  by (rule pipe_invI [of _ _ "[]" _ "[]"]) (simp_all add: pipe_new_def ledger_def store_new_def)

text \<open>Steps that touch none of the quantities of the ledger.\<close>

lemma ledger_frame:
  "ledger db0 its p written \<Longrightarrow> pi_batch p' = pi_batch p \<Longrightarrow> pi_db p' = pi_db p \<Longrightarrow>
    st_queue (pi_store p') = st_queue (pi_store p) \<Longrightarrow>
    h_dropped (st_health (pi_store p')) = h_dropped (st_health (pi_store p)) \<Longrightarrow>
    h_failed (st_health (pi_store p')) = h_failed (st_health (pi_store p)) \<Longrightarrow>
    ledger db0 its p' written"
  by (simp add: ledger_def)

lemma pipe_inv_frame:
  assumes "pipe_inv s0 db0 p" "pi_ingestor p' = pi_ingestor p" "pi_batch p' = pi_batch p"
    "pi_db p' = pi_db p" "st_queue (pi_store p') = st_queue (pi_store p)"
    "h_dropped (st_health (pi_store p')) = h_dropped (st_health (pi_store p))"
    "h_failed (st_health (pi_store p')) = h_failed (st_health (pi_store p))"
  shows "pipe_inv s0 db0 p'"
  using assms(1)
proof (rule pipe_invE)
  fix sigs written
  assume "ig_signals (pi_ingestor p) = ig_signals s0 @ sigs" "ledger db0 (issued sigs) p written"
  with ledger_frame [OF this(2) assms(3-7)] show ?thesis
    by (intro pipe_invI [of p' s0 sigs]) (simp_all add: assms(2))
qed

lemma on_gui_apply:
  "on_gui f p = on_gui (\<lambda>_. f ((pi_ingestor p)\<lparr>ig_store := Some (pi_store p)\<rparr>)) p"
  by (simp add: on_gui_def)

lemma on_gui_inv:
  assumes "pipe_inv s0 db0 p" "hands_over ((pi_ingestor p)\<lparr>ig_store := Some (pi_store p)\<rparr>) s"
  shows "pipe_inv s0 db0 (on_gui (\<lambda>_. s) p)"
proof -
  from assms(1) obtain sigs written where i: "ig_signals (pi_ingestor p) = ig_signals s0 @ sigs"
    "ledger db0 (issued sigs) p written" by (rule pipe_invE)
  from assms(2) obtain new where n: "ig_signals s = ig_signals (pi_ingestor p) @ new"
    "ig_store s = Some (fold put_item (issued new) (pi_store p))"
    by (auto simp: hands_over_def)
  from fold_put_item [of "issued new" "pi_store p"] obtain kept where k: "subseq kept (issued new)"
    "st_queue (fold put_item (issued new) (pi_store p)) = st_queue (pi_store p) @ kept"
    "h_dropped (st_health (fold put_item (issued new) (pi_store p))) + length kept
      = h_dropped (st_health (pi_store p)) + length (issued new)"
    "h_failed (st_health (fold put_item (issued new) (pi_store p))) = h_failed (st_health (pi_store p))"
    by blast
  have "subseq ((written @ pi_batch p @ st_queue (pi_store p)) @ kept) (issued sigs @ issued new)"
    using i(2) k(1) by (intro list_emb_append_mono) (simp_all add: ledger_def)
  then have "ledger db0 (issued (sigs @ new)) (on_gui (\<lambda>_. s) p) written"
    using i(2) k n by (simp add: ledger_def on_gui_def Let_def)
  then show ?thesis
    by (intro pipe_invI [of _ s0 "sigs @ new"]) (simp_all add: i n on_gui_def Let_def)
qed

lemma flush_pipe_ledger:
  assumes "ledger db0 its p written" "\<forall>it \<in> set its. \<not> is_maintenance it" "fe_begin env = None"
  shows "\<exists>w. ledger db0 its (flush_pipe env p) (written @ w)"
proof -
  have "set (pi_batch p) \<subseteq> set its"
    using assms(1) by (auto simp: ledger_def dest: list_emb_set)
  then have b: "\<forall>it \<in> set (pi_batch p). \<not> is_maintenance it" using assms(2) by blast
  let ?f = "flush_writes env (pi_batch p) (st_health (pi_store p)) (pi_db p)"
  from flush_writes_accounts [OF assms(3)] obtain w where w: "subseq w (pi_batch p)"
    "snd ?f = fold write_one w (pi_db p)"
    "h_failed (fst ?f) + length w = h_failed (st_health (pi_store p)) + length (pi_batch p)" by blast
  have "subseq (written @ w @ st_queue (pi_store p)) (written @ pi_batch p @ st_queue (pi_store p))"
    using w(1) by (intro list_emb_append_mono) simp_all
  with assms(1) have "subseq (written @ w @ st_queue (pi_store p)) its"
    unfolding ledger_def using subseq_order.order_trans by blast
  with w assms(1) show ?thesis
    by (intro exI [of _ w])
      (simp add: ledger_def flush_pipe_def flush_batch_plain [OF b] flush_writes_dropped)
qed

lemma flush_pipe_inv:
  assumes "pipe_inv s0 db0 p" "fe_begin env = None"
  shows "pipe_inv s0 db0 (flush_pipe env p)"
proof -
  from assms(1) obtain sigs written where i: "ig_signals (pi_ingestor p) = ig_signals s0 @ sigs"
    "ledger db0 (issued sigs) p written" by (rule pipe_invE)
  from flush_pipe_ledger [OF i(2) _ assms(2)] issued_no_maintenance obtain w
    where "ledger db0 (issued sigs) (flush_pipe env p) (written @ w)" by blast
  moreover have "pi_ingestor (flush_pipe env p) = pi_ingestor p"
    by (simp add: flush_pipe_def case_prod_beta)
  ultimately show ?thesis using i(1) by (intro pipe_invI [of _ s0 sigs]) simp_all
qed

lemma moved_inv:
  assumes "pipe_inv s0 db0 p" "st_queue (pi_store p) = it # q"
  shows "pipe_inv s0 db0 (p\<lparr>pi_batch := pi_batch p @ [it], pi_store := (pi_store p)\<lparr>st_queue := q\<rparr>\<rparr>)"
proof -
  from assms(1) obtain sigs written where i: "ig_signals (pi_ingestor p) = ig_signals s0 @ sigs"
    "ledger db0 (issued sigs) p written" by (rule pipe_invE)
  then show ?thesis
    by (intro pipe_invI [of _ s0 sigs _ written]) (simp_all add: ledger_def assms(2))
qed

lemma pipe_step_inv:
  assumes "pipe_step sha256 names E p p'" "pipe_inv s0 db0 p" "\<forall>env. E env \<longrightarrow> fe_begin env = None"
  shows "pipe_inv s0 db0 p'"
  using assms(1)
proof cases
  case (arrives ck raw s)
  show ?thesis unfolding arrives(1)
    by (rule on_gui_inv [OF assms(2) ingest_raw_hands_over [OF arrives(3)]])
next
  case (seeds now raws)
  show ?thesis unfolding seeds(1) on_gui_apply [of "seed_from_nodedb now raws"]
    by (rule on_gui_inv [OF assms(2) seed_from_nodedb_hands_over])
next
  case (open_fails msg)
  show ?thesis unfolding open_fails(1)
    by (rule pipe_inv_frame [OF assms(2)]) (simp_all add: crash_writer_def record_error_def)
next
  case (takes it q env)
  then have "fe_begin env = None" using assms(3) by blast
  then show ?thesis unfolding takes(1) take_item_def Let_def
    using moved_inv [OF assms(2) takes(4)] by (simp add: flush_pipe_inv)
next
  case (times_out env)
  then show ?thesis using assms flush_pipe_inv by blast
next
  case (leaves env)
  let ?p1 = "if pi_batch p = [] then p else flush_pipe env p"
  have "pipe_inv s0 db0 ?p1" using leaves assms flush_pipe_inv by simp
  then show ?thesis unfolding leaves(1) leave_loop_def Let_def by (rule pipe_inv_frame) simp_all
qed (auto intro: pipe_inv_frame [OF assms(2)])


section \<open>A store that was closed\<close>

text \<open>A writer that left its loop has nothing in hand, and nothing arrives any more.\<close>

definition shut_inv :: "pipe \<Rightarrow> bool" where
  "shut_inv p \<longleftrightarrow> (pi_opened p \<and> \<not> st_writer_alive (pi_store p) \<longrightarrow>
     pi_batch p = [] \<and> st_queue (pi_store p) = [] \<and> pi_phase p \<noteq> Running) \<and>
     (\<not> pi_opened p \<longrightarrow> pi_batch p = [])"

lemma flush_pipe_simps [simp]: "pi_batch (flush_pipe env p) = []"
  "pi_opened (flush_pipe env p) = pi_opened p" "pi_phase (flush_pipe env p) = pi_phase p"
  "pi_ingestor (flush_pipe env p) = pi_ingestor p"
  "st_queue (pi_store (flush_pipe env p)) = st_queue (pi_store p)"
  "st_writer_alive (pi_store (flush_pipe env p)) = st_writer_alive (pi_store p)"
  by (simp_all add: flush_pipe_def case_prod_beta)

lemma on_gui_simps [simp]: "pi_batch (on_gui f p) = pi_batch p" "pi_opened (on_gui f p) = pi_opened p"
  "pi_phase (on_gui f p) = pi_phase p" "pi_db (on_gui f p) = pi_db p"
  by (simp_all add: on_gui_def Let_def)

lemma on_gui_store:
  assumes "hands_over ((pi_ingestor p)\<lparr>ig_store := Some (pi_store p)\<rparr>) s"
  shows "st_writer_alive (pi_store (on_gui (\<lambda>_. s) p)) = st_writer_alive (pi_store p) \<and>
    (\<exists>more. st_queue (pi_store (on_gui (\<lambda>_. s) p)) = st_queue (pi_store p) @ more)"
proof -
  from assms obtain new where "ig_store s = Some (fold put_item (issued new) (pi_store p))"
    by (auto simp: hands_over_def)
  with fold_put_item [of "issued new" "pi_store p"] show ?thesis by (auto simp: on_gui_def Let_def)
qed

lemmas on_gui_raw = on_gui_store [OF ingest_raw_hands_over]

lemma on_gui_seed: "st_writer_alive (pi_store (on_gui (seed_from_nodedb now raws) p))
      = st_writer_alive (pi_store p) \<and>
    (\<exists>more. st_queue (pi_store (on_gui (seed_from_nodedb now raws) p)) = st_queue (pi_store p) @ more)"
  unfolding on_gui_apply [of "seed_from_nodedb now raws"]
  by (rule on_gui_store [OF seed_from_nodedb_hands_over])

lemma pipe_step_shut: "pipe_step sha256 names E p p' \<Longrightarrow> shut_inv p \<Longrightarrow> shut_inv p'"
  by (induction rule: pipe_step.induct)
    (auto simp: shut_inv_def take_item_def leave_loop_def crash_writer_def Let_def on_gui_raw on_gui_seed)

lemma pipe_run_shut: "pipe_run sha256 names E (pipe_new s db) p \<Longrightarrow> shut_inv p"
  by (induction rule: pipe_run.induct) (auto simp: shut_inv_def pipe_new_def store_new_def
      dest: pipe_step_shut)

text \<open>The packets among the items of a run.\<close>

lemma write_one_packets: "db_packets (write_one it db) =
    db_packets db @ (case it of IPacket p \<Rightarrow> [packet_row_of p] | _ \<Rightarrow> [])"
  by (cases it) (simp_all add: write_packet_def write_session_def write_position_def
      write_telemetry_def write_node_def write_message_def write_message_status_def write_setting_def
      split: option.splits)

lemma fold_write_one_packets: "db_packets (fold write_one (issued sigs) db) =
    db_packets db @ map packet_row_of (List.map_filter signal_packet sigs)"
proof (induction sigs arbitrary: db)
  case (Cons x sigs)
  show ?case using Cons.IH
    by (cases x) (simp_all add: issued_def List.map_filter_def write_one_packets del: write_one.simps)
qed (simp add: List.map_filter_def)

lemma read_back_packet:
  assumes "packet_row_of p \<in> set (db_packets db)" "length (db_packets db) \<le> limit"
  shows "p\<lparr>pk_text := None, pk_raw_metadata_json := None\<rparr>
    \<in> set (read_packets_as_objects (pk_session_id p) limit db)"
proof -
  let ?rows = "filter (\<lambda>r. pr_session_id r = pk_session_id p) (db_packets db)"
  have "length ?rows \<le> limit" using assms(2) length_filter_le le_trans by blast
  then have "read_packets (pk_session_id p) limit None db = newest_first pr_observed_at ?rows"
    by (simp add: read_packets_def newest_first_def)
  moreover have "packet_row_of p \<in> set ?rows" using assms(1) by (simp add: packet_row_of_def)
  ultimately have "packet_row_of p \<in> set (read_packets (pk_session_id p) limit None db)"
    by (simp add: newest_first_def)
  then show ?thesis
    unfolding read_packets_as_objects_def using packet_row_roundtrip [of p] by force
qed


section \<open>Closing\<close>

text \<open>Once the sentinel is in the queue the writer empties it and stops: each step of the program takes
  an item or ends the thread, and while the thread lives there is a step.\<close>

definition work_left :: "pipe \<Rightarrow> nat" where
  "work_left p = length (st_queue (pi_store p)) + (if st_writer_alive (pi_store p) then 1 else 0) +
     (if pi_opened p then 0 else 1)"

lemma closing_terminates:
  assumes "pipe_step sha256 names E p p'" "pi_phase p = SentinelPut"
  shows "pi_phase p' = SentinelPut \<and> work_left p' < work_left p"
  using assms
  by cases (auto simp: work_left_def take_item_def leave_loop_def crash_writer_def Let_def)

lemma closing_goes_on:
  assumes "pi_phase p = SentinelPut" "st_writer_alive (pi_store p)" "E env"
  shows "\<exists>p'. pipe_step sha256 names E p p'"
proof (cases "pi_opened p")
  case True
  then show ?thesis
    using assms pipe_step.takes [OF _ True] pipe_step.leaves [OF _ True]
    by (cases "st_queue (pi_store p)") (simp, blast)+
next
  case False
  with assms show ?thesis using pipe_step.opens by blast
qed

text \<open>A writer that could not open the database leaves the queue to fill, and \<open>shutdown\<close>, whose timeout
  guards only the join, then blocks in \<open>put(None)\<close>: no step of the program is left.\<close>

lemma dead_writer_keeps_queue:
  assumes "pipe_step sha256 names E p p'" "\<not> st_writer_alive (pi_store p)"
  shows "\<not> st_writer_alive (pi_store p') \<and>
    (\<exists>more. st_queue (pi_store p') = st_queue (pi_store p) @ more)"
  using assms on_gui_raw [of sha256 names] on_gui_seed by cases auto

lemma shutdown_hangs:
  assumes "\<not> st_writer_alive (pi_store p)" "pi_phase p = StopSet"
    "length (st_queue (pi_store p)) = QUEUE_CAPACITY"
  shows "\<not> pipe_step sha256 names E p p'"
  using assms by (auto elim: pipe_step.cases)

section \<open>A concrete run\<close>

lemma sample_normalize:
  "\<exists>k. normalize (\<lambda>_. None) sid t sample_raw = Some k \<and> pk_sender_num k = Some 7 \<and>
     pk_portnum k = None \<and> pk_packet_id k = Some 42"
  by (simp add: normalize_def sample_raw_def portnum_entry_def dict_get_def channel_value_def
      coerce_portnum_def sub_dict_def rx_time_of_def text_of_def as_int_def as_str_def as_num_def Let_def)

lemma sample_ingest:
  "\<exists>s n k a b. ingest_raw id (\<lambda>_. None) (sample_clock t) sample_raw
      (sample_ingestor\<lparr>ig_store := Some st\<rparr>) = Inr s \<and>
     ig_signals s = [SigNode n, SigPacket k, SigStats a b] \<and> pk_packet_id k = Some 42 \<and>
     ig_store s = Some (put_item (IPacket k) (put_item (INode n) st))"
proof -
  obtain k where "normalize (\<lambda>_. None) ''s'' 0 sample_raw = Some k" "pk_sender_num k = Some 7"
    "pk_portnum k = None" "pk_packet_id k = Some 42" using sample_normalize by blast
  then show ?thesis
    by (simp add: ingest_raw_def sample_key sample_ingestor_def ingestor_new_def session_new_def
        sample_clock_def is_duplicate_def Let_def dispatch_packet_def update_node_def emit_def
        with_store_def case_prod_beta)
qed

abbreviation quiet_flush :: "flush_env \<Rightarrow> bool" where
  "quiet_flush env \<equiv> env = quiet_env 0"

text \<open>A packet arrives at a store whose writer has opened the database.\<close>

lemma sample_arrival:
  "\<exists>p n k a b. pipe_run id (\<lambda>_. None) quiet_flush (pipe_new sample_ingestor empty_db) p \<and>
     ig_signals (pi_ingestor p) = [SigNode n, SigPacket k, SigStats a b] \<and> pk_packet_id k = Some 42 \<and>
     p = \<lparr>pi_ingestor = pi_ingestor p, pi_store = store_new\<lparr>st_queue := [INode n, IPacket k]\<rparr>,
          pi_opened = True, pi_batch = [], pi_db = empty_db, pi_phase = Running\<rparr>"
proof -
  let ?p = "(pipe_new sample_ingestor empty_db)\<lparr>pi_opened := True\<rparr>"
  obtain s n k a b where s: "ingest_raw id (\<lambda>_. None) (sample_clock 0) sample_raw
      (sample_ingestor\<lparr>ig_store := Some store_new\<rparr>) = Inr s"
    "ig_signals s = [SigNode n, SigPacket k, SigStats a b]" "pk_packet_id k = Some 42"
    "ig_store s = Some (put_item (IPacket k) (put_item (INode n) store_new))"
    using sample_ingest by blast
  have "pipe_run id (\<lambda>_. None) quiet_flush (pipe_new sample_ingestor empty_db) ?p"
    by (rule run_step [OF run_refl pipe_step.opens]) (simp_all add: pipe_new_def store_new_def)
  moreover have "pipe_step id (\<lambda>_. None) quiet_flush ?p (on_gui (\<lambda>_. s) ?p)"
    by (rule pipe_step.arrives) (use s(1) in \<open>simp_all add: pipe_new_def\<close>)
  ultimately have "pipe_run id (\<lambda>_. None) quiet_flush (pipe_new sample_ingestor empty_db) (on_gui (\<lambda>_. s) ?p)"
    by (rule run_step)
  with s show ?thesis
    by (intro exI [of _ "on_gui (\<lambda>_. s) ?p"] exI)
      (auto simp: on_gui_def pipe_new_def put_item_room store_new_def QUEUE_CAPACITY_def)
qed



end
