(* ===== verification/Schema.thy ===== *)
theory Schema
  imports Store
begin

text \<open>
  \<open>database/schema.py\<close>: the tables and indexes, the two migrations and the code that runs them.
  A database is its \<open>user_version\<close>, the column names of each table and its index names; no statement
  here touches a row.  Python's \<open>sqlite3\<close> opens a transaction before INSERT, UPDATE, DELETE and REPLACE
  only, so each DDL statement and PRAGMA commits on its own and \<open>with conn:\<close> has nothing to roll back.
  A statement that raises is a \<open>Some\<close> in the list of faults, which loses one entry per statement.
\<close>

section \<open>Tables and indexes\<close>

record schema =
  sc_version :: int
  sc_tables :: "(string \<times> string list) list"
  sc_indexes :: "string list"

definition columns :: "string \<Rightarrow> schema \<Rightarrow> string list" where
  "columns t s = (case map_of (sc_tables s) t of None \<Rightarrow> [] | Some cs \<Rightarrow> cs)"

datatype ddl =
    CreateTable string "string list"
  | CreateIndex string string "string list"

text \<open>Both statements are \<open>IF NOT EXISTS\<close>; an index over a column that is not there raises.\<close>

fun run_ddl :: "ddl \<Rightarrow> schema \<Rightarrow> exc option \<times> schema" where
  "run_ddl (CreateTable t cs) s =
     (None, if t \<in> set (map fst (sc_tables s)) then s
            else s\<lparr>sc_tables := sc_tables s @ [(t, cs)]\<rparr>)"
| "run_ddl (CreateIndex i t cs) s =
     (if i \<in> set (sc_indexes s) then (None, s)
      else if set cs \<subseteq> set (columns t s) then (None, s\<lparr>sc_indexes := sc_indexes s @ [i]\<rparr>)
      else (Some (OperationalError ''no such column''), s))"

fun executescript :: "ddl list \<Rightarrow> schema \<Rightarrow> exc option \<times> schema" where
  "executescript [] s = (None, s)"
| "executescript (d # ds) s =
     (case run_ddl d s of
        (Some e, s') \<Rightarrow> (Some e, s')
      | (None, s') \<Rightarrow> executescript ds s')"

definition session_columns :: "string list" where
  "session_columns = [''id'', ''started_at'', ''ended_at'', ''local_node_num'', ''local_node_id'',
     ''transport'', ''connection_target'', ''meshtastic_version'', ''firmware_version'']"

definition packet_columns :: "string list" where
  "packet_columns = [''rowid'', ''session_id'', ''observed_at'', ''rx_time'', ''sender_num'',
     ''sender_id'', ''destination_num'', ''packet_id'', ''channel_index'', ''portnum'',
     ''portnum_name'', ''payload_size'', ''rx_snr'', ''rx_rssi'', ''hop_start'', ''hop_limit'',
     ''hops_used'', ''via_mqtt'', ''transport_mechanism'', ''pki_encrypted'', ''want_ack'',
     ''priority'']"

definition node_base_columns :: "string list" where
  "node_base_columns = [''node_num'', ''node_id'', ''long_name'', ''short_name'', ''role'',
     ''hw_model'', ''first_seen'', ''last_heard'', ''packet_count'', ''text_count'']"

text \<open>The columns the second migration adds, in its order and the table's.\<close>

definition node_stat_columns :: "string list" where
  "node_stat_columns = [''last_snr'', ''last_rssi'', ''last_hops_used'', ''last_hop_start'',
     ''last_via_mqtt'', ''rf_count'', ''via_mqtt_count'', ''position_count'', ''telemetry_count'']"

definition position_columns :: "string list" where
  "position_columns = [''rowid'', ''node_num'', ''observed_at'', ''latitude'', ''longitude'',
     ''altitude_m'', ''speed_ms'', ''heading_deg'', ''position_time'', ''precision_bits'']"

definition telemetry_columns :: "string list" where
  "telemetry_columns = [''rowid'', ''node_num'', ''observed_at'', ''battery_level'', ''voltage'',
     ''channel_utilization'', ''air_util_tx'', ''temperature_c'', ''relative_humidity'',
     ''barometric_pressure_hpa'', ''gas_resistance_ohm'']"

definition message_columns :: "string list" where
  "message_columns = [''rowid'', ''session_id'', ''local_id'', ''packet_id'', ''channel_index'',
     ''destination_num'', ''direction'', ''sender_num'', ''sender_id'', ''sender_name'', ''text'',
     ''observed_at'', ''byte_count'', ''status'']"

definition SCHEMA_SQL :: "ddl list" where
  "SCHEMA_SQL =
     [CreateTable ''sessions'' session_columns,
      CreateTable ''packets'' packet_columns,
      CreateIndex ''idx_packets_session_time'' ''packets'' [''session_id'', ''observed_at''],
      CreateIndex ''idx_packets_sender_time'' ''packets'' [''sender_num'', ''observed_at''],
      CreateIndex ''idx_packets_portnum_time'' ''packets'' [''portnum'', ''observed_at''],
      CreateIndex ''idx_packets_hops_time'' ''packets'' [''hops_used'', ''observed_at''],
      CreateTable ''nodes'' (node_base_columns @ node_stat_columns),
      CreateTable ''positions'' position_columns,
      CreateIndex ''idx_positions_node_time'' ''positions'' [''node_num'', ''observed_at''],
      CreateTable ''telemetry'' telemetry_columns,
      CreateTable ''messages'' message_columns,
      CreateTable ''app_settings'' [''key'', ''value'']]"

definition POST_MIGRATE_INDEXES :: "ddl list" where
  "POST_MIGRATE_INDEXES =
     [CreateIndex ''idx_messages_channel_time'' ''messages'' [''channel_index'', ''observed_at''],
      CreateIndex ''idx_messages_destination_time'' ''messages''
        [''destination_num'', ''observed_at''],
      CreateIndex ''idx_messages_time'' ''messages'' [''observed_at'']]"

section \<open>Migrations\<close>

definition next_exc :: "exc option list \<Rightarrow> exc option" where
  "next_exc fs = (case fs of [] \<Rightarrow> None | f # _ \<Rightarrow> f)"

definition add_column :: "string \<Rightarrow> string \<Rightarrow> schema \<Rightarrow> schema" where
  "add_column t c s =
     s\<lparr>sc_tables := map (\<lambda>(n, cs). if n = t then (n, cs @ [c]) else (n, cs)) (sc_tables s)\<rparr>"

fun alter_all ::
    "string \<Rightarrow> string list \<Rightarrow> exc option list \<Rightarrow> schema \<Rightarrow> exc option \<times> exc option list \<times> schema"
where
  "alter_all t [] fs s = (None, fs, s)"
| "alter_all t (c # cs) fs s =
     (case next_exc fs of
        Some e \<Rightarrow> (Some e, tl fs, s)
      | None \<Rightarrow> alter_all t cs (tl fs) (add_column t c s))"

text \<open>\<open>PRAGMA table_info\<close>, then one \<open>ALTER TABLE\<close> per column that is missing.\<close>

definition add_missing ::
    "string \<Rightarrow> string list \<Rightarrow> exc option list \<Rightarrow> schema \<Rightarrow> exc option \<times> exc option list \<times> schema"
where
  "add_missing t wanted fs s =
     (case next_exc fs of
        Some e \<Rightarrow> (Some e, tl fs, s)
      | None \<Rightarrow> alter_all t (filter (\<lambda>c. c \<notin> set (columns t s)) wanted) (tl fs) s)"

definition message_new_columns :: "string list" where
  "message_new_columns = [''text'', ''destination_num'']"

definition migrate_v1_message_columns ::
    "exc option list \<Rightarrow> schema \<Rightarrow> exc option \<times> exc option list \<times> schema" where
  "migrate_v1_message_columns = add_missing ''messages'' message_new_columns"

definition migrate_v2_node_stat_columns ::
    "exc option list \<Rightarrow> schema \<Rightarrow> exc option \<times> exc option list \<times> schema" where
  "migrate_v2_node_stat_columns = add_missing ''nodes'' node_stat_columns"

definition MIGRATIONS ::
    "(int \<times> (exc option list \<Rightarrow> schema \<Rightarrow> exc option \<times> exc option list \<times> schema)) list" where
  "MIGRATIONS = [(1, migrate_v1_message_columns), (2, migrate_v2_node_stat_columns)]"

definition CURRENT_SCHEMA_VERSION :: int where
  "CURRENT_SCHEMA_VERSION = fst (last MIGRATIONS)"

text \<open>What is known about the file behind the connection: its size (\<open>None\<close> when it does not exist),
  the parts of its path, the clock's stamp, and whether the checkpoint and copy succeed.\<close>

record db_file =
  df_size :: "nat option"
  df_parent :: string
  df_stem :: string
  df_suffix :: string
  df_stamp :: string
  df_copy_ok :: bool

definition backup_before_migration :: "db_file \<Rightarrow> int \<Rightarrow> string option" where
  "backup_before_migration f from_version =
     (case df_size f of
        None \<Rightarrow> None
      | Some n \<Rightarrow>
          if n = 0 \<or> \<not> df_copy_ok f then None
          else Some (df_parent f @ ''/backups/'' @ df_stem f @ ''.schema-v'' @ show_int from_version
                 @ ''.'' @ df_stamp f @ df_suffix f))"

datatype schema_error =
    MigrationFailed int exc "string option"
  | IntegrityFailed string "string option"
  | ScriptFailed exc

fun run_pending ::
    "(int \<times> (exc option list \<Rightarrow> schema \<Rightarrow> exc option \<times> exc option list \<times> schema)) list
      \<Rightarrow> string option \<Rightarrow> exc option list \<Rightarrow> schema \<Rightarrow> schema_error option \<times> schema"
where
  "run_pending [] saved fs s = (None, s)"
| "run_pending ((version, migrate_fn) # pending) saved fs s =
     (case migrate_fn fs s of
        (Some e, _, s') \<Rightarrow> (Some (MigrationFailed version e saved), s')
      | (None, fs', s') \<Rightarrow>
          (case next_exc fs' of
             Some e \<Rightarrow> (Some (MigrationFailed version e saved), s')
           | None \<Rightarrow> run_pending pending saved (tl fs') (s'\<lparr>sc_version := version\<rparr>)))"

definition run_migrations ::
    "db_file option \<Rightarrow> string \<Rightarrow> exc option list \<Rightarrow> schema \<Rightarrow> schema_error option \<times> schema" where
  "run_migrations db_path integrity fs s =
     (let pending = filter (\<lambda>m. fst m > sc_version s) MIGRATIONS
      in case pending of
           [] \<Rightarrow> (None, s)
         | _ \<Rightarrow>
           (let saved = (case db_path of None \<Rightarrow> None
                          | Some f \<Rightarrow> backup_before_migration f (sc_version s))
            in case run_pending pending saved fs s of
                 (Some e, s') \<Rightarrow> (Some e, s')
               | (None, s') \<Rightarrow>
                   (if integrity \<noteq> ''ok'' then Some (IntegrityFailed integrity saved) else None, s')))"

definition apply_schema ::
    "db_file option \<Rightarrow> string \<Rightarrow> exc option list \<Rightarrow> schema \<Rightarrow> schema_error option \<times> schema" where
  "apply_schema db_path integrity fs s =
     (let is_new_database = (case db_path of None \<Rightarrow> True
            | Some f \<Rightarrow> df_size f = None \<or> df_size f = Some 0)
      in case executescript SCHEMA_SQL s of
           (Some e, s1) \<Rightarrow> (Some (ScriptFailed e), s1)
         | (None, s1) \<Rightarrow>
             (case run_migrations (if is_new_database then None else db_path) integrity fs s1 of
                (Some e, s2) \<Rightarrow> (Some e, s2)
              | (None, s2) \<Rightarrow>
                  (case executescript POST_MIGRATE_INDEXES s2 of
                     (Some e, s3) \<Rightarrow> (Some (ScriptFailed e), s3)
                   | (None, s3) \<Rightarrow> (None, s3))))"

text \<open>The text of the exception.\<close>

fun schema_error_message :: "schema_error \<Rightarrow> string" where
  "schema_error_message (MigrationFailed version e saved) =
     ''Database migration to schema version '' @ show_int version @ '' failed: '' @ exc_message e
       @ ''. Your existing data has not been modified.''
       @ (case saved of None \<Rightarrow> []
          | Some p \<Rightarrow> if p = [] then [] else '' A pre-migration backup was saved to '' @ p @ ''.'')"
| "schema_error_message (IntegrityFailed integrity saved) =
     ''Database integrity check failed after migration: '' @ integrity @ ''.''
       @ (case saved of None \<Rightarrow> []
          | Some p \<Rightarrow> if p = [] then [] else '' A pre-migration backup was saved to '' @ p @ ''.'')
       @ '' If you have a backup, restore it and report this issue.''"
| "schema_error_message (ScriptFailed e) = exc_message e"

section \<open>Scripts\<close>

text \<open>What no statement takes away: tables and their columns, indexes.\<close>

definition table_names :: "schema \<Rightarrow> string set" where
  "table_names s = set (map fst (sc_tables s))"

definition extends :: "schema \<Rightarrow> schema \<Rightarrow> bool" where
  "extends s s' \<longleftrightarrow> table_names s \<subseteq> table_names s' \<and> set (sc_indexes s) \<subseteq> set (sc_indexes s') \<and>
     (\<forall>t. prefix (columns t s) (columns t s'))"

lemma extends_refl [simp]: "extends s s"
  by (simp add: extends_def)

lemma extends_trans: "extends a b \<Longrightarrow> extends b c \<Longrightarrow> extends a c"
  unfolding extends_def by (meson prefix_order.trans subset_trans)

lemma columns_version [simp]: "columns t (s\<lparr>sc_version := v\<rparr>) = columns t s"
  by (simp add: columns_def)

lemma table_names_version [simp]: "table_names (s\<lparr>sc_version := v\<rparr>) = table_names s"
  by (simp add: table_names_def)

lemma extends_version [simp]: "extends s (s\<lparr>sc_version := v\<rparr>)"
  by (simp add: extends_def)

lemma table_names_iff: "t \<in> table_names s \<longleftrightarrow> (\<exists>cs. map_of (sc_tables s) t = Some cs)"
  using map_of_eq_None_iff [of "sc_tables s" t] by (auto simp: table_names_def)

lemma run_ddl_extends: "extends s (snd (run_ddl d s))"
proof (cases d)
  case (CreateTable t cs)
  have "columns t' s = columns t' (s\<lparr>sc_tables := sc_tables s @ [(t, cs)]\<rparr>) \<or> columns t' s = []" for t'
    by (auto simp: columns_def map_add_def split: option.splits)
  then have "prefix (columns t' s) (columns t' (s\<lparr>sc_tables := sc_tables s @ [(t, cs)]\<rparr>))" for t'
    by (metis Nil_prefix prefix_order.refl)
  with CreateTable show ?thesis by (auto simp: extends_def table_names_def)
next
  case (CreateIndex i t cs)
  then show ?thesis by (auto simp: extends_def table_names_def columns_def)
qed

lemma run_ddl_version [simp]: "sc_version (snd (run_ddl d s)) = sc_version s"
  by (cases d) auto

lemma run_ddl_error: "run_ddl d s = (Some e, s') \<Longrightarrow> s' = s"
  by (cases d) (auto split: if_splits)

lemma executescript_extends: "extends s (snd (executescript ds s))"
proof (induction ds arbitrary: s)
  case (Cons d ds)
  have "extends s (snd (run_ddl d s))" by (rule run_ddl_extends)
  with Cons show ?case by (auto split: prod.splits option.splits intro: extends_trans)
qed simp

lemma executescript_version [simp]: "sc_version (snd (executescript ds s)) = sc_version s"
proof (induction ds arbitrary: s)
  case (Cons d ds)
  obtain r s1 where s1: "run_ddl d s = (r, s1)" by (cases "run_ddl d s")
  with run_ddl_version [of d s] Cons [of s1] show ?case by (cases r) simp_all
qed simp

text \<open>A statement that has run is a no-op from then on, and so is a script.\<close>

fun done_ddl :: "ddl \<Rightarrow> schema \<Rightarrow> bool" where
  "done_ddl (CreateTable t cs) s \<longleftrightarrow> t \<in> table_names s"
| "done_ddl (CreateIndex i t cs) s \<longleftrightarrow> i \<in> set (sc_indexes s)"

lemma done_ddl_noop: "done_ddl d s \<Longrightarrow> run_ddl d s = (None, s)"
  by (cases d) (auto simp: table_names_def)

lemma run_ddl_done: "run_ddl d s = (None, s') \<Longrightarrow> done_ddl d s'"
  by (cases d) (auto simp: table_names_def split: if_splits)

lemma done_ddl_extends: "done_ddl d s \<Longrightarrow> extends s s' \<Longrightarrow> done_ddl d s'"
  by (cases d) (auto simp: extends_def)

lemma executescript_done:
  "executescript ds s = (None, s') \<Longrightarrow> d \<in> set ds \<Longrightarrow> done_ddl d s'"
proof (induction ds arbitrary: s)
  case (Cons x ds)
  then obtain s1 where s1: "run_ddl x s = (None, s1)" "executescript ds s1 = (None, s')"
    by (auto split: prod.splits option.splits)
  have "extends s1 s'" using executescript_extends [of s1 ds] s1(2) by simp
  with Cons s1 show ?case by (auto intro: done_ddl_extends run_ddl_done)
qed simp

lemma executescript_noop: "\<forall>d \<in> set ds. done_ddl d s \<Longrightarrow> executescript ds s = (None, s)"
  by (induction ds) (auto simp: done_ddl_noop)

lemma executescript_again: "executescript ds (snd (executescript ds s)) = executescript ds s"
proof (induction ds arbitrary: s)
  case (Cons d ds)
  obtain r s1 where s1: "run_ddl d s = (r, s1)" by (cases "run_ddl d s")
  show ?case
  proof (cases r)
    case None
    with s1 have "done_ddl d (snd (executescript ds s1))"
      by (auto intro: done_ddl_extends run_ddl_done executescript_extends)
    with None s1 Cons show ?thesis by (simp add: done_ddl_noop)
  next
    case (Some e)
    with s1 have "s1 = s" by (auto dest: run_ddl_error)
    with Some s1 show ?thesis by simp
  qed
qed simp

section \<open>Migrations\<close>

lemma columns_add_column:
  "columns t' (add_column t c s) =
    (if t' = t \<and> t \<in> table_names s then columns t s @ [c] else columns t' s)"
proof -
  have "map_of (map (\<lambda>(n, cs). if n = t then (n, cs @ [c]) else (n, cs)) ts) t'
      = (if t' = t then map_option (\<lambda>cs. cs @ [c]) (map_of ts t) else map_of ts t')" for ts
    by (induction ts) auto
  then show ?thesis
    by (auto simp: columns_def add_column_def table_names_iff split: option.splits)
qed

lemma add_column_simps [simp]:
  "table_names (add_column t c s) = table_names s"
  "sc_indexes (add_column t c s) = sc_indexes s"
  "sc_version (add_column t c s) = sc_version s"
  "add_column t c (s\<lparr>sc_version := v\<rparr>) = (add_column t c s)\<lparr>sc_version := v\<rparr>"
  by (auto simp: add_column_def table_names_def comp_def case_prod_beta image_iff
      intro!: image_cong split: if_splits)

definition add_columns :: "string \<Rightarrow> string list \<Rightarrow> schema \<Rightarrow> schema" where
  "add_columns t cs s = fold (add_column t) cs s"

lemma add_columns_simps [simp]:
  "table_names (add_columns t cs s) = table_names s"
  "sc_indexes (add_columns t cs s) = sc_indexes s"
  "sc_version (add_columns t cs s) = sc_version s"
  "add_columns t cs (s\<lparr>sc_version := v\<rparr>) = (add_columns t cs s)\<lparr>sc_version := v\<rparr>"
  by (induction cs arbitrary: s) (simp_all add: add_columns_def)

lemma columns_add_columns:
  "columns t' (add_columns t cs s) =
    (if t' = t \<and> t \<in> table_names s then columns t s @ cs else columns t' s)"
proof (induction cs arbitrary: s)
  case (Cons c cs)
  from Cons [of "add_column t c s"] show ?case
    by (auto simp: add_columns_def columns_add_column)
qed (simp add: add_columns_def)

lemma alter_all_no_fault: "alter_all t cs [] s = (None, [], add_columns t cs s)"
  by (induction cs arbitrary: s) (simp_all add: next_exc_def add_columns_def)

lemma alter_all_cases:
  "\<exists>done rest. cs = done @ rest \<and> snd (snd (alter_all t cs fs s)) = add_columns t done s \<and>
     (fst (alter_all t cs fs s) = None \<longrightarrow> rest = [])"
proof (induction t cs fs s rule: alter_all.induct)
  case (2 t c cs fs s)
  show ?case
  proof (cases "next_exc fs")
    case None
    from 2 [OF None] obtain d r where d: "cs = d @ r"
      "snd (snd (alter_all t cs (tl fs) (add_column t c s))) = add_columns t d (add_column t c s)"
      "fst (alter_all t cs (tl fs) (add_column t c s)) = None \<longrightarrow> r = []"
      by (elim exE conjE) (rule that)
    have "add_columns t d (add_column t c s) = add_columns t (c # d) s" by (simp add: add_columns_def)
    with None d have "c # cs = (c # d) @ r \<and>
        snd (snd (alter_all t (c # cs) fs s)) = add_columns t (c # d) s \<and>
        (fst (alter_all t (c # cs) fs s) = None \<longrightarrow> r = [])" by simp
    then show ?thesis by (intro exI)
  next
    case (Some e)
    then have "c # cs = [] @ c # cs \<and> snd (snd (alter_all t (c # cs) fs s)) = add_columns t [] s \<and>
        (fst (alter_all t (c # cs) fs s) = None \<longrightarrow> c # cs = [])" by (simp add: add_columns_def)
    then show ?thesis by (intro exI)
  qed
qed (simp add: add_columns_def)

definition missing :: "string \<Rightarrow> string list \<Rightarrow> schema \<Rightarrow> string list" where
  "missing t wanted s = filter (\<lambda>c. c \<notin> set (columns t s)) wanted"

lemma add_missing_no_fault:
  "add_missing t wanted [] s = (None, [], add_columns t (missing t wanted s) s)"
  by (simp add: add_missing_def next_exc_def alter_all_no_fault missing_def)

lemma add_missing_cases:
  "\<exists>done rest. missing t wanted s = done @ rest \<and>
     snd (snd (add_missing t wanted fs s)) = add_columns t done s \<and>
     (fst (add_missing t wanted fs s) = None \<longrightarrow> rest = [])"
proof (cases "next_exc fs")
  case None
  with alter_all_cases [of "missing t wanted s" t "tl fs" s] show ?thesis
    by (simp add: add_missing_def missing_def)
next
  case (Some e)
  then have "missing t wanted s = [] @ missing t wanted s \<and>
      snd (snd (add_missing t wanted fs s)) = add_columns t [] s \<and>
      (fst (add_missing t wanted fs s) = None \<longrightarrow> missing t wanted s = [])"
    by (simp add: add_missing_def add_columns_def)
  then show ?thesis by (intro exI)
qed

text \<open>Interrupted or not, a migration run again ends where one undisturbed run does.\<close>

lemma add_missing_resumes:
  assumes "t \<in> table_names s" "distinct wanted"
  shows "add_missing t wanted [] (snd (snd (add_missing t wanted fs s))) = add_missing t wanted [] s"
proof -
  from add_missing_cases [of t wanted s fs] obtain d r where
    d: "missing t wanted s = d @ r" "snd (snd (add_missing t wanted fs s)) = add_columns t d s"
    by blast
  from assms(2) have "distinct (d @ r)" unfolding d(1) [symmetric] missing_def by simp
  then have "filter (\<lambda>c. c \<notin> set d) r = r" by (auto simp: filter_id_conv)
  then have "r = filter (\<lambda>c. c \<notin> set d) (d @ r)" by simp
  also have "\<dots> = missing t wanted (add_columns t d s)"
    using assms(1) unfolding d(1) [symmetric] missing_def
    by (auto simp: columns_add_columns filter_filter intro!: filter_cong)
  finally have "missing t wanted (add_columns t d s) = r" by simp
  then show ?thesis by (simp add: add_missing_no_fault d add_columns_def)
qed

lemma add_missing_complete:
  assumes "t \<in> table_names s" "distinct wanted" "add_missing t wanted fs s = (None, fs', s')"
  shows "s' = snd (snd (add_missing t wanted [] s))" "set wanted \<subseteq> set (columns t s')"
proof -
  from add_missing_cases [of t wanted s fs] assms(3) show "s' = snd (snd (add_missing t wanted [] s))"
    by (auto simp: add_missing_no_fault)
  then show "set wanted \<subseteq> set (columns t s')"
    using assms(1) by (auto simp: add_missing_no_fault columns_add_columns missing_def)
qed

lemma add_missing_frame:
  "extends s (snd (snd (add_missing t wanted fs s)))"
  "table_names (snd (snd (add_missing t wanted fs s))) = table_names s"
  "sc_indexes (snd (snd (add_missing t wanted fs s))) = sc_indexes s"
  "sc_version (snd (snd (add_missing t wanted fs s))) = sc_version s"
  using add_missing_cases [of t wanted s fs] by (auto simp: extends_def columns_add_columns)

section \<open>Running the pending migrations\<close>

lemma distinct_new_columns: "distinct message_new_columns" "distinct node_stat_columns"
  by (simp_all add: message_new_columns_def node_stat_columns_def)

definition upgrade :: "string \<Rightarrow> string list \<Rightarrow> int \<Rightarrow> schema \<Rightarrow> schema" where
  "upgrade t wanted v s = (add_columns t (missing t wanted s) s)\<lparr>sc_version := v\<rparr>"

definition migrated :: "schema \<Rightarrow> schema" where
  "migrated s =
     (if 2 \<le> sc_version s then s
      else (let s1 = (if 1 \<le> sc_version s then s else upgrade ''messages'' message_new_columns 1 s)
            in upgrade ''nodes'' node_stat_columns 2 s1))"

lemma upgrade_frame [simp]: "table_names (upgrade t w v s) = table_names s"
  "sc_indexes (upgrade t w v s) = sc_indexes s" "sc_version (upgrade t w v s) = v"
  by (simp_all add: upgrade_def)

lemma upgrade_resumes:
  assumes "t \<in> table_names s" "distinct wanted"
  shows "upgrade t wanted v (snd (snd (add_missing t wanted fs s))) = upgrade t wanted v s"
  using add_missing_resumes [OF assms, of fs] by (simp add: add_missing_no_fault upgrade_def)

lemma upgrade_complete:
  assumes "add_missing t wanted fs s = (None, fs', s')"
  shows "s'\<lparr>sc_version := v\<rparr> = upgrade t wanted v s"
  using add_missing_cases [of t wanted s fs] assms by (auto simp: upgrade_def)

lemma run_migrations_no_fault: "run_migrations p ''ok'' [] s = (None, migrated s)"
  by (simp add: run_migrations_def MIGRATIONS_def migrate_v1_message_columns_def
      migrate_v2_node_stat_columns_def add_missing_no_fault next_exc_def migrated_def
      upgrade_def Let_def)

lemma run_one_resumes:
  assumes "t \<in> table_names s" "distinct wanted"
    "run_pending [(v, add_missing t wanted)] b fs s = (r, s')"
  shows "(s' = upgrade t wanted v s \<or> sc_version s' = sc_version s \<and> r \<noteq> None \<and>
      upgrade t wanted v s' = upgrade t wanted v s) \<and>
    table_names s' = table_names s \<and> sc_indexes s' = sc_indexes s"
proof -
  obtain e fs1 s1 where m: "add_missing t wanted fs s = (e, fs1, s1)"
    by (cases "add_missing t wanted fs s")
  from add_missing_frame [where s = s and t = t and wanted = wanted and fs = fs] upgrade_resumes [OF assms(1,2), of v fs] m
  have f: "table_names s1 = table_names s" "sc_indexes s1 = sc_indexes s"
    "sc_version s1 = sc_version s" "upgrade t wanted v s1 = upgrade t wanted v s" by simp_all
  show ?thesis
  proof (cases e)
    case None
    show ?thesis
    proof (cases "next_exc fs1")
      case None
      with \<open>e = None\<close> m assms(3) upgrade_complete [of t wanted fs s fs1 s1 v]
      have "s' = upgrade t wanted v s" by simp
      then show ?thesis by simp
    next
      case (Some x)
      with \<open>e = None\<close> m assms(3) have "s' = s1" "r \<noteq> None" by auto
      with f show ?thesis by simp
    qed
  next
    case (Some x)
    with m f assms(3) show ?thesis by auto
  qed
qed

lemma run_two_resumes:
  assumes "t \<in> table_names s" "distinct wanted" "t' \<in> table_names s" "distinct wanted'"
    "run_pending [(v, add_missing t wanted), (v', add_missing t' wanted')] b fs s = (r, s')"
  shows "(s' = upgrade t' wanted' v' (upgrade t wanted v s) \<or>
      r \<noteq> None \<and> sc_version s' = v \<and>
        upgrade t' wanted' v' s' = upgrade t' wanted' v' (upgrade t wanted v s) \<or>
      r \<noteq> None \<and> sc_version s' = sc_version s \<and> upgrade t wanted v s' = upgrade t wanted v s) \<and>
    table_names s' = table_names s \<and> sc_indexes s' = sc_indexes s"
proof -
  obtain e fs1 s1 where m: "add_missing t wanted fs s = (e, fs1, s1)"
    by (cases "add_missing t wanted fs s")
  from add_missing_frame [where s = s and t = t and wanted = wanted and fs = fs] upgrade_resumes [OF assms(1,2), of v fs] m
  have f: "table_names s1 = table_names s" "sc_indexes s1 = sc_indexes s"
    "sc_version s1 = sc_version s" "upgrade t wanted v s1 = upgrade t wanted v s" by simp_all
  show ?thesis
  proof (cases "e = None \<and> next_exc fs1 = None")
    case True
    then have u: "s1\<lparr>sc_version := v\<rparr> = upgrade t wanted v s"
      using m upgrade_complete by auto
    with True m assms(5) have
      "run_pending [(v', add_missing t' wanted')] b (tl fs1) (upgrade t wanted v s) = (r, s')"
      by simp
    from run_one_resumes [OF _ assms(4) this] assms(3) show ?thesis by auto
  next
    case False
    with m assms(5) have "s' = s1" "r \<noteq> None" by (auto split: option.splits)
    with f show ?thesis by auto
  qed
qed

lemma run_migrations_resumes:
  assumes "{''messages'', ''nodes''} \<subseteq> table_names s" "run_migrations p i fs s = (r, s')"
  shows "migrated s' = migrated s \<and> (r = None \<longrightarrow> s' = migrated s) \<and>
    table_names s' = table_names s \<and> sc_indexes s' = sc_indexes s"
proof -
  define b where "b = (case p of None \<Rightarrow> None | Some f \<Rightarrow> backup_before_migration f (sc_version s))"
  consider "2 \<le> sc_version s" | "sc_version s < 2" "1 \<le> sc_version s" | "sc_version s < 1"
    by linarith
  then show ?thesis
  proof cases
    case 1
    with assms(2) show ?thesis by (simp add: run_migrations_def MIGRATIONS_def migrated_def)
  next
    case 2
    obtain r' where run: "run_pending [(2, add_missing ''nodes'' node_stat_columns)] b fs s = (r', s')"
      and r: "r = None \<longrightarrow> r' = None"
      using assms(2) 2
      by (auto simp: run_migrations_def MIGRATIONS_def migrate_v2_node_stat_columns_def b_def Let_def
          simp del: run_pending.simps split: prod.splits option.splits if_splits)
    from run_one_resumes [OF _ distinct_new_columns(2) run] assms(1) 2 r show ?thesis
      by (auto simp: migrated_def)
  next
    case 3
    obtain r' where run: "run_pending [(1, add_missing ''messages'' message_new_columns),
        (2, add_missing ''nodes'' node_stat_columns)] b fs s = (r', s')"
      and r: "r = None \<longrightarrow> r' = None"
      using assms(2) 3
      by (auto simp: run_migrations_def MIGRATIONS_def migrate_v1_message_columns_def
          migrate_v2_node_stat_columns_def b_def Let_def
          simp del: run_pending.simps split: prod.splits option.splits if_splits)
    from run_two_resumes [OF _ distinct_new_columns(1) _ distinct_new_columns(2) run]
      assms(1) 3 r show ?thesis by (auto simp: migrated_def)
  qed
qed

section \<open>The databases of earlier releases\<close>

fun ddl_table :: "ddl \<Rightarrow> (string \<times> string list) option" where
  "ddl_table (CreateTable t cs) = Some (t, cs)"
| "ddl_table (CreateIndex i t cs) = None"

definition schema_tables :: "(string \<times> string list) list" where
  "schema_tables = List.map_filter ddl_table SCHEMA_SQL"

text \<open>The columns a table has at a version at least: the current ones but for those that migrations
  above that version add.\<close>

definition added_after :: "int \<Rightarrow> string \<Rightarrow> string set" where
  "added_after v t = (if t = ''messages'' \<and> v < 1 then set message_new_columns
     else if t = ''nodes'' \<and> v < 2 then set node_stat_columns else {})"

definition needed :: "int \<Rightarrow> string \<Rightarrow> string set" where
  "needed v t = (case map_of schema_tables t of None \<Rightarrow> {} | Some cs \<Rightarrow> set cs - added_after v t)"

text \<open>A database some release left behind: each of its tables has the columns its version
  promises.\<close>

definition release_db :: "schema \<Rightarrow> bool" where
  "release_db s \<longleftrightarrow> (\<forall>t \<in> table_names s. needed (sc_version s) t \<subseteq> set (columns t s))"

fun script_ok :: "(string \<Rightarrow> string set) \<Rightarrow> string set \<Rightarrow> ddl list \<Rightarrow> bool" where
  "script_ok need made [] = True"
| "script_ok need made (CreateTable t cs # ds) =
     (need t \<subseteq> set cs \<and> script_ok need (insert t made) ds)"
| "script_ok need made (CreateIndex i t cs # ds) =
     (t \<in> made \<and> set cs \<subseteq> need t \<and> script_ok need made ds)"

lemma script_ok_runs:
  "script_ok need made ds \<Longrightarrow> made \<subseteq> table_names s \<Longrightarrow>
    \<forall>t \<in> table_names s. need t \<subseteq> set (columns t s) \<Longrightarrow>
    \<exists>s'. executescript ds s = (None, s') \<and> (\<forall>t \<in> table_names s'. need t \<subseteq> set (columns t s'))"
proof (induction need made ds arbitrary: s rule: script_ok.induct)
  case (2 need made t cs ds)
  obtain s1 where s1: "run_ddl (CreateTable t cs) s = (None, s1)" by simp
  have "columns t' s1 = (if t' = t \<and> t \<notin> table_names s then cs else columns t' s)" for t'
    using s1 table_names_iff [of t s]
    by (auto simp: columns_def table_names_def map_add_def split: option.splits if_splits)
  moreover have "table_names s1 = insert t (table_names s)"
    using s1 by (auto simp: table_names_def split: if_splits)
  ultimately have "\<exists>s'. executescript ds s1 = (None, s') \<and>
      (\<forall>t \<in> table_names s'. need t \<subseteq> set (columns t s'))"
    using 2 by (intro "2.IH") auto
  with s1 show ?case by simp
next
  case (3 need made i t cs ds)
  then have "t \<in> table_names s" by auto
  with 3 have "set cs \<subseteq> set (columns t s)" by force
  then obtain s1 where s1: "run_ddl (CreateIndex i t cs) s = (None, s1)"
    by (cases "i \<in> set (sc_indexes s)") auto
  have "columns t' s1 = columns t' s" "table_names s1 = table_names s" for t'
    using s1 by (auto simp: columns_def table_names_def split: if_splits)
  with 3 have "\<exists>s'. executescript ds s1 = (None, s') \<and>
      (\<forall>t \<in> table_names s'. need t \<subseteq> set (columns t s'))" by (intro "3.IH") auto
  with s1 show ?case by simp
qed simp

lemmas schema_eval = schema_tables_def SCHEMA_SQL_def List.map_filter_def needed_def
  added_after_def session_columns_def packet_columns_def node_base_columns_def
  node_stat_columns_def position_columns_def telemetry_columns_def message_columns_def
  message_new_columns_def POST_MIGRATE_INDEXES_def

lemma script_ok_SCHEMA: "script_ok (needed v) {} SCHEMA_SQL"
  by (simp add: schema_eval)

lemma script_ok_POST: "2 \<le> v \<Longrightarrow> script_ok (needed v) {''messages''} POST_MIGRATE_INDEXES"
  by (simp add: schema_eval)

lemma migrated_release:
  assumes "release_db s" "{''messages'', ''nodes''} \<subseteq> table_names s"
  shows "release_db (migrated s)" "2 \<le> sc_version (migrated s)"
    "table_names (migrated s) = table_names s" "extends s (migrated s)"
proof -
  have up: "release_db (upgrade t w v s')" if "release_db s'" "t \<in> table_names s'"
    "\<And>t'. needed v t' \<subseteq> needed (sc_version s') t' \<union> (if t' = t then set w else {})" for t w v s'
  proof -
    have "columns t' (upgrade t w v s') = columns t' s' @ (if t' = t then missing t w s' else [])" for t'
      using that(2) by (simp add: upgrade_def columns_add_columns)
    then have c: "set (columns t' (upgrade t w v s'))
        = set (columns t' s') \<union> (if t' = t then set w else {})" for t'
      by (auto simp: missing_def)
    show ?thesis unfolding release_db_def
    proof
      fix t' assume "t' \<in> table_names (upgrade t w v s')"
      then have "needed (sc_version s') t' \<subseteq> set (columns t' s')"
        using that(1) by (simp add: release_db_def)
      with that(3) [of t'] show "needed (sc_version (upgrade t w v s')) t'
          \<subseteq> set (columns t' (upgrade t w v s'))" unfolding c upgrade_frame by blast
    qed
  qed
  have e: "extends s' (upgrade t w v s')" for t w v s'
    by (auto simp: extends_def upgrade_def columns_add_columns)
  show "2 \<le> sc_version (migrated s)" "table_names (migrated s) = table_names s"
    by (simp_all add: migrated_def Let_def)
  show "extends s (migrated s)"
    using e extends_trans [OF e e] by (auto simp: migrated_def Let_def)
  have one: "needed 1 t \<subseteq> needed v t \<union> (if t = ''messages'' then set message_new_columns else {})"
    if "v < 1" for v t using that by (auto simp: needed_def added_after_def split: option.splits)
  have two: "needed 2 t \<subseteq> needed v t \<union> (if t = ''nodes'' then set node_stat_columns else {})"
    if "1 \<le> v" "v < 2" for v t
    using that by (auto simp: needed_def added_after_def split: option.splits)
  have first: "release_db (upgrade ''messages'' message_new_columns 1 s)" if "sc_version s < 1"
    using assms by (intro up one that) auto
  have second: "release_db (upgrade ''nodes'' node_stat_columns 2 s')"
    if "release_db s'" "''nodes'' \<in> table_names s'" "1 \<le> sc_version s'" "sc_version s' < 2" for s'
    by (rule up [OF that(1,2) two [OF that(3,4)]])
  show "release_db (migrated s)"
    using assms first second by (auto simp: migrated_def Let_def)
qed


section \<open>Properties\<close>

lemma script_tables: "executescript SCHEMA_SQL s = (None, s') \<Longrightarrow>
    {''messages'', ''nodes''} \<subseteq> table_names s'"
  using executescript_done [of SCHEMA_SQL s s' "CreateTable ''messages'' message_columns"]
    executescript_done [of SCHEMA_SQL s s'
      "CreateTable ''nodes'' (node_base_columns @ node_stat_columns)"]
  by (simp add: SCHEMA_SQL_def del: executescript.simps)

lemma script_still_done:
  assumes "executescript SCHEMA_SQL s = (None, s1)" "table_names s1 \<subseteq> table_names s2"
    "set (sc_indexes s1) \<subseteq> set (sc_indexes s2)"
  shows "executescript SCHEMA_SQL s2 = (None, s2)"
proof (rule executescript_noop, rule ballI)
  fix d assume "d \<in> set SCHEMA_SQL"
  from executescript_done [OF assms(1) this] assms(2,3) show "done_ddl d s2" by (cases d) auto
qed

definition finish :: "schema \<Rightarrow> schema_error option \<times> schema" where
  "finish s = (case executescript POST_MIGRATE_INDEXES s of
     (e, s') \<Rightarrow> (map_option ScriptFailed e, s'))"

lemma apply_no_fault:
  assumes "executescript SCHEMA_SQL s = (None, s1)"
  shows "apply_schema p ''ok'' [] s = finish (migrated s1)"
  by (simp add: apply_schema_def assms run_migrations_no_fault Let_def finish_def
      split: prod.splits option.splits)

lemma migrated_noop: "2 \<le> sc_version s \<Longrightarrow> migrated s = s"
  by (simp add: migrated_def)

text \<open>C7: opening a database whose migration was interrupted finishes the job: whatever statement failed
  last time, and whatever the integrity check said, the next undisturbed \<open>apply_schema\<close> gives the very
  schema it would have given on the untouched database.\<close>

theorem migration_resumes:
  "apply_schema p ''ok'' [] (snd (apply_schema q integrity fs s)) = apply_schema p ''ok'' [] s"
proof -
  obtain x s1 where x: "executescript SCHEMA_SQL s = (x, s1)" by (rule prod.exhaust)
  show ?thesis
  proof (cases x)
    case (Some e)
    then have "snd (apply_schema q integrity fs s) = s1" by (simp add: apply_schema_def x Let_def)
    with x executescript_again [of SCHEMA_SQL s] show ?thesis
      by (simp add: apply_schema_def Some)
  next
    case None
    note ok = x [unfolded None]
    define q' where "q' = (if (case q of None \<Rightarrow> True
      | Some f \<Rightarrow> df_size f = None \<or> df_size f = Some 0) then None else q)"
    obtain r s2 where r: "run_migrations q' integrity fs s1 = (r, s2)" by (rule prod.exhaust)
    note res = run_migrations_resumes [OF script_tables [OF ok] r]
    show ?thesis
    proof (cases r)
      case (Some e)
      then have "snd (apply_schema q integrity fs s) = s2"
        using r by (simp add: apply_schema_def ok Let_def q'_def)
      with res script_still_done [OF ok, of s2] show ?thesis by (simp add: apply_no_fault ok)
    next
      case None
      obtain y s3 where y: "executescript POST_MIGRATE_INDEXES s2 = (y, s3)" by (rule prod.exhaust)
      have s3: "snd (apply_schema q integrity fs s) = s3"
        using r None y by (simp add: apply_schema_def ok Let_def q'_def split: option.splits)
      have "extends s2 s3" "sc_version s3 = sc_version s2"
        using executescript_extends [of s2 POST_MIGRATE_INDEXES]
          executescript_version [of POST_MIGRATE_INDEXES s2] y by simp_all
      moreover have "2 \<le> sc_version s2" using res None by (simp add: migrated_def Let_def)
      ultimately have "apply_schema p ''ok'' [] s3 = finish s3"
        using res apply_no_fault [OF script_still_done [OF ok, of s3], of p]
        by (simp add: extends_def migrated_noop)
      also have "\<dots> = finish s2"
        using executescript_again [of POST_MIGRATE_INDEXES s2] y by (simp add: finish_def)
      finally show ?thesis using res None s3 by (simp add: apply_no_fault ok)
    qed
  qed
qed

text \<open>C8: every database an earlier release left behind, the empty one included, comes out at the
  current version with every column of the schema; nothing it had is dropped, renamed or moved.\<close>

theorem apply_schema_upgrades:
  assumes "release_db s"
  shows "\<exists>s'. apply_schema p ''ok'' [] s = (None, s') \<and> CURRENT_SCHEMA_VERSION \<le> sc_version s' \<and>
    (\<forall>t cs. map_of schema_tables t = Some cs \<longrightarrow> set cs \<subseteq> set (columns t s')) \<and> extends s s'"
proof -
  obtain s1 where s1: "executescript SCHEMA_SQL s = (None, s1)"
    "\<forall>t \<in> table_names s1. needed (sc_version s) t \<subseteq> set (columns t s1)"
    using script_ok_runs [OF script_ok_SCHEMA, of s "sc_version s"] assms
    by (auto simp: release_db_def)
  have v: "sc_version s1 = sc_version s" "extends s s1"
    using executescript_version [of SCHEMA_SQL s] executescript_extends [of s SCHEMA_SQL] s1(1)
    by simp_all
  with s1(2) have "release_db s1" by (simp add: release_db_def)
  note m = migrated_release [OF this script_tables [OF s1(1)]]
  obtain s3 where s3: "executescript POST_MIGRATE_INDEXES (migrated s1) = (None, s3)"
    using script_ok_runs [OF script_ok_POST [OF m(2)], of "migrated s1"] m script_tables [OF s1(1)]
    by (auto simp: release_db_def)
  have e: "extends (migrated s1) s3" "sc_version s3 = sc_version (migrated s1)"
    using executescript_extends [of "migrated s1" POST_MIGRATE_INDEXES]
      executescript_version [of POST_MIGRATE_INDEXES "migrated s1"] s3 by simp_all
  have "set cs \<subseteq> set (columns t s3)" if "map_of schema_tables t = Some cs" for t cs
  proof -
    have "CreateTable t cs \<in> set SCHEMA_SQL"
      using map_of_SomeD [OF that] by (auto simp: schema_tables_def List.map_filter_def
          elim!: ddl_table.elims split: option.splits)
    from executescript_done [OF s1(1) this] have "t \<in> table_names (migrated s1)" using m(3) by simp
    with m(1) have "needed (sc_version (migrated s1)) t \<subseteq> set (columns t (migrated s1))"
      by (simp add: release_db_def)
    moreover have "needed (sc_version (migrated s1)) t = set cs"
      using that m(2) by (simp add: needed_def added_after_def)
    moreover have "set (columns t (migrated s1)) \<subseteq> set (columns t s3)"
      using e(1) by (auto simp: extends_def dest!: spec [of _ t] set_mono_prefix)
    ultimately show ?thesis by blast
  qed
  moreover have "apply_schema p ''ok'' [] s = (None, s3)"
    using s3 by (simp add: apply_no_fault [OF s1(1)] finish_def)
  moreover have "extends s s3" using v(2) m(4) e(1) extends_trans by blast
  ultimately show ?thesis using m(2) e(2)
    by (auto simp: CURRENT_SCHEMA_VERSION_def MIGRATIONS_def)
qed

text \<open>The message's promise is not kept: when the second \<open>ALTER TABLE\<close> of the first migration fails,
  the column the first one added stays.\<close>

definition old_db :: schema where
  "old_db = \<lparr>sc_version = 0, sc_tables =
     [(''messages'', [''rowid'', ''session_id'', ''local_id'', ''packet_id'', ''channel_index'',
        ''direction'', ''sender_num'', ''sender_id'', ''sender_name'', ''observed_at'',
        ''byte_count'', ''status''])], sc_indexes = []\<rparr>"

lemma failed_migration_modifies:
  "run_migrations None ''ok'' [None, None, Some (OperationalError ''disk I/O error'')] old_db
    = (Some (MigrationFailed 1 (OperationalError ''disk I/O error'') None),
       add_column ''messages'' ''text'' old_db)"
  by (simp add: run_migrations_def MIGRATIONS_def migrate_v1_message_columns_def add_missing_def
      next_exc_def message_new_columns_def columns_def old_db_def)

theorem apply_schema_upgrades_witness:
  "\<exists>s'. apply_schema None ''ok'' [] old_db = (None, s') \<and> 2 \<le> sc_version s' \<and>
    extends old_db s'"
proof -
  have "release_db old_db"
    by (simp add: release_db_def old_db_def table_names_def columns_def schema_eval
        insert_Diff_if)
  from apply_schema_upgrades [OF this, of None] show ?thesis
    by (auto simp: CURRENT_SCHEMA_VERSION_def MIGRATIONS_def)
qed

end
