(* ===== verification/Controller.thy ===== *)
theory Controller
  imports Metrics PyValue "HOL-Library.Char_ord" "HOL-Library.List_Lexorder"
    "HOL-Library.Product_Lexorder"
begin

text \<open>
  \<open>controllers/meshtastic_controller.py\<close>: the worker that owns the radio interface, its connection
  state machine, its event callbacks and its slots.  The meshtastic library is outside \<open>src/\<close>: an
  interface object is an identity with the attributes the callbacks read, and every call into the
  library has its outcome as an argument (\<open>Inl\<close> the text of the exception).  What the worker emits
  (Qt signals) and does to the radio is appended to one list, in order.
\<close>

section \<open>Enums and messages\<close>

datatype connection_state =
    DISCONNECTED | SCANNING | CONNECTING | SYNCING | CONNECTED | RECONNECTING | DISCONNECTING | ERROR

datatype error_code =
    BLE_NOT_AVAILABLE | BLE_DEVICE_NOT_FOUND | BLE_MULTIPLE_DEVICES | BLE_PAIRING_REQUIRED
  | BLE_CONNECTION_FAILED | TCP_HOST_NOT_FOUND | TCP_REFUSED | TCP_TIMEOUT | SERIAL_PORT_NOT_FOUND
  | SERIAL_CONNECTION_FAILED | CONFIG_SYNC_TIMEOUT | CONNECTION_LOST | SEND_FAILED
  | INVALID_MESSAGE | DEVICE_CONTROL_FAILED | INTERNAL_ERROR

definition BROADCAST_NUM :: int where "BROADCAST_NUM = 0xFFFFFFFF"
definition MAX_MESSAGE_BYTES :: nat where "MAX_MESSAGE_BYTES = 200"


definition normalize_outgoing_text :: "string \<Rightarrow> string" where
  "normalize_outgoing_text text = strip (replace_str [cr] [lf] (replace_str [cr, lf] [lf] text))"

record ble_device_summary =
  bd_name :: string
  bd_address :: string

record serial_port_summary =
  sp_device :: string
  sp_description :: string

record channel_summary =
  cs_index :: int
  cs_name :: string
  cs_role :: string

record device_summary =
  ds_node_id :: "string option"
  ds_long_name :: "string option"
  ds_short_name :: "string option"
  ds_hw_model :: "string option"
  ds_firmware_version :: "string option"
  ds_node_num :: "int option"
  ds_pio_env :: "string option"
  ds_serial_port :: "string option"
  ds_can_shutdown :: bool

record lora_config_summary =
  lc_region :: "string option"
  lc_modem_preset :: "string option"
  lc_use_preset :: bool
  lc_channel_num :: int
  lc_frequency_offset_mhz :: pyfloat
  lc_bandwidth_khz :: int
  lc_spread_factor :: int
  lc_coding_rate :: int
  lc_tx_power_dbm :: int
  lc_hop_limit :: int

record user_facing_error =
  ue_code :: error_code
  ue_title :: string
  ue_message :: string
  ue_technical_detail :: "string option"
  ue_recoverable :: bool

section \<open>BLE error classification\<close>

text \<open>An exception is the chain of its causes: the text and the \<open>kind\<close> of each.\<close>

type_synonym exc_chain = "(string \<times> string option) list"

definition PAIRING_ERROR_MARKERS :: "string list" where
  "PAIRING_ERROR_MARKERS = [''insufficient authentication'', ''insufficient encryption'',
     ''authentication'', ''not paired'', ''access is denied'']"

definition WRITE_ERROR_KIND :: string where "WRITE_ERROR_KIND = ''write_error''"

definition is_pairing_error :: "exc_chain \<Rightarrow> bool" where
  "is_pairing_error chain \<longleftrightarrow>
     list_ex (\<lambda>e. list_ex (\<lambda>m. contains m (lower (fst e))) PAIRING_ERROR_MARKERS) chain"

fun ble_error_kind :: "exc_chain \<Rightarrow> string option" where
  "ble_error_kind [] = None"
| "ble_error_kind (e # chain) = (if truthy_str (snd e) then snd e else ble_error_kind chain)"

section \<open>The interface object\<close>

text \<open>Channels and LoRa settings as the protobuf messages carry them.\<close>

record radio_channel =
  rc_index :: int
  rc_role :: int
  rc_name :: string

record radio_lora =
  rl_region :: int
  rl_modem_preset :: int
  rl_use_preset :: bool
  rl_channel_num :: int
  rl_frequency_offset :: pyfloat
  rl_bandwidth :: int
  rl_spread_factor :: int
  rl_coding_rate :: int
  rl_tx_power :: int
  rl_hop_limit :: int

record interface_data =
  if_my_node_num :: "int option"
  if_pio_env :: "string option"
  if_firmware_version :: "string option"
  if_can_shutdown :: bool
  if_nodes :: "(int \<times> pyval) list"
  if_channels :: "radio_channel list"
  if_lora :: "radio_lora option"

text \<open>The protobuf enum names, by number.\<close>

record enum_names =
  en_role :: "int \<Rightarrow> string option"
  en_region :: "int \<Rightarrow> string option"
  en_preset :: "int \<Rightarrow> string option"

definition channel_summary_of :: "enum_names \<Rightarrow> radio_channel \<Rightarrow> channel_summary option" where
  "channel_summary_of en ch =
     (let role_name = (case en_role en (rc_role ch) of None \<Rightarrow> ''UNKNOWN'' | Some r \<Rightarrow> r)
      in if role_name = ''DISABLED'' then None
         else (let name0 = strip (rc_name ch);
                   name = (if name0 \<noteq> [] then name0
                           else if role_name = ''PRIMARY'' then ''Primary''
                           else ''Channel '' @ show_int (rc_index ch))
               in Some \<lparr>cs_index = rc_index ch, cs_name = name, cs_role = role_name\<rparr>))"

definition extract_channels :: "enum_names \<Rightarrow> interface_data \<Rightarrow> channel_summary list" where
  "extract_channels en i =
     sort_key cs_index (List.map_filter (channel_summary_of en) (if_channels i))"

definition empty_summary :: device_summary where
  "empty_summary = \<lparr>ds_node_id = None, ds_long_name = None, ds_short_name = None,
     ds_hw_model = None, ds_firmware_version = None, ds_node_num = None, ds_pio_env = None,
     ds_serial_port = None, ds_can_shutdown = False\<rparr>"

text \<open>\<open>user\<close> of the local node; a \<open>user\<close> entry that is not a dictionary makes the extraction
  raise.\<close>

definition local_user :: "interface_data \<Rightarrow> pydict option" where
  "local_user i =
     (case if_my_node_num i of
        None \<Rightarrow> Some []
      | Some num \<Rightarrow>
          (case map_of (if_nodes i) num of
             Some (PDict d) \<Rightarrow>
               (case map_of d ''user'' of
                  None \<Rightarrow> Some []
                | Some (PDict u) \<Rightarrow> Some u
                | Some _ \<Rightarrow> None)
           | _ \<Rightarrow> Some []))"

definition device_summary_of :: "interface_data \<Rightarrow> string option \<Rightarrow> device_summary" where
  "device_summary_of i serial_port =
     (case local_user i of
        None \<Rightarrow> empty_summary
      | Some user \<Rightarrow>
          \<lparr>ds_node_id = (case str_field user ''id'' of
                           Some s \<Rightarrow> if s \<noteq> [] then Some s else map_option bang_hex8 (if_my_node_num i)
                         | None \<Rightarrow> map_option bang_hex8 (if_my_node_num i)),
           ds_long_name = str_field user ''longName'', ds_short_name = str_field user ''shortName'',
           ds_hw_model = str_field user ''hwModel'', ds_firmware_version = if_firmware_version i,
           ds_node_num = if_my_node_num i, ds_pio_env = if_pio_env i,
           ds_serial_port = serial_port, ds_can_shutdown = if_can_shutdown i\<rparr>)"

definition extract_lora_config :: "enum_names \<Rightarrow> interface_data \<Rightarrow> lora_config_summary option" where
  "extract_lora_config en i =
     (case if_lora i of
        None \<Rightarrow> None
      | Some l \<Rightarrow>
          (let region = en_region en (rl_region l)
           in Some \<lparr>lc_region = (if region = Some ''UNSET'' then None else region),
                lc_modem_preset = en_preset en (rl_modem_preset l),
                lc_use_preset = rl_use_preset l, lc_channel_num = rl_channel_num l,
                lc_frequency_offset_mhz = rl_frequency_offset l, lc_bandwidth_khz = rl_bandwidth l,
                lc_spread_factor = rl_spread_factor l, lc_coding_rate = rl_coding_rate l,
                lc_tx_power_dbm = rl_tx_power l, lc_hop_limit = rl_hop_limit l\<rparr>))"

section \<open>What the worker emits and does\<close>

type_synonym iface = nat

datatype destination = ToChannel int | ToNode int

text \<open>The calls the worker makes on the radio.\<close>

datatype radio_call =
    SendText string destination
  | SendPosition int
  | SendTelemetry int
  | SendTraceRoute int int
  | SetFavorite int
  | RemoveFavorite int
  | RemoveNode int
  | SetOwner string string
  | Reboot int
  | Shutdown int
  | ResetNodeDb
  | FactoryReset bool
  | SetFixedPosition pyfloat pyfloat int
  | RemoveFixedPosition
  | WriteConfig string
  | WriteChannel int

datatype worker_output =
    StateChanged connection_state string
  | Connected device_summary
  | Disconnected string
  | ChannelsUpdated "channel_summary list"
  | LoraConfigUpdated "lora_config_summary option"
  | MessageReceived chat_message
  | MessageStatusChanged string "int option" message_status string
  | NodeUpdated pydict
  | NodeActionCompleted int string string
  | NodedbSynced "pyval list"
  | BleScanStarted
  | BleScanFinished "ble_device_summary list"
  | SerialPortsFound "serial_port_summary list"
  | ErrorOccurred user_facing_error
  | RawPacket pydict
  | DeviceControlsUpdated
  | DeviceOperationCompleted string string
  | ProfileOperationCompleted string bool string
  | Opened iface
  | Closed iface
  | Radio radio_call

record worker =
  wk_interface :: "iface option"
  wk_state :: connection_state
  wk_subscribed :: bool
  wk_serial_port :: "string option"
  wk_out :: "worker_output list"

definition worker_new :: worker where
  "worker_new = \<lparr>wk_interface = None, wk_state = DISCONNECTED, wk_subscribed = False,
     wk_serial_port = None, wk_out = []\<rparr>"

definition put_out :: "worker_output list \<Rightarrow> worker \<Rightarrow> worker" where
  "put_out os w = w\<lparr>wk_out := wk_out w @ os\<rparr>"

definition set_state :: "connection_state \<Rightarrow> string \<Rightarrow> worker \<Rightarrow> worker" where
  "set_state st detail w = put_out [StateChanged st detail] (w\<lparr>wk_state := st\<rparr>)"

definition emit_error ::
    "error_code \<Rightarrow> string \<Rightarrow> string \<Rightarrow> bool \<Rightarrow> string option \<Rightarrow> worker \<Rightarrow> worker" where
  "emit_error code ttl msg recoverable detail w =
     put_out [ErrorOccurred \<lparr>ue_code = code, ue_title = ttl, ue_message = msg,
        ue_technical_detail = detail, ue_recoverable = recoverable\<rparr>] w"

definition is_active_interface :: "iface option \<Rightarrow> worker \<Rightarrow> bool" where
  "is_active_interface event_interface w \<longleftrightarrow>
     wk_interface w \<noteq> None \<and> event_interface = wk_interface w"

definition subscribe :: "worker \<Rightarrow> worker" where
  "subscribe w = w\<lparr>wk_subscribed := True\<rparr>"

definition unsubscribe :: "worker \<Rightarrow> worker" where
  "unsubscribe w = w\<lparr>wk_subscribed := False\<rparr>"

text \<open>A failing \<open>close()\<close> is logged and dropped.\<close>

definition close_interface :: "worker \<Rightarrow> worker" where
  "close_interface w =
     (case wk_interface w of
        None \<Rightarrow> w
      | Some i \<Rightarrow> put_out [Closed i] (w\<lparr>wk_interface := None\<rparr>))"


section \<open>Library callbacks\<close>

definition emit_device_controls :: "string option \<Rightarrow> worker \<Rightarrow> worker" where
  "emit_device_controls snapshot_error w =
     (if wk_interface w = None then w
      else case snapshot_error of
        None \<Rightarrow> put_out [DeviceControlsUpdated] w
      | Some e \<Rightarrow> emit_error DEVICE_CONTROL_FAILED ''Device Read Failed''
          ''Could not read the connected radio controls.'' True (Some e) w)"

fun type_name :: "pyval \<Rightarrow> string" where
  "type_name PNone = ''NoneType''"
| "type_name (PBool _) = ''bool''"
| "type_name (PInt _) = ''int''"
| "type_name (PFloat _) = ''float''"
| "type_name (PStr _) = ''str''"
| "type_name (PBytes _) = ''bytes''"
| "type_name (PDict _) = ''dict''"
| "type_name (PList _) = ''list''"

text \<open>The count of nodes with a position reads every node's \<open>position\<close> entry; a true value that is not
  a dictionary has no \<open>get\<close>.\<close>

definition position_fault :: "pyval \<Rightarrow> string option" where
  "position_fault n =
     (case n of
        PDict d \<Rightarrow>
          (let p = dict_get d ''position''
           in case p of
                PDict _ \<Rightarrow> None
              | _ \<Rightarrow> if py_truthy p
                     then Some ([CHR 0x27] @ type_name p @ [CHR 0x27]
                       @ '' object has no attribute '' @ [CHR 0x27] @ ''get'' @ [CHR 0x27])
                     else None)
      | _ \<Rightarrow> None)"

definition on_connection_established ::
    "enum_names \<Rightarrow> interface_data \<Rightarrow> string option \<Rightarrow> iface option \<Rightarrow> worker \<Rightarrow> worker" where
  "on_connection_established en data snapshot_error i w =
     (if \<not> is_active_interface i w then w
      else
        (let summary = device_summary_of data (wk_serial_port w);
             w1 = set_state CONNECTED
                    (case ds_long_name summary of None \<Rightarrow> [] | Some n \<Rightarrow> n) w;
             w2 = put_out [Connected summary, ChannelsUpdated (extract_channels en data),
                    LoraConfigUpdated (extract_lora_config en data)] w1;
             w3 = emit_device_controls snapshot_error w2;
             nodes = map snd (if_nodes data)
         in if nodes = [] then w3
            else case List.map_filter position_fault nodes of
              [] \<Rightarrow> put_out [NodedbSynced nodes] w3
            | e # _ \<Rightarrow> emit_error INTERNAL_ERROR ''Connection setup failed'' e True None w3))"

definition on_connection_lost :: "iface option \<Rightarrow> worker \<Rightarrow> worker" where
  "on_connection_lost i w =
     (if \<not> is_active_interface i w then w
      else emit_error CONNECTION_LOST ''Connection Lost''
             ''The radio connection was lost. You can try reconnecting.'' True None
             (put_out [Disconnected ''Radio connection lost'']
               (set_state ERROR ''Connection lost'' w)))"

text \<open>The text of a packet: the decoded string unless it is blank, else the payload bytes.  \<open>None\<close> where
  the handler returns.  A \<open>text\<close> entry is a string or absent.\<close>

definition received_text :: "pydict \<Rightarrow> string option" where
  "received_text decoded =
     (let text = (case dict_get decoded ''text'' of PStr s \<Rightarrow> s | _ \<Rightarrow> []);
          blank = (strip text = []);
          result = (case dict_get decoded ''payload'' of
                      PBytes p \<Rightarrow> if \<not> blank then Some text
                                 else if utf8_valid p then Some p else None
                    | _ \<Rightarrow> Some text)
      in if result = Some [] then None else result)"

definition sender_num_of :: "pydict \<Rightarrow> int option" where
  "sender_num_of p = (case int_field p ''from'' of Some n \<Rightarrow> Some n | None \<Rightarrow> int_field p ''fromNum'')"

definition to_num_of :: "pydict \<Rightarrow> int option" where
  "to_num_of p = (case int_field p ''to'' of Some n \<Rightarrow> Some n | None \<Rightarrow> int_field p ''toNum'')"

text \<open>\<open>longName or shortName or fromId or !hex\<close> for a known node; \<open>None\<close> where the entry of the
  NodeDB has no \<open>get\<close>.\<close>

definition sender_name_of :: "(int \<times> pyval) list \<Rightarrow> int option \<Rightarrow> string option \<Rightarrow> string option" where
  "sender_name_of nodes num sender_id =
     (case (case num of None \<Rightarrow> None | Some n \<Rightarrow> map_of nodes n) of
        Some (PDict d) \<Rightarrow>
          (case (case map_of d ''user'' of None \<Rightarrow> PDict [] | Some u \<Rightarrow> u) of
             PDict u \<Rightarrow>
               py_or_str (str_field u ''longName'')
                 (py_or_str (str_field u ''shortName'')
                   (py_or_str sender_id (map_option bang_hex8 num)))
           | _ \<Rightarrow> None)
      | Some _ \<Rightarrow> None
      | None \<Rightarrow> Some (if truthy_str sender_id then the sender_id else ''Unknown''))"

definition received_message ::
    "string \<Rightarrow> instant \<Rightarrow> (int \<times> pyval) list \<Rightarrow> pyval \<Rightarrow> chat_message option" where
  "received_message local_id now nodes packet =
     (case packet of
        PDict p \<Rightarrow>
          do {
            decoded \<leftarrow> sub_dict (dict_get p ''decoded'');
            text \<leftarrow> received_text decoded;
            let sender_num = sender_num_of p;
            let sender_id = str_field p ''fromId'';
            sender_name \<leftarrow> sender_name_of nodes sender_num sender_id;
            ts \<leftarrow> (let rx = dict_get p ''rxTime''
                   in if py_truthy rx
                      then (case as_num rx of Some (Some r) \<Rightarrow> from_timestamp r | _ \<Rightarrow> None)
                      else Some now);
            let to_num = to_num_of p;
            Some \<lparr>cm_local_id = local_id, cm_packet_id = int_field p ''id'',
              cm_channel_index = (case int_field p ''channel'' of None \<Rightarrow> 0 | Some c \<Rightarrow> c),
              cm_direction = INBOUND, cm_sender_num = sender_num, cm_sender_id = sender_id,
              cm_sender_name = sender_name, cm_text = text, cm_timestamp = ts,
              cm_status = RECEIVED, cm_snr = num_field p ''rxSnr'', cm_hop_count = None,
              cm_destination_num =
                (if to_num \<noteq> None \<and> to_num \<noteq> Some BROADCAST_NUM then sender_num else None),
              cm_session_id = []\<rparr>
          }
      | _ \<Rightarrow> None)"

definition on_text_received ::
    "string \<Rightarrow> instant \<Rightarrow> (int \<times> pyval) list \<Rightarrow> pyval \<Rightarrow> iface option \<Rightarrow> worker \<Rightarrow> worker" where
  "on_text_received local_id now nodes packet i w =
     (if \<not> is_active_interface i w then w
      else case received_message local_id now nodes packet of
        None \<Rightarrow> w
      | Some m \<Rightarrow> put_out [MessageReceived m] w)"

definition on_packet_received :: "pyval \<Rightarrow> iface option \<Rightarrow> worker \<Rightarrow> worker" where
  "on_packet_received packet i w =
     (if \<not> is_active_interface i w then w
      else case packet of PDict p \<Rightarrow> put_out [RawPacket p] w | _ \<Rightarrow> w)"

definition on_node_updated :: "pyval \<Rightarrow> iface option \<Rightarrow> worker \<Rightarrow> worker" where
  "on_node_updated node i w =
     (if \<not> is_active_interface i w then w
      else case node of PDict n \<Rightarrow> put_out [NodeUpdated n] w | _ \<Rightarrow> w)"

section \<open>Scanning\<close>

text \<open>A discovered device: its address, its name and \<open>str(d)\<close>.\<close>

type_synonym raw_device = "string option \<times> string option \<times> string"

definition ble_device_of :: "raw_device \<Rightarrow> ble_device_summary" where
  "ble_device_of d =
     (case d of (address, name, shown) \<Rightarrow>
        \<lparr>bd_name = (if truthy_str name then the name else ''Unnamed Meshtastic device''),
         bd_address = (if truthy_str address then the address else shown)\<rparr>)"

fun dedup_devices :: "string set \<Rightarrow> ble_device_summary list \<Rightarrow> ble_device_summary list" where
  "dedup_devices seen [] = []"
| "dedup_devices seen (d # ds) =
     (if bd_address d \<in> seen then dedup_devices seen ds
      else d # dedup_devices (insert (bd_address d) seen) ds)"

definition ble_devices :: "raw_device list \<Rightarrow> ble_device_summary list" where
  "ble_devices raw =
     sort_key (\<lambda>d. (bd_name d = [], bd_name d, bd_address d))
       (dedup_devices {} (map ble_device_of raw))"

definition scan_ble :: "string + raw_device list \<Rightarrow> worker \<Rightarrow> worker" where
  "scan_ble outcome w =
     (let w1 = put_out [BleScanStarted]
                 (set_state SCANNING (''Scanning for Meshtastic devices'' @ ellipsis) w)
      in case outcome of
           Inr raw \<Rightarrow>
             (let devices = ble_devices raw
              in set_state DISCONNECTED (show_nat (length devices) @ '' device(s) found'')
                   (put_out [BleScanFinished devices] w1))
         | Inl e \<Rightarrow>
             emit_error BLE_NOT_AVAILABLE ''Bluetooth Scan Failed''
               (''Could not scan for BLE devices: '' @ e) True None
               (set_state DISCONNECTED ''Scan failed'' w1))"

definition list_serial_ports ::
    "(string + (string \<times> string option) list) \<Rightarrow> worker \<Rightarrow> worker" where
  "list_serial_ports outcome w =
     (case outcome of
        Inl e \<Rightarrow> put_out [SerialPortsFound []] w
      | Inr ports \<Rightarrow>
          put_out [SerialPortsFound (sort_key sp_device (map (\<lambda>p.
            \<lparr>sp_device = fst p, sp_description = (if truthy_str (snd p) then the (snd p) else fst p)\<rparr>)
            ports))] w)"

section \<open>Connecting\<close>

text \<open>
  Every connect slot has the same shape: guards, then close what is open, subscribe and announce
  CONNECTING; then the blocking constructor of the library, during which callbacks may arrive; then
  either the new interface is stored and SYNCING announced, or the failure is reported.
\<close>

definition may_connect :: "worker \<Rightarrow> bool" where
  "may_connect w \<longleftrightarrow> wk_state w \<in> {DISCONNECTED, ERROR, RECONNECTING}"

definition begin_connect :: "string option \<Rightarrow> string \<Rightarrow> worker \<Rightarrow> worker" where
  "begin_connect serial_port detail w =
     set_state CONNECTING detail
       (subscribe ((close_interface w)\<lparr>wk_serial_port := serial_port\<rparr>))"

definition store_interface :: "iface \<Rightarrow> worker \<Rightarrow> worker" where
  "store_interface i w = put_out [Opened i] (w\<lparr>wk_interface := Some i\<rparr>)"

definition announce_syncing :: "worker \<Rightarrow> worker" where
  "announce_syncing w = set_state SYNCING (''Downloading radio configuration'' @ ellipsis) w"

definition connect_opened :: "iface \<Rightarrow> worker \<Rightarrow> worker" where
  "connect_opened i w = announce_syncing (store_interface i w)"

definition connect_failed :: "string \<Rightarrow> worker \<Rightarrow> worker" where
  "connect_failed detail w =
     set_state DISCONNECTED [] (set_state ERROR detail (w\<lparr>wk_interface := None\<rparr>))"

definition exc_text :: "exc_chain \<Rightarrow> string" where
  "exc_text chain = (case chain of [] \<Rightarrow> [] | e # _ \<Rightarrow> fst e)"

definition ble_failure :: "string \<Rightarrow> exc_chain \<Rightarrow> worker \<Rightarrow> worker" where
  "ble_failure address chain w0 =
     (let w = connect_failed (exc_text chain) w0;
          kind = ble_error_kind chain;
          detail = Some (exc_text chain)
      in if is_pairing_error chain \<or> kind = Some WRITE_ERROR_KIND
         then emit_error BLE_PAIRING_REQUIRED ''Bluetooth Pairing Required''
           (''Windows refused a write to this radio ('' @ address @ ''), which usually ''
            @ ''means Bluetooth pairing has not completed. Pair the radio in ''
            @ ''Windows Bluetooth settings using the key it displays, then connect ''
            @ ''again. If it is already paired, remove it there and pair again.'') True detail w
         else if kind = Some ''device_not_found''
         then emit_error BLE_DEVICE_NOT_FOUND ''Bluetooth Device Not Found''
           (''No Meshtastic radio advertising over Bluetooth matched '' @ address @ ''. ''
            @ ''Check the radio is switched on and in range with Bluetooth enabled, ''
            @ ''then press Scan and pick it from the list.'') True detail w
         else if kind = Some ''multiple_devices''
         then emit_error BLE_MULTIPLE_DEVICES ''Several Radios Matched''
           (''More than one Bluetooth radio answered to '' @ address @ ''. ''
            @ ''Give the radios different short names (or scan and pick the ''
            @ ''exact address) so the right one can be chosen.'') True detail w
         else emit_error BLE_CONNECTION_FAILED ''Bluetooth Connection Failed''
           (''Could not connect to the Meshtastic radio. ''
            @ ''Make sure the radio is awake, Bluetooth is enabled, ''
            @ ''and any Windows pairing prompt has been completed.'') True detail w)"

definition connect_ble :: "string \<Rightarrow> (exc_chain + iface) \<Rightarrow> worker \<Rightarrow> worker" where
  "connect_ble address outcome w =
     (if \<not> may_connect w then w
      else
        (let w1 = begin_connect None address w
         in case outcome of
              Inr i \<Rightarrow> connect_opened i w1
            | Inl chain \<Rightarrow> ble_failure address chain w1))"

text \<open>The constructor of the TCP interface raises an \<open>OSError\<close> or something else.\<close>

datatype tcp_exc = OsErr string | OtherExc string

definition tcp_failure :: "string \<Rightarrow> int \<Rightarrow> tcp_exc \<Rightarrow> worker \<Rightarrow> worker" where
  "tcp_failure host port e w =
     (case e of
        OtherExc detail \<Rightarrow>
          emit_error INTERNAL_ERROR ''Connection Error'' detail True None (connect_failed detail w)
      | OsErr detail \<Rightarrow>
          (let target = host @ '':'' @ show_int port;
               d = lower detail;
               (code, msg) =
                 (if contains ''refused'' d
                  then (TCP_REFUSED, ''Connection refused at '' @ target
                     @ ''. Check that the radio'' @ [CHR 0x27] @ ''s TCP service is running.'')
                  else if contains ''timed out'' d \<or> contains ''timeout'' d
                  then (TCP_TIMEOUT, ''Connection to '' @ target
                     @ '' timed out. Check that the radio is reachable.'')
                  else if contains ''name or service'' d \<or> contains ''nodename'' d
                  then (TCP_HOST_NOT_FOUND, ''Host not found: '' @ host
                     @ ''. Try an IP address if .local resolution is unavailable.'')
                  else (TCP_TIMEOUT, ''Could not connect to '' @ target @ ''.''))
           in emit_error code ''TCP Connection Failed'' msg True (Some detail)
                (connect_failed detail w)))"

definition connect_tcp :: "string \<Rightarrow> int \<Rightarrow> (tcp_exc + iface) \<Rightarrow> worker \<Rightarrow> worker" where
  "connect_tcp host0 port outcome w =
     (if \<not> may_connect w then w
      else
        (let host = strip host0
         in if host = []
            then emit_error TCP_HOST_NOT_FOUND ''No Host'' ''Enter a hostname or IP address.''
                   False None w
            else if starts_with ''http://'' host \<or> starts_with ''https://'' host
            then emit_error TCP_HOST_NOT_FOUND ''Invalid Host''
                   ''Enter a hostname or IP address, not a URL.'' False None w
            else if \<not> (1 \<le> port \<and> port \<le> 65535)
            then emit_error TCP_HOST_NOT_FOUND ''Invalid Port''
                   ''Port must be between 1 and 65535.'' False None w
            else
              (let w1 = begin_connect None (host @ '':'' @ show_int port) w
               in case outcome of
                    Inr i \<Rightarrow> connect_opened i w1
                  | Inl e \<Rightarrow> tcp_failure host port e w1)))"

definition serial_failure :: "string \<Rightarrow> string \<Rightarrow> worker \<Rightarrow> worker" where
  "serial_failure port detail w =
     emit_error SERIAL_CONNECTION_FAILED ''USB Connection Failed''
       (''Could not connect to the radio on '' @ port @ ''. ''
        @ ''Make sure the device is plugged in, no other program ''
        @ ''(e.g. the Meshtastic web client) has the port open, ''
        @ ''and the correct port is selected.'') True (Some detail) (connect_failed detail w)"

definition connect_serial :: "string \<Rightarrow> (string + iface) \<Rightarrow> worker \<Rightarrow> worker" where
  "connect_serial port0 outcome w =
     (if \<not> may_connect w then w
      else
        (let port = strip port0
         in if port = []
            then emit_error SERIAL_PORT_NOT_FOUND ''No Port Selected''
                   ''Choose a serial (COM) port first.'' False None w
            else
              (let w1 = begin_connect (Some port) port w
               in case outcome of
                    Inr i \<Rightarrow> connect_opened i w1
                  | Inl e \<Rightarrow> serial_failure port e w1)))"

definition disconnect :: "worker \<Rightarrow> worker" where
  "disconnect w =
     (if wk_state w = DISCONNECTED then w
      else put_out [Disconnected ''Disconnected by user'']
             (set_state DISCONNECTED []
               (close_interface (set_state DISCONNECTING (''Disconnecting'' @ ellipsis) w))))"

definition enter_reconnecting :: "string \<Rightarrow> worker \<Rightarrow> worker" where
  "enter_reconnecting detail w =
     (if wk_state w \<in> {CONNECTING, SYNCING, CONNECTED} then w else set_state RECONNECTING detail w)"

definition shutdown :: "worker \<Rightarrow> worker" where
  "shutdown w = unsubscribe (close_interface w)"

section \<open>Sending\<close>

text \<open>The text to send, or \<open>None\<close>; an error has been emitted where the code emits one.\<close>

definition prepare_outgoing :: "string \<Rightarrow> worker \<Rightarrow> string option \<times> worker" where
  "prepare_outgoing text0 w =
     (if wk_state w \<noteq> CONNECTED \<or> wk_interface w = None
      then (None, emit_error SEND_FAILED ''Not Connected''
                    ''Cannot send: not connected to a radio.'' False None w)
      else
        (let text = normalize_outgoing_text text0
         in if text = [] then (None, w)
            else if length text > MAX_MESSAGE_BYTES
            then (None, emit_error INVALID_MESSAGE ''Message Too Long''
                    (''Message is '' @ show_nat (length text) @ '' UTF-8 bytes. The safety limit is ''
                     @ show_nat MAX_MESSAGE_BYTES @ '' bytes. Shorten the message.'') False None w)
            else (Some text, w)))"

definition dispatch_text ::
    "string \<Rightarrow> string \<Rightarrow> destination \<Rightarrow> (string + int option) \<Rightarrow> worker \<Rightarrow> worker" where
  "dispatch_text text local_id dest outcome w0 =
     (let w = put_out [Radio (SendText text dest)] w0
      in case outcome of
           Inr packet_id \<Rightarrow>
             put_out [MessageStatusChanged local_id packet_id ACCEPTED_BY_RADIO ''Accepted by radio''] w
         | Inl e \<Rightarrow>
             emit_error SEND_FAILED ''Send Failed'' (''Could not send message: '' @ e) True None
               (put_out [MessageStatusChanged local_id None FAILED e] w))"

definition send_text ::
    "string \<Rightarrow> destination \<Rightarrow> string \<Rightarrow> (string + int option) \<Rightarrow> worker \<Rightarrow> worker" where
  "send_text text dest local_id outcome w =
     (case prepare_outgoing text w of
        (None, w') \<Rightarrow> put_out [MessageStatusChanged local_id None FAILED ''Message not sent''] w'
      | (Some prepared, w') \<Rightarrow> dispatch_text prepared local_id dest outcome w')"

definition send_channel_text ::
    "string \<Rightarrow> int \<Rightarrow> string \<Rightarrow> (string + int option) \<Rightarrow> worker \<Rightarrow> worker" where
  "send_channel_text text channel_index local_id outcome w =
     send_text text (ToChannel channel_index) local_id outcome w"

definition send_direct_text ::
    "string \<Rightarrow> int \<Rightarrow> string \<Rightarrow> (string + int option) \<Rightarrow> worker \<Rightarrow> worker" where
  "send_direct_text text destination_num local_id outcome w =
     send_text text (ToNode destination_num) local_id outcome w"

section \<open>Actions on nodes and on the radio\<close>

definition require_connection :: "string \<Rightarrow> worker \<Rightarrow> bool \<times> worker" where
  "require_connection what w =
     (if wk_state w \<noteq> CONNECTED \<or> wk_interface w = None
      then (False, emit_error SEND_FAILED ''Not Connected''
                     (''Cannot '' @ what @ '': not connected to a radio.'') False None w)
      else (True, w))"

text \<open>The shape the node actions share: guard, call, report or error.\<close>

definition node_action ::
    "string \<Rightarrow> radio_call \<Rightarrow> worker_output \<Rightarrow> string \<Rightarrow> string \<Rightarrow> string option \<Rightarrow> worker \<Rightarrow> worker"
where
  "node_action what call report ttl prefix raised w =
     (case require_connection what w of
        (False, w') \<Rightarrow> w'
      | (True, w') \<Rightarrow>
          (let w1 = put_out [Radio call] w'
           in case raised of
                None \<Rightarrow> put_out [report] w1
              | Some e \<Rightarrow> emit_error SEND_FAILED ttl (prefix @ e) True None w1))"

definition request_position :: "int \<Rightarrow> string option \<Rightarrow> worker \<Rightarrow> worker" where
  "request_position n = node_action ''request position'' (SendPosition n)
     (NodeActionCompleted n ''position'' ''Position request sent'')
     ''Request Failed'' ''Could not request position: ''"

definition request_telemetry :: "int \<Rightarrow> string option \<Rightarrow> worker \<Rightarrow> worker" where
  "request_telemetry n = node_action ''request telemetry'' (SendTelemetry n)
     (NodeActionCompleted n ''telemetry'' ''Telemetry request sent'')
     ''Request Failed'' ''Could not request telemetry: ''"

definition send_traceroute :: "int \<Rightarrow> int \<Rightarrow> string option \<Rightarrow> worker \<Rightarrow> worker" where
  "send_traceroute n hop_limit = node_action ''run traceroute'' (SendTraceRoute n hop_limit)
     (NodeActionCompleted n ''traceroute'' (''Traceroute complete '' @ emdash @ '' see packet log''))
     ''Traceroute Failed'' ''Traceroute did not complete: ''"

definition set_favorite :: "int \<Rightarrow> bool \<Rightarrow> string option \<Rightarrow> worker \<Rightarrow> worker" where
  "set_favorite n favorite = node_action ''change favorite''
     (if favorite then SetFavorite n else RemoveFavorite n)
     (NodeActionCompleted n ''favorite''
        (if favorite then ''Marked as favorite on the radio''
         else ''Removed from favorites on the radio''))
     ''Action Failed'' ''Could not change favorite: ''"

definition remove_node :: "int \<Rightarrow> string option \<Rightarrow> worker \<Rightarrow> worker" where
  "remove_node n = node_action ''remove node'' (RemoveNode n)
     (NodeActionCompleted n ''remove'' (''Node removed from the radio'' @ [CHR 0x27] @ ''s NodeDB''))
     ''Action Failed'' ''Could not remove node: ''"

definition refresh_device_controls :: "string option \<Rightarrow> worker \<Rightarrow> worker" where
  "refresh_device_controls snapshot_error w =
     (case require_connection ''read device settings'' w of
        (False, w') \<Rightarrow> w'
      | (True, w') \<Rightarrow> emit_device_controls snapshot_error w')"

definition set_owner :: "string \<Rightarrow> string \<Rightarrow> string option \<Rightarrow> string option \<Rightarrow> worker \<Rightarrow> worker" where
  "set_owner long_name short_name raised snapshot_error w =
     (case require_connection ''change device identity'' w of
        (False, w') \<Rightarrow> w'
      | (True, w') \<Rightarrow>
          (let w1 = put_out [Radio (SetOwner long_name short_name)] w'
           in case raised of
                None \<Rightarrow> emit_device_controls snapshot_error
                          (put_out [DeviceOperationCompleted ''owner'' ''Device identity saved''] w1)
              | Some e \<Rightarrow> emit_error DEVICE_CONTROL_FAILED ''Identity Write Failed''
                            ''Could not save the device identity.'' True (Some e) w1))"

definition run_local_node_action ::
    "string \<Rightarrow> radio_call \<Rightarrow> string option \<Rightarrow> worker \<Rightarrow> worker" where
  "run_local_node_action action call raised w =
     (case require_connection action w of
        (False, w') \<Rightarrow> w'
      | (True, w') \<Rightarrow>
          (let w1 = put_out [Radio call] w'
           in case raised of
                None \<Rightarrow> put_out [DeviceOperationCompleted action (title action @ '' command sent'')] w1
              | Some e \<Rightarrow> emit_error DEVICE_CONTROL_FAILED ''Device Command Failed''
                            (''Could not '' @ action @ '' the radio.'') True (Some e) w1))"

definition reboot_device :: "int \<Rightarrow> string option \<Rightarrow> worker \<Rightarrow> worker" where
  "reboot_device seconds = run_local_node_action ''reboot'' (Reboot (max 0 seconds))"

definition shutdown_device :: "int \<Rightarrow> string option \<Rightarrow> worker \<Rightarrow> worker" where
  "shutdown_device seconds = run_local_node_action ''shutdown'' (Shutdown (max 0 seconds))"

definition reset_nodedb :: "string option \<Rightarrow> worker \<Rightarrow> worker" where
  "reset_nodedb = run_local_node_action ''reset node database'' ResetNodeDb"

definition factory_reset :: "bool \<Rightarrow> string option \<Rightarrow> worker \<Rightarrow> worker" where
  "factory_reset full = run_local_node_action ''factory reset'' (FactoryReset full)"

definition set_fixed_position ::
    "pyfloat \<Rightarrow> pyfloat \<Rightarrow> int \<Rightarrow> string option \<Rightarrow> worker \<Rightarrow> worker" where
  "set_fixed_position lat lon alt =
     run_local_node_action ''set fixed position'' (SetFixedPosition lat lon alt)"

definition remove_fixed_position :: "string option \<Rightarrow> worker \<Rightarrow> worker" where
  "remove_fixed_position = run_local_node_action ''remove fixed position'' RemoveFixedPosition"

text \<open>Backup and restore of the device profile, by the outcome of the service they call.\<close>

definition backup_device_profile :: "(string + string) \<Rightarrow> worker \<Rightarrow> worker" where
  "backup_device_profile outcome w =
     (case require_connection ''back up device configuration'' w of
        (False, w') \<Rightarrow> put_out [ProfileOperationCompleted ''backup'' False ''Radio is not connected''] w'
      | (True, w') \<Rightarrow>
          (case outcome of
             Inr digest \<Rightarrow> put_out [ProfileOperationCompleted ''backup'' True
               (''Configuration backup saved (SHA-256 '' @ digest @ '')'')] w'
           | Inl e \<Rightarrow> put_out [ProfileOperationCompleted ''backup'' False e] w'))"

definition restore_device_profile ::
    "(string + string) \<Rightarrow> string option \<Rightarrow> worker \<Rightarrow> worker" where
  "restore_device_profile outcome snapshot_error w =
     (case require_connection ''restore device configuration'' w of
        (False, w') \<Rightarrow>
          put_out [ProfileOperationCompleted ''restore'' False ''Radio is not connected''] w'
      | (True, w') \<Rightarrow>
          (case outcome of
             Inr safety_name \<Rightarrow> emit_device_controls snapshot_error
               (put_out [ProfileOperationCompleted ''restore'' True
                 (''Configuration restored; safety backup: '' @ safety_name)] w')
           | Inl e \<Rightarrow> put_out [ProfileOperationCompleted ''restore'' False e] w'))"

section \<open>Facts\<close>

lemma replace_go_no_char:
  assumes "c \<notin> set new"
  shows "length s < n \<Longrightarrow> c \<notin> set (replace_go n [c] new s)"
proof (induction n arbitrary: s)
  case (Suc n)
  then show ?case using assms by (cases s) auto
qed simp

lemma replace_str_no_char: "c \<notin> set new \<Longrightarrow> c \<notin> set (replace_str [c] new s)"
  unfolding replace_str_def by (rule replace_go_no_char) simp_all

lemma set_strip: "set (strip s) \<subseteq> set s"
  using strip_infix [of s] by (metis Un_iff set_append subsetI)

lemma normalize_no_cr: "cr \<notin> set (normalize_outgoing_text t)"
proof -
  have "cr \<notin> set [lf]" by (simp add: cr_def lf_def)
  from replace_str_no_char [OF this] set_strip show ?thesis
    unfolding normalize_outgoing_text_def by blast
qed

lemma put_out_simps [simp]:
  "wk_interface (put_out os w) = wk_interface w" "wk_state (put_out os w) = wk_state w"
  "wk_subscribed (put_out os w) = wk_subscribed w" "wk_out (put_out os w) = wk_out w @ os"
  "wk_serial_port (put_out os w) = wk_serial_port w"
  by (simp_all add: put_out_def)

lemma set_state_simps [simp]:
  "wk_interface (set_state st d w) = wk_interface w" "wk_state (set_state st d w) = st"
  "wk_subscribed (set_state st d w) = wk_subscribed w"
  "wk_out (set_state st d w) = wk_out w @ [StateChanged st d]"
  by (simp_all add: set_state_def)

lemma emit_error_simps [simp]:
  "wk_interface (emit_error c t m r d w) = wk_interface w"
  "wk_state (emit_error c t m r d w) = wk_state w"
  "wk_subscribed (emit_error c t m r d w) = wk_subscribed w"
  by (simp_all add: emit_error_def)

section \<open>Resources and payloads\<close>

text \<open>The interfaces opened and closed so far, and the texts handed to the radio.\<close>

definition opened :: "worker \<Rightarrow> iface set" where
  "opened w = {i. Opened i \<in> set (wk_out w)}"

definition closed :: "worker \<Rightarrow> iface set" where
  "closed w = {i. Closed i \<in> set (wk_out w)}"

definition sendable :: "string \<Rightarrow> bool" where
  "sendable t \<longleftrightarrow> t \<noteq> [] \<and> length t \<le> MAX_MESSAGE_BYTES \<and> cr \<notin> set t"

fun output_ok :: "worker_output \<Rightarrow> bool" where
  "output_ok (Radio (SendText t d)) = sendable t"
| "output_ok _ = True"

fun neutral :: "worker_output \<Rightarrow> bool" where
  "neutral (Opened i) = False"
| "neutral (Closed i) = False"
| "neutral (Radio (SendText t d)) = False"
| "neutral _ = True"

text \<open>The invariant: the one interface that is open is the current one; while it is there the
  callbacks are subscribed; SYNCING and CONNECTED are states of an open interface; and nothing but
  sendable text reached the radio.\<close>

definition worker_inv :: "worker \<Rightarrow> bool" where
  "worker_inv w \<longleftrightarrow>
     opened w - closed w = set_option (wk_interface w) \<and> closed w \<subseteq> opened w \<and>
     (wk_interface w \<noteq> None \<longrightarrow> wk_subscribed w) \<and>
     (wk_state w \<in> {SYNCING, CONNECTED} \<longrightarrow> wk_interface w \<noteq> None) \<and>
     (\<forall>x \<in> set (wk_out w). output_ok x)"

lemma neutral_facts:
  "neutral x \<Longrightarrow> output_ok x" "neutral x \<Longrightarrow> x \<noteq> Opened i" "neutral x \<Longrightarrow> x \<noteq> Closed i"
  by (cases x rule: neutral.cases; simp)+

text \<open>Steps that only emit, and perhaps change the state to one that is safe.\<close>

definition quiet :: "worker \<Rightarrow> worker \<Rightarrow> bool" where
  "quiet w w' \<longleftrightarrow> wk_interface w' = wk_interface w \<and> wk_subscribed w' = wk_subscribed w \<and>
     (wk_state w' \<in> {SYNCING, CONNECTED} \<longrightarrow> wk_state w' = wk_state w \<or> wk_interface w \<noteq> None) \<and>
     (\<exists>os. wk_out w' = wk_out w @ os \<and> list_all neutral os)"

lemma quiet_refl [simp]: "quiet w w"
  by (simp add: quiet_def)

lemma quiet_trans: "quiet a b \<Longrightarrow> quiet b c \<Longrightarrow> quiet a c"
  by (fastforce simp: quiet_def)

lemma quiet_inv: "worker_inv w \<Longrightarrow> quiet w w' \<Longrightarrow> worker_inv w'"
proof -
  assume inv: "worker_inv w" and q: "quiet w w'"
  from q obtain os where os: "wk_out w' = wk_out w @ os" "list_all neutral os"
    by (auto simp: quiet_def)
  have "Opened i \<notin> set os" "Closed i \<notin> set os" for i using os(2) by (auto simp: list_all_iff)
  with os have "opened w' = opened w" "closed w' = closed w" by (auto simp: opened_def closed_def)
  moreover have "\<forall>x \<in> set os. output_ok x" using os(2) neutral_facts(1) by (auto simp: list_all_iff)
  ultimately show "worker_inv w'"
    using inv q os(1) by (simp add: worker_inv_def quiet_def ball_Un) metis
qed

lemma quiet_put [intro]: "list_all neutral os \<Longrightarrow> quiet w (put_out os w)"
  by (auto simp: quiet_def)

lemma quiet_emit_error [intro, simp]: "quiet w (emit_error c t m r d w)"
  by (auto simp: emit_error_def)

lemma quiet_set_state [intro]:
  "st \<notin> {SYNCING, CONNECTED} \<or> wk_interface w \<noteq> None \<Longrightarrow> quiet w (set_state st d w)"
  by (auto simp: quiet_def)

lemma quiet_device_controls [simp]: "quiet w (emit_device_controls e w)"
  by (auto simp: emit_device_controls_def split: option.splits)

text \<open>The interface handling.\<close>

lemma close_interface_inv:
  assumes "worker_inv w" "wk_state w \<notin> {SYNCING, CONNECTED}"
  shows "worker_inv (close_interface w)" "wk_interface (close_interface w) = None"
    "wk_state (close_interface w) = wk_state w"
  using assms
  by (auto simp: close_interface_def worker_inv_def opened_def closed_def split: option.splits)

lemma worker_inv_serial [simp]: "worker_inv (w\<lparr>wk_serial_port := p\<rparr>) = worker_inv w"
  by (simp add: worker_inv_def opened_def closed_def)

lemma begin_connect_inv:
  assumes "worker_inv w" "may_connect w"
  shows "worker_inv (begin_connect p d w)" "wk_interface (begin_connect p d w) = None"
    "wk_state (begin_connect p d w) = CONNECTING" "wk_subscribed (begin_connect p d w)"
proof -
  have s: "wk_state w \<notin> {SYNCING, CONNECTED}" using assms(2) by (auto simp: may_connect_def)
  note c = close_interface_inv [OF assms(1) s]
  then have "worker_inv ((close_interface w)\<lparr>wk_serial_port := p, wk_subscribed := True\<rparr>)"
    by (simp add: worker_inv_def opened_def closed_def)
  then show "worker_inv (begin_connect p d w)"
    unfolding begin_connect_def subscribe_def by (rule quiet_inv) (auto simp: quiet_def)
  show "wk_interface (begin_connect p d w) = None" "wk_state (begin_connect p d w) = CONNECTING"
    "wk_subscribed (begin_connect p d w)"
    using c by (simp_all add: begin_connect_def subscribe_def)
qed

lemma opened_begin [simp]: "opened (begin_connect p d w) = opened w"
  by (auto simp: opened_def begin_connect_def subscribe_def close_interface_def split: option.splits)

lemma store_interface_inv:
  assumes "worker_inv w" "wk_interface w = None" "wk_subscribed w" "i \<notin> opened w"
  shows "worker_inv (store_interface i w)"
  using assms by (auto simp: store_interface_def worker_inv_def opened_def closed_def)

lemma announce_syncing_inv:
  "worker_inv w \<Longrightarrow> wk_interface w \<noteq> None \<Longrightarrow> worker_inv (announce_syncing w)"
  unfolding announce_syncing_def by (rule quiet_inv) auto

lemma connect_failed_inv:
  assumes "worker_inv w" "wk_interface w = None"
  shows "worker_inv (connect_failed d w)"
proof -
  have "w\<lparr>wk_interface := None\<rparr> = w" using assms(2) by simp
  then show ?thesis using assms(1) unfolding connect_failed_def
    by (auto intro!: quiet_inv [OF assms(1)] quiet_trans [OF quiet_set_state quiet_set_state])
qed

section \<open>Steps\<close>

text \<open>What the library may do at any time, on a thread of its own.\<close>

inductive callback_step :: "worker \<Rightarrow> worker \<Rightarrow> bool" where
  cb_established: "callback_step w (on_connection_established en data e i w)"
| cb_lost: "callback_step w (on_connection_lost i w)"
| cb_text: "callback_step w (on_text_received l now nodes p i w)"
| cb_packet: "callback_step w (on_packet_received p i w)"
| cb_node: "callback_step w (on_node_updated p i w)"

text \<open>One slot, or one callback between slots.  An interface the library constructs is a new object.
  Callbacks that arrive while a connect slot is blocked come in two windows: before the new interface
  is stored, where there is no active interface, and between that and SYNCING.\<close>

inductive worker_step :: "worker \<Rightarrow> worker \<Rightarrow> bool" where
  st_callback: "callback_step w w' \<Longrightarrow> worker_step w w'"
| st_scan: "worker_step w (scan_ble outcome w)"
| st_ports: "worker_step w (list_serial_ports ports w)"
| st_ble: "(\<And>i. outcome' = Inr i \<Longrightarrow> i \<notin> opened w) \<Longrightarrow> worker_step w (connect_ble a outcome' w)"
| st_tcp: "(\<And>i. outcome'' = Inr i \<Longrightarrow> i \<notin> opened w) \<Longrightarrow> worker_step w (connect_tcp h p outcome'' w)"
| st_serial: "(\<And>i. outcome3 = Inr i \<Longrightarrow> i \<notin> opened w) \<Longrightarrow> worker_step w (connect_serial d outcome3 w)"
| st_window: "may_connect w \<Longrightarrow> i \<notin> opened w \<Longrightarrow> callback_step\<^sup>*\<^sup>* (begin_connect sp d w) w1 \<Longrightarrow>
    callback_step\<^sup>*\<^sup>* (store_interface i w1) w2 \<Longrightarrow> worker_step w (announce_syncing w2)"
| st_disconnect: "worker_step w (disconnect w)"
| st_reconnecting: "worker_step w (enter_reconnecting d w)"
| st_send: "worker_step w (send_text t dest l sent w)"
| st_action: "neutral report \<Longrightarrow> neutral (Radio call) \<Longrightarrow>
    worker_step w (node_action what call report ttl pre raised w)"
| st_controls: "worker_step w (refresh_device_controls e w)"
| st_owner: "worker_step w (set_owner long short raised e w)"
| st_local: "neutral (Radio call) \<Longrightarrow> worker_step w (run_local_node_action act call raised w)"
| st_backup: "worker_step w (backup_device_profile saved w)"
| st_restore: "worker_step w (restore_device_profile saved e w)"

inductive_cases callback_stepE: "callback_step w w'"

lemma put_out_empty [simp]: "put_out [] w = w"
  by (simp add: put_out_def)

lemma quiet_put_on: "quiet w w1 \<Longrightarrow> list_all neutral os \<Longrightarrow> quiet w (put_out os w1)"
  by (rule quiet_trans) auto

lemma quiet_error_on: "quiet w w1 \<Longrightarrow> quiet w (emit_error c t m r d w1)"
  by (rule quiet_trans) auto

lemma quiet_state_on: "quiet w w1 \<Longrightarrow> st \<notin> {SYNCING, CONNECTED} \<or> wk_interface w \<noteq> None \<Longrightarrow>
    quiet w (set_state st d w1)"
  by (rule quiet_trans) (auto simp: quiet_def)

lemma quiet_controls_on: "quiet w w1 \<Longrightarrow> quiet w (emit_device_controls e w1)"
  by (rule quiet_trans) auto

lemmas quiet_intros = quiet_put_on quiet_error_on quiet_state_on quiet_controls_on

lemma callback_quiet: "callback_step w w' \<Longrightarrow> quiet w w'"
proof (induction rule: callback_step.induct)
  case (cb_established w en data e i)
  show ?case
    by (auto simp: on_connection_established_def Let_def is_active_interface_def
        split: list.splits intro!: quiet_intros)
next
  case (cb_lost w i)
  show ?case by (auto simp: on_connection_lost_def intro!: quiet_intros)
next
  case (cb_text w l now nodes p i)
  show ?case by (auto simp: on_text_received_def split: option.splits intro!: quiet_intros)
next
  case (cb_packet w p i)
  show ?case by (auto simp: on_packet_received_def split: pyval.splits intro!: quiet_intros)
next
  case (cb_node w p i)
  show ?case by (auto simp: on_node_updated_def split: pyval.splits intro!: quiet_intros)
qed

lemma callbacks_quiet: "callback_step\<^sup>*\<^sup>* w w' \<Longrightarrow> quiet w w'"
  by (induction rule: rtranclp_induct) (auto intro: quiet_trans callback_quiet)

text \<open>Without an active interface no callback does anything.\<close>

lemma callback_inactive: "callback_step w w' \<Longrightarrow> wk_interface w = None \<Longrightarrow> w' = w"
  by (auto elim!: callback_stepE simp: is_active_interface_def on_connection_established_def
      on_connection_lost_def on_text_received_def on_packet_received_def on_node_updated_def)

lemma callbacks_inactive: "callback_step\<^sup>*\<^sup>* w w' \<Longrightarrow> wk_interface w = None \<Longrightarrow> w' = w"
  by (induction rule: rtranclp_induct) (auto dest: callback_inactive)

lemma require_connection_quiet:
  "require_connection what w = (ok, w') \<Longrightarrow> quiet w w'"
  by (auto simp: require_connection_def split: if_splits)

lemma prepare_outgoing_quiet: "prepare_outgoing t w = (r, w') \<Longrightarrow> quiet w w'"
  by (auto simp: prepare_outgoing_def Let_def split: if_splits)

lemma prepare_outgoing_some:
  assumes "prepare_outgoing t w = (Some m, w')"
  shows "m = normalize_outgoing_text t \<and> w' = w \<and> sendable m \<and> wk_state w = CONNECTED \<and>
    wk_interface w \<noteq> None"
  using assms normalize_no_cr [of t]
  by (auto simp: prepare_outgoing_def Let_def sendable_def split: if_splits)

lemma send_put_inv: "worker_inv w \<Longrightarrow> sendable t \<Longrightarrow> worker_inv (put_out [Radio (SendText t d)] w)"
  by (simp add: worker_inv_def opened_def closed_def)

lemma send_text_inv:
  assumes "worker_inv w"
  shows "worker_inv (send_text t dest l outcome w)"
proof -
  obtain r w' where r: "prepare_outgoing t w = (r, w')" by (rule prod.exhaust)
  show ?thesis
  proof (cases r)
    case None
    have "quiet w (send_text t dest l outcome w)"
      using r None prepare_outgoing_quiet [OF r] by (auto simp: send_text_def intro!: quiet_intros)
    with assms show ?thesis by (rule quiet_inv)
  next
    case (Some m)
    with prepare_outgoing_some r have m: "w' = w" "sendable m" by auto
    have "quiet (put_out [Radio (SendText m dest)] w) (send_text t dest l outcome w)"
      using r Some m by (auto simp: send_text_def dispatch_text_def Let_def split: sum.splits
          intro: quiet_put quiet_trans [OF quiet_put quiet_emit_error])
    with send_put_inv [OF assms m(2)] show ?thesis by (rule quiet_inv)
  qed
qed

lemma connect_finish_inv:
  assumes "worker_inv w" "may_connect w" "i \<notin> opened w"
  shows "worker_inv (connect_opened i (begin_connect p d w))"
proof -
  note b = begin_connect_inv [OF assms(1,2), of p d]
  have "worker_inv (store_interface i (begin_connect p d w))"
    using b assms(3) by (intro store_interface_inv) auto
  then show ?thesis unfolding connect_opened_def
    by (rule announce_syncing_inv) (simp add: store_interface_def)
qed

lemma connect_failed_begin_inv:
  assumes "worker_inv w" "may_connect w"
  shows "worker_inv (connect_failed e (begin_connect p d w))"
  using begin_connect_inv [OF assms] by (intro connect_failed_inv) auto

lemma emit_error_inv: "worker_inv w \<Longrightarrow> worker_inv (emit_error c t m r d w)"
  by (rule quiet_inv) auto

lemma disconnect_inv: "worker_inv w \<Longrightarrow> worker_inv (disconnect w)"
proof -
  assume inv: "worker_inv w"
  let ?w1 = "set_state DISCONNECTING (''Disconnecting'' @ ellipsis) w"
  have w1: "worker_inv ?w1" by (rule quiet_inv [OF inv]) (auto intro: quiet_set_state)
  have "worker_inv (close_interface ?w1)" by (rule close_interface_inv [OF w1]) simp
  then have "worker_inv (put_out [Disconnected ''Disconnected by user'']
      (set_state DISCONNECTED [] (close_interface ?w1)))"
    by (rule quiet_inv) (auto intro!: quiet_intros)
  with inv show ?thesis by (simp add: disconnect_def)
qed

lemma worker_step_inv: "worker_step w w' \<Longrightarrow> worker_inv w \<Longrightarrow> worker_inv w'"
proof (induction rule: worker_step.induct)
  case (st_callback w w')
  then show ?case by (auto intro: quiet_inv callback_quiet)
next
  case (st_scan w outcome)
  then show ?case
    by (elim quiet_inv) (auto simp: scan_ble_def Let_def split: sum.splits intro!: quiet_intros)
next
  case (st_ports w ports)
  then show ?case
    by (elim quiet_inv) (auto simp: list_serial_ports_def split: sum.splits intro!: quiet_intros)
next
  case (st_ble outcome' w a)
  then show ?case
    by (auto simp: connect_ble_def ble_failure_def Let_def split: sum.splits
        intro!: emit_error_inv connect_failed_begin_inv connect_finish_inv)
next
  case (st_tcp outcome'' w h p)
  then show ?case
    by (auto simp: connect_tcp_def tcp_failure_def Let_def split: sum.splits tcp_exc.splits
        intro!: emit_error_inv connect_failed_begin_inv connect_finish_inv)
next
  case (st_serial outcome3 w d)
  then show ?case
    by (auto simp: connect_serial_def serial_failure_def Let_def split: sum.splits
        intro!: emit_error_inv connect_failed_begin_inv connect_finish_inv)
next
  case (st_window w i sp d w1 w2)
  note b = begin_connect_inv [OF st_window.prems st_window.hyps(1), of sp d]
  have w1: "w1 = begin_connect sp d w" by (rule callbacks_inactive [OF st_window.hyps(3) b(2)])
  have s: "worker_inv (store_interface i w1)"
    using b st_window.hyps(2) unfolding w1 by (intro store_interface_inv) auto
  have q: "quiet (store_interface i w1) w2" by (rule callbacks_quiet [OF st_window.hyps(4)])
  then have "wk_interface w2 \<noteq> None" by (simp add: quiet_def store_interface_def)
  with quiet_inv [OF s q] show ?case by (rule announce_syncing_inv)
next
  case (st_disconnect w)
  then show ?case by (rule disconnect_inv)
next
  case (st_reconnecting w d)
  then show ?case by (elim quiet_inv) (auto simp: enter_reconnecting_def intro!: quiet_intros)
next
  case (st_send w t dest l sent)
  then show ?case by (rule send_text_inv)
next
  case (st_action report call w what ttl pre raised)
  then show ?case
    by (elim quiet_inv) (auto simp: node_action_def Let_def split: prod.splits bool.splits option.splits
        dest: require_connection_quiet intro!: quiet_intros)
next
  case (st_controls w e)
  then show ?case
    by (elim quiet_inv) (auto simp: refresh_device_controls_def split: prod.splits bool.splits
        dest: require_connection_quiet intro!: quiet_intros)
next
  case (st_owner w long short raised e)
  then show ?case
    by (elim quiet_inv) (auto simp: set_owner_def Let_def split: prod.splits bool.splits option.splits
        dest: require_connection_quiet intro!: quiet_intros)
next
  case (st_local call w act raised)
  then show ?case
    by (elim quiet_inv) (auto simp: run_local_node_action_def Let_def
        split: prod.splits bool.splits option.splits dest: require_connection_quiet intro!: quiet_intros)
next
  case (st_backup w saved)
  then show ?case
    by (elim quiet_inv) (auto simp: backup_device_profile_def split: prod.splits bool.splits sum.splits
        dest: require_connection_quiet intro!: quiet_intros)
next
  case (st_restore w saved e)
  then show ?case
    by (elim quiet_inv) (auto simp: restore_device_profile_def split: prod.splits bool.splits sum.splits
        dest: require_connection_quiet intro!: quiet_intros)
qed


section \<open>Properties\<close>

lemma worker_new_inv: "worker_inv worker_new"
  by (simp add: worker_inv_def worker_new_def opened_def closed_def)

lemma reachable_inv: "worker_step\<^sup>*\<^sup>* worker_new w \<Longrightarrow> worker_inv w"
  by (induction rule: rtranclp_induct) (auto intro: worker_new_inv worker_step_inv)


text \<open>C10: after the user disconnects a live connection, nothing the library still delivers has any
  effect: no late event changes the state or reaches a signal.\<close>

theorem disconnect_silences_callbacks:
  assumes "wk_state w \<noteq> DISCONNECTED" "callback_step\<^sup>*\<^sup>* (disconnect w) w'"
  shows "w' = disconnect w \<and> wk_state w' = DISCONNECTED \<and> wk_interface w' = None"
proof -
  have "wk_interface (disconnect w) = None" "wk_state (disconnect w) = DISCONNECTED"
    using assms(1) by (auto simp: disconnect_def close_interface_def split: option.splits)
  with callbacks_inactive [OF assms(2)] show ?thesis by simp
qed

fun status_report :: "worker_output \<Rightarrow> (string \<times> message_status) option" where
  "status_report (MessageStatusChanged l p st d) = Some (l, st)"
| "status_report _ = None"

text \<open>C9: every send is answered by exactly one status for its own bubble, on every path: not
  connected, empty, too long, refused by the radio or accepted; and it says accepted only when the
  normalised text was handed to a connected radio.\<close>

theorem send_reports_exactly_once:
  "\<exists>os st. wk_out (send_text text dest local_id outcome w) = wk_out w @ os \<and>
    List.map_filter status_report os = [(local_id, st)] \<and>
    (st = ACCEPTED_BY_RADIO \<longleftrightarrow>
      wk_state w = CONNECTED \<and> wk_interface w \<noteq> None \<and> sendable (normalize_outgoing_text text) \<and>
      (\<exists>pid. outcome = Inr pid)) \<and>
    (st = ACCEPTED_BY_RADIO \<longrightarrow> Radio (SendText (normalize_outgoing_text text) dest) \<in> set os)"
proof -
  obtain r w' where r: "prepare_outgoing text w = (r, w')" by (rule prod.exhaust)
  show ?thesis
  proof (cases r)
    case (Some m)
    with prepare_outgoing_some r have
      m: "m = normalize_outgoing_text text" "w' = w" "sendable m" "wk_state w = CONNECTED"
        "wk_interface w \<noteq> None" by auto
    show ?thesis
    proof (cases outcome)
      case (Inl e)
      show ?thesis using r Some m Inl
        by (intro exI [of _ "drop (length (wk_out w)) (wk_out (send_text text dest local_id outcome w))"]
            exI [of _ FAILED])
          (simp add: send_text_def dispatch_text_def Let_def emit_error_def List.map_filter_def)
    next
      case (Inr pid)
      show ?thesis using r Some m Inr
        by (intro exI [of _ "drop (length (wk_out w)) (wk_out (send_text text dest local_id outcome w))"]
            exI [of _ ACCEPTED_BY_RADIO])
          (simp add: send_text_def dispatch_text_def Let_def List.map_filter_def)
    qed
  next
    case None
    have "\<not> (wk_state w = CONNECTED \<and> wk_interface w \<noteq> None \<and> sendable (normalize_outgoing_text text))"
      using r None by (auto simp: prepare_outgoing_def Let_def sendable_def split: if_splits)
    moreover have "\<exists>es. w' = put_out es w \<and> List.map_filter status_report es = []"
      using r None
      by (auto simp: prepare_outgoing_def Let_def emit_error_def List.map_filter_def
          split: if_splits intro: exI [of _ "[]"] exI [of _ "[_]"])
    ultimately show ?thesis using r None
      by (auto simp: send_text_def List.map_filter_def intro!: exI [of _ FAILED])
  qed
qed

text \<open>A scan started while connected leaves the worker DISCONNECTED with its interface open, and
  Disconnect then does nothing.\<close>

lemma scan_hides_connection:
  assumes "wk_interface w = Some i"
  shows "wk_state (scan_ble outcome w) = DISCONNECTED \<and> wk_interface (scan_ble outcome w) = Some i \<and>
    disconnect (scan_ble outcome w) = scan_ble outcome w"
  using assms by (simp add: scan_ble_def disconnect_def Let_def split: sum.splits)

text \<open>An interface that reports itself established before SYNCING is announced is taken back to
  SYNCING: the worker stays there, and refuses to send.\<close>

lemma early_established_overwritten:
  "wk_state (announce_syncing (on_connection_established en data None (Some i)
      (store_interface i w))) = SYNCING"
  by (simp add: announce_syncing_def)

definition sample_interface :: interface_data where
  "sample_interface = \<lparr>if_my_node_num = Some 7, if_pio_env = None, if_firmware_version = None,
     if_can_shutdown = False, if_nodes = [], if_channels = [], if_lora = None\<rparr>"

definition sample_names :: enum_names where
  "sample_names = \<lparr>en_role = (\<lambda>_. None), en_region = (\<lambda>_. None), en_preset = (\<lambda>_. None)\<rparr>"

definition sample_connected :: worker where
  "sample_connected = on_connection_established sample_names sample_interface None (Some 1)
     (connect_tcp ''host'' 4403 (Inr 1) worker_new)"

lemma sample_connected_state:
  "wk_state sample_connected = CONNECTED" "wk_interface sample_connected \<noteq> None"
proof -
  have "strip ''host'' = ''host''" by code_simp
  then have "wk_interface (connect_tcp ''host'' 4403 (Inr 1) worker_new) = Some 1"
    by (simp add: connect_tcp_def may_connect_def worker_new_def
        connect_opened_def announce_syncing_def store_interface_def Let_def)
  then show "wk_state sample_connected = CONNECTED" "wk_interface sample_connected \<noteq> None"
    by (simp_all add: sample_connected_def on_connection_established_def is_active_interface_def
        sample_interface_def Let_def emit_device_controls_def)
qed


theorem disconnect_silences_callbacks_witness:
  "wk_interface (on_connection_lost (Some 1) (disconnect sample_connected)) = None"
  using disconnect_silences_callbacks [of sample_connected
      "on_connection_lost (Some 1) (disconnect sample_connected)"]
  by (auto simp: sample_connected_state intro: cb_lost r_into_rtranclp)

theorem send_reports_exactly_once_witness:
  "\<exists>os. wk_out (send_channel_text ''hi'' 0 ''m1'' (Inr (Some 9)) sample_connected)
      = wk_out sample_connected @ os \<and>
    List.map_filter status_report os = [(''m1'', ACCEPTED_BY_RADIO)]"
proof -
  have t: "normalize_outgoing_text ''hi'' = ''hi''" by code_simp
  have c: "wk_state sample_connected = CONNECTED \<and> wk_interface sample_connected \<noteq> None \<and>
      sendable (normalize_outgoing_text ''hi'')"
    using sample_connected_state by (simp add: t sendable_def MAX_MESSAGE_BYTES_def cr_def)
  from send_reports_exactly_once [of "''hi''" "ToChannel 0" "''m1''" "Inr (Some 9)" sample_connected] c
  show ?thesis unfolding send_channel_text_def by auto
qed

end
