(* ===== verification/Supervisor.thy ===== *)
theory Supervisor
  imports Controller Store
begin

text \<open>
  \<open>services/connection_supervisor.py\<close>: the reconnect state machine with its backoff timer, and the
  last-used profile in the settings table.  All of it runs on the GUI thread, one slot at a time.
  What it asks of the controller is appended to a list; the store is the write queue of
  \<open>Store\<close>.
\<close>

section \<open>State\<close>

datatype sv_command =
    EnterReconnecting string
  | ConnectTcp string int
  | ConnectSerial string
  | ConnectBle string

record supervisor =
  sv_store :: store
  sv_profile :: "connection_profile option"
  sv_attempt :: nat
  sv_was_connected :: bool
  sv_active :: bool
  sv_timer :: "nat option"
  sv_commands :: "sv_command list"

text \<open>\<open>sv_timer\<close> is the delay, in milliseconds, the single-shot timer was last started with; \<open>None\<close>
  when it is not running.\<close>

definition supervisor_new :: "store \<Rightarrow> supervisor" where
  "supervisor_new st = \<lparr>sv_store = st, sv_profile = None, sv_attempt = 0, sv_was_connected = False,
     sv_active = False, sv_timer = None, sv_commands = []\<rparr>"

definition BACKOFF_SECONDS :: "nat list" where "BACKOFF_SECONDS = [2, 5, 15, 30, 60]"

section \<open>Operations\<close>

definition set_profile :: "connection_profile \<Rightarrow> supervisor \<Rightarrow> supervisor" where
  "set_profile p s = s\<lparr>sv_profile := Some p\<rparr>"

definition cancel :: "supervisor \<Rightarrow> supervisor" where
  "cancel s = s\<lparr>sv_active := False, sv_was_connected := False, sv_timer := None\<rparr>"

text \<open>The profile is loaded through whatever looks a setting up.\<close>

definition load_profile :: "(string \<Rightarrow> string option) \<Rightarrow> connection_profile option" where
  "load_profile get =
     (let transport = get ''connection.transport'';
          text = (\<lambda>k. case get k of None \<Rightarrow> [] | Some v \<Rightarrow> v)
      in if \<not> truthy_str transport then None
         else
           (let port_text = (if truthy_str (get ''connection.tcp_port'')
                             then text ''connection.tcp_port'' else ''4403'');
                tcp_port = (case parse_int port_text of None \<Rightarrow> 4403 | Some n \<Rightarrow> n)
            in Some \<lparr>cp_transport = the transport,
                  cp_ble_address = text ''connection.ble_address'',
                  cp_tcp_host = text ''connection.tcp_host'', cp_tcp_port = tcp_port,
                  cp_serial_port = text ''connection.serial_port''\<rparr>))"

definition profile_settings :: "connection_profile \<Rightarrow> (string \<times> string) list" where
  "profile_settings p =
     [(''connection.transport'', cp_transport p), (''connection.ble_address'', cp_ble_address p),
      (''connection.tcp_host'', cp_tcp_host p), (''connection.tcp_port'', show_int (cp_tcp_port p)),
      (''connection.serial_port'', cp_serial_port p)]"

definition save_profile :: "supervisor \<Rightarrow> supervisor" where
  "save_profile s =
     (case sv_profile s of
        None \<Rightarrow> s
      | Some p \<Rightarrow>
          s\<lparr>sv_store := fold (\<lambda>kv. set_setting (fst kv) (snd kv)) (profile_settings p) (sv_store s)\<rparr>)"

definition schedule_retry :: "supervisor \<Rightarrow> supervisor" where
  "schedule_retry s =
     (let delay = BACKOFF_SECONDS ! min (sv_attempt s) (length BACKOFF_SECONDS - 1)
      in s\<lparr>sv_commands := sv_commands s
              @ [EnterReconnecting (''Reconnecting'' @ ellipsis @ '' (attempt ''
                   @ show_nat (sv_attempt s + 1) @ '')'')],
           sv_timer := Some (delay * 1000)\<rparr>)"

definition sv_on_connected :: "supervisor \<Rightarrow> supervisor" where
  "sv_on_connected s =
     save_profile (s\<lparr>sv_timer := None, sv_active := False, sv_attempt := 0, sv_was_connected := True\<rparr>)"

definition sv_on_disconnected :: "string \<Rightarrow> supervisor \<Rightarrow> supervisor" where
  "sv_on_disconnected reason s = (if contains ''user'' (lower reason) then cancel s else s)"

definition sv_on_error :: "error_code \<Rightarrow> supervisor \<Rightarrow> supervisor" where
  "sv_on_error code s =
     (if sv_active s then schedule_retry (s\<lparr>sv_attempt := sv_attempt s + 1\<rparr>)
      else if code = CONNECTION_LOST \<and> sv_was_connected s \<and> sv_profile s \<noteq> None
      then schedule_retry (s\<lparr>sv_active := True, sv_attempt := 0\<rparr>)
      else s)"

definition attempt_reconnect :: "supervisor \<Rightarrow> supervisor" where
  "attempt_reconnect s =
     (case sv_profile s of
        None \<Rightarrow> s
      | Some p \<Rightarrow>
          if \<not> sv_active s then s
          else if cp_transport p = ''tcp''
          then s\<lparr>sv_commands := sv_commands s @ [ConnectTcp (cp_tcp_host p) (cp_tcp_port p)]\<rparr>
          else if cp_transport p = ''serial''
          then s\<lparr>sv_commands := sv_commands s @ [ConnectSerial (cp_serial_port p)]\<rparr>
          else if cp_transport p = ''ble''
          then s\<lparr>sv_commands := sv_commands s @ [ConnectBle (cp_ble_address p)]\<rparr>
          else s)"

text \<open>The events of the GUI thread; a timer that is not running does not fire, one that fires stops.\<close>

datatype sv_event =
    EvSetProfile connection_profile
  | EvCancel
  | EvConnected
  | EvDisconnected string
  | EvError error_code
  | EvTimeout

fun sv_step :: "sv_event \<Rightarrow> supervisor \<Rightarrow> supervisor" where
  "sv_step (EvSetProfile p) s = set_profile p s"
| "sv_step EvCancel s = cancel s"
| "sv_step EvConnected s = sv_on_connected s"
| "sv_step (EvDisconnected r) s = sv_on_disconnected r s"
| "sv_step (EvError c) s = sv_on_error c s"
| "sv_step EvTimeout s =
     (case sv_timer s of None \<Rightarrow> s | Some d \<Rightarrow> attempt_reconnect (s\<lparr>sv_timer := None\<rparr>))"

definition sv_run :: "sv_event list \<Rightarrow> supervisor \<Rightarrow> supervisor" where
  "sv_run evs s = fold sv_step evs s"

section \<open>Facts\<close>

lemma save_profile_frame [simp]:
  "sv_profile (save_profile s) = sv_profile s" "sv_attempt (save_profile s) = sv_attempt s"
  "sv_was_connected (save_profile s) = sv_was_connected s"
  "sv_active (save_profile s) = sv_active s" "sv_timer (save_profile s) = sv_timer s"
  "sv_commands (save_profile s) = sv_commands s"
  by (simp_all add: save_profile_def split: option.splits)

lemma set_settings_queue:
  "length (st_queue st) + length kvs \<le> QUEUE_CAPACITY \<Longrightarrow>
    st_queue (fold (\<lambda>kv. set_setting (fst kv) (snd kv)) kvs st)
      = st_queue st @ map (\<lambda>kv. ISetting (fst kv) (snd kv)) kvs"
proof (induction kvs arbitrary: st)
  case (Cons kv kvs)
  then show ?case by (simp add: set_setting_def enqueue_accepts)
qed simp

lemma write_settings:
  "fold write_one (map (\<lambda>kv. ISetting (fst kv) (snd kv)) kvs) db = db_settings.put_all kvs db"
  by (induction kvs arbitrary: db) (simp_all add: db_settings.put_all_def)

lemma profile_settings_distinct: "distinct (map fst (profile_settings p))"
  by (simp add: profile_settings_def)

text \<open>A profile read through a lookup that knows its five settings is the profile.\<close>

lemma load_profile_saved:
  assumes "cp_transport p \<noteq> []" "\<And>k v. (k, v) \<in> set (profile_settings p) \<Longrightarrow> get k = Some v"
  shows "load_profile get = Some p"
proof -
  have g: "get ''connection.transport'' = Some (cp_transport p)"
    "get ''connection.ble_address'' = Some (cp_ble_address p)"
    "get ''connection.tcp_host'' = Some (cp_tcp_host p)"
    "get ''connection.tcp_port'' = Some (show_int (cp_tcp_port p))"
    "get ''connection.serial_port'' = Some (cp_serial_port p)"
    using assms(2) by (simp_all add: profile_settings_def)
  have "show_int (cp_tcp_port p) \<noteq> []" using show_base_nonempty by (simp add: show_int_def show_nat_def)
  with assms(1) show ?thesis
    by (simp add: load_profile_def Let_def g truthy_str_def parse_int_show_int)
qed

text \<open>C14: the profile of a successful connect is there on the next launch: once the writer has written
  what was queued when the connection came up, loading the profile from the database gives exactly
  the profile that was set, on top of whatever the database and the queue held.\<close>

theorem profile_survives_restart:
  assumes "sv_profile s = Some p" "cp_transport p \<noteq> []"
    "length (st_queue (sv_store s)) + 5 \<le> QUEUE_CAPACITY"
  shows "load_profile (\<lambda>k. get_setting k
    (fold write_one (st_queue (sv_store (sv_on_connected s))) db)) = Some p"
proof (rule load_profile_saved [OF assms(2)])
  fix k v assume kv: "(k, v) \<in> set (profile_settings p)"
  have "st_queue (sv_store (sv_on_connected s)) = st_queue (sv_store s)
      @ map (\<lambda>kv. ISetting (fst kv) (snd kv)) (profile_settings p)"
    using assms(1,3) set_settings_queue [of "sv_store s" "profile_settings p"]
    by (simp add: sv_on_connected_def save_profile_def) (simp add: profile_settings_def)
  then show "get_setting k (fold write_one (st_queue (sv_store (sv_on_connected s))) db) = Some v"
    using kv profile_settings_distinct by (simp add: write_settings db_settings.lookup_put_all)
qed

lemma retry_simps:
  "sv_active (schedule_retry s) = sv_active s" "sv_attempt (schedule_retry s) = sv_attempt s"
  "sv_profile (schedule_retry s) = sv_profile s"
  "sv_was_connected (schedule_retry s) = sv_was_connected s"
  "sv_timer (schedule_retry s) = Some (1000 * BACKOFF_SECONDS ! min (sv_attempt s) 4)"
proof -
  have "length BACKOFF_SECONDS - 1 = 4" by (simp add: BACKOFF_SECONDS_def)
  then show "sv_timer (schedule_retry s) = Some (1000 * BACKOFF_SECONDS ! min (sv_attempt s) 4)"
    by (simp add: schedule_retry_def Let_def)
qed (simp_all add: schedule_retry_def Let_def)

text \<open>The failed attempts of one outage: the timer fires, the attempt ends in an error.\<close>

definition failed_attempt :: "error_code \<Rightarrow> supervisor \<Rightarrow> supervisor" where
  "failed_attempt c s = sv_step (EvError c) (sv_step EvTimeout s)"

lemma attempt_reconnect_frame:
  "sv_active (attempt_reconnect s) = sv_active s" "sv_attempt (attempt_reconnect s) = sv_attempt s"
  "sv_profile (attempt_reconnect s) = sv_profile s" "sv_timer (attempt_reconnect s) = sv_timer s"
  "sv_was_connected (attempt_reconnect s) = sv_was_connected s"
  by (simp_all add: attempt_reconnect_def split: option.splits)

lemma failed_attempts:
  "sv_active s \<Longrightarrow> sv_timer s = Some (1000 * BACKOFF_SECONDS ! min (sv_attempt s) 4) \<Longrightarrow>
    let s' = fold failed_attempt cs s in
      sv_active s' \<and> sv_attempt s' = sv_attempt s + length cs \<and> sv_profile s' = sv_profile s \<and>
      sv_timer s' = Some (1000 * BACKOFF_SECONDS ! min (sv_attempt s') 4)"
proof (induction cs arbitrary: s)
  case (Cons c cs)
  have "failed_attempt c s = schedule_retry ((attempt_reconnect (s\<lparr>sv_timer := None\<rparr>))
      \<lparr>sv_attempt := sv_attempt s + 1\<rparr>)"
    using Cons.prems by (simp add: failed_attempt_def sv_on_error_def attempt_reconnect_frame)
  then have "sv_active (failed_attempt c s)" "sv_attempt (failed_attempt c s) = Suc (sv_attempt s)"
    "sv_profile (failed_attempt c s) = sv_profile s"
    "sv_timer (failed_attempt c s)
      = Some (1000 * BACKOFF_SECONDS ! min (sv_attempt (failed_attempt c s)) 4)"
    using Cons.prems by (simp_all add: retry_simps attempt_reconnect_frame)
  with Cons.IH [of "failed_attempt c s"] show ?case by (simp add: Let_def)
qed (simp add: Let_def)

text \<open>C11: once a good connection is lost the supervisor never gives up and never hammers: after any
  number \<open>n\<close> of failed attempts it is still active with its timer running, set to 2, 5, 15, 30 and
  then 60 seconds every time.\<close>

theorem backoff_schedule:
  assumes "sv_was_connected s" "sv_profile s \<noteq> None" "\<not> sv_active s"
  shows "let s' = fold failed_attempt codes (sv_step (EvError CONNECTION_LOST) s); n = length codes in
    sv_active s' \<and> sv_attempt s' = n \<and>
    sv_timer s' = Some (1000 * (if n < 5 then [2, 5, 15, 30, 60] ! n else 60))"
proof -
  let ?s = "sv_step (EvError CONNECTION_LOST) s"
  have s: "?s = schedule_retry (s\<lparr>sv_active := True, sv_attempt := 0\<rparr>)"
    using assms by (simp add: sv_on_error_def)
  have b: "BACKOFF_SECONDS ! min n 4 = (if n < 5 then [2, 5, 15, 30, 60] ! n else 60)" for n
    by (simp add: BACKOFF_SECONDS_def min_def)
  show ?thesis using failed_attempts [of ?s codes] unfolding s b [symmetric]
    by (simp add: retry_simps Let_def)
qed

fun is_connected_event :: "sv_event \<Rightarrow> bool" where
  "is_connected_event EvConnected = True"
| "is_connected_event _ = False"

definition idle :: "supervisor \<Rightarrow> bool" where
  "idle s \<longleftrightarrow> \<not> sv_active s \<and> \<not> sv_was_connected s \<and> sv_timer s = None"

lemma idle_step:
  assumes "idle s" "\<not> is_connected_event e"
  shows "idle (sv_step e s) \<and> sv_commands (sv_step e s) = sv_commands s"
  using assms by (cases e) (auto simp: idle_def set_profile_def cancel_def sv_on_disconnected_def
      sv_on_error_def)

text \<open>C12: a deliberate disconnect is final: after \<open>cancel\<close>, no error, late timeout, disconnect report or
  new profile makes the supervisor ask the controller for anything, until a connection succeeds.\<close>

theorem cancel_is_final:
  assumes "\<forall>e \<in> set evs. \<not> is_connected_event e"
  shows "sv_commands (sv_run evs (cancel s)) = sv_commands s \<and> sv_timer (sv_run evs (cancel s)) = None"
proof -
  have "idle (fold sv_step evs r) \<and> sv_commands (fold sv_step evs r) = sv_commands r"
    if "idle r" for r using assms that
  proof (induction evs arbitrary: r)
    case (Cons e evs)
    then show ?case using idle_step [of r e] by simp
  qed simp
  from this [of "cancel s"] show ?thesis by (simp add: idle_def cancel_def sv_run_def)
qed

text \<open>Any error counts as a failed attempt while a retry is pending: here a failed send moves the
  running timer from 2 to 5 seconds before the first attempt was made.\<close>

lemma unrelated_error_counts:
  assumes "sv_active s" "sv_attempt s = 0"
  shows "sv_attempt (sv_step (EvError SEND_FAILED) s) = 1 \<and>
    sv_timer (sv_step (EvError SEND_FAILED) s) = Some 5000"
  using assms by (simp add: sv_on_error_def retry_simps BACKOFF_SECONDS_def)

section \<open>Concrete runs\<close>

definition sample_profile :: connection_profile where
  "sample_profile = \<lparr>cp_transport = ''tcp'', cp_ble_address = [], cp_tcp_host = ''10.0.0.1'',
     cp_tcp_port = 4404, cp_serial_port = []\<rparr>"

definition sample_supervisor :: supervisor where
  "sample_supervisor = sv_on_connected (set_profile sample_profile (supervisor_new store_new))"

theorem profile_survives_restart_witness:
  "load_profile (\<lambda>k. get_setting k (fold write_one (st_queue (sv_store (sv_on_connected
      (set_profile sample_profile (supervisor_new store_new))))) empty_db)) = Some sample_profile"
  by (rule profile_survives_restart)
    (simp_all add: set_profile_def supervisor_new_def sample_profile_def store_new_def
      QUEUE_CAPACITY_def)

theorem backoff_schedule_witness:
  "sv_timer (fold failed_attempt [TCP_REFUSED, TCP_TIMEOUT]
      (sv_step (EvError CONNECTION_LOST) sample_supervisor)) = Some 15000"
  using backoff_schedule [of sample_supervisor "[TCP_REFUSED, TCP_TIMEOUT]"]
  by (simp add: sample_supervisor_def sv_on_connected_def set_profile_def supervisor_new_def Let_def)

theorem cancel_is_final_witness:
  "sv_commands (sv_run [EvError CONNECTION_LOST, EvTimeout] (cancel sample_supervisor)) = []"
  using cancel_is_final [of "[EvError CONNECTION_LOST, EvTimeout]" sample_supervisor]
  by (simp add: sample_supervisor_def sv_on_connected_def set_profile_def supervisor_new_def)

end
