(* ===== verification/Tiles.thy ===== *)
theory Tiles
  imports PyValue "HOL-Library.Char_ord" "HOL-Library.List_Lexorder" "HOL-Library.Product_Lexorder"
begin

text \<open>
  \<open>services/orcmaps.py\<close>: tool and pack discovery, pack coverage, attribution, the PPM and PNG codecs,
  the requests for verifying and building packs, the tile cache and the tile server with its HTTP
  handler.  The OrcMaps executables, \<open>zlib\<close>, \<open>urlsplit\<close> and number formatting are parameters; the file
  system is a set of predicates; bytes are character lists.  The projection's latitude is floating
  point trigonometry and a parameter too.
\<close>

section \<open>Tools\<close>

record orc_tools =
  ot_home :: string
  ot_inspect :: string
  ot_verify :: "string option"
  ot_provision_script :: "string option"
  ot_pmtiles_cli :: "string option"

definition path_join :: "string \<Rightarrow> string \<Rightarrow> string" where
  "path_join a b = a @ ''/'' @ b"

definition path_name :: "string \<Rightarrow> string" where
  "path_name p = rev (takeWhile (\<lambda>c. c \<noteq> CHR ''/'') (rev p))"

definition path_parent :: "string \<Rightarrow> string" where
  "path_parent p = rev (drop 1 (dropWhile (\<lambda>c. c \<noteq> CHR ''/'') (rev p)))"

definition with_name :: "string \<Rightarrow> string \<Rightarrow> string" where
  "with_name p name = path_join (path_parent p) name"

fun dedup_paths :: "string list \<Rightarrow> string list \<Rightarrow> string list" where
  "dedup_paths seen [] = []"
| "dedup_paths seen (p # ps) =
     (if p \<in> set seen then dedup_paths seen ps else p # dedup_paths (p # seen) ps)"

text \<open>What the process knows: environment variables, the checkout beside its own, the home directory,
  which paths are files and directories, and the sorted matches of a glob.\<close>

record host =
  ho_env :: "string \<Rightarrow> string option"
  ho_sibling :: string
  ho_home :: string
  ho_is_file :: "string \<Rightarrow> bool"
  ho_is_dir :: "string \<Rightarrow> bool"
  ho_glob :: "string \<Rightarrow> string \<Rightarrow> string list"

definition candidate_homes :: "host \<Rightarrow> string option \<Rightarrow> string list" where
  "candidate_homes h explicit =
     dedup_paths []
       ((case explicit of None \<Rightarrow> [] | Some p \<Rightarrow> [p])
        @ List.map_filter (\<lambda>v. if truthy_str (ho_env h v) then ho_env h v else None)
            [''ORCMESH_ORCMAPS_HOME'', ''ORCMAPS_HOME'']
        @ [path_join (ho_sibling h) ''OrcMaps'', path_join (ho_home h) ''OrcMaps'', ''F:/Ai/OrcMaps''])"

definition BUILD_DIRS :: "(string \<times> string) list" where
  "BUILD_DIRS = [(''orcmap_pack_inspect'', ''build-pack-inspect''),
     (''orcmap_pack_verify'', ''build-pack-verify'')]"

definition build_paths :: "string \<Rightarrow> string \<Rightarrow> string list" where
  "build_paths home name =
     (let dir = path_join home (case map_of BUILD_DIRS name of
                  Some d \<Rightarrow> d | None \<Rightarrow> ''build-'' @ replace_str ''_'' ''-'' name)
      in [path_join (path_join dir ''Release'') (name @ ''.exe''), path_join dir (name @ ''.exe''),
          path_join (path_join dir ''Release'') name, path_join dir name])"

definition find_exe :: "host \<Rightarrow> string \<Rightarrow> string \<Rightarrow> string option" where
  "find_exe h home name = find (ho_is_file h) (build_paths home name)"

definition find_script :: "host \<Rightarrow> string \<Rightarrow> string \<Rightarrow> string option" where
  "find_script h home name =
     (let script = path_join (path_join (path_join home ''tools'') ''pack-builder'') name
      in if ho_is_file h script then Some script else None)"

definition find_pmtiles_cli :: "host \<Rightarrow> string \<Rightarrow> string option" where
  "find_pmtiles_cli h home =
     (let root = path_join (path_join (path_join (path_join home ''data'') ''local'') ''tools'')
                   ''go-pmtiles'';
          matches = ho_glob h root ''*/pmtiles.exe'' @ ho_glob h root ''*/pmtiles''
      in if \<not> ho_is_dir h root then None
         else if matches = [] then None else Some (last matches))"

fun probe_homes :: "host \<Rightarrow> string list \<Rightarrow> orc_tools option" where
  "probe_homes h [] = None"
| "probe_homes h (home # homes) =
     (case find_exe h home ''orcmap_pack_inspect'' of
        None \<Rightarrow> probe_homes h homes
      | Some inspect \<Rightarrow>
          Some \<lparr>ot_home = home, ot_inspect = inspect,
             ot_verify = find_exe h home ''orcmap_pack_verify'',
             ot_provision_script = find_script h home ''provision_pack.py'',
             ot_pmtiles_cli = find_pmtiles_cli h home\<rparr>)"

definition find_tools :: "host \<Rightarrow> string option \<Rightarrow> orc_tools option" where
  "find_tools h home =
     (case ho_env h ''ORCMESH_ORCMAP_INSPECT'' of
        Some exe \<Rightarrow>
          if exe \<noteq> [] \<and> ho_is_file h exe
          then (let sidecar = with_name exe ''orcmap_pack_verify.exe''
                in Some \<lparr>ot_home = path_parent exe, ot_inspect = exe,
                     ot_verify = (if ho_is_file h sidecar then Some sidecar else None),
                     ot_provision_script = None, ot_pmtiles_cli = None\<rparr>)
          else probe_homes h (candidate_homes h home)
      | None \<Rightarrow> probe_homes h (candidate_homes h home))"

section \<open>Packs\<close>

type_synonym bounds = "pyfloat \<times> pyfloat \<times> pyfloat \<times> pyfloat"

record orc_pack =
  op_stem :: string
  op_pmtiles :: string
  op_manifest :: string
  op_sha256 :: "string option"
  op_display_name :: string
  op_region_name :: string
  op_min_zoom :: int
  op_max_zoom :: int
  op_pack_class :: string
  op_pack_version :: string
  op_schema_version :: string
  op_content_profile :: string
  op_attribution :: "string list"
  op_attribution_links :: "string list"
  op_bounds :: "bounds option"
  op_size_bytes :: "int option"
  op_output_sha256 :: pyval
  op_priority :: int

definition pack_attribution_text :: "orc_pack \<Rightarrow> string" where
  "pack_attribution_text p = join_with middot (op_attribution p)"

definition pack_zoom_label :: "orc_pack \<Rightarrow> string" where
  "pack_zoom_label p = ''z'' @ show_int (op_min_zoom p) @ ''-'' @ show_int (op_max_zoom p)"

text \<open>\<open>edge_lat z y\<close> is the latitude of the upper edge of row \<open>y\<close>.\<close>

type_synonym edge_lat = "nat \<Rightarrow> int \<Rightarrow> pyfloat"

definition tile_bounds_deg :: "edge_lat \<Rightarrow> nat \<Rightarrow> int \<Rightarrow> int \<Rightarrow> bounds" where
  "tile_bounds_deg edge z x y =
     (let n = 2 ^ z
      in (of_int x / n * 360 - 180, edge z (y + 1), of_int (x + 1) / n * 360 - 180, edge z y))"

definition pack_covers :: "edge_lat \<Rightarrow> orc_pack \<Rightarrow> nat \<Rightarrow> int \<Rightarrow> int \<Rightarrow> bool" where
  "pack_covers edge p z x y =
     (if \<not> (op_min_zoom p \<le> int z \<and> int z \<le> op_max_zoom p) then False
      else case op_bounds p of
        None \<Rightarrow> True
      | Some (min_lon, min_lat, max_lon, max_lat) \<Rightarrow>
          (case tile_bounds_deg edge z x y of (west, south, east, north) \<Rightarrow>
             \<not> (east < min_lon \<or> west > max_lon \<or> north < min_lat \<or> south > max_lat)))"

definition pack_contains :: "edge_lat \<Rightarrow> orc_pack \<Rightarrow> nat \<Rightarrow> int \<Rightarrow> int \<Rightarrow> bool" where
  "pack_contains edge p z x y =
     (if \<not> (op_min_zoom p \<le> int z \<and> int z \<le> op_max_zoom p) then False
      else case op_bounds p of
        None \<Rightarrow> False
      | Some (min_lon, min_lat, max_lon, max_lat) \<Rightarrow>
          (case tile_bounds_deg edge z x y of (west, south, east, north) \<Rightarrow>
             west \<ge> min_lon \<and> east \<le> max_lon \<and> south \<ge> min_lat \<and> north \<le> max_lat))"

section \<open>Attribution\<close>

text \<open>\<open>html.escape(s, quote=True)\<close>, also its default.\<close>

definition escape_char :: "char \<Rightarrow> string" where
  "escape_char c =
     (if c = CHR ''&'' then ''&amp;'' else if c = CHR ''<'' then ''&lt;''
      else if c = CHR ''>'' then ''&gt;'' else if c = CHR 0x22 then ''&quot;''
      else if c = CHR 0x27 then ''&#x27;'' else [c])"

definition escape :: "string \<Rightarrow> string" where
  "escape s = concat (map escape_char s)"

definition link_html :: "string \<Rightarrow> string \<Rightarrow> string" where
  "link_html url netloc =
     ''<a href='' @ dq @ escape url @ dq @ '' target='' @ dq @ ''_blank'' @ dq @ '' rel='' @ dq
       @ ''noopener'' @ dq @ ''>'' @ escape netloc @ ''</a>''"

text \<open>\<open>split url\<close> is the scheme and the network location.\<close>

definition is_web_link :: "(string \<Rightarrow> string \<times> string) \<Rightarrow> string \<Rightarrow> bool" where
  "is_web_link split url =
     (fst (split url) \<in> {''http'', ''https''} \<and> snd (split url) \<noteq> [])"

definition render_attribution ::
    "(string \<Rightarrow> string \<times> string) \<Rightarrow> string list \<Rightarrow> string list \<Rightarrow> string" where
  "render_attribution split texts urls =
     (let escaped = map escape texts @ map escape (filter (\<lambda>u. \<not> is_web_link split u) urls);
          links = map (\<lambda>u. link_html u (snd (split u))) (filter (is_web_link split) urls);
          text = join_with middot escaped
      in if links = [] then text
         else (let joined = join_with '', '' links
               in if text \<noteq> [] then text @ '' ('' @ joined @ '')'' else joined))"

definition attribution_html :: "(string \<Rightarrow> string \<times> string) \<Rightarrow> orc_pack \<Rightarrow> string" where
  "attribution_html split p = render_attribution split (op_attribution p) (op_attribution_links p)"

fun add_unique :: "'a list \<Rightarrow> 'a list \<Rightarrow> 'a list" where
  "add_unique acc [] = acc"
| "add_unique acc (x # xs) = add_unique (if x \<in> set acc then acc else acc @ [x]) xs"

definition attribution_html_for :: "(string \<Rightarrow> string \<times> string) \<Rightarrow> orc_pack list \<Rightarrow> string" where
  "attribution_html_for split packs =
     render_attribution split (fold (\<lambda>p acc. add_unique acc (op_attribution p)) packs [])
       (fold (\<lambda>p acc. add_unique acc (op_attribution_links p)) packs [])"

section \<open>Discovery\<close>

text \<open>A file of a pack directory, as the loader sees it; \<open>pf_json\<close> is \<open>None\<close> when the text cannot be
  read or parsed.\<close>

record pack_file =
  pf_path :: string
  pf_is_file :: bool
  pf_size :: nat
  pf_json :: "pyval option"

definition MAX_MANIFEST_BYTES :: nat where "MAX_MANIFEST_BYTES = 64 * 1024"

definition manifest_suffix :: string where "manifest_suffix = ''.manifest.json''"

definition bounds_of :: "(string \<Rightarrow> pyfloat option) \<Rightarrow> pydict \<Rightarrow> bounds option" where
  "bounds_of float_of raw =
     (case sub_dict (dict_get raw ''bounds'') of
        None \<Rightarrow> None
      | Some b \<Rightarrow>
          do {
            w \<leftarrow> py_float float_of (dict_get b ''min_lon'');
            s \<leftarrow> py_float float_of (dict_get b ''min_lat'');
            e \<leftarrow> py_float float_of (dict_get b ''max_lon'');
            n \<leftarrow> py_float float_of (dict_get b ''max_lat'');
            Some (w, s, e, n)
          })"

definition zoom_of :: "pydict \<Rightarrow> string \<Rightarrow> int \<Rightarrow> int" where
  "zoom_of raw key dflt =
     (case map_of raw key of
        None \<Rightarrow> dflt
      | Some (PInt i) \<Rightarrow> i
      | Some (PBool b) \<Rightarrow> (if b then 1 else 0)
      | Some (PFloat r) \<Rightarrow> (if r < 0 then \<lceil>r\<rceil> else \<lfloor>r\<rfloor>)
      | Some (PStr s) \<Rightarrow> (case parse_int s of Some i \<Rightarrow> i | None \<Rightarrow> dflt)
      | Some _ \<Rightarrow> dflt)"

definition int_or_none :: "pyval \<Rightarrow> int option" where
  "int_or_none v = (case v of PInt i \<Rightarrow> Some i | PBool b \<Rightarrow> Some (if b then 1 else 0) | _ \<Rightarrow> None)"

definition str_or :: "pydict \<Rightarrow> string \<Rightarrow> string \<Rightarrow> string" where
  "str_or raw key dflt =
     (let v = dict_get raw key in if py_truthy v then py_str v else dflt)"

text \<open>\<open>tuple(str(a) for a in (raw.get(key) or []))\<close>: iterating a number raises, which nothing
  catches (\<open>None\<close>).\<close>

definition str_tuple :: "pydict \<Rightarrow> string \<Rightarrow> string list option" where
  "str_tuple raw key =
     (let v = dict_get raw key
      in if \<not> py_truthy v then Some []
         else case v of
           PList l \<Rightarrow> Some (map py_str l)
         | PDict d \<Rightarrow> Some (map fst d)
         | PStr s \<Rightarrow> Some (map (\<lambda>c. [c]) s)
         | _ \<Rightarrow> None)"

datatype load_error = NotIterable

definition load_pack ::
    "(string \<Rightarrow> pyfloat option) \<Rightarrow> (string \<Rightarrow> bool) \<Rightarrow> pack_file \<Rightarrow> load_error + orc_pack option" where
  "load_pack float_of is_file f =
     (if pf_size f > MAX_MANIFEST_BYTES then Inr None
      else case pf_json f of
        Some (PDict raw) \<Rightarrow>
          (let name = path_name (pf_path f);
               stem = take (length name - length manifest_suffix) name;
               pmtiles = with_name (pf_path f) (stem @ ''.pmtiles'');
               sidecar = with_name (pf_path f) (stem @ ''.sha256'')
           in if \<not> is_file pmtiles then Inr None
              else case (str_tuple raw ''required_attribution'', str_tuple raw ''attribution_links'') of
                (Some attribution, Some links) \<Rightarrow>
                  Inr (Some \<lparr>op_stem = stem, op_pmtiles = pmtiles, op_manifest = pf_path f,
                    op_sha256 = (if is_file sidecar then Some sidecar else None),
                    op_display_name = str_or raw ''display_name'' stem,
                    op_region_name = str_or raw ''region_name'' [],
                    op_min_zoom = zoom_of raw ''min_zoom'' 0,
                    op_max_zoom = zoom_of raw ''max_zoom'' 0,
                    op_pack_class = str_or raw ''pack_class'' ''unknown'',
                    op_pack_version = str_or raw ''pack_version'' [],
                    op_schema_version = str_or raw ''schema_version'' [],
                    op_content_profile = str_or raw ''content_profile'' [],
                    op_attribution = attribution, op_attribution_links = links,
                    op_bounds = bounds_of float_of raw,
                    op_size_bytes = int_or_none (dict_get raw ''size_bytes''),
                    op_output_sha256 = (let v = dict_get raw ''output_sha256''
                                        in if py_truthy v then v else PNone),
                    op_priority = (case int_or_none (dict_get raw ''priority'') of
                                     Some i \<Rightarrow> i | None \<Rightarrow> 0)\<rparr>)
              | _ \<Rightarrow> Inl NotIterable)
      | _ \<Rightarrow> Inr None)"

fun load_all ::
    "(string \<Rightarrow> pyfloat option) \<Rightarrow> (string \<Rightarrow> bool) \<Rightarrow> pack_file list \<Rightarrow> load_error + orc_pack list" where
  "load_all float_of is_file [] = Inr []"
| "load_all float_of is_file (f # fs) =
     (if pf_is_file f \<and> ends_with manifest_suffix (path_name (pf_path f))
      then case load_pack float_of is_file f of
             Inl e \<Rightarrow> Inl e
           | Inr p \<Rightarrow>
               (case load_all float_of is_file fs of
                  Inl e \<Rightarrow> Inl e
                | Inr ps \<Rightarrow> Inr (case p of None \<Rightarrow> ps | Some q \<Rightarrow> q # ps))
      else load_all float_of is_file fs)"

text \<open>The sorted entries of each readable directory, one after the other.\<close>

definition discover_packs ::
    "(string \<Rightarrow> pyfloat option) \<Rightarrow> (string \<Rightarrow> bool) \<Rightarrow> pack_file list option list
      \<Rightarrow> load_error + orc_pack list" where
  "discover_packs float_of is_file directories =
     (case load_all float_of is_file
             (concat (map (\<lambda>d. case d of None \<Rightarrow> [] | Some es \<Rightarrow> sort_key pf_path es) directories)) of
        Inl e \<Rightarrow> Inl e
      | Inr ps \<Rightarrow> Inr (sort_key (\<lambda>p. (- op_priority p, - op_max_zoom p, lower (op_display_name p))) ps))"

definition default_pack_directories :: "host \<Rightarrow> orc_tools option \<Rightarrow> string list" where
  "default_pack_directories h tools =
     (if truthy_str (ho_env h ''ORCMESH_PACK_DIR'') then [the (ho_env h ''ORCMESH_PACK_DIR'')] else [])
     @ (case tools of None \<Rightarrow> []
        | Some t \<Rightarrow> [path_join (path_join (ot_home t) ''data'') ''local''])"

section \<open>Images\<close>

definition byte_space :: "char \<Rightarrow> bool" where
  "byte_space c \<longleftrightarrow> (let k = (of_char c :: nat) in k = 32 \<or> (9 \<le> k \<and> k \<le> 13))"

text \<open>The numbers of a PPM header: blanks and comments are skipped before each.  The argument is how
  many are still to be read and the unread bytes; \<open>None\<close> is the malformed-header error.\<close>

function ppm_numbers :: "nat \<Rightarrow> string \<Rightarrow> (nat list \<times> string) option" where
  "ppm_numbers 0 s = Some ([], s)"
| "ppm_numbers (Suc n) s =
     (let rest = dropWhile byte_space s
      in if rest \<noteq> [] \<and> hd rest = CHR ''#''
         then ppm_numbers (Suc n) (dropWhile (\<lambda>c. c \<noteq> CHR 0x0A) rest)
         else (let digits = takeWhile is_digit rest
               in if digits = [] then None
                  else case ppm_numbers n (dropWhile is_digit rest) of
                    None \<Rightarrow> None
                  | Some (vs, s') \<Rightarrow> Some (nat_of_digits 0 digits # vs, s')))"
  by pat_completeness auto
termination
proof (relation "measures [fst, \<lambda>(n, s). length s]", goal_cases)
  case (2 n s rest)
  let ?p = "\<lambda>c. c \<noteq> CHR 0x0A"
  have "rest \<noteq> []" "hd rest = CHR ''#''" using 2(2) by blast+
  then obtain cs where cs: "rest = CHR ''#'' # cs" by (metis list.collapse)
  then have "length (dropWhile ?p rest) \<le> length cs" by (simp add: length_dropWhile_le)
  moreover have "length rest \<le> length s" using 2(1) by (simp add: length_dropWhile_le)
  ultimately show ?case using cs by simp
qed auto

datatype ppm_error = NotBinaryPpm | MalformedHeader | UnsupportedMaxval nat | TruncatedPpm

definition parse_ppm_p6 :: "string \<Rightarrow> ppm_error + (nat \<times> nat \<times> string)" where
  "parse_ppm_p6 data =
     (if \<not> starts_with ''P6'' data then Inl NotBinaryPpm
      else case ppm_numbers 3 (drop 2 data) of
        Some ([width, height, maxval], rest) \<Rightarrow>
          (if maxval \<noteq> 255 then Inl (UnsupportedMaxval maxval)
           else (let expected = width * height * 3; pixels = take expected (drop 1 rest)
                 in if width = 0 \<or> height = 0 \<or> length pixels \<noteq> expected then Inl TruncatedPpm
                    else Inr (width, height, pixels)))
      | _ \<Rightarrow> Inl MalformedHeader)"

text \<open>\<open>struct.pack(">I", n)\<close> for \<open>n < 2 ^ 32\<close>; beyond that it raises, and no image or chunk that fits in memory
  is that large.\<close>

definition be32 :: "nat \<Rightarrow> string" where
  "be32 n = map char_of [n div 16777216 mod 256, n div 65536 mod 256, n div 256 mod 256, n mod 256]"

record zlib =
  zl_crc32 :: "string \<Rightarrow> nat"
  zl_compress :: "string \<Rightarrow> string"

definition png_chunk :: "zlib \<Rightarrow> string \<Rightarrow> string \<Rightarrow> string" where
  "png_chunk z tag payload =
     be32 (length payload) @ tag @ payload @ be32 (zl_crc32 z (tag @ payload))"

definition png_signature :: string where
  "png_signature = [CHR 0x89] @ ''PNG'' @ [CHR 0x0D, CHR 0x0A, CHR 0x1A, CHR 0x0A]"

definition scanlines :: "nat \<Rightarrow> nat \<Rightarrow> string \<Rightarrow> string" where
  "scanlines stride height pixels =
     concat (map (\<lambda>row. CHR 0x00 # take stride (drop (row * stride) pixels)) [0..<height])"

definition png_of :: "zlib \<Rightarrow> nat \<times> nat \<times> string \<Rightarrow> string" where
  "png_of z raster =
     (case raster of (width, height, pixels) \<Rightarrow>
        png_signature
        @ png_chunk z ''IHDR'' (be32 width @ be32 height @ map char_of [8, 2, 0, 0, 0 :: nat])
        @ png_chunk z ''IDAT'' (zl_compress z (scanlines (width * 3) height pixels))
        @ png_chunk z ''IEND'' [])"

definition ppm_to_png :: "zlib \<Rightarrow> string \<Rightarrow> ppm_error + string" where
  "ppm_to_png z ppm =
     (case parse_ppm_p6 ppm of Inl e \<Rightarrow> Inl e | Inr raster \<Rightarrow> Inr (png_of z raster))"

definition is_empty_render :: "string \<Rightarrow> bool" where
  "is_empty_render ppm =
     (case parse_ppm_p6 ppm of
        Inl e \<Rightarrow> False
      | Inr (width, height, data) \<Rightarrow>
          (let pixels = width * height
           in if pixels = 0 \<or> length data < 3 then False
              else take (pixels * 3) data = concat (replicate pixels (take 3 data))))"

section \<open>Rendering\<close>

datatype orc_error =
    ToolFailed string
  | PpmError ppm_error
  | NoPackCovers nat int int
  | NoPackRendered nat int int
  | DoesNotCover string nat int int
  | Refused string

text \<open>The outcome of one run of the inspect tool: the image file it wrote, or why there is none.\<close>

type_synonym render_tool = "orc_pack \<Rightarrow> nat \<Rightarrow> int \<Rightarrow> int \<Rightarrow> nat \<Rightarrow> string option \<Rightarrow> string + string"

definition render_ppm ::
    "render_tool \<Rightarrow> orc_pack \<Rightarrow> nat \<Rightarrow> int \<Rightarrow> int \<Rightarrow> nat \<Rightarrow> string option \<Rightarrow> orc_error + string" where
  "render_ppm tool p z x y px style =
     (case tool p z x y px style of Inl e \<Rightarrow> Inl (ToolFailed e) | Inr ppm \<Rightarrow> Inr ppm)"

definition to_png :: "zlib \<Rightarrow> string \<Rightarrow> orc_error + string" where
  "to_png zl ppm = (case ppm_to_png zl ppm of Inl e \<Rightarrow> Inl (PpmError e) | Inr png \<Rightarrow> Inr png)"

definition render_tile ::
    "edge_lat \<Rightarrow> render_tool \<Rightarrow> zlib \<Rightarrow> orc_pack \<Rightarrow> nat \<Rightarrow> int \<Rightarrow> int \<Rightarrow> nat \<Rightarrow> string option
      \<Rightarrow> orc_error + string" where
  "render_tile edge tool zl p z x y px style =
     (if \<not> pack_covers edge p z x y then Inl (DoesNotCover (op_display_name p) z x y)
      else case render_ppm tool p z x y px style of
        Inl e \<Rightarrow> Inl e
      | Inr ppm \<Rightarrow> to_png zl ppm)"

section \<open>Pack management\<close>

definition name_char :: "char \<Rightarrow> bool" where
  "name_char c \<longleftrightarrow> is_alpha c \<or> is_digit c \<or> c = CHR ''.'' \<or> c = CHR ''-''"

definition valid_pack_name :: "string \<Rightarrow> bool" where
  "valid_pack_name name \<longleftrightarrow> name \<noteq> [] \<and> list_all name_char name"

definition device_pack_dir :: "string \<Rightarrow> string" where
  "device_pack_dir card_root = path_join card_root ''orcmaps''"

definition resolve_pack_directory :: "host \<Rightarrow> string \<Rightarrow> string" where
  "resolve_pack_directory h path =
     (let nested = path_join path ''orcmaps'' in if ho_is_dir h nested then nested else path)"

text \<open>The result of a child process: it could not be started or timed out, or its exit status and
  output.\<close>

type_synonym process = "string + int \<times> string"

definition is_commit :: "string \<Rightarrow> bool" where
  "is_commit s \<longleftrightarrow> length s = 40 \<and>
     list_all (\<lambda>c. is_digit c \<or> c \<in> set ''abcdef'') s"

definition checkout_commit :: "process \<Rightarrow> string" where
  "checkout_commit git =
     (case git of
        Inl e \<Rightarrow> []
      | Inr (code, out) \<Rightarrow>
          (let commit = strip out in if code \<noteq> 0 \<or> \<not> is_commit commit then [] else commit))"

record pin_pack_request =
  pp_source_manifest :: string
  pp_lat :: pyfloat
  pp_lon :: pyfloat
  pp_radius_km :: pyfloat
  pp_name :: string
  pp_display_name :: string
  pp_card_root :: "string option"
  pp_min_zoom :: int
  pp_max_zoom :: int
  pp_priority :: int
  pp_dry_run :: bool
  pp_force :: bool

definition verify_directory ::
    "host \<Rightarrow> orc_tools \<Rightarrow> string \<Rightarrow> (string list \<Rightarrow> process) \<Rightarrow> orc_error + bool \<times> string" where
  "verify_directory h tools directory run =
     (case ot_verify tools of
        None \<Rightarrow> Inl (Refused ''orcmap_pack_verify has not been built'')
      | Some exe \<Rightarrow>
          (case run [exe, resolve_pack_directory h directory] of
             Inl e \<Rightarrow> Inl (ToolFailed e)
           | Inr (code, output) \<Rightarrow> Inr (code = 0, strip output)))"

text \<open>Output lines as they stream in: line ends removed, blank lines dropped.\<close>

definition stream_lines :: "string list \<Rightarrow> string list" where
  "stream_lines raw =
     filter (\<lambda>l. strip l \<noteq> [])
       (map (\<lambda>l. rev (dropWhile (\<lambda>c. c = CHR 0x0D \<or> c = CHR 0x0A) (rev l))) raw)"

text \<open>\<open>fixed6\<close> and \<open>general\<close> are the number formats \<open>.6f\<close> and \<open>g\<close>.\<close>

definition provision_argv ::
    "(pyfloat \<Rightarrow> string) \<Rightarrow> (pyfloat \<Rightarrow> string) \<Rightarrow> string \<Rightarrow> orc_tools \<Rightarrow> pin_pack_request \<Rightarrow> string
      \<Rightarrow> orc_error + string list" where
  "provision_argv fixed6 general python tools req commit =
     (case ot_provision_script tools of
        None \<Rightarrow> Inl (Refused ''provision_pack.py was not found'')
      | Some script \<Rightarrow>
          (case pp_card_root req of
             None \<Rightarrow> Inl (Refused ''A card root is required to stage a pack'')
           | Some card_root \<Rightarrow>
               if \<not> valid_pack_name (pp_name req) then Inl (Refused (pp_name req))
               else if commit = [] then Inl (Refused ''Could not read the OrcMaps commit'')
               else Inr ([python, script, ''--source-manifest'', pp_source_manifest req,
                    ''--lat'', fixed6 (pp_lat req), ''--lon'', fixed6 (pp_lon req),
                    ''--radius-km'', general (pp_radius_km req), ''--name'', pp_name req,
                    ''--sd-root'', card_root, ''--min-zoom'', show_int (pp_min_zoom req),
                    ''--max-zoom'', show_int (pp_max_zoom req),
                    ''--priority'', show_int (pp_priority req), ''--builder-commit'', commit]
                  @ (if pp_display_name req \<noteq> [] then [''--display-name'', pp_display_name req] else [])
                  @ (case ot_pmtiles_cli tools of None \<Rightarrow> [] | Some c \<Rightarrow> [''--pmtiles-cli'', c])
                  @ (if pp_dry_run req then [''--dry-run''] else [])
                  @ (if pp_force req then [''--force''] else []))))"

definition provision_pin_pack ::
    "(pyfloat \<Rightarrow> string) \<Rightarrow> (pyfloat \<Rightarrow> string) \<Rightarrow> string \<Rightarrow> orc_tools \<Rightarrow> pin_pack_request
      \<Rightarrow> process \<Rightarrow> (string list \<Rightarrow> string + int \<times> string list) \<Rightarrow> orc_error + bool \<times> string" where
  "provision_pin_pack fixed6 general python tools req git run =
     (case provision_argv fixed6 general python tools req (checkout_commit git) of
        Inl e \<Rightarrow> Inl e
      | Inr argv \<Rightarrow>
          (case run argv of
             Inl e \<Rightarrow> Inl (ToolFailed e)
           | Inr (code, raw) \<Rightarrow> Inr (code = 0, join_with [CHR 0x0A] (stream_lines raw))))"

section \<open>The tile cache\<close>

type_synonym tile_key = "string \<times> nat \<times> int \<times> int \<times> nat \<times> string option"

text \<open>What is cached: an image, or the decision that the pack has nothing there (\<open>_NO_DATA\<close>, the empty
  bytes object).\<close>

datatype tile = NoData | Png string

record tile_cache =
  tc_capacity :: nat
  tc_entries :: "(tile_key \<times> tile) list"
  tc_hits :: nat
  tc_misses :: nat

definition tile_cache_new :: "int \<Rightarrow> tile_cache" where
  "tile_cache_new capacity =
     \<lparr>tc_capacity = nat (max 1 capacity), tc_entries = [], tc_hits = 0, tc_misses = 0\<rparr>"

definition cache_get :: "tile_key \<Rightarrow> tile_cache \<Rightarrow> tile option \<times> tile_cache" where
  "cache_get key c =
     (case map_of (tc_entries c) key of
        None \<Rightarrow> (None, c\<lparr>tc_misses := tc_misses c + 1\<rparr>)
      | Some v \<Rightarrow> (Some v, c\<lparr>tc_entries := move_to_end key (tc_entries c), tc_hits := tc_hits c + 1\<rparr>))"

definition cache_put :: "tile_key \<Rightarrow> tile \<Rightarrow> tile_cache \<Rightarrow> tile_cache" where
  "cache_put key v c =
     (let es = move_to_end key (odict_put key v (tc_entries c))
      in c\<lparr>tc_entries := drop (length es - tc_capacity c) es\<rparr>)"

definition cache_clear :: "tile_cache \<Rightarrow> tile_cache" where
  "cache_clear c = c\<lparr>tc_entries := []\<rparr>"

definition cache_stats :: "tile_cache \<Rightarrow> nat \<times> nat \<times> nat \<times> nat" where
  "cache_stats c = (length (tc_entries c), tc_capacity c, tc_hits c, tc_misses c)"

section \<open>The tile server\<close>

record tile_server =
  ts_packs :: "orc_pack list"
  ts_style :: "string option"
  ts_size :: nat
  ts_cache :: tile_cache

definition tile_server_new :: "orc_pack list \<Rightarrow> string option \<Rightarrow> nat \<Rightarrow> int \<Rightarrow> orc_error + tile_server" where
  "tile_server_new packs style px capacity =
     (if packs = [] then Inl (Refused ''No OrcMaps packs to serve'')
      else Inr \<lparr>ts_packs = packs, ts_style = style, ts_size = px,
             ts_cache = tile_cache_new capacity\<rparr>)"

definition set_style :: "string option \<Rightarrow> tile_server \<Rightarrow> tile_server" where
  "set_style style s =
     (if style \<noteq> ts_style s then s\<lparr>ts_style := style, ts_cache := cache_clear (ts_cache s)\<rparr> else s)"

definition pack_for :: "edge_lat \<Rightarrow> orc_pack list \<Rightarrow> nat \<Rightarrow> int \<Rightarrow> int \<Rightarrow> orc_pack option" where
  "pack_for edge packs z x y =
     (case find (\<lambda>p. pack_contains edge p z x y) packs of
        Some p \<Rightarrow> Some p
      | None \<Rightarrow> find (\<lambda>p. pack_covers edge p z x y) packs)"

definition packs_for :: "edge_lat \<Rightarrow> orc_pack list \<Rightarrow> nat \<Rightarrow> int \<Rightarrow> int \<Rightarrow> orc_pack list" where
  "packs_for edge packs z x y =
     (let containing = filter (\<lambda>p. pack_contains edge p z x y) packs;
          overlapping = filter (\<lambda>p. p \<notin> set containing \<and> pack_covers edge p z x y) packs
      in containing @ overlapping)"

text \<open>The loop over the candidates.\<close>

fun render_from ::
    "render_tool \<Rightarrow> zlib \<Rightarrow> nat \<Rightarrow> string option \<Rightarrow> nat \<Rightarrow> int \<Rightarrow> int \<Rightarrow> orc_pack list \<Rightarrow> tile_cache
      \<Rightarrow> (orc_error + string) \<times> tile_cache" where
  "render_from tool zl px style z x y [] c = (Inl (NoPackRendered z x y), c)"
| "render_from tool zl px style z x y (p # ps) c =
     (let key = (op_stem p, z, x, y, px, style);
          (cached, c1) = cache_get key c
      in case cached of
           Some NoData \<Rightarrow> render_from tool zl px style z x y ps c1
         | Some (Png png) \<Rightarrow> (Inr png, c1)
         | None \<Rightarrow>
             (case render_ppm tool p z x y px style of
                Inl e \<Rightarrow> (Inl e, c1)
              | Inr ppm \<Rightarrow>
                  if ps = [] \<or> \<not> is_empty_render ppm
                  then (case to_png zl ppm of
                          Inl e \<Rightarrow> (Inl e, c1)
                        | Inr png \<Rightarrow> (Inr png, cache_put key (Png png) c1))
                  else render_from tool zl px style z x y ps (cache_put key NoData c1)))"

definition server_render ::
    "edge_lat \<Rightarrow> render_tool \<Rightarrow> zlib \<Rightarrow> nat \<Rightarrow> int \<Rightarrow> int \<Rightarrow> tile_server
      \<Rightarrow> (orc_error + string) \<times> tile_server" where
  "server_render edge tool zl z x y s =
     (let candidates = packs_for edge (ts_packs s) z x y
      in if candidates = [] then (Inl (NoPackCovers z x y), s)
         else (case render_from tool zl (ts_size s) (ts_style s) z x y candidates (ts_cache s) of
                 (r, c) \<Rightarrow> (r, s\<lparr>ts_cache := c\<rparr>)))"

text \<open>The HTTP handler; the argument is the path of the request target.\<close>

datatype response = Json | SendError nat string | Image string

definition says_no_pack_covers :: "orc_error \<Rightarrow> bool" where
  "says_no_pack_covers e =
     (case e of NoPackCovers _ _ _ \<Rightarrow> True | ToolFailed m \<Rightarrow> contains ''No pack covers'' m | _ \<Rightarrow> False)"

definition slash_strip :: "string \<Rightarrow> string" where
  "slash_strip s = rev (dropWhile (\<lambda>c. c = CHR ''/'') (rev (dropWhile (\<lambda>c. c = CHR ''/'') s)))"

definition do_GET ::
    "edge_lat \<Rightarrow> render_tool \<Rightarrow> zlib \<Rightarrow> string \<Rightarrow> tile_server \<Rightarrow> response \<times> tile_server" where
  "do_GET edge tool zl path s =
     (if path = ''/status'' then (Json, s)
      else case split_on (CHR ''/'') (slash_strip path) of
        [p0, p1, p2, p3] \<Rightarrow>
          if p0 \<noteq> ''tiles'' \<or> \<not> ends_with ''.png'' p3 then (SendError 404 ''Not found'', s)
          else
            (case (parse_int p1, parse_int p2, parse_int (take (length p3 - 4) p3)) of
               (Some z, Some x, Some y) \<Rightarrow>
                 if z < 0 \<or> z > 31 \<or> \<not> (0 \<le> x \<and> x < 2 ^ nat z) \<or> \<not> (0 \<le> y \<and> y < 2 ^ nat z)
                 then (SendError 404 ''Tile out of range'', s)
                 else (case server_render edge tool zl (nat z) x y s of
                         (Inr png, s') \<Rightarrow> (Image png, s')
                       | (Inl e, s') \<Rightarrow>
                           (if says_no_pack_covers e
                            then SendError 404 ''No pack covers this tile''
                            else SendError 500 ''Tile render failed'', s'))
             | _ \<Rightarrow> (SendError 400 ''Bad tile coordinates'', s))
      | _ \<Rightarrow> (SendError 404 ''Not found'', s))"

section \<open>Facts on packs and attribution\<close>

lemma find_filter: "find P xs = (case filter P xs of [] \<Rightarrow> None | x # _ \<Rightarrow> Some x)"
  by (induction xs) auto

text \<open>The two ways the server resolves a tile agree: the pack \<open>pack_for\<close> names is the first
  candidate of \<open>packs_for\<close>, and there is none exactly when there is no candidate.\<close>

theorem pack_for_is_first_candidate:
  "pack_for edge packs z x y = (case packs_for edge packs z x y of [] \<Rightarrow> None | p # _ \<Rightarrow> Some p)"
proof (cases "filter (\<lambda>p. pack_contains edge p z x y) packs")
  case Nil
  then show ?thesis by (simp add: pack_for_def packs_for_def find_filter)
next
  case (Cons p ps)
  then show ?thesis by (simp add: pack_for_def packs_for_def find_filter)
qed

lemma packs_for_distinct: "distinct packs \<Longrightarrow> distinct (packs_for edge packs z x y)"
  by (auto simp: packs_for_def Let_def)

lemma packs_for_subset: "set (packs_for edge packs z x y) \<subseteq> set packs"
  by (auto simp: packs_for_def Let_def)

lemma set_add_unique [simp]: "set (add_unique acc xs) = set acc \<union> set xs"
  by (induction acc xs rule: add_unique.induct) auto

lemma set_fold_add_unique:
  "set (fold (\<lambda>p acc. add_unique acc (f p)) ps acc) = set acc \<union> (\<Union>p \<in> set ps. set (f p))"
  by (induction ps arbitrary: acc) auto

lemma join_with_member: "x \<in> set xs \<Longrightarrow> \<exists>a b. join_with sep xs = a @ x @ b"
proof (cases xs)
  case (Cons w ws)
  assume "x \<in> set xs"
  with Cons consider "x = w" | "x \<in> set ws" by auto
  then show ?thesis
  proof cases
    case 1
    with Cons show ?thesis by (auto simp: join_with_def intro: exI [of _ "[]"])
  next
    case 2
    then obtain us vs where "ws = us @ x # vs" by (auto dest: split_list)
    with Cons have "join_with sep xs = (w @ concat (map (\<lambda>x. sep @ x) us) @ sep) @ x
        @ concat (map (\<lambda>x. sep @ x) vs)" by (simp add: join_with_def)
    then show ?thesis by blast
  qed
qed simp

text \<open>The licence obligation: whichever packs are served together, the attribution line shows every
  attribution text any of them requires, verbatim up to HTML escaping.\<close>

theorem attribution_complete:
  assumes "p \<in> set packs" "t \<in> set (op_attribution p)"
  shows "\<exists>before after. attribution_html_for split packs = before @ escape t @ after"
proof -
  let ?texts = "fold (\<lambda>p acc. add_unique acc (op_attribution p)) packs []"
  let ?urls = "fold (\<lambda>p acc. add_unique acc (op_attribution_links p)) packs []"
  let ?all = "map escape ?texts @ map escape (filter (\<lambda>u. \<not> is_web_link split u) ?urls)"
  have t: "escape t \<in> set ?all" using assms by (auto simp: set_fold_add_unique)
  obtain a b where ab: "join_with middot ?all = a @ escape t @ b"
    using join_with_member [OF t] by blast
  have r: "\<exists>suffix. attribution_html_for split packs = join_with middot ?all @ suffix"
    if "join_with middot ?all \<noteq> []"
    using that by (simp add: attribution_html_for_def render_attribution_def Let_def)
  show ?thesis
  proof (cases "escape t = []")
    case True
    then show ?thesis by auto
  next
    case False
    with ab r show ?thesis by (metis Nil_is_append_conv append.assoc)
  qed
qed

section \<open>Facts on images\<close>

lemma byte_space_not_digit: "byte_space c \<Longrightarrow> \<not> is_digit c"
  by (auto simp: byte_space_def is_digit_def Let_def)

lemma show_nat_hd: "show_nat n \<noteq> []" "c \<in> set (show_nat n) \<Longrightarrow> is_digit c"
  using show_nat_digits [of n] show_base_nonempty by (auto simp: show_nat_def list_all_iff)

lemma digit_facts: "is_digit c \<Longrightarrow> \<not> byte_space c \<and> c \<noteq> CHR ''#''"
  by (auto simp: byte_space_def is_digit_def Let_def)

declare ppm_numbers.simps [simp del]

lemma ppm_numbers_0 [simp]: "ppm_numbers 0 s = Some ([], s)"
  by (simp add: ppm_numbers.simps)

lemma ppm_number_step:
  assumes "byte_space b" "\<not> is_digit c"
  shows "ppm_numbers (Suc n) (b # show_nat v @ c # s) =
    (case ppm_numbers n (c # s) of None \<Rightarrow> None | Some (vs, r) \<Rightarrow> Some (v # vs, r))"
proof -
  obtain d ds where d: "show_nat v = d # ds" using show_nat_hd(1) by (cases "show_nat v") auto
  then have dd: "is_digit d" using show_nat_hd(2) [of d v] by simp
  have rest: "dropWhile byte_space (b # show_nat v @ c # s) = show_nat v @ c # s"
    using assms(1) digit_facts [OF dd] by (simp add: d)
  have all: "\<forall>x \<in> set (show_nat v). is_digit x" using show_nat_hd(2) by blast
  have tw: "takeWhile is_digit (show_nat v @ c # s) = show_nat v"
    "dropWhile is_digit (show_nat v @ c # s) = c # s"
    using all assms(2) by (simp_all add: takeWhile_append2 dropWhile_append2)
  have "\<not> (show_nat v @ c # s \<noteq> [] \<and> hd (show_nat v @ c # s) = CHR ''#'')"
    using digit_facts [OF dd] d by simp
  then show ?thesis
    by (subst ppm_numbers.simps)
      (simp only: rest Let_def tw if_False show_nat_hd(1) nat_of_digits_show_nat)
qed

definition ppm_of :: "nat \<Rightarrow> nat \<Rightarrow> string \<Rightarrow> string" where
  "ppm_of w h pixels = ''P6'' @ [CHR 0x0A] @ show_nat w @ '' '' @ show_nat h @ [CHR 0x0A]
     @ show_nat 255 @ [CHR 0x0A] @ pixels"

text \<open>The PPM reader inverts the writer's format: for every non-empty image, whatever its pixel
  bytes (blanks, digits and comment signs among them), the parse of its P6 encoding is the image.\<close>

theorem ppm_round_trip:
  assumes "0 < w" "0 < h" "length pixels = w * h * 3"
  shows "parse_ppm_p6 (ppm_of w h pixels) = Inr (w, h, pixels)"
proof -
  have b: "byte_space (CHR 0x0A)" "\<not> is_digit (CHR 0x0A)" "byte_space (CHR '' '')"
    "\<not> is_digit (CHR '' '')" by (simp_all add: byte_space_def is_digit_def)
  have three: "(3::nat) = Suc (Suc (Suc 0))" by simp
  have "ppm_numbers 3 (CHR 0x0A # show_nat w @ CHR '' '' # show_nat h @ CHR 0x0A
      # show_nat 255 @ CHR 0x0A # pixels) = Some ([w, h, 255], CHR 0x0A # pixels)"
    unfolding three by (simp add: ppm_number_step b)
  with assms show ?thesis by (simp add: parse_ppm_p6_def ppm_of_def)
qed

lemma png_not_empty: "to_png zl ppm = Inr png \<Longrightarrow> png \<noteq> []"
  by (auto simp: to_png_def ppm_to_png_def png_of_def png_signature_def split: sum.splits)

definition sample_pack :: "string \<Rightarrow> bounds option \<Rightarrow> orc_pack" where
  "sample_pack stem b =
     \<lparr>op_stem = stem, op_pmtiles = stem @ ''.pmtiles'', op_manifest = stem @ manifest_suffix,
      op_sha256 = None, op_display_name = stem, op_region_name = [], op_min_zoom = 0,
      op_max_zoom = 13, op_pack_class = ''unknown'', op_pack_version = [], op_schema_version = [],
      op_content_profile = [], op_attribution = [''A & B''], op_attribution_links = [],
      op_bounds = b, op_size_bytes = None, op_output_sha256 = PNone, op_priority = 0\<rparr>"

theorem attribution_complete_witness:
  "\<exists>before after. attribution_html_for (\<lambda>u. ([], [])) [sample_pack ''us'' None]
     = before @ ''A &amp; B'' @ after"
proof -
  have e: "escape ''A & B'' = ''A &amp; B''" by (simp add: escape_def escape_char_def)
  show ?thesis
    using attribution_complete [of "sample_pack ''us'' None" "[sample_pack ''us'' None]" "''A & B''"
        "\<lambda>u. ([], [])"] by (simp add: sample_pack_def e)
qed

theorem ppm_round_trip_witness:
  "parse_ppm_p6 (ppm_of 1 1 [CHR 0x0A, CHR ''#'', CHR ''7'']) = Inr (1, 1, [CHR 0x0A, CHR ''#'', CHR ''7''])"
  by (rule ppm_round_trip) simp_all

section \<open>The cache as an interface\<close>

text \<open>What a client may rely on: a lookup tells the truth, and storing adds at most the stored entry
  (it may forget any other).\<close>

locale memo_cache =
  fixes entries :: "'c \<Rightarrow> 'k \<Rightarrow> 'v option"
    and get :: "'k \<Rightarrow> 'c \<Rightarrow> 'v option \<times> 'c"
    and put :: "'k \<Rightarrow> 'v \<Rightarrow> 'c \<Rightarrow> 'c"
    and empty :: "'c \<Rightarrow> 'c"
    and ok :: "'c \<Rightarrow> bool"
  assumes get_value: "fst (get k c) = entries c k"
    and get_entries: "ok c \<Longrightarrow> entries (snd (get k c)) = entries c"
    and get_ok: "ok c \<Longrightarrow> ok (snd (get k c))"
    and put_entries: "ok c \<Longrightarrow> entries (put k v c) \<subseteq>\<^sub>m (entries c)(k \<mapsto> v)"
    and put_ok: "ok c \<Longrightarrow> ok (put k v c)"
    and empty_entries: "entries (empty c) k = None"
    and empty_ok: "ok c \<Longrightarrow> ok (empty c)"
begin

definition holds_only :: "('k \<Rightarrow> 'v \<Rightarrow> bool) \<Rightarrow> 'c \<Rightarrow> bool" where
  "holds_only Q c \<longleftrightarrow> ok c \<and> (\<forall>k v. entries c k = Some v \<longrightarrow> Q k v)"

lemma holds_only_get:
  assumes "holds_only Q c" "get k c = (r, c')"
  shows "holds_only Q c'" "r = Some v \<Longrightarrow> Q k v"
  using assms get_value [of k c] get_entries [of c k] get_ok [of c k] by (auto simp: holds_only_def)

lemma holds_only_put:
  assumes "holds_only Q c" "Q k v"
  shows "holds_only Q (put k v c)"
proof -
  have "Q k' v'" if "entries (put k v c) k' = Some v'" for k' v'
  proof -
    have "((entries c)(k \<mapsto> v)) k' = Some v'"
      using that put_entries [of c k v] assms(1) by (auto simp: holds_only_def map_le_def dom_def)
    with assms show ?thesis by (auto simp: holds_only_def split: if_splits)
  qed
  with assms put_ok show ?thesis by (auto simp: holds_only_def)
qed

lemma holds_only_empty: "ok c \<Longrightarrow> holds_only Q (empty c)"
  by (simp add: holds_only_def empty_entries empty_ok)

end

definition cache_ok :: "tile_cache \<Rightarrow> bool" where
  "cache_ok c \<longleftrightarrow> distinct (odict_keys (tc_entries c)) \<and> 0 < tc_capacity c
     \<and> length (tc_entries c) \<le> tc_capacity c"

lemma distinct_drop_keys: "distinct (odict_keys es) \<Longrightarrow> distinct (odict_keys (drop n es))"
  by (simp flip: drop_map)

lemma cache_put_entries:
  assumes "cache_ok c"
  shows "map_of (tc_entries (cache_put k v c)) \<subseteq>\<^sub>m (map_of (tc_entries c))(k \<mapsto> v)"
proof -
  let ?es = "move_to_end k (odict_put k v (tc_entries c))"
  have d: "distinct (odict_keys ?es)" using assms by (simp add: cache_ok_def odict_simps)
  have "map_of (drop n ?es) \<subseteq>\<^sub>m map_of ?es" for n
    using map_of_drop_Some [OF d] by (auto simp: map_le_def dom_def)
  then show ?thesis by (simp add: cache_put_def Let_def odict_simps)
qed

interpretation lru: memo_cache "\<lambda>c. map_of (tc_entries c)" cache_get cache_put cache_clear cache_ok
proof unfold_locales
  show "fst (cache_get k c) = map_of (tc_entries c) k" for k c
    by (simp add: cache_get_def split: option.splits)
  show "map_of (tc_entries (snd (cache_get k c))) = map_of (tc_entries c)" for k c
    by (simp add: cache_get_def odict_simps split: option.splits)
  show "cache_ok c \<Longrightarrow> cache_ok (snd (cache_get k c))" for k c
    by (auto simp: cache_ok_def cache_get_def odict_simps split: option.splits)
  show "cache_ok c \<Longrightarrow> map_of (tc_entries (cache_put k v c)) \<subseteq>\<^sub>m (map_of (tc_entries c))(k \<mapsto> v)"
    for k v c by (rule cache_put_entries)
  show "cache_ok c \<Longrightarrow> cache_ok (cache_put k v c)" for k v c
    by (auto simp: cache_ok_def cache_put_def Let_def odict_simps intro!: distinct_drop_keys)
  show "map_of (tc_entries (cache_clear c)) k = None" for k c by (simp add: cache_clear_def)
  show "cache_ok c \<Longrightarrow> cache_ok (cache_clear c)" for c by (simp add: cache_ok_def cache_clear_def)
qed

lemma cache_ok_new: "cache_ok (tile_cache_new n)"
  by (simp add: cache_ok_def tile_cache_new_def)

lemma cache_put_get:
  assumes "cache_ok c"
  shows "fst (cache_get k (cache_put k v c)) = Some v"
proof -
  let ?d = "odict_put k v (tc_entries c)"
  let ?es = "filter (\<lambda>e. fst e \<noteq> k) ?d @ [(k, v)]"
  have es: "move_to_end k ?d = ?es" by (simp add: move_to_end_def odict_simps)
  have d: "distinct (odict_keys ?es)" using assms
    by (metis es cache_ok_def move_to_end_distinct odict_put_distinct)
  have "length ?es - tc_capacity c < length ?es" using assms by (simp add: cache_ok_def)
  then have "(k, v) \<in> set (drop (length ?es - tc_capacity c) ?es)"
    by (simp add: drop_append)
  then have "map_of (drop (length ?es - tc_capacity c) ?es) k = Some v"
    using distinct_drop_keys [OF d] by (metis map_of_eq_Some_iff)
  then show ?thesis by (simp add: lru.get_value cache_put_def Let_def es)
qed

section \<open>The tile server against rendering without a cache\<close>

text \<open>The specification: the image of the first candidate that is not empty, the last one's in any
  case.\<close>

fun first_image ::
    "render_tool \<Rightarrow> zlib \<Rightarrow> nat \<Rightarrow> string option \<Rightarrow> nat \<Rightarrow> int \<Rightarrow> int \<Rightarrow> orc_pack list
      \<Rightarrow> orc_error + string" where
  "first_image tool zl px style z x y [] = Inl (NoPackRendered z x y)"
| "first_image tool zl px style z x y (p # ps) =
     (case render_ppm tool p z x y px style of
        Inl e \<Rightarrow> Inl e
      | Inr ppm \<Rightarrow> if ps = [] \<or> \<not> is_empty_render ppm then to_png zl ppm
                   else first_image tool zl px style z x y ps)"

definition uncached_render ::
    "edge_lat \<Rightarrow> render_tool \<Rightarrow> zlib \<Rightarrow> tile_server \<Rightarrow> nat \<Rightarrow> int \<Rightarrow> int \<Rightarrow> orc_error + string" where
  "uncached_render edge tool zl s z x y =
     (let candidates = packs_for edge (ts_packs s) z x y
      in if candidates = [] then Inl (NoPackCovers z x y)
         else first_image tool zl (ts_size s) (ts_style s) z x y candidates)"

definition entry_true ::
    "edge_lat \<Rightarrow> render_tool \<Rightarrow> zlib \<Rightarrow> orc_pack list \<Rightarrow> tile_key \<Rightarrow> tile \<Rightarrow> bool" where
  "entry_true edge tool zl packs key v \<longleftrightarrow>
     (case key of (stem, z, x, y, px, style) \<Rightarrow>
        \<exists>p \<in> set packs. op_stem p = stem \<and>
          (\<exists>before rest ppm. packs_for edge packs z x y = before @ p # rest
             \<and> render_ppm tool p z x y px style = Inr ppm
             \<and> (case v of NoData \<Rightarrow> rest \<noteq> [] \<and> is_empty_render ppm
                | Png png \<Rightarrow> (rest = [] \<or> \<not> is_empty_render ppm) \<and> to_png zl ppm = Inr png)))"

lemma entry_true_hit:
  assumes e: "entry_true edge tool zl packs (op_stem p, z, x, y, px, style) v"
    and stems: "distinct (map op_stem packs)" and p: "p \<in> set packs"
    and split: "packs_for edge packs z x y = before @ p # rest"
  obtains ppm where "render_ppm tool p z x y px style = Inr ppm"
    "case v of NoData \<Rightarrow> rest \<noteq> [] \<and> is_empty_render ppm
       | Png png \<Rightarrow> (rest = [] \<or> \<not> is_empty_render ppm) \<and> to_png zl ppm = Inr png"
proof -
  from e obtain q b' r' ppm where q: "q \<in> set packs" "op_stem q = op_stem p"
    and s': "packs_for edge packs z x y = b' @ q # r'"
    and ppm: "render_ppm tool q z x y px style = Inr ppm"
    and v: "case v of NoData \<Rightarrow> r' \<noteq> [] \<and> is_empty_render ppm
       | Png png \<Rightarrow> (r' = [] \<or> \<not> is_empty_render ppm) \<and> to_png zl ppm = Inr png"
    by (auto simp: entry_true_def)
  have "q = p" using q p stems by (metis distinct_map inj_onD)
  moreover have "distinct (packs_for edge packs z x y)"
    using stems by (intro packs_for_distinct) (simp add: distinct_map)
  ultimately have d: "distinct (b' @ p # r')" and eq: "b' @ p # r' = before @ p # rest"
    using split s' by (metis, metis)
  from d have "p \<notin> set b'" "p \<notin> set r'" by simp_all
  with eq have "r' = rest" by (simp add: append_Cons_eq_iff)
  with \<open>q = p\<close> ppm v show thesis by (cases v) (auto intro: that)
qed

lemma render_from_spec:
  assumes stems: "distinct (map op_stem packs)"
    and split: "packs_for edge packs z x y = before @ ps"
    and sound: "lru.holds_only (entry_true edge tool zl packs) c"
  shows "fst (render_from tool zl px style z x y ps c) = first_image tool zl px style z x y ps \<and>
    lru.holds_only (entry_true edge tool zl packs) (snd (render_from tool zl px style z x y ps c))"
  using split sound
proof (induction ps arbitrary: before c)
  case Nil
  then show ?case by simp
next
  case (Cons p ps)
  let ?key = "(op_stem p, z, x, y, px, style)"
  obtain cached c1 where get: "cache_get ?key c = (cached, c1)" by fastforce
  have sound1: "lru.holds_only (entry_true edge tool zl packs) c1"
    by (rule lru.holds_only_get(1) [OF Cons.prems(2) get])
  have p: "p \<in> set packs" using packs_for_subset [of edge packs z x y] Cons.prems(1) by auto
  have next_: "packs_for edge packs z x y = (before @ [p]) @ ps" using Cons.prems(1) by simp
  note IH = Cons.IH [OF next_]
  show ?case
  proof (cases cached)
    case None
    have put: "lru.holds_only (entry_true edge tool zl packs) (cache_put ?key v c1)"
      if "render_ppm tool p z x y px style = Inr ppm"
        "case v of NoData \<Rightarrow> ps \<noteq> [] \<and> is_empty_render ppm
           | Png png \<Rightarrow> (ps = [] \<or> \<not> is_empty_render ppm) \<and> to_png zl ppm = Inr png" for ppm v
      by (rule lru.holds_only_put [OF sound1], unfold entry_true_def, simp)
        (intro bexI [of _ p] conjI refl exI [of _ before] exI [of _ ps] exI [of _ ppm]
          Cons.prems(1) that p)
    show ?thesis
    proof (cases "render_ppm tool p z x y px style")
      case (Inl e)
      then show ?thesis using None get sound1 by simp
    next
      case (Inr ppm)
      show ?thesis
      proof (cases "ps = [] \<or> \<not> is_empty_render ppm")
        case True
        then show ?thesis using None get sound1 Inr put [OF Inr, of "Png png" for png]
          by (auto split: sum.splits)
      next
        case False
        with put [OF Inr, of NoData] have "lru.holds_only (entry_true edge tool zl packs)
            (cache_put ?key NoData c1)" by simp
        from IH [OF this] False None get Inr show ?thesis by simp
      qed
    qed
  next
    case (Some v)
    have "entry_true edge tool zl packs ?key v"
      by (rule lru.holds_only_get(2) [OF Cons.prems(2) get Some])
    from entry_true_hit [OF this stems p Cons.prems(1)] obtain ppm where
      "render_ppm tool p z x y px style = Inr ppm"
      "case v of NoData \<Rightarrow> ps \<noteq> [] \<and> is_empty_render ppm
         | Png png \<Rightarrow> (ps = [] \<or> \<not> is_empty_render ppm) \<and> to_png zl ppm = Inr png" .
    with Some get sound1 IH [OF sound1] show ?thesis by (cases v) auto
  qed
qed

text \<open>What the GUI and the map page do to a running server.\<close>

datatype server_op = GetTile nat int int | Restyle "string option"

fun server_step :: "edge_lat \<Rightarrow> render_tool \<Rightarrow> zlib \<Rightarrow> server_op \<Rightarrow> tile_server \<Rightarrow> tile_server" where
  "server_step edge tool zl (GetTile z x y) s = snd (server_render edge tool zl z x y s)"
| "server_step edge tool zl (Restyle style) s = set_style style s"

definition server_sound ::
    "edge_lat \<Rightarrow> render_tool \<Rightarrow> zlib \<Rightarrow> tile_server \<Rightarrow> bool" where
  "server_sound edge tool zl s \<longleftrightarrow> lru.holds_only (entry_true edge tool zl (ts_packs s)) (ts_cache s)"

lemma server_render_sound:
  assumes "distinct (map op_stem (ts_packs s))" "server_sound edge tool zl s"
  shows "fst (server_render edge tool zl z x y s) = uncached_render edge tool zl s z x y"
    and "server_sound edge tool zl (snd (server_render edge tool zl z x y s))"
  using render_from_spec [OF assms(1) append_Nil [symmetric], where c = "ts_cache s" and px = "ts_size s"
      and style = "ts_style s" and edge = edge and tool = tool and zl = zl and z = z and x = x and y = y] assms(2)
  by (auto simp: server_render_def uncached_render_def server_sound_def Let_def split: prod.splits)

lemma server_step_packs [simp]: "ts_packs (server_step edge tool zl a s) = ts_packs s"
  by (cases a) (auto simp: server_render_def set_style_def Let_def split: prod.splits)

lemma server_step_sound:
  assumes "distinct (map op_stem (ts_packs s))" "server_sound edge tool zl s"
  shows "server_sound edge tool zl (server_step edge tool zl a s)"
proof (cases a)
  case (GetTile z x y)
  then show ?thesis using server_render_sound(2) [OF assms] by simp
next
  case (Restyle style)
  then show ?thesis using assms(2) lru.holds_only_empty
    by (simp add: server_sound_def set_style_def) (metis lru.holds_only_def)
qed

lemma server_run_sound:
  assumes "distinct (map op_stem (ts_packs s))" "server_sound edge tool zl s"
  shows "server_sound edge tool zl (fold (server_step edge tool zl) ops s)"
    and "ts_packs (fold (server_step edge tool zl) ops s) = ts_packs s"
  using assms by (induction ops arbitrary: s) (auto simp: server_step_sound)

lemma server_sound_new:
  "tile_server_new packs style px capacity = Inr s \<Longrightarrow> server_sound edge tool zl s \<and> ts_packs s = packs"
  using cache_ok_new [of capacity]
  by (auto simp: tile_server_new_def server_sound_def lru.holds_only_def tile_cache_new_def
      split: if_splits)

text \<open>C18: caching is invisible: after any sequence of tile requests and style changes, whatever was
  evicted meanwhile, a request answers what rendering its candidates afresh in the current style
  answers, provided no two packs share a stem; and the cache stays within its capacity.\<close>

theorem cache_is_transparent:
  assumes "tile_server_new packs style px capacity = Inr s0" "distinct (map op_stem packs)"
  shows "let s = fold (server_step edge tool zl) ops s0
    in fst (server_render edge tool zl z x y s) = uncached_render edge tool zl s z x y
      \<and> length (tc_entries (ts_cache s)) \<le> tc_capacity (ts_cache s)"
proof -
  let ?s = "fold (server_step edge tool zl) ops s0"
  have s0: "server_sound edge tool zl s0" "ts_packs s0 = packs" using server_sound_new [OF assms(1)] by auto
  then have s: "server_sound edge tool zl ?s" "ts_packs ?s = packs"
    using server_run_sound [of s0 edge tool zl ops] assms(2) by auto
  have "length (tc_entries (ts_cache ?s)) \<le> tc_capacity (ts_cache ?s)"
    using s(1) by (simp add: server_sound_def lru.holds_only_def cache_ok_def)
  with server_render_sound(1) [of ?s edge tool zl z x y] s assms(2) show ?thesis by (simp add: Let_def)
qed


theorem cache_is_transparent_witness:
  "let tool = (\<lambda>p z x y px style. Inr (ppm_of 1 1 (op_stem p)));
       zl = \<lparr>zl_crc32 = (\<lambda>s. 0), zl_compress = id\<rparr>;
       s0 = \<lparr>ts_packs = [sample_pack ''usa'' None, sample_pack ''eur'' None], ts_style = None,
             ts_size = 256, ts_cache = tile_cache_new 1\<rparr>;
       s = fold (server_step (\<lambda>z y. 0) tool zl) [GetTile 1 0 0, Restyle (Some ''dark''), GetTile 1 0 1] s0
   in fst (server_render (\<lambda>z y. 0) tool zl 1 0 0 s) = uncached_render (\<lambda>z y. 0) tool zl s 1 0 0
     \<and> length (tc_entries (ts_cache s)) \<le> tc_capacity (ts_cache s)"
  unfolding Let_def
  by (rule cache_is_transparent [unfolded Let_def, where style = None and px = 256 and capacity = 1
        and packs = "[sample_pack ''usa'' None, sample_pack ''eur'' None]"])
    (simp_all add: tile_server_new_def sample_pack_def)

lemma twin_stems_hide_each_other:
  assumes "is_empty_render flat" "op_stem a = op_stem b"
    and "packs_for edge packs z x y = [a, b]"
  shows "let tool = (\<lambda>p z x y px style. Inr flat);
      s = \<lparr>ts_packs = packs, ts_style = style, ts_size = px, ts_cache = tile_cache_new 512\<rparr>
    in uncached_render edge tool zl s z x y = to_png zl flat
      \<and> fst (server_render edge tool zl z x y s) = Inl (NoPackRendered z x y)"
  using assms
  by (simp add: uncached_render_def server_render_def render_ppm_def cache_get_def tile_cache_new_def
      cache_put_def move_to_end_def)


text \<open>The handler never lets a tile index outside the tile pyramid reach the renderer: an image it
  answers is the render of a tile with zoom at most 31 and both indices below \<open>2 ^ zoom\<close>.\<close>

theorem served_tile_in_range:
  assumes "do_GET edge tool zl path s = (Image png, s')"
  shows "\<exists>z x y. z \<le> 31 \<and> 0 \<le> x \<and> x < 2 ^ z \<and> 0 \<le> y \<and> y < 2 ^ z
    \<and> server_render edge tool zl z x y s = (Inr png, s')"
proof -
  obtain z x y where "\<not> (z < 0 \<or> z > 31 \<or> \<not> (0 \<le> x \<and> x < 2 ^ nat z) \<or> \<not> (0 \<le> y \<and> y < 2 ^ nat z))"
    "server_render edge tool zl (nat z) x y s = (Inr png, s')"
    using assms unfolding do_GET_def
    by (auto split: if_splits list.splits option.splits prod.splits sum.splits)
  then show ?thesis by (intro exI [of _ "nat z"] exI [of _ x] exI [of _ y]) auto
qed

section \<open>Facts on discovery\<close>

fun loadable :: "(string \<Rightarrow> pyfloat option) \<Rightarrow> (string \<Rightarrow> bool) \<Rightarrow> pack_file \<Rightarrow> bool" where
  "loadable float_of is_file f =
     (if pf_is_file f \<and> ends_with manifest_suffix (path_name (pf_path f))
      then load_pack float_of is_file f \<noteq> Inl NotIterable else True)"

declare loadable.simps [simp del]

lemma load_all_raises:
  "(load_all float_of is_file fs = Inl NotIterable) \<longleftrightarrow> (\<exists>f \<in> set fs. \<not> loadable float_of is_file f)"
proof (induction fs)
  case (Cons f fs)
  have e: "e = NotIterable" for e by (cases e) simp
  have "load_all float_of is_file (f # fs) = Inl NotIterable \<longleftrightarrow>
      \<not> loadable float_of is_file f \<or> load_all float_of is_file fs = Inl NotIterable"
    using e by (auto simp: loadable.simps split: sum.splits)
  with Cons show ?case by simp
qed simp

lemma one_bad_manifest_hides_all:
  assumes "Some es \<in> set directories" "f \<in> set es" "\<not> loadable float_of is_file f"
  shows "discover_packs float_of is_file directories = Inl NotIterable"
proof -
  let ?fs = "concat (map (\<lambda>d. case d of None \<Rightarrow> [] | Some es \<Rightarrow> sort_key pf_path es) directories)"
  have "f \<in> set ?fs" using assms(1,2) by (auto intro!: bexI [of _ "Some es"])
  with assms(3) load_all_raises [of float_of is_file ?fs]
  have "load_all float_of is_file ?fs = Inl NotIterable" by blast
  then show ?thesis by (simp add: discover_packs_def)
qed

text \<open>Discovery hands the server its packs in resolver order: a pack of higher priority is never
  behind one of lower priority, and between equal priorities the deeper one comes first.\<close>

theorem packs_in_resolver_order:
  assumes "discover_packs float_of is_file directories = Inr ps" "i < j" "j < length ps"
  shows "op_priority (ps ! j) < op_priority (ps ! i)
    \<or> (op_priority (ps ! j) = op_priority (ps ! i) \<and> op_max_zoom (ps ! j) \<le> op_max_zoom (ps ! i))"
proof -
  let ?k = "\<lambda>p :: orc_pack. (- op_priority p, - op_max_zoom p, lower (op_display_name p))"
  obtain qs where "ps = sort_key ?k qs"
    using assms(1) by (auto simp: discover_packs_def split: sum.splits)
  then have "sorted (map ?k ps)" by simp
  then have "map ?k ps ! i \<le> map ?k ps ! j"
    using assms(2,3) by (intro sorted_nth_mono) simp_all
  with assms(2,3) show ?thesis by auto
qed


theorem served_tile_in_range_witness:
  "\<exists>z x y. z \<le> 31 \<and> 0 \<le> x \<and> x < 2 ^ z \<and> 0 \<le> y \<and> y < 2 ^ z
    \<and> server_render (\<lambda>z y. 0) (\<lambda>p z x y px style. Inl ''offline'') \<lparr>zl_crc32 = (\<lambda>s. 0), zl_compress = id\<rparr> z x y
        \<lparr>ts_packs = [sample_pack ''usa'' None], ts_style = None, ts_size = 256,
         ts_cache = \<lparr>tc_capacity = 1, tc_entries = [((''usa'', 1, 0, 1, 256, None), Png ''png'')],
           tc_hits = 0, tc_misses = 0\<rparr>\<rparr>
      = (Inr ''png'',
         \<lparr>ts_packs = [sample_pack ''usa'' None], ts_style = None, ts_size = 256,
          ts_cache = \<lparr>tc_capacity = 1, tc_entries = [((''usa'', 1, 0, 1, 256, None), Png ''png'')],
            tc_hits = 1, tc_misses = 0\<rparr>\<rparr>)"
  by (rule served_tile_in_range [where path = "''/tiles/1/0/1.png''"]) code_simp

definition sample_manifest :: "string \<Rightarrow> int \<Rightarrow> pack_file" where
  "sample_manifest stem priority =
     \<lparr>pf_path = ''d/'' @ stem @ manifest_suffix, pf_is_file = True, pf_size = 100,
      pf_json = Some (PDict [(''priority'', PInt priority)])\<rparr>"

lemma sample_manifest_loads:
  "\<exists>p. load_pack (\<lambda>s. None) (\<lambda>p. True) (sample_manifest stem priority) = Inr (Some p)"
  by (simp add: load_pack_def sample_manifest_def MAX_MANIFEST_BYTES_def str_tuple_def dict_get_def
      Let_def)

lemma sample_directory_loads:
  "\<exists>ps. length ps = 2 \<and> discover_packs (\<lambda>s. None) (\<lambda>p. True)
     [Some [sample_manifest ''a'' 0, sample_manifest ''b'' 7]] = Inr ps"
proof -
  let ?a = "sample_manifest ''a'' 0" and ?b = "sample_manifest ''b'' 7"
  have names: "ends_with manifest_suffix (path_name (pf_path ?a)) \<and> pf_is_file ?a"
    "ends_with manifest_suffix (path_name (pf_path ?b)) \<and> pf_is_file ?b" by code_simp+
  have "sort_key pf_path [?a, ?b] \<in> {[?a, ?b], [?b, ?a]}" by simp
  then show ?thesis
    using names sample_manifest_loads [of "''a''" 0] sample_manifest_loads [of "''b''" 7]
    by (elim insertE) (auto simp: discover_packs_def)
qed

theorem packs_in_resolver_order_witness:
  "\<exists>ps. discover_packs (\<lambda>s. None) (\<lambda>p. True) [Some [sample_manifest ''a'' 0, sample_manifest ''b'' 7]] = Inr ps
     \<and> 1 < length ps \<and> (op_priority (ps ! 1) < op_priority (ps ! 0)
       \<or> (op_priority (ps ! 1) = op_priority (ps ! 0) \<and> op_max_zoom (ps ! 1) \<le> op_max_zoom (ps ! 0)))"
proof -
  obtain ps where ps: "length ps = 2" "discover_packs (\<lambda>s. None) (\<lambda>p. True)
     [Some [sample_manifest ''a'' 0, sample_manifest ''b'' 7]] = Inr ps"
    using sample_directory_loads by blast
  with packs_in_resolver_order [OF ps(2), of 0 1] show ?thesis by simp
qed

end
