(* ===== verification/Leases.thy ===== *)
theory Leases
  imports PyValue
begin

text \<open>
  \<open>services/rtl_tools.py\<close>: where the native RTL-SDR tools are looked for, the wording of their
  failures, the parser of \<open>rtl_test\<close>'s device table, the collector of a child's diagnostics, and the
  leases that keep two features of the program from opening the same dongle.  The file system, the
  environment and the children are parameters.  In the regular expressions digits and case folding
  are ASCII.
\<close>

section \<open>Finding the tools\<close>

record tool_host =
  th_which :: "string \<Rightarrow> string option"
  th_local_app_data :: "string option"
  th_home :: string
  th_is_file :: "string \<Rightarrow> bool"
  th_os_name :: string
  th_no_window_flag :: "int option"

definition TOOL_NAMES :: "string list" where
  "TOOL_NAMES = [''rtl_sdr'', ''rtl_power'', ''rtl_test'']"

definition BUSY_MARKERS :: "string list" where
  "BUSY_MARKERS = [''failed to open rtlsdr device'', ''usb_open error'', ''device is busy'',
     ''resource busy'', ''access is denied'']"

definition slash :: "string \<Rightarrow> string \<Rightarrow> string" where
  "slash a b = a @ ''/'' @ b"

definition tools_directory :: "tool_host \<Rightarrow> string" where
  "tools_directory h =
     slash (slash (if truthy_str (th_local_app_data h) then the (th_local_app_data h)
                   else slash (slash (th_home h) ''.local'') ''share'') ''OrcMesh'') ''tools''"

definition find_tool :: "tool_host \<Rightarrow> string \<Rightarrow> string option" where
  "find_tool h name =
     (if truthy_str (th_which h name) then th_which h name
      else find (th_is_file h)
             [slash (tools_directory h) name, slash (tools_directory h) (name @ ''.exe'')])"

definition tool_paths :: "tool_host \<Rightarrow> (string \<times> string) list" where
  "tool_paths h =
     List.map_filter (\<lambda>name. map_option (\<lambda>p. (name, p)) (find_tool h name)) TOOL_NAMES"

definition creation_flags :: "tool_host \<Rightarrow> int" where
  "creation_flags h =
     (if th_os_name h \<noteq> ''nt'' then 0
      else case th_no_window_flag h of Some f \<Rightarrow> f | None \<Rightarrow> 0x08000000)"

definition parent_of :: "string \<Rightarrow> string" where
  "parent_of p = rev (drop 1 (dropWhile (\<lambda>c. c \<noteq> CHR ''/'') (rev p)))"

definition tools_available :: "tool_host \<Rightarrow> bool \<times> string" where
  "tools_available h =
     (case map_of (tool_paths h) ''rtl_sdr'' of
        None \<Rightarrow>
          (False, ''The native RTL-SDR tools were not found on PATH (rtl_sdr is required).'' @ [lf, lf]
             @ ''On Windows the rtl-sdr-blog release installs rtl_sdr.exe and ''
             @ ''binds the WinUSB driver for the dongle. Install that, then reopen OrcMesh.'')
      | Some sdr \<Rightarrow>
          (let extras = filter (\<lambda>n. map_of (tool_paths h) n \<noteq> None) [''rtl_power'', ''rtl_test'']
           in (True, ''rtl_sdr found at '' @ parent_of sdr
                 @ (if extras \<noteq> [] then '' (with '' @ join_with '', '' extras @ '')''
                    else '' (rtl_power and rtl_test are missing: band scanning and the ''
                       @ ''device check need them)''))))"

definition explain_failure :: "string \<Rightarrow> string \<Rightarrow> string" where
  "explain_failure text tool =
     (let stripped = strip text; lowered = lower stripped
      in if list_ex (\<lambda>m. contains m lowered) BUSY_MARKERS
         then ''The dongle is already in use by another program.'' @ [lf, lf]
            @ ''An RTL-SDR can only be open in one process at a time. Close SDR#, ''
            @ ''Gqrx, SDR++ or any running rtl_* tool, then start again.''
            @ (if stripped \<noteq> [] then [lf, lf] @ tool @ '' said: '' @ stripped else [])
         else if contains ''no supported devices'' lowered \<or> contains ''no devices found'' lowered
         then ''No RTL-SDR dongle was found. Is it plugged in?'' @ [lf, lf] @ stripped
         else if stripped \<noteq> [] then stripped
         else tool @ '' stopped without reporting a reason.'')"

section \<open>The device table\<close>

text \<open>\<open>found\s+(\d+)\s+device\<close>, ignoring case, anchored at the start of the text.\<close>

definition count_here :: "string \<Rightarrow> nat option" where
  "count_here s =
     (if \<not> starts_with ''found'' (lower s) then None
      else (let a = drop 5 s; b = lstrip a; digits = takeWhile is_digit b;
                c = drop (length digits) b; d = lstrip c
            in if a = b \<or> digits = [] \<or> c = d \<or> \<not> starts_with ''device'' (lower d) then None
               else Some (nat_of_digits 0 digits)))"

fun device_count :: "string \<Rightarrow> nat option" where
  "device_count [] = None"
| "device_count (c # cs) =
     (case count_here (c # cs) of Some n \<Rightarrow> Some n | None \<Rightarrow> device_count cs)"

text \<open>\<open>^\s*(\d+):\s*(?P<body>.*?)\s*$\<close>\<close>

definition device_line :: "string \<Rightarrow> (nat \<times> string) option" where
  "device_line line =
     (let s = lstrip line; digits = takeWhile is_digit s; rest = drop (length digits) s
      in if digits = [] \<or> rest = [] \<or> hd rest \<noteq> CHR '':'' then None
         else Some (nat_of_digits 0 digits, strip (tl rest)))"

definition printable :: "char \<Rightarrow> bool" where
  "printable c \<longleftrightarrow> 32 \<le> (of_char c :: nat) \<and> (of_char c :: nat) \<le> 126"

definition clean_field :: "string \<Rightarrow> string" where
  "clean_field text = strip (filter printable text)"

record sdr_device =
  de_index :: nat
  de_manufacturer :: string
  de_product :: string
  de_serial :: string

definition device_label :: "sdr_device \<Rightarrow> string" where
  "device_label d =
     show_nat (de_index d) @ middot
       @ (if de_product d \<noteq> [] then de_product d
          else if de_manufacturer d \<noteq> [] then de_manufacturer d else ''RTL-SDR'')"

definition device_describe :: "sdr_device \<Rightarrow> string" where
  "device_describe d =
     (let text = join_with '' '' (filter (\<lambda>p. p \<noteq> []) [de_manufacturer d, de_product d])
      in if text = [] then ''RTL-SDR '' @ emdash
              @ '' name unreadable (blank EEPROM, or the device is in use)''
         else if de_serial d \<noteq> [] then text @ '' (SN '' @ de_serial d @ '')'' else text)"

definition after_colon :: "string \<Rightarrow> string" where
  "after_colon s = drop 1 (dropWhile (\<lambda>c. c \<noteq> CHR '':'') s)"

definition device_of :: "nat \<Rightarrow> string \<Rightarrow> sdr_device" where
  "device_of index body =
     (let fields = map clean_field (split_on (CHR '','') body);
          named = fields \<noteq> [] \<and> starts_with ''SN:'' (upper (last fields));
          serial = (if named then clean_field (after_colon (last fields)) else []);
          fields = (if named then butlast fields else fields)
      in \<lparr>de_index = index,
          de_manufacturer = (if fields \<noteq> [] then hd fields else []),
          de_product = (if 1 < length fields then join_with '', '' (tl fields) else []),
          de_serial = serial\<rparr>)"

text \<open>The loop over the lines: before the table, and in it.\<close>

fun device_lines :: "bool \<Rightarrow> string list \<Rightarrow> sdr_device list" where
  "device_lines in_table [] = []"
| "device_lines in_table (line # lines) =
     (if device_count line \<noteq> None then device_lines True lines
      else if \<not> in_table \<or> strip line = [] then device_lines in_table lines
      else case device_line line of
        None \<Rightarrow> []
      | Some (index, body) \<Rightarrow> device_of index body # device_lines in_table lines)"

definition parse_device_list :: "string \<Rightarrow> sdr_device list" where
  "parse_device_list text = device_lines False (split_lines text)"

text \<open>One run of \<open>rtl_test -t\<close>.\<close>

datatype tool_run = TimedOut | CouldNotRun string | Completed string string

definition stuck_driver :: string where
  "stuck_driver = ''rtl_test did not finish in time, which usually means the driver is ''
     @ ''stuck. Unplug and replug the dongle.''"

definition list_devices :: "tool_host \<Rightarrow> tool_run \<Rightarrow> sdr_device list \<times> string" where
  "list_devices h run =
     (case find_tool h ''rtl_test'' of
        None \<Rightarrow> ([], ''rtl_test was not found, so the dongles cannot be listed.'')
      | Some tool \<Rightarrow>
          (case run of
             TimedOut \<Rightarrow> ([], stuck_driver)
           | CouldNotRun e \<Rightarrow> ([], ''Could not run rtl_test: '' @ e)
           | Completed out err \<Rightarrow>
               (let text = out @ [lf] @ err; devices = parse_device_list text
                in if devices = [] then ([], explain_failure text ''rtl_sdr'')
                   else (devices, show_nat (length devices) @ '' RTL-SDR dongle(s) found''))))"

fun first_device_name :: "string list \<Rightarrow> string" where
  "first_device_name [] = []"
| "first_device_name (line # lines) =
     (if starts_with ''0:'' (strip line) then strip (drop 2 (strip line))
      else first_device_name lines)"

definition probe_device :: "tool_host \<Rightarrow> tool_run \<Rightarrow> nat \<times> string" where
  "probe_device h run =
     (case find_tool h ''rtl_test'' of
        None \<Rightarrow> (0, ''rtl_test was not found, so the dongle cannot be checked.'')
      | Some tool \<Rightarrow>
          (case run of
             TimedOut \<Rightarrow> (0, stuck_driver)
           | CouldNotRun e \<Rightarrow> (0, ''Could not run rtl_test: '' @ e)
           | Completed out err \<Rightarrow>
               (let text = out @ [lf] @ err;
                    count = (case device_count text of Some n \<Rightarrow> n | None \<Rightarrow> 0);
                    name = first_device_name (split_lines text)
                in if count = 0 then (0, explain_failure text ''rtl_sdr'')
                   else (count, show_nat count @ '' RTL-SDR dongle(s) found''
                          @ (if name \<noteq> [] then '': '' @ name else [])))))"

section \<open>Diagnostics of a child\<close>

definition stderr_append :: "nat \<Rightarrow> string list \<Rightarrow> string \<Rightarrow> string list" where
  "stderr_append max_lines lines raw =
     (let line = strip raw in if line \<noteq> [] then ring_append max_lines lines line else lines)"

definition stderr_drain :: "nat \<Rightarrow> string list \<Rightarrow> string list \<Rightarrow> string list" where
  "stderr_drain max_lines lines stream = fold (\<lambda>raw ls. stderr_append max_lines ls raw) stream lines"

definition stderr_tail :: "string list \<Rightarrow> string" where
  "stderr_tail lines = (if lines \<noteq> [] then last lines else [])"

definition stderr_text :: "string list \<Rightarrow> string" where
  "stderr_text lines = join_with [lf] lines"

section \<open>Ending a child\<close>

text \<open>What a child does at its end: its status when first polled, and after each of the two waits of
  three seconds (\<open>None\<close>: still running).\<close>

record child_end =
  ce_poll :: "int option"
  ce_after_terminate :: "int option"
  ce_after_kill :: "int option"

definition exit_code :: "child_end \<Rightarrow> int option" where
  "exit_code c =
     (case ce_poll c of Some n \<Rightarrow> Some n
      | None \<Rightarrow> (case ce_after_terminate c of Some n \<Rightarrow> Some n | None \<Rightarrow> ce_after_kill c))"

section \<open>Leases\<close>

type_synonym leases = "int \<Rightarrow> (string \<times> string) option"

definition in_use :: "int \<Rightarrow> string \<Rightarrow> string" where
  "in_use device label =
     ''Dongle '' @ show_int device @ '' is already in use by '' @ label @ ''.'' @ [lf, lf]
       @ ''Each RTL-SDR can only be open in one place at a time '' @ emdash @ '' stop that ''
       @ ''capture first, or point this view at the other dongle.''"

definition acquire_sdr :: "string \<Rightarrow> string \<Rightarrow> int \<Rightarrow> leases \<Rightarrow> (bool \<times> string) \<times> leases" where
  "acquire_sdr owner label device l =
     (case l device of
        Some (holder, name) \<Rightarrow>
          if holder \<noteq> owner then ((False, in_use device name), l)
          else ((True, []), l(device \<mapsto> (owner, label)))
      | None \<Rightarrow> ((True, []), l(device \<mapsto> (owner, label))))"

definition release_sdr :: "string \<Rightarrow> int \<Rightarrow> leases \<Rightarrow> leases" where
  "release_sdr owner device l =
     (case l device of
        Some (holder, name) \<Rightarrow> if holder = owner then l(device := None) else l
      | None \<Rightarrow> l)"

definition sdr_owner :: "int \<Rightarrow> leases \<Rightarrow> string" where
  "sdr_owner device l = (case l device of Some (holder, name) \<Rightarrow> name | None \<Rightarrow> [])"

definition R820T_GAIN_STEPS :: "pyfloat list" where
  "R820T_GAIN_STEPS = [0, 9/10, 14/10, 27/10, 37/10, 77/10, 87/10, 125/10, 144/10, 157/10,
     166/10, 197/10, 207/10, 229/10, 254/10, 28, 297/10, 328/10, 338/10, 364/10,
     372/10, 386/10, 402/10, 421/10, 434/10, 439/10, 445/10, 48, 496/10]"

section \<open>Leases as an interface\<close>

text \<open>What a feature that wants a dongle relies on: a granted claim makes it the holder, a refused one
  and a release of somebody else's lease change nothing.\<close>

locale exclusive_resource =
  fixes holder :: "'s \<Rightarrow> 'd \<Rightarrow> 'o option"
    and acquire :: "'o \<Rightarrow> 'd \<Rightarrow> 's \<Rightarrow> bool \<times> 's"
    and release :: "'o \<Rightarrow> 'd \<Rightarrow> 's \<Rightarrow> 's"
  assumes acquire_grants: "acquire w d s = (True, s') \<Longrightarrow>
      holder s d \<in> {None, Some w} \<and> holder s' = (holder s)(d \<mapsto> w)"
    and acquire_refuses: "acquire w d s = (False, s') \<Longrightarrow> s' = s"
    and release_frees: "holder (release w d s) =
      (if holder s d = Some w then (holder s)(d := None) else holder s)"
begin

text \<open>\<open>using\<close> is the device each client has open, \<open>name\<close> the name under which it claims.\<close>

definition honoured :: "('c \<Rightarrow> 'o) \<Rightarrow> ('c \<Rightarrow> 'd option) \<Rightarrow> 's \<Rightarrow> bool" where
  "honoured name using s \<longleftrightarrow> (\<forall>c d. using c = Some d \<longrightarrow> holder s d = Some (name c))"

lemma honoured_exclusive:
  assumes "honoured name using s" "using b = Some d" "using c = Some d" "inj name"
  shows "b = c"
proof -
  have "Some (name b) = Some (name c)" using assms(1-3) unfolding honoured_def by metis
  with assms(4) show ?thesis by (simp add: inj_eq)
qed

lemma honoured_acquire:
  assumes "honoured name using s" "acquire (name c) d s = (granted, s')" "inj name"
  shows "honoured name using s'" and "granted \<Longrightarrow> honoured name (using(c \<mapsto> d)) s'"
  using assms acquire_grants [of "name c" d s s'] acquire_refuses [of "name c" d s s']
  by (cases granted; auto simp: honoured_def inj_eq)+

lemma honoured_release:
  assumes "honoured name using s" "inj name"
  shows "honoured name (using(c := None)) (release (name c) d s)"
  using assms by (auto simp: honoured_def release_frees inj_eq)

lemma honoured_mono:
  "honoured name using s \<Longrightarrow> (\<And>c d. v c = Some d \<Longrightarrow> using c = Some d) \<Longrightarrow> honoured name v s"
  by (auto simp: honoured_def)

end

definition holder_of :: "leases \<Rightarrow> int \<Rightarrow> string option" where
  "holder_of l device = map_option fst (l device)"

definition claim :: "string \<Rightarrow> string \<Rightarrow> int \<Rightarrow> leases \<Rightarrow> bool \<times> leases" where
  "claim label owner device l = (let (answer, l') = acquire_sdr owner label device l in (fst answer, l'))"

interpretation sdr: exclusive_resource holder_of "claim label" release_sdr for label
proof unfold_locales
  show "claim label w d s = (True, s') \<Longrightarrow>
      holder_of s d \<in> {None, Some w} \<and> holder_of s' = (holder_of s)(d \<mapsto> w)" for w d s s'
  proof -
    assume a: "claim label w d s = (True, s')"
    then have "s' = s(d \<mapsto> (w, label))"
      by (auto simp: claim_def acquire_sdr_def split: option.splits if_splits)
    moreover have "holder_of s d \<in> {None, Some w}" using a
      by (auto simp: claim_def acquire_sdr_def holder_of_def split: option.splits if_splits)
    ultimately show "holder_of s d \<in> {None, Some w} \<and> holder_of s' = (holder_of s)(d \<mapsto> w)"
      by (simp add: holder_of_def fun_eq_iff)
  qed
  show "claim label w d s = (False, s') \<Longrightarrow> s' = s" for w d s s'
    by (auto simp: claim_def acquire_sdr_def split: option.splits if_splits)
  show "holder_of (release_sdr w d s) =
      (if holder_of s d = Some w then (holder_of s)(d := None) else holder_of s)" for w d s
    by (auto simp: release_sdr_def holder_of_def fun_eq_iff split: option.splits)
qed

end
