(* ===== verification/Recorder.thy ===== *)
theory Recorder
  imports PyValue "HOL-Library.Sublist"
begin

text \<open>
  \<open>services/iq_recorder.py\<close>: capture files of interleaved 8-bit I/Q with their sidecar, the recorder
  that writes one, and the aligned reader.  A file is the list of its bytes, a sidecar the document
  its JSON text encodes; \<open>to_iso\<close> and \<open>of_iso\<close> convert times, \<open>float_of\<close> parses numbers.
\<close>

definition BYTES_PER_SAMPLE :: nat where "BYTES_PER_SAMPLE = 2"

definition estimated_bytes_per_second :: "pyfloat \<Rightarrow> pyfloat" where
  "estimated_bytes_per_second sample_rate_hz = sample_rate_hz * of_nat BYTES_PER_SAMPLE"

definition format_size :: "pyfloat \<Rightarrow> string" where
  "format_size num_bytes =
     (if \<bar>num_bytes\<bar> \<ge> 1000000000 then fixed 1 (num_bytes / 1000000000) @ '' GB''
      else if \<bar>num_bytes\<bar> \<ge> 1000000 then fixed 1 (num_bytes / 1000000) @ '' MB''
      else if \<bar>num_bytes\<bar> \<ge> 1000 then fixed 1 (num_bytes / 1000) @ '' kB''
      else fixed 0 num_bytes @ '' B'')"

definition format_duration :: "pyfloat \<Rightarrow> string" where
  "format_duration s =
     (let seconds = max 0 s; minutes = \<lfloor>seconds / 60\<rfloor>; remainder = seconds - of_int minutes * 60
      in if seconds < 60 then fixed 1 seconds @ '' s''
         else if minutes < 60
         then show_int minutes @ ''m '' @ pad_left 4 (CHR ''0'') (fixed 1 remainder) @ ''s''
         else show_int (minutes div 60) @ ''h ''
              @ pad_left 2 (CHR ''0'') (show_int (minutes mod 60)) @ ''m'')"

section \<open>Capture descriptions\<close>

record capture_info =
  ca_path :: string
  ca_center_hz :: pyfloat
  ca_sample_rate_hz :: pyfloat
  ca_gain_db :: pyfloat
  ca_ppm :: int
  ca_samples :: nat
  ca_started_at :: instant
  ca_ended_at :: "instant option"
  ca_truncated :: bool

definition capture_size_bytes :: "capture_info \<Rightarrow> nat" where
  "capture_size_bytes c = ca_samples c * BYTES_PER_SAMPLE"

definition capture_duration_s :: "capture_info \<Rightarrow> pyfloat" where
  "capture_duration_s c =
     (if ca_sample_rate_hz c \<le> 0 then 0 else of_nat (ca_samples c) / ca_sample_rate_hz c)"

definition sidecar_path :: "capture_info \<Rightarrow> string" where
  "sidecar_path c = ca_path c @ ''.json''"

definition capture_to_json :: "(instant \<Rightarrow> string) \<Rightarrow> capture_info \<Rightarrow> pydict" where
  "capture_to_json to_iso c =
     [(''center_hz'', PFloat (ca_center_hz c)),
      (''ended_at'', case ca_ended_at c of Some t \<Rightarrow> PStr (to_iso t) | None \<Rightarrow> PNone),
      (''gain_db'', PFloat (ca_gain_db c)), (''ppm'', PInt (ca_ppm c)),
      (''sample_format'', PStr ''u8''), (''sample_rate_hz'', PFloat (ca_sample_rate_hz c)),
      (''samples'', PInt (int (ca_samples c))), (''started_at'', PStr (to_iso (ca_started_at c))),
      (''tool'', PStr ''rtl_sdr''), (''truncated'', PBool (ca_truncated c))]"

definition capture_describe :: "capture_info \<Rightarrow> string" where
  "capture_describe c =
     fixed 3 (ca_center_hz c / 1000000) @ '' MHz: '' @ join_with '', ''
       ([fixed 1 (capture_duration_s c) @ ''s'', format_size (of_nat (capture_size_bytes c)),
         fixed 3 (ca_center_hz c / 1000000) @ '' MHz @ '' @ fixed 2 (ca_sample_rate_hz c / 1000000)
           @ '' MS/s'',
         ''gain '' @ fixed 1 (ca_gain_db c) @ '' dB'']
        @ (if ca_truncated c then [''TRUNCATED at the size limit''] else []))"

section \<open>Reading a capture\<close>

datatype capture_error = CaptureError string | ConversionError

definition parse_datetime :: "(string \<Rightarrow> instant option) \<Rightarrow> pyval \<Rightarrow> instant option" where
  "parse_datetime of_iso v =
     (case v of PStr s \<Rightarrow> if s = [] then None else of_iso s | _ \<Rightarrow> None)"

text \<open>What is on disk: the capture (its bytes and modification time, or why it cannot be examined) and
  the document of the sidecar, if there is one (\<open>None\<close> inside when unreadable).\<close>

record capture_files =
  cf_path :: string
  cf_file :: "string + string \<times> instant"
  cf_sidecar :: "pyval option option"

definition number_or_zero :: "(pyval \<Rightarrow> 'a option) \<Rightarrow> 'a \<Rightarrow> pyval \<Rightarrow> 'a option" where
  "number_or_zero conv zero v = (if py_truthy v then conv v else Some zero)"

definition read_capture ::
    "(string \<Rightarrow> pyfloat option) \<Rightarrow> (string \<Rightarrow> instant option) \<Rightarrow> capture_files
      \<Rightarrow> capture_error + capture_info" where
  "read_capture float_of of_iso f =
     (case cf_file f of
        Inl e \<Rightarrow> Inl (CaptureError (''Cannot read '' @ cf_path f @ '': '' @ e))
      | Inr (content, mtime) \<Rightarrow>
          (let samples = length content div BYTES_PER_SAMPLE
           in case cf_sidecar f of
                None \<Rightarrow>
                  Inr \<lparr>ca_path = cf_path f, ca_center_hz = 0, ca_sample_rate_hz = 0, ca_gain_db = 0,
                    ca_ppm = 0, ca_samples = samples, ca_started_at = mtime, ca_ended_at = None,
                    ca_truncated = False\<rparr>
              | Some (Some (PDict d)) \<Rightarrow>
                  (case (number_or_zero (py_float float_of) 0 (dict_get d ''center_hz''),
                         number_or_zero (py_float float_of) 0 (dict_get d ''sample_rate_hz''),
                         number_or_zero (py_float float_of) 0 (dict_get d ''gain_db''),
                         number_or_zero py_int 0 (dict_get d ''ppm'')) of
                     (Some center, Some rate, Some gain, Some ppm) \<Rightarrow>
                       Inr \<lparr>ca_path = cf_path f, ca_center_hz = center, ca_sample_rate_hz = rate,
                         ca_gain_db = gain, ca_ppm = ppm, ca_samples = samples,
                         ca_started_at =
                           (case parse_datetime of_iso (dict_get d ''started_at'') of
                              Some t \<Rightarrow> t | None \<Rightarrow> mtime),
                         ca_ended_at = parse_datetime of_iso (dict_get d ''ended_at''),
                         ca_truncated = py_truthy (dict_get d ''truncated'')\<rparr>
                   | _ \<Rightarrow> Inl ConversionError)
              | Some (Some v) \<Rightarrow>
                  Inl (CaptureError (cf_path f @ ''.json does not contain a capture description''))
              | Some None \<Rightarrow> Inl (CaptureError (''Cannot read '' @ cf_path f @ ''.json''))))"

definition aligned_chunk_bytes :: "int \<Rightarrow> nat" where
  "aligned_chunk_bytes chunk_bytes = nat (max (int BYTES_PER_SAMPLE) (chunk_bytes - chunk_bytes mod 2))"

lemma aligned_chunk_bytes_pos: "0 < aligned_chunk_bytes n"
  by (simp add: aligned_chunk_bytes_def BYTES_PER_SAMPLE_def)

function iter_capture_chunks :: "int \<Rightarrow> string \<Rightarrow> string list" where
  "iter_capture_chunks chunk_bytes content =
     (let n = aligned_chunk_bytes chunk_bytes; chunk = take n content
      in if chunk = [] then []
         else if odd (length chunk)
         then (if butlast chunk = [] then []
               else butlast chunk # iter_capture_chunks chunk_bytes (drop n content))
         else chunk # iter_capture_chunks chunk_bytes (drop n content))"
  by pat_completeness auto
termination
  by (relation "measure (\<lambda>(n, s). length s)")
    (auto simp: aligned_chunk_bytes_pos)

declare iter_capture_chunks.simps [simp del]

section \<open>The recorder\<close>

record recorder =
  rc_path :: string
  rc_center_hz :: pyfloat
  rc_sample_rate_hz :: pyfloat
  rc_gain_db :: pyfloat
  rc_ppm :: int
  rc_max_bytes :: "int option"
  rc_samples :: nat
  rc_truncated :: bool
  rc_closed :: bool
  rc_started_at :: instant
  rc_handle :: bool
  rc_content :: string

text \<open>\<open>opened\<close> says why the file could not be created; creating truncates it.\<close>

definition recorder_new ::
    "string option \<Rightarrow> instant \<Rightarrow> string \<Rightarrow> pyfloat \<Rightarrow> pyfloat \<Rightarrow> pyfloat \<Rightarrow> int \<Rightarrow> int option
      \<Rightarrow> capture_error + recorder" where
  "recorder_new opened now path center rate gain ppm max_bytes =
     (case opened of
        Some e \<Rightarrow> Inl (CaptureError (''Cannot write '' @ path @ '': '' @ e))
      | None \<Rightarrow>
          Inr \<lparr>rc_path = path, rc_center_hz = center, rc_sample_rate_hz = rate, rc_gain_db = gain,
            rc_ppm = ppm, rc_max_bytes = max_bytes, rc_samples = 0, rc_truncated = False,
            rc_closed = False, rc_started_at = now, rc_handle = True, rc_content = []\<rparr>)"

definition bytes_written :: "recorder \<Rightarrow> nat" where
  "bytes_written r = rc_samples r * BYTES_PER_SAMPLE"

definition recorder_duration_s :: "recorder \<Rightarrow> pyfloat" where
  "recorder_duration_s r =
     (if rc_sample_rate_hz r \<le> 0 then 0 else of_nat (rc_samples r) / rc_sample_rate_hz r)"

definition whole_samples :: "string \<Rightarrow> string" where
  "whole_samples raw = (if odd (length raw) then butlast raw else raw)"

text \<open>The write itself: \<open>fault = Some (n, e)\<close> when the system accepted \<open>n\<close> bytes and then failed.\<close>

definition store_bytes ::
    "(nat \<times> string) option \<Rightarrow> string \<Rightarrow> recorder \<Rightarrow> capture_error option \<times> recorder" where
  "store_bytes fault data r =
     (if \<not> rc_handle r then (Some (CaptureError ''recorder has no open file''), r)
      else case fault of
        Some (n, e) \<Rightarrow>
          (Some (CaptureError (''Recording to '' @ rc_path r @ '' failed: '' @ e)),
           r\<lparr>rc_content := rc_content r @ take n data, rc_closed := True\<rparr>)
      | None \<Rightarrow>
          (None, r\<lparr>rc_content := rc_content r @ data,
                   rc_samples := rc_samples r + length data div BYTES_PER_SAMPLE\<rparr>))"

definition recorder_write ::
    "(nat \<times> string) option \<Rightarrow> string \<Rightarrow> recorder \<Rightarrow> capture_error option \<times> recorder" where
  "recorder_write fault raw r =
     (if rc_closed r then (Some (CaptureError ''recorder is closed''), r)
      else if raw = [] \<or> rc_truncated r then (None, r)
      else (let data = whole_samples raw
            in if data = [] then (None, r)
               else case rc_max_bytes r of
                 None \<Rightarrow> store_bytes fault data r
               | Some limit \<Rightarrow>
                   (let remaining = limit - int (bytes_written r)
                    in if remaining \<le> 0 then (None, r\<lparr>rc_truncated := True\<rparr>)
                       else if int (length data) > remaining
                       then (let cut = take (nat (remaining - remaining mod 2)) data;
                                 r' = r\<lparr>rc_truncated := True\<rparr>
                             in if cut = [] then (None, r') else store_bytes fault cut r')
                       else store_bytes fault data r)))"

definition info_of :: "instant \<Rightarrow> recorder \<Rightarrow> capture_info" where
  "info_of now r =
     \<lparr>ca_path = rc_path r, ca_center_hz = rc_center_hz r, ca_sample_rate_hz = rc_sample_rate_hz r,
      ca_gain_db = rc_gain_db r, ca_ppm = rc_ppm r, ca_samples = rc_samples r,
      ca_started_at = rc_started_at r, ca_ended_at = Some now, ca_truncated = rc_truncated r\<rparr>"

text \<open>Closing returns the description and the sidecar document, if it could be written.\<close>

definition recorder_close ::
    "(instant \<Rightarrow> string) \<Rightarrow> bool \<Rightarrow> instant \<Rightarrow> recorder \<Rightarrow> capture_info \<times> pyval option \<times> recorder" where
  "recorder_close to_iso sidecar_ok now r =
     (let r' = (if rc_closed r then r else r\<lparr>rc_closed := True, rc_handle := False\<rparr>);
          info = info_of now r'
      in (info, if sidecar_ok then Some (PDict (capture_to_json to_iso info)) else None, r'))"

section \<open>Facts\<close>

lemma length_whole_samples: "length (whole_samples raw) = 2 * (length raw div 2)"
proof (cases "odd (length raw)")
  case True
  then show ?thesis by (auto simp: whole_samples_def elim: oddE)
next
  case False
  then show ?thesis by (simp add: whole_samples_def)
qed

lemma whole_samples_even [simp]: "even (length raw) \<Longrightarrow> whole_samples raw = raw"
  by (simp add: whole_samples_def)

definition record_all :: "string list \<Rightarrow> recorder \<Rightarrow> recorder" where
  "record_all chunks r = fold (\<lambda>raw r. snd (recorder_write None raw r)) chunks r"

text \<open>What a healthy recorder has on disk after the aligned stream \<open>s\<close>.\<close>

definition recorded :: "string \<Rightarrow> recorder \<Rightarrow> bool" where
  "recorded s r \<longleftrightarrow> length (rc_content r) = 2 * rc_samples r \<and> prefix (rc_content r) s
     \<and> (\<not> rc_truncated r \<longrightarrow> rc_content r = s
          \<and> (case rc_max_bytes r of None \<Rightarrow> True | Some m \<Rightarrow> int (length s) \<le> max 0 m))
     \<and> (rc_truncated r \<longrightarrow> (\<exists>m. rc_max_bytes r = Some m
          \<and> int (length (rc_content r)) = max 0 m - max 0 m mod 2))
     \<and> rc_handle r \<and> \<not> rc_closed r"

lemma recorded_longer: "recorded s r \<Longrightarrow> rc_truncated r \<Longrightarrow> recorded (s @ t) r"
  by (auto simp: recorded_def intro: prefix_order.trans)

lemma recorder_write_cut:
  assumes "\<not> rc_closed r" "\<not> rc_truncated r" "rc_handle r" "rc_max_bytes r = Some limit"
    and "raw \<noteq> []" "whole_samples raw = data" "data \<noteq> []"
    and "limit - int (bytes_written r) = remaining" "0 < remaining" "remaining < int (length data)"
    and "take (nat (remaining - remaining mod 2)) data = head" "head \<noteq> []"
  shows "snd (recorder_write None raw r) = r\<lparr>rc_truncated := True,
    rc_content := rc_content r @ head, rc_samples := rc_samples r + length head div 2\<rparr>"
proof -
  have "\<not> remaining \<le> 0" using assms(9) by simp
  then show ?thesis
    using assms unfolding recorder_write_def store_bytes_def BYTES_PER_SAMPLE_def Let_def by simp
qed

lemma recorded_truncatedI:
  assumes "rc_handle r" "\<not> rc_closed r" "rc_max_bytes r = Some m" "prefix c s"
    and "length c = 2 * n" "int (length c) = max 0 m - max 0 m mod 2"
  shows "recorded s (r\<lparr>rc_truncated := True, rc_content := c, rc_samples := n\<rparr>)"
  using assms by (simp add: recorded_def)

lemma recorded_write:
  assumes "recorded s r"
  shows "recorded (s @ whole_samples raw) (snd (recorder_write None raw r))"
proof (cases "rc_truncated r \<or> whole_samples raw = []")
  case True
  moreover have "whole_samples [] = []" by (simp add: whole_samples_def)
  ultimately have "snd (recorder_write None raw r) = r"
    using assms by (auto simp: recorder_write_def recorded_def)
  with True assms recorded_longer show ?thesis by (cases "rc_truncated r") auto
next
  case False
  let ?d = "whole_samples raw"
  have raw: "raw \<noteq> []" "\<not> rc_truncated r" "?d \<noteq> []" "rc_content r = s"
    "length s = 2 * rc_samples r" "rc_handle r" "\<not> rc_closed r"
    using False assms by (auto simp: whole_samples_def recorded_def)
  have d: "even (length ?d)" by (simp add: length_whole_samples)
  show ?thesis
  proof (cases "rc_max_bytes r")
    case None
    then show ?thesis using raw d
      by (simp add: recorded_def recorder_write_def store_bytes_def Let_def BYTES_PER_SAMPLE_def)
  next
    case (Some limit)
    define remaining where "remaining = limit - int (length s)"
    have w: "int (bytes_written r) = int (length s)"
      using raw by (simp add: bytes_written_def BYTES_PER_SAMPLE_def)
    have s: "int (length s) \<le> max 0 limit" "int (length s) mod 2 = 0"
      using assms raw Some by (simp_all add: recorded_def)
    consider "remaining \<le> 0" | "0 < remaining" "int (length ?d) > remaining"
      | "0 < remaining" "int (length ?d) \<le> remaining" by linarith
    then show ?thesis
    proof cases
      case 1
      then have "int (length s) = max 0 limit" using s(1) unfolding remaining_def by linarith
      with 1 show ?thesis using raw Some w s
        by (simp add: recorded_def recorder_write_def Let_def remaining_def)
    next
      case 2
      let ?n = "nat (remaining - remaining mod 2)"
      have n: "int ?n = remaining - remaining mod 2" using 2 by (simp add: zmod_le_nonneg_dividend)
      have "even (int ?n)" unfolding n by presburger
      then have even: "even ?n" by (simp only: even_of_nat_iff)
      have lt: "?n < length ?d" using n 2 by (smt (verit) of_nat_less_iff pos_mod_sign)
      have tot: "int (length s) + int ?n = max 0 limit - max 0 limit mod 2"
      proof -
        have "0 < limit" using 2(1) by (simp add: remaining_def)
        moreover have "limit mod 2 = remaining mod 2" using s(2) unfolding remaining_def by presburger
        ultimately show ?thesis using n by (simp add: remaining_def)
      qed
      show ?thesis
      proof (cases "?n = 0")
        case True
        with 2 show ?thesis using raw Some w tot
          by (auto simp: recorded_def recorder_write_def Let_def simp flip: remaining_def)
      next
        case False
        have rem: "limit - int (bytes_written r) = remaining" using w by (simp add: remaining_def)
        have len: "length (take ?n ?d) = ?n" using lt by simp
        have head: "take ?n ?d \<noteq> []" using False raw(3) by simp
        have "snd (recorder_write None raw r) = r\<lparr>rc_truncated := True,
            rc_content := s @ take ?n ?d, rc_samples := rc_samples r + ?n div 2\<rparr>"
          using recorder_write_cut [OF raw(7,2,6) Some raw(1) refl raw(3) rem 2 refl head]
          unfolding len raw(4) .
        moreover have "recorded (s @ ?d) (r\<lparr>rc_truncated := True,
            rc_content := s @ take ?n ?d, rc_samples := rc_samples r + ?n div 2\<rparr>)"
        proof (rule recorded_truncatedI [OF raw(6,7) Some])
          show "prefix (s @ take ?n ?d) (s @ ?d)" by (simp add: take_is_prefix)
          show "length (s @ take ?n ?d) = 2 * (rc_samples r + ?n div 2)"
            using even by (simp only: length_append len raw(5)) simp
          show "int (length (s @ take ?n ?d)) = max 0 limit - max 0 limit mod 2"
            using tot by (simp only: length_append len of_nat_add)
        qed
        ultimately show ?thesis by simp
      qed
    next
      case 3
      then show ?thesis using raw Some w d
        by (simp add: recorded_def recorder_write_def store_bytes_def Let_def BYTES_PER_SAMPLE_def
            remaining_def)
    qed
  qed
qed

lemma recorded_all:
  "recorded s r \<Longrightarrow> recorded (s @ concat (map whole_samples chunks)) (record_all chunks r)"
proof (induction chunks arbitrary: s r)
  case Nil
  then show ?case by (simp add: record_all_def)
next
  case (Cons raw chunks)
  from Cons.IH [OF recorded_write [OF Cons.prems, of raw]] show ?case by (simp add: record_all_def)
qed

lemma recorded_new:
  "recorder_new None now path center rate gain ppm limit = Inr r \<Longrightarrow> recorded [] r"
  by (auto simp: recorder_new_def recorded_def split: option.splits)


lemma concat_chunks:
  "concat (iter_capture_chunks n content) = whole_samples content
    \<and> list_all (\<lambda>c. c \<noteq> [] \<and> even (length c)) (iter_capture_chunks n content)"
proof (induction n content rule: iter_capture_chunks.induct)
  case (1 n content)
  let ?n = "aligned_chunk_bytes n" and ?c = "take (aligned_chunk_bytes n) content"
  have even: "even ?n"
    unfolding aligned_chunk_bytes_def BYTES_PER_SAMPLE_def by (simp add: even_nat_iff max_def)
  show ?case
  proof (cases "?c = [] \<or> odd (length ?c)")
    case True
    then have "length content \<le> ?n" using even aligned_chunk_bytes_pos [of n]
      by (cases "?n \<le> length content") auto
    moreover have "odd (length content) \<Longrightarrow> even (length (butlast content))" by simp
    ultimately show ?thesis using True
      by (subst (1 2) iter_capture_chunks.simps)
        (auto simp: Let_def whole_samples_def aligned_chunk_bytes_pos iter_capture_chunks.simps [of n "[]"])
  next
    case False
    have "whole_samples (?c @ drop ?n content) = ?c @ whole_samples (drop ?n content)"
      using False by (auto simp: whole_samples_def butlast_append simp del: append_take_drop_id)
    then have "whole_samples content = ?c @ whole_samples (drop ?n content)" by simp
    with False 1(2) [OF refl refl] show ?thesis
      by (subst (1 2) iter_capture_chunks.simps) (simp add: Let_def)
  qed
qed



text \<open>C30: what was recorded can be opened again as it was: reading the closed file with its sidecar
  gives the recorder's own description, and its chunks, aligned whatever the chunk size, are the
  recorded bytes.\<close>

theorem capture_reads_back:
  assumes "recorder_new None now path center rate gain ppm limit = Inr r0"
    and "recorder_close to_iso True stop (record_all chunks r0) = (info, Some doc, r)"
    and "\<And>t. of_iso (to_iso t) = Some t" "\<And>t. to_iso t \<noteq> []"
  shows "read_capture float_of of_iso
      \<lparr>cf_path = path, cf_file = Inr (rc_content r, mtime), cf_sidecar = Some (Some doc)\<rparr> = Inr info
    \<and> concat (iter_capture_chunks n (rc_content r)) = rc_content r"
proof -
  let ?r = "record_all chunks r0"
  have rec: "recorded (concat (map whole_samples chunks)) ?r"
    using recorded_all [OF recorded_new [OF assms(1)], of chunks] by simp
  have path: "rc_path ?r = path"
  proof -
    have "rc_path (snd (recorder_write None raw r)) = rc_path r" for raw r
      by (simp add: recorder_write_def store_bytes_def Let_def split: option.splits)
    then have "rc_path (record_all chunks r) = rc_path r" for r
      unfolding record_all_def by (induction chunks arbitrary: r) simp_all
    then show ?thesis using assms(1) by (auto simp: recorder_new_def)
  qed
  have r: "rc_content r = rc_content ?r" "info = info_of stop r" "rc_path r = path"
    "rc_samples r = rc_samples ?r" "doc = PDict (capture_to_json to_iso info)"
    using assms(2) path by (auto simp: recorder_close_def Let_def split: if_splits)
  have len: "length (rc_content r) = 2 * rc_samples r" using rec r by (simp add: recorded_def)
  then have "concat (iter_capture_chunks n (rc_content r)) = rc_content r"
    using concat_chunks [of n "rc_content r"] by simp
  moreover have "number_or_zero (py_float float_of) 0 (PFloat x) = Some x"
    "number_or_zero py_int 0 (PInt i) = Some i" for x i
    by (simp_all add: number_or_zero_def py_float_def as_num_def py_int_def)
  ultimately show ?thesis using r len assms(3,4)
    by (simp add: read_capture_def capture_to_json_def dict_get_def info_of_def parse_datetime_def
        BYTES_PER_SAMPLE_def)
qed

theorem capture_reads_back_witness:
  "\<exists>info doc (r :: recorder). read_capture (\<lambda>s. None) parse_int
      \<lparr>cf_path = ''a.iq'', cf_file = Inr (rc_content r, 9), cf_sidecar = Some (Some doc)\<rparr> = Inr info
    \<and> concat (iter_capture_chunks 5 (rc_content r)) = rc_content r"
proof -
  obtain r0 where r0: "recorder_new None 0 ''a.iq'' 0 1 0 0 (Some 5) = Inr r0"
    by (simp add: recorder_new_def)
  let ?r = "record_all [''ab'', ''cd'', ''ef''] r0"
  obtain info doc r where cl: "recorder_close show_int True 1 ?r = (info, Some doc, r)"
    by (simp add: recorder_close_def Let_def)
  have "show_int t \<noteq> []" for t
    using parse_int_show_int [of t] by (auto simp: parse_int_def strip_plain)
  from capture_reads_back [OF r0 cl parse_int_show_int this, of "\<lambda>s. None" 9 5]
  show ?thesis by (intro exI [of _ info] exI [of _ doc] exI [of _ r])
qed

text \<open>An odd chunk loses its last byte, so the next chunk starts with the Q byte of the sample cut in
  half: from there on I and Q change places.\<close>

lemma odd_chunk_swaps_channels:
  assumes "recorder_new None now path center rate gain ppm None = Inr r0"
  shows "rc_content (record_all [[i0, q0, i1], [q1, i2, q2]] r0) = [i0, q0, q1, i2]"
  using assms
  by (auto simp: recorder_new_def record_all_def recorder_write_def store_bytes_def whole_samples_def
      Let_def)

text \<open>A failed write closes the recorder without closing its file handle, and \<open>close\<close> skips it later.\<close>

lemma failed_write_keeps_handle:
  assumes "rc_handle r" "\<not> rc_closed r" "\<not> rc_truncated r" "1 < length raw" "rc_max_bytes r = None"
  shows "let r' = snd (recorder_write (Some (n, e)) raw r) in
    rc_closed r' \<and> rc_handle (snd (snd (recorder_close to_iso ok now r')))"
proof -
  have "whole_samples raw \<noteq> []" using assms(4) by (cases raw rule: rev_cases) (auto simp: whole_samples_def)
  with assms show ?thesis
    by (auto simp: recorder_write_def store_bytes_def recorder_close_def Let_def)
qed

end
