(* ===== verification/Sdr.thy ===== *)
theory Sdr
  imports Leases Recorder
begin

text \<open>
  \<open>services/sdr_source.py\<close>: the conversion of raw I/Q into power rows, the replay of a recording, and
  the capture worker with its lease, its child process and its recording.  The discrete Fourier
  transform (window, transform, averaging and the logarithm) is the parameter \<open>spectrum\<close>; samples are
  exact rationals.  The worker's thread runs \<open>start\<close>, the capture loop and \<open>_close\<close>; \<open>stop\<close>, arming
  and stopping a recording are direct calls from the GUI thread that may fall between any two reads.
\<close>

section \<open>Power rows\<close>

definition FFT_BINS :: nat where "FFT_BINS = 1024"
definition READ_SAMPLES :: nat where "READ_SAMPLES = 32768"
definition STDERR_LINES :: nat where "STDERR_LINES = 40"
definition DC_ARTEFACT_BINS :: nat where "DC_ARTEFACT_BINS = 3"
definition CENTRE_SIGNAL_DB :: pyfloat where "CENTRE_SIGNAL_DB = 3"

text \<open>The bins are repaired from left to right, each from the row as it then stands.\<close>

definition repair_bin :: "nat \<Rightarrow> nat \<Rightarrow> pyfloat list \<Rightarrow> pyfloat list" where
  "repair_bin half index row = row[index := (row ! (index - half - 2) + row ! (index + half + 2)) / 2]"

definition repair_dc_bins :: "pyfloat list \<Rightarrow> pyfloat list" where
  "repair_dc_bins row =
     (let half = DC_ARTEFACT_BINS div 2; centre = length row div 2;
          occupied = take (2 * half + 1) (drop (centre - half) row);
          reference = (row ! (centre - half - 2) + row ! (centre + half + 2)) / 2
      in if Max (set occupied) > reference + CENTRE_SIGNAL_DB then row
         else fold (repair_bin half) [centre - half..<centre + half + 1] row)"

definition octet :: "char \<Rightarrow> pyfloat" where
  "octet c = (of_nat (of_char c) - 255/2) / (255/2)"

fun iq_pairs :: "string \<Rightarrow> (pyfloat \<times> pyfloat) list" where
  "iq_pairs (i # q # rest) = (octet i, octet q) # iq_pairs rest"
| "iq_pairs _ = []"

definition mean :: "pyfloat list \<Rightarrow> pyfloat" where
  "mean xs = sum_list xs / of_nat (length xs)"

definition centre_frame :: "(pyfloat \<times> pyfloat) list \<Rightarrow> (pyfloat \<times> pyfloat) list" where
  "centre_frame frame =
     (let mi = mean (map fst frame); mq = mean (map snd frame)
      in map (\<lambda>(i, q). (i - mi, q - mq)) frame)"

definition frames_of :: "(pyfloat \<times> pyfloat) list \<Rightarrow> (pyfloat \<times> pyfloat) list list" where
  "frames_of samples =
     map (\<lambda>k. take FFT_BINS (drop (k * FFT_BINS) samples)) [0..<length samples div FFT_BINS]"

type_synonym spectrum = "(pyfloat \<times> pyfloat) list list \<Rightarrow> pyfloat list"

definition iq_to_power_row :: "spectrum \<Rightarrow> string \<Rightarrow> pyfloat list option" where
  "iq_to_power_row spectrum raw =
     (let usable = length raw div 2 * 2
      in if usable < FFT_BINS * 2 then None
         else Some (repair_dc_bins (spectrum (map centre_frame (frames_of (iq_pairs raw))))))"

definition replay_rows :: "spectrum \<Rightarrow> nat \<Rightarrow> string \<Rightarrow> pyfloat list list" where
  "replay_rows spectrum chunk_samples content =
     List.map_filter (iq_to_power_row spectrum)
       (iter_capture_chunks (int (chunk_samples * 2)) content)"

section \<open>The capture worker\<close>

record sdr_worker =
  sw_label :: string
  sw_owner :: string
  sw_proc :: "nat option"
  sw_running :: bool
  sw_device :: int
  sw_ppm :: int
  sw_stderr :: "string list"
  sw_recorder :: "recorder option"
  sw_record_to :: "string option"
  sw_record_max_bytes :: "int option"

datatype sdr_output =
    RowReady "pyfloat list"
  | Started pyfloat pyfloat nat
  | Stopped string
  | Error string
  | RecordingFinished capture_info
  | RecordingFailed string
  | Terminate nat

definition sdr_worker_new :: "string \<Rightarrow> nat \<Rightarrow> sdr_worker" where
  "sdr_worker_new label uid =
     \<lparr>sw_label = label, sw_owner = ''sdr-'' @ show_nat uid, sw_proc = None, sw_running = False,
      sw_device = 0, sw_ppm = 0, sw_stderr = [], sw_recorder = None, sw_record_to = None,
      sw_record_max_bytes = None\<rparr>"

definition gain_text :: "pyfloat \<Rightarrow> string" where
  "gain_text gain_db = (if gain_db < 0 then ''0'' else fixed 1 gain_db)"

definition sdr_command ::
    "tool_host \<Rightarrow> sdr_worker \<Rightarrow> pyfloat \<Rightarrow> pyfloat \<Rightarrow> pyfloat \<Rightarrow> int \<Rightarrow> string + string list" where
  "sdr_command h w center_hz sample_rate_hz gain_db device_index =
     (case find_tool h ''rtl_sdr'' of
        None \<Rightarrow> Inl ''rtl_sdr was not found on PATH''
      | Some tool \<Rightarrow>
          Inr [tool, ''-d'', show_int device_index, ''-f'', show_int (trunc center_hz),
            ''-s'', show_int (trunc sample_rate_hz), ''-g'', gain_text gain_db,
            ''-p'', show_int (sw_ppm w), ''-''])"

definition arm_recording :: "string option \<Rightarrow> int option \<Rightarrow> sdr_worker \<Rightarrow> sdr_worker" where
  "arm_recording path max_bytes w =
     w\<lparr>sw_record_to := (if truthy_str path then path else None), sw_record_max_bytes := max_bytes\<rparr>"

text \<open>The world at the start of a capture: whether the child starts (its process number) and whether
  the recording's file can be created.\<close>

record start_world =
  st_host :: tool_host
  st_popen :: "string + nat"
  st_open_error :: "string option"
  st_now :: instant

definition error_text :: "capture_error \<Rightarrow> string" where
  "error_text e = (case e of CaptureError m \<Rightarrow> m | ConversionError \<Rightarrow> [])"

definition open_recorder ::
    "start_world \<Rightarrow> pyfloat \<Rightarrow> pyfloat \<Rightarrow> pyfloat \<Rightarrow> sdr_worker \<Rightarrow> sdr_worker \<times> sdr_output list" where
  "open_recorder env center_hz sample_rate_hz gain_db w =
     (case sw_record_to w of
        None \<Rightarrow> (w, [])
      | Some path \<Rightarrow>
          (case recorder_new (st_open_error env) (st_now env) path center_hz sample_rate_hz
                  (if 0 \<le> gain_db then gain_db else 0) (sw_ppm w) (sw_record_max_bytes w) of
             Inl e \<Rightarrow> (w\<lparr>sw_recorder := None\<rparr>, [RecordingFailed (error_text e)])
           | Inr r \<Rightarrow> (w\<lparr>sw_recorder := Some r\<rparr>, [])))"

text \<open>\<open>start\<close> up to its capture loop; the flag says whether the loop is entered.\<close>

definition sdr_begin ::
    "start_world \<Rightarrow> pyfloat \<Rightarrow> pyfloat \<Rightarrow> pyfloat \<Rightarrow> int \<Rightarrow> sdr_worker \<Rightarrow> leases
      \<Rightarrow> (sdr_worker \<times> leases) \<times> sdr_output list \<times> bool" where
  "sdr_begin env center_hz sample_rate_hz gain_db device_index w l =
     (if sw_running w then ((w, l), [], False)
      else case sdr_command (st_host env) w center_hz sample_rate_hz gain_db device_index of
        Inl e \<Rightarrow> ((w, l), [Error e], False)
      | Inr argv \<Rightarrow>
          (let w = w\<lparr>sw_device := device_index\<rparr>;
               ((held, complaint), l) = acquire_sdr (sw_owner w) (sw_label w) device_index l
           in if \<not> held then ((w, l), [Error complaint], False)
              else case st_popen env of
                Inl e \<Rightarrow> ((w, l), [Error (''Could not start rtl_sdr: '' @ e)], False)
              | Inr pid \<Rightarrow>
                  (let (w, out) = open_recorder env center_hz sample_rate_hz gain_db
                         (w\<lparr>sw_proc := Some pid\<rparr>)
                   in ((w\<lparr>sw_running := True\<rparr>, l),
                       out @ [Started center_hz sample_rate_hz FFT_BINS], True))))"

text \<open>\<open>to_iso\<close> renders a time; \<open>sidecar_ok\<close> and \<open>now\<close> are the world of closing a recording.\<close>

definition finish_recording ::
    "(instant \<Rightarrow> string) \<Rightarrow> bool \<Rightarrow> instant \<Rightarrow> sdr_worker \<Rightarrow> sdr_worker \<times> sdr_output list" where
  "finish_recording to_iso sidecar_ok now w =
     (case sw_recorder w of
        None \<Rightarrow> (w\<lparr>sw_recorder := None\<rparr>, [])
      | Some r \<Rightarrow>
          (w\<lparr>sw_recorder := None\<rparr>,
           [RecordingFinished (fst (recorder_close to_iso sidecar_ok now r))]))"

definition stop_recording ::
    "(instant \<Rightarrow> string) \<Rightarrow> bool \<Rightarrow> instant \<Rightarrow> sdr_worker \<Rightarrow> sdr_worker \<times> sdr_output list" where
  "stop_recording = finish_recording"

definition is_recording :: "sdr_worker \<Rightarrow> bool" where
  "is_recording w \<longleftrightarrow> sw_recorder w \<noteq> None"

definition tee ::
    "(instant \<Rightarrow> string) \<Rightarrow> bool \<Rightarrow> instant \<Rightarrow> (nat \<times> string) option \<Rightarrow> string \<Rightarrow> sdr_worker
      \<Rightarrow> sdr_worker \<times> sdr_output list" where
  "tee to_iso sidecar_ok now fault raw w =
     (case sw_recorder w of
        None \<Rightarrow> (w, [])
      | Some r \<Rightarrow>
          (case recorder_write fault raw r of
             (Some e, r') \<Rightarrow> (w\<lparr>sw_recorder := None\<rparr>, [RecordingFailed (error_text e)])
           | (None, r') \<Rightarrow>
               (let w' = w\<lparr>sw_recorder := Some r'\<rparr>
                in if rc_truncated r' then stop_recording to_iso sidecar_ok now w' else (w', []))))"

definition sdr_drain :: "string \<Rightarrow> sdr_worker \<Rightarrow> sdr_worker" where
  "sdr_drain raw w = w\<lparr>sw_stderr := stderr_append STDERR_LINES (sw_stderr w) raw\<rparr>"

text \<open>One round of the loop on a non-empty read.\<close>

definition sdr_round ::
    "spectrum \<Rightarrow> (instant \<Rightarrow> string) \<Rightarrow> bool \<Rightarrow> instant \<Rightarrow> (nat \<times> string) option \<Rightarrow> string
      \<Rightarrow> sdr_worker \<Rightarrow> sdr_worker \<times> sdr_output list" where
  "sdr_round spectrum to_iso sidecar_ok now fault raw w =
     (let (w, out) = tee to_iso sidecar_ok now fault raw w
      in (w, out @ (case iq_to_power_row spectrum raw of None \<Rightarrow> [] | Some row \<Rightarrow> [RowReady row])))"

definition sdr_stop :: "bool \<Rightarrow> sdr_worker \<Rightarrow> sdr_worker \<times> sdr_output list" where
  "sdr_stop child_alive w =
     (w\<lparr>sw_running := False\<rparr>,
      case sw_proc w of Some pid \<Rightarrow> if child_alive then [Terminate pid] else [] | None \<Rightarrow> [])"

text \<open>\<open>_close\<close>: the recording is finished and the lease given back before the child is reaped.\<close>

definition sdr_close ::
    "(instant \<Rightarrow> string) \<Rightarrow> bool \<Rightarrow> instant \<Rightarrow> child_end \<Rightarrow> sdr_worker \<Rightarrow> leases
      \<Rightarrow> (string \<times> int option) \<times> (sdr_worker \<times> leases) \<times> sdr_output list" where
  "sdr_close to_iso sidecar_ok now ending w l =
     (let (w, out) = finish_recording to_iso sidecar_ok now w;
          code = (if sw_proc w = None then None else exit_code ending)
      in ((stderr_tail (sw_stderr w), code),
          (w\<lparr>sw_proc := None, sw_stderr := []\<rparr>, release_sdr (sw_owner w) (sw_device w) l), out))"

text \<open>What follows the loop.\<close>

definition sdr_leave ::
    "(instant \<Rightarrow> string) \<Rightarrow> bool \<Rightarrow> instant \<Rightarrow> child_end \<Rightarrow> sdr_worker \<Rightarrow> leases
      \<Rightarrow> (sdr_worker \<times> leases) \<times> sdr_output list" where
  "sdr_leave to_iso sidecar_ok now ending w l =
     (let intentional = \<not> sw_running w;
          ((tail, code), wl, out) = sdr_close to_iso sidecar_ok now ending w l
      in (wl, out @ [if intentional \<or> code = Some 0 then Stopped ''Capture stopped''
                     else Error (explain_failure tail ''rtl_sdr'')]))"

definition sdr_shutdown ::
    "(instant \<Rightarrow> string) \<Rightarrow> bool \<Rightarrow> instant \<Rightarrow> child_end \<Rightarrow> sdr_worker \<Rightarrow> leases
      \<Rightarrow> (sdr_worker \<times> leases) \<times> sdr_output list" where
  "sdr_shutdown to_iso sidecar_ok now ending w l =
     (let (w, out) = sdr_stop (ce_poll ending = None) w;
          (_, wl, out') = sdr_close to_iso sidecar_ok now ending w l
      in (wl, out @ out'))"

text \<open>The loop itself, on what reaches it: reads (the empty read is the end of the child's output), and
  the GUI thread's calls in between.\<close>

datatype feed =
    Bytes "(nat \<times> string) option" string
  | Diagnostic string
  | StopCalled
  | StopRecordingCalled

fun capture_loop ::
    "spectrum \<Rightarrow> (instant \<Rightarrow> string) \<Rightarrow> bool \<Rightarrow> instant \<Rightarrow> feed list \<Rightarrow> sdr_worker
      \<Rightarrow> sdr_worker \<times> sdr_output list" where
  "capture_loop spectrum to_iso ok now [] w = (w, [])"
| "capture_loop spectrum to_iso ok now (Bytes fault raw # fs) w =
     (if \<not> sw_running w \<or> raw = [] then (w, [])
      else (let (w, out) = sdr_round spectrum to_iso ok now fault raw w;
                (w, out') = capture_loop spectrum to_iso ok now fs w
            in (w, out @ out')))"
| "capture_loop spectrum to_iso ok now (Diagnostic line # fs) w =
     capture_loop spectrum to_iso ok now fs (sdr_drain line w)"
| "capture_loop spectrum to_iso ok now (StopCalled # fs) w =
     (let (w, out) = sdr_stop True w; (w, out') = capture_loop spectrum to_iso ok now fs w
      in (w, out @ out'))"
| "capture_loop spectrum to_iso ok now (StopRecordingCalled # fs) w =
     (let (w, out) = stop_recording to_iso ok now w;
          (w, out') = capture_loop spectrum to_iso ok now fs w
      in (w, out @ out'))"

definition sdr_start ::
    "spectrum \<Rightarrow> (instant \<Rightarrow> string) \<Rightarrow> bool \<Rightarrow> start_world \<Rightarrow> instant \<Rightarrow> child_end \<Rightarrow> feed list
      \<Rightarrow> pyfloat \<Rightarrow> pyfloat \<Rightarrow> pyfloat \<Rightarrow> int \<Rightarrow> sdr_worker \<Rightarrow> leases
      \<Rightarrow> (sdr_worker \<times> leases) \<times> sdr_output list" where
  "sdr_start spectrum to_iso ok env now ending fs center rate gain device w l =
     (case sdr_begin env center rate gain device w l of
        ((w, l), out, entered) \<Rightarrow>
          if \<not> entered then ((w, l), out)
          else (let (w, out') = capture_loop spectrum to_iso ok now fs w;
                    (wl, out'') = sdr_leave to_iso ok now ending w l
                in (wl, out @ out' @ out'')))"

section \<open>Facts on the capture worker\<close>

lemma repair_bins:
  assumes "length row = FFT_BINS" "k < FFT_BINS"
  shows "repair_dc_bins row ! k =
    (if k \<in> {511, 512, 513} \<and> \<not> Max {row ! 511, row ! 512, row ! 513} > (row ! 509 + row ! 515) / 2 + 3
     then (row ! (k - 3) + row ! (k + 3)) / 2 else row ! k)"
proof -
  have occ: "set (take 3 (drop 511 row)) = {row ! 511, row ! 512, row ! 513}"
  proof -
    have "take 3 (drop 511 row) = [row ! 511, row ! 512, row ! 513]"
      using assms(1) by (intro nth_equalityI) (auto simp: FFT_BINS_def nth_Cons' less_Suc_eq numeral_3_eq_3)
    then show ?thesis by simp
  qed
  have u: "[511..<514] = [511, 512, 513]" by (simp add: upt_rec)
  show ?thesis using assms
    by (auto simp: repair_dc_bins_def DC_ARTEFACT_BINS_def CENTRE_SIGNAL_DB_def FFT_BINS_def Let_def
        occ u repair_bin_def)
qed

definition is_verdict :: "sdr_output \<Rightarrow> bool" where
  "is_verdict x \<longleftrightarrow> (case x of Stopped _ \<Rightarrow> True | Error _ \<Rightarrow> True | _ \<Rightarrow> False)"

abbreviation verdicts :: "sdr_output list \<Rightarrow> sdr_output list" where
  "verdicts \<equiv> filter is_verdict"

lemma quiet_parts [simp]:
  "verdicts (snd (finish_recording to_iso ok now w)) = []"
  "verdicts (snd (stop_recording to_iso ok now w)) = []"
  "verdicts (snd (tee to_iso ok now fault raw w)) = []"
  "verdicts (snd (open_recorder env c r g w)) = []"
  "verdicts (snd (sdr_stop alive w)) = []"
  by (auto simp: finish_recording_def stop_recording_def tee_def open_recorder_def sdr_stop_def
      is_verdict_def Let_def split: option.splits sum.splits prod.splits)

lemma quiet_round [simp]: "verdicts (snd (sdr_round spectrum to_iso ok now fault raw w)) = []"
  by (simp add: sdr_round_def is_verdict_def case_prod_beta Let_def split: option.splits)

lemma quiet_loop [simp]: "verdicts (snd (capture_loop spectrum to_iso ok now fs w)) = []"
proof (induction fs arbitrary: w)
  case (Cons f fs)
  then show ?case by (cases f) (simp_all add: case_prod_beta Let_def)
qed simp

lemma one_verdict_leaving: "length (verdicts (snd (sdr_leave to_iso ok now ending w l))) = 1"
  by (simp add: sdr_leave_def sdr_close_def Let_def is_verdict_def case_prod_beta)

lemma begin_verdicts:
  "length (verdicts (fst (snd (sdr_begin env c r g d w l)))) =
    (if sw_running w \<or> snd (snd (sdr_begin env c r g d w l)) then 0 else 1)"
  "sw_running w \<Longrightarrow> \<not> snd (snd (sdr_begin env c r g d w l))"
  by (simp_all add: sdr_begin_def is_verdict_def Let_def case_prod_beta split: sum.splits)

text \<open>A capture never ends in two ways: every start that is not ignored reports exactly one outcome,
  either an error or a stop, whatever the tool, the recording and the GUI do meanwhile.\<close>

theorem one_outcome_per_capture:
  "length (verdicts (snd (sdr_start spectrum to_iso ok env now ending fs center rate gain device w l)))
    = (if sw_running w then 0 else 1)"
  using begin_verdicts [where env = env and c = center and r = rate and g = gain and d = device
      and w = w and l = l] one_verdict_leaving [of to_iso ok now ending]
  by (simp add: sdr_start_def case_prod_beta Let_def split: if_splits)

lemma loop_keeps_running:
  "StopCalled \<notin> set fs \<Longrightarrow>
    sw_running (fst (capture_loop spectrum to_iso ok now fs w)) = sw_running w"
proof -
  have tee: "sw_running (fst (tee to_iso ok now fault raw w)) = sw_running w" for fault raw w
    by (simp add: tee_def stop_recording_def finish_recording_def Let_def
        split: option.splits prod.splits)
  have round: "sw_running (fst (sdr_round spectrum to_iso ok now fault raw w)) = sw_running w" for fault raw w
    by (simp add: sdr_round_def case_prod_beta Let_def tee)
  have rec: "sw_running (fst (stop_recording to_iso ok now w)) = sw_running w" for w
    by (simp add: stop_recording_def finish_recording_def split: option.splits)
  show "StopCalled \<notin> set fs \<Longrightarrow> ?thesis"
  proof (induction fs arbitrary: w)
    case (Cons f fs)
    then show ?case
    proof (cases f)
      case (Bytes fault raw)
      then show ?thesis using Cons by (simp add: case_prod_beta Let_def round)
    next
      case (Diagnostic line)
      then show ?thesis using Cons by (simp add: sdr_drain_def)
    next
      case StopRecordingCalled
      then show ?thesis using Cons by (simp add: case_prod_beta Let_def rec)
    qed auto
  qed simp
qed

text \<open>A capture whose child dies by itself leaves the running flag up: the next start is ignored.\<close>

lemma crash_blocks_restart:
  assumes "sdr_begin env c r g d w l = ((w1, l1), out, True)" "StopCalled \<notin> set fs"
    and "sdr_start spectrum to_iso ok env now ending fs c r g d w l = ((w2, l2), out2)"
  shows "sw_proc w2 = None \<and> sdr_begin env' c' r' g' d' w2 l2 = ((w2, l2), [], False)"
proof -
  have run: "sw_running w1" using assms(1)
    by (auto simp: sdr_begin_def Let_def split: if_splits sum.splits prod.splits)
  obtain w3 o3 where loop: "capture_loop spectrum to_iso ok now fs w1 = (w3, o3)" by fastforce
  have "sw_running w3" using loop_keeps_running [OF assms(2), of spectrum to_iso ok now w1] loop run by simp
  then have "sw_running w2 \<and> sw_proc w2 = None" using assms(3)
    by (auto simp: sdr_start_def assms(1) loop sdr_leave_def sdr_close_def finish_recording_def Let_def
        split: prod.splits option.splits)
  then show ?thesis by (simp add: sdr_begin_def)
qed

text \<open>A child that cannot be started leaves its lease behind.\<close>

lemma failed_start_keeps_lease:
  assumes "\<not> sw_running w" "find_tool (st_host env) ''rtl_sdr'' \<noteq> None" "l d = None"
    and "st_popen env = Inl e"
  shows "\<exists>out w'. sdr_begin env c r g d w l = ((w', l(d \<mapsto> (sw_owner w, sw_label w))), out, False)
    \<and> \<not> sw_running w' \<and> sw_proc w' = sw_proc w"
  using assms by (auto simp: sdr_begin_def sdr_command_def acquire_sdr_def Let_def)

end
