(* ===== verification/Scan.thy ===== *)
theory Scan
  imports Leases
begin

text \<open>
  \<open>services/rtl_scan.py\<close>: \<open>rtl_power\<close>'s CSV rows, the stitching of rows into a sweep, the band picture
  that remembers each bin's last reading, the assembler that finds the sweeps in the row stream, and
  the scan worker.  A power value is an optional number, \<open>None\<close> for what is not finite; \<open>float_of\<close>
  parses finite numbers and \<open>general\<close> is the number format \<open>g\<close>.
\<close>

section \<open>Rows\<close>

definition NAN_TOKENS :: "string list" where
  "NAN_TOKENS = [''-nan(ind)'', ''nan(ind)'', ''-nan'', ''nan'', ''n/a'', ''-inf'', ''inf'',
     ''-infinity'', ''infinity'']"

definition HEADER_FIELDS :: nat where "HEADER_FIELDS = 6"
definition MAX_PENDING_ROWS :: nat where "MAX_PENDING_ROWS = 64"

record power_row =
  pw_low_hz :: pyfloat
  pw_high_hz :: pyfloat
  pw_step_hz :: pyfloat
  pw_samples :: int
  pw_power_db :: "pyfloat option list"

definition bin_count :: "power_row \<Rightarrow> nat" where
  "bin_count r = length (pw_power_db r)"

definition row_frequencies :: "power_row \<Rightarrow> pyfloat list" where
  "row_frequencies r = map (\<lambda>i. pw_low_hz r + of_nat i * pw_step_hz r) [0..<bin_count r]"

record scan_request =
  sr_low_hz :: pyfloat
  sr_high_hz :: pyfloat
  sr_bin_hz :: pyfloat
  sr_interval_s :: pyfloat
  sr_gain_db :: pyfloat
  sr_device_index :: int

definition span_hz :: "scan_request \<Rightarrow> pyfloat" where
  "span_hz r = sr_high_hz r - sr_low_hz r"

definition parse_power :: "(string \<Rightarrow> pyfloat option) \<Rightarrow> string \<Rightarrow> pyfloat option" where
  "parse_power float_of token = (if lower token \<in> set NAN_TOKENS then None else float_of token)"

definition parse_power_row :: "(string \<Rightarrow> pyfloat option) \<Rightarrow> string \<Rightarrow> power_row option" where
  "parse_power_row float_of line =
     (let fields = map strip (split_on (CHR '','') line)
      in if length fields < HEADER_FIELDS + 2 then None
         else case (float_of (fields ! 2), float_of (fields ! 3), float_of (fields ! 4),
                    float_of (fields ! 5)) of
           (Some low, Some high, Some step, Some samples) \<Rightarrow>
             (if step \<le> 0 \<or> high < low then None
              else (let values = map (parse_power float_of) (drop HEADER_FIELDS fields)
                    in if length values < 2 then None
                       else Some \<lparr>pw_low_hz = low, pw_high_hz = high, pw_step_hz = step,
                              pw_samples = trunc samples, pw_power_db = values\<rparr>))
         | _ \<Rightarrow> None)"

section \<open>Stitching rows\<close>

text \<open>One row's values, from \<open>index\<close> on, into the merged bins.\<close>

fun place :: "int \<Rightarrow> pyfloat option list \<Rightarrow> pyfloat option list \<Rightarrow> pyfloat option list" where
  "place index [] merged = merged"
| "place index (value # values) merged =
     place (index + 1) values
       (if value \<noteq> None \<and> 0 \<le> index \<and> index < int (length merged) \<and> merged ! nat index = None
        then merged[nat index := value] else merged)"

definition merge_row :: "pyfloat \<Rightarrow> pyfloat \<Rightarrow> power_row \<Rightarrow> pyfloat option list \<Rightarrow> pyfloat option list" where
  "merge_row low_hz step_hz row merged =
     (if pw_step_hz row \<noteq> step_hz then merged
      else place (round_half_even ((pw_low_hz row - low_hz) / step_hz)) (pw_power_db row) merged)"

text \<open>\<open>None\<close> is the \<open>ValueError\<close> on an empty list.\<close>

definition merge_rows :: "power_row list \<Rightarrow> power_row option" where
  "merge_rows rows =
     (if rows = [] then None
      else (let step_hz = pw_step_hz (hd rows);
                low_hz = Min (set (map pw_low_hz rows));
                high_hz = Max (set (map pw_high_hz rows));
                count = nat (round_half_even ((high_hz - low_hz) / step_hz) + 1);
                merged = fold (merge_row low_hz step_hz) rows (replicate count None)
            in Some \<lparr>pw_low_hz = low_hz, pw_high_hz = low_hz + (of_nat count - 1) * step_hz,
                 pw_step_hz = step_hz, pw_samples = pw_samples (hd rows), pw_power_db = merged\<rparr>))"

section \<open>The band picture\<close>

record band_picture =
  bp_row :: power_row
  bp_coverage :: pyfloat
  bp_sweeps :: nat
  bp_ages :: "int list"

record band_accumulator =
  ba_max_age :: int
  ba_low_hz :: pyfloat
  ba_high_hz :: pyfloat
  ba_step_hz :: pyfloat
  ba_samples :: int
  ba_power :: "pyfloat option list"
  ba_ages :: "int list"
  ba_sweeps :: nat

definition band_accumulator_new :: "int \<Rightarrow> band_accumulator" where
  "band_accumulator_new max_age =
     \<lparr>ba_max_age = max_age, ba_low_hz = 0, ba_high_hz = 0, ba_step_hz = 0, ba_samples = 0,
      ba_power = [], ba_ages = [], ba_sweeps = 0\<rparr>"

definition geometry :: "power_row \<Rightarrow> pyfloat \<times> pyfloat \<times> pyfloat" where
  "geometry sweep = (pw_low_hz sweep, pw_high_hz sweep, pw_step_hz sweep)"

definition refines :: "power_row \<Rightarrow> band_accumulator \<Rightarrow> bool" where
  "refines sweep a \<longleftrightarrow> length (ba_power a) = bin_count sweep
     \<and> geometry sweep = (ba_low_hz a, ba_high_hz a, ba_step_hz a)"

definition band_reset :: "power_row \<Rightarrow> band_accumulator \<Rightarrow> band_accumulator" where
  "band_reset sweep a =
     a\<lparr>ba_low_hz := pw_low_hz sweep, ba_high_hz := pw_high_hz sweep, ba_step_hz := pw_step_hz sweep,
       ba_samples := pw_samples sweep, ba_power := replicate (bin_count sweep) None,
       ba_ages := replicate (bin_count sweep) (-1), ba_sweeps := 0\<rparr>"

text \<open>The statements on the arrays, in order: ageing, the new readings, and the stale bins.\<close>

definition aged :: "int list \<Rightarrow> int list" where
  "aged ages = map (\<lambda>a. if a \<ge> 0 then a + 1 else a) ages"

definition take_readings :: "pyfloat option list \<Rightarrow> pyfloat option list \<Rightarrow> pyfloat option list" where
  "take_readings new old = map2 (\<lambda>n v. if n \<noteq> None then n else v) new old"

definition zero_measured :: "pyfloat option list \<Rightarrow> int list \<Rightarrow> int list" where
  "zero_measured new ages = map2 (\<lambda>n a. if n \<noteq> None then 0 else a) new ages"

definition drop_stale :: "int \<Rightarrow> int list \<Rightarrow> pyfloat option list \<Rightarrow> pyfloat option list" where
  "drop_stale max_age ages levels = map2 (\<lambda>a v. if a > max_age then None else v) ages levels"

definition band_fold :: "power_row \<Rightarrow> band_accumulator \<Rightarrow> band_accumulator" where
  "band_fold sweep a =
     (let a = (if refines sweep a then a else band_reset sweep a);
          ages = zero_measured (pw_power_db sweep) (aged (ba_ages a));
          levels = drop_stale (ba_max_age a) ages (take_readings (pw_power_db sweep) (ba_power a))
      in a\<lparr>ba_sweeps := ba_sweeps a + 1, ba_ages := ages, ba_power := levels\<rparr>)"

definition picture_of :: "band_accumulator \<Rightarrow> band_picture" where
  "picture_of a =
     (let fresh = length (filter (\<lambda>v. v \<noteq> None) (ba_power a))
      in \<lparr>bp_row = \<lparr>pw_low_hz = ba_low_hz a, pw_high_hz = ba_high_hz a, pw_step_hz = ba_step_hz a,
            pw_samples = ba_samples a, pw_power_db = ba_power a\<rparr>,
          bp_coverage = (if ba_power a = [] then 0
                         else of_nat fresh / of_nat (length (ba_power a))),
          bp_sweeps = ba_sweeps a, bp_ages = ba_ages a\<rparr>)"

definition band_update :: "power_row \<Rightarrow> band_accumulator \<Rightarrow> band_picture \<times> band_accumulator" where
  "band_update sweep a = (let a' = band_fold sweep a in (picture_of a', a'))"

section \<open>The assembler\<close>

record scan_assembler =
  as_rows :: "power_row list"
  as_max_rows :: nat

definition scan_assembler_new :: "nat \<Rightarrow> scan_assembler" where
  "scan_assembler_new max_rows = \<lparr>as_rows = [], as_max_rows = max_rows\<rparr>"

definition pending_rows :: "scan_assembler \<Rightarrow> nat" where
  "pending_rows s = length (as_rows s)"

text \<open>\<open>del rows[:-n]\<close> keeps everything when \<open>n\<close> is 0.\<close>

definition keep_last :: "nat \<Rightarrow> 'a list \<Rightarrow> 'a list" where
  "keep_last n rows = (if length rows > n \<and> n \<noteq> 0 then drop (length rows - n) rows else rows)"

definition assembler_add :: "power_row \<Rightarrow> scan_assembler \<Rightarrow> power_row option \<times> scan_assembler" where
  "assembler_add row s =
     (let wraps = as_rows s \<noteq> [] \<and> pw_low_hz row \<le> pw_low_hz (last (as_rows s));
          finished = (if wraps then merge_rows (as_rows s) else None);
          rows = (if wraps then [] else as_rows s) @ [row]
      in (finished, s\<lparr>as_rows := keep_last (as_max_rows s) rows\<rparr>))"

section \<open>The scan worker\<close>

record scan_worker =
  nw_label :: string
  nw_owner :: string
  nw_proc :: "nat option"
  nw_device :: int
  nw_stderr :: "string list option"
  nw_running :: bool
  nw_assembler :: scan_assembler
  nw_band :: band_accumulator

datatype scan_output =
    SweepReady power_row
  | BandReady band_picture
  | ScanStarted pyfloat pyfloat pyfloat
  | ScanStopped string
  | ScanError string
  | ScanTerminate nat

definition scan_worker_new :: "string \<Rightarrow> nat \<Rightarrow> scan_worker" where
  "scan_worker_new label uid =
     \<lparr>nw_label = label, nw_owner = ''scan-'' @ show_nat uid, nw_proc = None, nw_device = 0,
      nw_stderr = None, nw_running = False,
      nw_assembler = scan_assembler_new MAX_PENDING_ROWS, nw_band = band_accumulator_new 30\<rparr>"

definition scan_command ::
    "(pyfloat \<Rightarrow> string) \<Rightarrow> tool_host \<Rightarrow> scan_request \<Rightarrow> string + string list" where
  "scan_command general h r =
     (case find_tool h ''rtl_power'' of
        None \<Rightarrow> Inl ''rtl_power was not found on PATH, so the band cannot be scanned.''
      | Some tool \<Rightarrow>
          Inr [tool, ''-d'', show_int (sr_device_index r),
            ''-f'', show_int (trunc (sr_low_hz r)) @ '':'' @ show_int (trunc (sr_high_hz r)) @ '':''
                  @ show_int (trunc (sr_bin_hz r)),
            ''-g'', (if sr_gain_db r < 0 then ''0'' else fixed 1 (sr_gain_db r)),
            ''-i'', general (sr_interval_s r), ''-w'', ''hamming'', ''-''])"

definition scan_begin ::
    "(pyfloat \<Rightarrow> string) \<Rightarrow> tool_host \<Rightarrow> string + nat \<Rightarrow> scan_request \<Rightarrow> scan_worker \<Rightarrow> leases
      \<Rightarrow> (scan_worker \<times> leases) \<times> scan_output list \<times> bool" where
  "scan_begin general h popen request w l =
     (if nw_running w then ((w, l), [], False)
      else case scan_command general h request of
        Inl e \<Rightarrow> ((w, l), [ScanError e], False)
      | Inr argv \<Rightarrow>
          (let w = w\<lparr>nw_device := sr_device_index request\<rparr>;
               ((held, complaint), l) =
                 acquire_sdr (nw_owner w) (nw_label w) (sr_device_index request) l
           in if \<not> held then ((w, l), [ScanError complaint], False)
              else case popen of
                Inl e \<Rightarrow> ((w, l), [ScanError (''Could not start rtl_power: '' @ e)], False)
              | Inr pid \<Rightarrow>
                  ((w\<lparr>nw_proc := Some pid, nw_stderr := Some [],
                      nw_assembler := scan_assembler_new MAX_PENDING_ROWS,
                      nw_band := band_accumulator_new 30, nw_running := True\<rparr>, l),
                   [ScanStarted (sr_low_hz request) (sr_high_hz request) (sr_bin_hz request)], True)))"

text \<open>One round of the loop on a line of output.\<close>

definition scan_round ::
    "(string \<Rightarrow> pyfloat option) \<Rightarrow> string \<Rightarrow> scan_worker \<Rightarrow> scan_worker \<times> scan_output list" where
  "scan_round float_of raw w =
     (case parse_power_row float_of raw of
        None \<Rightarrow> (w, [])
      | Some row \<Rightarrow>
          (case assembler_add row (nw_assembler w) of
             (None, s) \<Rightarrow> (w\<lparr>nw_assembler := s\<rparr>, [])
           | (Some sweep, s) \<Rightarrow>
               (let (picture, band) = band_update sweep (nw_band w)
                in (w\<lparr>nw_assembler := s, nw_band := band\<rparr>, [SweepReady sweep, BandReady picture]))))"

definition scan_drain :: "string \<Rightarrow> scan_worker \<Rightarrow> scan_worker" where
  "scan_drain raw w = w\<lparr>nw_stderr := map_option (\<lambda>ls. stderr_append 40 ls raw) (nw_stderr w)\<rparr>"

definition scan_stop :: "bool \<Rightarrow> scan_worker \<Rightarrow> scan_worker \<times> scan_output list" where
  "scan_stop child_alive w =
     (w\<lparr>nw_running := False\<rparr>,
      case nw_proc w of Some pid \<Rightarrow> if child_alive then [ScanTerminate pid] else [] | None \<Rightarrow> [])"

definition scan_close ::
    "child_end \<Rightarrow> scan_worker \<Rightarrow> leases \<Rightarrow> (string \<times> int option) \<times> scan_worker \<times> leases" where
  "scan_close ending w l =
     ((case nw_stderr w of Some ls \<Rightarrow> stderr_tail ls | None \<Rightarrow> [],
       if nw_proc w = None then None else exit_code ending),
      w\<lparr>nw_proc := None, nw_stderr := None\<rparr>, release_sdr (nw_owner w) (nw_device w) l)"

definition scan_leave ::
    "child_end \<Rightarrow> scan_worker \<Rightarrow> leases \<Rightarrow> (scan_worker \<times> leases) \<times> scan_output list" where
  "scan_leave ending w l =
     (let intentional = \<not> nw_running w; ((tail, code), wl) = scan_close ending w l
      in (wl, [if intentional \<or> code = Some 0 then ScanStopped ''Scan stopped''
               else ScanError (explain_failure tail ''rtl_power'')]))"

definition scan_stderr_text :: "scan_worker \<Rightarrow> string" where
  "scan_stderr_text w = (case nw_stderr w of Some ls \<Rightarrow> stderr_text ls | None \<Rightarrow> [])"

definition scan_shutdown ::
    "child_end \<Rightarrow> scan_worker \<Rightarrow> leases \<Rightarrow> (scan_worker \<times> leases) \<times> scan_output list" where
  "scan_shutdown ending w l =
     (let (w, out) = scan_stop (ce_poll ending = None) w; (_, wl) = scan_close ending w l
      in (wl, out))"

section \<open>Facts on stitching\<close>

text \<open>What a row says about a bin of the merged grid.\<close>

definition reading_at :: "pyfloat \<Rightarrow> pyfloat \<Rightarrow> nat \<Rightarrow> power_row \<Rightarrow> pyfloat option" where
  "reading_at low_hz step_hz j row =
     (let k = int j - round_half_even ((pw_low_hz row - low_hz) / step_hz)
      in if pw_step_hz row = step_hz \<and> 0 \<le> k \<and> k < int (bin_count row)
         then pw_power_db row ! nat k else None)"

fun first_reading :: "'a option list \<Rightarrow> 'a option" where
  "first_reading [] = None"
| "first_reading (Some v # vs) = Some v"
| "first_reading (None # vs) = first_reading vs"

lemma length_place [simp]: "length (place index vs merged) = length merged"
  by (induction index vs merged rule: place.induct) auto

lemma place_nth:
  "j < length merged \<Longrightarrow> place index vs merged ! j =
    (if merged ! j \<noteq> None then merged ! j
     else if 0 \<le> int j - index \<and> int j - index < int (length vs)
     then vs ! nat (int j - index) else None)"
proof (induction index vs merged rule: place.induct)
  case (1 index merged)
  then show ?case by auto
next
  case (2 index v us merged)
  let ?m = "if v \<noteq> None \<and> 0 \<le> index \<and> index < int (length merged) \<and> merged ! nat index = None
    then merged[nat index := v] else merged"
  have len: "length ?m = length merged" by simp
  have m: "?m ! j = (if int j = index \<and> merged ! j = None then v else merged ! j)"
    using "2.prems" by (auto simp: nth_list_update)
  have IH: "place (index + 1) us ?m ! j =
      (if ?m ! j \<noteq> None then ?m ! j
       else if 0 \<le> int j - (index + 1) \<and> int j - (index + 1) < int (length us)
       then us ! nat (int j - (index + 1)) else None)"
    using "2.IH" "2.prems" len by simp
  have nth: "(v # us) ! nat (int j - index) = us ! nat (int j - (index + 1))" if "index < int j"
    using that by (simp add: nth_Cons' nat_diff_distrib flip: diff_diff_eq)
  show ?case
    using nth by (simp only: place.simps IH m) (auto split: if_splits)
qed

lemma length_merge_row [simp]: "length (merge_row low step row merged) = length merged"
  by (simp add: merge_row_def)

lemma merge_row_nth:
  "j < length merged \<Longrightarrow> merge_row low step row merged ! j =
    (if merged ! j \<noteq> None then merged ! j else reading_at low step j row)"
  by (simp add: merge_row_def place_nth reading_at_def bin_count_def Let_def)

lemma length_fold_merge [simp]: "length (fold (merge_row low step) rows merged) = length merged"
  by (induction rows arbitrary: merged) auto

lemma fold_merge_nth:
  "j < length merged \<Longrightarrow> fold (merge_row low step) rows merged ! j =
    (if merged ! j \<noteq> None then merged ! j
     else first_reading (map (reading_at low step j) rows))"
proof (induction rows arbitrary: merged)
  case Nil
  then show ?case by simp
next
  case (Cons row rows)
  show ?case
    using Cons.IH [of "merge_row low step row merged"] Cons.prems
    by (cases "reading_at low step j row") (auto simp: merge_row_nth)
qed

text \<open>Stitching measures nothing anew and loses nothing: each bin of the merged row holds the first
  finite reading any row, in order, took at that bin, and a bin nobody measured stays a gap.\<close>

theorem merge_takes_first_reading:
  assumes "merge_rows rows = Some m" "j < bin_count m"
  shows "pw_power_db m ! j = first_reading (map (reading_at (pw_low_hz m) (pw_step_hz m) j) rows)"
  using assms by (auto simp: merge_rows_def Let_def bin_count_def fold_merge_nth split: if_splits)

section \<open>Facts on the band picture\<close>

text \<open>The history of a bin, latest first: how many sweeps ago it was last read, and what it read.\<close>

fun last_seen :: "'a option list \<Rightarrow> (nat \<times> 'a) option" where
  "last_seen [] = None"
| "last_seen (Some v # h) = Some (0, v)"
| "last_seen (None # h) = map_option (\<lambda>(k, v). (k + 1, v)) (last_seen h)"

definition bin_history :: "power_row list \<Rightarrow> nat \<Rightarrow> pyfloat option list" where
  "bin_history sweeps i = rev (map (\<lambda>s. pw_power_db s ! i) sweeps)"

definition age_of :: "(nat \<times> 'a) option \<Rightarrow> int" where
  "age_of seen = (case seen of None \<Rightarrow> -1 | Some (k, v) \<Rightarrow> int k)"

definition level_of :: "int \<Rightarrow> (nat \<times> 'a) option \<Rightarrow> 'a option" where
  "level_of max_age seen =
     (case seen of None \<Rightarrow> None | Some (k, v) \<Rightarrow> if int k > max_age then None else Some v)"

definition remembers :: "nat \<Rightarrow> power_row list \<Rightarrow> band_accumulator \<Rightarrow> bool" where
  "remembers n sweeps a \<longleftrightarrow> length (ba_power a) = n \<and> length (ba_ages a) = n
     \<and> ba_sweeps a = length sweeps
     \<and> (\<forall>i < n. ba_ages a ! i = age_of (last_seen (bin_history sweeps i))
          \<and> ba_power a ! i = level_of (ba_max_age a) (last_seen (bin_history sweeps i)))"

lemma bin_history_snoc: "bin_history (sweeps @ [s]) i = pw_power_db s ! i # bin_history sweeps i"
  by (simp add: bin_history_def)

lemma remembers_fold:
  assumes "remembers n sweeps (if refines s a then a else band_reset s a)" "bin_count s = n"
  shows "remembers n (sweeps @ [s]) (band_fold s a)"
proof -
  let ?a = "if refines s a then a else band_reset s a"
  have len: "length (pw_power_db s) = n" "length (ba_power ?a) = n" "length (ba_ages ?a) = n"
    using assms by (simp_all add: remembers_def bin_count_def)
  have max: "ba_max_age (band_fold s a) = ba_max_age ?a" by (simp add: band_fold_def Let_def)
  have "ba_ages (band_fold s a) ! i = age_of (last_seen (bin_history (sweeps @ [s]) i)) \<and>
    ba_power (band_fold s a) ! i =
      level_of (ba_max_age ?a) (last_seen (bin_history (sweeps @ [s]) i))" if "i < n" for i
  proof -
    have i: "ba_ages ?a ! i = age_of (last_seen (bin_history sweeps i))"
      "ba_power ?a ! i = level_of (ba_max_age ?a) (last_seen (bin_history sweeps i))"
      using assms(1) that by (simp_all add: remembers_def)
    show ?thesis
    proof (cases "pw_power_db s ! i")
      case (Some v)
      then show ?thesis using that len i
        by (simp add: band_fold_def Let_def bin_history_snoc drop_stale_def zero_measured_def
            aged_def take_readings_def age_of_def level_of_def)
    next
      case None
      then show ?thesis using that len i
        by (cases "last_seen (bin_history sweeps i)")
          (auto simp: band_fold_def Let_def bin_history_snoc drop_stale_def zero_measured_def
            aged_def take_readings_def age_of_def level_of_def)
    qed
  qed
  moreover have "length (ba_power (band_fold s a)) = n" "length (ba_ages (band_fold s a)) = n"
    "ba_sweeps (band_fold s a) = length (sweeps @ [s])"
    using len assms(1) by (simp_all add: band_fold_def Let_def drop_stale_def zero_measured_def
        aged_def take_readings_def remembers_def)
  ultimately show ?thesis by (simp add: remembers_def max)
qed

lemma band_fold_geometry:
  "ba_low_hz (band_fold s a) = pw_low_hz s" "ba_high_hz (band_fold s a) = pw_high_hz s"
  "ba_step_hz (band_fold s a) = pw_step_hz s" "ba_max_age (band_fold s a) = ba_max_age a"
  by (auto simp: band_fold_def Let_def refines_def geometry_def band_reset_def)

text \<open>C25: the accumulated band is exactly each bin's last reading: once a sweep of a new geometry has
  come in, after any further sweeps of that geometry, every bin's age is the number of sweeps since it
  was last measured (\<open>-1\<close> for never) and its level is that last reading, unless it is older than the
  limit.\<close>

theorem band_holds_last_readings:
  assumes "\<not> refines s0 a"
    and "\<forall>s \<in> set sweeps. geometry s = geometry s0 \<and> bin_count s = bin_count s0"
    and "i < bin_count s0"
  shows "let a' = fold band_fold (s0 # sweeps) a;
      seen = last_seen (bin_history (s0 # sweeps) i)
    in ba_ages a' ! i = age_of seen \<and> ba_power a' ! i = level_of (ba_max_age a) seen
      \<and> ba_sweeps a' = Suc (length sweeps)"
proof -
  let ?n = "bin_count s0"
  have run: "remembers ?n (earlier @ ss) (fold band_fold ss b) \<and>
      ba_max_age (fold band_fold ss b) = ba_max_age b"
    if "remembers ?n earlier b" "geometry s0 = (ba_low_hz b, ba_high_hz b, ba_step_hz b)"
      "\<forall>s \<in> set ss. geometry s = geometry s0 \<and> bin_count s = ?n" for earlier ss b
    using that
  proof (induction ss arbitrary: earlier b)
    case Nil
    then show ?case by simp
  next
    case (Cons s ss)
    have s: "refines s b" "bin_count s = ?n"
      using Cons.prems by (simp_all add: refines_def remembers_def)
    have "remembers ?n (earlier @ [s]) (band_fold s b)"
      using Cons.prems(1) s by (intro remembers_fold) simp_all
    moreover have "geometry s0 = (ba_low_hz (band_fold s b), ba_high_hz (band_fold s b),
        ba_step_hz (band_fold s b))"
      using Cons.prems(3) by (simp add: band_fold_geometry geometry_def)
    ultimately show ?case using Cons.IH [of "earlier @ [s]" "band_fold s b"] Cons.prems(3)
      by (simp add: band_fold_geometry)
  qed
  have "remembers ?n [] (band_reset s0 a)"
    by (simp add: remembers_def band_reset_def bin_history_def age_of_def level_of_def)
  then have "remembers ?n ([] @ [s0]) (band_fold s0 a)"
    using assms(1) by (intro remembers_fold) simp_all
  from run [of "[s0]" "band_fold s0 a" sweeps] this assms(2)
  have "remembers ?n (s0 # sweeps) (fold band_fold (s0 # sweeps) a) \<and>
      ba_max_age (fold band_fold (s0 # sweeps) a) = ba_max_age a"
    by (simp add: band_fold_geometry geometry_def)
  with assms(3) show ?thesis by (simp add: remembers_def Let_def)
qed


definition sample_row :: "pyfloat \<Rightarrow> pyfloat \<Rightarrow> pyfloat option list \<Rightarrow> power_row" where
  "sample_row low high levels =
     \<lparr>pw_low_hz = low, pw_high_hz = high, pw_step_hz = 1, pw_samples = 8, pw_power_db = levels\<rparr>"

theorem merge_takes_first_reading_witness:
  "\<exists>m. merge_rows [sample_row 0 1 [Some 5, None], sample_row 1 2 [Some 7, Some 9]] = Some m \<and> 1 < bin_count m
     \<and> pw_power_db m ! 1 = first_reading (map (reading_at (pw_low_hz m) (pw_step_hz m) 1)
         [sample_row 0 1 [Some 5, None], sample_row 1 2 [Some 7, Some 9]])"
proof -
  let ?rows = "[sample_row 0 1 [Some 5, None], sample_row 1 2 [Some 7, Some 9]]"
  obtain m where m: "merge_rows ?rows = Some m" "1 < bin_count m"
    by (simp add: merge_rows_def sample_row_def Let_def bin_count_def round_half_even_def)
  from m merge_takes_first_reading [OF m] show ?thesis by (intro exI [of _ m]) simp
qed

theorem band_holds_last_readings_witness:
  "let a' = fold band_fold [sample_row 0 1 [Some 5, None], sample_row 0 1 [None, None],
       sample_row 0 1 [None, Some 2]] (band_accumulator_new 1)
   in ba_ages a' ! 0 = 2 \<and> ba_power a' ! 0 = None \<and> ba_sweeps a' = 3"
proof -
  let ?s = "\<lambda>levels. sample_row 0 1 levels"
  have new: "\<not> refines (?s [Some 5, None]) (band_accumulator_new 1)"
    by (simp add: refines_def band_accumulator_new_def bin_count_def sample_row_def)
  have same: "\<forall>s \<in> set [?s [None, None], ?s [None, Some 2]].
      geometry s = geometry (?s [Some 5, None]) \<and> bin_count s = bin_count (?s [Some 5, None])"
    by (simp add: geometry_def bin_count_def sample_row_def)
  have i: "0 < bin_count (?s [Some 5, None])" by (simp add: bin_count_def sample_row_def)
  have "last_seen (bin_history [?s [Some 5, None], ?s [None, None], ?s [None, Some 2]] 0) = Some (2, 5)"
    by (simp add: bin_history_def sample_row_def)
  moreover have "ba_max_age (band_accumulator_new 1) = 1" by (simp add: band_accumulator_new_def)
  ultimately show ?thesis
    using band_holds_last_readings [OF new same i] by (simp add: Let_def age_of_def level_of_def)
qed

section \<open>Facts on the assembler\<close>

text \<open>The sweeps of a row stream: a new one begins where the frequency does not rise.\<close>

fun runs :: "power_row list \<Rightarrow> power_row list list" where
  "runs [] = []"
| "runs [r] = [[r]]"
| "runs (r # s # rest) =
     (case runs (s # rest) of
        [] \<Rightarrow> []
      | q # qs \<Rightarrow> if pw_low_hz s \<le> pw_low_hz r then [r] # q # qs else (r # q) # qs)"

lemma runs_Cons_ex: "\<exists>q qs. runs (s # rest) = (s # q) # qs"
proof (induction rest arbitrary: s)
  case (Cons t rest)
  from Cons [of t] obtain q qs where "runs (t # rest) = (t # q) # qs" by blast
  then show ?case by auto
qed simp

lemma concat_runs: "concat (runs rows) = rows"
proof (induction rows rule: runs.induct)
  case (3 r s rest)
  then show ?case using runs_Cons_ex [of s rest] by auto
qed simp_all

lemma runs_ascending: "r \<in> set (runs rows) \<Longrightarrow> r \<noteq> [] \<and> sorted_wrt (<) (map pw_low_hz r)"
proof (induction rows arbitrary: r rule: runs.induct)
  case (3 a s rest)
  obtain q qs where q: "runs (s # rest) = (s # q) # qs" using runs_Cons_ex by blast
  have IH: "sorted_wrt (<) (map pw_low_hz (s # q))"
    "\<And>r. r \<in> set qs \<Longrightarrow> r \<noteq> [] \<and> sorted_wrt (<) (map pw_low_hz r)"
    using "3.IH" [of "s # q"] "3.IH" q by simp_all
  have "\<forall>x \<in> set (s # q). pw_low_hz a < pw_low_hz x" if "pw_low_hz a < pw_low_hz s"
    using IH(1) that by fastforce
  then show ?case using "3.prems" IH q by (auto split: if_splits)
qed auto

lemma runs_snoc:
  "rows \<noteq> [] \<Longrightarrow> runs (rows @ [r]) =
    (if pw_low_hz r \<le> pw_low_hz (last rows) then runs rows @ [[r]]
     else butlast (runs rows) @ [last (runs rows) @ [r]])"
proof (induction rows rule: runs.induct)
  case (3 a s rest)
  obtain q qs where q: "runs (s # rest) = (s # q) # qs" using runs_Cons_ex by blast
  show ?case using "3.IH" q by (cases qs) (auto simp: butlast_append)
qed auto

lemma last_last_runs: "rows \<noteq> [] \<Longrightarrow> runs rows \<noteq> [] \<and> last (runs rows) \<noteq> [] \<and> last (last (runs rows)) = last rows"
proof -
  assume "rows \<noteq> []"
  then have ne: "runs rows \<noteq> []" using concat_runs [of rows] by auto
  then have l: "last (runs rows) \<noteq> []" using runs_ascending last_in_set by blast
  have "concat (butlast (runs rows) @ [last (runs rows)]) = rows"
    using ne concat_runs [of rows] by simp
  then have "concat (butlast (runs rows)) @ last (runs rows) = rows" by simp
  with l have "last rows = last (last (runs rows))" by (metis last_appendR)
  with ne l show ?thesis by simp
qed

text \<open>Feeding the assembler: the sweeps it hands out, and where it ends.\<close>

fun assemble :: "power_row list \<Rightarrow> scan_assembler \<Rightarrow> power_row list \<times> scan_assembler" where
  "assemble [] s = ([], s)"
| "assemble (r # rows) s =
     (let (f, s') = assembler_add r s; (fs, s'') = assemble rows s'
      in ((case f of None \<Rightarrow> [] | Some x \<Rightarrow> [x]) @ fs, s''))"

lemma assemble_snoc:
  "assemble (rows @ [r]) s = (case assemble rows s of (fs, s') \<Rightarrow>
     (case assembler_add r s' of (f, s'') \<Rightarrow> (fs @ (case f of None \<Rightarrow> [] | Some x \<Rightarrow> [x]), s'')))"
  by (induction rows arbitrary: s) (auto split: prod.splits)

lemma keep_last_last_n: "0 < n \<Longrightarrow> keep_last n rows = last_n n rows"
  by (simp add: keep_last_def last_n_def)

lemma last_n_snoc: "0 < n \<Longrightarrow> last_n n (last_n n xs @ [x]) = last_n n (xs @ [x])"
proof -
  assume "0 < n"
  have "last_n n (last_n n xs @ [x]) = ring_append n (last_n n xs) x"
    by (simp add: ring_append_def last_n_def)
  then show ?thesis by (simp add: ring_append_last_n)
qed

lemma last_last_n: "0 < n \<Longrightarrow> xs \<noteq> [] \<Longrightarrow> last_n n xs \<noteq> [] \<and> last (last_n n xs) = last xs"
  by (cases xs rule: rev_cases) (simp_all add: last_n_def last_drop)

lemma assemble_runs:
  assumes "0 < n"
  shows "assemble rows (scan_assembler_new n) =
    (List.map_filter (\<lambda>run. merge_rows (last_n n run)) (butlast (runs rows)),
     \<lparr>as_rows = (if rows = [] then [] else last_n n (last (runs rows))), as_max_rows = n\<rparr>)"
proof (induction rows rule: rev_induct)
  case Nil
  then show ?case by (simp add: scan_assembler_new_def List.map_filter_def)
next
  case (snoc r rows)
  show ?case
  proof (cases "rows = []")
    case True
    with assms show ?thesis
      by (simp add: assembler_add_def scan_assembler_new_def keep_last_last_n last_n_all
          List.map_filter_def)
  next
    case False
    let ?run = "last (runs rows)"
    have ne: "runs rows \<noteq> []" "?run \<noteq> []" "last ?run = last rows" using last_last_runs [OF False] by auto
    have l: "last_n n ?run \<noteq> []" "last (last_n n ?run) = last rows"
      using last_last_n [OF assms ne(2)] ne(3) by auto
    have split: "runs rows = butlast (runs rows) @ [?run]" using ne by simp
    show ?thesis
    proof (cases "pw_low_hz r \<le> pw_low_hz (last rows)")
      case True
      then have "List.map_filter (\<lambda>run. merge_rows (last_n n run)) (runs rows) =
          List.map_filter (\<lambda>run. merge_rows (last_n n run)) (butlast (runs rows))
          @ (case merge_rows (last_n n ?run) of None \<Rightarrow> [] | Some x \<Rightarrow> [x])"
        by (subst split) (simp add: List.map_filter_def split: option.splits)
      with True False l snoc assms show ?thesis
        by (simp add: assemble_snoc runs_snoc assembler_add_def keep_last_last_n last_n_all)
    next
      case False
      with \<open>rows \<noteq> []\<close> l snoc assms show ?thesis
        by (simp add: assemble_snoc runs_snoc assembler_add_def keep_last_last_n last_n_snoc)
    qed
  qed
qed

text \<open>C31: the assembler hands out the band's sweeps: the row stream splits into runs of strictly rising
  frequency, and what comes out is the stitching of each run but the last (of its latest rows, should it
  exceed the limit), in order, while the last run waits in a buffer within the limit.\<close>

theorem assembler_finds_sweeps:
  assumes "0 < n"
  shows "concat (runs rows) = rows
    \<and> list_all (\<lambda>run. run \<noteq> [] \<and> sorted_wrt (<) (map pw_low_hz run)) (runs rows)
    \<and> fst (assemble rows (scan_assembler_new n)) =
        List.map_filter (\<lambda>run. merge_rows (last_n n run)) (butlast (runs rows))
    \<and> pending_rows (snd (assemble rows (scan_assembler_new n))) \<le> n"
  using concat_runs runs_ascending assms
  by (simp add: assemble_runs pending_rows_def list_all_iff)

theorem assembler_finds_sweeps_witness:
  "pending_rows (snd (assemble [sample_row 0 1 [], sample_row 0 1 []] (scan_assembler_new 64))) \<le> 64"
  using assembler_finds_sweeps [of 64 "[sample_row 0 1 [], sample_row 0 1 []]"] by simp

end
