(* ===== verification/Dongles.thy ===== *)
theory Dongles
  imports Sdr Scan
begin

text \<open>
  All capture and scan workers of the process together, sharing the lease table of
  \<open>services/rtl_tools.py\<close>.  A worker runs \<open>start\<close>, its loop and \<open>_close\<close> on its own thread, so a
  start only happens while the thread is idle; \<open>stop\<close> and \<open>shutdown\<close> come from the GUI thread at any
  time.  Between the claim of the lease and the loop no other worker's step falls, nor within
  \<open>_close\<close>, which in the source gives the lease back a moment before the child is reaped.
\<close>

text \<open>A client is the number of a capture worker or of a scan worker.\<close>

type_synonym client = "nat + nat"

record dongle_system =
  dg_leases :: leases
  dg_sdr :: "nat \<Rightarrow> sdr_worker"
  dg_scan :: "nat \<Rightarrow> scan_worker"
  dg_looping :: "client \<Rightarrow> bool"

definition dongle_system_new :: "(client \<Rightarrow> string) \<Rightarrow> dongle_system" where
  "dongle_system_new label =
     \<lparr>dg_leases = (\<lambda>d. None), dg_sdr = (\<lambda>n. sdr_worker_new (label (Inl n)) n),
      dg_scan = (\<lambda>n. scan_worker_new (label (Inr n)) n), dg_looping = (\<lambda>c. False)\<rparr>"

definition with_sdr :: "nat \<Rightarrow> sdr_worker \<times> leases \<Rightarrow> bool \<Rightarrow> dongle_system \<Rightarrow> dongle_system" where
  "with_sdr n wl looping s =
     s\<lparr>dg_sdr := (dg_sdr s)(n := fst wl), dg_leases := snd wl,
       dg_looping := (dg_looping s)(Inl n := looping)\<rparr>"

definition with_scan :: "nat \<Rightarrow> scan_worker \<times> leases \<Rightarrow> bool \<Rightarrow> dongle_system \<Rightarrow> dongle_system" where
  "with_scan n wl looping s =
     s\<lparr>dg_scan := (dg_scan s)(n := fst wl), dg_leases := snd wl,
       dg_looping := (dg_looping s)(Inr n := looping)\<rparr>"

inductive dongle_step :: "dongle_system \<Rightarrow> dongle_system \<Rightarrow> bool" where
  sdr_starts: "\<not> dg_looping s (Inl n) \<Longrightarrow>
    sdr_begin env c r g d (dg_sdr s n) (dg_leases s) = (wl, out, entered) \<Longrightarrow>
    dongle_step s (with_sdr n wl entered s)"
| sdr_reads: "dg_looping s (Inl n) \<Longrightarrow> sw_running (dg_sdr s n) \<Longrightarrow>
    sdr_round spectrum to_iso ok now fault raw (dg_sdr s n) = (w, out) \<Longrightarrow>
    dongle_step s (with_sdr n (w, dg_leases s) True s)"
| sdr_stops: "sdr_stop alive (dg_sdr s n) = (w, out) \<Longrightarrow>
    dongle_step s (with_sdr n (w, dg_leases s) (dg_looping s (Inl n)) s)"
| sdr_leaves: "dg_looping s (Inl n) \<Longrightarrow>
    sdr_leave to_iso ok now ending (dg_sdr s n) (dg_leases s) = (wl, out) \<Longrightarrow>
    dongle_step s (with_sdr n wl False s)"
| sdr_shuts_down: "sdr_shutdown to_iso ok now ending (dg_sdr s n) (dg_leases s) = (wl, out) \<Longrightarrow>
    dongle_step s (with_sdr n wl (dg_looping s (Inl n)) s)"
| scan_starts: "\<not> dg_looping s (Inr n) \<Longrightarrow>
    scan_begin general h popen request (dg_scan s n) (dg_leases s) = (vl, sout, entered) \<Longrightarrow>
    dongle_step s (with_scan n vl entered s)"
| scan_reads: "dg_looping s (Inr n) \<Longrightarrow> nw_running (dg_scan s n) \<Longrightarrow>
    scan_round float_of raw (dg_scan s n) = (v, sout) \<Longrightarrow>
    dongle_step s (with_scan n (v, dg_leases s) True s)"
| scan_stops: "scan_stop alive (dg_scan s n) = (v, sout) \<Longrightarrow>
    dongle_step s (with_scan n (v, dg_leases s) (dg_looping s (Inr n)) s)"
| scan_leaves: "dg_looping s (Inr n) \<Longrightarrow>
    scan_leave ending (dg_scan s n) (dg_leases s) = (vl, sout) \<Longrightarrow>
    dongle_step s (with_scan n vl False s)"
| scan_shuts_down: "scan_shutdown ending (dg_scan s n) (dg_leases s) = (vl, sout) \<Longrightarrow>
    dongle_step s (with_scan n vl (dg_looping s (Inr n)) s)"

text \<open>The dongle a client's child has open.\<close>

definition open_device :: "dongle_system \<Rightarrow> client \<Rightarrow> int option" where
  "open_device s c =
     (case c of
        Inl n \<Rightarrow> if sw_proc (dg_sdr s n) \<noteq> None then Some (sw_device (dg_sdr s n)) else None
      | Inr n \<Rightarrow> if nw_proc (dg_scan s n) \<noteq> None then Some (nw_device (dg_scan s n)) else None)"

definition owner_name :: "client \<Rightarrow> string" where
  "owner_name c = (case c of Inl n \<Rightarrow> ''sdr-'' @ show_nat n | Inr n \<Rightarrow> ''scan-'' @ show_nat n)"

lemma owner_name_inj: "inj owner_name"
proof -
  have "show_nat m = show_nat n \<longleftrightarrow> m = n" for m n by (metis nat_of_digits_show_nat)
  then show ?thesis by (auto simp: inj_def owner_name_def split: sum.splits)
qed

definition dongle_inv :: "dongle_system \<Rightarrow> bool" where
  "dongle_inv s \<longleftrightarrow>
     (\<forall>n. sw_owner (dg_sdr s n) = owner_name (Inl n)) \<and> (\<forall>n. nw_owner (dg_scan s n) = owner_name (Inr n))
     \<and> (\<forall>c. \<not> dg_looping s c \<longrightarrow> open_device s c = None)
     \<and> sdr.honoured owner_name (open_device s) (dg_leases s)"

text \<open>What each operation does to a worker's owner, child and device.\<close>

lemma sdr_same_child [simp]:
  "sw_owner (fst (finish_recording to_iso ok now w)) = sw_owner w"
  "sw_proc (fst (finish_recording to_iso ok now w)) = sw_proc w"
  "sw_device (fst (finish_recording to_iso ok now w)) = sw_device w"
  "sw_owner (fst (open_recorder env c r g w)) = sw_owner w"
  "sw_proc (fst (open_recorder env c r g w)) = sw_proc w"
  "sw_device (fst (open_recorder env c r g w)) = sw_device w"
  "sw_owner (fst (sdr_stop alive w)) = sw_owner w"
  "sw_proc (fst (sdr_stop alive w)) = sw_proc w"
  "sw_device (fst (sdr_stop alive w)) = sw_device w"
  by (auto simp: finish_recording_def open_recorder_def sdr_stop_def
      split: option.splits sum.splits)

lemma sdr_round_child [simp]:
  "sw_owner (fst (sdr_round spectrum to_iso ok now fault raw w)) = sw_owner w"
  "sw_proc (fst (sdr_round spectrum to_iso ok now fault raw w)) = sw_proc w"
  "sw_device (fst (sdr_round spectrum to_iso ok now fault raw w)) = sw_device w"
  by (auto simp: sdr_round_def tee_def stop_recording_def case_prod_beta Let_def split: option.splits)

lemma sdr_close_child [simp]:
  "sw_owner (fst (fst (snd (sdr_close to_iso ok now ending w l)))) = sw_owner w"
  "sw_proc (fst (fst (snd (sdr_close to_iso ok now ending w l)))) = None"
  "snd (fst (snd (sdr_close to_iso ok now ending w l))) = release_sdr (sw_owner w) (sw_device w) l"
  by (simp_all add: sdr_close_def case_prod_beta Let_def)

lemma sdr_leave_child [simp]:
  "sw_owner (fst (fst (sdr_leave to_iso ok now ending w l))) = sw_owner w"
  "sw_proc (fst (fst (sdr_leave to_iso ok now ending w l))) = None"
  "snd (fst (sdr_leave to_iso ok now ending w l)) = release_sdr (sw_owner w) (sw_device w) l"
  "sw_owner (fst (fst (sdr_shutdown to_iso ok now ending w l))) = sw_owner w"
  "sw_proc (fst (fst (sdr_shutdown to_iso ok now ending w l))) = None"
  "snd (fst (sdr_shutdown to_iso ok now ending w l)) = release_sdr (sw_owner w) (sw_device w) l"
  by (simp_all add: sdr_leave_def sdr_shutdown_def case_prod_beta Let_def)

lemma scan_same_child [simp]:
  "nw_owner (fst (scan_round float_of raw v)) = nw_owner v"
  "nw_proc (fst (scan_round float_of raw v)) = nw_proc v"
  "nw_device (fst (scan_round float_of raw v)) = nw_device v"
  "nw_owner (fst (scan_stop alive v)) = nw_owner v"
  "nw_proc (fst (scan_stop alive v)) = nw_proc v"
  "nw_device (fst (scan_stop alive v)) = nw_device v"
  by (auto simp: scan_round_def scan_stop_def case_prod_beta split: option.splits prod.splits)

lemma scan_leave_child [simp]:
  "nw_owner (fst (fst (scan_leave ending v l))) = nw_owner v"
  "nw_proc (fst (fst (scan_leave ending v l))) = None"
  "snd (fst (scan_leave ending v l)) = release_sdr (nw_owner v) (nw_device v) l"
  "nw_owner (fst (fst (scan_shutdown ending v l))) = nw_owner v"
  "nw_proc (fst (fst (scan_shutdown ending v l))) = None"
  "snd (fst (scan_shutdown ending v l)) = release_sdr (nw_owner v) (nw_device v) l"
  by (simp_all add: scan_leave_def scan_shutdown_def scan_close_def case_prod_beta Let_def)

text \<open>A start either leaves the child alone, with the lease table as a claim leaves it, or opens the
  claimed dongle.\<close>

lemma sdr_begin_cases:
  assumes "sdr_begin env c r g d w l = (wl, out, entered)" "sw_proc w = None"
  shows "sw_owner (fst wl) = sw_owner w"
    and "\<not> entered \<Longrightarrow> sw_proc (fst wl) = None
      \<and> (snd wl = l \<or> (\<exists>b. claim (sw_label w) (sw_owner w) d l = (b, snd wl)))"
    and "entered \<Longrightarrow> sw_proc (fst wl) \<noteq> None \<and> sw_device (fst wl) = d
      \<and> claim (sw_label w) (sw_owner w) d l = (True, snd wl)"
  using assms by (auto simp: sdr_begin_def claim_def case_prod_beta Let_def
      split: if_splits sum.splits)

lemma scan_begin_cases:
  assumes "scan_begin general h popen q v l = (vl, out, entered)" "nw_proc v = None"
  shows "nw_owner (fst vl) = nw_owner v"
    and "\<not> entered \<Longrightarrow> nw_proc (fst vl) = None
      \<and> (snd vl = l \<or> (\<exists>b. claim (nw_label v) (nw_owner v) (sr_device_index q) l = (b, snd vl)))"
    and "entered \<Longrightarrow> nw_proc (fst vl) \<noteq> None \<and> nw_device (fst vl) = sr_device_index q
      \<and> claim (nw_label v) (nw_owner v) (sr_device_index q) l = (True, snd vl)"
  using assms by (auto simp: scan_begin_def claim_def case_prod_beta Let_def
      split: if_splits sum.splits)

lemma open_with_sdr:
  "open_device (with_sdr n wl b s) =
    (open_device s)(Inl n := if sw_proc (fst wl) \<noteq> None then Some (sw_device (fst wl)) else None)"
  by (auto simp: open_device_def with_sdr_def fun_eq_iff split: sum.splits)

lemma open_with_scan:
  "open_device (with_scan n vl b s) =
    (open_device s)(Inr n := if nw_proc (fst vl) \<noteq> None then Some (nw_device (fst vl)) else None)"
  by (auto simp: open_device_def with_scan_def fun_eq_iff split: sum.splits)

lemma dongle_invI_sdr:
  assumes "dongle_inv s" "sw_owner (fst wl) = owner_name (Inl n)"
    and "b \<or> sw_proc (fst wl) = None"
    and "sdr.honoured owner_name ((open_device s)
      (Inl n := if sw_proc (fst wl) \<noteq> None then Some (sw_device (fst wl)) else None)) (snd wl)"
  shows "dongle_inv (with_sdr n wl b s)"
  using assms unfolding dongle_inv_def open_with_sdr
  by (auto simp: with_sdr_def)

lemma dongle_invI_scan:
  assumes "dongle_inv s" "nw_owner (fst vl) = owner_name (Inr n)"
    and "b \<or> nw_proc (fst vl) = None"
    and "sdr.honoured owner_name ((open_device s)
      (Inr n := if nw_proc (fst vl) \<noteq> None then Some (nw_device (fst vl)) else None)) (snd vl)"
  shows "dongle_inv (with_scan n vl b s)"
  using assms unfolding dongle_inv_def open_with_scan
  by (auto simp: with_scan_def)

lemma dongle_invD:
  assumes "dongle_inv s"
  shows "sw_owner (dg_sdr s n) = owner_name (Inl n)" "nw_owner (dg_scan s n) = owner_name (Inr n)"
    and "sdr.honoured owner_name (open_device s) (dg_leases s)"
    and "dg_looping s (Inl n) \<or> sw_proc (dg_sdr s n) = None"
    and "dg_looping s (Inr n) \<or> nw_proc (dg_scan s n) = None"
proof -
  have idle: "\<not> dg_looping s c \<longrightarrow> open_device s c = None" for c
    using assms by (simp add: dongle_inv_def)
  show "dg_looping s (Inl n) \<or> sw_proc (dg_sdr s n) = None"
    "dg_looping s (Inr n) \<or> nw_proc (dg_scan s n) = None"
    using idle [of "Inl n"] idle [of "Inr n"] by (auto simp: open_device_def split: if_splits)
qed (use assms in \<open>simp_all add: dongle_inv_def\<close>)

lemma same_open:
  "(open_device s)(Inl n := if sw_proc (dg_sdr s n) \<noteq> None then Some (sw_device (dg_sdr s n)) else None)
    = open_device s"
  "(open_device s)(Inr n := if nw_proc (dg_scan s n) \<noteq> None then Some (nw_device (dg_scan s n)) else None)
    = open_device s"
  by (auto simp: open_device_def)

text \<open>A claim that does not lead to an open child keeps every promise; one that does adds one.\<close>

lemma honoured_begin:
  assumes "sdr.honoured owner_name (open_device s) l" "open_device s c = None"
    and "l' = l \<or> (\<exists>b. claim label (owner_name c) d l = (b, l'))"
  shows "sdr.honoured owner_name ((open_device s)(c := None)) l'"
proof -
  have "(open_device s)(c := None) = open_device s" using assms(2) by auto
  then show ?thesis using assms sdr.honoured_acquire(1) [OF assms(1) _ owner_name_inj] by auto
qed

lemma dongle_inv_step:
  assumes "dongle_step s s'" "dongle_inv s"
  shows "dongle_inv s'"
  using assms
proof (induction rule: dongle_step.induct)
  case (sdr_starts s n env c r g d wl out entered)
  note inv = dongle_invD [OF sdr_starts.prems]
  have idle: "sw_proc (dg_sdr s n) = None" using inv(4) [of n] sdr_starts.hyps(1) by blast
  note started = sdr_begin_cases [OF sdr_starts.hyps(2) idle, unfolded inv(1)]
  have closed: "open_device s (Inl n) = None" using idle by (simp add: open_device_def)
  show ?case
  proof (cases entered)
    case True
    with started(3) sdr.honoured_acquire(2) [OF inv(3) _ owner_name_inj, of _ "Inl n" d True]
    have "sdr.honoured owner_name ((open_device s)(Inl n \<mapsto> d)) (snd wl)" by blast
    with True started show ?thesis
      by (intro dongle_invI_sdr [OF sdr_starts.prems]) auto
  next
    case False
    with started(2) honoured_begin [OF inv(3) closed]
    have "sdr.honoured owner_name ((open_device s)(Inl n := None)) (snd wl)" by blast
    with False started show ?thesis
      by (intro dongle_invI_sdr [OF sdr_starts.prems]) auto
  qed
next
  case (scan_starts s n general h popen request vl sout entered)
  note inv = dongle_invD [OF scan_starts.prems]
  have idle: "nw_proc (dg_scan s n) = None" using inv(5) [of n] scan_starts.hyps(1) by blast
  note started = scan_begin_cases [OF scan_starts.hyps(2) idle, unfolded inv(2)]
  have closed: "open_device s (Inr n) = None" using idle by (simp add: open_device_def)
  show ?case
  proof (cases entered)
    case True
    with started(3) sdr.honoured_acquire(2) [OF inv(3) _ owner_name_inj, of _ "Inr n" _ True]
    have "sdr.honoured owner_name ((open_device s)(Inr n \<mapsto> sr_device_index request)) (snd vl)" by blast
    with True started show ?thesis
      by (intro dongle_invI_scan [OF scan_starts.prems]) auto
  next
    case False
    with started(2) honoured_begin [OF inv(3) closed]
    have "sdr.honoured owner_name ((open_device s)(Inr n := None)) (snd vl)" by blast
    with False started show ?thesis
      by (intro dongle_invI_scan [OF scan_starts.prems]) auto
  qed
next
  case (sdr_reads s n spectrum to_iso ok now fault raw w out)
  note inv = dongle_invD [OF sdr_reads.prems]
  have w: "w = fst (sdr_round spectrum to_iso ok now fault raw (dg_sdr s n))"
    using sdr_reads.hyps(3) by simp
  show ?case unfolding w
    by (rule dongle_invI_sdr [OF sdr_reads.prems])
      (simp_all only: fst_conv snd_conv sdr_round_child sdr_same_child scan_same_child same_open inv simp_thms)
next
  case (sdr_stops alive s n w out)
  note inv = dongle_invD [OF sdr_stops.prems]
  have w: "w = fst (sdr_stop alive (dg_sdr s n))" using sdr_stops.hyps(1) by simp
  show ?case unfolding w
    by (rule dongle_invI_sdr [OF sdr_stops.prems])
      (simp_all only: fst_conv snd_conv sdr_round_child sdr_same_child scan_same_child same_open inv simp_thms)
next
  case (sdr_leaves s n to_iso ok now ending wl out)
  note inv = dongle_invD [OF sdr_leaves.prems]
  have wl: "wl = fst (sdr_leave to_iso ok now ending (dg_sdr s n) (dg_leases s))"
    using sdr_leaves.hyps(2) by simp
  show ?case unfolding wl
    by (rule dongle_invI_sdr [OF sdr_leaves.prems])
      (simp_all add: inv(1) sdr.honoured_release [OF inv(3) owner_name_inj])
next
  case (sdr_shuts_down to_iso ok now ending s n wl out)
  note inv = dongle_invD [OF sdr_shuts_down.prems]
  have wl: "wl = fst (sdr_shutdown to_iso ok now ending (dg_sdr s n) (dg_leases s))"
    using sdr_shuts_down.hyps(1) by simp
  show ?case unfolding wl
    by (rule dongle_invI_sdr [OF sdr_shuts_down.prems])
      (simp_all add: inv(1) sdr.honoured_release [OF inv(3) owner_name_inj])
next
  case (scan_reads s n float_of raw v sout)
  note inv = dongle_invD [OF scan_reads.prems]
  have v: "v = fst (scan_round float_of raw (dg_scan s n))" using scan_reads.hyps(3) by simp
  show ?case unfolding v
    by (rule dongle_invI_scan [OF scan_reads.prems])
      (simp_all only: fst_conv snd_conv sdr_round_child sdr_same_child scan_same_child same_open inv simp_thms)
next
  case (scan_stops alive s n v sout)
  note inv = dongle_invD [OF scan_stops.prems]
  have v: "v = fst (scan_stop alive (dg_scan s n))" using scan_stops.hyps(1) by simp
  show ?case unfolding v
    by (rule dongle_invI_scan [OF scan_stops.prems])
      (simp_all only: fst_conv snd_conv sdr_round_child sdr_same_child scan_same_child same_open inv simp_thms)
next
  case (scan_leaves s n ending vl sout)
  note inv = dongle_invD [OF scan_leaves.prems]
  have vl: "vl = fst (scan_leave ending (dg_scan s n) (dg_leases s))" using scan_leaves.hyps(2) by simp
  show ?case unfolding vl
    by (rule dongle_invI_scan [OF scan_leaves.prems])
      (simp_all add: inv(2) sdr.honoured_release [OF inv(3) owner_name_inj])
next
  case (scan_shuts_down ending s n vl sout)
  note inv = dongle_invD [OF scan_shuts_down.prems]
  have vl: "vl = fst (scan_shutdown ending (dg_scan s n) (dg_leases s))"
    using scan_shuts_down.hyps(1) by simp
  show ?case unfolding vl
    by (rule dongle_invI_scan [OF scan_shuts_down.prems])
      (simp_all add: inv(2) sdr.honoured_release [OF inv(3) owner_name_inj])
qed

lemma dongle_inv_new: "dongle_inv (dongle_system_new label)"
  by (auto simp: dongle_inv_def dongle_system_new_def sdr_worker_new_def scan_worker_new_def
      owner_name_def open_device_def sdr.honoured_def split: sum.splits)

lemma dongle_inv_reachable:
  "dongle_step\<^sup>*\<^sup>* (dongle_system_new label) s \<Longrightarrow> dongle_inv s"
  by (induction rule: rtranclp_induct) (auto simp: dongle_inv_new dongle_inv_step)




end
