(* ===== verification/Firmware.thy ===== *)
theory Firmware
  imports PyValue "HOL-Library.Sublist"
begin

text \<open>
  \<open>services/firmware.py\<close> and the worker of \<open>controllers/firmware_controller.py\<close>: finding a release,
  downloading and unpacking it, checking it, and the flashing, probing and backup of a radio through
  \<open>esptool\<close>.  Parameters: the network, \<open>urlsplit\<close>, JSON and zip decoding, the hash functions, the
  serial ports and \<open>esptool\<close> itself, whose calls are recorded in order.  The disk is a map from paths
  to file contents; creating directories is not modelled.
\<close>

section \<open>Results\<close>

text \<open>A \<open>FirmwareError\<close>, or any other exception.\<close>

datatype fw_error = FirmwareError string | Raised string

definition ensure :: "bool \<Rightarrow> string \<Rightarrow> fw_error + unit" where
  "ensure c m = (if c then Inr () else Inl (FirmwareError m))"

definition some_or :: "fw_error \<Rightarrow> 'a option \<Rightarrow> fw_error + 'a" where
  "some_or e x = (case x of None \<Rightarrow> Inl e | Some v \<Rightarrow> Inr v)"

fun find_first :: "('a \<Rightarrow> 'e + bool) \<Rightarrow> 'a list \<Rightarrow> 'e + 'a option" where
  "find_first P [] = Inr None"
| "find_first P (x # xs) =
     (case P x of Inl e \<Rightarrow> Inl e | Inr True \<Rightarrow> Inr (Some x) | Inr False \<Rightarrow> find_first P xs)"

text \<open>\<open>v.get(k)\<close>, \<open>v[k]\<close> and iteration on a JSON value.\<close>

definition get_key :: "pyval \<Rightarrow> string \<Rightarrow> fw_error + pyval" where
  "get_key v k = (case v of PDict d \<Rightarrow> Inr (dict_get d k) | _ \<Rightarrow> Inl (Raised ''AttributeError''))"

definition item_of :: "pyval \<Rightarrow> string \<Rightarrow> fw_error + pyval" where
  "item_of v k =
     (case v of
        PDict d \<Rightarrow> (case map_of d k of Some x \<Rightarrow> Inr x | None \<Rightarrow> Inl (Raised ''KeyError''))
      | _ \<Rightarrow> Inl (Raised ''TypeError''))"

definition iterate :: "pyval \<Rightarrow> fw_error + pyval list" where
  "iterate v =
     (case v of
        PList l \<Rightarrow> Inr l
      | PDict d \<Rightarrow> Inr (map (\<lambda>e. PStr (fst e)) d)
      | PStr s \<Rightarrow> Inr (map (\<lambda>c. PStr [c]) s)
      | _ \<Rightarrow> Inl (Raised ''TypeError''))"

definition list_or_empty :: "pyval \<Rightarrow> string \<Rightarrow> fw_error + pyval list" where
  "list_or_empty v k =
     (case v of
        PDict d \<Rightarrow> (case map_of d k of None \<Rightarrow> Inr [] | Some x \<Rightarrow> iterate x)
      | _ \<Rightarrow> Inl (Raised ''AttributeError''))"

definition remove_prefix :: "string \<Rightarrow> string \<Rightarrow> string" where
  "remove_prefix p s = (if starts_with p s then drop (length p) s else s)"

section \<open>Releases\<close>

definition MAX_ASSET_BYTES :: int where "MAX_ASSET_BYTES = 300 * 1024 * 1024"

definition GITHUB_HOSTS :: "string list" where
  "GITHUB_HOSTS = [''api.github.com'', ''github.com'', ''objects.githubusercontent.com'',
     ''release-assets.githubusercontent.com'']"

definition CHIP_BY_PLATFORM :: "(string \<times> string) list" where
  "CHIP_BY_PLATFORM = [(''esp32s3'', ''esp32s3'')]"

definition RELEASES_API :: string where
  "RELEASES_API = ''https://api.github.com/repos/meshtastic/firmware/releases?per_page=20''"

record fw_release =
  fr_tag :: pyval
  fr_version :: string
  fr_prerelease :: bool
  fr_published_at :: pyval
  fr_asset_name :: string
  fr_asset_url :: pyval
  fr_asset_size :: int
  fr_asset_sha256 :: string
  fr_platform :: string
  fr_channel :: string

record fw_bundle =
  fb_release :: fw_release
  fb_root :: string
  fb_pio_env :: string
  fb_hw_model :: string
  fb_requires_dfu :: bool
  fb_update_image :: string
  fb_factory_image :: string
  fb_ota_image :: string
  fb_filesystem_image :: string
  fb_ota_offset :: string
  fb_filesystem_offset :: string
  fb_file_md5 :: "(string \<times> string) list"

text \<open>\<open>split url\<close> is the scheme and the host name.\<close>

type_synonym url_split = "string \<Rightarrow> string \<times> string option"

definition official :: "url_split \<Rightarrow> string \<Rightarrow> bool" where
  "official split url \<longleftrightarrow> fst (split url) = ''https''
     \<and> (case snd (split url) of Some host \<Rightarrow> host \<in> set GITHUB_HOSTS | None \<Rightarrow> False)"

definition validate_url :: "url_split \<Rightarrow> string \<Rightarrow> fw_error + unit" where
  "validate_url split url = ensure (official split url)
     ''Firmware network access is restricted to official GitHub HTTPS hosts.''"

text \<open>The network: the address finally answering and the document, or why there is none.\<close>

type_synonym fetch_json = "string \<Rightarrow> string + string \<times> pyval"

definition fetch_document :: "url_split \<Rightarrow> fetch_json \<Rightarrow> string \<Rightarrow> fw_error + pyval" where
  "fetch_document split net url =
     and_then (validate_url split url) (\<lambda>_.
       case net url of
         Inl e \<Rightarrow> Inl (Raised e)
       | Inr (final, doc) \<Rightarrow> and_then (validate_url split final) (\<lambda>_. Inr doc))"

definition url_text :: "pyval \<Rightarrow> fw_error + string" where
  "url_text v = (case v of PStr s \<Rightarrow> Inr s | PNone \<Rightarrow> Inr [] | _ \<Rightarrow> Inl (Raised ''AttributeError''))"

definition env_char :: "char \<Rightarrow> bool" where
  "env_char c \<longleftrightarrow> is_alpha c \<or> is_digit c \<or> c \<in> set ''_.-''"

definition named :: "string \<Rightarrow> pyval \<Rightarrow> fw_error + bool" where
  "named name a = and_then (item_of a ''name'') (\<lambda>n. Inr (n = PStr name))"

definition eligible :: "bool \<Rightarrow> pyval \<Rightarrow> fw_error + bool" where
  "eligible include_prerelease item =
     and_then (get_key item ''draft'') (\<lambda>draft.
       if py_truthy draft then Inr False
       else if include_prerelease then Inr True
       else and_then (get_key item ''prerelease'') (\<lambda>pre. Inr (\<not> py_truthy pre)))"

definition supported :: "pyval \<Rightarrow> fw_error + string" where
  "supported v =
     (case v of
        PStr s \<Rightarrow> if map_of CHIP_BY_PLATFORM s \<noteq> None then Inr s
                  else Inl (FirmwareError (''OrcMesh firmware flashing does not support platform '' @ s))
      | PDict _ \<Rightarrow> Inl (Raised ''TypeError'') | PList _ \<Rightarrow> Inl (Raised ''TypeError'')
      | _ \<Rightarrow> Inl (FirmwareError (''OrcMesh firmware flashing does not support platform '' @ py_str v)))"

text \<open>The asset, once the target is known to be supported.\<close>

definition release_of ::
    "pyval \<Rightarrow> string \<Rightarrow> pyval list \<Rightarrow> string \<Rightarrow> fw_error + fw_release" where
  "release_of release version assets platform =
     (let asset_name = ''firmware-'' @ platform @ ''-'' @ version @ ''.zip''
      in and_then (find_first (named asset_name) assets) (\<lambda>found.
         and_then (some_or (FirmwareError (''Release '' @ version @ '' is missing '' @ asset_name)) found) (\<lambda>asset.
         and_then (get_key asset ''size'') (\<lambda>raw_size.
         and_then (some_or (Raised ''ValueError'') (if py_truthy raw_size then py_int raw_size else Some 0)) (\<lambda>sz.
         and_then (ensure (0 < sz \<and> sz \<le> MAX_ASSET_BYTES) ''The firmware asset has an invalid size.'') (\<lambda>_.
         and_then (get_key asset ''digest'') (\<lambda>raw_digest.
         let digest = (if py_truthy raw_digest then py_str raw_digest else [])
         in and_then (ensure (starts_with ''sha256:'' digest)
              ''The official release asset does not provide a SHA-256 digest.'') (\<lambda>_.
            and_then (get_key release ''name'') (\<lambda>raw_name.
            and_then (get_key release ''prerelease'') (\<lambda>pre.
            and_then (get_key release ''published_at'') (\<lambda>published.
            and_then (item_of release ''tag_name'') (\<lambda>tag.
            and_then (item_of asset ''browser_download_url'') (\<lambda>url.
            let release_name = lower (if py_truthy raw_name then py_str raw_name else [])
            in Inr \<lparr>fr_tag = tag, fr_version = version, fr_prerelease = py_truthy pre,
                 fr_published_at = (if py_truthy published then published else PStr []),
                 fr_asset_name = asset_name, fr_asset_url = url, fr_asset_size = sz,
                 fr_asset_sha256 = remove_prefix ''sha256:'' digest, fr_platform = platform,
                 fr_channel =
                   (if py_truthy pre \<or> contains ''alpha'' release_name then ''alpha''
                    else if contains ''beta'' release_name then ''beta'' else ''stable'')\<rparr>)))))))))))))"

definition discover_release ::
    "url_split \<Rightarrow> fetch_json \<Rightarrow> string \<Rightarrow> bool \<Rightarrow> fw_error + fw_release" where
  "discover_release split net pio_env include_prerelease =
     and_then (ensure (pio_env \<noteq> [] \<and> list_all env_char pio_env)
       ''The connected radio did not report a valid firmware target.'') (\<lambda>_.
     and_then (fetch_document split net RELEASES_API) (\<lambda>doc.
     and_then (iterate doc) (\<lambda>releases.
     and_then (find_first (eligible include_prerelease) releases) (\<lambda>found.
     and_then (some_or (FirmwareError ''No matching Meshtastic firmware release is available.'') found)
       (\<lambda>release.
     and_then (item_of release ''tag_name'') (\<lambda>tag.
     let version = remove_prefix ''v'' (py_str tag)
     in and_then (item_of release ''assets'') (\<lambda>raw_assets.
        and_then (iterate raw_assets) (\<lambda>assets.
        and_then (find_first (named (''firmware-'' @ version @ ''.json'')) assets) (\<lambda>found.
        and_then (some_or (FirmwareError ''The release does not contain a firmware target manifest.'') found)
          (\<lambda>manifest_asset.
        and_then (item_of manifest_asset ''browser_download_url'') (\<lambda>raw_url.
        and_then (url_text raw_url) (\<lambda>url.
        and_then (fetch_document split net url) (\<lambda>manifest.
        and_then (list_or_empty manifest ''targets'') (\<lambda>targets.
        and_then (find_first (\<lambda>t. and_then (get_key t ''board'') (\<lambda>b. Inr (b = PStr pio_env))) targets)
          (\<lambda>found.
        and_then (some_or (FirmwareError (''Release '' @ version @ '' does not support '' @ pio_env @ ''.''))
          found) (\<lambda>target.
        and_then (item_of target ''platform'') (\<lambda>raw_platform.
        and_then (supported raw_platform) (\<lambda>platform.
        release_of release version assets platform))))))))))))))))))"

section \<open>Downloading\<close>

type_synonym disk = "string \<Rightarrow> string option"

record hashes =
  hs_sha256 :: "string \<Rightarrow> string"
  hs_md5 :: "string \<Rightarrow> string"

text \<open>A download: the address finally answering, the blocks read, and the failure that ended it.\<close>

type_synonym fetch_bytes = "string \<Rightarrow> string + string \<times> string list \<times> string option"

definition in_dir :: "string \<Rightarrow> string \<Rightarrow> string" where
  "in_dir folder name = folder @ ''/'' @ name"

text \<open>The loop over the blocks: what has been written, and the progress reports.\<close>

fun receive :: "int \<Rightarrow> string \<Rightarrow> string list \<Rightarrow> (string \<times> (int \<times> int) list) \<times> fw_error option" where
  "receive expected got [] = ((got, []), None)"
| "receive expected got (b # bs) =
     (let got' = got @ b
      in if int (length got') > MAX_ASSET_BYTES
         then ((got', []), Some (FirmwareError ''Firmware download exceeded the safety limit.''))
         else (let ((all, reports), e) = receive expected got' bs
               in ((all, (int (length got'), expected) # reports), e)))"

definition download ::
    "url_split \<Rightarrow> hashes \<Rightarrow> fetch_bytes \<Rightarrow> string \<Rightarrow> fw_release \<Rightarrow> disk
      \<Rightarrow> (fw_error + string) \<times> (int \<times> int) list \<times> disk" where
  "download split hs net cache r d =
     (let destination = in_dir cache (fr_asset_name r);
          part_file = destination @ ''.partial'';
          sized = (case d destination of Some c \<Rightarrow> int (length c) = fr_asset_size r | None \<Rightarrow> False)
      in if sized \<and> hs_sha256 hs (the (d destination)) = fr_asset_sha256 r
         then (Inr destination, [(fr_asset_size r, fr_asset_size r)], d)
         else (let d = (if sized then d(destination := None) else d)
               in case and_then (url_text (fr_asset_url r))
                         (\<lambda>url. and_then (validate_url split url) (\<lambda>_. Inr url)) of
                    Inl e \<Rightarrow> (Inl e, [], d)
                  | Inr url \<Rightarrow>
                      (case net url of
                         Inl e \<Rightarrow> (Inl (Raised e), [], d)
                       | Inr (final, blocks, broken) \<Rightarrow>
                           (if \<not> official split final
                            then (Inl (FirmwareError ''Firmware network access is restricted to official GitHub HTTPS hosts.''),
                                  [], d(part_file \<mapsto> []))
                            else (let ((got, reports), e) = receive (fr_asset_size r) [] blocks;
                                      d = d(part_file \<mapsto> got)
                                  in case e of
                                       Some e \<Rightarrow> (Inl e, reports, d)
                                     | None \<Rightarrow>
                                         (case broken of
                                            Some m \<Rightarrow> (Inl (Raised m), reports, d)
                                          | None \<Rightarrow>
                                              if int (length got) \<noteq> fr_asset_size r
                                                 \<or> hs_sha256 hs got \<noteq> fr_asset_sha256 r
                                              then (Inl (FirmwareError
                                                     ''Firmware download failed its size or SHA-256 verification.''),
                                                    reports, d(part_file := None))
                                              else (Inr destination, reports,
                                                    d(part_file := None, destination \<mapsto> got))))))))"

section \<open>Preparing a bundle\<close>

definition base_name :: "string \<Rightarrow> string" where
  "base_name p = rev (takeWhile (\<lambda>c. c \<noteq> CHR ''/'') (dropWhile (\<lambda>c. c = CHR ''/'') (rev p)))"

text \<open>A zip member: its name, declared size and content (\<open>None\<close>: reading it raises).\<close>

type_synonym zip_member = "string \<times> int \<times> string option"

definition MAX_MEMBER_BYTES :: int where "MAX_MEMBER_BYTES = 32 * 1024 * 1024"

definition wanted_files :: "string \<Rightarrow> fw_release \<Rightarrow> string list" where
  "wanted_files pio_env r =
     [''firmware-'' @ pio_env @ ''-'' @ fr_version r @ ''.bin'',
      ''firmware-'' @ pio_env @ ''-'' @ fr_version r @ ''.factory.bin'',
      ''littlefs-'' @ pio_env @ ''-'' @ fr_version r @ ''.bin'',
      ''mt-'' @ fr_platform r @ ''-ota.bin'',
      ''firmware-'' @ pio_env @ ''-'' @ fr_version r @ ''.mt.json'']"

text \<open>The dictionary of members by base name; a later member replaces an earlier one.\<close>

definition members_of :: "zip_member list \<Rightarrow> string \<Rightarrow> (int \<times> string option) option" where
  "members_of zs name = map_of (rev (map (\<lambda>(f, n, c). (base_name f, n, c)) zs)) name"

fun unpack :: "(string \<Rightarrow> (int \<times> string option) option) \<Rightarrow> string \<Rightarrow> string list \<Rightarrow> disk \<Rightarrow> (fw_error + unit) \<times> disk" where
  "unpack members folder [] d = (Inr (), d)"
| "unpack members folder (name # names) d =
     (case members name of
        None \<Rightarrow> (Inl (Raised ''KeyError''), d)
      | Some (n, content) \<Rightarrow>
          if n > MAX_MEMBER_BYTES
          then (Inl (FirmwareError (''Unexpectedly large firmware member: '' @ name)), d)
          else case content of
            None \<Rightarrow> (Inl (Raised ''BadZipFile''), d(in_dir folder name \<mapsto> []))
          | Some c \<Rightarrow> unpack members folder names (d(in_dir folder name \<mapsto> c)))"

definition hex_digit :: "char \<Rightarrow> bool" where
  "hex_digit c \<longleftrightarrow> hex_value c \<noteq> None"

definition is_md5 :: "string \<Rightarrow> bool" where
  "is_md5 s \<longleftrightarrow> length s = 32 \<and> list_all hex_digit s"

text \<open>\<open>{item["name"]: item["md5"] for item in items if item.get("md5")}\<close>, and the table of partition
  offsets; in both a later entry replaces an earlier one, and a list or dictionary is no key.\<close>

type_synonym pytable = "(pyval \<times> pyval) list"

definition hashable :: "pyval \<Rightarrow> fw_error + pyval" where
  "hashable v = (case v of PDict _ \<Rightarrow> Inl (Raised ''TypeError'') | PList _ \<Rightarrow> Inl (Raised ''TypeError'')
     | _ \<Rightarrow> Inr v)"

fun md5_table :: "pyval list \<Rightarrow> fw_error + pytable" where
  "md5_table [] = Inr []"
| "md5_table (i # is) =
     and_then (get_key i ''md5'') (\<lambda>m.
       if \<not> py_truthy m then md5_table is
       else and_then (item_of i ''name'') (\<lambda>n. and_then (hashable n) (\<lambda>n.
            and_then (md5_table is) (\<lambda>t. Inr ((n, m) # t)))))"

fun part_table :: "pyval list \<Rightarrow> fw_error + pytable" where
  "part_table [] = Inr []"
| "part_table (i # is) =
     and_then (item_of i ''subtype'') (\<lambda>s. and_then (hashable s) (\<lambda>s. and_then (item_of i ''offset'') (\<lambda>off.
       and_then (part_table is) (\<lambda>t. Inr ((s, off) # t)))))"

definition table_get :: "pytable \<Rightarrow> string \<Rightarrow> pyval option" where
  "table_get t k = map_of (rev t) (PStr k)"

definition text_entries :: "pytable \<Rightarrow> (string \<times> string) list" where
  "text_entries t =
     List.map_filter (\<lambda>e. case e of (PStr k, v) \<Rightarrow> Some (k, case v of PStr s \<Rightarrow> s | _ \<Rightarrow> []) | _ \<Rightarrow> None)
       (rev t)"

fun check_images :: "hashes \<Rightarrow> pytable \<Rightarrow> string \<Rightarrow> disk \<Rightarrow> string list \<Rightarrow> fw_error + unit" where
  "check_images hs md5s folder d [] = Inr ()"
| "check_images hs md5s folder d (name # names) =
     (case table_get md5s name of
        None \<Rightarrow> Inl (FirmwareError (''Firmware metadata is missing a valid image hash: '' @ name))
      | Some (PStr expected) \<Rightarrow>
          (if \<not> is_md5 expected
           then Inl (FirmwareError (''Firmware metadata is missing a valid image hash: '' @ name))
           else case d (in_dir folder name) of
             None \<Rightarrow> Inl (Raised ''FileNotFoundError'')
           | Some c \<Rightarrow>
               if hs_md5 hs c \<noteq> lower expected
               then Inl (FirmwareError (''Firmware member failed verification: '' @ name))
               else check_images hs md5s folder d names)
      | Some _ \<Rightarrow> Inl (Raised ''TypeError''))"

definition hex_number :: "string \<Rightarrow> nat option" where
  "hex_number s =
     (if starts_with ''0x'' s \<and> drop 2 s \<noteq> [] then digits_base 16 0 (drop 2 s) else None)"

definition valid_offset :: "string \<Rightarrow> bool" where
  "valid_offset s =
     (case hex_number s of None \<Rightarrow> False | Some n \<Rightarrow> 0 < int n \<and> int n < MAX_MEMBER_BYTES)"

definition check_metadata :: "hashes \<Rightarrow> fw_release \<Rightarrow> string \<Rightarrow> string \<Rightarrow> string \<Rightarrow> disk \<Rightarrow> pyval \<Rightarrow> fw_error + fw_bundle" where
  "check_metadata hs r pio_env hw_model folder d metadata =
     (let wanted = wanted_files pio_env r
      in and_then (get_key metadata ''platformioTarget'') (\<lambda>target.
         and_then (ensure (target = PStr pio_env)
           ''Firmware target metadata does not match the connected radio.'') (\<lambda>_.
         and_then (get_key metadata ''hwModelSlug'') (\<lambda>raw_hw.
         let expected_hw = (if py_truthy raw_hw then py_str raw_hw else [])
         in and_then (ensure (\<not> (hw_model \<noteq> [] \<and> py_truthy raw_hw \<and> raw_hw \<noteq> PStr hw_model))
              (''Firmware hardware model '' @ expected_hw @ '' does not match '' @ hw_model @ ''.'')) (\<lambda>_.
            and_then (get_key metadata ''activelySupported'') (\<lambda>active.
            and_then (ensure (active \<noteq> PBool False)
              ''This firmware target is no longer actively supported.'') (\<lambda>_.
            and_then (list_or_empty metadata ''files'') (\<lambda>files.
            and_then (md5_table files) (\<lambda>table.
            and_then (check_images hs table folder d (butlast wanted)) (\<lambda>_.
               and_then (list_or_empty metadata ''part'') (\<lambda>raw_parts.
               and_then (part_table raw_parts) (\<lambda>ptable.
               case (table_get ptable ''ota_1'', table_get ptable ''spiffs'') of
                    (Some raw_ota, Some raw_spiffs) \<Rightarrow>
                      (let ota = py_str raw_ota; spiffs = py_str raw_spiffs
                       in and_then (ensure (valid_offset ota) ''Firmware partition offset is invalid: ota_1'') (\<lambda>_.
                      and_then (ensure (valid_offset spiffs) ''Firmware partition offset is invalid: spiffs'') (\<lambda>_.
                      and_then (get_key metadata ''requiresDfu'') (\<lambda>dfu.
                      Inr \<lparr>fb_release = r, fb_root = folder, fb_pio_env = pio_env,
                        fb_hw_model = (if expected_hw \<noteq> [] then expected_hw else hw_model),
                        fb_requires_dfu = py_truthy dfu,
                        fb_update_image = in_dir folder (wanted ! 0),
                        fb_factory_image = in_dir folder (wanted ! 1),
                        fb_ota_image = in_dir folder (wanted ! 3),
                        fb_filesystem_image = in_dir folder (wanted ! 2),
                        fb_ota_offset = ota, fb_filesystem_offset = spiffs, fb_file_md5 = text_entries table\<rparr>))))
                  | _ \<Rightarrow> Inl (FirmwareError ''Firmware partition metadata is incomplete.'')))))))))))))"

definition prepare_bundle ::
    "url_split \<Rightarrow> hashes \<Rightarrow> fetch_bytes \<Rightarrow> (string \<Rightarrow> zip_member list option) \<Rightarrow> (string \<Rightarrow> pyval option)
      \<Rightarrow> string \<Rightarrow> fw_release \<Rightarrow> string \<Rightarrow> string \<Rightarrow> disk \<Rightarrow> (fw_error + fw_bundle) \<times> disk" where
  "prepare_bundle split hs net unzip json cache r pio_env hw_model d =
     (case download split hs net cache r d of
        (Inl e, reports, d) \<Rightarrow> (Inl e, d)
      | (Inr archive, reports, d) \<Rightarrow>
          (let folder = in_dir (in_dir cache (fr_version r)) pio_env; wanted = wanted_files pio_env r
           in case unzip (case d archive of Some c \<Rightarrow> c | None \<Rightarrow> []) of
                None \<Rightarrow> (Inl (Raised ''BadZipFile''), d)
              | Some zs \<Rightarrow>
                  (let absent = filter (\<lambda>n. members_of zs n = None) wanted
                   in if absent \<noteq> []
                      then (Inl (FirmwareError (''Firmware bundle is missing: '' @ join_with '', '' absent)), d)
                      else case unpack (members_of zs) folder wanted d of
                        (Inl e, d) \<Rightarrow> (Inl e, d)
                      | (Inr _, d) \<Rightarrow>
                          (case json (case d (in_dir folder (last wanted)) of Some c \<Rightarrow> c | None \<Rightarrow> []) of
                             None \<Rightarrow> (Inl (Raised ''ValueError''), d)
                           | Some metadata \<Rightarrow>
                               (check_metadata hs r pio_env hw_model folder d metadata, d)))))"

definition image_paths :: "fw_bundle \<Rightarrow> string list" where
  "image_paths b = [fb_update_image b, fb_factory_image b, fb_ota_image b, fb_filesystem_image b]"

definition intact :: "hashes \<Rightarrow> (string \<times> string) list \<Rightarrow> disk \<Rightarrow> string \<Rightarrow> bool" where
  "intact hs md5s d path =
     (case (map_of md5s (base_name path), d path) of
        (Some expected, Some c) \<Rightarrow> is_md5 expected \<and> hs_md5 hs c = lower expected
      | _ \<Rightarrow> False)"

definition validate_bundle :: "hashes \<Rightarrow> disk \<Rightarrow> fw_bundle \<Rightarrow> fw_error + unit" where
  "validate_bundle hs d b =
     (case find (\<lambda>p. \<not> intact hs (fb_file_md5 b) d p) (image_paths b) of
        None \<Rightarrow> Inr ()
      | Some p \<Rightarrow> Inl (FirmwareError (''Firmware file is missing or changed: '' @ base_name p)))"

section \<open>Output of the tool\<close>

definition between :: "nat \<Rightarrow> nat \<Rightarrow> char \<Rightarrow> bool" where
  "between lo hi c \<longleftrightarrow> lo \<le> (of_char c :: nat) \<and> (of_char c :: nat) \<le> hi"

text \<open>The length of the escape sequence \<open>\x1b\[[0-?]*[ -/]*[@-~]\<close> the text begins with, or 0.\<close>

definition ansi_len :: "string \<Rightarrow> nat" where
  "ansi_len s =
     (case s of
        e # b # rest \<Rightarrow>
          (let params = takeWhile (between 48 63) rest;
               inter = takeWhile (between 32 47) (drop (length params) rest);
               final = drop (length params + length inter) rest
           in if e = CHR 0x1B \<and> b = CHR ''['' \<and> final \<noteq> [] \<and> between 64 126 (hd final)
              then length params + length inter + 3 else 0)
      | _ \<Rightarrow> 0)"

function strip_ansi :: "string \<Rightarrow> string" where
  "strip_ansi [] = []"
| "strip_ansi (c # cs) =
     (let n = ansi_len (c # cs) in if n = 0 then c # strip_ansi cs else strip_ansi (drop (n - 1) cs))"
  by pat_completeness auto
termination
  by (relation "measure length") auto

text \<open>\<open>_LineWriter\<close>: the buffer is the state; a write gives the completed lines and the new buffer.\<close>

definition writer_write :: "string \<Rightarrow> string \<Rightarrow> string list \<times> string" where
  "writer_write buffer s =
     (let text = buffer @ map (\<lambda>c. if c = cr then lf else c) (strip_ansi s);
          parts = split_on lf text
      in (map rstrip (filter (\<lambda>l. strip l \<noteq> []) (butlast parts)), last parts))"

definition writer_flush :: "string \<Rightarrow> string list \<times> string" where
  "writer_flush buffer = (if strip buffer \<noteq> [] then [rstrip buffer] else [], [])"

section \<open>The radio's port\<close>

record usb_port =
  up_device :: string
  up_vid :: "int option"
  up_pid :: "int option"
  up_serial :: "string option"

type_synonym usb_identity = "int option \<times> int option \<times> string option"

datatype esp_call = Esp (es_chip: string) (es_port: string) (es_args: "string list")
  (es_before: string) (es_after: string)

text \<open>The machine: its serial ports now and at each later poll, and what \<open>esptool\<close> answers to a call
  after the calls made so far (\<open>None\<close> is success).\<close>

record bench =
  bn_os :: string
  bn_ports :: "usb_port list"
  bn_polls :: "usb_port list list"
  bn_esp :: "esp_call list \<Rightarrow> esp_call \<Rightarrow> string option"

definition com_port :: "string \<Rightarrow> bool" where
  "com_port p \<longleftrightarrow> upper (take 3 p) = ''COM'' \<and> drop 3 p \<noteq> [] \<and> list_all is_digit (drop 3 p)"

definition verify_usb :: "bench \<Rightarrow> string \<Rightarrow> usb_identity option \<Rightarrow> fw_error + unit" where
  "verify_usb m port expected =
     (if bn_os m = ''nt'' \<and> \<not> com_port port
      then Inl (FirmwareError ''Select one explicit Windows COM port.'')
      else case expected of
        None \<Rightarrow> Inr ()
      | Some (vid, pid, serial) \<Rightarrow>
          (case find (\<lambda>i. up_device i = port) (bn_ports m) of
             None \<Rightarrow> Inl (FirmwareError (''The verified radio is no longer present on '' @ port @ ''.''))
           | Some current \<Rightarrow>
               if vid \<noteq> None \<and> up_vid current \<noteq> vid
               then Inl (FirmwareError ''The USB vendor changed after disconnect; refusing the operation.'')
               else if pid \<noteq> None \<and> up_pid current \<noteq> pid
               then Inl (FirmwareError ''The USB product changed after disconnect; refusing the operation.'')
               else if truthy_str serial \<and> up_serial current \<noteq> serial
               then Inl (FirmwareError ''A different USB device now owns the selected COM port.'')
               else Inr ()))"

definition is_expected :: "usb_identity \<Rightarrow> usb_port \<Rightarrow> bool" where
  "is_expected e i \<longleftrightarrow>
     (case e of (vid, pid, serial) \<Rightarrow>
        (vid = None \<or> up_vid i = vid) \<and> (pid = None \<or> up_pid i = pid)
        \<and> (\<not> truthy_str serial \<or> up_serial i = serial))"

definition bootloader_candidate :: "string \<Rightarrow> usb_identity option \<Rightarrow> usb_port list \<Rightarrow> usb_port option" where
  "bootloader_candidate port expected candidates =
     (case expected of
        None \<Rightarrow> find (\<lambda>i. up_device i = port) candidates
      | Some e \<Rightarrow>
          (let matches = filter (is_expected e) candidates
           in case find (\<lambda>i. up_device i = port) matches of
                Some i \<Rightarrow> Some i
              | None \<Rightarrow> (case matches of [i] \<Rightarrow> Some i | _ \<Rightarrow> None)))"

definition automatic_bootloader_port :: "bench \<Rightarrow> string \<Rightarrow> usb_identity option \<Rightarrow> fw_error + string" where
  "automatic_bootloader_port m port expected =
     (case List.map_filter (bootloader_candidate port expected) (bn_polls m) of
        [] \<Rightarrow> Inl (FirmwareError ''The radio did not reappear in bootloader mode.'')
      | i # _ \<Rightarrow> Inr (up_device i))"

definition run_esptool ::
    "bench \<Rightarrow> string \<Rightarrow> string \<Rightarrow> string list \<Rightarrow> string \<Rightarrow> string \<Rightarrow> esp_call list
      \<Rightarrow> (fw_error + unit) \<times> esp_call list" where
  "run_esptool m chip port args before after calls =
     (let c = Esp chip port args before after
      in (case bn_esp m calls c of None \<Rightarrow> Inr () | Some e \<Rightarrow> Inl (FirmwareError e), calls @ [c]))"

text \<open>Sequencing of operations that extend the record of calls.\<close>

type_synonym 'a esp_op = "esp_call list \<Rightarrow> (fw_error + 'a) \<times> esp_call list"

definition after_ok :: "'a esp_op \<Rightarrow> ('a \<Rightarrow> 'b esp_op) \<Rightarrow> 'b esp_op" where
  "after_ok p f calls = (case p calls of (Inl e, cs) \<Rightarrow> (Inl e, cs) | (Inr x, cs) \<Rightarrow> f x cs)"

definition just :: "fw_error + 'a \<Rightarrow> 'a esp_op" where
  "just r calls = (r, calls)"

definition bootloader_port ::
    "bench \<Rightarrow> string \<Rightarrow> string \<Rightarrow> usb_identity option \<Rightarrow> bool \<Rightarrow> string esp_op" where
  "bootloader_port m chip port expected automatic_retry calls =
     (case run_esptool m chip port [''chip-id''] ''default-reset'' ''no-reset'' calls of
        (Inr _, cs) \<Rightarrow> (Inr port, cs)
      | (Inl e, cs) \<Rightarrow>
          if \<not> automatic_retry then (Inl e, cs)
          else (case after_ok (just (automatic_bootloader_port m port expected))
                       (\<lambda>port. after_ok (run_esptool m chip port [''chip-id''] ''default-reset'' ''no-reset'')
                          (\<lambda>_. just (Inr port))) cs of
                  (Inr port, cs) \<Rightarrow> (Inr port, cs)
                | (Inl _, cs) \<Rightarrow>
                    (Inl (FirmwareError (''Automatic bootloader entry failed. Hold BOOT, tap RESET, release BOOT, ''
                       @ ''then retry with the radio's COM port.'')), cs)))"

section \<open>Operations on the radio\<close>

definition probe_radio :: "bench \<Rightarrow> string \<Rightarrow> usb_identity option \<Rightarrow> unit esp_op" where
  "probe_radio m port expected =
     after_ok (just (verify_usb m port expected)) (\<lambda>_.
     after_ok (bootloader_port m ''auto'' port expected True) (\<lambda>port.
     after_ok (run_esptool m ''auto'' port [''read-mac''] ''no-reset'' ''no-reset'') (\<lambda>_.
     after_ok (run_esptool m ''auto'' port [''flash-id''] ''no-reset'' ''no-reset'') (\<lambda>_.
     run_esptool m ''auto'' port [''get-security-info''] ''no-reset'' ''hard-reset''))))"

definition bin_path :: "string \<Rightarrow> bool" where
  "bin_path p \<longleftrightarrow> ends_with ''.bin'' (lower (base_name p)) \<and> 4 < length (base_name p)"

definition swap_suffix :: "string \<Rightarrow> string \<Rightarrow> string" where
  "swap_suffix p ext = take (length p - 4) p @ ext"

text \<open>\<open>img\<close> is what the tool leaves in the partial file, \<open>now\<close> the time as text; the result is the
  manifest that is written beside the image as JSON.\<close>

definition backup_flash ::
    "bench \<Rightarrow> hashes \<Rightarrow> (string \<Rightarrow> bool) \<Rightarrow> string option \<Rightarrow> string \<Rightarrow> string \<Rightarrow> string \<Rightarrow> usb_identity option
      \<Rightarrow> disk \<Rightarrow> (fw_error + pydict) \<times> esp_call list \<times> disk" where
  "backup_flash m hs parent_exists img now port destination expected d =
     (case verify_usb m port expected of
        Inl e \<Rightarrow> (Inl e, [], d)
      | Inr _ \<Rightarrow>
          if \<not> bin_path destination \<or> \<not> parent_exists destination
          then (Inl (FirmwareError ''Choose a .bin backup file in an existing folder.''), [], d)
          else (let part_file = swap_suffix destination ''.bin.partial''; d = d(part_file := None)
                in case bootloader_port m ''auto'' port expected True [] of
                     (Inl e, cs) \<Rightarrow> (Inl e, cs, d)
                   | (Inr port, cs) \<Rightarrow>
                       (case run_esptool m ''auto'' port [''read-flash'', ''0'', ''ALL'', part_file]
                               ''no-reset'' ''hard-reset'' cs of
                          (Inl e, cs) \<Rightarrow> (Inl e, cs, d(part_file := None))
                        | (Inr _, cs) \<Rightarrow>
                            (case img of
                               Some (b # bs) \<Rightarrow>
                                 (let digest = hs_sha256 hs (b # bs);
                                      manifest =
                                        [(''format'', PStr ''OrcMesh raw flash backup v1''),
                                         (''created_at'', PStr now),
                                         (''image'', PStr (base_name destination)),
                                         (''bytes'', PInt (int (length (b # bs)))),
                                         (''sha256'', PStr digest),
                                         (''usb_vid'', case expected of Some (Some v, _, _) \<Rightarrow> PInt v | _ \<Rightarrow> PNone),
                                         (''usb_pid'', case expected of Some (_, Some p, _) \<Rightarrow> PInt p | _ \<Rightarrow> PNone),
                                         (''usb_serial'', case expected of Some (_, _, Some s) \<Rightarrow> PStr s | _ \<Rightarrow> PNone)]
                                  in (Inr manifest, cs, d(part_file := None, destination \<mapsto> b # bs)))
                             | _ \<Rightarrow>
                                 (Inl (FirmwareError ''The raw flash backup is empty.''), cs,
                                  d(part_file := None))))))"

definition flash_bundle ::
    "bench \<Rightarrow> hashes \<Rightarrow> disk \<Rightarrow> fw_bundle \<Rightarrow> string \<Rightarrow> bool \<Rightarrow> usb_identity option \<Rightarrow> unit esp_op" where
  "flash_bundle m hs d b port full_install expected =
     after_ok (just (verify_usb m port expected)) (\<lambda>_.
     after_ok (just (validate_bundle hs d b)) (\<lambda>_.
     after_ok (just (some_or (FirmwareError (''OrcMesh cannot verify platform '' @ fr_platform (fb_release b)
         @ ''; refusing to flash.'')) (map_of CHIP_BY_PLATFORM (fr_platform (fb_release b))))) (\<lambda>chip.
     after_ok (bootloader_port m chip port expected (fb_requires_dfu b)) (\<lambda>port.
     if full_install
     then after_ok (run_esptool m chip port [''erase-flash''] ''no-reset'' ''no-reset'') (\<lambda>_.
          after_ok (run_esptool m chip port [''write-flash'', ''0x0'', fb_factory_image b] ''no-reset'' ''no-reset'') (\<lambda>_.
          after_ok (run_esptool m chip port [''write-flash'', fb_ota_offset b, fb_ota_image b] ''no-reset'' ''no-reset'') (\<lambda>_.
          run_esptool m chip port [''write-flash'', fb_filesystem_offset b, fb_filesystem_image b]
            ''no-reset'' ''hard-reset'')))
     else run_esptool m chip port [''write-flash'', ''0x10000'', fb_update_image b] ''no-reset'' ''hard-reset''))))"

section \<open>The worker\<close>

datatype fw_signal =
    ReleaseFound fw_release
  | BundleReady fw_bundle
  | Progress int int
  | FwCompleted string bool string

definition fw_text :: "fw_error \<Rightarrow> string" where
  "fw_text e = (case e of FirmwareError m \<Rightarrow> m | Raised m \<Rightarrow> m)"

definition finished :: "string \<Rightarrow> string \<Rightarrow> fw_error + 'a \<Rightarrow> fw_signal" where
  "finished op message r =
     (case r of Inl e \<Rightarrow> FwCompleted op False (fw_text e) | Inr _ \<Rightarrow> FwCompleted op True message)"

definition worker_discover :: "url_split \<Rightarrow> fetch_json \<Rightarrow> string \<Rightarrow> bool \<Rightarrow> fw_signal list" where
  "worker_discover split net pio_env pre =
     (case discover_release split net pio_env pre of
        Inl e \<Rightarrow> [FwCompleted ''discover'' False (fw_text e)]
      | Inr r \<Rightarrow> [ReleaseFound r, FwCompleted ''discover'' True (''Found Meshtastic '' @ fr_version r)])"

definition worker_prepare ::
    "url_split \<Rightarrow> hashes \<Rightarrow> fetch_bytes \<Rightarrow> (string \<Rightarrow> zip_member list option) \<Rightarrow> (string \<Rightarrow> pyval option)
      \<Rightarrow> string \<Rightarrow> fw_release \<Rightarrow> string \<Rightarrow> string \<Rightarrow> disk \<Rightarrow> fw_signal list \<times> disk" where
  "worker_prepare split hs net unzip json cache r pio_env hw_model d =
     (case prepare_bundle split hs net unzip json cache r pio_env hw_model d of
        (res, d') \<Rightarrow>
          (map (\<lambda>(n, t). Progress n t) (fst (snd (download split hs net cache r d)))
           @ (case res of Inl e \<Rightarrow> [] | Inr b \<Rightarrow> [BundleReady b])
           @ [finished ''prepare'' ''Firmware downloaded and verified'' res], d'))"

definition worker_flash ::
    "bench \<Rightarrow> hashes \<Rightarrow> disk \<Rightarrow> fw_bundle \<Rightarrow> string \<Rightarrow> bool \<Rightarrow> usb_identity option
      \<Rightarrow> fw_signal list \<times> esp_call list" where
  "worker_flash m hs d b port full expected =
     (case flash_bundle m hs d b port full expected [] of
        (r, cs) \<Rightarrow> ([finished ''flash'' ''Firmware flash completed'' r], cs))"

definition worker_probe :: "bench \<Rightarrow> string \<Rightarrow> usb_identity option \<Rightarrow> fw_signal list \<times> esp_call list" where
  "worker_probe m port expected =
     (case probe_radio m port expected [] of
        (r, cs) \<Rightarrow> ([finished ''probe'' ''Device probe completed'' r], cs))"

definition worker_backup ::
    "bench \<Rightarrow> hashes \<Rightarrow> (string \<Rightarrow> bool) \<Rightarrow> string option \<Rightarrow> string \<Rightarrow> string \<Rightarrow> string \<Rightarrow> usb_identity option
      \<Rightarrow> disk \<Rightarrow> fw_signal list \<times> esp_call list \<times> disk" where
  "worker_backup m hs parent_exists img now port destination expected d =
     (case backup_flash m hs parent_exists img now port destination expected d of
        (r, cs, d') \<Rightarrow> ([finished ''backup_flash'' ''Raw flash backup completed'' r], cs, d'))"

section \<open>Facts on sequencing\<close>

lemma ensure_Inr [simp]: "ensure c m = Inr u \<longleftrightarrow> c"
  by (simp add: ensure_def)

lemma some_or_Inr [simp]: "some_or e x = Inr v \<longleftrightarrow> x = Some v"
  by (auto simp: some_or_def split: option.splits)

lemma both_Inr: "(case x of None \<Rightarrow> Inl e | Some a \<Rightarrow> (case y of None \<Rightarrow> Inl e | Some b \<Rightarrow> f a b)) = Inr v
    \<longleftrightarrow> (\<exists>a b. x = Some a \<and> y = Some b \<and> f a b = Inr v)"
  by (auto split: option.splits)

lemmas flow = and_then_Inr both_Inr

section \<open>Facts on downloads\<close>

text \<open>C34: a downloaded archive is the announced one: whenever the download succeeds, from the cache or the
  network, the file it names holds exactly the announced number of bytes with the announced SHA-256.\<close>

theorem download_is_verified:
  assumes "download split hs net cache r d = (Inr path, reports, d')"
  shows "\<exists>c. d' path = Some c \<and> int (length c) = fr_asset_size r \<and> hs_sha256 hs c = fr_asset_sha256 r"
proof -
  let ?dest = "in_dir cache (fr_asset_name r)"
  show ?thesis
  proof (cases "(case d ?dest of Some c \<Rightarrow> int (length c) = fr_asset_size r | None \<Rightarrow> False)
      \<and> hs_sha256 hs (the (d ?dest)) = fr_asset_sha256 r")
    case True
    with assms show ?thesis by (auto simp: download_def Let_def split: option.splits)
  next
    case False
    with assms show ?thesis
      by (auto simp: download_def Let_def simp del: not_None_eq
          split: sum.splits option.splits prod.splits if_splits)
  qed
qed

text \<open>A download refused for its size leaves what it received behind, in the partial file.\<close>

lemma refused_download_keeps_part:
  assumes "download split hs net cache r d = (Inl (FirmwareError m), reports, d')"
    and "m = ''Firmware download exceeded the safety limit.''"
  shows "d' (in_dir cache (fr_asset_name r) @ ''.partial'') \<noteq> None"
  using assms
  by (auto simp: download_def Let_def validate_url_def ensure_def and_then_def url_text_def
      split: sum.splits option.splits prod.splits if_splits pyval.splits)

section \<open>Facts on bundles\<close>

lemma check_images_intact:
  "check_images hs t folder d names = Inr () \<Longrightarrow> name \<in> set names \<Longrightarrow>
    \<exists>e c. table_get t name = Some (PStr e) \<and> is_md5 e \<and> d (in_dir folder name) = Some c
      \<and> hs_md5 hs c = lower e"
  by (induction names) (auto split: option.splits pyval.splits if_splits)

lemma text_entries_get: "table_get t k = Some (PStr e) \<Longrightarrow> map_of (text_entries t) k = Some e"
proof -
  have "map_of u (PStr k) = Some (PStr e) \<Longrightarrow>
    map_of (List.map_filter (\<lambda>e. case e of (PStr k, v) \<Rightarrow> Some (k, case v of PStr s \<Rightarrow> s | _ \<Rightarrow> []) | _ \<Rightarrow> None) u) k
      = Some e" for u
    by (induction u) (auto simp: List.map_filter_def split: pyval.splits if_splits)
  then show "table_get t k = Some (PStr e) \<Longrightarrow> map_of (text_entries t) k = Some e"
    by (simp add: table_get_def text_entries_def)
qed

lemma base_name_of_path:
  assumes "CHR ''/'' \<notin> set name" "name \<noteq> []"
  shows "base_name (in_dir folder name) = name"
proof -
  have "hd (rev name) \<noteq> CHR ''/''" using assms by (metis hd_in_set rev_is_Nil_conv set_rev)
  then have "dropWhile (\<lambda>c. c = CHR ''/'') (rev name @ CHR ''/'' # rev folder) = rev name @ CHR ''/'' # rev folder"
    using assms(2) by (cases "rev name") auto
  moreover have "takeWhile (\<lambda>c. c \<noteq> CHR ''/'') (rev name @ CHR ''/'' # rev folder) = rev name"
    using assms(1) by (subst takeWhile_append2) auto
  ultimately show ?thesis by (simp add: base_name_def in_dir_def)
qed

lemma base_name_no_slash: "CHR ''/'' \<notin> set (base_name p)"
  by (auto simp: base_name_def dest: set_takeWhileD)

lemma member_name_no_slash: "members_of zs name \<noteq> None \<Longrightarrow> CHR ''/'' \<notin> set name"
proof -
  assume "members_of zs name \<noteq> None"
  then have "name \<in> fst ` set (map (\<lambda>(f, n, c). (base_name f, n, c)) zs)"
    by (auto simp: members_of_def dest: map_of_SomeD) (metis (no_types, lifting) case_prod_conv fst_conv map_of_eq_None_iff not_None_eq set_map set_rev)
  then obtain f n c where "name = base_name f" by force
  then show ?thesis by (simp add: base_name_no_slash)
qed

text \<open>What is prepared can be flashed: a bundle that \<open>prepare_bundle\<close> hands out passes the check made
  right before flashing, on the disk it left, and is for the radio's target and hardware.\<close>

theorem prepared_bundle_validates:
  assumes "prepare_bundle split hs net unzip json cache r pio_env hw_model d = (Inr b, d')"
  shows "validate_bundle hs d' b = Inr () \<and> fb_pio_env b = pio_env
    \<and> (hw_model \<noteq> [] \<longrightarrow> fb_hw_model b = hw_model)
    \<and> valid_offset (fb_ota_offset b) \<and> valid_offset (fb_filesystem_offset b)"
proof -
  let ?folder = "in_dir (in_dir cache (fr_version r)) pio_env" and ?w = "wanted_files pio_env r"
  obtain zs metadata where zs: "filter (\<lambda>n. members_of zs n = None) ?w = []"
    and check: "check_metadata hs r pio_env hw_model ?folder d' metadata = Inr b"
    using assms by (auto simp: prepare_bundle_def Let_def
        split: prod.splits sum.splits option.splits if_splits)
  have plain: "CHR ''/'' \<notin> set name" if "name \<in> set ?w" for name
    using zs that member_name_no_slash [of zs name] by (auto simp: filter_empty_conv)
  obtain t where images: "check_images hs t ?folder d' (butlast ?w) = Inr ()"
    and b: "fb_file_md5 b = text_entries t" "fb_pio_env b = pio_env"
      "fb_update_image b = in_dir ?folder (?w ! 0)" "fb_factory_image b = in_dir ?folder (?w ! 1)"
      "fb_ota_image b = in_dir ?folder (?w ! 3)" "fb_filesystem_image b = in_dir ?folder (?w ! 2)"
      "valid_offset (fb_ota_offset b)" "valid_offset (fb_filesystem_offset b)"
      "hw_model \<noteq> [] \<longrightarrow> fb_hw_model b = hw_model"
    using check by (auto simp: check_metadata_def Let_def flow)
  have "intact hs (text_entries t) d' (in_dir ?folder name)" if "name \<in> set (butlast ?w)" for name
  proof -
    from that have "CHR ''/'' \<notin> set name" using plain in_set_butlastD by fast
    moreover have "name \<noteq> []" using that by (auto simp: wanted_files_def)
    ultimately have "base_name (in_dir ?folder name) = name" by (rule base_name_of_path)
    with check_images_intact [OF images that] text_entries_get [of t name] show ?thesis
      by (auto simp: intact_def)
  qed
  then have "\<forall>p \<in> set (image_paths b). intact hs (fb_file_md5 b) d' p"
    unfolding image_paths_def b(1,3-6) wanted_files_def by simp
  then have "find (\<lambda>p. \<not> intact hs (fb_file_md5 b) d' p) (image_paths b) = None"
    by (auto simp: find_None_iff)
  then show ?thesis using b by (simp add: validate_bundle_def)
qed

section \<open>Facts on flashing\<close>

text \<open>The calls of a flash, once the bootloader answers.\<close>

definition flash_plan :: "string \<Rightarrow> string \<Rightarrow> fw_bundle \<Rightarrow> bool \<Rightarrow> esp_call list" where
  "flash_plan chip port b full_install =
     (if full_install
      then [Esp chip port [''erase-flash''] ''no-reset'' ''no-reset'',
            Esp chip port [''write-flash'', ''0x0'', fb_factory_image b] ''no-reset'' ''no-reset'',
            Esp chip port [''write-flash'', fb_ota_offset b, fb_ota_image b] ''no-reset'' ''no-reset'',
            Esp chip port [''write-flash'', fb_filesystem_offset b, fb_filesystem_image b]
              ''no-reset'' ''hard-reset'']
      else [Esp chip port [''write-flash'', ''0x10000'', fb_update_image b] ''no-reset'' ''hard-reset''])"

abbreviation chip_id :: "string \<Rightarrow> string \<Rightarrow> esp_call" where
  "chip_id chip port \<equiv> Esp chip port [''chip-id''] ''default-reset'' ''no-reset''"

lemma after_ok_cases:
  "after_ok p f cs = (r, cs') \<longleftrightarrow>
    (\<exists>e. p cs = (Inl e, cs') \<and> r = Inl e) \<or> (\<exists>x ds. p cs = (Inr x, ds) \<and> f x ds = (r, cs'))"
  by (auto simp: after_ok_def split: prod.splits sum.splits)

lemma run_esptool_calls:
  "run_esptool m chip port args before after cs = (r, cs') \<longleftrightarrow>
    cs' = cs @ [Esp chip port args before after] \<and>
    (case bn_esp m cs (Esp chip port args before after) of
       None \<Rightarrow> r = Inr () | Some e \<Rightarrow> r = Inl (FirmwareError e))"
  by (auto simp: run_esptool_def Let_def split: option.splits)

text \<open>The bootloader search asks for the chip and nothing else, and ends with an answered question on the
  port it gives.\<close>

lemma bootloader_calls:
  assumes "bootloader_port m chip port expected retry [] = (r, cs)"
  shows "list_all (\<lambda>c. es_args c = [''chip-id'']) cs"
    and "r = Inr port' \<Longrightarrow> \<exists>before. cs = before @ [chip_id chip port'] \<and> bn_esp m before (chip_id chip port') = None"
  using assms
  by (auto simp: bootloader_port_def after_ok_cases run_esptool_calls just_def
      split: prod.splits sum.splits if_splits option.splits)

lemma flash_writes:
  assumes "(if full_install
     then after_ok (run_esptool m chip port [''erase-flash''] ''no-reset'' ''no-reset'') (\<lambda>_.
          after_ok (run_esptool m chip port [''write-flash'', ''0x0'', fb_factory_image b] ''no-reset'' ''no-reset'') (\<lambda>_.
          after_ok (run_esptool m chip port [''write-flash'', fb_ota_offset b, fb_ota_image b] ''no-reset'' ''no-reset'') (\<lambda>_.
          run_esptool m chip port [''write-flash'', fb_filesystem_offset b, fb_filesystem_image b]
            ''no-reset'' ''hard-reset'')))
     else run_esptool m chip port [''write-flash'', ''0x10000'', fb_update_image b] ''no-reset'' ''hard-reset'') cs
     = (r, cs')"
  shows "\<exists>writes. cs' = cs @ writes \<and> prefix writes (flash_plan chip port b full_install)
    \<and> (r = Inr () \<longrightarrow> writes = flash_plan chip port b full_install)"
  using assms
  by (auto simp: after_ok_cases run_esptool_calls flash_plan_def split: if_splits option.splits)

text \<open>C33: nothing is written before every check has passed: if a flash asks the tool for anything but the chip,
  then the port still holds the verified USB device, all four images have the hashes of the bundle, the
  platform is a supported one, every earlier call only asked for the chip, and the last of those was
  answered on the port that is then written.  The writes follow the order of the plan without a gap, and
  a flash reported as successful has made all of them.\<close>

theorem flash_only_after_checks:
  assumes "flash_bundle m hs d b port full expected [] = (r, cs)"
    and "\<exists>c \<in> set cs. es_args c \<noteq> [''chip-id'']"
  shows "verify_usb m port expected = Inr () \<and> list_all (intact hs (fb_file_md5 b) d) (image_paths b) \<and>
    (\<exists>chip port' probes writes. cs = probes @ [chip_id chip port'] @ writes
      \<and> map_of CHIP_BY_PLATFORM (fr_platform (fb_release b)) = Some chip
      \<and> bn_esp m probes (chip_id chip port') = None
      \<and> list_all (\<lambda>c. es_args c = [''chip-id'']) probes
      \<and> prefix writes (flash_plan chip port' b full)
      \<and> (r = Inr () \<longrightarrow> writes = flash_plan chip port' b full))"
proof -
  obtain chip where usb: "verify_usb m port expected = Inr ()"
    and valid: "validate_bundle hs d b = Inr ()"
    and chip: "map_of CHIP_BY_PLATFORM (fr_platform (fb_release b)) = Some chip"
    and rest: "after_ok (bootloader_port m chip port expected (fb_requires_dfu b)) (\<lambda>port.
       if full
       then after_ok (run_esptool m chip port [''erase-flash''] ''no-reset'' ''no-reset'') (\<lambda>_.
            after_ok (run_esptool m chip port [''write-flash'', ''0x0'', fb_factory_image b] ''no-reset'' ''no-reset'') (\<lambda>_.
            after_ok (run_esptool m chip port [''write-flash'', fb_ota_offset b, fb_ota_image b] ''no-reset'' ''no-reset'') (\<lambda>_.
            run_esptool m chip port [''write-flash'', fb_filesystem_offset b, fb_filesystem_image b]
              ''no-reset'' ''hard-reset'')))
       else run_esptool m chip port [''write-flash'', ''0x10000'', fb_update_image b] ''no-reset'' ''hard-reset'')
       [] = (r, cs)"
    using assms unfolding flash_bundle_def after_ok_cases just_def by auto
  from valid have intact: "list_all (intact hs (fb_file_md5 b) d) (image_paths b)"
    by (auto simp: validate_bundle_def find_None_iff list_all_iff split: option.splits)
  from rest obtain port' boot where boot: "bootloader_port m chip port expected (fb_requires_dfu b) [] = (Inr port', boot)"
    and writes: "(if full
       then after_ok (run_esptool m chip port' [''erase-flash''] ''no-reset'' ''no-reset'') (\<lambda>_.
            after_ok (run_esptool m chip port' [''write-flash'', ''0x0'', fb_factory_image b] ''no-reset'' ''no-reset'') (\<lambda>_.
            after_ok (run_esptool m chip port' [''write-flash'', fb_ota_offset b, fb_ota_image b] ''no-reset'' ''no-reset'') (\<lambda>_.
            run_esptool m chip port' [''write-flash'', fb_filesystem_offset b, fb_filesystem_image b]
              ''no-reset'' ''hard-reset'')))
       else run_esptool m chip port' [''write-flash'', ''0x10000'', fb_update_image b] ''no-reset'' ''hard-reset'')
       boot = (r, cs)"
    using assms(2) bootloader_calls(1) unfolding after_ok_cases list_all_iff by metis
  from bootloader_calls [OF boot] obtain probes where "boot = probes @ [chip_id chip port']"
      "bn_esp m probes (chip_id chip port') = None" "list_all (\<lambda>c. es_args c = [''chip-id'']) probes"
    by auto
  with flash_writes [OF writes] usb intact chip show ?thesis by auto
qed

section \<open>Witnesses\<close>

definition sample_release :: fw_release where
  "sample_release = \<lparr>fr_tag = PStr ''v1'', fr_version = ''1'', fr_prerelease = False,
     fr_published_at = PStr [], fr_asset_name = ''fw.zip'', fr_asset_url = PStr ''u'', fr_asset_size = 2,
     fr_asset_sha256 = ''ab'', fr_platform = ''esp32s3'', fr_channel = ''stable''\<rparr>"

text \<open>A hash that keeps the text, and one that pads its length to a 32-digit number.\<close>

definition sample_hashes :: hashes where
  "sample_hashes = \<lparr>hs_sha256 = \<lambda>c. c, hs_md5 = \<lambda>c. replicate 31 (CHR ''0'') @ take 1 c\<rparr>"

definition sample_split :: url_split where
  "sample_split url = (''https'', Some ''github.com'')"

definition sample_archive :: fetch_bytes where
  "sample_archive url = Inr (url, [''a'', ''b''], None)"

theorem download_is_verified_witness:
  "\<exists>c. (snd (snd (download sample_split sample_hashes sample_archive ''/c'' sample_release (\<lambda>_. None))))
      ''/c/fw.zip'' = Some c \<and> int (length c) = fr_asset_size sample_release
      \<and> hs_sha256 sample_hashes c = fr_asset_sha256 sample_release"
proof -
  have "\<exists>reports d'. download sample_split sample_hashes sample_archive ''/c'' sample_release (\<lambda>_. None)
      = (Inr ''/c/fw.zip'', reports, d')"
    by (simp add: download_def sample_release_def sample_hashes_def sample_split_def sample_archive_def
        in_dir_def validate_url_def ensure_def official_def GITHUB_HOSTS_def url_text_def and_then_def
        MAX_ASSET_BYTES_def Let_def)
  then obtain reports d' where run: "download sample_split sample_hashes sample_archive ''/c'' sample_release
      (\<lambda>_. None) = (Inr ''/c/fw.zip'', reports, d')" by blast
  from download_is_verified [OF run] run show ?thesis by simp
qed

definition sample_members :: "zip_member list" where
  "sample_members = map (\<lambda>n. (n, 1, Some ''7'')) (wanted_files ''t'' sample_release)"

definition sample_metadata :: pyval where
  "sample_metadata = PDict
     [(''platformioTarget'', PStr ''t''), (''hwModelSlug'', PStr ''HELTEC''),
      (''files'', PList (map (\<lambda>n. PDict [(''name'', PStr n), (''md5'', PStr (replicate 31 (CHR ''0'') @ ''7''))])
         (wanted_files ''t'' sample_release))),
      (''part'', PList [PDict [(''subtype'', PStr ''ota_1''), (''offset'', PStr ''0x1000'')],
         PDict [(''subtype'', PStr ''spiffs''), (''offset'', PStr ''0x2000'')]])]"

definition sample_prepared :: "(fw_error + fw_bundle) \<times> disk" where
  "sample_prepared = prepare_bundle sample_split sample_hashes sample_archive (\<lambda>_. Some sample_members)
     (\<lambda>_. Some sample_metadata) ''/c'' sample_release ''t'' ''HELTEC'' (\<lambda>_. None)"

lemma sample_is_prepared: "(case fst sample_prepared of Inl _ \<Rightarrow> False | Inr b \<Rightarrow> True)"
  by code_simp

theorem prepared_bundle_validates_witness:
  "\<exists>b d'. sample_prepared = (Inr b, d') \<and> validate_bundle sample_hashes d' b = Inr () \<and> fb_pio_env b = ''t''"
proof -
  from sample_is_prepared obtain b d' where run: "sample_prepared = (Inr b, d')"
    by (cases "fst sample_prepared") (auto simp: prod_eq_iff)
  from prepared_bundle_validates [OF run [unfolded sample_prepared_def]] run show ?thesis by blast
qed

definition sample_images :: "(string \<times> string) list" where
  "sample_images = map (\<lambda>n. (n, replicate 31 (CHR ''0'') @ ''7'')) [''u'', ''f'', ''o'', ''s'']"

definition sample_bundle :: fw_bundle where
  "sample_bundle = \<lparr>fb_release = sample_release, fb_root = ''/c'', fb_pio_env = ''t'', fb_hw_model = [],
     fb_requires_dfu = False, fb_update_image = ''/c/u'', fb_factory_image = ''/c/f'', fb_ota_image = ''/c/o'',
     fb_filesystem_image = ''/c/s'', fb_ota_offset = ''0x1000'', fb_filesystem_offset = ''0x2000'',
     fb_file_md5 = sample_images\<rparr>"

definition sample_disk :: disk where
  "sample_disk p = (if p \<in> set (image_paths sample_bundle) then Some ''7'' else None)"

text \<open>A bench on which every call to the tool succeeds.\<close>

definition sample_bench :: bench where
  "sample_bench = \<lparr>bn_os = ''posix'', bn_ports = [], bn_polls = [], bn_esp = \<lambda>_ _. None\<rparr>"

lemma sample_flash:
  "flash_bundle sample_bench sample_hashes sample_disk sample_bundle ''/dev/a'' False None []
     = (Inr (), [chip_id ''esp32s3'' ''/dev/a'',
         Esp ''esp32s3'' ''/dev/a'' [''write-flash'', ''0x10000'', ''/c/u''] ''no-reset'' ''hard-reset''])"
  by code_simp

theorem flash_only_after_checks_witness:
  "list_all (intact sample_hashes (fb_file_md5 sample_bundle) sample_disk) (image_paths sample_bundle)
   \<and> (\<exists>port' probes. prefix [] (flash_plan ''esp32s3'' port' sample_bundle False)
        \<and> bn_esp sample_bench probes (chip_id ''esp32s3'' port') = None)"
  using flash_only_after_checks [OF sample_flash] by (auto simp: sample_bench_def)

end
