(* ===== verification/DeviceConfig.thy ===== *)
theory DeviceConfig
  imports Controller Firmware
begin

text \<open>
  \<open>services/device_config.py\<close>, \<open>services/device_profile.py\<close>, \<open>models/device_control.py\<close> and the
  slots of the worker that call them: the settings snapshot shown in the GUI, the writing of a settings
  section or a channel, and the backup and restore of a whole profile.  The protobuf library is a
  parameter (which values a field takes, and the text of other objects); a message is its descriptors
  with the value of each field.  The library's calls on the radio are recorded in order and fail as
  given.  An exception raised by Python or the library stands by its type's name or its text.
\<close>

section \<open>Messages\<close>

datatype field_type = TBool | TEnum "(string \<times> int) list" | TInt | TFloat | TString | TBytes | TMessage

record field_descriptor =
  fd_name :: string
  fd_type :: field_type
  fd_repeated :: bool

record message =
  msg_fields :: "field_descriptor list"
  msg_values :: "string \<Rightarrow> pyval"

text \<open>\<open>LocalConfig\<close> and \<open>LocalModuleConfig\<close>: fields that are messages, or plain ones.\<close>

type_synonym config_parent = "(string \<times> message option) list"

record radio_settings_channel =
  ch_index :: int
  ch_role :: int
  ch_name :: string
  ch_psk :: string
  ch_uplink :: bool
  ch_downlink :: bool
  ch_precision :: int

record radio_node =
  rn_local :: config_parent
  rn_module :: config_parent
  rn_channels :: "radio_settings_channel list"

text \<open>The library: setting a scalar field, extending a repeated one (what it holds then, and the
  exception), setting an integer field of a channel, \<open>fromPSK\<close>, \<open>float\<close> of a text and \<open>str\<close> of an object
  that is no text.\<close>

record protobuf =
  pb_set :: "field_descriptor \<Rightarrow> pyval \<Rightarrow> string + pyval"
  pb_extend :: "field_descriptor \<Rightarrow> pyval list \<Rightarrow> pyval list \<times> string option"
  pb_int :: "int \<Rightarrow> string + int"
  pb_psk :: "string \<Rightarrow> string + string"
  pb_float_of :: "string \<Rightarrow> pyfloat option"
  pb_text :: "pyval \<Rightarrow> string"

section \<open>The snapshot\<close>

record config_field =
  cf_name :: string
  cf_label :: string
  cf_kind :: string
  cf_value :: pyval
  cf_choices :: "(string \<times> int) list"
  cf_repeated :: bool
  cf_write_only :: bool
  cf_read_only :: bool

record config_section =
  sec_name :: string
  sec_label :: string
  sec_fields :: "config_field list"

record channel_control =
  cc_index :: int
  cc_role :: int
  cc_role_name :: string
  cc_name :: string
  cc_uplink :: bool
  cc_downlink :: bool
  cc_precision :: int

record device_snapshot =
  dn_node_id :: pyval
  dn_long_name :: pyval
  dn_short_name :: pyval
  dn_hw_model :: pyval
  dn_firmware_version :: string
  dn_pio_env :: string
  dn_serial_port :: "string option"
  dn_usb_vid :: "int option"
  dn_usb_pid :: "int option"
  dn_usb_serial :: "string option"
  dn_can_shutdown :: bool
  dn_has_wifi :: bool
  dn_has_bluetooth :: bool
  dn_sections :: "config_section list"
  dn_channels :: "channel_control list"

definition WRITE_ONLY :: "(string \<times> string) list" where
  "WRITE_ONLY = [(''network'', ''wifi_psk''), (''mqtt'', ''password''), (''bluetooth'', ''fixed_pin'')]"

definition READ_ONLY :: "(string \<times> string) list" where
  "READ_ONLY = [(''security'', ''public_key''), (''security'', ''private_key''), (''security'', ''admin_key'')]"

definition SKIP_SECTIONS :: "string list" where "SKIP_SECTIONS = [''version'']"
definition SKIP_FIELDS :: "string list" where "SKIP_FIELDS = [''version'']"

definition WRITABLE_SECTIONS :: "string list" where
  "WRITABLE_SECTIONS = [''device'', ''position'', ''power'', ''network'', ''display'', ''lora'', ''bluetooth'',
     ''security'', ''mqtt'', ''serial'', ''external_notification'', ''store_forward'', ''range_test'',
     ''telemetry'', ''canned_message'', ''audio'', ''remote_hardware'', ''neighbor_info'',
     ''ambient_lighting'', ''detection_sensor'', ''paxcounter'', ''traffic_management'']"

text \<open>\<open>re.sub(r"\s+", " ", s)\<close>; the flag says that the last character was white space.\<close>

fun squeeze :: "bool \<Rightarrow> string \<Rightarrow> string" where
  "squeeze sp [] = []"
| "squeeze sp (c # cs) =
     (if is_space c then (if sp then squeeze True cs else CHR '' '' # squeeze True cs)
      else c # squeeze False cs)"

definition label_of :: "string \<Rightarrow> string" where
  "label_of name = title (strip (squeeze False (replace_str ''_'' '' '' name)))"

definition field_kind :: "field_descriptor \<Rightarrow> string option" where
  "field_kind f =
     (case fd_type f of
        TBool \<Rightarrow> Some ''bool'' | TEnum _ \<Rightarrow> Some ''enum'' | TInt \<Rightarrow> Some ''int'' | TFloat \<Rightarrow> Some ''float''
      | TString \<Rightarrow> Some ''string'' | TBytes \<Rightarrow> Some ''bytes'' | TMessage \<Rightarrow> None)"

definition section_field :: "string \<Rightarrow> message \<Rightarrow> field_descriptor \<Rightarrow> config_field option" where
  "section_field name m f =
     (if fd_name f \<in> set SKIP_FIELDS then None
      else case field_kind f of
        None \<Rightarrow> None
      | Some kind \<Rightarrow>
          (let write_only = (name, fd_name f) \<in> set WRITE_ONLY;
               read_only = (name, fd_name f) \<in> set READ_ONLY \<or> kind = ''bytes''
           in Some \<lparr>cf_name = fd_name f, cf_label = label_of (fd_name f), cf_kind = kind,
                cf_value = (if write_only \<or> read_only then PStr [] else msg_values m (fd_name f)),
                cf_choices = (case fd_type f of TEnum vs \<Rightarrow> vs | _ \<Rightarrow> []),
                cf_repeated = fd_repeated f, cf_write_only = write_only, cf_read_only = read_only\<rparr>))"

definition section_of :: "string \<Rightarrow> message \<Rightarrow> config_section" where
  "section_of name m = \<lparr>sec_name = name, sec_label = label_of name,
     sec_fields = List.map_filter (section_field name m) (msg_fields m)\<rparr>"

definition sections_of :: "config_parent \<Rightarrow> config_section list" where
  "sections_of parent =
     List.map_filter (\<lambda>(name, m). if name \<in> set SKIP_SECTIONS \<or> name \<notin> set WRITABLE_SECTIONS then None
       else map_option (section_of name) m) parent"

definition channel_control_of :: "(int \<Rightarrow> string option) \<Rightarrow> radio_settings_channel \<Rightarrow> channel_control" where
  "channel_control_of role_name c =
     \<lparr>cc_index = ch_index c, cc_role = ch_role c,
      cc_role_name = (case role_name (ch_role c) of Some n \<Rightarrow> n | None \<Rightarrow> ''UNKNOWN''),
      cc_name = ch_name c, cc_uplink = ch_uplink c, cc_downlink = ch_downlink c,
      cc_precision = ch_precision c\<rparr>"

record radio_metadata =
  rm_hw_model :: pyval
  rm_firmware_version :: string
  rm_can_shutdown :: bool
  rm_has_wifi :: bool
  rm_has_bluetooth :: bool

record radio_interface =
  ri_node :: radio_node
  ri_my_node_num :: "int option"
  ri_pio_env :: "string option"
  ri_metadata :: "radio_metadata option"
  ri_nodes :: "(int \<times> pyval) list"

definition or_else :: "pyval \<Rightarrow> pyval \<Rightarrow> pyval" where
  "or_else v d = (if py_truthy v then v else d)"

definition snapshot_user :: "radio_interface \<Rightarrow> string + pydict" where
  "snapshot_user ri =
     (case Option.bind (ri_my_node_num ri) (map_of (ri_nodes ri)) of
        Some (PDict d) \<Rightarrow>
          (case map_of d ''user'' of
             None \<Rightarrow> Inr [] | Some (PDict u) \<Rightarrow> Inr u | Some _ \<Rightarrow> Inl ''AttributeError'')
      | _ \<Rightarrow> Inr [])"

definition build_snapshot ::
    "(int \<Rightarrow> string option) \<Rightarrow> usb_port list \<Rightarrow> radio_interface \<Rightarrow> string option \<Rightarrow> string + device_snapshot"
where
  "build_snapshot role_name ports ri serial_port =
     and_then (snapshot_user ri) (\<lambda>user.
     let node = ri_node ri; md = ri_metadata ri;
         usb = (if truthy_str serial_port then find (\<lambda>p. Some (up_device p) = serial_port) ports else None)
     in Inr \<lparr>dn_node_id = dict_get user ''id'',
          dn_long_name = or_else (dict_get user ''longName'') (PStr []),
          dn_short_name = or_else (dict_get user ''shortName'') (PStr []),
          dn_hw_model = or_else (dict_get user ''hwModel'')
            (or_else (case md of Some d \<Rightarrow> rm_hw_model d | None \<Rightarrow> PStr []) (PStr [])),
          dn_firmware_version = (case md of Some d \<Rightarrow> rm_firmware_version d | None \<Rightarrow> []),
          dn_pio_env = (case ri_pio_env ri of Some e \<Rightarrow> e | None \<Rightarrow> []),
          dn_serial_port = serial_port,
          dn_usb_vid = Option.bind usb up_vid, dn_usb_pid = Option.bind usb up_pid,
          dn_usb_serial = Option.bind usb up_serial,
          dn_can_shutdown = (case md of Some d \<Rightarrow> rm_can_shutdown d | None \<Rightarrow> False),
          dn_has_wifi = (case md of Some d \<Rightarrow> rm_has_wifi d | None \<Rightarrow> False),
          dn_has_bluetooth = (case md of Some d \<Rightarrow> rm_has_bluetooth d | None \<Rightarrow> False),
          dn_sections = sections_of (rn_local node) @ sections_of (rn_module node),
          dn_channels = map (channel_control_of role_name) (rn_channels node)\<rparr>)"

section \<open>Writing a section\<close>

definition int_error :: "pyval \<Rightarrow> string" where
  "int_error v = (case v of PStr _ \<Rightarrow> ''ValueError'' | _ \<Rightarrow> ''TypeError'')"

definition coerce_scalar :: "protobuf \<Rightarrow> field_descriptor \<Rightarrow> pyval \<Rightarrow> string + pyval" where
  "coerce_scalar pb f v =
     (case fd_type f of
        TBool \<Rightarrow> Inr (PBool (py_truthy v))
      | TEnum vs \<Rightarrow>
          (case py_int v of
             None \<Rightarrow> Inl (int_error v)
           | Some n \<Rightarrow> if n \<notin> snd ` set vs then Inl (''invalid value for '' @ fd_name f) else Inr (PInt n))
      | TInt \<Rightarrow> (case py_int v of None \<Rightarrow> Inl (int_error v) | Some n \<Rightarrow> Inr (PInt n))
      | TFloat \<Rightarrow> (case py_float (pb_float_of pb) v of None \<Rightarrow> Inl (int_error v) | Some r \<Rightarrow> Inr (PFloat r))
      | TString \<Rightarrow> Inr (PStr (case v of PStr s \<Rightarrow> s | _ \<Rightarrow> pb_text pb v))
      | _ \<Rightarrow> Inl (fd_name f @ '' is not editable''))"

fun coerce_list :: "protobuf \<Rightarrow> field_descriptor \<Rightarrow> pyval list \<Rightarrow> string + pyval list" where
  "coerce_list pb f [] = Inr []"
| "coerce_list pb f (v # vs) =
     and_then (coerce_scalar pb f v) (\<lambda>x. and_then (coerce_list pb f vs) (\<lambda>xs. Inr (x # xs)))"

definition coerce :: "protobuf \<Rightarrow> field_descriptor \<Rightarrow> pyval \<Rightarrow> string + pyval" where
  "coerce pb f v =
     (if fd_repeated f
      then (case v of PList l \<Rightarrow> and_then (coerce_list pb f l) (\<lambda>xs. Inr (PList xs))
            | _ \<Rightarrow> Inl (fd_name f @ '' must be a list''))
      else coerce_scalar pb f v)"

definition set_value :: "string \<Rightarrow> pyval \<Rightarrow> message \<Rightarrow> message" where
  "set_value name v m = m\<lparr>msg_values := (msg_values m)(name := v)\<rparr>"

definition editable :: "string \<Rightarrow> field_descriptor \<Rightarrow> bool" where
  "editable section_name f \<longleftrightarrow> (section_name, fd_name f) \<notin> set READ_ONLY \<and> fd_type f \<noteq> TBytes"

text \<open>One turn of the loop over the changes: the exception, if any, and the message.\<close>

definition apply_change :: "protobuf \<Rightarrow> string \<Rightarrow> string \<Rightarrow> pyval \<Rightarrow> message \<Rightarrow> string option \<times> message" where
  "apply_change pb section_name name v m =
     (case find (\<lambda>f. fd_name f = name) (msg_fields m) of
        None \<Rightarrow> (Some (name @ '' is not editable''), m)
      | Some f \<Rightarrow>
          if \<not> editable section_name f then (Some (name @ '' is not editable''), m)
          else if (section_name, name) \<in> set WRITE_ONLY \<and> (v = PNone \<or> v = PStr []) then (None, m)
          else case coerce pb f v of
            Inl e \<Rightarrow> (Some e, m)
          | Inr (PList xs) \<Rightarrow> (case pb_extend pb f xs of (ys, e) \<Rightarrow> (e, set_value name (PList ys) m))
          | Inr x \<Rightarrow> (case pb_set pb f x of Inl e \<Rightarrow> (Some e, m) | Inr y \<Rightarrow> (None, set_value name y m)))"

fun apply_changes :: "protobuf \<Rightarrow> string \<Rightarrow> pydict \<Rightarrow> message \<Rightarrow> string option \<times> message" where
  "apply_changes pb section_name [] m = (None, m)"
| "apply_changes pb section_name ((name, v) # cs) m =
     (case apply_change pb section_name name v m of
        (Some e, m') \<Rightarrow> (Some e, m')
      | (None, m') \<Rightarrow> apply_changes pb section_name cs m')"

definition put_section :: "string \<Rightarrow> message \<Rightarrow> config_parent \<Rightarrow> config_parent" where
  "put_section name m parent = map (\<lambda>(n, x). (n, if n = name then Some m else x)) parent"

text \<open>The outcome, the node, and the sections written to the radio; \<open>write_error\<close> is the outcome of
  \<open>writeConfig\<close>.\<close>

definition apply_section ::
    "protobuf \<Rightarrow> string option \<Rightarrow> radio_node \<Rightarrow> string \<Rightarrow> pydict
      \<Rightarrow> (string + unit) \<times> radio_node \<times> (string \<times> message) list" where
  "apply_section pb write_error node section_name changes =
     (if section_name \<notin> set WRITABLE_SECTIONS
      then (Inl (''Unknown configuration section: '' @ section_name), node, [])
      else let in_local = map_of (rn_local node) section_name \<noteq> None;
               parent = (if in_local then rn_local node else rn_module node)
           in case map_of parent section_name of
                None \<Rightarrow> (Inl (''Unknown configuration section: '' @ section_name), node, [])
              | Some None \<Rightarrow> (Inl ''AttributeError'', node, [])
              | Some (Some m) \<Rightarrow>
                  (case apply_changes pb section_name changes m of (e, m') \<Rightarrow>
                     (let node' = (if in_local then node\<lparr>rn_local := put_section section_name m' (rn_local node)\<rparr>
                                   else node\<lparr>rn_module := put_section section_name m' (rn_module node)\<rparr>)
                      in case e of
                           Some e \<Rightarrow> (Inl e, node', [])
                         | None \<Rightarrow>
                             (case write_error of None \<Rightarrow> Inr () | Some e \<Rightarrow> Inl e, node',
                              [(section_name, m')]))))"

section \<open>Facts on the snapshot\<close>

text \<open>What the snapshot must not contain: the pre-shared keys and passwords, the key material and every
  field of bytes.\<close>

definition secret_field :: "string \<Rightarrow> field_descriptor \<Rightarrow> bool" where
  "secret_field section_name f \<longleftrightarrow> fd_type f = TBytes \<or>
     (section_name, fd_name f) \<in> {(''network'', ''wifi_psk''), (''mqtt'', ''password''), (''bluetooth'', ''fixed_pin''),
       (''security'', ''public_key''), (''security'', ''private_key''), (''security'', ''admin_key'')}"

definition blank_message :: "string \<Rightarrow> message \<Rightarrow> message" where
  "blank_message section_name m =
     m\<lparr>msg_values := \<lambda>n. if \<exists>f \<in> set (msg_fields m). fd_name f = n \<and> secret_field section_name f
       then PNone else msg_values m n\<rparr>"

definition blank_parent :: "config_parent \<Rightarrow> config_parent" where
  "blank_parent = map (\<lambda>(n, m). (n, map_option (blank_message n) m))"

definition blank_secrets :: "radio_interface \<Rightarrow> radio_interface" where
  "blank_secrets ri =
     (let node = ri_node ri
      in ri\<lparr>ri_node := node\<lparr>rn_local := blank_parent (rn_local node), rn_module := blank_parent (rn_module node),
           rn_channels := map (\<lambda>c. c\<lparr>ch_psk := []\<rparr>) (rn_channels node)\<rparr>\<rparr>)"

text \<open>Field names are unique in a message.\<close>

definition proper_message :: "message \<Rightarrow> bool" where
  "proper_message m \<longleftrightarrow> distinct (map fd_name (msg_fields m))"

definition proper_parent :: "config_parent \<Rightarrow> bool" where
  "proper_parent p \<longleftrightarrow> list_all (\<lambda>(n, m). case m of None \<Rightarrow> True | Some x \<Rightarrow> proper_message x) p"

lemma secret_hidden:
  "secret_field n f \<Longrightarrow> section_field n m f = section_field n m' f"
  by (auto simp: section_field_def secret_field_def field_kind_def WRITE_ONLY_def READ_ONLY_def Let_def
      split: field_type.splits)

lemma section_field_blank:
  assumes "f \<in> set (msg_fields m)" "proper_message m"
  shows "section_field n (blank_message n m) f = section_field n m f"
proof (cases "secret_field n f")
  case False
  then have "\<not> (\<exists>g \<in> set (msg_fields m). fd_name g = fd_name f \<and> secret_field n g)"
    using assms by (auto simp: proper_message_def distinct_map inj_on_def)
  then have "msg_values (blank_message n m) (fd_name f) = msg_values m (fd_name f)"
    by (auto simp: blank_message_def)
  then show ?thesis by (cases "field_kind f") (simp_all only: section_field_def Let_def option.case)
qed (rule secret_hidden)

lemma sections_of_blank: "proper_parent p \<Longrightarrow> sections_of (blank_parent p) = sections_of p"
proof -
  assume "proper_parent p"
  then have "section_of n (blank_message n m) = section_of n m" if "(n, Some m) \<in> set p" for n m
    using that by (auto simp: section_of_def proper_parent_def list_all_iff section_field_blank
        intro!: map_filter_cong) (auto simp: blank_message_def)
  then have same: "(\<lambda>(name, m). if name \<in> set SKIP_SECTIONS \<or> name \<notin> set WRITABLE_SECTIONS then None
       else map_option (section_of name) m) ((\<lambda>(n, m). (n, map_option (blank_message n) m)) x)
     = (\<lambda>(name, m). if name \<in> set SKIP_SECTIONS \<or> name \<notin> set WRITABLE_SECTIONS then None
       else map_option (section_of name) m) x" if "x \<in> set p" for x
    using that by (cases x; cases "snd x") auto
  show ?thesis
    unfolding sections_of_def blank_parent_def map_filter_map by (rule map_filter_cong [OF refl]) (simp add: same)
qed

text \<open>C39: the snapshot handed to the GUI holds no secret: it is the same for the radio with all keys,
  passwords, pins and channel keys blanked.\<close>

theorem snapshot_hides_secrets:
  assumes "proper_parent (rn_local (ri_node ri))" "proper_parent (rn_module (ri_node ri))"
  shows "build_snapshot role_name ports (blank_secrets ri) serial_port
    = build_snapshot role_name ports ri serial_port"
proof -
  have "snapshot_user (blank_secrets ri) = snapshot_user ri" "ri_metadata (blank_secrets ri) = ri_metadata ri"
      "ri_pio_env (blank_secrets ri) = ri_pio_env ri"
    by (simp_all add: snapshot_user_def blank_secrets_def Let_def)
  moreover have "map (channel_control_of role_name) (rn_channels (ri_node (blank_secrets ri)))
      = map (channel_control_of role_name) (rn_channels (ri_node ri))"
    by (simp add: blank_secrets_def Let_def channel_control_of_def)
  moreover have "sections_of (rn_local (ri_node (blank_secrets ri))) = sections_of (rn_local (ri_node ri))"
      "sections_of (rn_module (ri_node (blank_secrets ri))) = sections_of (rn_module (ri_node ri))"
    using assms by (simp_all add: blank_secrets_def Let_def sections_of_blank)
  ultimately show ?thesis by (simp only: build_snapshot_def Let_def)
qed

section \<open>Channels\<close>

definition channel_change :: "protobuf \<Rightarrow> pydict \<Rightarrow> radio_settings_channel \<Rightarrow> (string + unit) \<times> radio_settings_channel" where
  "channel_change pb changes c =
     (case map_of changes ''role'' of
        None \<Rightarrow> (Inl ''KeyError'', c)
      | Some r \<Rightarrow>
     (case and_then (case py_int r of None \<Rightarrow> Inl (int_error r) | Some n \<Rightarrow> Inr n) (pb_int pb) of
        Inl e \<Rightarrow> (Inl e, c)
      | Inr role \<Rightarrow>
     (let text = (\<lambda>k. case map_of changes k of None \<Rightarrow> [] | Some (PStr s) \<Rightarrow> s | Some v \<Rightarrow> pb_text pb v);
          flag = (\<lambda>k. case map_of changes k of None \<Rightarrow> False | Some v \<Rightarrow> py_truthy v);
          prec = (case map_of changes ''position_precision'' of None \<Rightarrow> PInt 0 | Some v \<Rightarrow> v);
          c = c\<lparr>ch_role := role, ch_name := strip (text ''name''), ch_uplink := flag ''uplink_enabled'',
                ch_downlink := flag ''downlink_enabled''\<rparr>
      in case and_then (case py_int prec of None \<Rightarrow> Inl (int_error prec) | Some n \<Rightarrow> Inr n) (pb_int pb) of
           Inl e \<Rightarrow> (Inl e, c)
         | Inr precision \<Rightarrow>
             (let c = c\<lparr>ch_precision := precision\<rparr>; psk = strip (text ''psk'')
              in if psk = [] then (Inr (), c)
                 else case pb_psk pb psk of Inl e \<Rightarrow> (Inl e, c) | Inr k \<Rightarrow> (Inr (), c\<lparr>ch_psk := k\<rparr>)))))"

text \<open>The channel's number, the outcome and the node; on success the channel is written.\<close>

definition update_node_channel ::
    "protobuf \<Rightarrow> pydict \<Rightarrow> radio_node \<Rightarrow> (string + int) \<times> radio_node" where
  "update_node_channel pb changes node =
     (case and_then (case map_of changes ''index'' of None \<Rightarrow> Inl ''KeyError'' | Some v \<Rightarrow> Inr v)
             (\<lambda>v. case py_int v of None \<Rightarrow> Inl (int_error v) | Some n \<Rightarrow> Inr n) of
        Inl e \<Rightarrow> (Inl e, node)
      | Inr i \<Rightarrow>
          if i < 0 \<or> i \<ge> int (length (rn_channels node)) then (Inl ''Invalid channel index'', node)
          else (case channel_change pb changes (rn_channels node ! nat i) of
                  (r, c) \<Rightarrow>
                    (case r of Inl e \<Rightarrow> Inl e | Inr _ \<Rightarrow> Inr i,
                     node\<lparr>rn_channels := (rn_channels node)[nat i := c]\<rparr>)))"

section \<open>The worker's slots\<close>

definition spaced :: "string \<Rightarrow> string" where
  "spaced s = replace_str ''_'' '' '' s"

definition apply_device_section ::
    "protobuf \<Rightarrow> string option \<Rightarrow> string option \<Rightarrow> string \<Rightarrow> pydict \<Rightarrow> worker \<times> radio_node \<Rightarrow> worker \<times> radio_node"
where
  "apply_device_section pb write_error snapshot_error section_name changes wn =
     (case wn of (w, node) \<Rightarrow>
     (case require_connection ''change device settings'' w of
        (False, w') \<Rightarrow> (w', node)
      | (True, w') \<Rightarrow>
          (case apply_section pb write_error node section_name changes of
             (r, node', writes) \<Rightarrow>
               (let w1 = put_out (map (\<lambda>x. Radio (WriteConfig (fst x))) writes) w'
                in (case r of
                      Inr _ \<Rightarrow> emit_device_controls snapshot_error
                        (put_out [DeviceOperationCompleted ''config'' (''Saved '' @ spaced section_name @ '' settings'')] w1)
                    | Inl e \<Rightarrow> emit_error DEVICE_CONTROL_FAILED ''Settings Write Failed''
                        (''Could not save '' @ spaced section_name @ '' settings.'') True (Some e) w1, node')))))"

definition update_channel ::
    "protobuf \<Rightarrow> string option \<Rightarrow> string option \<Rightarrow> pydict \<Rightarrow> worker \<times> radio_node \<Rightarrow> worker \<times> radio_node" where
  "update_channel pb write_error snapshot_error changes wn =
     (case wn of (w, node) \<Rightarrow>
     (case require_connection ''change channel settings'' w of
        (False, w') \<Rightarrow> (w', node)
      | (True, w') \<Rightarrow>
          (let failed = (\<lambda>e. emit_error DEVICE_CONTROL_FAILED ''Channel Write Failed''
                          ''Could not save the channel.'' True (Some e))
           in case update_node_channel pb changes node of
                (Inl e, node') \<Rightarrow> (failed e w', node')
              | (Inr i, node') \<Rightarrow>
                  (let w1 = put_out [Radio (WriteChannel i)] w'
                   in (case write_error of
                         Some e \<Rightarrow> failed e w1
                       | None \<Rightarrow> emit_device_controls snapshot_error
                           (put_out [DeviceOperationCompleted ''channel'' (''Saved channel '' @ show_int i)] w1),
                       node')))))"

section \<open>Profiles\<close>

definition MAX_PROFILE_BYTES :: int where "MAX_PROFILE_BYTES = 2 * 1024 * 1024"

record device_profile =
  pf_long_name :: "string option"
  pf_short_name :: "string option"
  pf_channel_url :: "string option"
  pf_canned_messages :: "string option"
  pf_ringtone :: "string option"
  pf_fixed_position :: "(int \<times> int \<times> int) option"
  pf_config :: "config_parent option"
  pf_module_config :: "config_parent option"

definition populated :: "device_profile \<Rightarrow> bool" where
  "populated p \<longleftrightarrow> pf_long_name p \<noteq> None \<or> pf_short_name p \<noteq> None \<or> pf_channel_url p \<noteq> None \<or>
     pf_canned_messages p \<noteq> None \<or> pf_ringtone p \<noteq> None \<or> pf_fixed_position p \<noteq> None \<or>
     pf_config p \<noteq> None \<or> pf_module_config p \<noteq> None"

definition text_or_empty :: "string option \<Rightarrow> string" where
  "text_or_empty x = (case x of None \<Rightarrow> [] | Some s \<Rightarrow> s)"

text \<open>A path whose name ends in \<open>.cfg\<close>.\<close>

definition cfg_path :: "string \<Rightarrow> bool" where
  "cfg_path p \<longleftrightarrow> ends_with ''.cfg'' (lower (base_name p)) \<and> 4 < length (base_name p)"

definition beside :: "string \<Rightarrow> string \<Rightarrow> string" where
  "beside p name = take (length p - length (base_name p)) p @ name"

text \<open>\<open>exported\<close> is what the library's \<open>export_profile\<close> gives, \<open>io_error\<close> a failing write or rename.\<close>

definition save_device_profile ::
    "hashes \<Rightarrow> (string \<Rightarrow> bool) \<Rightarrow> string + string \<Rightarrow> string option \<Rightarrow> string \<Rightarrow> disk \<Rightarrow> (string + string) \<times> disk" where
  "save_device_profile hs parent_exists exported io_error destination d =
     (if \<not> cfg_path destination \<or> \<not> parent_exists destination
      then (Inl ''Choose a .cfg backup file in an existing folder'', d)
      else case exported of
        Inl e \<Rightarrow> (Inl e, d)
      | Inr raw \<Rightarrow>
          if raw = [] \<or> int (length raw) > MAX_PROFILE_BYTES
          then (Inl ''The device returned an invalid configuration profile'', d)
          else (let part_file = swap_suffix destination ''.cfg.partial''
                in case io_error of
                     Some e \<Rightarrow> (Inl e, d(part_file := None))
                   | None \<Rightarrow> (Inr (hs_sha256 hs raw), d(destination \<mapsto> raw, part_file := None))))"

definition load_device_profile :: "(string \<Rightarrow> string + device_profile) \<Rightarrow> string \<Rightarrow> disk \<Rightarrow> string + device_profile" where
  "load_device_profile parse source d =
     (case d source of
        None \<Rightarrow> Inl ''FileNotFoundError''
      | Some raw \<Rightarrow>
          if raw = [] \<or> int (length raw) > MAX_PROFILE_BYTES
          then Inl ''The selected configuration profile is empty or too large''
          else and_then (parse raw) (\<lambda>p.
            if populated p then Inr p
            else Inl ''The selected file is not a populated Meshtastic profile''))"

datatype node_call =
    BeginSettings
  | CallSetOwner "string option" "string option"
  | CallSetUrl string
  | CallCannedMessage string
  | CallRingtone string
  | CallFixedPosition pyfloat pyfloat int
  | CallWriteLocal string message
  | CallWriteModule string message
  | CommitSettings

definition none_if_empty :: "string \<Rightarrow> string option" where
  "none_if_empty s = (if s = [] then None else Some s)"

definition section_writes :: "(string \<Rightarrow> message \<Rightarrow> node_call) \<Rightarrow> config_parent option \<Rightarrow> node_call list" where
  "section_writes call parent =
     (case parent of None \<Rightarrow> []
      | Some ms \<Rightarrow> List.map_filter (\<lambda>(name, m). map_option (call name) m) ms)"

text \<open>\<open>fixed_on\<close>: the profile's position settings ask for a fixed position.\<close>

definition fixed_on :: "device_profile \<Rightarrow> bool" where
  "fixed_on p \<longleftrightarrow>
     (case pf_config p of None \<Rightarrow> False
      | Some ms \<Rightarrow>
          (case map_of ms ''position'' of
             Some (Some m) \<Rightarrow> py_truthy (msg_values m ''fixed_position'') | _ \<Rightarrow> False))"

text \<open>The calls a restore makes, in order.\<close>

definition restore_plan :: "device_profile \<Rightarrow> node_call list" where
  "restore_plan p =
     (let long = text_or_empty (pf_long_name p); short = text_or_empty (pf_short_name p);
          url = text_or_empty (pf_channel_url p); canned = text_or_empty (pf_canned_messages p);
          tone = text_or_empty (pf_ringtone p)
      in [BeginSettings]
       @ (if long \<noteq> [] \<or> short \<noteq> []
          then [CallSetOwner (none_if_empty (strip long)) (none_if_empty (strip short))] else [])
       @ (if url \<noteq> [] then [CallSetUrl url] else [])
       @ (if canned \<noteq> [] then [CallCannedMessage canned] else [])
       @ (if tone \<noteq> [] then [CallRingtone tone] else [])
       @ (case pf_fixed_position p of
            Some (lat, lon, alt) \<Rightarrow>
              if fixed_on p then [CallFixedPosition (of_int lat / 10 ^ 7) (of_int lon / 10 ^ 7) alt] else []
          | None \<Rightarrow> [])
       @ section_writes CallWriteLocal (pf_config p)
       @ section_writes CallWriteModule (pf_module_config p)
       @ [CommitSettings])"

text \<open>Running them: a call that raises ends the run.  A section is copied into the node right before it
  is written.\<close>

fun run_calls :: "(node_call list \<Rightarrow> node_call \<Rightarrow> string option) \<Rightarrow> node_call list \<Rightarrow> node_call list
    \<Rightarrow> (string + unit) \<times> node_call list" where
  "run_calls raises sent [] = (Inr (), sent)"
| "run_calls raises sent (c # cs) =
     (case raises sent c of
        Some e \<Rightarrow> (Inl e, sent @ [c])
      | None \<Rightarrow> run_calls raises (sent @ [c]) cs)"

fun copy_section :: "node_call \<Rightarrow> radio_node \<Rightarrow> radio_node" where
  "copy_section (CallWriteLocal name m) n = n\<lparr>rn_local := put_section name m (rn_local n)\<rparr>"
| "copy_section (CallWriteModule name m) n = n\<lparr>rn_module := put_section name m (rn_module n)\<rparr>"
| "copy_section _ n = n"

definition safety_path :: "string \<Rightarrow> string \<Rightarrow> string" where
  "safety_path source now =
     beside source (take (length (base_name source) - 4) (base_name source) @ ''.pre-restore-'' @ now @ ''.cfg'')"

definition restore_profile ::
    "hashes \<Rightarrow> (string \<Rightarrow> bool) \<Rightarrow> string + string \<Rightarrow> string option \<Rightarrow> (string \<Rightarrow> string + device_profile)
      \<Rightarrow> (node_call list \<Rightarrow> node_call \<Rightarrow> string option) \<Rightarrow> string \<Rightarrow> string \<Rightarrow> disk \<Rightarrow> radio_node
      \<Rightarrow> (string + string) \<times> node_call list \<times> disk \<times> radio_node" where
  "restore_profile hs parent_exists exported io_error parse raises now source d node =
     (if \<not> cfg_path source \<or> d source = None
      then (Inl ''Choose an existing Meshtastic .cfg profile'', [], d, node)
      else case load_device_profile parse source d of
        Inl e \<Rightarrow> (Inl e, [], d, node)
      | Inr p \<Rightarrow>
          (let safety = safety_path source now
           in case save_device_profile hs parent_exists exported io_error safety d of
                (Inl e, d') \<Rightarrow> (Inl e, [], d', node)
              | (Inr _, d') \<Rightarrow>
                  (case run_calls raises [] (restore_plan p) of
                     (r, sent) \<Rightarrow>
                       (case r of Inl e \<Rightarrow> Inl e | Inr _ \<Rightarrow> Inr safety, sent, d', fold copy_section sent node))))"

section \<open>Facts on profiles\<close>

lemma run_calls_prefix:
  "run_calls raises sent cs = (r, sent') \<Longrightarrow>
    \<exists>made. sent' = sent @ made \<and> prefix made cs \<and> (r = Inr () \<longrightarrow> made = cs)
      \<and> (\<forall>e. r = Inl e \<longrightarrow> (\<exists>before c. made = before @ [c] \<and> raises (sent @ before) c = Some e))"
proof (induction raises sent cs rule: run_calls.induct)
  case (2 raises sent c cs)
  show ?case
  proof (cases "raises sent c")
    case None
    with 2 obtain made where m: "sent' = (sent @ [c]) @ made" "prefix made cs" "r = Inr () \<longrightarrow> made = cs"
        "\<forall>e. r = Inl e \<longrightarrow> (\<exists>before c'. made = before @ [c'] \<and> raises ((sent @ [c]) @ before) c' = Some e)"
      by auto
    have "\<exists>before c'. c # made = before @ [c'] \<and> raises (sent @ before) c' = Some e" if "r = Inl e" for e
    proof -
      from m(4) that obtain before c' where "made = before @ [c']" "raises ((sent @ [c]) @ before) c' = Some e"
        by blast
      then have "c # made = (c # before) @ [c'] \<and> raises (sent @ (c # before)) c' = Some e" by simp
      then show ?thesis by blast
    qed
    with m(1-3) show ?thesis by (intro exI [of _ "c # made"]) auto
  next
    case (Some e)
    with 2 have "sent' = sent @ [c]" "r = Inl e" by auto
    with Some show ?thesis by (intro exI [of _ "[c]"]) auto
  qed
qed auto

lemma base_name_length: "length (base_name p) \<le> length p"
  using length_takeWhile_le [of "\<lambda>c. c \<noteq> CHR ''/''" "dropWhile (\<lambda>c. c = CHR ''/'') (rev p)"]
    length_dropWhile_le [of "\<lambda>c. c = CHR ''/''" "rev p"]
  by (simp add: base_name_def)

lemma safety_path_length: "cfg_path source \<Longrightarrow> length (safety_path source now) > length source"
proof -
  assume "cfg_path source"
  then have "4 < length (base_name source)" by (simp add: cfg_path_def)
  with base_name_length [of source] show ?thesis by (simp add: safety_path_def beside_def)
qed

lemma save_profile_keeps:
  assumes "save_device_profile hs parent_exists exported io_error destination d = (r, d')"
    and "p \<noteq> destination" "p \<noteq> swap_suffix destination ''.cfg.partial''"
  shows "d' p = d p"
  using assms by (auto simp: save_device_profile_def Let_def split: if_splits sum.splits option.splits)

lemma save_profile_Inr:
  assumes "save_device_profile hs parent_exists exported io_error destination d = (Inr h, d')"
  shows "\<exists>raw. exported = Inr raw \<and> d' destination = Some raw \<and> h = hs_sha256 hs raw
    \<and> raw \<noteq> [] \<and> int (length raw) \<le> MAX_PROFILE_BYTES"
proof -
  have "swap_suffix destination ''.cfg.partial'' \<noteq> destination" if "cfg_path destination"
  proof -
    have "4 < length destination" using that base_name_length [of destination] by (simp add: cfg_path_def)
    then have "length (swap_suffix destination ''.cfg.partial'') > length destination"
      by (simp add: swap_suffix_def)
    then show ?thesis by auto
  qed
  then show ?thesis
    using assms by (auto simp: save_device_profile_def Let_def split: if_splits sum.splits option.splits)
qed

text \<open>C35: a restore touches the radio only once the chosen file has been read as a populated profile and the
  radio's own profile lies beside it as a safety copy; the chosen file is left alone, the calls follow the
  plan of the profile without a gap, and success means the whole plan was run, the commit included.\<close>

theorem restore_after_backup:
  assumes "restore_profile hs parent_exists exported io_error parse raises now source d node
      = (r, sent, d', node')"
    and "sent \<noteq> []"
  shows "\<exists>p raw. load_device_profile parse source d = Inr p \<and> populated p \<and> exported = Inr raw
    \<and> d' (safety_path source now) = Some raw \<and> d' source = d source
    \<and> prefix sent (restore_plan p) \<and> hd sent = BeginSettings
    \<and> (\<forall>path. r = Inr path \<longrightarrow> path = safety_path source now \<and> sent = restore_plan p)"
proof -
  from assms obtain p h where cfg: "cfg_path source" and p: "load_device_profile parse source d = Inr p"
    and save: "save_device_profile hs parent_exists exported io_error (safety_path source now) d = (Inr h, d')"
    and run: "\<exists>r'. run_calls raises [] (restore_plan p) = (r', sent)
        \<and> r = (case r' of Inl e \<Rightarrow> Inl e | Inr _ \<Rightarrow> Inr (safety_path source now))"
    by (auto simp: restore_profile_def Let_def split: if_splits sum.splits prod.splits)
  from run obtain r' where r': "run_calls raises [] (restore_plan p) = (r', sent)"
      "r = (case r' of Inl e \<Rightarrow> Inl e | Inr _ \<Rightarrow> Inr (safety_path source now))" by blast
  from run_calls_prefix [OF r'(1)] have pre: "prefix sent (restore_plan p)"
      "r' = Inr () \<longrightarrow> sent = restore_plan p" by auto
  have populated: "populated p"
    using p by (auto simp: load_device_profile_def flow split: option.splits if_splits)
  have longer: "length (safety_path source now) > length source" using safety_path_length [OF cfg] .
  moreover have "length (swap_suffix (safety_path source now) ''.cfg.partial'') > length source"
    using longer by (simp add: swap_suffix_def)
  ultimately have "source \<noteq> safety_path source now"
      "source \<noteq> swap_suffix (safety_path source now) ''.cfg.partial''" by auto
  then have "d' source = d source" using save_profile_keeps [OF save] by blast
  moreover have "hd sent = BeginSettings"
    using pre(1) assms(2) by (auto simp: restore_plan_def Let_def prefix_def neq_Nil_conv)
  moreover have "sent = restore_plan p \<and> path = safety_path source now" if "r = Inr path" for path
    using that r'(2) pre(2) by (auto split: sum.splits)
  ultimately show ?thesis
    using p populated save_profile_Inr [OF save] pre by blast
qed

text \<open>A call that fails in the middle leaves the settings transaction of the radio open.\<close>

lemma commit_is_last: "CommitSettings \<notin> set (butlast (restore_plan p))"
proof -
  have "CommitSettings \<notin> set (section_writes call parent)" if "\<And>n m. call n m \<noteq> CommitSettings" for call parent
    using that by (auto simp: section_writes_def List.map_filter_def split: option.splits) metis
  then show ?thesis
    by (auto simp: restore_plan_def Let_def butlast_append split: option.splits)
qed

lemma failed_restore_never_commits:
  assumes "restore_profile hs parent_exists exported io_error parse raises now source d node
      = (Inl e, sent, d', node')"
    and "sent \<noteq> []"
  shows "raises (butlast sent) (last sent) = Some e \<and> CommitSettings \<notin> set (butlast sent)"
proof -
  from assms obtain p where run: "run_calls raises [] (restore_plan p) = (Inl e, sent)"
    by (auto simp: restore_profile_def Let_def split: if_splits sum.splits prod.splits)
  from run_calls_prefix [OF this] have "prefix sent (restore_plan p)" "raises (butlast sent) (last sent) = Some e"
    by auto
  moreover from this(1) have "set (butlast sent) \<subseteq> set (butlast (restore_plan p))"
    by (auto simp: prefix_def butlast_append split: if_splits dest: in_set_butlastD)
  ultimately show ?thesis using commit_is_last by blast
qed

section \<open>Facts on writing\<close>

text \<open>The type of a value, and of a whole message: an enum field holds one of the numbers its type has.\<close>

definition has_type :: "field_type \<Rightarrow> pyval \<Rightarrow> bool" where
  "has_type t v =
     (case (t, v) of
        (TBool, PBool _) \<Rightarrow> True | (TEnum vs, PInt n) \<Rightarrow> n \<in> snd ` set vs | (TInt, PInt _) \<Rightarrow> True
      | (TFloat, PFloat _) \<Rightarrow> True | (TString, PStr _) \<Rightarrow> True | (TBytes, PBytes _) \<Rightarrow> True
      | _ \<Rightarrow> False)"

definition field_typed :: "field_descriptor \<Rightarrow> pyval \<Rightarrow> bool" where
  "field_typed f v \<longleftrightarrow> fd_type f = TMessage \<or>
     (if fd_repeated f then (case v of PList l \<Rightarrow> list_all (has_type (fd_type f)) l | _ \<Rightarrow> False)
      else has_type (fd_type f) v)"

definition message_typed :: "message \<Rightarrow> bool" where
  "message_typed m \<longleftrightarrow> list_all (\<lambda>f. field_typed f (msg_values m (fd_name f))) (msg_fields m)"

definition parent_typed :: "config_parent \<Rightarrow> bool" where
  "parent_typed p \<longleftrightarrow> (\<forall>n m. (n, Some m) \<in> set p \<longrightarrow> proper_message m \<and> message_typed m)"

definition node_typed :: "radio_node \<Rightarrow> bool" where
  "node_typed node \<longleftrightarrow> parent_typed (rn_local node) \<and> parent_typed (rn_module node)"

text \<open>What a protobuf field does with a value of its type: it refuses it, or holds it, rounded to its width,
  as a value of the same type; an enum or integer is never rounded.\<close>

definition keeps_types :: "protobuf \<Rightarrow> bool" where
  "keeps_types pb \<longleftrightarrow>
     (\<forall>f v w. has_type (fd_type f) v \<and> pb_set pb f v = Inr w \<longrightarrow> has_type (fd_type f) w) \<and>
     (\<forall>f l. list_all (has_type (fd_type f)) l \<longrightarrow> list_all (has_type (fd_type f)) (fst (pb_extend pb f l)))"

lemma coerce_scalar_typed: "coerce_scalar pb f v = Inr w \<Longrightarrow> has_type (fd_type f) w"
  by (auto simp: coerce_scalar_def has_type_def split: field_type.splits option.splits if_splits pyval.splits)

lemma coerce_list_typed: "coerce_list pb f vs = Inr ws \<Longrightarrow> list_all (has_type (fd_type f)) ws"
  by (induction vs arbitrary: ws) (auto simp: flow coerce_scalar_typed)

lemma coerce_typed: "coerce pb f v = Inr w \<Longrightarrow> field_typed f w"
  by (auto simp: coerce_def field_typed_def flow coerce_scalar_typed coerce_list_typed split: if_splits pyval.splits)

lemma scalar_no_list: "coerce_scalar pb f v \<noteq> Inr (PList l)"
  by (auto simp: coerce_scalar_def split: field_type.splits option.splits if_splits)

lemma field_typed_repeated: "fd_repeated f \<Longrightarrow> fd_type f \<noteq> TMessage \<Longrightarrow> field_typed f v \<Longrightarrow> \<exists>l. v = PList l \<and> list_all (has_type (fd_type f)) l"
  by (auto simp: field_typed_def split: pyval.splits)

text \<open>One change touches only the field it names, and leaves it well typed.\<close>

lemma apply_change_effect:
  assumes "keeps_types pb" "apply_change pb s name v m = (e, m')"
  shows "m' = m \<or> (\<exists>f w. f \<in> set (msg_fields m) \<and> fd_name f = name \<and> editable s f \<and> field_typed f w
    \<and> m' = set_value name w m)"
proof (cases "find (\<lambda>f. fd_name f = name) (msg_fields m)")
  case (Some f)
  then have f: "f \<in> set (msg_fields m)" "fd_name f = name"
    by (auto simp: find_Some_iff)
  show ?thesis
  proof (cases "m' = m")
    case False
    then obtain w where w: "coerce pb f v = Inr w" "editable s f"
      using assms(2) Some by (auto simp: apply_change_def split: if_splits sum.splits)
    show ?thesis
    proof (cases "\<exists>l. w = PList l")
      case True
      then obtain l where l: "w = PList l" by blast
      then have rep: "fd_repeated f" using w scalar_no_list by (auto simp: coerce_def split: if_splits)
      have "fd_type f \<noteq> TMessage \<Longrightarrow> list_all (has_type (fd_type f)) l"
        using field_typed_repeated [OF rep _ coerce_typed [OF w(1)]] l by simp
      then have "field_typed f (PList (fst (pb_extend pb f l)))"
        using assms(1) rep by (cases "fd_type f = TMessage") (auto simp: keeps_types_def field_typed_def)
      moreover have "m' = set_value name (PList (fst (pb_extend pb f l))) m"
        using assms(2) Some False w l by (auto simp: apply_change_def split: if_splits prod.splits)
      ultimately show ?thesis using f w by blast
    next
      case False
      then have single: "\<not> fd_repeated f" using w by (auto simp: coerce_def flow split: if_splits pyval.splits)
      then obtain y where y: "pb_set pb f w = Inr y" "m' = set_value name y m"
        using assms(2) Some \<open>m' \<noteq> m\<close> w False
        by (auto simp: apply_change_def split: if_splits sum.splits pyval.splits)
      have "has_type (fd_type f) w" using single coerce_scalar_typed w by (auto simp: coerce_def)
      then have "field_typed f y" using assms(1) y single by (auto simp: keeps_types_def field_typed_def)
      then show ?thesis using f w y by blast
    qed
  qed simp
qed (use assms in \<open>simp add: apply_change_def\<close>)

lemma set_value_typed:
  "message_typed m \<Longrightarrow> proper_message m \<Longrightarrow> f \<in> set (msg_fields m) \<Longrightarrow> field_typed f w \<Longrightarrow>
    message_typed (set_value (fd_name f) w m) \<and> proper_message (set_value (fd_name f) w m)"
  by (auto simp: message_typed_def proper_message_def set_value_def list_all_iff distinct_map inj_on_def)

text \<open>The fields a list of changes may alter: the named ones that can be edited.\<close>

definition open_to :: "string \<Rightarrow> pydict \<Rightarrow> message \<Rightarrow> string \<Rightarrow> bool" where
  "open_to s changes m n \<longleftrightarrow> n \<in> fst ` set changes \<and>
     (\<exists>f \<in> set (msg_fields m). fd_name f = n \<and> editable s f)"

lemma apply_changes_effect:
  assumes "keeps_types pb" "message_typed m" "proper_message m" "apply_changes pb s cs m = (e, m')"
  shows "message_typed m' \<and> proper_message m' \<and> msg_fields m' = msg_fields m
    \<and> (\<forall>n. \<not> open_to s cs m n \<longrightarrow> msg_values m' n = msg_values m n)"
  using assms(2-)
proof (induction cs arbitrary: m)
  case (Cons c cs)
  obtain name v where c: "c = (name, v)" by (cases c)
  obtain e1 m1 where step: "apply_change pb s name v m = (e1, m1)" by (cases "apply_change pb s name v m")
  have m1: "message_typed m1 \<and> proper_message m1 \<and> msg_fields m1 = msg_fields m"
    and frame: "\<And>n. \<not> open_to s (c # cs) m n \<Longrightarrow> msg_values m1 n = msg_values m n"
    using apply_change_effect [OF assms(1) step] set_value_typed [of m] Cons.prems c
    by (auto simp: set_value_def open_to_def)
  show ?case
  proof (cases e1)
    case None
    with Cons.prems c step have "apply_changes pb s cs m1 = (e, m')" by simp
    from Cons.IH [OF _ _ this] m1 frame show ?thesis by (auto simp: open_to_def)
  next
    case (Some x)
    with Cons.prems c step m1 frame show ?thesis by auto
  qed
qed simp

lemma put_section_other: "n \<noteq> s \<Longrightarrow> map_of (put_section s m p) n = map_of p n"
  by (induction p) (auto simp: put_section_def)

lemma put_section_typed:
  "parent_typed p \<Longrightarrow> proper_message m \<Longrightarrow> message_typed m \<Longrightarrow>
    parent_typed (put_section s m p)"
  by (auto simp: put_section_def parent_typed_def split: if_splits)

text \<open>C36: whatever the GUI sends, the settings stay well typed: every field keeps a value of its type, enum
  fields one of their numbers, also when the write fails half way; no other section changes, and in the
  written section only fields that were named and may be edited.\<close>

theorem apply_section_keeps_types:
  assumes "keeps_types pb" "node_typed node"
    and "apply_section pb write_error node s changes = (r, node', writes)"
  shows "node_typed node' \<and> list_all (\<lambda>(n, m). n = s \<and> message_typed m) writes
    \<and> (\<forall>n. n \<noteq> s \<longrightarrow> map_of (rn_local node') n = map_of (rn_local node) n
        \<and> map_of (rn_module node') n = map_of (rn_module node) n)
    \<and> (\<forall>m n m'. map_of (rn_local node @ rn_module node) s = Some (Some m) \<and> writes = [(s, m')]
        \<and> \<not> open_to s changes m n \<longrightarrow> msg_values m' n = msg_values m n)
    \<and> rn_channels node' = rn_channels node"
proof (cases "map_of (rn_local node @ rn_module node) s")
  case None
  with assms show ?thesis
    by (auto simp: apply_section_def Let_def map_add_def split: if_splits option.splits)
next
  case (Some x)
  show ?thesis
  proof (cases x)
    case None
    with Some assms show ?thesis
      by (auto simp: apply_section_def Let_def map_add_def split: if_splits option.splits)
  next
    case (Some m)
    with \<open>map_of _ s = Some x\<close> have m: "map_of (rn_local node @ rn_module node) s = Some (Some m)" by simp
    then have "(s, Some m) \<in> set (rn_local node @ rn_module node)" by (rule map_of_SomeD)
    then have typed: "message_typed m" "proper_message m"
      using assms(2) by (auto simp: node_typed_def parent_typed_def)
    obtain e m' where run: "apply_changes pb s changes m = (e, m')" by (cases "apply_changes pb s changes m")
    note effect = apply_changes_effect [OF assms(1) typed run]
    show ?thesis
    proof (cases "s \<in> set WRITABLE_SECTIONS")
      case False
      with assms show ?thesis by (auto simp: apply_section_def)
    next
      case True
      have local: "parent_typed (rn_local node)"
        and module: "parent_typed (rn_module node)"
        using assms(2) by (simp_all add: node_typed_def)
      have node': "node' = (if map_of (rn_local node) s \<noteq> None
           then node\<lparr>rn_local := put_section s m' (rn_local node)\<rparr>
           else node\<lparr>rn_module := put_section s m' (rn_module node)\<rparr>)"
        and writes: "writes = (if e = None then [(s, m')] else [])"
        using assms(3) True m run
        by (auto simp: apply_section_def Let_def map_add_def split: if_splits option.splits)
      have "node_typed node'"
        using node' put_section_typed [OF local] put_section_typed [OF module] effect local module
        by (simp add: node_typed_def)
      then show ?thesis
        using writes effect m by (auto simp: node' put_section_other)
    qed
  qed
qed

section \<open>Witnesses\<close>

text \<open>A library that takes every value as it is, and a radio with Wi-Fi and two channels.\<close>

definition sample_pb :: protobuf where
  "sample_pb = \<lparr>pb_set = \<lambda>f v. Inr v, pb_extend = \<lambda>f l. (l, None), pb_int = Inr,
     pb_psk = \<lambda>s. if s = ''bad'' then Inl ''ValueError'' else Inr s, pb_float_of = \<lambda>s. None,
     pb_text = \<lambda>v. []\<rparr>"

definition sample_network :: message where
  "sample_network = \<lparr>msg_fields =
       [\<lparr>fd_name = ''wifi_enabled'', fd_type = TBool, fd_repeated = False\<rparr>,
        \<lparr>fd_name = ''wifi_psk'', fd_type = TString, fd_repeated = False\<rparr>,
        \<lparr>fd_name = ''mode'', fd_type = TEnum [(''DHCP'', 0), (''STATIC'', 1)], fd_repeated = False\<rparr>],
     msg_values = \<lambda>n. if n = ''wifi_enabled'' then PBool False
       else if n = ''mode'' then PInt 0 else PStr ''hunter2''\<rparr>"

definition sample_radio :: radio_node where
  "sample_radio = \<lparr>rn_local = [(''version'', None), (''network'', Some sample_network)], rn_module = [],
     rn_channels = [\<lparr>ch_index = 0, ch_role = 1, ch_name = ''one'', ch_psk = ''key'', ch_uplink = False,
       ch_downlink = False, ch_precision = 0\<rparr>]\<rparr>"

definition sample_radio_interface :: radio_interface where
  "sample_radio_interface = \<lparr>ri_node = sample_radio, ri_my_node_num = Some 1, ri_pio_env = None,
     ri_metadata = None, ri_nodes = [(1, PDict [(''user'', PDict [(''id'', PStr ''!1'')])])]\<rparr>"

theorem snapshot_hides_secrets_witness:
  "build_snapshot (\<lambda>_. None) [] (blank_secrets sample_radio_interface) None
    = build_snapshot (\<lambda>_. None) [] sample_radio_interface None"
proof (rule snapshot_hides_secrets)
  show "proper_parent (rn_local (ri_node sample_radio_interface))"
    by (simp add: sample_radio_interface_def sample_radio_def sample_network_def proper_parent_def
        proper_message_def)
  show "proper_parent (rn_module (ri_node sample_radio_interface))"
    by (simp add: sample_radio_interface_def sample_radio_def proper_parent_def)
qed

lemma sample_apply:
  "\<exists>node' m. apply_section sample_pb None sample_radio ''network'' [(''mode'', PInt 1)]
     = (Inr (), node', [(''network'', m)])"
  by (simp add: apply_section_def apply_change_def sample_pb_def sample_radio_def sample_network_def
      WRITABLE_SECTIONS_def WRITE_ONLY_def READ_ONLY_def editable_def coerce_def coerce_scalar_def py_int_def Let_def)

lemma sample_pb_keeps: "keeps_types sample_pb"
  by (simp add: keeps_types_def sample_pb_def)

lemma sample_radio_typed: "node_typed sample_radio"
  by (auto simp: node_typed_def parent_typed_def sample_radio_def sample_network_def proper_message_def
      message_typed_def field_typed_def has_type_def)

theorem apply_section_keeps_types_witness:
  "\<exists>node' m. node_typed node' \<and> message_typed m \<and> msg_values m ''wifi_psk'' = PStr ''hunter2''
     \<and> apply_section sample_pb None sample_radio ''network'' [(''mode'', PInt 1)]
       = (Inr (), node', [(''network'', m)])"
proof -
  obtain node' m where run: "apply_section sample_pb None sample_radio ''network'' [(''mode'', PInt 1)]
     = (Inr (), node', [(''network'', m)])" using sample_apply by blast
  have "msg_values m ''wifi_psk'' = msg_values sample_network ''wifi_psk''"
    using apply_section_keeps_types [OF sample_pb_keeps sample_radio_typed run]
    by (simp add: sample_radio_def open_to_def)
  then show ?thesis
    using apply_section_keeps_types [OF sample_pb_keeps sample_radio_typed run] run
    by (auto simp: sample_network_def)
qed

text \<open>A change that is refused leaves the earlier ones of the same request in the local settings, which the
  radio never receives.\<close>

lemma refused_change_keeps_earlier:
  "(case apply_section sample_pb None sample_radio ''network'' [(''wifi_enabled'', PBool True), (''mode'', PInt 7)] of
      (r, node', writes) \<Rightarrow> r = Inl ''invalid value for mode'' \<and> writes = []
        \<and> (case map_of (rn_local node') ''network'' of
             Some (Some m) \<Rightarrow> msg_values m ''wifi_enabled'' = PBool True | _ \<Rightarrow> False))"
  by code_simp

lemma refused_key_keeps_name:
  "(case update_node_channel sample_pb [(''index'', PInt 0), (''role'', PInt 1), (''name'', PStr ''new''),
       (''psk'', PStr ''bad'')] sample_radio of
      (r, node') \<Rightarrow> r = Inl ''ValueError'' \<and> ch_name (hd (rn_channels node')) = ''new'')"
  by code_simp

definition sample_profile_of :: "string \<Rightarrow> string + device_profile" where
  "sample_profile_of raw = Inr \<lparr>pf_long_name = Some ''Base'', pf_short_name = None, pf_channel_url = None,
     pf_canned_messages = None, pf_ringtone = None, pf_fixed_position = None, pf_config = None,
     pf_module_config = None\<rparr>"

definition sample_restore :: "(string + string) \<times> node_call list \<times> disk \<times> radio_node" where
  "sample_restore = restore_profile sample_hashes (\<lambda>_. True) (Inr ''old'') None sample_profile_of (\<lambda>_ _. None)
     ''now'' ''/c/a.cfg'' ((\<lambda>_. None)(''/c/a.cfg'' \<mapsto> ''raw'')) sample_radio"

lemma sample_restore_runs: "fst (snd sample_restore) \<noteq> []"
  by code_simp

theorem restore_after_backup_witness:
  "fst (snd (snd sample_restore)) ''/c/a.pre-restore-now.cfg'' = Some ''old'' \<and>
   hd (fst (snd sample_restore)) = BeginSettings"
proof -
  obtain r sent d' node' where run: "sample_restore = (r, sent, d', node')" by (cases sample_restore)
  have path: "safety_path ''/c/a.cfg'' ''now'' = ''/c/a.pre-restore-now.cfg''" by code_simp
  have "sent \<noteq> []" using sample_restore_runs unfolding run by (simp only: fst_conv snd_conv not_False_eq_True)
  from restore_after_backup [OF run [unfolded sample_restore_def] this] show ?thesis
    unfolding run path by auto
qed

section \<open>The slots keep the worker's invariant\<close>

lemma apply_device_section_quiet:
  "quiet w (fst (apply_device_section pb we se s changes (w, node)))"
  by (auto simp: apply_device_section_def Let_def list_all_iff dest: require_connection_quiet
      intro!: quiet_intros split: prod.splits bool.splits sum.splits)

lemma update_channel_quiet: "quiet w (fst (update_channel pb we se changes (w, node)))"
  by (auto simp: update_channel_def Let_def dest: require_connection_quiet
      intro!: quiet_intros split: prod.splits bool.splits sum.splits option.splits)

lemma settings_slots_keep_worker_inv:
  assumes "worker_inv w"
  shows "worker_inv (fst (apply_device_section pb we se s changes (w, node)))"
    and "worker_inv (fst (update_channel pb we se changes (w, node)))"
  using quiet_inv [OF assms apply_device_section_quiet] quiet_inv [OF assms update_channel_quiet] by simp_all

end
