(* ===== verification/DevicePage.thy ===== *)
theory DevicePage
  imports DeviceConfig "HOL-Library.Multiset"
begin

text \<open>
  \<open>ui/device/device_page.py\<close> and the parts of \<open>ui/main_window.py\<close> that drive it: the settings form (how a
  section becomes widgets and the widgets a request), the channel form, the gating of the firmware,
  backup and console controls, and the hand-over of the USB port from the radio connection to
  \<open>esptool\<close> or the console and back.  Of a widget the model keeps what it holds; layout, colours and
  wording shown to the user are not modelled.  Answers of dialogs are arguments.
\<close>

section \<open>The settings form\<close>

text \<open>A combo box is its items and the current one.\<close>

datatype widget = CheckBox bool | ComboBox "(string \<times> int) list" nat | LineEdit string

text \<open>\<open>str(v)\<close>\<close>

definition widget_text :: "protobuf \<Rightarrow> pyval \<Rightarrow> string" where
  "widget_text pb v =
     (case v of PStr s \<Rightarrow> s | PInt i \<Rightarrow> show_int i | PBool b \<Rightarrow> (if b then ''True'' else ''False'')
      | PNone \<Rightarrow> ''None'' | _ \<Rightarrow> pb_text pb v)"

fun index_of :: "int \<Rightarrow> (string \<times> int) list \<Rightarrow> nat option" where
  "index_of n [] = None"
| "index_of n ((l, v) # vs) = (if v = n then Some 0 else map_option Suc (index_of n vs))"

definition widget_for_field :: "protobuf \<Rightarrow> config_field \<Rightarrow> string + widget" where
  "widget_for_field pb f =
     (if cf_kind f = ''bool'' \<and> \<not> cf_repeated f then Inr (CheckBox (py_truthy (cf_value f)))
      else if cf_kind f = ''enum'' \<and> \<not> cf_repeated f
      then (case py_int (cf_value f) of
              None \<Rightarrow> Inl (int_error (cf_value f))
            | Some n \<Rightarrow>
                (case index_of n (cf_choices f) of
                   Some i \<Rightarrow> Inr (ComboBox (cf_choices f) i)
                 | None \<Rightarrow> Inr (ComboBox (cf_choices f @ [(''Unknown ('' @ show_int n @ '')'', n)]) (length (cf_choices f)))))
      else if cf_repeated f
      then (case cf_value f of
              PList l \<Rightarrow> Inr (LineEdit (join_with '', '' (map (widget_text pb) l)))
            | PStr s \<Rightarrow> Inr (LineEdit (join_with '', '' (map (\<lambda>c. [c]) s)))
            | _ \<Rightarrow> Inl ''TypeError'')
      else Inr (LineEdit (if \<not> cf_write_only f \<and> \<not> cf_read_only f then widget_text pb (cf_value f) else [])))"

definition read_int :: "string \<Rightarrow> string + pyval" where
  "read_int s = (case parse_int0 s of None \<Rightarrow> Inl ''ValueError'' | Some n \<Rightarrow> Inr (PInt n))"

definition read_float :: "protobuf \<Rightarrow> string \<Rightarrow> string + pyval" where
  "read_float pb s = (case pb_float_of pb s of None \<Rightarrow> Inl ''ValueError'' | Some r \<Rightarrow> Inr (PFloat r))"

definition read_widget :: "protobuf \<Rightarrow> config_field \<Rightarrow> widget \<Rightarrow> string + pyval" where
  "read_widget pb f w =
     (case w of
        CheckBox b \<Rightarrow> Inr (PBool b)
      | ComboBox items i \<Rightarrow> Inr (if i < length items then PInt (snd (items ! i)) else PNone)
      | LineEdit t \<Rightarrow>
          (let text = strip t
           in if cf_write_only f \<and> text = [] then Inr (PStr [])
              else if cf_repeated f
              then (if text = [] then Inr (PList [])
                    else (let parts = map strip (split_on (CHR '','') text)
                          in if cf_kind f = ''int'' then and_then (collect (map read_int parts)) (\<lambda>xs. Inr (PList xs))
                             else if cf_kind f = ''float''
                             then and_then (collect (map (read_float pb) parts)) (\<lambda>xs. Inr (PList xs))
                             else Inr (PList (map PStr parts))))
              else if cf_kind f = ''int'' then read_int text
              else if cf_kind f = ''float'' then read_float pb text
              else Inr (PStr text)))"

text \<open>The form of a section, and what saving it sends.\<close>

definition form_of :: "protobuf \<Rightarrow> config_section \<Rightarrow> string + (config_field \<times> widget) list" where
  "form_of pb sec = collect (map (\<lambda>f. and_then (widget_for_field pb f) (\<lambda>w. Inr (f, w))) (sec_fields sec))"

definition save_form :: "protobuf \<Rightarrow> (config_field \<times> widget) list \<Rightarrow> string + pydict" where
  "save_form pb form =
     collect (map (\<lambda>(f, w). and_then (read_widget pb f w) (\<lambda>v. Inr (cf_name f, v)))
       (filter (\<lambda>(f, w). \<not> cf_read_only f) form))"

section \<open>Facts on text\<close>

lemma hex_value_digit: "is_digit c \<Longrightarrow> hex_value c = Some (digit_value c) \<and> digit_value c < 10"
  by (auto simp: hex_value_def digit_value_def is_digit_def to_lower_def is_upper_def Let_def)

lemma digits_base_ten: "list_all is_digit s \<Longrightarrow> digits_base 10 acc s = Some (nat_of_digits acc s)"
  by (induction s arbitrary: acc) (auto simp: hex_value_digit)

lemma show_base_hd: "10 \<le> n \<Longrightarrow> hd (show_base 10 n) \<noteq> CHR ''0''"
proof (induction n rule: less_induct)
  case (less n)
  have step: "show_base 10 n = show_base 10 (n div 10) @ [digit_char (n mod 10)]"
    using less.prems by (subst show_base.simps) simp
  have digit: "digit_char d \<noteq> CHR ''0''" if "0 < d" "d < 10" for d
  proof
    assume "digit_char d = CHR ''0''"
    then have "digit_value (digit_char d) = digit_value (CHR ''0'')" by simp
    with that digit_value_digit_char [of d] show False by (simp add: digit_value_def)
  qed
  show ?case
  proof (cases "n div 10 < 10")
    case True
    then have "show_base 10 (n div 10) = [digit_char (n div 10)]" by (subst show_base.simps) simp
    with step digit [of "n div 10"] True less.prems show ?thesis by simp
  next
    case False
    with less have "hd (show_base 10 (n div 10)) \<noteq> CHR ''0''" by simp
    with step show_base_nonempty [of 10 "n div 10"] show ?thesis by simp
  qed
qed

lemma parse_unsigned0_show_nat: "parse_unsigned0 (show_nat n) = Some n"
proof -
  have num: "digits_base 10 0 (show_nat n) = Some n"
    using digits_base_ten [OF show_nat_digits] by (simp add: nat_of_digits_show_nat)
  show ?thesis
  proof (cases "n < 10")
    case True
    then have "show_nat n = [digit_char n]" by (simp add: show_nat_def show_base.simps)
    with num show ?thesis by (simp add: parse_unsigned0_def)
  next
    case False
    then have "hd (show_nat n) \<noteq> CHR ''0''" by (simp add: show_nat_def show_base_hd)
    with num show_base_nonempty [of 10 n] show ?thesis
      by (auto simp: parse_unsigned0_def show_nat_def split: list.splits)
  qed
qed

lemma minus_plain: "is_plain (CHR ''-'')"
  by (simp add: is_plain_def is_space_def Let_def)

lemma show_int_plain: "list_all is_plain (show_int i)"
  using show_nat_digits digit_plain minus_plain by (auto simp: show_int_def list_all_iff)

lemma show_int_strip: "strip (show_int i) = show_int i"
  by (rule strip_plain) (rule show_int_plain)

lemma show_int_nonempty: "show_int i \<noteq> []"
  using show_base_nonempty by (simp add: show_int_def show_nat_def)

lemma show_int_no_comma: "CHR '','' \<notin> set (show_int i)"
proof -
  have "CHR '','' \<notin> set (show_nat n)" for n
    using show_nat_digits [of n] by (auto simp: list_all_iff is_digit_def Let_def dest!: bspec)
  then show ?thesis by (simp add: show_int_def)
qed

lemma parse_int0_show_int: "parse_int0 (show_int i) = Some i"
proof (cases "i < 0")
  case True
  then show ?thesis using show_int_strip [of i] by (simp add: parse_int0_def show_int_def parse_unsigned0_show_nat)
next
  case False
  obtain c cs where c: "show_nat (nat i) = c # cs"
    using show_base_nonempty by (cases "show_nat (nat i)") (auto simp: show_nat_def)
  then have "is_digit c" using show_nat_digits [of "nat i"] by simp
  then have "c \<noteq> CHR ''-''" "c \<noteq> CHR ''+''" by (auto simp: is_digit_def Let_def)
  with c False show_int_strip [of i] parse_unsigned0_show_nat [of "nat i"]
  show ?thesis by (simp add: parse_int0_def show_int_def)
qed

lemma split_on_clean: "d \<notin> set s \<Longrightarrow> split_on d s = [s]"
  by (induction s) auto

lemma split_on_append: "d \<notin> set s \<Longrightarrow> split_on d (s @ d # t) = s # split_on d t"
  by (induction s) auto

lemma strip_space: "strip (CHR '' '' # s) = strip s"
proof -
  have "space_len (CHR '' '' # s) = 1" by (simp add: space_len_def is_space_def)
  then have "lstrip (CHR '' '' # s) = lstrip s" by (subst lstrip.simps) simp
  then show ?thesis by (simp add: strip_def)
qed

text \<open>Words that can be listed: not empty, without blanks and commas.\<close>

definition listable :: "string \<Rightarrow> bool" where
  "listable x \<longleftrightarrow> x \<noteq> [] \<and> list_all is_plain x \<and> CHR '','' \<notin> set x"

lemma join_Cons: "xs \<noteq> [] \<Longrightarrow> join_with '', '' (x # xs) = x @ CHR '','' # CHR '' '' # join_with '', '' xs"
  by (cases xs) (simp_all add: join_with_def)

lemma split_on_nonempty: "split_on d s \<noteq> []"
  by (induction s) (auto split: list.splits)

lemma map_strip_space:
  "map strip (split_on (CHR '','') (CHR '' '' # s)) = map strip (split_on (CHR '','') s)"
  using split_on_nonempty [of "CHR '',''" s] by (cases "split_on (CHR '','') s") (simp_all add: strip_space)

lemma split_join:
  "xs \<noteq> [] \<Longrightarrow> list_all listable xs \<Longrightarrow> map strip (split_on (CHR '','') (join_with '', '' xs)) = xs"
proof (induction xs rule: list_nonempty_induct)
  case (single x)
  then show ?case by (simp add: listable_def join_with_def split_on_clean strip_plain)
next
  case (cons x xs)
  have "map strip (split_on (CHR '','') (x @ CHR '','' # CHR '' '' # join_with '', '' xs))
      = strip x # map strip (split_on (CHR '','') (CHR '' '' # join_with '', '' xs))"
    using cons.prems by (subst split_on_append) (auto simp: listable_def)
  also have "\<dots> = x # xs"
    using cons by (subst map_strip_space) (simp add: listable_def strip_plain)
  finally show ?case unfolding join_Cons [OF \<open>xs \<noteq> []\<close>] .
qed

lemma join_ends:
  "xs \<noteq> [] \<Longrightarrow> list_all listable xs \<Longrightarrow> join_with '', '' xs \<noteq> [] \<and>
    is_plain (hd (join_with '', '' xs)) \<and> is_plain (last (join_with '', '' xs))"
proof (induction xs rule: list_nonempty_induct)
  case (single x)
  then show ?case by (auto simp: listable_def join_with_def list_all_iff)
next
  case (cons x xs)
  then show ?case by (auto simp: listable_def join_Cons list_all_iff)
qed

lemma strip_plain_ends: "s \<noteq> [] \<Longrightarrow> is_plain (hd s) \<Longrightarrow> is_plain (last s) \<Longrightarrow> strip s = s"
proof -
  assume s: "s \<noteq> []" "is_plain (hd s)" "is_plain (last s)"
  then have "space_len s = 0" by (cases s) (simp_all add: space_len_plain)
  moreover have "rspace_len (rev s) = 0"
    using s by (cases s rule: rev_cases) (simp_all add: rspace_len_plain)
  ultimately show ?thesis by (simp add: strip_def rstrip_def lstrip.simps rstrip_rev.simps)
qed

lemma strip_join: "xs \<noteq> [] \<Longrightarrow> list_all listable xs \<Longrightarrow> strip (join_with '', '' xs) = join_with '', '' xs"
  using join_ends strip_plain_ends by blast

section \<open>Facts on the form\<close>

text \<open>What a field must hold to survive the form: what a line edit shows is stripped when it is read, a list
  is split at commas, only strings and numbers may be write-only and only bytes read-only.\<close>

definition field_ready :: "string \<Rightarrow> message \<Rightarrow> field_descriptor \<Rightarrow> bool" where
  "field_ready s m f \<longleftrightarrow> ((s, fd_name f) \<in> set READ_ONLY \<longrightarrow> fd_type f = TBytes) \<and>
     (if (s, fd_name f) \<in> set WRITE_ONLY then fd_type f \<in> {TString, TInt} \<and> \<not> fd_repeated f
      else if fd_repeated f
      then (case msg_values m (fd_name f) of
              PList l \<Rightarrow> fd_type f \<noteq> TBool \<and> (fd_type f = TString \<longrightarrow> list_all (\<lambda>v. \<forall>x. v = PStr x \<longrightarrow> listable x) l)
            | _ \<Rightarrow> False)
      else (\<forall>x. msg_values m (fd_name f) = PStr x \<longrightarrow> strip x = x))"

text \<open>A number's text reads back, and a field takes the value it already has.\<close>

definition reads_back :: "protobuf \<Rightarrow> pyval \<Rightarrow> bool" where
  "reads_back pb v \<longleftrightarrow>
     (\<forall>r. v = PFloat r \<or> (\<exists>l. v = PList l \<and> PFloat r \<in> set l) \<longrightarrow>
        listable (pb_text pb (PFloat r)) \<and> pb_float_of pb (pb_text pb (PFloat r)) = Some r)"

definition takes_back :: "protobuf \<Rightarrow> message \<Rightarrow> bool" where
  "takes_back pb m \<longleftrightarrow>
     (\<forall>f \<in> set (msg_fields m). pb_set pb f (msg_values m (fd_name f)) = Inr (msg_values m (fd_name f)) \<and>
        (\<forall>l. msg_values m (fd_name f) = PList l \<longrightarrow> pb_extend pb f l = (l, None)))"

text \<open>One field: what it shows is read as the value it has, up to what the coercion undoes.\<close>

definition comes_back :: "protobuf \<Rightarrow> string \<Rightarrow> message \<Rightarrow> field_descriptor \<Rightarrow> pyval \<Rightarrow> bool" where
  "comes_back pb s m f v \<longleftrightarrow>
     ((s, fd_name f) \<in> set WRITE_ONLY \<and> v = PStr []) \<or>
     ((s, fd_name f) \<notin> set WRITE_ONLY \<and> coerce pb f v = Inr (msg_values m (fd_name f)))"

lemma coerce_list_map:
  "list_all (\<lambda>v. coerce_scalar pb f (g v) = Inr (h v)) vs \<Longrightarrow> coerce_list pb f (map g vs) = Inr (map h vs)"
  by (induction vs) (auto simp: and_then_def)

lemma show_int_listable: "listable (show_int i)"
  by (simp add: listable_def show_int_nonempty show_int_plain show_int_no_comma)

lemma index_of_mem: "n \<in> snd ` set vs \<Longrightarrow> \<exists>i. index_of n vs = Some i \<and> i < length vs \<and> snd (vs ! i) = n"
proof (induction n vs rule: index_of.induct)
  case (2 n l v vs)
  show ?case
  proof (cases "v = n")
    case False
    with 2 obtain i where "index_of n vs = Some i" "i < length vs" "snd (vs ! i) = n" by auto
    with False show ?thesis by (intro exI [of _ "Suc i"]) simp
  qed simp
qed simp

lemma section_field_shape:
  assumes "section_field s m f = Some cf"
  shows "cf_name cf = fd_name f" "cf_repeated cf = fd_repeated f" "field_kind f = Some (cf_kind cf)"
    "cf_write_only cf \<longleftrightarrow> (s, fd_name f) \<in> set WRITE_ONLY"
    "cf_read_only cf \<longleftrightarrow> (s, fd_name f) \<in> set READ_ONLY \<or> fd_type f = TBytes"
    "cf_choices cf = (case fd_type f of TEnum vs \<Rightarrow> vs | _ \<Rightarrow> [])"
    "cf_value cf = (if cf_write_only cf \<or> cf_read_only cf then PStr [] else msg_values m (fd_name f))"
proof -
  obtain k where "field_kind f = Some k" using assms by (auto simp: section_field_def split: if_splits option.splits)
  moreover have "k = ''bytes'' \<longleftrightarrow> fd_type f = TBytes"
    using calculation by (cases "fd_type f") (auto simp: field_kind_def)
  ultimately show "cf_name cf = fd_name f" "cf_repeated cf = fd_repeated f" "field_kind f = Some (cf_kind cf)"
    "cf_write_only cf \<longleftrightarrow> (s, fd_name f) \<in> set WRITE_ONLY"
    "cf_read_only cf \<longleftrightarrow> (s, fd_name f) \<in> set READ_ONLY \<or> fd_type f = TBytes"
    "cf_choices cf = (case fd_type f of TEnum vs \<Rightarrow> vs | _ \<Rightarrow> [])"
    "cf_value cf = (if cf_write_only cf \<or> cf_read_only cf then PStr [] else msg_values m (fd_name f))"
    using assms by (auto simp: section_field_def Let_def split: if_splits)
qed

lemma scalar_comes_back:
  assumes f: "section_field s m f = Some cf" "\<not> cf_read_only cf" "\<not> fd_repeated f"
    and ready: "field_ready s m f" "field_typed f (msg_values m (fd_name f))" "reads_back pb (msg_values m (fd_name f))"
  shows "\<exists>w v. widget_for_field pb cf = Inr w \<and> read_widget pb cf w = Inr v \<and> comes_back pb s m f v"
proof -
  note shape = section_field_shape [OF f(1)]
  note reading = widget_for_field_def read_widget_def comes_back_def coerce_def coerce_scalar_def shape(1-4,7) f(2,3)
  show ?thesis
  proof (cases "(s, fd_name f) \<in> set WRITE_ONLY")
    case True
    then have "fd_type f = TString \<or> fd_type f = TInt" using ready by (auto simp: field_ready_def)
    then have "cf_kind cf = ''string'' \<or> cf_kind cf = ''int''" using shape(3) by (auto simp: field_kind_def)
    with True show ?thesis by (auto simp: reading strip_plain)
  next
    case False
    have typed: "has_type (fd_type f) (msg_values m (fd_name f))"
      using ready f shape(3) by (auto simp: field_typed_def field_kind_def)
    let ?v = "msg_values m (fd_name f)"
    show ?thesis
    proof (cases "fd_type f")
      case TBool
      then obtain b where "?v = PBool b" using typed by (auto simp: has_type_def split: pyval.splits)
      moreover have "cf_kind cf = ''bool''" using TBool shape(3) by (simp add: field_kind_def)
      ultimately show ?thesis using TBool False by (simp add: reading)
    next
      case (TEnum vs)
      then obtain n where n: "?v = PInt n" "n \<in> snd ` set vs"
        using typed by (auto simp: has_type_def split: pyval.splits)
      from index_of_mem [OF n(2)] obtain i where i: "index_of n vs = Some i" "i < length vs" "snd (vs ! i) = n"
        by blast
      have "cf_kind cf = ''enum''" "cf_choices cf = vs" using TEnum shape(3,6) by (simp_all add: field_kind_def)
      then show ?thesis using TEnum False n i by (simp add: reading py_int_def)
    next
      case TInt
      then obtain n where "?v = PInt n" using typed by (auto simp: has_type_def split: pyval.splits)
      moreover have "cf_kind cf = ''int''" using TInt shape(3) by (simp add: field_kind_def)
      ultimately show ?thesis using TInt False
        by (simp add: reading py_int_def widget_text_def show_int_strip read_int_def parse_int0_show_int)
    next
      case TFloat
      then obtain r where "?v = PFloat r" using typed by (auto simp: has_type_def split: pyval.splits)
      moreover have "cf_kind cf = ''float''" using TFloat shape(3) by (simp add: field_kind_def)
      moreover have "strip (pb_text pb (PFloat r)) = pb_text pb (PFloat r)"
          "pb_float_of pb (pb_text pb (PFloat r)) = Some r"
        using ready(3) \<open>?v = PFloat r\<close> by (simp_all add: reads_back_def listable_def strip_plain)
      ultimately show ?thesis using TFloat False
        by (simp add: reading py_float_def as_num_def widget_text_def read_float_def)
    next
      case TString
      then obtain x where x: "?v = PStr x" using typed by (auto simp: has_type_def split: pyval.splits)
      have "cf_kind cf = ''string''" using TString shape(3) by (simp add: field_kind_def)
      moreover have "strip x = x" using ready(1) x False f(3) by (simp add: field_ready_def)
      ultimately show ?thesis using TString False x by (simp add: reading widget_text_def)
    next
      case TBytes
      then show ?thesis using shape(5) f(2) by simp
    next
      case TMessage
      then show ?thesis using shape(3) by (simp add: field_kind_def)
    qed
  qed
qed

lemma list_comes_back:
  assumes f: "section_field s m f = Some cf" "\<not> cf_read_only cf" "fd_repeated f"
    and ready: "field_ready s m f" "field_typed f (msg_values m (fd_name f))" "reads_back pb (msg_values m (fd_name f))"
  shows "\<exists>w v. widget_for_field pb cf = Inr w \<and> read_widget pb cf w = Inr v \<and> comes_back pb s m f v"
proof -
  note shape = section_field_shape [OF f(1)]
  have open_field: "(s, fd_name f) \<notin> set WRITE_ONLY" using ready f by (auto simp: field_ready_def)
  have kinds: "fd_type f \<noteq> TMessage" "fd_type f \<noteq> TBytes" using shape(3,5) f(2) by (auto simp: field_kind_def)
  obtain l where l: "msg_values m (fd_name f) = PList l" "list_all (has_type (fd_type f)) l"
    using ready(2) kinds f(3) by (auto simp: field_typed_def split: pyval.splits)
  have no_bool: "fd_type f \<noteq> TBool" and words: "fd_type f = TString \<Longrightarrow> v \<in> set l \<Longrightarrow> v = PStr x \<Longrightarrow> listable x" for v x
    using ready(1) l(1) open_field f(3) by (auto simp: field_ready_def list_all_iff)
  have texts: "list_all listable (map (widget_text pb) l)"
    using l words kinds no_bool ready(3)
    by (cases "fd_type f") (auto simp: list_all_iff has_type_def widget_text_def show_int_listable reads_back_def
        split: pyval.splits)
  let ?w = "LineEdit (join_with '', '' (map (widget_text pb) l))"
  have w: "widget_for_field pb cf = Inr ?w"
    using open_field f(2,3) shape(1-4,7) l(1) by (simp add: widget_for_field_def)
  show ?thesis
  proof (cases "l = []")
    case True
    then have "read_widget pb cf ?w = Inr (PList [])"
      using open_field f(3) shape(2,4) by (simp add: read_widget_def join_with_def strip_plain)
    moreover have "coerce pb f (PList []) = Inr (PList [])" using f(3) by (simp add: coerce_def and_then_def)
    ultimately show ?thesis using w l(1) True open_field by (simp add: comes_back_def)
  next
    case False
    then have shown: "strip (join_with '', '' (map (widget_text pb) l)) = join_with '', '' (map (widget_text pb) l)"
        "map strip (split_on (CHR '','') (join_with '', '' (map (widget_text pb) l))) = map (widget_text pb) l"
        "join_with '', '' (map (widget_text pb) l) \<noteq> []"
      using strip_join [OF _ texts] split_join [OF _ texts] join_ends [OF _ texts] by simp_all
    note reading = w read_widget_def comes_back_def coerce_def shape(1-4) f(3) open_field shown l(1) and_then_def
    show ?thesis
    proof (cases "fd_type f")
      case (TEnum vs)
      then have "coerce_list pb f (map (\<lambda>v. PStr (widget_text pb v)) l) = Inr (map (\<lambda>v. v) l)"
        using l(2) by (intro coerce_list_map) (auto simp: list_all_iff has_type_def coerce_scalar_def py_int_def
            widget_text_def parse_int_show_int split: pyval.splits)
      moreover have "cf_kind cf = ''enum''" using TEnum shape(3) by (simp add: field_kind_def)
      ultimately show ?thesis by (simp add: reading comp_def)
    next
      case TInt
      then have "collect (map (\<lambda>v. read_int (widget_text pb v)) l) = Inr (map (\<lambda>v. v) l)"
        using l(2) by (intro collect_Inr_map) (auto simp: list_all_iff has_type_def read_int_def widget_text_def
            parse_int0_show_int split: pyval.splits)
      moreover have "coerce_list pb f (map (\<lambda>v. v) l) = Inr (map (\<lambda>v. v) l)"
        using TInt l(2) by (intro coerce_list_map) (auto simp: list_all_iff has_type_def coerce_scalar_def py_int_def
            split: pyval.splits)
      moreover have "cf_kind cf = ''int''" using TInt shape(3) by (simp add: field_kind_def)
      ultimately show ?thesis by (simp add: reading comp_def)
    next
      case TFloat
      then have "collect (map (\<lambda>v. read_float pb (widget_text pb v)) l) = Inr (map (\<lambda>v. v) l)"
        using l ready(3) by (intro collect_Inr_map) (auto simp: list_all_iff has_type_def read_float_def widget_text_def
            reads_back_def split: pyval.splits)
      moreover have "coerce_list pb f (map (\<lambda>v. v) l) = Inr (map (\<lambda>v. v) l)"
        using TFloat l(2) by (intro coerce_list_map) (auto simp: list_all_iff has_type_def coerce_scalar_def py_float_def
            as_num_def split: pyval.splits)
      moreover have "cf_kind cf = ''float''" using TFloat shape(3) by (simp add: field_kind_def)
      ultimately show ?thesis by (simp add: reading comp_def)
    next
      case TString
      then have "coerce_list pb f (map (\<lambda>v. PStr (widget_text pb v)) l) = Inr (map (\<lambda>v. v) l)"
        using l(2) by (intro coerce_list_map) (auto simp: list_all_iff has_type_def coerce_scalar_def
            widget_text_def split: pyval.splits)
      moreover have "cf_kind cf = ''string''" using TString shape(3) by (simp add: field_kind_def)
      ultimately show ?thesis by (simp add: reading comp_def)
    qed (use kinds no_bool in simp_all)
  qed
qed

lemmas field_comes_back = scalar_comes_back list_comes_back

text \<open>Applying what comes back changes nothing.\<close>

lemma set_value_same: "set_value n (msg_values m n) m = m"
  by (simp add: set_value_def)

lemma apply_change_same:
  assumes "proper_message m" "f \<in> set (msg_fields m)" "editable s f" "takes_back pb m" "comes_back pb s m f v"
  shows "apply_change pb s (fd_name f) v m = (None, m)"
proof -
  have unique: "find (\<lambda>g. fd_name g = fd_name f) (msg_fields m) = Some f"
  proof (cases "find (\<lambda>g. fd_name g = fd_name f) (msg_fields m)")
    case (Some g)
    then have "g \<in> set (msg_fields m)" "fd_name g = fd_name f" by (auto simp: find_Some_iff)
    then show ?thesis using Some assms(1,2) by (auto simp: proper_message_def distinct_map inj_on_def)
  qed (use assms(2) in \<open>auto simp: find_None_iff\<close>)
  have same: "pb_set pb f (msg_values m (fd_name f)) = Inr (msg_values m (fd_name f))"
      "\<And>l. msg_values m (fd_name f) = PList l \<Longrightarrow> pb_extend pb f l = (l, None)"
    using assms(2,4) by (auto simp: takes_back_def)
  show ?thesis
  proof (cases "(s, fd_name f) \<in> set WRITE_ONLY \<and> v = PStr []")
    case True
    then show ?thesis using unique assms(3) by (simp add: apply_change_def)
  next
    case False
    then have "(s, fd_name f) \<notin> set WRITE_ONLY" "coerce pb f v = Inr (msg_values m (fd_name f))"
      using assms(5) by (auto simp: comes_back_def)
    then show ?thesis
      using unique assms(3) same set_value_same [of "fd_name f" m]
      by (cases "msg_values m (fd_name f)") (simp_all add: apply_change_def)
  qed
qed

lemma apply_changes_same:
  "list_all (\<lambda>(n, v). apply_change pb s n v m = (None, m)) cs \<Longrightarrow> apply_changes pb s cs m = (None, m)"
  by (induction cs) auto

text \<open>Every field of the section gets a widget, and what can be changed comes back from it.\<close>

definition survives :: "protobuf \<Rightarrow> string \<Rightarrow> message \<Rightarrow> config_field \<Rightarrow> config_field \<times> widget \<Rightarrow> bool" where
  "survives pb s m cf p \<longleftrightarrow> fst p = cf \<and> (\<not> cf_read_only cf \<longrightarrow>
      (\<exists>v. read_widget pb cf (snd p) = Inr v \<and> apply_change pb s (cf_name cf) v m = (None, m)))"

lemma field_survives:
  assumes "proper_message m" "message_typed m" "\<forall>f \<in> set (msg_fields m). field_ready s m f"
    and "\<forall>f \<in> set (msg_fields m). reads_back pb (msg_values m (fd_name f))" "takes_back pb m"
    and that: "cf \<in> set (List.map_filter (section_field s m) (msg_fields m))"
  shows "\<exists>p. and_then (widget_for_field pb cf) (\<lambda>w. Inr (cf, w)) = Inr p \<and> survives pb s m cf p"
proof -
  from that obtain f where f: "f \<in> set (msg_fields m)" "section_field s m f = Some cf"
    by (auto simp: List.map_filter_def)
  note shape = section_field_shape [OF f(2)]
  have ready: "field_ready s m f" "field_typed f (msg_values m (fd_name f))"
      "reads_back pb (msg_values m (fd_name f))"
    using assms(2-4) f by (auto simp: message_typed_def list_all_iff)
  show ?thesis
  proof (cases "cf_read_only cf")
    case True
    then have "fd_type f = TBytes" using ready(1) shape(5) by (auto simp: field_ready_def)
    then have "cf_kind cf = ''bytes''" using shape(3) by (simp add: field_kind_def)
    then have "\<exists>w. widget_for_field pb cf = Inr w" using True shape(7) by (simp add: widget_for_field_def)
    then show ?thesis using True by (auto simp: and_then_def survives_def)
  next
    case False
    then obtain w v where "widget_for_field pb cf = Inr w" "read_widget pb cf w = Inr v" "comes_back pb s m f v"
      using field_comes_back [OF f(2) False _ ready] by blast
    moreover from False have "editable s f" using shape(5) by (simp add: editable_def)
    ultimately show ?thesis
      using apply_change_same [OF assms(1) f(1) _ assms(5)] shape(1) by (auto simp: and_then_def survives_def)
  qed
qed

text \<open>Saving a settings form that was not touched changes nothing: the widgets of a section read back, the
  changes are accepted, and the section the radio is sent is the one it has, secrets included.\<close>

theorem form_round_trip:
  assumes "proper_message m" "message_typed m" "\<forall>f \<in> set (msg_fields m). field_ready s m f"
    and "\<forall>f \<in> set (msg_fields m). reads_back pb (msg_values m (fd_name f))" "takes_back pb m"
  shows "\<exists>form changes. form_of pb (section_of s m) = Inr form \<and> save_form pb form = Inr changes
    \<and> apply_changes pb s changes m = (None, m)"
proof -
  let ?cfs = "List.map_filter (section_field s m) (msg_fields m)"
  have "list_all (\<lambda>cf. \<exists>p. and_then (widget_for_field pb cf) (\<lambda>w. Inr (cf, w)) = Inr p \<and> survives pb s m cf p) ?cfs"
    unfolding list_all_iff using field_survives [OF assms] by blast
  from collect_all [OF this] obtain form where form: "form_of pb (section_of s m) = Inr form"
    and good: "list_all2 (survives pb s m) ?cfs form" by (auto simp: form_of_def section_of_def)
  let ?kept = "filter (\<lambda>(f, w). \<not> cf_read_only f) form"
  have "\<exists>v. (case p of (f, w) \<Rightarrow> and_then (read_widget pb f w) (\<lambda>v. Inr (cf_name f, v))) = Inr v
      \<and> (case v of (n, x) \<Rightarrow> apply_change pb s n x m = (None, m))" if "p \<in> set ?kept" for p
  proof -
    from that have "p \<in> set form" "\<not> cf_read_only (fst p)" by auto
    then obtain cf where "survives pb s m cf p" using good by (auto simp: list_all2_conv_all_nth in_set_conv_nth)
    with \<open>\<not> cf_read_only (fst p)\<close> show ?thesis by (cases p) (auto simp: and_then_def survives_def)
  qed
  then have "list_all (\<lambda>p. \<exists>v. (case p of (f, w) \<Rightarrow> and_then (read_widget pb f w) (\<lambda>v. Inr (cf_name f, v))) = Inr v
      \<and> (case v of (n, x) \<Rightarrow> apply_change pb s n x m = (None, m))) ?kept"
    unfolding list_all_iff by blast
  from collect_all [OF this] obtain changes where changes: "save_form pb form = Inr changes"
    and same: "list_all2 (\<lambda>p v. case v of (n, x) \<Rightarrow> apply_change pb s n x m = (None, m)) ?kept changes"
    by (auto simp: save_form_def)
  from same have "list_all (\<lambda>(n, x). apply_change pb s n x m = (None, m)) changes"
    by (auto simp: list_all2_conv_all_nth list_all_length)
  from apply_changes_same [OF this] form changes show ?thesis by blast
qed

section \<open>Witness\<close>

definition sample_form_pb :: protobuf where
  "sample_form_pb = sample_pb\<lparr>pb_text := \<lambda>v. ''0.5'', pb_float_of := \<lambda>s. if s = ''0.5'' then Some (1/2) else None\<rparr>"

definition sample_lora :: "pyval \<Rightarrow> pyval \<Rightarrow> message" where
  "sample_lora preset owner = \<lparr>msg_fields =
       [\<lparr>fd_name = ''preset'', fd_type = TEnum [(''LONG'', 0), (''SHORT'', 1)], fd_repeated = False\<rparr>,
        \<lparr>fd_name = ''offset'', fd_type = TFloat, fd_repeated = False\<rparr>,
        \<lparr>fd_name = ''ignore'', fd_type = TInt, fd_repeated = True\<rparr>,
        \<lparr>fd_name = ''owner'', fd_type = TString, fd_repeated = False\<rparr>],
     msg_values = \<lambda>n. if n = ''preset'' then preset else if n = ''offset'' then PFloat (1/2)
       else if n = ''ignore'' then PList [PInt 7, PInt 42] else owner\<rparr>"

theorem form_round_trip_witness:
  "\<exists>form changes. form_of sample_form_pb (section_of ''lora'' (sample_lora (PInt 1) (PStr ''me''))) = Inr form
     \<and> save_form sample_form_pb form = Inr changes
     \<and> apply_changes sample_form_pb ''lora'' changes (sample_lora (PInt 1) (PStr ''me''))
       = (None, sample_lora (PInt 1) (PStr ''me''))"
proof (rule form_round_trip)
  show "\<forall>f \<in> set (msg_fields (sample_lora (PInt 1) (PStr ''me''))).
      field_ready ''lora'' (sample_lora (PInt 1) (PStr ''me'')) f"
  proof -
    have "strip ''me'' = ''me''" by code_simp
    then show ?thesis by (simp add: sample_lora_def field_ready_def WRITE_ONLY_def READ_ONLY_def)
  qed
  have "listable ''0.5''" by code_simp
  then show "\<forall>f \<in> set (msg_fields (sample_lora (PInt 1) (PStr ''me''))).
      reads_back sample_form_pb (msg_values (sample_lora (PInt 1) (PStr ''me'')) (fd_name f))"
    by (auto simp: sample_lora_def reads_back_def sample_form_pb_def)
qed (simp_all add: sample_lora_def proper_message_def message_typed_def field_typed_def has_type_def
    takes_back_def sample_form_pb_def sample_pb_def)

text \<open>An enum value the program does not know is offered by the form and refused when it is saved, so the
  section can no longer be saved at all; and a text with blanks at its ends comes back without them.\<close>

definition saved_lora :: "pyval \<Rightarrow> pyval \<Rightarrow> string + (string option \<times> message)" where
  "saved_lora preset owner =
     and_then (form_of sample_form_pb (section_of ''lora'' (sample_lora preset owner))) (\<lambda>form.
     and_then (save_form sample_form_pb form) (\<lambda>changes.
     Inr (apply_changes sample_form_pb ''lora'' changes (sample_lora preset owner))))"

lemma unknown_enum_never_saves:
  "(case saved_lora (PInt 9) (PStr ''me'') of Inr (e, _) \<Rightarrow> e = Some ''invalid value for preset'' | _ \<Rightarrow> False)"
  by code_simp

lemma padded_text_is_cut:
  "(case saved_lora (PInt 1) (PStr ''me '') of
      Inr (None, m) \<Rightarrow> msg_values m ''owner'' = PStr ''me'' | _ \<Rightarrow> False)"
  by code_simp

section \<open>The page\<close>

text \<open>The page's data and which of its controls are enabled.\<close>

record page =
  pg_connected :: bool
  pg_snapshot :: "device_snapshot option"
  pg_release :: "fw_release option"
  pg_bundle :: "fw_bundle option"
  pg_backed_up :: bool
  pg_tabs :: bool
  pg_refresh :: bool
  pg_check :: bool
  pg_download :: bool
  pg_update :: bool
  pg_full :: bool
  pg_probe :: bool
  pg_backup_flash :: bool
  pg_backup_profile :: bool
  pg_restore_profile :: bool
  pg_console_start :: bool
  pg_console_stop :: bool
  pg_serial_open :: bool
  pg_console_port :: string

datatype page_request =
    FirmwareDiscover string bool
  | FirmwarePrepare fw_release string pyval
  | FirmwareFlash fw_bundle bool "usb_identity option"
  | FirmwareProbe "usb_identity option"
  | FirmwareBackup string "usb_identity option"
  | ProfileBackup string
  | ProfileRestore string
  | SerialConsoleStart string int
  | SerialConsoleStop string
  | FactoryResetRequest bool
  | FixedPositionRequest pyfloat pyfloat int

definition set_connected :: "bool \<Rightarrow> page \<Rightarrow> page" where
  "set_connected c p =
     (let p = p\<lparr>pg_connected := c, pg_tabs := c, pg_refresh := c, pg_check := c, pg_backup_profile := c,
            pg_restore_profile := c, pg_backup_flash := c, pg_probe := c,
            pg_console_start := c \<and> \<not> pg_serial_open p\<rparr>
      in if c then p else p\<lparr>pg_snapshot := None, pg_update := False, pg_full := False\<rparr>)"

definition page_new :: page where
  "page_new = set_connected False \<lparr>pg_connected = False, pg_snapshot = None, pg_release = None, pg_bundle = None,
     pg_backed_up = False, pg_tabs = True, pg_refresh = True, pg_check = True, pg_download = False,
     pg_update = False, pg_full = False, pg_probe = True, pg_backup_flash = True, pg_backup_profile = True,
     pg_restore_profile = True, pg_console_start = True, pg_console_stop = False, pg_serial_open = False,
     pg_console_port = []\<rparr>"

definition set_snapshot :: "device_snapshot \<Rightarrow> page \<Rightarrow> page" where
  "set_snapshot s p =
     (set_connected (dn_serial_port s \<noteq> None) (p\<lparr>pg_snapshot := Some s\<rparr>))
       \<lparr>pg_release := None, pg_bundle := None, pg_backed_up := False, pg_download := False,
        pg_update := False, pg_full := False\<rparr>"

definition set_firmware_release :: "fw_release \<Rightarrow> page \<Rightarrow> page" where
  "set_firmware_release r p = p\<lparr>pg_release := Some r, pg_download := True\<rparr>"

definition set_firmware_bundle :: "fw_bundle \<Rightarrow> page \<Rightarrow> page" where
  "set_firmware_bundle b p = p\<lparr>pg_bundle := Some b, pg_update := True, pg_full := True\<rparr>"

text \<open>The progress bar's value, out of 1000.\<close>

definition firmware_progress :: "int \<Rightarrow> int \<Rightarrow> int" where
  "firmware_progress n all =
     (if all \<le> 0 then 0 else min 1000 (trunc (of_int (n * 1000) / of_int all)))"

definition firmware_completed :: "string \<Rightarrow> bool \<Rightarrow> page \<Rightarrow> page" where
  "firmware_completed op success p =
     (let p = (if op = ''discover'' then p\<lparr>pg_check := True\<rparr>
               else if op = ''prepare'' \<and> \<not> success then p\<lparr>pg_download := pg_release p \<noteq> None\<rparr> else p)
      in if op = ''flash''
         then p\<lparr>pg_update := \<not> success \<and> pg_bundle p \<noteq> None, pg_full := \<not> success \<and> pg_bundle p \<noteq> None\<rparr>
         else if op = ''probe'' then p\<lparr>pg_probe := pg_connected p\<rparr>
         else if op = ''backup_flash'' then p\<lparr>pg_backup_flash := pg_connected p\<rparr> else p)"

definition profile_completed :: "string \<Rightarrow> bool \<Rightarrow> page \<Rightarrow> page" where
  "profile_completed op success p =
     (let p = p\<lparr>pg_backup_profile := pg_connected p, pg_restore_profile := pg_connected p\<rparr>
      in if op = ''backup'' \<and> success then p\<lparr>pg_backed_up := True\<rparr> else p)"

type_synonym page_step = "page \<Rightarrow> page \<times> page_request list"

definition discover_firmware :: "bool \<Rightarrow> page_step" where
  "discover_firmware prerelease p =
     (case pg_snapshot p of
        Some s \<Rightarrow> if truthy_str (dn_serial_port s)
                  then (p\<lparr>pg_check := False\<rparr>, [FirmwareDiscover (dn_pio_env s) prerelease]) else (p, [])
      | None \<Rightarrow> (p, []))"

definition prepare_firmware :: page_step where
  "prepare_firmware p =
     (case (pg_snapshot p, pg_release p) of
        (Some s, Some r) \<Rightarrow> (p\<lparr>pg_download := False\<rparr>, [FirmwarePrepare r (dn_pio_env s) (dn_hw_model s)])
      | _ \<Rightarrow> (p, []))"

definition usb_of :: "device_snapshot \<Rightarrow> usb_identity" where
  "usb_of s = (dn_usb_vid s, dn_usb_pid s, dn_usb_serial s)"

definition expected_usb :: "page \<Rightarrow> usb_identity option" where
  "expected_usb p = map_option usb_of (pg_snapshot p)"

definition with_ending :: "string \<Rightarrow> string \<Rightarrow> string" where
  "with_ending ending path = (if ends_with ending (lower path) then path else path @ ending)"

text \<open>A cancelled file dialog answers the empty text.\<close>

definition backup_configuration :: "string \<Rightarrow> page_step" where
  "backup_configuration destination p =
     (if pg_snapshot p = None \<or> destination = [] then (p, [])
      else (p\<lparr>pg_backup_profile := False\<rparr>, [ProfileBackup (with_ending ''.cfg'' destination)]))"

definition restore_configuration :: "string \<Rightarrow> bool \<Rightarrow> page_step" where
  "restore_configuration source yes p =
     (if source = [] \<or> \<not> yes then (p, []) else (p\<lparr>pg_restore_profile := False\<rparr>, [ProfileRestore source]))"

definition request_probe :: page_step where
  "request_probe p =
     (if pg_snapshot p = None then (p, []) else (p\<lparr>pg_probe := False\<rparr>, [FirmwareProbe (expected_usb p)]))"

definition backup_raw_flash :: "string \<Rightarrow> bool \<Rightarrow> page_step" where
  "backup_raw_flash destination yes p =
     (if pg_snapshot p = None \<or> destination = [] \<or> \<not> yes then (p, [])
      else (p\<lparr>pg_backup_flash := False\<rparr>, [FirmwareBackup (with_ending ''.bin'' destination) (expected_usb p)]))"

definition request_serial_console :: "int \<Rightarrow> page_step" where
  "request_serial_console baud p =
     (case pg_snapshot p of
        Some s \<Rightarrow>
          (case dn_serial_port s of
             Some (c # cs) \<Rightarrow> (p\<lparr>pg_console_start := False\<rparr>, [SerialConsoleStart (c # cs) baud])
           | _ \<Rightarrow> (p, []))
      | None \<Rightarrow> (p, []))"

definition start_serial_console :: "string \<Rightarrow> bool \<Rightarrow> page \<Rightarrow> page \<times> bool" where
  "start_serial_console port opens p =
     (let p = p\<lparr>pg_console_port := port\<rparr>
      in if opens then (p\<lparr>pg_serial_open := True, pg_console_stop := True\<rparr>, True)
         else (p\<lparr>pg_console_start := pg_connected p\<rparr>, False))"

definition stop_serial_console :: page_step where
  "stop_serial_console p =
     (p\<lparr>pg_serial_open := False, pg_console_stop := False\<rparr>, [SerialConsoleStop (pg_console_port p)])"

text \<open>The answers to the dialogs: to the warning that nothing was backed up, the phrase typed (if the
  dialog was accepted), and to the question before an update.\<close>

definition erase_phrase :: "device_snapshot \<Rightarrow> string" where
  "erase_phrase s = ''ERASE '' @ dn_pio_env s"

definition confirm_flash :: "bool \<Rightarrow> bool \<Rightarrow> string option \<Rightarrow> page_step" where
  "confirm_flash full yes typed p =
     (case (pg_snapshot p, pg_bundle p) of
        (Some s, Some b) \<Rightarrow>
          if (if full then (pg_backed_up p \<or> yes) \<and> typed = Some (erase_phrase s) else yes)
          then (p\<lparr>pg_update := False, pg_full := False\<rparr>, [FirmwareFlash b full (expected_usb p)])
          else (p, [])
      | _ \<Rightarrow> (p, []))"

definition confirm_factory_reset :: "bool \<Rightarrow> string option \<Rightarrow> page_step" where
  "confirm_factory_reset full typed p =
     (p, if typed = Some (if full then ''ERASE'' else ''RESET'') then [FactoryResetRequest full] else [])"

definition set_fixed_position_form ::
    "(string \<Rightarrow> pyfloat option) \<Rightarrow> string \<Rightarrow> string \<Rightarrow> int \<Rightarrow> page_step" where
  "set_fixed_position_form float_of lat lon alt p =
     (case (float_of lat, float_of lon) of
        (Some x, Some y) \<Rightarrow>
          (p, if (-90 \<le> x \<and> x \<le> 90) \<and> (-180 \<le> y \<and> y \<le> 180) then [FixedPositionRequest x y alt] else [])
      | _ \<Rightarrow> (p, []))"

section \<open>The channel form\<close>

record channel_form =
  cm_index :: "int option"
  cm_name :: string
  cm_role :: int
  cm_uplink :: bool
  cm_downlink :: bool
  cm_precision :: int
  cm_psk :: string

definition load_channel :: "channel_control list \<Rightarrow> int option \<Rightarrow> channel_form \<Rightarrow> channel_form" where
  "load_channel channels current cm =
     (case Option.bind current (\<lambda>i. find (\<lambda>c. cc_index c = i) (rev channels)) of
        None \<Rightarrow> cm\<lparr>cm_index := current\<rparr>
      | Some c \<Rightarrow> \<lparr>cm_index = current, cm_name = cc_name c, cm_role = cc_role c, cm_uplink = cc_uplink c,
           cm_downlink = cc_downlink c, cm_precision = cc_precision c, cm_psk = []\<rparr>)"

definition save_channel :: "channel_form \<Rightarrow> pydict option" where
  "save_channel cm =
     map_option (\<lambda>i. [(''index'', PInt i), (''name'', PStr (cm_name cm)), (''role'', PInt (cm_role cm)),
        (''uplink_enabled'', PBool (cm_uplink cm)), (''downlink_enabled'', PBool (cm_downlink cm)),
        (''position_precision'', PInt (cm_precision cm)), (''psk'', PStr (cm_psk cm))]) (cm_index cm)"

section \<open>Handing over the port\<close>

text \<open>The main window's part: what waits for the disconnect, the single-shot timers, and in order what it
  asked of the others: flash requests accepted (with the snapshot they were confirmed for), disconnects,
  connections to a port, and jobs of the firmware worker.\<close>

datatype window_timer =
    StartFlash fw_bundle bool "usb_identity option"
  | StartProbe "usb_identity option"
  | StartBackup string "usb_identity option"
  | StartConsole string int
  | ConnectSerial string

datatype fw_job =
    FlashJob fw_bundle string bool "usb_identity option"
  | ProbeJob string "usb_identity option"
  | BackupJob string string "usb_identity option"

record window =
  win_page :: page
  win_connected :: bool
  win_snapshot :: "device_snapshot option"
  win_flash_port :: "string option"
  win_pending_flash :: "(fw_bundle \<times> bool \<times> usb_identity option) option"
  win_pending_probe :: "usb_identity option"
  win_pending_backup :: "(string \<times> usb_identity option) option"
  win_pending_console :: "(string \<times> int) option"
  win_timers :: "window_timer list"
  win_disconnects :: nat
  win_connects :: "string list"
  win_jobs :: "fw_job list"
  win_other :: "page_request list"

definition window_new :: window where
  "window_new = \<lparr>win_page = page_new, win_connected = False, win_snapshot = None, win_flash_port = None,
     win_pending_flash = None, win_pending_probe = None, win_pending_backup = None, win_pending_console = None,
     win_timers = [], win_disconnects = 0, win_connects = [], win_jobs = [], win_other = []\<rparr>"

definition usb_ready :: "window \<Rightarrow> string option" where
  "usb_ready w =
     (if \<not> win_connected w then None
      else case win_snapshot w of
        Some s \<Rightarrow> if truthy_str (dn_serial_port s) then dn_serial_port s else None
      | None \<Rightarrow> None)"

definition on_flash_requested :: "fw_bundle \<Rightarrow> bool \<Rightarrow> usb_identity option \<Rightarrow> window \<Rightarrow> window" where
  "on_flash_requested b full usb w =
     (case usb_ready w of
        None \<Rightarrow> w
      | Some port \<Rightarrow> w\<lparr>win_flash_port := Some port, win_pending_flash := Some (b, full, usb),
          win_disconnects := win_disconnects w + 1\<rparr>)"

definition release_for_firmware :: "window \<Rightarrow> bool \<times> window" where
  "release_for_firmware w =
     (case usb_ready w of None \<Rightarrow> (False, w) | Some port \<Rightarrow> (True, w\<lparr>win_flash_port := Some port\<rparr>))"

definition on_probe_requested :: "usb_identity option \<Rightarrow> window \<Rightarrow> window" where
  "on_probe_requested usb w =
     (case release_for_firmware w of
        (False, w) \<Rightarrow> w
      | (True, w) \<Rightarrow> w\<lparr>win_pending_probe := usb, win_disconnects := win_disconnects w + 1\<rparr>)"

definition on_backup_requested :: "string \<Rightarrow> usb_identity option \<Rightarrow> window \<Rightarrow> window" where
  "on_backup_requested destination usb w =
     (case release_for_firmware w of
        (False, w) \<Rightarrow> w
      | (True, w) \<Rightarrow> w\<lparr>win_pending_backup := Some (destination, usb), win_disconnects := win_disconnects w + 1\<rparr>)"

definition on_console_requested :: "string \<Rightarrow> int \<Rightarrow> window \<Rightarrow> window" where
  "on_console_requested port baud w =
     (if \<not> win_connected w then w
      else case win_snapshot w of
        Some s \<Rightarrow> if dn_serial_port s \<noteq> Some port then w
                  else w\<lparr>win_pending_console := Some (port, baud), win_disconnects := win_disconnects w + 1\<rparr>
      | None \<Rightarrow> w)"

definition on_console_stopped :: "string \<Rightarrow> window \<Rightarrow> window" where
  "on_console_stopped port w =
     (if port = [] then w else w\<lparr>win_timers := win_timers w @ [ConnectSerial port]\<rparr>)"

definition on_disconnected :: "window \<Rightarrow> window" where
  "on_disconnected w =
     (let w = w\<lparr>win_page := set_connected False (win_page w), win_snapshot := None\<rparr>
      in case win_pending_flash w of
           Some (b, full, usb) \<Rightarrow>
             w\<lparr>win_pending_flash := None, win_timers := win_timers w @ [StartFlash b full usb]\<rparr>
         | None \<Rightarrow>
        (case win_pending_probe w of
           Some usb \<Rightarrow> w\<lparr>win_pending_probe := None, win_timers := win_timers w @ [StartProbe (Some usb)]\<rparr>
         | None \<Rightarrow>
        (case win_pending_backup w of
           Some (destination, usb) \<Rightarrow>
             w\<lparr>win_pending_backup := None, win_timers := win_timers w @ [StartBackup destination usb]\<rparr>
         | None \<Rightarrow>
        (case win_pending_console w of
           Some (port, baud) \<Rightarrow>
             w\<lparr>win_pending_console := None, win_timers := win_timers w @ [StartConsole port baud]\<rparr>
         | None \<Rightarrow> w))))"

definition on_device_controls_updated :: "device_snapshot \<Rightarrow> window \<Rightarrow> window" where
  "on_device_controls_updated s w = w\<lparr>win_snapshot := Some s, win_page := set_snapshot s (win_page w)\<rparr>"

definition on_firmware_completed :: "string \<Rightarrow> bool \<Rightarrow> window \<Rightarrow> window" where
  "on_firmware_completed op success w =
     (let w = w\<lparr>win_page := firmware_completed op success (win_page w)\<rparr>
      in if op \<in> {''flash'', ''probe'', ''backup_flash''}
         then (case win_flash_port w of
                 Some (c # cs) \<Rightarrow>
                   w\<lparr>win_flash_port := None, win_timers := win_timers w @ [ConnectSerial (c # cs)]\<rparr>
               | _ \<Rightarrow> w)
         else w)"

text \<open>A timer that fires; \<open>opens\<close> says whether the serial console can be opened.\<close>

definition fire :: "bool \<Rightarrow> window_timer \<Rightarrow> window \<Rightarrow> window" where
  "fire opens t w =
     (let port = (case win_flash_port w of Some p \<Rightarrow> p | None \<Rightarrow> [])
      in case t of
           StartFlash b full usb \<Rightarrow> w\<lparr>win_jobs := win_jobs w @ [FlashJob b port full usb]\<rparr>
         | StartProbe usb \<Rightarrow> w\<lparr>win_jobs := win_jobs w @ [ProbeJob port usb]\<rparr>
         | StartBackup destination usb \<Rightarrow> w\<lparr>win_jobs := win_jobs w @ [BackupJob port destination usb]\<rparr>
         | StartConsole p baud \<Rightarrow>
             (case start_serial_console p opens (win_page w) of
                (pg, ok) \<Rightarrow>
                  (let w = w\<lparr>win_page := pg\<rparr>
                   in if ok then w else w\<lparr>win_connects := win_connects w @ [p]\<rparr>))
         | ConnectSerial p \<Rightarrow> w\<lparr>win_connects := win_connects w @ [p]\<rparr>)"

text \<open>The page's requests go to the window or straight to a controller.\<close>

definition deliver :: "page_request \<Rightarrow> window \<Rightarrow> window" where
  "deliver r w =
     (case r of
        FirmwareFlash b full usb \<Rightarrow> on_flash_requested b full usb w
      | FirmwareProbe usb \<Rightarrow> on_probe_requested usb w
      | FirmwareBackup destination usb \<Rightarrow> on_backup_requested destination usb w
      | SerialConsoleStart port baud \<Rightarrow> on_console_requested port baud w
      | SerialConsoleStop port \<Rightarrow> on_console_stopped port w
      | _ \<Rightarrow> w\<lparr>win_other := win_other w @ [r]\<rparr>)"

definition page_event :: "bool \<Rightarrow> page_step \<Rightarrow> window \<Rightarrow> window" where
  "page_event enabled f w =
     (if \<not> enabled then w
      else case f (win_page w) of (p, rs) \<Rightarrow> fold deliver rs (w\<lparr>win_page := p\<rparr>))"

datatype window_event =
    StateChange connection_state
  | SnapshotRead device_snapshot
  | LinkClosed
  | ReleaseSeen fw_release
  | BundleDone fw_bundle
  | JobDone string bool
  | ProfileDone string bool
  | ClickCheck bool
  | ClickDownload
  | ClickProbe
  | ClickFlashBackup string bool
  | ClickProfileBackup string
  | ClickProfileRestore string bool
  | ClickFlash bool bool "string option"
  | ClickConsole int
  | ClickConsoleStop
  | TimerFires nat bool

definition window_step :: "window_event \<Rightarrow> window \<Rightarrow> window" where
  "window_step ev w =
     (let p = win_page w
      in case ev of
           StateChange st \<Rightarrow> w\<lparr>win_connected := (st = CONNECTED)\<rparr>
         | SnapshotRead s \<Rightarrow> on_device_controls_updated s w
         | LinkClosed \<Rightarrow> on_disconnected w
         | ReleaseSeen r \<Rightarrow> w\<lparr>win_page := set_firmware_release r p\<rparr>
         | BundleDone b \<Rightarrow> w\<lparr>win_page := set_firmware_bundle b p\<rparr>
         | JobDone op success \<Rightarrow> on_firmware_completed op success w
         | ProfileDone op success \<Rightarrow> w\<lparr>win_page := profile_completed op success p\<rparr>
         | ClickCheck prerelease \<Rightarrow> page_event (pg_check p) (discover_firmware prerelease) w
         | ClickDownload \<Rightarrow> page_event (pg_download p) prepare_firmware w
         | ClickProbe \<Rightarrow> page_event (pg_probe p) request_probe w
         | ClickFlashBackup destination yes \<Rightarrow> page_event (pg_backup_flash p) (backup_raw_flash destination yes) w
         | ClickProfileBackup destination \<Rightarrow> page_event (pg_backup_profile p) (backup_configuration destination) w
         | ClickProfileRestore source yes \<Rightarrow> page_event (pg_restore_profile p) (restore_configuration source yes) w
         | ClickFlash full yes typed \<Rightarrow>
             page_event (if full then pg_full p else pg_update p) (confirm_flash full yes typed) w
         | ClickConsole baud \<Rightarrow> page_event (pg_console_start p) (request_serial_console baud) w
         | ClickConsoleStop \<Rightarrow> page_event (pg_console_stop p) stop_serial_console w
         | TimerFires i opens \<Rightarrow>
             (if i < length (win_timers w)
              then fire opens (win_timers w ! i)
                     (w\<lparr>win_timers := take i (win_timers w) @ drop (Suc i) (win_timers w)\<rparr>)
              else w))"

definition window_run :: "window_event list \<Rightarrow> window \<Rightarrow> window" where
  "window_run evs w = fold window_step evs w"

section \<open>Facts on the hand-over\<close>

type_synonym flash_order = "fw_bundle \<times> bool \<times> usb_identity option"

fun flash_of_job :: "fw_job \<Rightarrow> flash_order option" where
  "flash_of_job (FlashJob b port full usb) = Some (b, full, usb)"
| "flash_of_job _ = None"

fun flash_of_timer :: "window_timer \<Rightarrow> flash_order option" where
  "flash_of_timer (StartFlash b full usb) = Some (b, full, usb)"
| "flash_of_timer _ = None"

text \<open>The flash orders handed to the worker so far, and those on their way.\<close>

definition flash_jobs :: "window \<Rightarrow> flash_order multiset" where
  "flash_jobs w = mset (List.map_filter flash_of_job (win_jobs w))"

definition outstanding :: "window \<Rightarrow> flash_order multiset" where
  "outstanding w = flash_jobs w + mset (List.map_filter flash_of_timer (win_timers w))
     + mset_set (set_option (win_pending_flash w))"

text \<open>What an event confirms: the radio is connected over USB, its snapshot and a bundle are there, and the
  user agreed, for a full erase by typing the phrase that names the radio's target.\<close>

definition confirmation :: "window_event \<Rightarrow> window \<Rightarrow> flash_order multiset" where
  "confirmation ev w =
     (case (ev, pg_snapshot (win_page w), pg_bundle (win_page w)) of
        (ClickFlash full yes typed, Some s, Some b) \<Rightarrow>
          if win_connected w \<and> usb_ready w \<noteq> None
            \<and> (if full then typed = Some (''ERASE '' @ dn_pio_env s) else yes)
          then {#(b, full, Some (dn_usb_vid s, dn_usb_pid s, dn_usb_serial s))#} else {#}
      | _ \<Rightarrow> {#})"

fun confirmations :: "window_event list \<Rightarrow> window \<Rightarrow> flash_order multiset" where
  "confirmations [] w = {#}"
| "confirmations (ev # evs) w = confirmation ev w + confirmations evs (window_step ev w)"

lemma outstanding_cong:
  "win_jobs w' = win_jobs w \<Longrightarrow> win_timers w' = win_timers w \<Longrightarrow> win_pending_flash w' = win_pending_flash w \<Longrightarrow>
    outstanding w' = outstanding w"
  by (simp add: outstanding_def flash_jobs_def)

lemma deliver_outstanding:
  "outstanding (deliver r w) \<subseteq># outstanding w +
     (case r of FirmwareFlash b full usb \<Rightarrow> if usb_ready w = None then {#} else {#(b, full, usb)#} | _ \<Rightarrow> {#})"
  by (cases r) (auto simp: deliver_def on_flash_requested_def on_probe_requested_def on_backup_requested_def
      on_console_requested_def on_console_stopped_def release_for_firmware_def outstanding_def flash_jobs_def
      map_filter_append map_filter_single split: option.splits)

lemma page_event_outstanding:
  assumes "\<And>p' rs. f (win_page w) = (p', rs) \<Longrightarrow> rs = [] \<or> (\<exists>r. rs = [r] \<and> \<not> (\<exists>b full usb. r = FirmwareFlash b full usb))"
  shows "outstanding (page_event enabled f w) \<subseteq># outstanding w"
proof (cases "enabled")
  case True
  obtain p' rs where f: "f (win_page w) = (p', rs)" by (cases "f (win_page w)")
  have same: "outstanding (w\<lparr>win_page := p'\<rparr>) = outstanding w" by (rule outstanding_cong) simp_all
  from assms [OF f] show ?thesis
  proof
    assume "rs = []"
    then show ?thesis using True f same by (simp add: page_event_def)
  next
    assume "\<exists>r. rs = [r] \<and> \<not> (\<exists>b full usb. r = FirmwareFlash b full usb)"
    then obtain r where "rs = [r]" "\<not> (\<exists>b full usb. r = FirmwareFlash b full usb)" by blast
    then show ?thesis
      using True f same deliver_outstanding [of r "w\<lparr>win_page := p'\<rparr>"]
      by (cases r) (simp_all add: page_event_def)
  qed
qed (simp add: page_event_def)

lemma page_event_silent:
  "\<not> (enabled \<and> snd (f (win_page w)) \<noteq> []) \<Longrightarrow> outstanding (page_event enabled f w) = outstanding w"
  by (cases "f (win_page w)") (auto simp: page_event_def outstanding_def flash_jobs_def)

lemma fire_effect:
  "flash_jobs (fire opens t w) = flash_jobs w + mset (List.map_filter flash_of_timer [t])"
  "win_timers (fire opens t w) = win_timers w" "win_pending_flash (fire opens t w) = win_pending_flash w"
  by (cases t; simp add: fire_def flash_jobs_def map_filter_append map_filter_single Let_def split: prod.splits)+

lemma fire_outstanding:
  assumes "i < length (win_timers w)"
  shows "outstanding (fire opens (win_timers w ! i) (w\<lparr>win_timers := take i (win_timers w) @ drop (Suc i) (win_timers w)\<rparr>))
      = outstanding w"
proof -
  have "win_timers w = take i (win_timers w) @ [win_timers w ! i] @ drop (Suc i) (win_timers w)"
    using id_take_nth_drop [OF assms] by simp
  then have "List.map_filter flash_of_timer (win_timers w)
      = List.map_filter flash_of_timer (take i (win_timers w)) @ List.map_filter flash_of_timer [win_timers w ! i]
        @ List.map_filter flash_of_timer (drop (Suc i) (win_timers w))"
    by (metis map_filter_append)
  then have "mset (List.map_filter flash_of_timer (win_timers w))
      = mset (List.map_filter flash_of_timer (take i (win_timers w) @ drop (Suc i) (win_timers w)))
        + mset (List.map_filter flash_of_timer [win_timers w ! i])"
    by (simp add: map_filter_append)
  then show ?thesis
    by (simp add: outstanding_def fire_effect flash_jobs_def [of "w\<lparr>win_timers := x\<rparr>" for x]) (simp add: flash_jobs_def)
qed

lemma step_outstanding: "outstanding (window_step ev w) \<subseteq># outstanding w + confirmation ev w"
proof (cases ev)
  case (ClickFlash full yes typed)
  let ?p = "win_page w"
  let ?en = "if full then pg_full ?p else pg_update ?p"
  show ?thesis
  proof (cases "?en \<and> snd (confirm_flash full yes typed ?p) \<noteq> []")
    case False
    then have "outstanding (page_event ?en (confirm_flash full yes typed) w) = outstanding w"
      by (intro page_event_silent) blast
    then show ?thesis using ClickFlash by (simp add: window_step_def Let_def)
  next
    case True
    then obtain s b where s: "pg_snapshot ?p = Some s" "pg_bundle ?p = Some b"
        "if full then typed = Some (erase_phrase s) else yes"
        "confirm_flash full yes typed ?p = (?p\<lparr>pg_update := False, pg_full := False\<rparr>, [FirmwareFlash b full (Some (usb_of s))])"
      by (auto simp: confirm_flash_def expected_usb_def split: option.splits if_splits)
    let ?w = "w\<lparr>win_page := ?p\<lparr>pg_update := False, pg_full := False\<rparr>\<rparr>"
    have "window_step ev w = deliver (FirmwareFlash b full (Some (usb_of s))) ?w"
      using ClickFlash True s(4) by (simp add: window_step_def page_event_def Let_def)
    moreover have "outstanding ?w = outstanding w" by (rule outstanding_cong) simp_all
    moreover have "usb_ready ?w = usb_ready w" by (simp add: usb_ready_def)
    moreover have "usb_ready w \<noteq> None \<Longrightarrow> win_connected w" by (simp add: usb_ready_def split: if_splits)
    ultimately show ?thesis
      using deliver_outstanding [of "FirmwareFlash b full (Some (usb_of s))" ?w] s ClickFlash
      by (auto simp: confirmation_def usb_of_def erase_phrase_def split: if_splits)
  qed
next
  case LinkClosed
  then show ?thesis
    by (auto simp: window_step_def on_disconnected_def outstanding_def flash_jobs_def map_filter_append
        map_filter_single confirmation_def Let_def split: option.splits)
next
  case (JobDone op success)
  then show ?thesis
    by (auto simp: window_step_def on_firmware_completed_def outstanding_def flash_jobs_def map_filter_append
        map_filter_single confirmation_def Let_def split: option.splits list.splits)
next
  case (TimerFires i opens)
  then show ?thesis using fire_outstanding [of i w opens] by (simp add: window_step_def confirmation_def Let_def)
qed (auto simp: window_step_def on_device_controls_updated_def outstanding_def flash_jobs_def confirmation_def Let_def
    intro!: page_event_outstanding [unfolded outstanding_def flash_jobs_def]
    simp: discover_firmware_def prepare_firmware_def request_probe_def backup_raw_flash_def backup_configuration_def
      restore_configuration_def request_serial_console_def stop_serial_console_def
    split: option.splits if_splits list.splits)

lemma run_outstanding: "outstanding (window_run evs w) \<subseteq># outstanding w + confirmations evs w"
proof (induction evs arbitrary: w)
  case (Cons ev evs)
  have "outstanding (window_run evs (window_step ev w)) \<subseteq># outstanding (window_step ev w) + confirmations evs (window_step ev w)"
    by (rule Cons.IH)
  also have "\<dots> \<subseteq># outstanding w + confirmation ev w + confirmations evs (window_step ev w)"
    by (rule subset_mset.add_right_mono) (rule step_outstanding)
  finally show ?case by (simp add: window_run_def add.assoc)
qed (simp add: window_run_def)


section \<open>Runs\<close>

definition sample_snapshot :: "string \<Rightarrow> device_snapshot" where
  "sample_snapshot pio_env = \<lparr>dn_node_id = PStr ''!1'', dn_long_name = PStr [], dn_short_name = PStr [],
     dn_hw_model = PStr [], dn_firmware_version = [], dn_pio_env = pio_env, dn_serial_port = Some ''/dev/a'',
     dn_usb_vid = Some 1, dn_usb_pid = Some 2, dn_usb_serial = None, dn_can_shutdown = False, dn_has_wifi = False,
     dn_has_bluetooth = False, dn_sections = [], dn_channels = []\<rparr>"

definition link_up :: "string \<Rightarrow> window_event list" where
  "link_up pio_env = [StateChange CONNECTED, SnapshotRead (sample_snapshot pio_env)]"

text \<open>A confirmed full erase is carried out after the link is closed, on the radio's port, and the radio is
  connected again afterwards.\<close>

lemma full_erase_runs:
  "(let w = window_run (link_up ''t'' @ [ReleaseSeen sample_release, ClickDownload, BundleDone sample_bundle,
        ClickFlash True True (Some ''ERASE t''), StateChange DISCONNECTING, LinkClosed, TimerFires 0 True,
        JobDone ''flash'' True, TimerFires 0 True]) window_new
    in win_jobs w = [FlashJob sample_bundle ''/dev/a'' True (Some (Some 1, Some 2, None))]
       \<and> win_disconnects w = 1 \<and> win_connects w = [''/dev/a''])"
  by code_simp

text \<open>A bundle that becomes ready after another radio was connected is offered for that radio: here one for
  the target \<open>t\<close> is flashed to a radio whose target is \<open>u\<close>.\<close>

lemma stale_bundle_is_flashed:
  "(let w = window_run (link_up ''t'' @ [ReleaseSeen sample_release, ClickDownload, StateChange DISCONNECTED, LinkClosed]
        @ link_up ''u'' @ [BundleDone sample_bundle, ClickFlash False True None, StateChange DISCONNECTING, LinkClosed,
          TimerFires 0 True]) window_new
    in fb_pio_env sample_bundle = ''t'' \<and> map_option dn_pio_env (win_snapshot (window_run
          (link_up ''t'' @ [LinkClosed] @ link_up ''u'') window_new)) = Some ''u''
       \<and> win_jobs w = [FlashJob sample_bundle ''/dev/a'' False (Some (Some 1, Some 2, None))])"
  by code_simp

text \<open>Two orders given before the link closes: the second one waits for the next disconnect, whenever it
  comes, and is then run without a port.\<close>

lemma second_order_waits:
  "(let w = window_run (link_up ''t'' @ [ClickProbe, ClickFlashBackup ''b.bin'' True, StateChange DISCONNECTING, LinkClosed,
        TimerFires 0 True, JobDone ''probe'' True, TimerFires 0 True] @ link_up ''t''
        @ [StateChange DISCONNECTED, LinkClosed, TimerFires 0 True]) window_new
    in win_jobs w = [ProbeJob ''/dev/a'' (Some (Some 1, Some 2, None)),
         BackupJob [] ''b.bin'' (Some (Some 1, Some 2, None))])"
  by code_simp

end
