(* ===== verification/Bands.thy ===== *)
theory Bands
  imports PyValue
begin

text \<open>
  \<open>analytics/lora_bands.py\<close>, \<open>analytics/lora_airtime.py\<close> and \<open>analytics/sdr_presets.py\<close>: the band plans,
  the frequency of a channel slot, the time a packet is on air, and the capture presets built from
  them; the explanatory notes of the presets are left out.  Floating point numbers are rationals here; the slot counts, the only place where a rounded
  quotient is truncated, are the same for every region and bandwidth of the tables.
\<close>

section \<open>Band plans\<close>

record band_range =
  br_name :: string
  br_start :: pyfloat
  br_end :: pyfloat

definition br_center :: "band_range \<Rightarrow> pyfloat" where
  "br_center b = (br_start b + br_end b) / 2"

definition br_span :: "band_range \<Rightarrow> pyfloat" where
  "br_span b = br_end b - br_start b"

record channel_marker =
  mk_label :: string
  mk_center :: pyfloat
  mk_bandwidth :: pyfloat

definition MESHTASTIC_REGIONS :: "(string \<times> band_range) list" where
  "MESHTASTIC_REGIONS =
    [(''US'', \<lparr>br_name = ''US 902-928'', br_start = 902, br_end = 928\<rparr>),
     (''EU_433'', \<lparr>br_name = ''EU 433'', br_start = 433, br_end = 434\<rparr>),
     (''EU_868'', \<lparr>br_name = ''EU 868'', br_start = 4347/5, br_end = 17393/20\<rparr>),
     (''CN'', \<lparr>br_name = ''CN 470-510'', br_start = 470, br_end = 510\<rparr>),
     (''JP'', \<lparr>br_name = ''JP 920-928'', br_start = 4604/5, br_end = 4639/5\<rparr>),
     (''ANZ'', \<lparr>br_name = ''ANZ 915-928'', br_start = 915, br_end = 928\<rparr>),
     (''ANZ_433'', \<lparr>br_name = ''ANZ 433'', br_start = 8661/20, br_end = 43479/100\<rparr>),
     (''KR'', \<lparr>br_name = ''KR 920-923'', br_start = 920, br_end = 923\<rparr>),
     (''TW'', \<lparr>br_name = ''TW 920-925'', br_start = 920, br_end = 925\<rparr>),
     (''RU'', \<lparr>br_name = ''RU 868'', br_start = 8687/10, br_end = 4346/5\<rparr>),
     (''IN'', \<lparr>br_name = ''IN 865-867'', br_start = 865, br_end = 867\<rparr>),
     (''NZ_865'', \<lparr>br_name = ''NZ 865'', br_start = 864, br_end = 868\<rparr>),
     (''TH'', \<lparr>br_name = ''TH 920-925'', br_start = 920, br_end = 925\<rparr>),
     (''UA_433'', \<lparr>br_name = ''UA 433'', br_start = 433, br_end = 4347/10\<rparr>),
     (''UA_868'', \<lparr>br_name = ''UA 868'', br_start = 868, br_end = 4343/5\<rparr>),
     (''MY_433'', \<lparr>br_name = ''MY 433'', br_start = 433, br_end = 435\<rparr>),
     (''MY_919'', \<lparr>br_name = ''MY 919-924'', br_start = 919, br_end = 924\<rparr>),
     (''SG_923'', \<lparr>br_name = ''SG 917-925'', br_start = 917, br_end = 925\<rparr>),
     (''LORA_24'', \<lparr>br_name = ''2.4 GHz'', br_start = 2400, br_end = 4967/2\<rparr>)]"

text \<open>The modem presets: bandwidth in kHz and spreading factor.\<close>

definition MESHTASTIC_PRESETS :: "(string \<times> pyfloat \<times> nat) list" where
  "MESHTASTIC_PRESETS =
    [(''SHORT_TURBO'', (500, 7)),
     (''SHORT_FAST'', (250, 7)),
     (''SHORT_SLOW'', (250, 8)),
     (''MEDIUM_FAST'', (250, 9)),
     (''MEDIUM_SLOW'', (250, 10)),
     (''LONG_FAST'', (250, 11)),
     (''LONG_MODERATE'', (125, 11)),
     (''LONG_SLOW'', (125, 12)),
     (''VERY_LONG_SLOW'', (125/2, 12))]"

record single_channel_plan =
  sc_region :: string
  sc_freq :: pyfloat
  sc_bandwidth :: pyfloat
  sc_sf :: nat

definition MESHCORE_PLANS :: "(string \<times> single_channel_plan) list" where
  "MESHCORE_PLANS =
    [(''US'', \<lparr>sc_region = ''US / ANZ 915'', sc_freq = 36421/40, sc_bandwidth = 250, sc_sf = 11\<rparr>),
     (''EU'', \<lparr>sc_region = ''EU 869'', sc_freq = 34781/40, sc_bandwidth = 250, sc_sf = 11\<rparr>),
     (''UK'', \<lparr>sc_region = ''UK 869'', sc_freq = 34781/40, sc_bandwidth = 250, sc_sf = 11\<rparr>),
     (''AU_NZ'', \<lparr>sc_region = ''AU / NZ 915'', sc_freq = 36621/40, sc_bandwidth = 250, sc_sf = 11\<rparr>),
     (''IN'', \<lparr>sc_region = ''IN 866'', sc_freq = 34621/40, sc_bandwidth = 250, sc_sf = 11\<rparr>),
     (''JP'', \<lparr>sc_region = ''JP 923'', sc_freq = 3693/4, sc_bandwidth = 250, sc_sf = 11\<rparr>),
     (''433'', \<lparr>sc_region = ''433 ISM'', sc_freq = 867/2, sc_bandwidth = 250, sc_sf = 11\<rparr>)]"

definition RETICULUM_PLANS :: "(string \<times> single_channel_plan) list" where
  "RETICULUM_PLANS =
    [(''US'', \<lparr>sc_region = ''US 915 ISM'', sc_freq = 915, sc_bandwidth = 125, sc_sf = 8\<rparr>),
     (''EU'', \<lparr>sc_region = ''EU 868 ISM'', sc_freq = 4336/5, sc_bandwidth = 125, sc_sf = 8\<rparr>),
     (''UK'', \<lparr>sc_region = ''UK 869 ISM'', sc_freq = 34781/40, sc_bandwidth = 125, sc_sf = 8\<rparr>),
     (''AU_NZ'', \<lparr>sc_region = ''AU / NZ 915'', sc_freq = 915, sc_bandwidth = 125, sc_sf = 8\<rparr>),
     (''IN'', \<lparr>sc_region = ''IN 865 ISM'', sc_freq = 4328/5, sc_bandwidth = 125, sc_sf = 8\<rparr>),
     (''JP'', \<lparr>sc_region = ''JP 920 ISM'', sc_freq = 4604/5, sc_bandwidth = 125, sc_sf = 8\<rparr>),
     (''433'', \<lparr>sc_region = ''433 ISM'', sc_freq = 867/2, sc_bandwidth = 125, sc_sf = 8\<rparr>)]"

definition meshtastic_num_channels :: "string \<Rightarrow> pyfloat \<Rightarrow> int" where
  "meshtastic_num_channels region bandwidth_khz =
     (case map_of MESHTASTIC_REGIONS region of
        None \<Rightarrow> 0
      | Some band \<Rightarrow>
          if bandwidth_khz \<le> 0 then 0 else max (trunc (br_span band / (bandwidth_khz / 1000))) 1)"

definition meshtastic_channel_frequency :: "string \<Rightarrow> pyfloat \<Rightarrow> int \<Rightarrow> pyfloat option" where
  "meshtastic_channel_frequency region bandwidth_khz channel_num =
     (case map_of MESHTASTIC_REGIONS region of
        None \<Rightarrow> None
      | Some band \<Rightarrow>
          (let count = meshtastic_num_channels region bandwidth_khz
           in if count = 0 then None
              else let slot = channel_num mod count
                   in Some (br_start band + bandwidth_khz / 2000 + of_int slot * bandwidth_khz / 1000)))"

definition preset_of :: "string option \<Rightarrow> pyfloat \<times> nat" where
  "preset_of preset =
     (case map_of MESHTASTIC_PRESETS (case preset of Some p \<Rightarrow> p | None \<Rightarrow> []) of
        Some p \<Rightarrow> p | None \<Rightarrow> (250, 11))"

definition meshtastic_markers ::
    "string \<Rightarrow> string option \<Rightarrow> int \<Rightarrow> int \<Rightarrow> string option \<Rightarrow> channel_marker list" where
  "meshtastic_markers region preset channel_num include_neighbours slot_label =
     (let bw = fst (preset_of preset)
      in List.map_filter (\<lambda>offset.
           case meshtastic_channel_frequency region bw (channel_num + offset) of
             None \<Rightarrow> None
           | Some freq \<Rightarrow>
               Some \<lparr>mk_label =
                   (if offset \<noteq> 0 then ''Ch '' @ show_int (channel_num + offset)
                    else if channel_num = 0
                    then ''Ch 0 (nominal '' @ emdash @ '' firmware auto-selects)''
                    else case slot_label of
                      Some (c # cs) \<Rightarrow> c # cs
                    | _ \<Rightarrow> ''Ch '' @ show_int channel_num @ '' (active)''),
                 mk_center = freq, mk_bandwidth = bw\<rparr>)
         [- include_neighbours .. include_neighbours])"

definition single_marker :: "string \<Rightarrow> (string \<times> single_channel_plan) list \<Rightarrow> string \<Rightarrow> channel_marker list" where
  "single_marker technology plans region_key =
     (case map_of plans region_key of
        None \<Rightarrow> []
      | Some plan \<Rightarrow> [\<lparr>mk_label = technology @ '' '' @ sc_region plan, mk_center = sc_freq plan,
          mk_bandwidth = sc_bandwidth plan\<rparr>])"

definition meshcore_markers :: "string \<Rightarrow> channel_marker list" where
  "meshcore_markers = single_marker ''MeshCore'' MESHCORE_PLANS"

definition reticulum_markers :: "string \<Rightarrow> channel_marker list" where
  "reticulum_markers = single_marker ''Reticulum'' RETICULUM_PLANS"

section \<open>Time on air\<close>

record modem_params =
  mp_spreading_factor :: nat
  mp_bandwidth_hz :: pyfloat
  mp_coding_rate :: nat
  mp_preamble_symbols :: nat
  mp_explicit_header :: bool
  mp_crc :: bool

definition modem_params_new :: "nat \<Rightarrow> pyfloat \<Rightarrow> modem_params" where
  "modem_params_new sf bw = \<lparr>mp_spreading_factor = sf, mp_bandwidth_hz = bw, mp_coding_rate = 1,
     mp_preamble_symbols = 8, mp_explicit_header = True, mp_crc = True\<rparr>"

definition symbol_time_ms :: "modem_params \<Rightarrow> pyfloat" where
  "symbol_time_ms p = 2 ^ mp_spreading_factor p / mp_bandwidth_hz p * 1000"

definition low_data_rate_optimise :: "modem_params \<Rightarrow> bool" where
  "low_data_rate_optimise p \<longleftrightarrow> symbol_time_ms p > 16"

definition params_for_preset :: "string option \<Rightarrow> modem_params" where
  "params_for_preset preset = (case preset_of preset of (bw, sf) \<Rightarrow> modem_params_new sf (bw * 1000))"

definition payload_symbols :: "int \<Rightarrow> modem_params \<Rightarrow> int" where
  "payload_symbols payload_bytes p =
     (let crc = (if mp_crc p then 1 else 0); header = (if mp_explicit_header p then 0 else 1);
          optimise = (if low_data_rate_optimise p then 1 else 0); sf = int (mp_spreading_factor p);
          numerator = 8 * payload_bytes - 4 * sf + 28 + 16 * crc - 20 * header;
          denominator = 4 * (sf - 2 * optimise);
          blocks = (if numerator > 0 then max (- (- numerator div denominator)) 0 else 0)
      in 8 + blocks * (int (mp_coding_rate p) + 4))"

definition airtime_ms :: "int \<Rightarrow> modem_params \<Rightarrow> pyfloat" where
  "airtime_ms payload_bytes p =
     (of_int (payload_symbols payload_bytes p) + of_nat (mp_preamble_symbols p) + 17/4) * symbol_time_ms p"

definition airtime_seconds :: "int \<Rightarrow> modem_params \<Rightarrow> pyfloat" where
  "airtime_seconds payload_bytes p = airtime_ms payload_bytes p / 1000"

definition duty_cycle :: "pyfloat \<Rightarrow> pyfloat \<Rightarrow> string + pyfloat" where
  "duty_cycle airtime_s window_s =
     (if window_s \<le> 0 then Inl ''window must be positive'' else Inr (airtime_s / window_s))"

section \<open>Capture presets\<close>

definition PRESET_SPAN_MHZ :: pyfloat where "PRESET_SPAN_MHZ = 2"
definition PRESET_GAIN_DB :: pyfloat where "PRESET_GAIN_DB = 16"
definition US_SLOT :: int where "US_SLOT = 19"

text \<open>Without the note, which is shown as it is.\<close>

record sdr_preset =
  sp_key :: string
  sp_technology :: string
  sp_label :: string
  sp_center_mhz :: pyfloat
  sp_span_mhz :: pyfloat
  sp_gain_db :: pyfloat
  sp_markers :: "channel_marker list"
  sp_region :: "string option"

definition preset_new :: "string \<Rightarrow> string \<Rightarrow> string \<Rightarrow> pyfloat \<Rightarrow> channel_marker list \<Rightarrow> string option \<Rightarrow> sdr_preset" where
  "preset_new key technology lbl center markers region =
     \<lparr>sp_key = key, sp_technology = technology, sp_label = lbl, sp_center_mhz = center,
      sp_span_mhz = PRESET_SPAN_MHZ, sp_gain_db = PRESET_GAIN_DB, sp_markers = markers, sp_region = region\<rparr>"

definition slot_preset ::
    "string \<Rightarrow> string \<Rightarrow> string \<Rightarrow> string \<Rightarrow> int \<Rightarrow> int \<Rightarrow> string \<Rightarrow> string + sdr_preset" where
  "slot_preset key lbl region modem slot neighbours slot_label =
     (case map_of MESHTASTIC_PRESETS modem of
        None \<Rightarrow> Inl ''KeyError''
      | Some (bw, sf) \<Rightarrow>
          (case meshtastic_channel_frequency region bw slot of
             None \<Rightarrow> Inl (region @ '' has no channel plan for '' @ modem)
           | Some center \<Rightarrow>
               Inr (preset_new key ''Meshtastic'' lbl center
                 (meshtastic_markers region (Some modem) slot neighbours (Some slot_label)) (Some region))))"

definition allocation_preset :: "string \<Rightarrow> string \<Rightarrow> string \<Rightarrow> string \<Rightarrow> string + sdr_preset" where
  "allocation_preset key lbl region modem =
     (case map_of MESHTASTIC_PRESETS modem of
        None \<Rightarrow> Inl ''KeyError''
      | Some (bw, sf) \<Rightarrow>
          (let markers = map (\<lambda>i. \<lparr>mk_label = ''Ch '' @ show_int i,
                   mk_center = (case meshtastic_channel_frequency region bw i of Some f \<Rightarrow> f | None \<Rightarrow> 0),
                   mk_bandwidth = bw\<rparr>) [0 .. meshtastic_num_channels region bw - 1]
           in if markers = [] then Inl (region @ '' has no channel plan for '' @ modem)
              else Inr (preset_new key ''Meshtastic'' lbl
                     (sum_list (map mk_center markers) / of_nat (length markers)) markers (Some region))))"

definition single_channel_preset :: "string \<Rightarrow> string \<Rightarrow> string \<Rightarrow> string \<Rightarrow> string + sdr_preset" where
  "single_channel_preset key lbl technology region =
     (case (if technology = ''MeshCore'' then meshcore_markers region else reticulum_markers region) of
        [] \<Rightarrow> Inl (''no '' @ technology @ '' plan for '' @ region)
      | m # ms \<Rightarrow> Inr (preset_new key technology lbl (mk_center m) (m # ms) None))"

text \<open>\<open>PRESETS\<close>: the module raises on import when one of them cannot be built.\<close>

definition PRESETS :: "string + sdr_preset list" where
  "PRESETS = collect
     [slot_preset ''meshtastic-us'' (''Meshtastic'' @ middot @ ''US 902-928'' @ middot @ ''LONG_FAST'') ''US'' ''LONG_FAST''
        US_SLOT 4 (''Ch '' @ show_int US_SLOT @ '' (nominal start)''),
      allocation_preset ''meshtastic-eu-868'' (''Meshtastic'' @ middot @ ''EU 868'' @ middot @ ''LONG_FAST'') ''EU_868'' ''LONG_FAST'',
      allocation_preset ''meshtastic-eu-433'' (''Meshtastic'' @ middot @ ''EU 433'' @ middot @ ''LONG_FAST'') ''EU_433'' ''LONG_FAST'',
      single_channel_preset ''meshcore-us'' (''MeshCore'' @ middot @ ''US / ANZ 915'') ''MeshCore'' ''US'',
      single_channel_preset ''reticulum-us'' (''Reticulum'' @ middot @ ''US 915 ISM'') ''Reticulum'' ''US'',
      single_channel_preset ''reticulum-eu'' (''Reticulum'' @ middot @ ''EU 868 ISM'') ''Reticulum'' ''EU'',
      Inr (preset_new ''lora-generic-915'' (''LoRa'') (''LoRa'' @ middot @ ''unknown modulator, 915 ISM'') 915 [] None)]"

definition get_preset :: "sdr_preset list \<Rightarrow> string \<Rightarrow> sdr_preset option" where
  "get_preset presets key = find (\<lambda>p. sp_key p = key) (rev presets)"

definition default_preset :: "sdr_preset list \<Rightarrow> sdr_preset" where
  "default_preset presets = presets ! 0"

fun technologies :: "string list \<Rightarrow> sdr_preset list \<Rightarrow> string list" where
  "technologies ordered [] = ordered"
| "technologies ordered (p # ps) =
     technologies (if sp_technology p \<in> set ordered then ordered else ordered @ [sp_technology p]) ps"

section \<open>Facts\<close>

lemma trunc_nonneg: "0 \<le> r \<Longrightarrow> trunc r = \<lfloor>r\<rfloor>"
  by (simp add: trunc_def)

lemma channel_frequency_Some:
  assumes "map_of MESHTASTIC_REGIONS region = Some b" "0 < bw"
  shows "\<exists>slot count. meshtastic_channel_frequency region bw channel_num
      = Some (br_start b + bw / 2000 + of_int slot * bw / 1000)
    \<and> count = meshtastic_num_channels region bw \<and> slot = channel_num mod count \<and> 0 \<le> slot \<and> slot < count"
proof -
  let ?n = "meshtastic_num_channels region bw"
  have "1 \<le> ?n" using assms by (simp add: meshtastic_num_channels_def)
  then have "0 \<le> channel_num mod ?n" "channel_num mod ?n < ?n" "?n \<noteq> 0" by simp_all
  then show ?thesis using assms by (auto simp: meshtastic_channel_frequency_def Let_def)
qed

text \<open>C37: a channel slot lies within the region's allocation, whatever channel number is asked for, as
  long as one slot of that bandwidth fits into it at all.\<close>

theorem slot_inside_allocation:
  assumes "map_of MESHTASTIC_REGIONS region = Some b" "0 < bw" "bw / 1000 \<le> br_span b"
  shows "\<exists>f. meshtastic_channel_frequency region bw channel_num = Some f
    \<and> br_start b \<le> f - bw / 2000 \<and> f + bw / 2000 \<le> br_end b"
proof -
  let ?q = "br_span b / (bw / 1000)"
  obtain slot where f: "meshtastic_channel_frequency region bw channel_num
      = Some (br_start b + bw / 2000 + of_int slot * bw / 1000)"
    and slot: "0 \<le> slot" "slot < meshtastic_num_channels region bw"
    using channel_frequency_Some [OF assms(1,2)] by blast
  have q: "1 \<le> ?q" using assms(2,3) by (simp add: field_simps)
  then have "1 \<le> \<lfloor>?q\<rfloor>" by simp
  then have "meshtastic_num_channels region bw = \<lfloor>?q\<rfloor>"
    using assms q by (simp add: meshtastic_num_channels_def trunc_nonneg)
  with slot have "slot + 1 \<le> \<lfloor>?q\<rfloor>" by simp
  then have "of_int (slot + 1) \<le> ?q" by (simp only: le_floor_iff)
  then have "of_int (slot + 1) * (bw / 1000) \<le> br_span b"
    using assms(2) by (simp add: pos_le_divide_eq)
  then have "br_start b + bw / 2000 + of_int slot * bw / 1000 + bw / 2000 \<le> br_end b"
    by (simp add: br_span_def field_simps)
  moreover have "0 \<le> of_int slot * bw" using slot(1) assms(2) by simp
  ultimately show ?thesis using f by auto
qed

theorem slot_inside_allocation_witness:
  "\<exists>f. meshtastic_channel_frequency ''US'' 250 1000 = Some f \<and> 902 \<le> f - 250 / 2000 \<and> f + 250 / 2000 \<le> 928"
proof -
  have b: "map_of MESHTASTIC_REGIONS ''US'' = Some \<lparr>br_name = ''US 902-928'', br_start = 902, br_end = 928\<rparr>"
    by (simp add: MESHTASTIC_REGIONS_def)
  from slot_inside_allocation [OF b, of 250 1000] show ?thesis by (simp add: br_span_def)
qed

text \<open>A bandwidth that does not fit is given one slot nevertheless: half of it lies outside.\<close>

lemma too_wide_slot_leaves_band:
  "meshtastic_channel_frequency ''EU_868'' 500 0 = Some (86965 / 100)
    \<and> map_option br_end (map_of MESHTASTIC_REGIONS ''EU_868'') = Some (86965 / 100)"
  by code_simp

lemma slots_apart:
  assumes "map_of MESHTASTIC_REGIONS region = Some b" "0 < bw"
    and "0 \<le> i" "i < j" "j < meshtastic_num_channels region bw"
    and "meshtastic_channel_frequency region bw i = Some f" "meshtastic_channel_frequency region bw j = Some g"
  shows "f + bw / 2000 \<le> g - bw / 2000"
proof -
  have "f = br_start b + bw / 2000 + of_int i * bw / 1000" "g = br_start b + bw / 2000 + of_int j * bw / 1000"
    using assms by (auto simp: meshtastic_channel_frequency_def Let_def split: if_splits)
  moreover have "of_int (i + 1) * bw \<le> of_int j * bw"
    using assms(2,4) by (intro mult_right_mono) (simp_all del: of_int_add add: of_int_le_iff)
  ultimately show ?thesis by (simp add: field_simps)
qed

lemma presets_build: "(case PRESETS of Inl _ \<Rightarrow> False | Inr ps \<Rightarrow> length ps = 7 \<and> distinct (map sp_key ps)
    \<and> technologies [] ps = [''Meshtastic'', ''MeshCore'', ''Reticulum'', ''LoRa'']
    \<and> map sp_center_mhz (take 3 ps) = [906875 / 1000, 869525 / 1000, 4335 / 10])"
  by code_simp

section \<open>Facts on time on air\<close>

lemma symbols_at_least: "8 \<le> payload_symbols n p"
  by (simp add: payload_symbols_def Let_def)

lemma ceil_div_mono: "0 < d \<Longrightarrow> a \<le> b \<Longrightarrow> - (- a div d) \<le> - (- b div (d :: int))"
  by (simp add: zdiv_mono1)

text \<open>More bytes never take fewer symbols.\<close>

lemma symbols_mono:
  assumes "m \<le> n" "2 < mp_spreading_factor p"
  shows "payload_symbols m p \<le> payload_symbols n p"
proof -
  define a where "a k = 8 * k - 4 * int (mp_spreading_factor p) + 28 + 16 * (if mp_crc p then 1 else 0)
      - 20 * (if mp_explicit_header p then 0 else 1)" for k
  define d where "d = 4 * (int (mp_spreading_factor p) - 2 * (if low_data_rate_optimise p then 1 else 0))"
  define blocks where "blocks k = (if a k > 0 then max (- (- a k div d)) 0 else 0)" for k
  have sym: "payload_symbols k p = 8 + blocks k * (int (mp_coding_rate p) + 4)" for k
    by (simp add: payload_symbols_def blocks_def a_def d_def Let_def)
  have "0 < d" using assms(2) by (auto simp: d_def)
  moreover have "a m \<le> a n" using assms(1) by (simp add: a_def)
  ultimately have "- (- a m div d) \<le> - (- a n div d)" by (rule ceil_div_mono)
  with \<open>a m \<le> a n\<close> have "blocks m \<le> blocks n" by (auto simp: blocks_def)
  then show ?thesis unfolding sym by (simp add: mult_right_mono)
qed

lemma airtime_mono:
  assumes "m \<le> n" "2 < mp_spreading_factor p" "0 < mp_bandwidth_hz p"
  shows "airtime_ms m p \<le> airtime_ms n p"
proof -
  have "0 \<le> symbol_time_ms p" using assms(3) by (simp add: symbol_time_ms_def)
  moreover have "of_int (payload_symbols m p) \<le> (of_int (payload_symbols n p) :: pyfloat)"
    using symbols_mono [OF assms(1,2)] by simp
  ultimately show ?thesis unfolding airtime_ms_def by (intro mult_right_mono) simp_all
qed

lemma airtime_pos: "0 < mp_bandwidth_hz p \<Longrightarrow> 0 < airtime_ms n p"
proof -
  assume "0 < mp_bandwidth_hz p"
  then have "0 < symbol_time_ms p" by (simp add: symbol_time_ms_def)
  moreover have "0 < (of_int (payload_symbols n p) :: pyfloat)" using symbols_at_least [of n p] by simp
  ultimately show ?thesis by (simp add: airtime_ms_def)
qed

text \<open>Sixteen bytes take 289 ms with the default preset, not the 29 ms the module's text names.\<close>

lemma sixteen_bytes_long_fast:
  "airtime_ms 16 (params_for_preset (Some ''LONG_FAST'')) = 288768 / 1000"
  "airtime_ms 16 (params_for_preset (Some ''LONG_SLOW'')) = 1318912 / 1000"
  by code_simp+

end
