(* ===== verification/Intel.thy ===== *)
theory Intel
  imports Bands Metrics "HOL-Library.Char_ord" "HOL-Library.List_Lexorder" "HOL-Library.Product_Lexorder"
begin

text \<open>
  \<open>analytics/signal_metrics.py\<close>, \<open>analytics/packet_intel.py\<close> and \<open>analytics/slot_occupancy.py\<close>: statistics
  of signal readings, per-node profiles of a window of packets, and the ranking of channel slots by
  the energy a scan found in them.  \<open>None\<close> stands for a missing reading and for NaN.
\<close>

section \<open>Signal statistics\<close>

record signal_stats =
  ss_median_snr :: "pyfloat option"
  ss_median_rssi :: "pyfloat option"
  ss_mean_snr :: "pyfloat option"
  ss_mean_rssi :: "pyfloat option"
  ss_min_snr :: "pyfloat option"
  ss_max_snr :: "pyfloat option"
  ss_min_rssi :: "pyfloat option"
  ss_max_rssi :: "pyfloat option"
  ss_sample_count :: nat

definition median_of :: "pyfloat list \<Rightarrow> pyfloat" where
  "median_of xs =
     (let s = sort xs; n = length s
      in if odd n then s ! (n div 2) else (s ! (n div 2 - 1) + s ! (n div 2)) / 2)"

definition mean_of :: "pyfloat list \<Rightarrow> pyfloat" where
  "mean_of xs = sum_list xs / of_nat (length xs)"

definition if_any :: "('a list \<Rightarrow> 'b) \<Rightarrow> 'a list \<Rightarrow> 'b option" where
  "if_any f xs = (if xs = [] then None else Some (f xs))"

definition list_min :: "'a :: linorder list \<Rightarrow> 'a" where "list_min xs = foldl min (hd xs) (tl xs)"
definition list_max :: "'a :: linorder list \<Rightarrow> 'a" where "list_max xs = foldl max (hd xs) (tl xs)"

definition compute_signal_stats :: "pyfloat option list \<Rightarrow> int option list \<Rightarrow> signal_stats" where
  "compute_signal_stats snr_values rssi_values =
     (let snr = List.map_filter (\<lambda>v. v) snr_values;
          rssi = map of_int (List.map_filter (\<lambda>v. v) rssi_values)
      in \<lparr>ss_median_snr = if_any median_of snr, ss_median_rssi = if_any median_of rssi,
          ss_mean_snr = if_any mean_of snr, ss_mean_rssi = if_any mean_of rssi,
          ss_min_snr = if_any list_min snr, ss_max_snr = if_any list_max snr,
          ss_min_rssi = if_any list_min rssi, ss_max_rssi = if_any list_max rssi,
          ss_sample_count = max (length snr) (length rssi)\<rparr>)"

definition format_snr :: "pyfloat option \<Rightarrow> string" where
  "format_snr snr =
     (case snr of None \<Rightarrow> ''N/A'' | Some r \<Rightarrow> (if r < 0 then [] else ''+'') @ fixed 1 r @ '' dB'')"

definition format_rssi :: "pyfloat option \<Rightarrow> string" where
  "format_rssi rssi = (case rssi of None \<Rightarrow> ''N/A'' | Some r \<Rightarrow> fixed 0 r @ '' dBm'')"

section \<open>Profiles of nodes\<close>

definition TREND_THRESHOLD_DB :: pyfloat where "TREND_THRESHOLD_DB = 2"
definition MIN_TREND_SAMPLES :: nat where "MIN_TREND_SAMPLES = 4"

definition split_trend :: "pyfloat list \<Rightarrow> string" where
  "split_trend vs =
     (if length vs < MIN_TREND_SAMPLES then ''unknown''
      else let midpoint = length vs div 2; first = take midpoint vs; second = drop midpoint vs
           in if first = [] \<or> second = [] then ''unknown''
              else let change = median_of second - median_of first
                   in if change > TREND_THRESHOLD_DB then ''rising''
                      else if change < - TREND_THRESHOLD_DB then ''falling'' else ''steady'')"

record node_intel =
  ni_node_num :: node_id
  ni_label :: string
  ni_packets :: nat
  ni_airtime_s :: pyfloat
  ni_airtime_share :: pyfloat
  ni_packets_per_minute :: pyfloat
  ni_direct :: nat
  ni_relayed :: nat
  ni_via_mqtt :: nat
  ni_signal :: signal_stats
  ni_snr_trend :: string
  ni_first_seen :: "instant option"
  ni_last_heard :: "instant option"
  ni_portnums :: "(string \<times> nat) list"
  ni_is_unfamiliar :: bool

definition top_portnum :: "node_intel \<Rightarrow> string" where
  "top_portnum n = (case ni_portnums n of [] \<Rightarrow> emdash | e # _ \<Rightarrow> fst e)"

record intel_report =
  ir_nodes :: "node_intel list"
  ir_window_s :: pyfloat
  ir_total_airtime_s :: pyfloat
  ir_channel_duty_cycle :: pyfloat
  ir_analysed :: nat
  ir_unsized :: nat
  ir_unattributed :: nat
  ir_params_label :: string
  ir_portnum_totals :: "(string \<times> nat) list"

text \<open>\<open>max(nodes, key=...)\<close> gives the first of several equal ones.\<close>

fun first_max :: "('a \<Rightarrow> 'b :: linorder) \<Rightarrow> 'a list \<Rightarrow> 'a option" where
  "first_max key [] = None"
| "first_max key (x # xs) =
     (case first_max key xs of None \<Rightarrow> Some x | Some y \<Rightarrow> if key x < key y then Some y else Some x)"

definition busiest :: "intel_report \<Rightarrow> node_intel option" where
  "busiest r = first_max ni_airtime_s (ir_nodes r)"

definition foreign :: "intel_report \<Rightarrow> node_intel list" where
  "foreign r = filter ni_is_unfamiliar (ir_nodes r)"

definition direct_nodes :: "intel_report \<Rightarrow> node_intel list" where
  "direct_nodes r = filter (\<lambda>n. ni_direct n > 0) (ir_nodes r)"

definition overhead :: "intel_report \<Rightarrow> pyfloat" where
  "overhead r = (if ir_analysed r = 0 then 0 else of_nat (ir_unsized r) / of_nat (ir_analysed r))"

record intel_acc =
  ia_packets :: nat
  ia_airtime_s :: pyfloat
  ia_direct :: nat
  ia_relayed :: nat
  ia_via_mqtt :: nat
  ia_snr :: "pyfloat list"
  ia_rssi :: "int list"
  ia_snr_samples :: "(instant \<times> pyfloat) list"
  ia_portnums :: "(string \<times> nat) list"
  ia_first_seen :: "instant option"
  ia_last_heard :: "instant option"
  ia_unfamiliar :: bool
  ia_unsized :: nat

definition intel_acc_new :: intel_acc where
  "intel_acc_new = \<lparr>ia_packets = 0, ia_airtime_s = 0, ia_direct = 0, ia_relayed = 0, ia_via_mqtt = 0,
     ia_snr = [], ia_rssi = [], ia_snr_samples = [], ia_portnums = [], ia_first_seen = None,
     ia_last_heard = None, ia_unfamiliar = False, ia_unsized = 0\<rparr>"

definition acc_add :: "modem_params \<Rightarrow> node_id list \<Rightarrow> node_id \<Rightarrow> network_packet \<Rightarrow> intel_acc \<Rightarrow> intel_acc" where
  "acc_add params known sender p a =
     (let a = a\<lparr>ia_packets := ia_packets a + 1, ia_portnums := counter_add (pk_portnum_name p) (ia_portnums a)\<rparr>;
          a = (case pk_payload_size p of
                 None \<Rightarrow> a\<lparr>ia_unsized := ia_unsized a + 1\<rparr>
               | Some n \<Rightarrow> a\<lparr>ia_airtime_s := ia_airtime_s a + airtime_seconds (int n) params\<rparr>);
          a = (if packet_is_direct_rf p then a\<lparr>ia_direct := ia_direct a + 1\<rparr>
               else if pk_via_mqtt p = Some True then a\<lparr>ia_via_mqtt := ia_via_mqtt a + 1\<rparr>
               else a\<lparr>ia_relayed := ia_relayed a + 1\<rparr>);
          a = (case pk_rx_snr p of
                 None \<Rightarrow> a
               | Some r \<Rightarrow> a\<lparr>ia_snr := ia_snr a @ [r], ia_snr_samples := ia_snr_samples a @ [(pk_observed_at p, r)]\<rparr>);
          a = (case pk_rx_rssi p of None \<Rightarrow> a | Some r \<Rightarrow> a\<lparr>ia_rssi := ia_rssi a @ [r]\<rparr>);
          t = pk_observed_at p;
          a = (if (case ia_first_seen a of None \<Rightarrow> True | Some f \<Rightarrow> t < f) then a\<lparr>ia_first_seen := Some t\<rparr> else a);
          a = (if (case ia_last_heard a of None \<Rightarrow> True | Some l \<Rightarrow> t > l) then a\<lparr>ia_last_heard := Some t\<rparr> else a)
      in if sender \<notin> set known then a\<lparr>ia_unfamiliar := True\<rparr> else a)"

record intel_state =
  is_accs :: "(node_id \<times> intel_acc) list"
  is_unattributed :: nat
  is_unsized :: nat
  is_portnums :: "(string \<times> nat) list"

definition intel_add :: "modem_params \<Rightarrow> node_id list \<Rightarrow> network_packet \<Rightarrow> intel_state \<Rightarrow> intel_state" where
  "intel_add params known p st =
     (case pk_sender_num p of
        None \<Rightarrow> st\<lparr>is_unattributed := is_unattributed st + 1\<rparr>
      | Some s \<Rightarrow>
          (let a = (case map_of (is_accs st) s of None \<Rightarrow> intel_acc_new | Some a \<Rightarrow> a)
           in st\<lparr>is_accs := odict_put s (acc_add params known s p a) (is_accs st),
                 is_portnums := counter_add (pk_portnum_name p) (is_portnums st),
                 is_unsized := (if pk_payload_size p = None then is_unsized st + 1 else is_unsized st)\<rparr>))"

definition intel_window :: "network_packet list \<Rightarrow> pyfloat" where
  "intel_window packets =
     (let ts = map pk_observed_at packets
      in if length ts > 1 then of_int (list_max ts - list_min ts) / 10 ^ 6 else 0)"

definition node_intel_of ::
    "(node_id \<times> string) list \<Rightarrow> pyfloat \<Rightarrow> pyfloat \<Rightarrow> node_id \<Rightarrow> intel_acc \<Rightarrow> node_intel" where
  "node_intel_of labels window_s total_airtime n a =
     (let minutes = window_s / 60; trend_input = map snd (sort_key fst (ia_snr_samples a))
      in \<lparr>ni_node_num = n,
          ni_label = (case map_of labels n of Some (c # cs) \<Rightarrow> c # cs | _ \<Rightarrow> bang_hex8 n),
          ni_packets = ia_packets a, ni_airtime_s = ia_airtime_s a,
          ni_airtime_share = (if total_airtime > 0 then ia_airtime_s a / total_airtime else 0),
          ni_packets_per_minute = (if minutes > 0 then of_nat (ia_packets a) / minutes else 0),
          ni_direct = ia_direct a, ni_relayed = ia_relayed a, ni_via_mqtt = ia_via_mqtt a,
          ni_signal = compute_signal_stats (map Some (ia_snr a)) (map Some (ia_rssi a)),
          ni_snr_trend = split_trend trend_input, ni_first_seen = ia_first_seen a,
          ni_last_heard = ia_last_heard a, ni_portnums = most_common (ia_portnums a),
          ni_is_unfamiliar = ia_unfamiliar a\<rparr>)"

definition analyse_packets ::
    "network_packet list \<Rightarrow> modem_params \<Rightarrow> (node_id \<times> string) list \<Rightarrow> node_id list \<Rightarrow> string \<Rightarrow> intel_report"
where
  "analyse_packets packets params labels known params_label =
     (let st = fold (intel_add params known) packets
                 \<lparr>is_accs = [], is_unattributed = 0, is_unsized = 0, is_portnums = []\<rparr>;
          window_s = intel_window packets;
          total_airtime = sum_list (map (\<lambda>e. ia_airtime_s (snd e)) (is_accs st))
      in \<lparr>ir_nodes = sort_key (\<lambda>n. (- ni_airtime_s n, ni_node_num n))
            (map (\<lambda>(n, a). node_intel_of labels window_s total_airtime n a) (is_accs st)),
          ir_window_s = window_s, ir_total_airtime_s = total_airtime,
          ir_channel_duty_cycle =
            (if window_s > 0 then (case duty_cycle total_airtime window_s of Inr d \<Rightarrow> d | Inl _ \<Rightarrow> 0) else 0),
          ir_analysed = sum_list (map (\<lambda>e. ia_packets (snd e)) (is_accs st)),
          ir_unsized = is_unsized st, ir_unattributed = is_unattributed st, ir_params_label = params_label,
          ir_portnum_totals = most_common (is_portnums st)\<rparr>)"

section \<open>Slot occupancy\<close>

definition IDLE_MARGIN_DB :: pyfloat where "IDLE_MARGIN_DB = 6"
definition FLOOR_PERCENTILE :: pyfloat where "FLOOR_PERCENTILE = 25"

record slot_occupancy =
  so_label :: string
  so_center_hz :: pyfloat
  so_bandwidth_hz :: pyfloat
  so_bins :: nat
  so_mean_db :: "pyfloat option"
  so_peak_db :: "pyfloat option"
  so_noise_floor_db :: "pyfloat option"
  so_in_scan :: bool

definition has_data :: "slot_occupancy \<Rightarrow> bool" where
  "has_data s \<longleftrightarrow> so_bins s > 0"

text \<open>The difference of two numbers one of which may be NaN.\<close>

definition nan_diff :: "pyfloat option \<Rightarrow> pyfloat option \<Rightarrow> pyfloat option" where
  "nan_diff x y = (case (x, y) of (Some a, Some b) \<Rightarrow> Some (a - b) | _ \<Rightarrow> None)"

definition peak_over_floor_db :: "slot_occupancy \<Rightarrow> pyfloat option" where
  "peak_over_floor_db s = (if has_data s then nan_diff (so_peak_db s) (so_noise_floor_db s) else None)"

definition mean_over_floor_db :: "slot_occupancy \<Rightarrow> pyfloat option" where
  "mean_over_floor_db s = (if has_data s then nan_diff (so_mean_db s) (so_noise_floor_db s) else None)"

definition slot_status :: "slot_occupancy \<Rightarrow> string" where
  "slot_status s =
     (if \<not> has_data s then ''unknown''
      else case peak_over_floor_db s of
        Some d \<Rightarrow> if d < IDLE_MARGIN_DB then ''idle'' else ''busy''
      | None \<Rightarrow> ''busy'')"

definition looks_busy :: "slot_occupancy \<Rightarrow> bool" where
  "looks_busy s \<longleftrightarrow> slot_status s = ''busy''"

record occupancy_report =
  or_slots :: "slot_occupancy list"
  or_noise_floor_db :: "pyfloat option"
  or_low_hz :: "pyfloat option"
  or_high_hz :: "pyfloat option"

definition hottest :: "occupancy_report \<Rightarrow> slot_occupancy option" where
  "hottest r = find looks_busy (or_slots r)"

definition measured_slots :: "occupancy_report \<Rightarrow> nat" where
  "measured_slots r = length (filter has_data (or_slots r))"

definition unknown_slots :: "occupancy_report \<Rightarrow> nat" where
  "unknown_slots r = length (filter (\<lambda>s. \<not> has_data s) (or_slots r))"

definition busy_slots :: "occupancy_report \<Rightarrow> nat" where
  "busy_slots r = length (filter looks_busy (or_slots r))"

definition rank_key :: "slot_occupancy \<Rightarrow> int \<times> pyfloat \<times> string" where
  "rank_key s =
     (if \<not> has_data s then (1, 0, so_label s)
      else (0, - (case peak_over_floor_db s of Some d \<Rightarrow> d | None \<Rightarrow> 0), so_label s))"

text \<open>\<open>numpy.percentile\<close> with linear interpolation.\<close>

definition percentile :: "pyfloat list \<Rightarrow> pyfloat \<Rightarrow> pyfloat" where
  "percentile xs q =
     (let s = sort xs; h = of_nat (length s - 1) * q / 100; lo = nat \<lfloor>h\<rfloor>
      in if lo + 1 < length s then s ! lo + (h - of_nat lo) * (s ! (lo + 1) - s ! lo) else s ! lo)"

definition slot_of ::
    "(pyfloat \<times> pyfloat option) list \<Rightarrow> pyfloat option \<Rightarrow> channel_marker \<Rightarrow> slot_occupancy" where
  "slot_of scan floor_db marker =
     (let center = mk_center marker * 10 ^ 6; bandwidth = mk_bandwidth marker * 10 ^ 3; half = bandwidth / 2;
          vs = List.map_filter (\<lambda>(f, p). if center - half \<le> f \<and> f \<le> center + half then p else None) scan;
          fs = map fst scan
      in \<lparr>so_label = mk_label marker, so_center_hz = center, so_bandwidth_hz = bandwidth, so_bins = length vs,
          so_mean_db = if_any mean_of vs, so_peak_db = if_any list_max vs, so_noise_floor_db = floor_db,
          so_in_scan = (fs \<noteq> [] \<and> list_min fs \<le> center \<and> center \<le> list_max fs)\<rparr>)"

definition rank_slots ::
    "pyfloat list \<Rightarrow> pyfloat option list \<Rightarrow> channel_marker list \<Rightarrow> pyfloat \<Rightarrow> string + occupancy_report" where
  "rank_slots frequencies readings markers floor_percentile =
     (if length frequencies \<noteq> length readings
      then Inl (''frequencies and power must be the same length, got '' @ show_nat (length frequencies)
             @ '' and '' @ show_nat (length readings))
      else let measured = List.map_filter (\<lambda>p. p) readings;
               floor_db = if_any (\<lambda>xs. percentile xs floor_percentile) measured
           in Inr \<lparr>or_slots = sort_key rank_key (map (slot_of (zip frequencies readings) floor_db) markers),
                 or_noise_floor_db = floor_db, or_low_hz = if_any list_min frequencies,
                 or_high_hz = if_any list_max frequencies\<rparr>)"

section \<open>Facts on profiles\<close>

text \<open>The packets of one sender, and the airtime of a list of packets.\<close>

definition from_node :: "node_id \<Rightarrow> network_packet list \<Rightarrow> network_packet list" where
  "from_node n ps = filter (\<lambda>p. pk_sender_num p = Some n) ps"

definition airtime_of :: "modem_params \<Rightarrow> network_packet list \<Rightarrow> pyfloat" where
  "airtime_of params ps =
     sum_list (map (\<lambda>p. case pk_payload_size p of None \<Rightarrow> 0 | Some n \<Rightarrow> airtime_seconds (int n) params) ps)"

text \<open>What an accumulator holds of the packets it was given.\<close>

definition acc_of :: "modem_params \<Rightarrow> network_packet list \<Rightarrow> intel_acc \<Rightarrow> bool" where
  "acc_of params ps a \<longleftrightarrow>
     ia_packets a = length ps \<and> ia_airtime_s a = airtime_of params ps
     \<and> ia_direct a = length (filter packet_is_direct_rf ps)
     \<and> ia_via_mqtt a = length (filter (\<lambda>p. \<not> packet_is_direct_rf p \<and> packet_is_via_mqtt p) ps)
     \<and> ia_direct a + ia_relayed a + ia_via_mqtt a = length ps
     \<and> ia_unsized a = length (filter (\<lambda>p. pk_payload_size p = None) ps)"

lemma acc_of_new: "acc_of params [] intel_acc_new"
  by (simp add: acc_of_def intel_acc_new_def airtime_of_def)

lemma acc_of_add: "acc_of params ps a \<Longrightarrow> acc_of params (ps @ [p]) (acc_add params known s p a)"
  by (auto simp: acc_of_def acc_add_def airtime_of_def packet_is_via_mqtt_def Let_def split: option.splits)

text \<open>The state after a list of packets.\<close>

definition intel_inv :: "modem_params \<Rightarrow> network_packet list \<Rightarrow> intel_state \<Rightarrow> bool" where
  "intel_inv params ps st \<longleftrightarrow>
     distinct (odict_keys (is_accs st))
     \<and> (\<forall>n. map_of (is_accs st) n = None \<longleftrightarrow> from_node n ps = [])
     \<and> (\<forall>n a. map_of (is_accs st) n = Some a \<longrightarrow> acc_of params (from_node n ps) a)
     \<and> sum_list (map (\<lambda>e. ia_packets (snd e)) (is_accs st)) + is_unattributed st = length ps
     \<and> is_unattributed st = length (filter (\<lambda>p. pk_sender_num p = None) ps)
     \<and> is_unsized st = length (filter (\<lambda>p. pk_sender_num p \<noteq> None \<and> pk_payload_size p = None) ps)
     \<and> sum_list (map (\<lambda>e. ia_airtime_s (snd e)) (is_accs st))
       = airtime_of params (filter (\<lambda>p. pk_sender_num p \<noteq> None) ps)"

lemma sum_odict_put:
  fixes g :: "'v \<Rightarrow> 'c :: comm_monoid_add"
  shows "sum_list (map (\<lambda>e. g (snd e)) (odict_put k v d)) + (case map_of d k of None \<Rightarrow> 0 | Some w \<Rightarrow> g w)
    = sum_list (map (\<lambda>e. g (snd e)) d) + g v"
proof (induction d)
  case (Cons e d)
  obtain k' w where e: "e = (k', w)" by (cases e)
  show ?case
  proof (cases "k' = k")
    case True
    then show ?thesis using e by (simp add: ac_simps)
  next
    case False
    have "sum_list (map (\<lambda>e. g (snd e)) (odict_put k v (e # d))) + (case map_of (e # d) k of None \<Rightarrow> 0 | Some w \<Rightarrow> g w)
        = g w + (sum_list (map (\<lambda>e. g (snd e)) (odict_put k v d)) + (case map_of d k of None \<Rightarrow> 0 | Some w \<Rightarrow> g w))"
      using e False by (simp add: ac_simps)
    then show ?thesis using Cons.IH e by (simp add: ac_simps)
  qed
qed simp

lemma from_node_snoc: "from_node n (ps @ [p]) = from_node n ps @ (if pk_sender_num p = Some n then [p] else [])"
  by (simp add: from_node_def)

lemma airtime_of_snoc: "airtime_of params (ps @ qs) = airtime_of params ps + airtime_of params qs"
  by (simp add: airtime_of_def)

lemma intel_inv_add:
  assumes inv: "intel_inv params ps st"
  shows "intel_inv params (ps @ [p]) (intel_add params known p st)"
proof (cases "pk_sender_num p")
  case None
  with inv show ?thesis by (simp add: intel_inv_def intel_add_def from_node_snoc)
next
  case (Some s)
  define a where "a = (case map_of (is_accs st) s of None \<Rightarrow> intel_acc_new | Some a \<Rightarrow> a)"
  let ?b = "acc_add params known s p a"
  have a: "acc_of params (from_node s ps) a"
  proof (cases "map_of (is_accs st) s")
    case None
    then have "from_node s ps = []" using inv by (simp add: intel_inv_def)
    with None show ?thesis by (simp add: a_def acc_of_new)
  next
    case (Some x)
    with inv show ?thesis by (auto simp: a_def intel_inv_def)
  qed
  from acc_of_add [OF a] have b: "acc_of params (from_node s ps @ [p]) ?b" .
  have packets: "ia_packets ?b = ia_packets a + 1"
    using a b by (simp add: acc_of_def)
  have airtime: "ia_airtime_s ?b = ia_airtime_s a + airtime_of params [p]"
    using a b by (simp add: acc_of_def airtime_of_snoc)
  have "sum_list (map (\<lambda>e. ia_packets (snd e)) (odict_put s ?b (is_accs st)))
      = sum_list (map (\<lambda>e. ia_packets (snd e)) (is_accs st)) + 1"
    using sum_odict_put [of ia_packets s ?b "is_accs st"] packets
    by (cases "map_of (is_accs st) s") (simp_all add: a_def intel_acc_new_def)
  moreover have "sum_list (map (\<lambda>e. ia_airtime_s (snd e)) (odict_put s ?b (is_accs st)))
      = sum_list (map (\<lambda>e. ia_airtime_s (snd e)) (is_accs st)) + airtime_of params [p]"
    using sum_odict_put [of ia_airtime_s s ?b "is_accs st"] airtime
    by (cases "map_of (is_accs st) s") (simp_all add: a_def intel_acc_new_def)
  moreover have "acc_of params (from_node n (ps @ [p])) c"
    if "map_of (odict_put s ?b (is_accs st)) n = Some c" for n c
    using that b inv Some by (auto simp: intel_inv_def odict_put_lookup from_node_snoc split: if_splits)
  moreover have "map_of (odict_put s ?b (is_accs st)) n = None \<longleftrightarrow> from_node n (ps @ [p]) = []" for n
    using inv Some by (auto simp: intel_inv_def odict_put_lookup from_node_snoc)
  moreover have "distinct (odict_keys (odict_put s ?b (is_accs st)))"
    using inv by (simp add: intel_inv_def odict_put_distinct)
  ultimately show ?thesis
    using inv Some by (simp add: intel_inv_def intel_add_def a_def [symmetric] airtime_of_snoc Let_def)
qed

lemma intel_inv_run:
  "intel_inv params ps (fold (intel_add params known) ps
     \<lparr>is_accs = [], is_unattributed = 0, is_unsized = 0, is_portnums = []\<rparr>)"
proof (induction ps rule: rev_induct)
  case Nil
  show ?case by (simp add: intel_inv_def from_node_def airtime_of_def)
next
  case (snoc p ps)
  then show ?case by (simp add: intel_inv_add)
qed

text \<open>A sort by a key that puts larger airtimes first, and the parts of the report.\<close>

definition report_nodes ::
    "(node_id \<times> string) list \<Rightarrow> pyfloat \<Rightarrow> pyfloat \<Rightarrow> (node_id \<times> intel_acc) list \<Rightarrow> node_intel list" where
  "report_nodes labels window_s whole accs = map (\<lambda>(n, a). node_intel_of labels window_s whole n a) accs"

lemma report_nodes_names: "map ni_node_num (report_nodes labels w t accs) = odict_keys accs"
  by (simp add: report_nodes_def node_intel_of_def Let_def case_prod_beta)

lemma report_nodes_airtimes:
  "map ni_airtime_s (report_nodes labels w t accs) = map (\<lambda>e. ia_airtime_s (snd e)) accs"
  by (simp add: report_nodes_def node_intel_of_def Let_def case_prod_beta)

lemma report_nodes_shares:
  assumes "t > 0"
  shows "sum_list (map ni_airtime_share (report_nodes labels w t accs))
    = sum_list (map (\<lambda>e. ia_airtime_s (snd e)) accs) / t"
  using assms
  by (induction accs) (simp_all add: report_nodes_def node_intel_of_def Let_def case_prod_beta add_divide_distrib)

definition node_balanced :: "modem_params \<Rightarrow> network_packet list \<Rightarrow> node_intel \<Rightarrow> bool" where
  "node_balanced params ps n \<longleftrightarrow>
     (let mine = from_node (ni_node_num n) ps
      in ni_packets n = length mine \<and> ni_packets n > 0
         \<and> ni_direct n + ni_relayed n + ni_via_mqtt n = ni_packets n
         \<and> ni_direct n = length (filter packet_is_direct_rf mine)
         \<and> ni_airtime_s n = airtime_of params mine)"

lemma report_nodes_balanced:
  assumes inv: "intel_inv params ps st" and n: "n \<in> set (report_nodes labels w t (is_accs st))"
  shows "node_balanced params ps n"
proof -
  obtain k a where ka: "(k, a) \<in> set (is_accs st)" and "n = node_intel_of labels w t k a"
    using n by (auto simp: report_nodes_def)
  then have n: "ni_node_num n = k" "ni_packets n = ia_packets a" "ni_direct n = ia_direct a"
      "ni_relayed n = ia_relayed a" "ni_via_mqtt n = ia_via_mqtt a" "ni_airtime_s n = ia_airtime_s a"
    by (simp_all add: node_intel_of_def Let_def)
  have look: "map_of (is_accs st) k = Some a" using ka inv by (simp add: intel_inv_def)
  then have "acc_of params (from_node k ps) a" using inv by (simp add: intel_inv_def)
  moreover have "from_node k ps \<noteq> []" using look inv by (metis intel_inv_def option.distinct(1))
  ultimately show ?thesis by (simp add: node_balanced_def n acc_of_def Let_def)
qed

lemma sorted_by_airtime:
  "sorted_wrt (\<lambda>a b. ni_airtime_s a \<ge> ni_airtime_s b) (sort_key (\<lambda>n. (- ni_airtime_s n, ni_node_num n)) (ns :: node_intel list))"
proof -
  have "sorted (map (\<lambda>n. (- ni_airtime_s n, ni_node_num n)) (sort_key (\<lambda>n. (- ni_airtime_s n, ni_node_num n)) ns))"
    by (rule sorted_sort_key)
  then show ?thesis
    unfolding sorted_map by (rule sorted_wrt_mono_rel [rotated]) (auto simp: less_eq_prod_def)
qed

lemma sum_list_mset_eq:
  fixes f :: "'a \<Rightarrow> 'b :: comm_monoid_add"
  assumes "mset xs = mset ys"
  shows "sum_list (map f xs) = sum_list (map f ys)"
  using assms by (metis mset_map sum_mset_sum_list)


end
