(* ===== verification/Chat.thy ===== *)
theory Chat
  imports Controller Store
begin

text \<open>
  The chat: \<open>ui/chat_view.py\<close> (composer, threads and bubbles), \<open>ui/widgets/channel_list.py\<close> (the side bar)
  and the handlers of \<open>ui/main_window.py\<close> that join them with the radio worker and the store.  What is
  on screen is the list of bubbles in order; texts are UTF-8 bytes as in the controller.  Scrolling and
  styles are not modelled.
\<close>

section \<open>The composer\<close>

datatype count_style = CountNormal | CountWarn | CountOver

record composer =
  co_enabled :: bool
  co_text :: string
  co_button :: bool
  co_style :: count_style
  co_label :: string

definition byte_label :: "nat \<Rightarrow> string" where
  "byte_label n = show_nat n @ '' / '' @ show_nat MAX_MESSAGE_BYTES @ '' bytes''"

definition composer_new :: composer where
  "composer_new = \<lparr>co_enabled = False, co_text = [], co_button = False, co_style = CountNormal, co_label = byte_label 0\<rparr>"

definition on_text_changed :: "string \<Rightarrow> composer \<Rightarrow> composer" where
  "on_text_changed plain c =
     (let text = normalize_outgoing_text plain; byte_len = length text; lbl = byte_label byte_len;
          c = c\<lparr>co_text := plain\<rparr>;
          c = (if byte_len > MAX_MESSAGE_BYTES then c\<lparr>co_style := CountOver, co_label := [CHR 0xE2, CHR 0x9A, CHR 0xA0] @ '' '' @ lbl\<rparr>
               else if 100 * byte_len > 85 * MAX_MESSAGE_BYTES then c\<lparr>co_style := CountWarn, co_label := lbl\<rparr>
               else c\<lparr>co_style := CountNormal, co_label := lbl\<rparr>);
          has_text = (text \<noteq> [] \<and> byte_len \<le> MAX_MESSAGE_BYTES)
      in c\<lparr>co_button := has_text \<and> co_enabled c\<rparr>)"

text \<open>Send button and Enter; clearing the editor changes its text.\<close>

definition do_send :: "composer \<Rightarrow> composer \<times> string option" where
  "do_send c =
     (let text = normalize_outgoing_text (co_text c)
      in if text = [] then (c, None)
         else if length text > MAX_MESSAGE_BYTES then (c, None)
         else (on_text_changed [] c, Some text))"

text \<open>A key press only reaches an enabled editor: Enter without Shift sends.\<close>

definition enter_pressed :: "bool \<Rightarrow> composer \<Rightarrow> composer \<times> string option" where
  "enter_pressed shift c = (if co_enabled c \<and> \<not> shift then do_send c else (c, None))"

definition set_enabled_for_send :: "bool \<Rightarrow> composer \<Rightarrow> composer" where
  "set_enabled_for_send e c = (let c = c\<lparr>co_enabled := e\<rparr> in if e then c else c\<lparr>co_button := False\<rparr>)"

section \<open>The chat view\<close>

datatype chat_key = ChannelKey int | DmKey node_id

text \<open>Bubbles are in the order shown; \<open>cv_bubbles\<close> finds the latest bubble of a message.\<close>

record chat_view =
  cv_current :: "chat_key option"
  cv_dm_name :: string
  cv_threads :: "(chat_key \<times> chat_message list) list"
  cv_bubbles :: "(string \<times> nat) list"
  cv_shown :: "chat_message list"
  cv_empty :: "string option"

definition welcome_text :: string where
  "welcome_text = ''Connect to a Meshtastic radio to begin chatting.'' @ [CHR 0x0A, CHR 0x0A]
     @ ''Select a channel from the sidebar, then type a message.''"

definition chat_view_new :: chat_view where
  "chat_view_new = \<lparr>cv_current = None, cv_dm_name = [], cv_threads = [], cv_bubbles = [], cv_shown = [],
     cv_empty = Some welcome_text\<rparr>"

definition key_for :: "chat_message \<Rightarrow> chat_key" where
  "key_for m = (case cm_destination_num m of Some n \<Rightarrow> DmKey n | None \<Rightarrow> ChannelKey (cm_channel_index m))"

definition thread :: "(chat_key \<times> chat_message list) list \<Rightarrow> chat_key \<Rightarrow> chat_message list" where
  "thread d k = (case map_of d k of None \<Rightarrow> [] | Some ms \<Rightarrow> ms)"

definition add_to_thread :: "chat_message \<Rightarrow> (chat_key \<times> chat_message list) list \<Rightarrow> (chat_key \<times> chat_message list) list" where
  "add_to_thread m d = odict_put (key_for m) (thread d (key_for m) @ [m]) d"

definition append_bubble :: "chat_message \<Rightarrow> chat_view \<Rightarrow> chat_view" where
  "append_bubble m v = v\<lparr>cv_empty := None, cv_bubbles := odict_put (cm_local_id m) (length (cv_shown v)) (cv_bubbles v),
     cv_shown := cv_shown v @ [m]\<rparr>"

definition clear_bubbles :: "chat_view \<Rightarrow> chat_view" where
  "clear_bubbles v = v\<lparr>cv_bubbles := [], cv_shown := []\<rparr>"

definition rebuild_bubbles :: "chat_view \<Rightarrow> chat_view" where
  "rebuild_bubbles v =
     (let v = clear_bubbles v; msgs = (case cv_current v of None \<Rightarrow> [] | Some k \<Rightarrow> thread (cv_threads v) k)
      in if msgs \<noteq> [] then fold append_bubble msgs (v\<lparr>cv_empty := None\<rparr>)
         else v\<lparr>cv_empty := Some (case cv_current v of
                  Some (DmKey n) \<Rightarrow> ''No messages yet with '' @ cv_dm_name v @ ''.'' @ [CHR 0x0A, CHR 0x0A]
                    @ ''Type a message to start a direct conversation.''
                | _ \<Rightarrow> welcome_text)\<rparr>)"

definition set_channel :: "int \<Rightarrow> chat_view \<Rightarrow> chat_view" where
  "set_channel i v = rebuild_bubbles (v\<lparr>cv_current := Some (ChannelKey i)\<rparr>)"

definition set_dm_target :: "node_id \<Rightarrow> string \<Rightarrow> chat_view \<Rightarrow> chat_view" where
  "set_dm_target n name v = rebuild_bubbles (v\<lparr>cv_current := Some (DmKey n), cv_dm_name := name\<rparr>)"

definition add_message :: "chat_message \<Rightarrow> chat_view \<Rightarrow> chat_view" where
  "add_message m v =
     (let v = v\<lparr>cv_threads := add_to_thread m (cv_threads v)\<rparr>
      in if Some (key_for m) = cv_current v then append_bubble m v else v)"

definition load_history :: "chat_message list \<Rightarrow> chat_view \<Rightarrow> chat_view" where
  "load_history ms v =
     (let v = v\<lparr>cv_threads := fold add_to_thread ms (cv_threads v)\<rparr>
      in if cv_current v \<noteq> None then rebuild_bubbles v else v)"

definition with_status :: "int option \<Rightarrow> message_status \<Rightarrow> chat_message \<Rightarrow> chat_message" where
  "with_status packet_id status m =
     m\<lparr>cm_status := status, cm_packet_id := (case packet_id of Some p \<Rightarrow> Some p | None \<Rightarrow> cm_packet_id m)\<rparr>"

text \<open>The first message with the local id is replaced; the second component is its new value.\<close>

fun status_in_thread :: "string \<Rightarrow> (chat_message \<Rightarrow> chat_message) \<Rightarrow> chat_message list
    \<Rightarrow> chat_message list \<times> chat_message option" where
  "status_in_thread lid f [] = ([], None)"
| "status_in_thread lid f (m # ms) =
     (if cm_local_id m \<noteq> lid then (case status_in_thread lid f ms of (ms', r) \<Rightarrow> (m # ms', r))
      else (f m # ms, Some (f m)))"

fun status_in_threads :: "string \<Rightarrow> (chat_message \<Rightarrow> chat_message) \<Rightarrow> (chat_key \<times> chat_message list) list
    \<Rightarrow> (chat_key \<times> chat_message list) list \<times> chat_message option" where
  "status_in_threads lid f [] = ([], None)"
| "status_in_threads lid f ((k, ms) # d) =
     (case status_in_thread lid f ms of
        (ms', Some m) \<Rightarrow> ((k, ms') # d, Some m)
      | (ms', None) \<Rightarrow> (case status_in_threads lid f d of (d', r) \<Rightarrow> ((k, ms') # d', r)))"

definition chat_update_status :: "string \<Rightarrow> int option \<Rightarrow> message_status \<Rightarrow> chat_view \<Rightarrow> chat_view" where
  "chat_update_status lid packet_id status v =
     (case status_in_threads lid (with_status packet_id status) (cv_threads v) of
        (d, None) \<Rightarrow> v\<lparr>cv_threads := d\<rparr>
      | (d, Some m) \<Rightarrow>
          (let v = v\<lparr>cv_threads := d\<rparr>
           in case map_of (cv_bubbles v) lid of None \<Rightarrow> v | Some i \<Rightarrow> v\<lparr>cv_shown := (cv_shown v)[i := m]\<rparr>))"

definition set_no_channels_message :: "chat_view \<Rightarrow> chat_view" where
  "set_no_channels_message v = (clear_bubbles v)\<lparr>cv_empty := Some
     (''The radio connected successfully, but no active Meshtastic channels were found.'' @ [CHR 0x0A, CHR 0x0A]
      @ ''Configure a channel on the radio and reconnect.'')\<rparr>"

datatype send_request = SendChannel string int | SendDirect string node_id

definition view_on_send :: "string \<Rightarrow> chat_view \<Rightarrow> send_request option" where
  "view_on_send text v =
     (case cv_current v of
        None \<Rightarrow> None
      | Some (DmKey n) \<Rightarrow> Some (SendDirect text n)
      | Some (ChannelKey i) \<Rightarrow> Some (SendChannel text i))"

section \<open>The window\<close>

text \<open>What the window asked of the worker, and the writes it queued in the store.\<close>

datatype radio_request = RadioChannel string int string | RadioDirect string node_id string

record chat_window =
  cw_view :: chat_view
  cw_composer :: composer
  cw_session :: string
  cw_connected :: bool
  cw_writes :: "item list"
  cw_requests :: "radio_request list"

definition show_and_save :: "chat_message \<Rightarrow> chat_window \<Rightarrow> chat_window" where
  "show_and_save m w = w\<lparr>cw_view := add_message m (cw_view w), cw_writes := cw_writes w @ [IMessage m]\<rparr>"

definition on_message_received :: "chat_message \<Rightarrow> chat_window \<Rightarrow> chat_window" where
  "on_message_received m w = show_and_save (m\<lparr>cm_session_id := cw_session w\<rparr>) w"

definition on_message_status :: "string \<Rightarrow> int option \<Rightarrow> message_status \<Rightarrow> chat_window \<Rightarrow> chat_window" where
  "on_message_status lid packet_id status w =
     w\<lparr>cw_view := chat_update_status lid packet_id status (cw_view w),
       cw_writes := cw_writes w @ [IMessageStatus lid packet_id status]\<rparr>"

definition outbound :: "string \<Rightarrow> int \<Rightarrow> string \<Rightarrow> instant \<Rightarrow> node_id option \<Rightarrow> string \<Rightarrow> chat_message" where
  "outbound uuid channel text now dest session =
     \<lparr>cm_local_id = uuid, cm_packet_id = None, cm_channel_index = channel, cm_direction = OUTBOUND, cm_sender_num = None,
      cm_sender_id = None, cm_sender_name = ''Me'', cm_text = text, cm_timestamp = now, cm_status = SENDING, cm_snr = None,
      cm_hop_count = None, cm_destination_num = dest, cm_session_id = session\<rparr>"

definition on_send :: "string \<Rightarrow> instant \<Rightarrow> string \<Rightarrow> int \<Rightarrow> chat_window \<Rightarrow> chat_window" where
  "on_send uuid now text channel w =
     (show_and_save (outbound uuid channel text now None (cw_session w)) w)
       \<lparr>cw_requests := cw_requests w @ [RadioChannel text channel uuid]\<rparr>"

definition on_send_dm :: "string \<Rightarrow> instant \<Rightarrow> string \<Rightarrow> node_id \<Rightarrow> chat_window \<Rightarrow> chat_window" where
  "on_send_dm uuid now text dest w =
     (show_and_save (outbound uuid 0 text now (Some dest) (cw_session w)) w)
       \<lparr>cw_requests := cw_requests w @ [RadioDirect text dest uuid]\<rparr>"

text \<open>A press of Send or Enter, through the view's signal to the window.\<close>

definition send_pressed :: "string \<Rightarrow> instant \<Rightarrow> chat_window \<Rightarrow> chat_window" where
  "send_pressed uuid now w =
     (case do_send (cw_composer w) of
        (c, None) \<Rightarrow> w\<lparr>cw_composer := c\<rparr>
      | (c, Some text) \<Rightarrow>
          (let w = (case view_on_send text (cw_view w) of
                      None \<Rightarrow> w
                    | Some (SendChannel t i) \<Rightarrow> on_send uuid now t i w
                    | Some (SendDirect t n) \<Rightarrow> on_send_dm uuid now t n w)
           in w\<lparr>cw_composer := c\<rparr>))"

definition on_channel_selected :: "int \<Rightarrow> chat_window \<Rightarrow> chat_window" where
  "on_channel_selected i w = w\<lparr>cw_view := set_channel i (cw_view w),
     cw_composer := set_enabled_for_send (cw_connected w) (cw_composer w)\<rparr>"

definition on_dm_selected :: "node_id \<Rightarrow> string \<Rightarrow> chat_window \<Rightarrow> chat_window" where
  "on_dm_selected n name w = w\<lparr>cw_view := set_dm_target n name (cw_view w),
     cw_composer := set_enabled_for_send (cw_connected w) (cw_composer w)\<rparr>"

definition chat_state_changed :: "connection_state \<Rightarrow> chat_window \<Rightarrow> chat_window" where
  "chat_state_changed state w =
     (let w = w\<lparr>cw_connected := (state = CONNECTED)\<rparr>
      in if cw_connected w then w else w\<lparr>cw_composer := set_enabled_for_send False (cw_composer w)\<rparr>)"

definition on_channels_updated :: "channel_summary list \<Rightarrow> chat_window \<Rightarrow> chat_window" where
  "on_channels_updated channels w =
     (case channels of
        c # cs \<Rightarrow> w\<lparr>cw_view := set_channel (cs_index c) (cw_view w), cw_composer := set_enabled_for_send True (cw_composer w)\<rparr>
      | [] \<Rightarrow> w\<lparr>cw_view := set_no_channels_message (cw_view w)\<rparr>)"

section \<open>History\<close>

definition direction_of :: "string \<Rightarrow> message_direction option" where
  "direction_of s = find (\<lambda>d. direction_value d = s) [INBOUND, OUTBOUND, SYSTEM]"

definition status_of :: "string \<Rightarrow> message_status option" where
  "status_of s = find (\<lambda>d. status_value d = s)
     [RECEIVED, SENDING, ACCEPTED_BY_RADIO, ACKNOWLEDGED, FAILED, UNKNOWN_DELIVERY]"

text \<open>A row with an unknown direction or status is skipped.\<close>

definition message_of_row :: "message_row \<Rightarrow> chat_message option" where
  "message_of_row r =
     (case (direction_of (mr_direction r), status_of (mr_status r)) of
        (Some d, Some s) \<Rightarrow>
          Some \<lparr>cm_local_id = mr_local_id r, cm_packet_id = mr_packet_id r, cm_channel_index = mr_channel_index r,
            cm_direction = d, cm_sender_num = mr_sender_num r, cm_sender_id = mr_sender_id r,
            cm_sender_name = (if mr_sender_name r = [] then ''Unknown'' else mr_sender_name r), cm_text = mr_text r,
            cm_timestamp = mr_observed_at r, cm_status = s, cm_snr = None, cm_hop_count = None,
            cm_destination_num = mr_destination_num r, cm_session_id = mr_session_id r\<rparr>
      | _ \<Rightarrow> None)"

definition load_message_history :: "database \<Rightarrow> chat_message list" where
  "load_message_history db = List.map_filter message_of_row (read_messages 5000 db)"

section \<open>Facts on threads\<close>

text \<open>The threads a list of messages makes.\<close>

definition threads_of :: "chat_message list \<Rightarrow> (chat_key \<times> chat_message list) list" where
  "threads_of hist = fold add_to_thread hist []"

lemma threads_of_snoc: "threads_of (hist @ [m]) = add_to_thread m (threads_of hist)"
  by (simp add: threads_of_def)

lemma thread_add: "thread (add_to_thread m d) k = (if k = key_for m then thread d k @ [m] else thread d k)"
  by (auto simp: thread_def add_to_thread_def odict_simps)

lemma thread_of_log: "thread (threads_of hist) k = filter (\<lambda>m. key_for m = k) hist"
  by (induction hist rule: rev_induct) (auto simp: threads_of_snoc thread_add, auto simp: threads_of_def thread_def)

lemma threads_of_distinct: "distinct (odict_keys (threads_of hist))"
  by (induction hist rule: rev_induct)
    (auto simp: threads_of_snoc add_to_thread_def odict_simps, simp add: threads_of_def)

lemma threads_of_entry: "(k, ms) \<in> set (threads_of hist) \<Longrightarrow> ms = filter (\<lambda>m. key_for m = k) hist"
  using thread_of_log [of hist k] threads_of_distinct [of hist] by (simp add: thread_def)

lemma odict_put_map: "odict_put k (f v) (map (\<lambda>(k, v). (k, f v)) d) = map (\<lambda>(k, v). (k, f v)) (odict_put k v d)"
  by (induction d) auto

lemma map_of_map_values: "map_of (map (\<lambda>(k, v). (k, f v)) d) k = map_option f (map_of d k)"
  by (induction d) auto

lemma threads_of_map:
  assumes "\<And>m. key_for (f m) = key_for m"
  shows "threads_of (map f hist) = map (\<lambda>(k, ms). (k, map f ms)) (threads_of hist)"
proof (induction hist rule: rev_induct)
  case Nil
  show ?case by (simp add: threads_of_def)
next
  case (snoc m hist)
  have "thread (map (\<lambda>(k, ms). (k, map f ms)) (threads_of hist)) (key_for m) = map f (thread (threads_of hist) (key_for m))"
    by (simp add: thread_def map_of_map_values split: option.split)
  then have "add_to_thread (f m) (map (\<lambda>(k, ms). (k, map f ms)) (threads_of hist))
      = map (\<lambda>(k, ms). (k, map f ms)) (add_to_thread m (threads_of hist))"
    using odict_put_map [of "key_for m" "map f" "thread (threads_of hist) (key_for m) @ [m]" "threads_of hist"]
    by (simp add: add_to_thread_def assms)
  with snoc show ?case by (simp add: threads_of_snoc)
qed

section \<open>Facts on the status of messages\<close>

definition set_status :: "string \<Rightarrow> (chat_message \<Rightarrow> chat_message) \<Rightarrow> chat_message \<Rightarrow> chat_message" where
  "set_status lid f m = (if cm_local_id m = lid then f m else m)"

lemma with_status_simps [simp]:
  "cm_local_id (with_status p st m) = cm_local_id m" "key_for (with_status p st m) = key_for m"
  by (simp_all add: with_status_def key_for_def split: option.split)

lemma set_status_other: "lid \<notin> set (map cm_local_id ms) \<Longrightarrow> map (set_status lid f) ms = ms"
  by (induction ms) (auto simp: set_status_def)

lemma status_in_thread_map:
  "distinct (map cm_local_id ms) \<Longrightarrow>
    status_in_thread lid f ms = (map (set_status lid f) ms, map_option f (find (\<lambda>m. cm_local_id m = lid) ms))"
proof (induction ms)
  case (Cons m ms)
  show ?case
  proof (cases "cm_local_id m = lid")
    case True
    with Cons.prems have "map (set_status lid f) ms = ms" by (intro set_status_other) simp
    with True show ?thesis by (simp add: set_status_def [of lid f m])
  next
    case False
    with Cons show ?thesis by (simp add: set_status_def [of lid f m])
  qed
qed simp

lemma status_in_threads_map:
  assumes "distinct (map cm_local_id (concat (map snd d)))"
  shows "status_in_threads lid f d
    = (map (\<lambda>(k, ms). (k, map (set_status lid f) ms)) d,
       map_option f (find (\<lambda>m. cm_local_id m = lid) (concat (map snd d))))"
  using assms
proof (induction d)
  case (Cons e d)
  obtain k ms where e: "e = (k, ms)" by (cases e)
  have ms: "distinct (map cm_local_id ms)" and d: "distinct (map cm_local_id (concat (map snd d)))"
    and apart: "set (map cm_local_id ms) \<inter> set (map cm_local_id (concat (map snd d))) = {}"
    using Cons.prems e by auto
  show ?case
  proof (cases "find (\<lambda>m. cm_local_id m = lid) ms")
    case None
    with Cons.IH [OF d] show ?thesis
      by (simp add: e status_in_thread_map [OF ms] find_append)
  next
    case (Some m)
    then have "lid \<in> set (map cm_local_id ms)" by (auto simp: find_Some_iff)
    with apart have "lid \<notin> set (map cm_local_id (concat (map snd d)))" by blast
    then have "map (set_status lid f) (snd e') = snd e'" if "e' \<in> set d" for e'
      using that by (intro set_status_other) auto
    then have "map (\<lambda>(k, ms). (k, map (set_status lid f) ms)) d = d"
      by (intro map_idI) (simp add: case_prod_beta)
    with Some show ?thesis by (simp add: e status_in_thread_map [OF ms] find_append)
  qed
qed simp

lemma concat_threads_mset: "mset (concat (map snd (threads_of hist))) = mset hist"
proof (induction hist rule: rev_induct)
  case Nil
  show ?case by (simp add: threads_of_def)
next
  case (snoc m hist)
  have put: "mset (concat (map snd (odict_put k (thread d k @ [x]) d))) = mset (concat (map snd d)) + {#x#}" 
    for k x and d :: "(chat_key \<times> chat_message list) list"
    by (induction d) (auto simp: thread_def)
  with snoc show ?case by (simp add: threads_of_snoc add_to_thread_def)
qed

lemma threads_ids_distinct:
  assumes "distinct (map cm_local_id hist)"
  shows "distinct (map cm_local_id (concat (map snd (threads_of hist))))"
proof -
  have "mset (map cm_local_id (concat (map snd (threads_of hist)))) = mset (map cm_local_id hist)"
    by (metis concat_threads_mset mset_map)
  with assms show ?thesis by (metis mset_eq_imp_distinct_iff)
qed


section \<open>Restarting\<close>

datatype chat_event =
    MessageReceived chat_message
  | SendPressed string instant
  | StatusReported string "int option" message_status
  | ChannelSelected int
  | DmSelected node_id string
  | TextEdited string
  | LinkChanged connection_state
  | ChannelsListed "channel_summary list"

definition chat_step :: "chat_event \<Rightarrow> chat_window \<Rightarrow> chat_window" where
  "chat_step ev w =
     (case ev of
        MessageReceived m \<Rightarrow> on_message_received m w
      | SendPressed uuid now \<Rightarrow> send_pressed uuid now w
      | StatusReported lid p st \<Rightarrow> on_message_status lid p st w
      | ChannelSelected i \<Rightarrow> on_channel_selected i w
      | DmSelected n name \<Rightarrow> on_dm_selected n name w
      | TextEdited t \<Rightarrow> w\<lparr>cw_composer := on_text_changed t (cw_composer w)\<rparr>
      | LinkChanged st \<Rightarrow> chat_state_changed st w
      | ChannelsListed cs \<Rightarrow> on_channels_updated cs w)"

definition chat_window_new :: "string \<Rightarrow> chat_window" where
  "chat_window_new session = \<lparr>cw_view = chat_view_new, cw_composer = composer_new, cw_session = session, cw_connected = False,
     cw_writes = [], cw_requests = []\<rparr>"

text \<open>The local ids the environment makes up for new messages, and their times.\<close>

fun new_message :: "chat_event \<Rightarrow> (string \<times> instant) option" where
  "new_message (MessageReceived m) = Some (cm_local_id m, cm_timestamp m)"
| "new_message (SendPressed uuid now) = Some (uuid, now)"
| "new_message _ = None"

definition new_messages :: "chat_event list \<Rightarrow> (string \<times> instant) list" where
  "new_messages es = List.map_filter new_message es"

text \<open>View and database tell the same messages.\<close>

definition chat_agrees :: "chat_message list \<Rightarrow> chat_window \<Rightarrow> bool" where
  "chat_agrees hist w \<longleftrightarrow>
     distinct (map cm_local_id hist) \<and> cv_threads (cw_view w) = threads_of hist
     \<and> db_messages (fold write_one (cw_writes w) empty_db) = map message_row_of hist"

lemma append_bubble_threads [simp]: "cv_threads (append_bubble m v) = cv_threads v" "cv_current (append_bubble m v) = cv_current v"
  by (simp_all add: append_bubble_def)

lemma fold_append_bubble [simp]:
  "cv_threads (fold append_bubble ms v) = cv_threads v" "cv_current (fold append_bubble ms v) = cv_current v"
  by (induction ms arbitrary: v) simp_all

lemma rebuild_simps [simp]:
  "cv_threads (rebuild_bubbles v) = cv_threads v" "cv_current (rebuild_bubbles v) = cv_current v"
  by (simp_all add: rebuild_bubbles_def clear_bubbles_def Let_def)

lemma switch_threads [simp]:
  "cv_threads (set_channel i v) = cv_threads v" "cv_threads (set_dm_target n name v) = cv_threads v"
  "cv_threads (set_no_channels_message v) = cv_threads v"
  by (simp_all add: set_channel_def set_dm_target_def set_no_channels_message_def clear_bubbles_def)

lemma add_message_threads [simp]: "cv_threads (add_message m v) = add_to_thread m (cv_threads v)"
  by (simp add: add_message_def Let_def)

lemma update_status_threads: "cv_threads (chat_update_status lid p st v) = fst (status_in_threads lid (with_status p st) (cv_threads v))"
  by (simp add: chat_update_status_def Let_def split: prod.split option.split)

lemma show_and_save_agrees:
  assumes "chat_agrees hist w" "cm_local_id m \<notin> set (map cm_local_id hist)"
  shows "chat_agrees (hist @ [m]) (show_and_save m w)"
proof -
  have "mr_local_id (message_row_of x) = cm_local_id x" for x by (simp add: message_row_of_def)
  then have "cm_local_id m \<notin> set (map mr_local_id (map message_row_of hist))" using assms(2) by (simp add: comp_def)
  with assms show ?thesis by (simp add: chat_agrees_def show_and_save_def threads_of_snoc write_message_def)
qed

lemma row_with_status:
  "message_row_of (set_status lid (with_status p st) m)
    = (if mr_local_id (message_row_of m) = lid
       then (message_row_of m)\<lparr>mr_status := status_value st, mr_packet_id := coalesce p (mr_packet_id (message_row_of m))\<rparr>
       else message_row_of m)"
  by (simp add: set_status_def with_status_def message_row_of_def coalesce_def split: option.split)

lemma status_agrees:
  assumes "chat_agrees hist w"
  shows "chat_agrees (map (set_status lid (with_status p st)) hist) (on_message_status lid p st w)"
proof -
  have keys: "key_for (set_status lid (with_status p st) m) = key_for m" for m by (simp add: set_status_def)
  have ids: "cm_local_id (set_status lid (with_status p st) m) = cm_local_id m" for m by (simp add: set_status_def)
  have "status_in_threads lid (with_status p st) (threads_of hist)
      = (threads_of (map (set_status lid (with_status p st)) hist),
         map_option (with_status p st) (find (\<lambda>m. cm_local_id m = lid) (concat (map snd (threads_of hist)))))"
    using assms threads_ids_distinct by (simp add: status_in_threads_map threads_of_map [OF keys] chat_agrees_def)
  with assms ids show ?thesis
    by (simp add: chat_agrees_def on_message_status_def update_status_threads write_message_status_def row_with_status comp_def)
qed


lemma view_change_agrees:
  assumes "chat_agrees hist w" "cv_threads v = cv_threads (cw_view w)"
  shows "chat_agrees hist (w\<lparr>cw_view := v, cw_composer := c\<rparr>)"
  using assms by (simp add: chat_agrees_def)

lemma composer_change_agrees [simp]: "chat_agrees hist (w\<lparr>cw_composer := c\<rparr>) = chat_agrees hist w"
  by (simp add: chat_agrees_def)

lemma bookkeeping_agrees [simp]:
  "chat_agrees hist (w\<lparr>cw_requests := rs\<rparr>) = chat_agrees hist w" "chat_agrees hist (w\<lparr>cw_connected := b\<rparr>) = chat_agrees hist w"
  by (simp_all add: chat_agrees_def)

definition stamp :: "chat_message \<Rightarrow> string \<times> instant" where
  "stamp m = (cm_local_id m, cm_timestamp m)"

lemma stamp_set_status: "map stamp (map (set_status lid (with_status p st)) hist) = map stamp hist"
  by (simp add: stamp_def set_status_def with_status_def)

lemma fresh_stamp: "fst (stamp m) \<notin> set (map fst (map stamp hist)) \<Longrightarrow> cm_local_id m \<notin> set (map cm_local_id hist)"
  by (auto simp: stamp_def)

text \<open>One step appends at most the new message to what view and database tell.\<close>

lemma send_agrees:
  assumes "chat_agrees hist w" "uuid \<notin> set (map cm_local_id hist)"
  shows "\<exists>ms. chat_agrees (hist @ ms) (send_pressed uuid now w) \<and> (ms = [] \<or> map stamp ms = [(uuid, now)])"
proof -
  obtain c r where send: "do_send (cw_composer w) = (c, r)" by (cases "do_send (cw_composer w)")
  have saved: "chat_agrees (hist @ [outbound uuid ch t now d (cw_session w)]) (show_and_save (outbound uuid ch t now d (cw_session w)) w)" for ch t d
    using assms by (intro show_and_save_agrees) (simp_all add: outbound_def)
  have new: "map stamp [outbound uuid ch t now d s] = [(uuid, now)]" for ch t d s by (simp add: stamp_def outbound_def)
  show ?thesis
  proof (cases "\<exists>tx. r = Some tx \<and> view_on_send tx (cw_view w) \<noteq> None")
    case True
    then obtain tx q where r: "r = Some tx" and q: "view_on_send tx (cw_view w) = Some q" by auto
    show ?thesis
    proof (cases q)
      case (SendChannel t i)
      with send r q saved new show ?thesis
        by (intro exI [of _ "[outbound uuid i t now None (cw_session w)]"]) (simp add: send_pressed_def on_send_def Let_def)
    next
      case (SendDirect t n)
      with send r q saved new show ?thesis
        by (intro exI [of _ "[outbound uuid 0 t now (Some n) (cw_session w)]"]) (simp add: send_pressed_def on_send_dm_def Let_def)
    qed
  next
    case False
    with send assms(1) show ?thesis by (intro exI [of _ "[]"]) (auto simp: send_pressed_def Let_def split: option.split)
  qed
qed

lemma chat_step_agrees:
  assumes agrees: "chat_agrees hist w" and fresh: "\<And>x t. new_message ev = Some (x, t) \<Longrightarrow> x \<notin> set (map cm_local_id hist)"
  shows "\<exists>hist' ms. chat_agrees (hist' @ ms) (chat_step ev w) \<and> map stamp hist' = map stamp hist
    \<and> (ms = [] \<or> (\<exists>x. new_message ev = Some x \<and> map stamp ms = [x]))"
proof (cases ev)
  case (MessageReceived m)
  with fresh have "cm_local_id m \<notin> set (map cm_local_id hist)" by simp
  with show_and_save_agrees [OF agrees, of "m\<lparr>cm_session_id := cw_session w\<rparr>"] MessageReceived show ?thesis
    by (intro exI [of _ hist] exI [of _ "[m\<lparr>cm_session_id := cw_session w\<rparr>]"])
      (simp add: chat_step_def on_message_received_def stamp_def)
next
  case (SendPressed uuid now)
  with fresh send_agrees [OF agrees, of uuid now] obtain ms where
    "chat_agrees (hist @ ms) (send_pressed uuid now w)" "ms = [] \<or> map stamp ms = [(uuid, now)]" by auto
  with SendPressed show ?thesis
    by (intro exI [of _ hist] exI [of _ ms]) (simp add: chat_step_def)
next
  case (StatusReported lid p st)
  with status_agrees [OF agrees, of lid p st] stamp_set_status [of lid p st hist] show ?thesis
    by (intro exI [of _ "map (set_status lid (with_status p st)) hist"] exI [of _ "[]"]) (simp add: chat_step_def)
qed (use agrees in \<open>intro exI [of _ hist] exI [of _ "[]"]; simp add: chat_step_def on_channel_selected_def on_dm_selected_def view_change_agrees chat_state_changed_def
      on_channels_updated_def Let_def chat_agrees_def split: list.split\<close>)+

text \<open>What a restart keeps of a message: everything but the reading of its signal and its hops; a sender
  without a name is \<open>Unknown\<close>.\<close>

definition restored :: "chat_message \<Rightarrow> chat_message" where
  "restored m = m\<lparr>cm_snr := None, cm_hop_count := None,
     cm_sender_name := (if cm_sender_name m = [] then ''Unknown'' else cm_sender_name m)\<rparr>"

lemma direction_round_trip: "direction_of (direction_value d) = Some d"
  by (cases d) (simp_all add: direction_of_def)

lemma status_round_trip: "status_of (status_value st) = Some st"
  by (cases st) (simp_all add: status_of_def)

lemma message_of_message_row: "message_of_row (message_row_of m) = Some (restored m)"
  by (simp add: message_of_row_def message_row_of_def direction_round_trip status_round_trip restored_def)


definition chat_run :: "string \<Rightarrow> chat_event list \<Rightarrow> chat_window" where
  "chat_run session es = fold chat_step es (chat_window_new session)"

lemma chat_run_agrees:
  assumes "distinct (map fst (new_messages es))" "sorted (map snd (new_messages es))"
  shows "\<exists>hist. chat_agrees hist (chat_run session es) \<and> set (map stamp hist) \<subseteq> set (new_messages es)
    \<and> sorted (map cm_timestamp hist) \<and> length hist \<le> length (new_messages es)"
  using assms
proof (induction es rule: rev_induct)
  case Nil
  show ?case
    by (intro exI [of _ "[]"])
      (simp add: chat_run_def chat_window_new_def chat_view_new_def chat_agrees_def threads_of_def empty_db_def)
next
  case (snoc ev es)
  have new: "new_messages (es @ [ev]) = new_messages es @ (case new_message ev of None \<Rightarrow> [] | Some x \<Rightarrow> [x])"
    unfolding new_messages_def map_filter_append map_filter_single ..
  have "distinct (map fst (new_messages es))" "sorted (map snd (new_messages es))"
    using snoc.prems by (simp_all add: new sorted_wrt_append)
  with snoc.IH obtain hist where hist: "chat_agrees hist (chat_run session es)" "set (map stamp hist) \<subseteq> set (new_messages es)"
      "sorted (map cm_timestamp hist)" "length hist \<le> length (new_messages es)" by auto
  have fresh: "x \<notin> set (map cm_local_id hist)" "\<forall>m \<in> set hist. cm_timestamp m \<le> t" if "new_message ev = Some (x, t)" for x t
  proof -
    have "x \<notin> set (map fst (new_messages es))" "\<forall>s \<in> set (map snd (new_messages es)). s \<le> t"
      using snoc.prems that by (simp_all add: new sorted_wrt_append)
    with hist(2) show "x \<notin> set (map cm_local_id hist)" "\<forall>m \<in> set hist. cm_timestamp m \<le> t"
      by (force simp: stamp_def)+
  qed
  have "\<exists>hist' ms. chat_agrees (hist' @ ms) (chat_step ev (chat_run session es)) \<and> map stamp hist' = map stamp hist
      \<and> (ms = [] \<or> (\<exists>x. new_message ev = Some x \<and> map stamp ms = [x]))"
    by (rule chat_step_agrees [OF hist(1)]) (erule fresh(1))
  then obtain hist' ms where step: "chat_agrees (hist' @ ms) (chat_step ev (chat_run session es))" "map stamp hist' = map stamp hist"
      "ms = [] \<or> (\<exists>x. new_message ev = Some x \<and> map stamp ms = [x])"
    by (elim exE conjE) simp
  have times: "map cm_timestamp hist' = map cm_timestamp hist" "length hist' = length hist"
    using arg_cong [OF step(2), of "map snd"] map_eq_imp_length_eq [OF step(2)] by (simp_all add: stamp_def comp_def)
  have set: "set (map stamp hist') = set (map stamp hist)" using step(2) by simp
  from step(3) show ?case
  proof
    assume "ms = []"
    then show ?thesis
      using step(1) times set hist by (intro exI [of _ hist']) (auto simp: chat_run_def new)
  next
    assume "\<exists>x. new_message ev = Some x \<and> map stamp ms = [x]"
    then obtain m x t where m: "ms = [m]" "new_message ev = Some (x, t)" "stamp m = (x, t)" by auto
    then have "\<forall>u \<in> set (map cm_timestamp hist'). u \<le> cm_timestamp m"
      using fresh(2) times(1) by (simp add: stamp_def)
    then have "sorted (map cm_timestamp (hist' @ ms))" using m(1) hist(3) times(1) by (auto simp: sorted_wrt_append)
    then show ?thesis
      using step(1) times(2) set hist m by (intro exI [of _ "hist' @ ms"]) (auto simp: chat_run_def new)
  qed
qed

lemma history_of_rows:
  assumes "db_messages db = map message_row_of hist" "sorted (map cm_timestamp hist)" "length hist \<le> 5000"
  shows "load_message_history db = map restored hist"
proof -
  have "mr_observed_at (message_row_of m) = cm_timestamp m" for m by (simp add: message_row_of_def)
  then have "sorted (map mr_observed_at (map message_row_of hist))" using assms(2) by (simp add: comp_def)
  then have "read_messages 5000 db = map message_row_of hist"
    using assms by (simp add: read_messages_suffix sort_key_id_if_sorted)
  then show ?thesis
    by (simp add: load_message_history_def map_filter_map message_of_message_row List.map_filter_def comp_def)
qed


definition sample_message :: "string \<Rightarrow> instant \<Rightarrow> chat_message" where
  "sample_message lid t = (outbound lid 0 ''hi'' t None [])\<lparr>cm_direction := INBOUND, cm_status := RECEIVED, cm_snr := Some 5\<rparr>"

definition sample_chat :: "chat_event list" where
  "sample_chat = [ChannelsListed [\<lparr>cs_index = 0, cs_name = ''main'', cs_role = ''PRIMARY''\<rparr>], MessageReceived (sample_message ''a'' 1),
     TextEdited ''hello'', SendPressed ''b'' 2, StatusReported ''b'' (Some 7) ACCEPTED_BY_RADIO]"

lemma sample_chat_new: "new_messages sample_chat = [(''a'', 1), (''b'', 2)]"
  by (simp add: new_messages_def sample_chat_def sample_message_def outbound_def List.map_filter_def)


text \<open>Times decide the order after a restart: a message whose radio clock is behind moves up.\<close>

lemma restart_reorders:
  "map cm_local_id (load_message_history (fold write_one (cw_writes (chat_run ''s''
     [MessageReceived (sample_message ''a'' 2), MessageReceived (sample_message ''b'' 1)])) empty_db)) = [''b'', ''a'']"
  by code_simp

text \<open>The button stays off when sending is enabled again over a valid text, although Enter sends it.\<close>

lemma button_off_after_reconnect:
  assumes "normalize_outgoing_text t \<noteq> []" "length (normalize_outgoing_text t) \<le> MAX_MESSAGE_BYTES"
    and c: "c = set_enabled_for_send True (set_enabled_for_send False (on_text_changed t composer_new))"
  shows "\<not> co_button c \<and> snd (enter_pressed False c) = Some (normalize_outgoing_text t)"
  using assms by (auto simp: c set_enabled_for_send_def on_text_changed_def enter_pressed_def do_send_def composer_new_def Let_def)

section \<open>The thread on screen\<close>

text \<open>The bubbles are the messages given, and each is found under its id.\<close>

definition bubbles_ok :: "chat_message list \<Rightarrow> chat_view \<Rightarrow> bool" where
  "bubbles_ok ms v \<longleftrightarrow> cv_shown v = ms
     \<and> (\<forall>lid i. map_of (cv_bubbles v) lid = Some i \<longleftrightarrow> i < length ms \<and> cm_local_id (ms ! i) = lid)"

definition current_thread :: "chat_view \<Rightarrow> chat_message list" where
  "current_thread v = (case cv_current v of None \<Rightarrow> [] | Some k \<Rightarrow> thread (cv_threads v) k)"

lemma bubbles_ok_append:
  assumes "bubbles_ok ms v" "cm_local_id m \<notin> set (map cm_local_id ms)"
  shows "bubbles_ok (ms @ [m]) (append_bubble m v)"
proof -
  have "cm_local_id (ms ! i) \<noteq> cm_local_id m" if "i < length ms" for i
    using assms(2) that by (metis image_eqI nth_mem set_map)
  then have "map_of (cv_bubbles (append_bubble m v)) lid = Some i
      \<longleftrightarrow> i < length (ms @ [m]) \<and> cm_local_id ((ms @ [m]) ! i) = lid" for lid i
    using assms by (auto simp: bubbles_ok_def append_bubble_def odict_put_lookup nth_append less_Suc_eq)
  then show ?thesis using assms(1) by (simp add: bubbles_ok_def append_bubble_def)
qed

lemma bubbles_ok_fold:
  assumes "bubbles_ok ms v" "distinct (map cm_local_id (ms @ xs))"
  shows "bubbles_ok (ms @ xs) (fold append_bubble xs v)"
  using assms
proof (induction xs arbitrary: ms v)
  case (Cons x xs)
  then have "bubbles_ok (ms @ [x]) (append_bubble x v)" by (intro bubbles_ok_append) auto
  with Cons.IH [of "ms @ [x]"] Cons.prems show ?case by simp
qed simp

lemma rebuild_unfold:
  "rebuild_bubbles v = (if current_thread v = [] then (rebuild_bubbles v)\<lparr>cv_bubbles := [], cv_shown := []\<rparr>
     else fold append_bubble (current_thread v) ((clear_bubbles v)\<lparr>cv_empty := None\<rparr>))"
proof -
  have "(case cv_current (clear_bubbles v) of None \<Rightarrow> [] | Some k \<Rightarrow> thread (cv_threads (clear_bubbles v)) k) = current_thread v"
    by (simp add: current_thread_def clear_bubbles_def split: option.split)
  then show ?thesis unfolding rebuild_bubbles_def Let_def by (simp add: clear_bubbles_def)
qed

lemma bubbles_ok_rebuild:
  assumes "distinct (map cm_local_id (current_thread v))"
  shows "bubbles_ok (current_thread v) (rebuild_bubbles v)"
proof (cases "current_thread v = []")
  case True
  then show ?thesis by (subst rebuild_unfold) (simp add: bubbles_ok_def)
next
  case False
  have "bubbles_ok [] ((clear_bubbles v)\<lparr>cv_empty := None\<rparr>)" by (simp add: bubbles_ok_def clear_bubbles_def)
  from bubbles_ok_fold [OF this, of "current_thread v"] assms False
  show ?thesis by (subst rebuild_unfold) simp
qed

lemma current_of_hist:
  "cv_threads v = threads_of hist \<Longrightarrow> current_thread v = filter (\<lambda>m. Some (key_for m) = cv_current v) hist"
  by (auto simp: current_thread_def thread_of_log intro!: filter_cong split: option.split)

definition screen_ok :: "chat_message list \<Rightarrow> chat_view \<Rightarrow> bool" where
  "screen_ok hist v \<longleftrightarrow> distinct (map cm_local_id hist) \<and> cv_threads v = threads_of hist
     \<and> bubbles_ok (current_thread v) v"

lemma screen_switch:
  assumes "distinct (map cm_local_id hist)" "cv_threads v = threads_of hist"
  shows "screen_ok hist (rebuild_bubbles v)"
proof -
  have "current_thread (rebuild_bubbles v) = current_thread v" by (simp add: current_thread_def split: option.split)
  moreover have "distinct (map cm_local_id (current_thread v))"
    using assms by (simp add: current_of_hist distinct_filter_map)
  ultimately show ?thesis using assms bubbles_ok_rebuild [of v] by (simp add: screen_ok_def)
qed

lemma screen_add:
  assumes ok: "screen_ok hist v" and new: "cm_local_id m \<notin> set (map cm_local_id hist)"
  shows "screen_ok (hist @ [m]) (add_message m v)"
proof -
  let ?v = "v\<lparr>cv_threads := add_to_thread m (cv_threads v)\<rparr>"
  have threads: "cv_threads v = threads_of hist" "cv_threads ?v = threads_of (hist @ [m])"
    using ok by (simp_all add: screen_ok_def threads_of_snoc)
  have v: "bubbles_ok (current_thread v) ?v" using ok by (simp add: screen_ok_def bubbles_ok_def)
  have cur: "current_thread u = current_thread v @ (if Some (key_for m) = cv_current v then [m] else [])"
    if "cv_threads u = threads_of (hist @ [m])" "cv_current u = cv_current v" for u
    using that by (simp add: current_of_hist threads)
  have "cm_local_id m \<notin> set (map cm_local_id (current_thread v))"
    using new by (auto simp: current_of_hist threads)
  with v have app: "bubbles_ok (current_thread v @ [m]) (append_bubble m ?v)" by (rule bubbles_ok_append)
  show ?thesis
  proof (cases "Some (key_for m) = cv_current v")
    case True
    then have "add_message m v = append_bubble m ?v" by (simp add: add_message_def Let_def)
    with True app cur [of "append_bubble m ?v"] threads new ok show ?thesis by (simp add: screen_ok_def)
  next
    case False
    then have "add_message m v = ?v" by (simp add: add_message_def Let_def)
    with False v cur [of ?v] threads new ok show ?thesis by (simp add: screen_ok_def)
  qed
qed

lemma find_status_thread:
  assumes "distinct (map cm_local_id ms)" "i < length ms" "cm_local_id (ms ! i) = lid"
  shows "map (set_status lid f) ms = ms[i := f (ms ! i)]"
  using assms
proof (intro nth_equalityI)
  fix j assume j: "j < length (map (set_status lid f) ms)"
  have "i = j" if "cm_local_id (ms ! j) = lid"
    using that assms j by (metis length_map nth_eq_iff_index_eq nth_map)
  then show "map (set_status lid f) ms ! j = ms[i := f (ms ! i)] ! j"
    using j assms by (auto simp: set_status_def nth_list_update)
qed simp

text \<open>What a status update does to view and threads, with ids that are unique.\<close>

lemma update_status_effect:
  assumes "screen_ok hist v" and f: "f = with_status p st" and u: "u = chat_update_status lid p st v"
  shows "cv_threads u = threads_of (map (set_status lid f) hist)" "cv_current u = cv_current v" "cv_bubbles u = cv_bubbles v"
    "cv_shown u = (case map_of (cv_bubbles v) lid of None \<Rightarrow> cv_shown v | Some i \<Rightarrow> (cv_shown v)[i := f (cv_shown v ! i)])"
proof -
  define all where "all = concat (map snd (threads_of hist))"
  have dist: "distinct (map cm_local_id hist)" and threads: "cv_threads v = threads_of hist"
    and ok: "bubbles_ok (current_thread v) v" using assms(1) by (simp_all add: screen_ok_def)
  have all: "mset all = mset hist" "distinct (map cm_local_id all)"
    using concat_threads_mset threads_ids_distinct [OF dist] by (simp_all add: all_def del: map_concat)
  have keys: "key_for (set_status lid f m) = key_for m" for m by (simp add: set_status_def f)
  have found: "status_in_threads lid f (threads_of hist)
      = (threads_of (map (set_status lid f) hist), map_option f (find (\<lambda>m. cm_local_id m = lid) all))"
    using threads_ids_distinct [OF dist] by (simp add: status_in_threads_map threads_of_map [OF keys] all_def)
  show "cv_threads u = threads_of (map (set_status lid f) hist)"
    using found by (simp add: u update_status_threads threads f)
  show "cv_current u = cv_current v" "cv_bubbles u = cv_bubbles v"
    by (simp_all add: u chat_update_status_def Let_def split: prod.split option.split)
  show "cv_shown u = (case map_of (cv_bubbles v) lid of None \<Rightarrow> cv_shown v | Some i \<Rightarrow> (cv_shown v)[i := f (cv_shown v ! i)])"
  proof (cases "map_of (cv_bubbles v) lid")
    case None
    then show ?thesis by (simp add: u chat_update_status_def Let_def split: prod.split option.split)
  next
    case (Some i)
    then have i: "i < length (current_thread v)" "cm_local_id (current_thread v ! i) = lid" "cv_shown v = current_thread v"
      using ok by (auto simp: bubbles_ok_def)
    then have "current_thread v ! i \<in> set hist" using nth_mem [OF i(1)] by (auto simp: current_of_hist [OF threads])
    then have mem: "current_thread v ! i \<in> set all" using all(1) by (metis mset_eq_setD)
    then obtain m where m: "find (\<lambda>m. cm_local_id m = lid) all = Some m" using find_complete [OF mem, of "\<lambda>m. cm_local_id m = lid"] i(2) by auto
    from find_sound [OF m] have "m \<in> set all" "cm_local_id m = lid" by blast+
    with mem i(2) all(2) have "m = current_thread v ! i" by (metis distinct_map inj_onD)
    with m i(3) Some found threads show ?thesis by (simp add: u chat_update_status_def f Let_def)
  qed
qed

lemma screen_status:
  assumes "screen_ok hist v"
  shows "screen_ok (map (set_status lid (with_status p st)) hist) (chat_update_status lid p st v)"
proof -
  let ?f = "with_status p st" and ?v = "chat_update_status lid p st v"
  note effect = update_status_effect [OF assms refl refl, of lid p st]
  have dist: "distinct (map cm_local_id hist)" and threads: "cv_threads v = threads_of hist"
    and ok: "bubbles_ok (current_thread v) v" using assms by (simp_all add: screen_ok_def)
  have ids: "cm_local_id (set_status lid ?f m) = cm_local_id m" "key_for (set_status lid ?f m) = key_for m" for m
    by (simp_all add: set_status_def)
  have current: "current_thread ?v = map (set_status lid ?f) (current_thread v)"
    by (simp add: current_of_hist [OF effect(1)] current_of_hist [OF threads] filter_map comp_def ids effect(2))
  have "cv_shown ?v = map (set_status lid ?f) (current_thread v)"
  proof (cases "map_of (cv_bubbles v) lid")
    case None
    then have "\<forall>i < length (current_thread v). cm_local_id (current_thread v ! i) \<noteq> lid"
      using ok unfolding bubbles_ok_def by (metis option.distinct(1))
    then have "lid \<notin> set (map cm_local_id (current_thread v))" by (metis in_set_conv_nth length_map nth_map)
    then have "map (set_status lid ?f) (current_thread v) = current_thread v" by (rule set_status_other)
    with None effect(4) ok show ?thesis by (simp add: bubbles_ok_def)
  next
    case (Some i)
    have "distinct (map cm_local_id (current_thread v))" using dist by (simp add: current_of_hist [OF threads] distinct_filter_map)
    moreover have "i < length (current_thread v)" "cm_local_id (current_thread v ! i) = lid" "cv_shown v = current_thread v"
      using ok Some by (auto simp: bubbles_ok_def)
    ultimately show ?thesis using Some effect(4) by (simp add: find_status_thread)
  qed
  then have "bubbles_ok (current_thread ?v) ?v" using ok effect(3) current by (auto simp: bubbles_ok_def ids)
  then show ?thesis using dist effect(1) ids by (simp add: screen_ok_def comp_def)
qed

lemma screen_switches:
  assumes "screen_ok hist v"
  shows "screen_ok hist (set_channel i v)" "screen_ok hist (set_dm_target n name v)"
  using assms by (auto simp: set_channel_def set_dm_target_def screen_ok_def [of hist v] intro!: screen_switch)

definition screen_of :: "chat_message list \<Rightarrow> chat_window \<Rightarrow> bool" where
  "screen_of hist w \<longleftrightarrow> screen_ok hist (cw_view w)"

lemma screen_show_and_save:
  "screen_of hist w \<Longrightarrow> cm_local_id m \<notin> set (map cm_local_id hist) \<Longrightarrow> screen_of (hist @ [m]) (show_and_save m w)"
  by (simp add: screen_of_def show_and_save_def screen_add)

lemma screen_send:
  assumes "screen_of hist w" "uuid \<notin> set (map cm_local_id hist)"
  shows "\<exists>ms. screen_of (hist @ ms) (send_pressed uuid now w) \<and> set (map cm_local_id ms) \<subseteq> {uuid}"
proof -
  have saved: "screen_of (hist @ [outbound uuid ch t now d (cw_session w)]) (show_and_save (outbound uuid ch t now d (cw_session w)) w)" for ch t d
    using assms by (intro screen_show_and_save) (simp_all add: outbound_def)
  have none: "screen_of hist (w\<lparr>cw_composer := c\<rparr>)" for c using assms(1) by (simp add: screen_of_def)
  obtain c r where send: "do_send (cw_composer w) = (c, r)" by (cases "do_send (cw_composer w)")
  show ?thesis
  proof (cases "\<exists>tx q. r = Some tx \<and> view_on_send tx (cw_view w) = Some q")
    case True
    then obtain tx q where r: "r = Some tx" "view_on_send tx (cw_view w) = Some q" by auto
    show ?thesis
    proof (cases q)
      case (SendChannel t i)
      with send r saved [of i t None] show ?thesis
        by (intro exI [of _ "[outbound uuid i t now None (cw_session w)]"])
          (simp add: send_pressed_def on_send_def screen_of_def Let_def, simp add: outbound_def)
    next
      case (SendDirect t n)
      with send r saved [of 0 t "Some n"] show ?thesis
        by (intro exI [of _ "[outbound uuid 0 t now (Some n) (cw_session w)]"])
          (simp add: send_pressed_def on_send_dm_def screen_of_def Let_def, simp add: outbound_def)
    qed
  next
    case False
    with send none show ?thesis by (intro exI [of _ "[]"]) (auto simp: send_pressed_def Let_def split: option.split)
  qed
qed

lemma screen_step:
  assumes ok: "screen_of hist w" and fresh: "\<forall>x t. new_message ev = Some (x, t) \<longrightarrow> x \<notin> set (map cm_local_id hist)"
    and some: "ev \<noteq> ChannelsListed []"
  shows "\<exists>hist'. screen_of hist' (chat_step ev w)
    \<and> set (map cm_local_id hist') \<subseteq> set (map cm_local_id hist) \<union> (case new_message ev of None \<Rightarrow> {} | Some x \<Rightarrow> {fst x})"
proof (cases ev)
  case (MessageReceived m)
  then have "cm_local_id m \<notin> set (map cm_local_id hist)" using fresh by simp
  with screen_show_and_save [OF ok, of "m\<lparr>cm_session_id := cw_session w\<rparr>"] MessageReceived show ?thesis
    by (intro exI [of _ "hist @ [m\<lparr>cm_session_id := cw_session w\<rparr>]"]) (simp add: chat_step_def on_message_received_def)
next
  case (SendPressed uuid now)
  then have "uuid \<notin> set (map cm_local_id hist)" using fresh by simp
  from screen_send [OF ok this, of now] obtain ms where
    "screen_of (hist @ ms) (send_pressed uuid now w)" "set (map cm_local_id ms) \<subseteq> {uuid}" by auto
  with SendPressed show ?thesis by (intro exI [of _ "hist @ ms"]) (auto simp: chat_step_def)
next
  case (StatusReported lid p st)
  with screen_status [of hist "cw_view w" lid p st] ok show ?thesis
    by (intro exI [of _ "map (set_status lid (with_status p st)) hist"])
      (auto simp: chat_step_def on_message_status_def screen_of_def set_status_def)
next
  case (ChannelsListed cs)
  with some ok show ?thesis
    by (intro exI [of _ hist])
      (auto simp: chat_step_def on_channels_updated_def screen_of_def screen_switches split: list.split)
qed (use ok in \<open>intro exI [of _ hist]; auto simp: chat_step_def on_channel_selected_def on_dm_selected_def
    chat_state_changed_def screen_of_def screen_switches Let_def\<close>)+

lemma chat_run_screen:
  assumes "distinct (map fst (new_messages es))" "ChannelsListed [] \<notin> set es"
  shows "\<exists>hist. screen_of hist (chat_run session es) \<and> set (map cm_local_id hist) \<subseteq> set (map fst (new_messages es))"
  using assms
proof (induction es rule: rev_induct)
  case Nil
  show ?case
    by (intro exI [of _ "[]"])
      (simp add: chat_run_def chat_window_new_def chat_view_new_def screen_of_def screen_ok_def threads_of_def
        bubbles_ok_def current_thread_def)
next
  case (snoc ev es)
  have new: "new_messages (es @ [ev]) = new_messages es @ (case new_message ev of None \<Rightarrow> [] | Some x \<Rightarrow> [x])"
    unfolding new_messages_def map_filter_append map_filter_single ..
  have "distinct (map fst (new_messages es))" using snoc.prems(1) by (simp add: new)
  with snoc obtain hist where hist: "screen_of hist (chat_run session es)"
      "set (map cm_local_id hist) \<subseteq> set (map fst (new_messages es))" by auto
  have "\<forall>x t. new_message ev = Some (x, t) \<longrightarrow> x \<notin> set (map cm_local_id hist)"
  proof (intro allI impI)
    fix x t assume "new_message ev = Some (x, t)"
    then have "x \<notin> set (map fst (new_messages es))" using snoc.prems(1) by (simp add: new)
    with hist(2) show "x \<notin> set (map cm_local_id hist)" by blast
  qed
  from screen_step [OF hist(1) this] snoc.prems(2) obtain hist' where hist':
    "screen_of hist' (chat_step ev (chat_run session es))"
    "set (map cm_local_id hist') \<subseteq> set (map cm_local_id hist) \<union> (case new_message ev of None \<Rightarrow> {} | Some x \<Rightarrow> {fst x})" by auto
  have "set (map cm_local_id hist') \<subseteq> set (map fst (new_messages es)) \<union> (case new_message ev of None \<Rightarrow> {} | Some x \<Rightarrow> {fst x})"
    using hist'(2) hist(2) by blast
  also have "\<dots> = set (map fst (new_messages (es @ [ev])))" by (simp add: new split: option.split)
  finally show ?case using hist'(1) by (auto simp: chat_run_def)
qed



section \<open>The side bar\<close>

text \<open>Two lists of which at most one has a current row; \<open>None\<close> is Qt's row -1.\<close>

record side_bar =
  sb_channels :: "channel_summary list"
  sb_row :: "nat option"
  sb_nodes :: "node_snapshot list"
  sb_dm_row :: "nat option"
  sb_local :: "node_id option"

datatype side_signal = ChannelPicked int | DmPicked node_id string

definition side_bar_new :: side_bar where
  "side_bar_new = \<lparr>sb_channels = [], sb_row = None, sb_nodes = [], sb_dm_row = None, sb_local = None\<rparr>"

text \<open>Setting a row, by a click or by the program, only signals when the row changes.  A change to row -1
  reaches a handler that ignores it.\<close>

definition set_channel_row :: "nat option \<Rightarrow> side_bar \<Rightarrow> side_bar \<times> side_signal list" where
  "set_channel_row r b =
     (if sb_row b = r then (b, [])
      else let b = b\<lparr>sb_row := r\<rparr>
           in case r of
                Some i \<Rightarrow> if i \<ge> length (sb_channels b) then (b, [])
                          else (b\<lparr>sb_dm_row := None\<rparr>, [ChannelPicked (cs_index (sb_channels b ! i))])
              | None \<Rightarrow> (b, []))"

definition set_dm_row :: "nat option \<Rightarrow> side_bar \<Rightarrow> side_bar \<times> side_signal list" where
  "set_dm_row r b =
     (if sb_dm_row b = r then (b, [])
      else let b = b\<lparr>sb_dm_row := r\<rparr>
           in case r of
                Some i \<Rightarrow> if i \<ge> length (sb_nodes b) then (b, [])
                          else (b\<lparr>sb_row := None\<rparr>, [DmPicked (nd_num (sb_nodes b ! i)) (node_display_name (sb_nodes b ! i))])
              | None \<Rightarrow> (b, []))"

definition set_channels :: "channel_summary list \<Rightarrow> side_bar \<Rightarrow> side_bar \<times> side_signal list" where
  "set_channels cs b =
     (let b = b\<lparr>sb_channels := cs, sb_row := None\<rparr> in if cs = [] then (b, []) else set_channel_row (Some 0) b)"

definition clear_channels :: "side_bar \<Rightarrow> side_bar" where
  "clear_channels b = b\<lparr>sb_channels := [], sb_row := None\<rparr>"

definition current_channel_index :: "side_bar \<Rightarrow> int option" where
  "current_channel_index b = map_option (\<lambda>i. cs_index (sb_channels b ! i)) (sb_row b)"

definition current_dm_target :: "side_bar \<Rightarrow> node_id option" where
  "current_dm_target b = map_option (\<lambda>i. nd_num (sb_nodes b ! i)) (sb_dm_row b)"

definition set_local_node :: "node_id option \<Rightarrow> side_bar \<Rightarrow> side_bar" where
  "set_local_node n b = b\<lparr>sb_local := n\<rparr>"

text \<open>The last row that holds the node, as the loop leaves it.\<close>

fun last_row :: "node_id option \<Rightarrow> nat \<Rightarrow> node_snapshot list \<Rightarrow> nat option" where
  "last_row target i [] = None"
| "last_row target i (n # ns) =
     (case last_row target (i + 1) ns of
        Some j \<Rightarrow> Some j
      | None \<Rightarrow> if Some (nd_num n) = target then Some i else None)"

definition set_dm_nodes :: "node_snapshot list \<Rightarrow> side_bar \<Rightarrow> side_bar \<times> side_signal list" where
  "set_dm_nodes nodes b =
     (let selected = current_dm_target b;
          ns = sort_key (\<lambda>n. lower (node_display_name n)) (filter (\<lambda>n. Some (nd_num n) \<noteq> sb_local b) nodes);
          b = b\<lparr>sb_nodes := ns, sb_dm_row := None\<rparr>
      in case last_row selected 0 ns of None \<Rightarrow> (b, []) | Some i \<Rightarrow> set_dm_row (Some i) b)"

text \<open>At most one list has a current row, and rows are in range.\<close>

definition side_ok :: "side_bar \<Rightarrow> bool" where
  "side_ok b \<longleftrightarrow> (sb_row b = None \<or> sb_dm_row b = None)
     \<and> (case sb_row b of None \<Rightarrow> True | Some i \<Rightarrow> i < length (sb_channels b))
     \<and> (case sb_dm_row b of None \<Rightarrow> True | Some i \<Rightarrow> i < length (sb_nodes b))"

lemma side_ok_channel_row:
  "side_ok b \<Longrightarrow> (case r of None \<Rightarrow> True | Some i \<Rightarrow> i < length (sb_channels b)) \<Longrightarrow> side_ok (fst (set_channel_row r b))"
  by (auto simp: side_ok_def set_channel_row_def Let_def split: option.splits)

lemma side_ok_dm_row:
  "side_ok b \<Longrightarrow> (case r of None \<Rightarrow> True | Some i \<Rightarrow> i < length (sb_nodes b)) \<Longrightarrow> side_ok (fst (set_dm_row r b))"
  by (auto simp: side_ok_def set_dm_row_def Let_def split: option.splits)

lemma side_ok_channels: "side_ok b \<Longrightarrow> side_ok (fst (set_channels cs b))"
  unfolding set_channels_def Let_def
  by (auto intro!: side_ok_channel_row) (auto simp: side_ok_def split: option.splits)

lemma last_row_range: "last_row target i ns = Some j \<Longrightarrow> i \<le> j \<and> j < i + length ns \<and> Some (nd_num (ns ! (j - i))) = target"
proof (induction ns arbitrary: i)
  case (Cons n ns)
  show ?case
  proof (cases "last_row target (i + 1) ns")
    case None
    with Cons.prems show ?thesis by (auto split: if_splits)
  next
    case (Some k)
    with Cons.prems have "k = j" by simp
    with Some Cons.IH [of "i + 1"] have *: "i + 1 \<le> j \<and> j < i + 1 + length ns \<and> Some (nd_num (ns ! (j - (i + 1)))) = target"
      by simp
    then have "j - i = Suc (j - (i + 1))" by arith
    with * show ?thesis by simp
  qed
qed simp

lemma side_ok_dm_nodes: "side_ok b \<Longrightarrow> side_ok (fst (set_dm_nodes nodes b))"
  unfolding set_dm_nodes_def Let_def
  by (auto intro!: side_ok_dm_row dest: last_row_range split: option.split)
    (auto simp: side_ok_def split: option.splits)

lemma last_row_found: "n \<in> set ns \<Longrightarrow> \<exists>j. last_row (Some (nd_num n)) i ns = Some j"
proof (induction ns arbitrary: i)
  case (Cons a ns)
  show ?case
  proof (cases "n \<in> set ns")
    case True
    with Cons.IH [of "i + 1"] show ?thesis by auto
  next
    case False
    with Cons.prems have "n = a" by simp
    then show ?thesis by (simp split: option.split)
  qed
qed simp

text \<open>Refreshing the list of nodes announces the selected one again, if it is still there: the open
  conversation is rebuilt and scrolled to its end at every refresh.\<close>

lemma refresh_reselects:
  assumes b: "side_ok b" "sb_dm_row b = Some i" and n: "n \<in> set nodes" "Some (nd_num n) = current_dm_target b" "Some (nd_num n) \<noteq> sb_local b"
  shows "\<exists>name. snd (set_dm_nodes nodes b) = [DmPicked (nd_num n) name]"
proof -
  define ns where "ns = sort_key (\<lambda>n. lower (node_display_name n)) (filter (\<lambda>n. Some (nd_num n) \<noteq> sb_local b) nodes)"
  have mem: "n \<in> set ns" using n by (simp add: ns_def)
  obtain j where j: "last_row (current_dm_target b) 0 ns = Some j" using last_row_found [OF mem] n(2) by metis
  with last_row_range [OF j] n(2) have "j < length ns" "nd_num (ns ! j) = nd_num n" by (metis add_0 diff_zero, metis diff_zero option.inject)
  then show ?thesis using j by (simp add: set_dm_nodes_def set_dm_row_def ns_def [symmetric] Let_def)
qed

text \<open>The Nodes page opens a conversation without the side bar: a click on the channel that is still its
  current row then changes nothing.\<close>

lemma channel_click_after_node_message:
  assumes "sb_row b = Some i"
  shows "set_channel_row (Some i) b = (b, [])"
  using assms by (simp add: set_channel_row_def)

end
