(* ===== verification/Export.thy ===== *)
theory Export
  imports Models Database PyValue
begin

text \<open>
  \<open>services/export_service.py\<close> and the export handlers of \<open>ui/main_window.py\<close>: which packets are exported,
  the CSV rows and the \<open>csv\<close> module's writer that puts them in the file, node export, the session
  summary, and the export thread.  \<open>isoformat\<close> and the text of a float are parameters.  The reader of
  the last section is the one RFC 4180 describes, so that the file can be read back.
\<close>

section \<open>The csv module's writer\<close>

definition comma :: char where "comma = CHR '',''"
definition quot :: char where "quot = CHR 0x22"

text \<open>The default dialect quotes a field that holds a comma, a quote or a line end, and doubles quotes.\<close>

definition csv_special :: "char \<Rightarrow> bool" where
  "csv_special c \<longleftrightarrow> c = comma \<or> c = quot \<or> c = cr \<or> c = lf"

definition csv_double :: "string \<Rightarrow> string" where
  "csv_double s = concat (map (\<lambda>c. if c = quot then [quot, quot] else [c]) s)"

definition csv_field :: "string \<Rightarrow> string" where
  "csv_field s = (if list_ex csv_special s then [quot] @ csv_double s @ [quot] else s)"

definition csv_line :: "string list \<Rightarrow> string" where
  "csv_line fs = join_with [comma] (map csv_field fs) @ [cr, lf]"

text \<open>\<open>DictWriter\<close>: the fields in the order of the field names.  The rows here have exactly those keys.\<close>

definition dict_line :: "string list \<Rightarrow> (string \<times> string) list \<Rightarrow> string" where
  "dict_line fieldnames row = csv_line (map (\<lambda>k. case map_of row k of None \<Rightarrow> [] | Some v \<Rightarrow> v) fieldnames)"

definition dict_file :: "string list \<Rightarrow> (string \<times> string) list list \<Rightarrow> string" where
  "dict_file fieldnames rows = csv_line fieldnames @ concat (map (dict_line fieldnames) rows)"

section \<open>Packets\<close>

definition PACKET_FIELDS :: "string list" where
  "PACKET_FIELDS = [''observed_at'', ''rx_time'', ''sender_num'', ''sender_id'', ''destination_num'', ''packet_id'',
     ''channel_index'', ''portnum'', ''portnum_name'', ''payload_size'', ''rx_snr'', ''rx_rssi'', ''hop_start'', ''hop_limit'',
     ''hops_used'', ''via_mqtt'', ''transport_mechanism'']"

definition cell :: "('a \<Rightarrow> string) \<Rightarrow> 'a option \<Rightarrow> string" where
  "cell show v = (case v of None \<Rightarrow> [] | Some x \<Rightarrow> show x)"

definition str_cell :: "string option \<Rightarrow> string" where
  "str_cell v = (case v of None \<Rightarrow> [] | Some s \<Rightarrow> s)"

definition packet_csv_row ::
    "(instant \<Rightarrow> string) \<Rightarrow> (pyfloat \<Rightarrow> string) \<Rightarrow> bool \<Rightarrow> network_packet \<Rightarrow> (string \<times> string) list" where
  "packet_csv_row iso_str float_str include_text p =
     [(''observed_at'', iso_str (pk_observed_at p)), (''rx_time'', cell iso_str (pk_rx_time p)),
      (''sender_num'', cell show_int (pk_sender_num p)), (''sender_id'', str_cell (pk_sender_id p)),
      (''destination_num'', cell show_int (pk_destination_num p)), (''packet_id'', cell show_int (pk_packet_id p)),
      (''channel_index'', cell show_int (pk_channel_index p)), (''portnum'', cell show_int (pk_portnum p)),
      (''portnum_name'', pk_portnum_name p), (''payload_size'', cell show_nat (pk_payload_size p)),
      (''rx_snr'', cell float_str (pk_rx_snr p)), (''rx_rssi'', cell show_int (pk_rx_rssi p)),
      (''hop_start'', cell show_int (pk_hop_start p)), (''hop_limit'', cell show_int (pk_hop_limit p)),
      (''hops_used'', cell show_int (pk_hops_used p)),
      (''via_mqtt'', cell (\<lambda>b. if b then ''1'' else ''0'') (pk_via_mqtt p)),
      (''transport_mechanism'', str_cell (pk_transport_mechanism p))]
     @ (if include_text then [(''text'', str_cell (pk_text p))] else [])"

definition export_packets_csv ::
    "(instant \<Rightarrow> string) \<Rightarrow> (pyfloat \<Rightarrow> string) \<Rightarrow> network_packet list \<Rightarrow> bool \<Rightarrow> string \<times> nat" where
  "export_packets_csv iso_str float_str packets include_text =
     (dict_file (PACKET_FIELDS @ (if include_text then [''text''] else []))
        (map (packet_csv_row iso_str float_str include_text) packets),
      length packets)"

section \<open>Nodes and sessions\<close>

definition NODE_FIELDS :: "string list" where
  "NODE_FIELDS = [''node_num'', ''node_id'', ''long_name'', ''short_name'', ''role'', ''hw_model'', ''first_seen'', ''last_heard'',
     ''packet_count'', ''text_count'', ''rf_count'', ''via_mqtt_count'', ''last_snr'', ''last_rssi'', ''last_hops_used'']"

definition node_csv_row :: "(instant \<Rightarrow> string) \<Rightarrow> (pyfloat \<Rightarrow> string) \<Rightarrow> node_snapshot \<Rightarrow> (string \<times> string) list" where
  "node_csv_row iso_str float_str n =
     [(''node_num'', show_int (nd_num n)), (''node_id'', str_cell (nd_node_id n)), (''long_name'', str_cell (nd_long_name n)),
      (''short_name'', str_cell (nd_short_name n)), (''role'', str_cell (nd_role n)), (''hw_model'', str_cell (nd_hw_model n)),
      (''first_seen'', cell iso_str (nd_first_seen n)), (''last_heard'', cell iso_str (nd_last_heard n)),
      (''packet_count'', show_nat (nd_packet_count n)), (''text_count'', show_nat (nd_text_count n)),
      (''rf_count'', show_nat (nd_rf_count n)), (''via_mqtt_count'', show_nat (nd_via_mqtt_count n)),
      (''last_snr'', cell float_str (nd_last_snr n)), (''last_rssi'', cell show_int (nd_last_rssi n)),
      (''last_hops_used'', cell show_int (nd_last_hops_used n))]"

definition export_nodes_csv :: "(instant \<Rightarrow> string) \<Rightarrow> (pyfloat \<Rightarrow> string) \<Rightarrow> node_snapshot list \<Rightarrow> string \<times> nat" where
  "export_nodes_csv iso_str float_str nodes = (dict_file NODE_FIELDS (map (node_csv_row iso_str float_str) nodes), length nodes)"

text \<open>The object \<open>json.dumps\<close> writes; the two version texts are arguments.\<close>

definition text_or_null :: "string option \<Rightarrow> pyval" where
  "text_or_null v = (case v of None \<Rightarrow> PNone | Some s \<Rightarrow> PStr s)"

definition session_json :: "(instant \<Rightarrow> string) \<Rightarrow> string \<Rightarrow> string \<Rightarrow> network_session \<Rightarrow> pydict option \<Rightarrow> pydict" where
  "session_json iso_str app_version meshtastic_version s stats =
     [(''app_version'', PStr app_version), (''meshtastic_version'', PStr meshtastic_version), (''session_id'', PStr (se_id s)),
      (''transport'', PStr (se_transport s)), (''connection_target'', PStr (se_connection_target s)),
      (''started_at'', PStr (iso_str (se_started_at s))), (''ended_at'', text_or_null (map_option iso_str (se_ended_at s))),
      (''local_node_id'', text_or_null (se_local_node_id s)), (''packet_count'', PInt (int (se_packet_count s))),
      (''stats'', PDict (case stats of None \<Rightarrow> [] | Some d \<Rightarrow> d))]"

section \<open>Which packets are exported\<close>

definition packet_key :: "network_packet \<Rightarrow> node_id option \<times> int option \<times> instant" where
  "packet_key p = (pk_sender_num p, pk_packet_id p, pk_observed_at p)"

definition export_rows :: "network_packet list \<Rightarrow> network_packet list \<Rightarrow> network_packet list" where
  "export_rows recent store_rows =
     sort_key pk_observed_at (filter (\<lambda>p. packet_key p \<notin> packet_key ` set recent) store_rows @ recent)"

section \<open>The export thread\<close>

text \<open>What the user answered: whether to go on with a partial export, the file chosen, whether to include
  the text.\<close>

record export_answers =
  ea_proceed :: bool
  ea_path :: string
  ea_include_text :: bool

datatype export_job = ExportJob "network_packet list" string bool

record export_window =
  ew_thread :: "export_job option"
  ew_quitting :: bool
  ew_enabled :: bool
  ew_status :: string
  ew_boxes :: "string list"

definition export_window_new :: export_window where
  "export_window_new = \<lparr>ew_thread = None, ew_quitting = False, ew_enabled = True, ew_status = [], ew_boxes = []\<rparr>"

definition export_packets ::
    "network_packet list \<Rightarrow> network_packet list \<Rightarrow> nat \<Rightarrow> export_answers \<Rightarrow> export_window \<Rightarrow> export_window" where
  "export_packets recent store_rows captured a w =
     (if ew_thread w \<noteq> None then w\<lparr>ew_status := ''A packet export is already in progress''\<rparr>
      else let rows = export_rows recent store_rows
           in if rows = [] then w\<lparr>ew_status := ''Nothing to export '' @ emdash @ '' no packets captured yet''\<rparr>
              else if captured > length rows \<and> \<not> ea_proceed a then w
              else if ea_path a = [] then w
              else w\<lparr>ew_status := ''Exporting '' @ show_nat (length rows) @ '' packet(s)'' @ ellipsis, ew_enabled := False,
                     ew_thread := Some (ExportJob rows (ea_path a) (ea_include_text a))\<rparr>)"

text \<open>The worker: \<open>Inl\<close> is the text of whatever exception writing the file raised.\<close>

definition export_worker_done :: "string + nat \<Rightarrow> export_window \<Rightarrow> export_window" where
  "export_worker_done r w =
     (if ew_thread w = None \<or> ew_quitting w then w
      else let w = w\<lparr>ew_quitting := True\<rparr>
           in case r of
                Inr n \<Rightarrow> w\<lparr>ew_status := ''Exported '' @ show_nat n @ '' packet(s)''\<rparr>
              | Inl e \<Rightarrow> w\<lparr>ew_boxes := ew_boxes w @ [''Could not write the file:'' @ [CHR 0x0A] @ e]\<rparr>)"

definition export_thread_finished :: "export_window \<Rightarrow> export_window" where
  "export_thread_finished w =
     (if ew_quitting w then w\<lparr>ew_thread := None, ew_quitting := False, ew_enabled := True\<rparr> else w)"

definition export_nodes :: "(instant \<Rightarrow> string) \<Rightarrow> (pyfloat \<Rightarrow> string) \<Rightarrow> node_snapshot list \<Rightarrow> string \<Rightarrow> string option
    \<Rightarrow> export_window \<Rightarrow> export_window \<times> string option" where
  "export_nodes iso_str float_str nodes path os_error w =
     (if nodes = [] then (w\<lparr>ew_status := ''Nothing to export '' @ emdash @ '' no nodes known yet''\<rparr>, None)
      else if path = [] then (w, None)
      else case os_error of
             Some e \<Rightarrow> (w\<lparr>ew_boxes := ew_boxes w @ [''Could not write the file:'' @ [CHR 0x0A] @ e]\<rparr>, None)
           | None \<Rightarrow>
               (case export_nodes_csv iso_str float_str nodes of
                  (file, n) \<Rightarrow> (w\<lparr>ew_status := ''Exported '' @ show_nat n @ '' node(s) to '' @ path\<rparr>, Some file)))"

section \<open>Reading a file back\<close>

text \<open>A quoted field ends at a quote that is not doubled; any other ends at the first special character.\<close>

fun read_quoted :: "string \<Rightarrow> string \<times> string" where
  "read_quoted [] = ([], [])"
| "read_quoted (c # s) =
     (if c \<noteq> quot then (case read_quoted s of (f, r) \<Rightarrow> (c # f, r))
      else case s of
             d # s' \<Rightarrow> if d = quot then (case read_quoted s' of (f, r) \<Rightarrow> (quot # f, r)) else ([], s)
           | [] \<Rightarrow> ([], []))"

definition read_field :: "string \<Rightarrow> string \<times> string" where
  "read_field s =
     (if s \<noteq> [] \<and> hd s = quot then read_quoted (tl s)
      else (takeWhile (\<lambda>c. \<not> csv_special c) s, dropWhile (\<lambda>c. \<not> csv_special c) s))"

lemma read_quoted_length: "length (snd (read_quoted s)) \<le> length s"
proof (induction s rule: read_quoted.induct)
  case (2 c s)
  show ?case
  proof (cases "c = quot")
    case False
    then show ?thesis using 2 by (cases "read_quoted s") simp
  next
    case True
    show ?thesis
    proof (cases s)
      case (Cons d s')
      with 2 True show ?thesis by (cases "read_quoted s'") auto
    qed (use True in simp)
  qed
qed simp

lemma read_field_length: "length (snd (read_field s)) \<le> length s"
  using read_quoted_length [of "tl s"] length_dropWhile_le [of "\<lambda>c. \<not> csv_special c" s]
  by (auto simp: read_field_def)

lemma read_field_rest: "(f, c # r) = read_field s \<Longrightarrow> length r < length s"
proof -
  assume "(f, c # r) = read_field s"
  then have "snd (read_field s) = c # r" by (metis snd_conv)
  with read_field_length [of s] show "length r < length s" by simp
qed

function read_fields :: "string \<Rightarrow> string list \<times> string" where
  "read_fields s =
     (case read_field s of
        (f, []) \<Rightarrow> ([f], [])
      | (f, c # r) \<Rightarrow>
          if c = comma then (case read_fields r of (fs, t) \<Rightarrow> (f # fs, t))
          else ([f], if c = cr \<and> r \<noteq> [] \<and> hd r = lf then tl r else r))"
  by pat_completeness auto
termination
  by (relation "measure length") (simp_all add: read_field_rest)

declare read_fields.simps [simp del]

lemma read_fields_length: "s \<noteq> [] \<Longrightarrow> length (snd (read_fields s)) < length s"
proof (induction s rule: read_fields.induct)
  case (1 s)
  obtain f r' where eq: "read_field s = (f, r')" by fastforce
  show ?case
  proof (cases r')
    case Nil
    then show ?thesis using 1 eq by (subst read_fields.simps) simp
  next
    case (Cons c r)
    have le: "length r < length s" using read_field_rest [of f c r s] eq Cons by simp
    have "c = comma \<Longrightarrow> r \<noteq> [] \<Longrightarrow> length (snd (read_fields r)) < length r"
      using 1(1) [OF eq [symmetric] Cons] by simp
    moreover have "snd (read_fields []) = []"
      by (subst read_fields.simps) (simp add: read_field_def)
    ultimately show ?thesis using le eq Cons
      by (subst read_fields.simps) (cases "r = []"; auto split: prod.splits)
  qed
qed

function read_csv :: "string \<Rightarrow> string list list" where
  "read_csv s = (if s = [] then [] else case read_fields s of (fs, r) \<Rightarrow> fs # read_csv r)"
  by pat_completeness auto
termination
  by (relation "measure length") (simp, metis in_measure snd_conv read_fields_length)

declare read_csv.simps [simp del]

lemma read_quoted_double:
  "(case rest of [] \<Rightarrow> True | c # _ \<Rightarrow> c \<noteq> quot) \<Longrightarrow> read_quoted (csv_double s @ quot # rest) = (s, rest)"
  by (induction s) (auto simp: csv_double_def split: list.splits)

lemma read_field_csv:
  assumes "c = comma \<or> c = cr"
  shows "read_field (csv_field s @ c # r) = (s, c # r)"
proof (cases "list_ex csv_special s")
  case True
  have "c \<noteq> quot" using assms by (auto simp: comma_def quot_def cr_def)
  with True read_quoted_double [of "c # r" s] show ?thesis by (simp add: csv_field_def read_field_def)
next
  case False
  then have plain: "\<forall>x \<in> set s. \<not> csv_special x" by (simp add: list_ex_iff)
  have c: "csv_special c" "c \<noteq> quot" using assms by (auto simp: csv_special_def comma_def quot_def cr_def)
  have "takeWhile (\<lambda>x. \<not> csv_special x) (s @ c # r) = s" "dropWhile (\<lambda>x. \<not> csv_special x) (s @ c # r) = c # r"
    using plain c(1) by (simp_all add: takeWhile_append2 dropWhile_append2)
  moreover have "hd (s @ c # r) \<noteq> quot"
    using plain c(2) by (cases s) (auto simp: csv_special_def)
  ultimately show ?thesis using False by (simp add: csv_field_def read_field_def)
qed

lemma read_fields_csv:
  "fs \<noteq> [] \<Longrightarrow> read_fields (join_with [comma] (map csv_field fs) @ cr # lf # rest) = (fs, rest)"
proof (induction fs)
  case (Cons f fs)
  have ne: "cr \<noteq> comma" by (simp add: cr_def comma_def)
  show ?case
  proof (cases fs)
    case Nil
    then show ?thesis using ne by (subst read_fields.simps) (simp add: read_field_csv join_with_def)
  next
    case (Cons g gs)
    then have "read_fields (join_with [comma] (map csv_field fs) @ cr # lf # rest) = (fs, rest)"
      using Cons.IH by simp
    with Cons show ?thesis by (subst read_fields.simps) (simp add: read_field_csv join_with_def)
  qed
qed simp

lemma read_csv_Nil [simp]: "read_csv [] = []"
  by (subst read_csv.simps) simp

lemma csv_line_not_Nil [simp]: "csv_line fs \<noteq> []"
  by (simp add: csv_line_def)

lemma read_csv_line: "fs \<noteq> [] \<Longrightarrow> read_csv (csv_line fs @ rest) = fs # read_csv rest"
  using read_fields_csv [of fs rest] by (subst read_csv.simps) (simp add: csv_line_def)

lemma read_csv_lines: "\<forall>fs \<in> set rows. fs \<noteq> [] \<Longrightarrow> read_csv (concat (map csv_line rows)) = rows"
  by (induction rows) (simp_all add: read_csv_line)

section \<open>What the exported file holds\<close>

lemma dict_line_row: "map_of row = map_of (zip fs vs) \<Longrightarrow> distinct fs \<Longrightarrow> length vs = length fs \<Longrightarrow> dict_line fs row = csv_line vs"
proof -
  assume row: "map_of row = map_of (zip fs vs)" and d: "distinct fs" "length vs = length fs"
  have "map (\<lambda>k. case map_of (zip fs vs) k of None \<Rightarrow> [] | Some v \<Rightarrow> v) fs = vs"
    using d by (intro nth_equalityI) (simp_all add: map_of_zip_nth)
  with row show ?thesis by (simp add: dict_line_def)
qed

lemma dict_line_own: "distinct (map fst row) \<Longrightarrow> dict_line (map fst row) row = csv_line (map snd row)"
  by (rule dict_line_row) (simp_all add: zip_map_fst_snd)

lemma read_dict_file:
  assumes "fs \<noteq> []" "distinct fs" "\<forall>row \<in> set rows. map fst row = fs"
  shows "read_csv (dict_file fs rows) = fs # map (map snd) rows"
proof -
  have "map (dict_line fs) rows = map csv_line (map (map snd) rows)"
    using assms(2,3) dict_line_own by fastforce
  then have "dict_file fs rows = concat (map csv_line (fs # map (map snd) rows))" by (simp add: dict_file_def del: map_map map_eq_conv)
  moreover have "\<forall>v \<in> set (fs # map (map snd) rows). v \<noteq> []" using assms(1,3) by fastforce
  ultimately show ?thesis using read_csv_lines by metis
qed

lemma packet_row_fields: "map fst (packet_csv_row iso_str float_str t p) = PACKET_FIELDS @ (if t then [''text''] else [])"
  by (simp add: packet_csv_row_def PACKET_FIELDS_def)

lemma packet_fields_distinct: "distinct (PACKET_FIELDS @ (if t then [''text''] else []))"
  by (simp add: PACKET_FIELDS_def)

lemma node_row_fields: "map fst (node_csv_row iso_str float_str n) = NODE_FIELDS"
  by (simp add: node_csv_row_def NODE_FIELDS_def)


lemma node_export_reads_back:
  "read_csv (fst (export_nodes_csv iso_str float_str nodes)) = NODE_FIELDS # map (\<lambda>n. map snd (node_csv_row iso_str float_str n)) nodes"
proof -
  have "NODE_FIELDS \<noteq> []" "distinct NODE_FIELDS" by (simp_all add: NODE_FIELDS_def)
  then show ?thesis by (simp add: export_nodes_csv_def read_dict_file node_row_fields)
qed

text \<open>An unknown number and a zero stay apart in the file: the cell is empty exactly for the unknown one.\<close>

lemma cell_show_int_inj: "cell show_int v = cell show_int w \<longleftrightarrow> v = w"
proof
  assume "cell show_int v = cell show_int w"
  then have "parse_int (cell show_int v) = parse_int (cell show_int w)" by simp
  moreover have "parse_int [] = None" by code_simp
  then have "parse_int (cell show_int v) = v" for v
    by (cases v) (simp_all add: cell_def parse_int_show_int)
  ultimately show "v = w" by (metis \<open>\<And>v. parse_int (cell show_int v) = v\<close>)
qed simp

section \<open>Which packets, and the thread\<close>

lemma export_rows_sorted: "sorted (map pk_observed_at (export_rows recent store_rows))"
  by (simp add: export_rows_def)

lemma export_rows_mset:
  "mset (export_rows recent store_rows)
     = mset recent + filter_mset (\<lambda>p. packet_key p \<notin> packet_key ` set recent) (mset store_rows)"
  by (simp add: export_rows_def)

text \<open>The buffer's copy of a packet, the one that has its text, is what is exported; and a session whose buffer
  holds everything is exported as it is.\<close>

lemma export_rows_keys: "packet_key ` set (export_rows recent store_rows) = packet_key ` (set recent \<union> set store_rows)"
  unfolding export_rows_def set_sort set_append set_filter image_Un by (intro set_eqI) (simp add: image_iff, blast)

lemma export_rows_recent:
  assumes "p \<in> set recent" "q \<in> set (export_rows recent store_rows)" "packet_key q = packet_key p"
  shows "q \<in> set recent"
  using assms by (auto simp: export_rows_def)

datatype export_event =
    ExportAsk "network_packet list" "network_packet list" nat export_answers
  | ExportDone "string + nat"
  | ExportThreadEnd

fun export_step :: "export_event \<Rightarrow> export_window \<Rightarrow> export_window" where
  "export_step (ExportAsk recent store_rows captured a) w = export_packets recent store_rows captured a w"
| "export_step (ExportDone r) w = export_worker_done r w"
| "export_step ExportThreadEnd w = export_thread_finished w"

definition export_wf :: "export_window \<Rightarrow> bool" where
  "export_wf w \<longleftrightarrow> (ew_enabled w \<longleftrightarrow> ew_thread w = None) \<and> (ew_quitting w \<longrightarrow> ew_thread w \<noteq> None)
     \<and> (\<forall>rows path t. ew_thread w = Some (ExportJob rows path t) \<longrightarrow>
          rows \<noteq> [] \<and> path \<noteq> [] \<and> sorted (map pk_observed_at rows))"

lemma export_wf_new: "export_wf export_window_new"
  by (simp add: export_wf_def export_window_new_def)

lemma export_wf_step: "export_wf w \<Longrightarrow> export_wf (export_step e w)"
  by (cases e)
     (auto simp: export_wf_def export_packets_def export_worker_done_def export_thread_finished_def Let_def
        export_rows_sorted split: sum.splits)

lemma export_wf_run: "export_wf w \<Longrightarrow> export_wf (fold export_step es w)"
  by (induction es arbitrary: w) (simp_all add: export_wf_step)

text \<open>Whatever writing the file raises, the menu action comes back.\<close>

lemma export_comes_back:
  assumes "export_wf w" "ew_thread w \<noteq> None"
  shows "ew_enabled (export_thread_finished (export_worker_done r w)) \<and> ew_thread (export_thread_finished (export_worker_done r w)) = None"
  using assms by (auto simp: export_wf_def export_worker_done_def export_thread_finished_def Let_def split: sum.splits)

lemma export_one_at_a_time:
  "ew_thread w = Some j \<Longrightarrow> ew_thread (export_packets recent store_rows captured a w) = Some j"
  by (simp add: export_packets_def)

end
