(* ===== verification/Panels.thy ===== *)
theory Panels
  imports Controller
begin

text \<open>
  The widgets of the Monitor and Nodes pages, as the state they keep and the texts they show:
  \<open>ui/monitor/filter_bar.py\<close>, \<open>packet_log_view.py\<close>, \<open>hop_panels.py\<close>, \<open>distribution_panel.py\<close>,
  \<open>rankings_panel.py\<close>, \<open>packet_activity_chart.py\<close>, \<open>dashboard_header.py\<close>, \<open>node_inspector.py\<close>,
  \<open>metric_card.py\<close> and \<open>ui/nodes/node_table_model.py\<close>, with the one label of \<open>models/telemetry_sample.py\<close>.  Layout and style sheets are left out; the
  clock's text in local time is a parameter.
\<close>

section \<open>Gas sensor readings\<close>

definition ohm :: string where "ohm = [CHR 0xCE, CHR 0xA9]"

definition gas_resistance_label :: "telemetry_sample \<Rightarrow> string option" where
  "gas_resistance_label t =
     map_option (\<lambda>r. if r \<ge> 10 ^ 6 then fixed 1 (r / 10 ^ 6) @ '' M'' @ ohm
                      else if r \<ge> 1000 then fixed 1 (r / 1000) @ '' k'' @ ohm else fixed 0 r @ '' '' @ ohm)
       (tl_gas_resistance_ohm t)"

section \<open>The filter bar\<close>

record active_filter =
  af_age_s :: "int option"
  af_source :: string
  af_type :: string

definition AGE_OPTIONS :: "(string \<times> int option) list" where
  "AGE_OPTIONS = [(''5 min'', Some 300), (''15 min'', Some 900), (''1 hour'', Some 3600), (''6 hours'', Some 21600),
     (''24 hours'', Some 86400), (''7 days'', Some 604800), (''All'', None)]"

definition SRC_OPTIONS :: "string list" where
  "SRC_OPTIONS = [''All observed'', ''RF only'', ''MQTT-path'', ''Unknown transport'']"

definition PKT_OPTIONS :: "string list" where
  "PKT_OPTIONS = [''All'', ''Text'', ''Position'', ''Node Info'', ''Routing'', ''Telemetry'', ''Traceroute'',
     ''Neighbor Info'', ''Map Report'', ''Private App'', ''Other Known'', ''Unknown/Encrypted'']"

text \<open>A \<open>QComboBox\<close>: it reports a change of its index unless its signals are blocked.\<close>

record combo_box =
  cb_index :: nat
  cb_blocked :: bool

record filter_bar =
  fb_age :: combo_box
  fb_src :: combo_box
  fb_pkt :: combo_box

definition filter_bar_new :: filter_bar where
  "filter_bar_new = \<lparr>fb_age = \<lparr>cb_index = 2, cb_blocked = False\<rparr>, fb_src = \<lparr>cb_index = 0, cb_blocked = False\<rparr>,
     fb_pkt = \<lparr>cb_index = 0, cb_blocked = False\<rparr>\<rparr>"

definition combo_select :: "nat \<Rightarrow> combo_box \<Rightarrow> combo_box \<times> bool" where
  "combo_select i c = (c\<lparr>cb_index := i\<rparr>, i \<noteq> cb_index c \<and> \<not> cb_blocked c)"

definition current_filter :: "filter_bar \<Rightarrow> active_filter" where
  "current_filter b = \<lparr>af_age_s = snd (AGE_OPTIONS ! cb_index (fb_age b)), af_source = SRC_OPTIONS ! cb_index (fb_src b),
     af_type = PKT_OPTIONS ! cb_index (fb_pkt b)\<rparr>"

definition pick_age :: "nat \<Rightarrow> filter_bar \<Rightarrow> filter_bar \<times> active_filter list" where
  "pick_age i b = (case combo_select i (fb_age b) of
     (c, changed) \<Rightarrow> let b = b\<lparr>fb_age := c\<rparr> in (b, if changed then [current_filter b] else []))"

definition pick_source :: "nat \<Rightarrow> filter_bar \<Rightarrow> filter_bar \<times> active_filter list" where
  "pick_source i b = (case combo_select i (fb_src b) of
     (c, changed) \<Rightarrow> let b = b\<lparr>fb_src := c\<rparr> in (b, if changed then [current_filter b] else []))"

definition pick_type :: "nat \<Rightarrow> filter_bar \<Rightarrow> filter_bar \<times> active_filter list" where
  "pick_type i b = (case combo_select i (fb_pkt b) of
     (c, changed) \<Rightarrow> let b = b\<lparr>fb_pkt := c\<rparr> in (b, if changed then [current_filter b] else []))"

definition filter_reset :: "filter_bar \<Rightarrow> filter_bar \<times> active_filter list" where
  "filter_reset b =
     (let previous = (cb_blocked (fb_age b), cb_blocked (fb_src b), cb_blocked (fb_pkt b));
          b = b\<lparr>fb_age := (fb_age b)\<lparr>cb_blocked := True\<rparr>, fb_src := (fb_src b)\<lparr>cb_blocked := True\<rparr>,
                fb_pkt := (fb_pkt b)\<lparr>cb_blocked := True\<rparr>\<rparr>;
          (b, e1) = pick_age 2 b; (b, e2) = pick_source 0 b; (b, e3) = pick_type 0 b;
          b = b\<lparr>fb_age := (fb_age b)\<lparr>cb_blocked := fst previous\<rparr>, fb_src := (fb_src b)\<lparr>cb_blocked := fst (snd previous)\<rparr>,
                fb_pkt := (fb_pkt b)\<lparr>cb_blocked := snd (snd previous)\<rparr>\<rparr>
      in (b, e1 @ e2 @ e3 @ [current_filter b]))"

section \<open>The packet log\<close>

definition MAX_LOG_ROWS :: nat where "MAX_LOG_ROWS = 20000"

datatype model_signal = RowsRemoved nat nat | RowsInserted nat nat | ModelReset

definition append_packet :: "network_packet \<Rightarrow> network_packet list \<Rightarrow> network_packet list \<times> model_signal list" where
  "append_packet p rows =
     (let (rows, removed) = (if length rows \<ge> MAX_LOG_ROWS then (tl rows, [RowsRemoved 0 0]) else (rows, []))
      in (rows @ [p], removed @ [RowsInserted (length rows) (length rows)]))"

definition clear_log :: "network_packet list \<Rightarrow> network_packet list \<times> model_signal list" where
  "clear_log rows = ([], [ModelReset])"

definition opt_cell :: "('a \<Rightarrow> string) \<Rightarrow> string \<Rightarrow> 'a option \<Rightarrow> string" where
  "opt_cell show none v = (case v of None \<Rightarrow> none | Some x \<Rightarrow> show x)"

definition or_text :: "string option \<Rightarrow> string \<Rightarrow> string" where
  "or_text a b = (case py_or_str a (Some b) of Some s \<Rightarrow> s | None \<Rightarrow> b)"

definition packet_cell :: "(instant \<Rightarrow> string) \<Rightarrow> network_packet \<Rightarrow> nat \<Rightarrow> string option" where
  "packet_cell clock p col =
     (if col = 0 then Some (clock (pk_observed_at p))
      else if col = 1 then Some ''RX''
      else if col = 2 then Some (or_text (pk_sender_id p) (opt_cell bang_hex8 ''?'' (pk_sender_num p)))
      else if col = 3 then
        Some (if pk_destination_num p = None \<or> pk_destination_num p = Some 0xFFFFFFFF then ''^all''
              else bang_hex8 (the (pk_destination_num p)))
      else if col = 4 then Some (opt_cell show_int [] (pk_channel_index p))
      else if col = 5 then
        Some (if pk_portnum_name p \<noteq> [] then pk_portnum_name p else opt_cell show_int ''None'' (pk_portnum p))
      else if col = 6 then
        Some (case (pk_hops_used p, pk_hop_start p) of
                (Some u, Some s) \<Rightarrow> show_int u @ ''/'' @ show_int s
              | _ \<Rightarrow> ''?'')
      else if col = 7 then Some (opt_cell (fixed 1) emdash (pk_rx_snr p))
      else if col = 8 then Some (opt_cell show_int emdash (pk_rx_rssi p))
      else if col = 9 then Some (if pk_via_mqtt p = Some True then ''MQTT'' else or_text (pk_transport_mechanism p) ''RF'')
      else if col = 10 then
        Some (if truthy_str (pk_text p)
              then ''Text message '' @ emdash @ '' '' @ show_nat (length (the (pk_text p))) @ '' UTF-8 bytes''
              else if pk_portnum_name p \<noteq> [] then pk_portnum_name p else ''Packet'')
      else None)"

definition green :: string where "green = ''#00FF88''"
definition red :: string where "red = ''#FF4060''"
definition amber :: string where "amber = ''#FFB800''"

definition snr_colour :: "pyfloat option \<Rightarrow> string option" where
  "snr_colour snr = (case snr of None \<Rightarrow> None | Some r \<Rightarrow> if r \<ge> 5 then Some green else if r < - 5 then Some red else None)"

definition packet_colour :: "network_packet \<Rightarrow> nat \<Rightarrow> string option" where
  "packet_colour p col =
     (if col = 9 \<and> pk_via_mqtt p = Some True then Some amber
      else if col = 7 then snr_colour (pk_rx_snr p) else None)"

section \<open>The node table\<close>

definition node_source :: "node_snapshot \<Rightarrow> string" where
  "node_source n =
     (if nd_via_mqtt_count n > nd_rf_count n then ''MQTT'' else if nd_rf_count n > 0 then ''RF'' else ''?'')"

definition node_columns :: "string list" where
  "node_columns = [''Name'', ''Short'', ''Node ID'', ''Role'', ''Hardware'', ''Last Heard'', ''Direct'', ''Hops'', ''SNR'',
     ''RSSI'', ''Packets'', ''Messages'', ''Source'']"

definition cell_renderers :: "instant \<Rightarrow> (node_snapshot \<Rightarrow> string) list" where
  "cell_renderers now =
     [\<lambda>n. or_text (nd_long_name n) (or_text (nd_node_id n) (bang_hex8 (nd_num n))),
      \<lambda>n. or_text (nd_short_name n) emdash,
      \<lambda>n. or_text (nd_node_id n) (bang_hex8 (nd_num n)),
      \<lambda>n. or_text (nd_role n) emdash,
      \<lambda>n. or_text (nd_hw_model n) emdash,
      \<lambda>n. relative_age now (nd_last_heard n) emdash [],
      \<lambda>n. if node_is_direct n then [CHR 0xE2, CHR 0x9C, CHR 0x93] else [],
      \<lambda>n. opt_cell show_int emdash (nd_last_hops_used n),
      \<lambda>n. opt_cell (fixed 1) emdash (nd_last_snr n),
      \<lambda>n. opt_cell show_int emdash (nd_last_rssi n),
      \<lambda>n. show_nat (nd_packet_count n),
      \<lambda>n. show_nat (nd_text_count n),
      node_source]"

definition node_cell :: "instant \<Rightarrow> node_snapshot list \<Rightarrow> nat \<Rightarrow> nat \<Rightarrow> string option" where
  "node_cell now rows row col =
     (if row \<ge> length rows then None
      else if col < length (cell_renderers now) then Some ((cell_renderers now ! col) (rows ! row)) else None)"

definition node_colour :: "node_snapshot \<Rightarrow> nat \<Rightarrow> string option" where
  "node_colour n col =
     (if col = 6 \<and> node_is_direct n then Some green
      else if col = 8 then snr_colour (nd_last_snr n) else None)"

text \<open>Newest first; \<open>never\<close> is \<open>datetime.min\<close>, before every time a node was heard.\<close>

definition table_rows :: "instant \<Rightarrow> node_snapshot list \<Rightarrow> node_snapshot list" where
  "table_rows never nodes = py_sorted (\<lambda>n. case nd_last_heard n of None \<Rightarrow> never | Some t \<Rightarrow> t) True nodes"

definition node_at :: "node_snapshot list \<Rightarrow> int \<Rightarrow> node_snapshot option" where
  "node_at rows row = (if 0 \<le> row \<and> row < int (length rows) then Some (rows ! nat row) else None)"

fun row_of :: "node_id \<Rightarrow> node_snapshot list \<Rightarrow> nat option" where
  "row_of num [] = None"
| "row_of num (n # ns) = (if nd_num n = num then Some 0 else map_option Suc (row_of num ns))"

section \<open>Bars\<close>

text \<open>A bar is its label, its length in percent and its count.  \<open>int(n * 100 / total)\<close> rounds down.\<close>

type_synonym bar = "string \<times> nat \<times> nat"

definition counts_of :: "('a \<Rightarrow> 'k) \<Rightarrow> 'a list \<Rightarrow> ('k \<times> nat) list" where
  "counts_of key xs = fold (\<lambda>x c. counter_add (key x) c) xs []"

definition counts_total :: "('k \<times> nat) list \<Rightarrow> nat" where
  "counts_total c = (let t = sum_list (map snd c) in if t = 0 then 1 else t)"

definition count_in :: "('k \<times> nat) list \<Rightarrow> 'k \<Rightarrow> nat" where
  "count_in c k = (case map_of c k of None \<Rightarrow> 0 | Some n \<Rightarrow> n)"

definition fixed_bars :: "string list \<Rightarrow> (string \<times> nat) list \<Rightarrow> bar list" where
  "fixed_bars labels c = map (\<lambda>l. (l, count_in c l * 100 div counts_total c, count_in c l)) labels"

section \<open>Hops\<close>

definition HOP_LABELS :: "string list" where
  "HOP_LABELS = [''0'', ''1'', ''2'', ''3'', ''4'', ''5+'', ''?'']"

definition HOP_BUCKETS :: "string list" where
  "HOP_BUCKETS = [''0%'', ''1'' @ endash @ ''24%'', ''25'' @ endash @ ''49%'', ''50'' @ endash @ ''74%'',
     ''75'' @ endash @ ''99%'', ''100%'', ''Unknown'']"

definition hop_bar :: "bar \<Rightarrow> bar" where
  "hop_bar b = (case b of (l, pct, n) \<Rightarrow> (l, min 100 pct, n))"

definition hop_label :: "network_packet \<Rightarrow> string" where
  "hop_label p =
     (case pk_hops_used p of None \<Rightarrow> ''?'' | Some u \<Rightarrow> if u \<ge> 5 then ''5+'' else show_int u)"

definition hop_bucket :: "network_packet \<Rightarrow> string" where
  "hop_bucket p =
     hop_efficiency_bucket
       (case (pk_hops_used p, pk_hop_start p) of
          (Some u, Some s) \<Rightarrow> if s > 0 then Some (of_int u / of_int s) else None
        | _ \<Rightarrow> None)"

definition hop_counts_panel :: "network_packet list \<Rightarrow> bar list" where
  "hop_counts_panel pkts = map hop_bar (fixed_bars HOP_LABELS (counts_of hop_label pkts))"

definition percent_hops_panel :: "network_packet list \<Rightarrow> bar list" where
  "percent_hops_panel pkts = map hop_bar (fixed_bars HOP_BUCKETS (counts_of hop_bucket pkts))"

section \<open>Distributions\<close>

definition breakdown_label :: "network_packet \<Rightarrow> string" where
  "breakdown_label p =
     (let category = packet_category (pk_portnum p) (pk_pki_encrypted p)
      in if category = ''Unknown Port'' \<or> category = ''Encrypted/Undecoded'' then ''Unknown/Encrypted'' else category)"

definition BREAKDOWN_ROWS :: "string list" where
  "BREAKDOWN_ROWS = [''Text'', ''Position'', ''Node Info'', ''Routing'', ''Telemetry'', ''Traceroute'', ''Neighbor Info'',
     ''Map Report'', ''Private App'', ''Other Known'', ''Unknown/Encrypted'']"

definition breakdown_panel :: "network_packet list \<Rightarrow> bar list" where
  "breakdown_panel pkts = fixed_bars BREAKDOWN_ROWS (counts_of breakdown_label pkts)"

definition top_bars :: "string list \<Rightarrow> bar list" where
  "top_bars keys =
     (let c = counts_of id keys in map (\<lambda>(k, n). (k, n * 100 div counts_total c, n)) (take 10 (most_common c)))"

definition node_role_label :: "node_snapshot \<Rightarrow> string" where
  "node_role_label n = upper (or_text (nd_role n) ''UNKNOWN'')"

definition roles_panel :: "node_snapshot list \<Rightarrow> bar list" where
  "roles_panel nodes = top_bars (map node_role_label nodes)"

definition friendly_hw :: "string option \<Rightarrow> string" where
  "friendly_hw hw =
     (case py_or_str hw None of None \<Rightarrow> ''Unknown''
      | Some m \<Rightarrow> title (map (\<lambda>c. if c = CHR ''_'' then CHR '' '' else c) m))"

definition hardware_panel :: "node_snapshot list \<Rightarrow> bar list" where
  "hardware_panel nodes = top_bars (map (\<lambda>n. friendly_hw (nd_hw_model n)) nodes)"

definition channel_of :: "network_packet \<Rightarrow> int" where
  "channel_of p = (case pk_channel_index p of None \<Rightarrow> 0 | Some i \<Rightarrow> i)"

definition channels_panel :: "network_packet list \<Rightarrow> (int \<times> string) list \<Rightarrow> (int \<times> bar) list" where
  "channels_panel pkts names =
     (let c = counts_of channel_of pkts
      in map (\<lambda>(i, n). (i, show_int i @ '': '' @ (case map_of names i of Some s \<Rightarrow> s | None \<Rightarrow> ''Ch '' @ show_int i),
                         n * 100 div counts_total c, n))
           (py_sorted snd True c))"

section \<open>Every packet is in one bar\<close>

lemma counts_of_lookup: "count_in (counts_of key xs) k = length (filter (\<lambda>x. key x = k) xs)"
  by (simp add: count_in_def counts_of_def counter_fold_lookup Let_def)

lemma counts_of_total: "sum_list (map snd (counts_of key xs)) = length xs"
  by (simp add: counts_of_def counter_fold)

lemma counts_of_distinct: "distinct (map fst (counts_of key xs))"
  by (simp add: counts_of_def counter_fold)

lemma counts_total_of: "counts_total (counts_of key xs) = (if xs = [] then 1 else length xs)"
  by (simp add: counts_total_def counts_of_total)

lemma one_label: "distinct labels \<Longrightarrow> k \<in> set labels \<Longrightarrow> sum_list (map (\<lambda>l. if k = l then 1 else 0) labels) = (1::nat)"
proof (induction labels)
  case (Cons l ls)
  show ?case
  proof (cases "k = l")
    case True
    with Cons.prems have "\<forall>x \<in> set ls. k \<noteq> x" by auto
    then have "sum_list (map (\<lambda>l. if k = l then 1 else 0) ls) = (0::nat)" by (induction ls) auto
    with True show ?thesis by simp
  qed (use Cons in simp)
qed simp

lemma count_each_once:
  assumes "distinct labels" "\<forall>x \<in> set xs. key x \<in> set labels"
  shows "sum_list (map (\<lambda>l. length (filter (\<lambda>x. key x = l) xs)) labels) = length xs"
  using assms(2)
proof (induction xs)
  case (Cons x xs)
  have one: "sum_list (map (\<lambda>l. if key x = l then 1 else 0) labels) = (1::nat)"
    using one_label [OF assms(1)] Cons.prems by simp
  have "sum_list (map (\<lambda>l. length (filter (\<lambda>y. key y = l) (x # xs))) labels)
        = sum_list (map (\<lambda>l. (if key x = l then 1 else 0) + length (filter (\<lambda>y. key y = l) xs)) labels)"
    by (intro arg_cong [of _ _ sum_list] map_cong) auto
  also have "\<dots> = 1 + length xs" using one Cons by (simp add: sum_list_addf)
  finally show ?case by simp
qed simp

lemma fixed_bars_complete:
  assumes "distinct labels" "\<forall>x \<in> set xs. key x \<in> set labels"
  shows "sum_list (map (snd \<circ> snd) (fixed_bars labels (counts_of key xs))) = length xs"
  using count_each_once [OF assms] by (simp add: fixed_bars_def comp_def counts_of_lookup)

lemma fixed_bars_share: "(l, pct, n) \<in> set (fixed_bars labels (counts_of key xs)) \<Longrightarrow> pct \<le> 100"
proof -
  assume "(l, pct, n) \<in> set (fixed_bars labels (counts_of key xs))"
  then have p: "pct = length (filter (\<lambda>x. key x = l) xs) * 100 div counts_total (counts_of key xs)"
    by (auto simp: fixed_bars_def counts_of_lookup)
  have le: "length (filter (\<lambda>x. key x = l) xs) \<le> length xs" by simp
  show "pct \<le> 100"
  proof (cases "xs = []")
    case False
    then have "pct = length (filter (\<lambda>x. key x = l) xs) * 100 div length xs" using p by (simp add: counts_total_of)
    also have "\<dots> \<le> length xs * 100 div length xs" by (rule div_le_mono [OF mult_le_mono1 [OF le]])
    also have "\<dots> = 100" using False by simp
    finally show ?thesis .
  qed (use p in simp)
qed

lemma breakdown_label_row: "breakdown_label p \<in> set BREAKDOWN_ROWS"
  by (auto simp: breakdown_label_def BREAKDOWN_ROWS_def packet_category_def category_mapping_def Let_def
      split: option.splits if_splits)

lemma breakdown_rows_distinct: "distinct BREAKDOWN_ROWS"
  by (simp add: BREAKDOWN_ROWS_def)

lemma hop_bucket_row: "hop_bucket p \<in> set HOP_BUCKETS"
  by (auto simp: hop_bucket_def HOP_BUCKETS_def hop_efficiency_bucket_def split: option.splits)

lemma hop_buckets_distinct: "distinct HOP_BUCKETS"
  by (simp add: HOP_BUCKETS_def endash_def)

lemma hop_labels_distinct: "distinct HOP_LABELS"
  by (simp add: HOP_LABELS_def)

lemma hop_label_row:
  assumes "\<forall>u. pk_hops_used p = Some u \<longrightarrow> 0 \<le> u"
  shows "hop_label p \<in> set HOP_LABELS"
proof (cases "pk_hops_used p")
  case (Some u)
  have digits: "show_int 0 = ''0''" "show_int 1 = ''1''" "show_int 2 = ''2''" "show_int 3 = ''3''" "show_int 4 = ''4''"
    by code_simp+
  show ?thesis
  proof (cases "u \<ge> 5")
    case False
    with assms Some consider "u = 0" | "u = 1" | "u = 2" | "u = 3" | "u = 4" by fastforce
    then show ?thesis using Some digits by cases (simp_all add: hop_label_def HOP_LABELS_def)
  qed (use Some in \<open>simp add: hop_label_def HOP_LABELS_def\<close>)
qed (simp add: hop_label_def HOP_LABELS_def)

section \<open>Rankings\<close>

type_synonym rank_item = "node_id \<times> string \<times> string \<times> string"

record rank_row =
  rk_node :: "node_id option"
  rk_rank :: string
  rk_name :: string
  rk_detail :: string
  rk_badge :: string
  rk_selected :: bool
  rk_visible :: bool

record ranking =
  rg_title_a :: string
  rg_title_b :: string
  rg_title :: string
  rg_showing_a :: bool
  rg_max_rows :: nat
  rg_rows :: "rank_row list"
  rg_selected :: "node_id option"

definition rank_row_new :: rank_row where
  "rank_row_new = \<lparr>rk_node = None, rk_rank = [], rk_name = [], rk_detail = [], rk_badge = [], rk_selected = False,
     rk_visible = False\<rparr>"

definition ranking_new :: "string \<Rightarrow> string \<Rightarrow> nat \<Rightarrow> ranking" where
  "ranking_new a b max_rows = \<lparr>rg_title_a = a, rg_title_b = b, rg_title = a, rg_showing_a = True, rg_max_rows = max_rows,
     rg_rows = [], rg_selected = None\<rparr>"

definition set_data :: "nat \<Rightarrow> rank_item \<Rightarrow> rank_row \<Rightarrow> rank_row" where
  "set_data rank it r = (case it of (num, name, badge, detail) \<Rightarrow>
     r\<lparr>rk_node := Some num, rk_rank := show_nat rank @ ''.'', rk_name := name, rk_detail := detail, rk_badge := badge\<rparr>)"

text \<open>The rows are pooled: a refresh reuses them, makes the ones missing and hides the ones left over.\<close>

definition update_rows :: "rank_item list \<Rightarrow> ranking \<Rightarrow> ranking" where
  "update_rows items p =
     (let items = take (rg_max_rows p) items;
          rows = rg_rows p @ replicate (length items - length (rg_rows p)) rank_row_new;
          shown = map (\<lambda>(row, rank, it). (set_data rank it row)\<lparr>rk_selected := (Some (fst it) = rg_selected p),
                                                              rk_visible := True\<rparr>)
                    (zip rows (enumerate 1 items));
          hidden = map (\<lambda>row. row\<lparr>rk_visible := False\<rparr>) (drop (length items) rows)
      in p\<lparr>rg_rows := shown @ hidden\<rparr>)"

definition set_selected_node :: "node_id option \<Rightarrow> ranking \<Rightarrow> ranking" where
  "set_selected_node num p =
     p\<lparr>rg_selected := num, rg_rows := map (\<lambda>row. row\<lparr>rk_selected := (rk_node row = num)\<rparr>) (rg_rows p)\<rparr>"

definition is_flipped :: "ranking \<Rightarrow> bool" where
  "is_flipped p \<longleftrightarrow> \<not> rg_showing_a p"

definition flip_ranking :: "ranking \<Rightarrow> ranking" where
  "flip_ranking p =
     (let a = \<not> rg_showing_a p in p\<lparr>rg_showing_a := a, rg_title := (if a then rg_title_a p else rg_title_b p)\<rparr>)"

definition click_row :: "nat \<Rightarrow> ranking \<Rightarrow> node_id option" where
  "click_row i p = (if i < length (rg_rows p) then rk_node (rg_rows p ! i) else None)"

definition visible_rows :: "ranking \<Rightarrow> rank_row list" where
  "visible_rows p = filter rk_visible (rg_rows p)"

text \<open>What is on screen after a refresh: the items in order, with the highlight on the selected node only.\<close>

definition row_of_item :: "node_id option \<Rightarrow> nat \<times> rank_item \<Rightarrow> rank_row" where
  "row_of_item sel = (\<lambda>(rank, it). (set_data rank it rank_row_new)\<lparr>rk_selected := (Some (fst it) = sel), rk_visible := True\<rparr>)"

lemma shown_row: "(set_data rank it row)\<lparr>rk_selected := s, rk_visible := True\<rparr>
    = (set_data rank it rank_row_new)\<lparr>rk_selected := s, rk_visible := True\<rparr>"
  by (cases row; cases it) (simp add: set_data_def rank_row_new_def)

lemma visible_after_update:
  "visible_rows (update_rows items p)
     = map (row_of_item (rg_selected p))
         (enumerate 1 (take (rg_max_rows p) items))"
proof -
  let ?items = "take (rg_max_rows p) items"
  let ?rows = "rg_rows p @ replicate (length ?items - length (rg_rows p)) rank_row_new"
  let ?sel = "\<lambda>it. Some (fst it) = rg_selected p"
  let ?nits = "enumerate 1 ?items"
  have len: "length ?items \<le> length ?rows" by simp
  have shown: "map (\<lambda>(row, rank, it). (set_data rank it row)\<lparr>rk_selected := ?sel it, rk_visible := True\<rparr>) (zip ?rows ?nits)
      = map (row_of_item (rg_selected p)) ?nits"
  proof (rule nth_equalityI)
    show "length (map (\<lambda>(row, rank, it). (set_data rank it row)\<lparr>rk_selected := ?sel it, rk_visible := True\<rparr>) (zip ?rows ?nits))
        = length (map (row_of_item (rg_selected p)) ?nits)" using len by simp
  next
    fix i
    assume "i < length (map (\<lambda>(row, rank, it). (set_data rank it row)\<lparr>rk_selected := ?sel it, rk_visible := True\<rparr>) (zip ?rows ?nits))"
    then have i: "i < length ?items" "i < length ?rows" using len by auto
    then have "zip ?rows (enumerate 1 ?items) ! i = (?rows ! i, 1 + i, ?items ! i)"
      by (simp only: nth_zip nth_enumerate_eq length_enumerate)
    with i show "map (\<lambda>(row, rank, it). (set_data rank it row)\<lparr>rk_selected := ?sel it, rk_visible := True\<rparr>) (zip ?rows (enumerate 1 ?items)) ! i
        = map (row_of_item (rg_selected p)) (enumerate 1 ?items) ! i"
      using shown_row [where rank = "1 + i" and it = "?items ! i" and row = "?rows ! i"] by (simp add: row_of_item_def nth_enumerate_eq)
  qed
  have "filter rk_visible (map (row_of_item (rg_selected p)) ?nits) = map (row_of_item (rg_selected p)) ?nits"
    by (rule filter_True) (auto simp: row_of_item_def)
  moreover have "filter rk_visible (map (\<lambda>row. row\<lparr>rk_visible := False\<rparr>) (drop (length ?items) ?rows)) = []"
    by (simp add: filter_empty_conv)
  moreover have "rg_rows (update_rows items p)
      = map (\<lambda>(row, rank, it). (set_data rank it row)\<lparr>rk_selected := ?sel it, rk_visible := True\<rparr>) (zip ?rows ?nits)
        @ map (\<lambda>row. row\<lparr>rk_visible := False\<rparr>) (drop (length ?items) ?rows)"
    unfolding update_rows_def Let_def by simp
  ultimately show ?thesis unfolding visible_rows_def by (simp only: shown filter_append append_Nil2)
qed

lemma update_rows_keeps_pool: "length (rg_rows p) \<le> length (rg_rows (update_rows items p))"
  by (simp add: update_rows_def Let_def min_def)

text \<open>At any time, also between refreshes, a row on screen is highlighted exactly if it stands for the
  selected node.\<close>

definition ranking_wf :: "ranking \<Rightarrow> bool" where
  "ranking_wf p \<longleftrightarrow> (\<forall>row \<in> set (rg_rows p). rk_node row \<noteq> None \<and>
     (rk_visible row \<longrightarrow> (rk_selected row \<longleftrightarrow> rk_node row = rg_selected p)))"

lemma ranking_wf_new: "ranking_wf (ranking_new a b n)"
  by (simp add: ranking_wf_def ranking_new_def)

lemma ranking_wf_select: "ranking_wf p \<Longrightarrow> ranking_wf (set_selected_node num p)"
  by (simp add: ranking_wf_def set_selected_node_def)

lemma ranking_wf_flip: "ranking_wf p \<Longrightarrow> ranking_wf (flip_ranking p)"
  by (simp add: ranking_wf_def flip_ranking_def Let_def)

lemma ranking_wf_update:
  assumes "ranking_wf p"
  shows "ranking_wf (update_rows items p)"
proof -
  let ?items = "take (rg_max_rows p) items"
  have rest: "set (drop (length ?items) (rg_rows p @ replicate (length ?items - length (rg_rows p)) rank_row_new))
      \<subseteq> set (rg_rows p)"
    using set_drop_subset [of "length ?items" "rg_rows p"] by simp
  have sel: "rg_selected (update_rows items p) = rg_selected p" by (simp add: update_rows_def Let_def)
  have "rk_node row \<noteq> None \<and> (rk_visible row \<longrightarrow> (rk_selected row \<longleftrightarrow> rk_node row = rg_selected p))"
    if "row \<in> set (rg_rows (update_rows items p))" for row
    using that rest assms
    by (auto simp: update_rows_def Let_def set_data_def ranking_wf_def split: prod.splits)
  then show ?thesis by (simp add: ranking_wf_def sel)
qed

section \<open>The activity chart\<close>

definition SERIES :: "string list" where
  "SERIES = [''Text'', ''Position'', ''NodeInfo'', ''Telemetry'', ''Other'']"

definition portnum_series :: "int option \<Rightarrow> string" where
  "portnum_series port =
     (case port of None \<Rightarrow> ''Other''
      | Some n \<Rightarrow> (case map_of [(1, ''Text''), (3, ''Position''), (4, ''NodeInfo''), (67, ''Telemetry'')] n of
                    Some s \<Rightarrow> s | None \<Rightarrow> ''Other''))"

definition BUCKET_S :: int where "BUCKET_S = 15"
definition MAX_BUCKETS :: nat where "MAX_BUCKETS = 240"

text \<open>A curve is the list of its points, the seconds ago (negative) and the packets of the bucket.\<close>

record activity_chart =
  ac_data :: "(string \<times> (int \<times> nat) list) list"
  ac_counts :: "(string \<times> nat) list"
  ac_live :: bool
  ac_curves :: "(string \<times> (pyfloat \<times> nat) list) list"

definition chart_new :: activity_chart where
  "chart_new = \<lparr>ac_data = map (\<lambda>s. (s, [])) SERIES, ac_counts = [], ac_live = True, ac_curves = map (\<lambda>s. (s, [])) SERIES\<rparr>"

definition record_packet :: "int option \<Rightarrow> activity_chart \<Rightarrow> activity_chart" where
  "record_packet port c = c\<lparr>ac_counts := counter_add (portnum_series port) (ac_counts c)\<rparr>"

definition flush_bucket :: "pyfloat \<Rightarrow> activity_chart \<Rightarrow> activity_chart" where
  "flush_bucket now c =
     (let ts = py_int_of_float now div BUCKET_S * BUCKET_S
      in c\<lparr>ac_data := map (\<lambda>(s, d). (s, ring_append MAX_BUCKETS d (ts, count_in (ac_counts c) s))) (ac_data c),
           ac_counts := []\<rparr>)"

definition refresh_plot :: "pyfloat \<Rightarrow> activity_chart \<Rightarrow> activity_chart" where
  "refresh_plot now c =
     (if \<not> ac_live c then c
      else c\<lparr>ac_curves := map (\<lambda>(s, d). (s, map (\<lambda>(ts, n). (- (now - of_int ts), n)) d)) (ac_data c)\<rparr>)"

text \<open>Each series holds its own packets, bucket by bucket: the ones recorded since the flush before, at most
  \<open>MAX_BUCKETS\<close> of them.  \<open>chart_run\<close> feeds the ports of one bucket and its flush time at a time.\<close>

definition chart_bucket :: "int option list \<times> pyfloat \<Rightarrow> activity_chart \<Rightarrow> activity_chart" where
  "chart_bucket b c = flush_bucket (snd b) (fold record_packet (fst b) c)"

definition bucket_point :: "string \<Rightarrow> int option list \<times> pyfloat \<Rightarrow> int \<times> nat" where
  "bucket_point s b = (py_int_of_float (snd b) div BUCKET_S * BUCKET_S,
     length (filter (\<lambda>p. portnum_series p = s) (fst b)))"

lemma record_packets_counts:
  "fold record_packet ports c = c\<lparr>ac_counts := fold (\<lambda>p k. counter_add (portnum_series p) k) ports (ac_counts c)\<rparr>"
  by (induction ports arbitrary: c) (simp_all add: record_packet_def)

lemma chart_bucket_data:
  "ac_counts c = [] \<Longrightarrow>
     ac_data (chart_bucket b c) = map (\<lambda>(s, d). (s, ring_append MAX_BUCKETS d (bucket_point s b))) (ac_data c)
     \<and> ac_counts (chart_bucket b c) = []"
  by (simp add: chart_bucket_def flush_bucket_def record_packets_counts bucket_point_def Let_def
      counts_of_lookup [unfolded counts_of_def])

lemma chart_holds_buckets:
  "ac_data (fold chart_bucket bs chart_new) = map (\<lambda>s. (s, last_n MAX_BUCKETS (map (bucket_point s) bs))) SERIES
   \<and> ac_counts (fold chart_bucket bs chart_new) = []"
proof (induction bs rule: rev_induct)
  case Nil
  then show ?case by (simp add: chart_new_def last_n_def)
next
  case (snoc b bs)
  then show ?case by (simp add: chart_bucket_data ring_append_last_n comp_def)
qed

section \<open>Cards\<close>

record metric_card =
  mc_title :: string
  mc_value :: string
  mc_sub :: string
  mc_sub_visible :: bool

definition card_new :: "string \<Rightarrow> string \<Rightarrow> string \<Rightarrow> metric_card" where
  "card_new heading val sub = \<lparr>mc_title = upper heading, mc_value = val, mc_sub = sub, mc_sub_visible = sub \<noteq> []\<rparr>"

definition card_set :: "string \<Rightarrow> string \<Rightarrow> metric_card \<Rightarrow> metric_card" where
  "card_set val sub c =
     (if sub \<noteq> [] then c\<lparr>mc_value := val, mc_sub := sub, mc_sub_visible := True\<rparr>
      else c\<lparr>mc_value := val, mc_sub_visible := False\<rparr>)"

type_synonym multi_card = "(string \<times> string) list"

definition multi_card_new :: "string list \<Rightarrow> multi_card" where
  "multi_card_new names = map (\<lambda>f. (f, emdash)) names"

definition set_card_field :: "string \<Rightarrow> string \<Rightarrow> multi_card \<Rightarrow> multi_card" where
  "set_card_field f v c = map (\<lambda>(k, old). (k, if k = f then v else old)) c"

section \<open>The header strip\<close>

definition degree :: string where "degree = [CHR 0xC2, CHR 0xB0]"
definition sign_radio :: string where "sign_radio = [CHR 0xF0, CHR 0x9F, CHR 0x93, CHR 0xBB]"
definition sign_temp :: string where "sign_temp = [CHR 0xF0, CHR 0x9F, CHR 0x8C, CHR 0xA1]"
definition sign_drop :: string where "sign_drop = [CHR 0xF0, CHR 0x9F, CHR 0x92, CHR 0xA7]"
definition sign_clock :: string where "sign_clock = [CHR 0xE2, CHR 0x8F, CHR 0xB2]"
definition sign_pause :: string where "sign_pause = [CHR 0xE2, CHR 0x8F, CHR 0xB8]"
definition sign_play :: string where "sign_play = [CHR 0xE2, CHR 0x96, CHR 0xB6]"

text \<open>A label that can be hidden is its text and whether it is visible.\<close>

type_synonym label = "string \<times> bool"

record dashboard_header =
  dh_capture :: string
  dh_button :: string
  dh_paused :: bool
  dh_conn :: string
  dh_radio :: label
  dh_radio_tip :: string
  dh_updated :: string
  dh_last_updated :: "instant option"
  dh_temp :: label
  dh_hum :: label
  dh_pres :: label

definition header_new :: dashboard_header where
  "header_new = \<lparr>dh_capture = ''Capture: Live'', dh_button = sign_pause @ '' Pause'', dh_paused = False,
     dh_conn = ''Not connected'', dh_radio = ([], False), dh_radio_tip = [], dh_updated = ''Last updated: '' @ emdash,
     dh_last_updated = None, dh_temp = ([], False), dh_hum = ([], False), dh_pres = ([], False)\<rparr>"

definition show_label :: "string option \<Rightarrow> label \<Rightarrow> label" where
  "show_label t l = (case t of Some s \<Rightarrow> (s, True) | None \<Rightarrow> (fst l, False))"

definition fahrenheit :: "pyfloat \<Rightarrow> pyfloat" where
  "fahrenheit c = c * 9 / 5 + 32"

definition signed_fixed :: "nat \<Rightarrow> pyfloat \<Rightarrow> string" where
  "signed_fixed d r = (if r < 0 then fixed d r else ''+'' @ fixed d r)"

definition radio_text :: "lora_config_summary \<Rightarrow> string" where
  "radio_text s =
     (let region = or_text (lc_region s) ''UNSET''
      in sign_radio @ '' '' @
         (if lc_use_preset s
          then region @ middot @ title (replace_str ''_'' '' '' (or_text (lc_modem_preset s) ''?'')) @ middot
               @ ''Ch '' @ show_int (lc_channel_num s)
          else region @ middot @ show_int (lc_bandwidth_khz s) @ ''kHz/SF'' @ show_int (lc_spread_factor s) @ ''/CR''
               @ show_int (lc_coding_rate s) @ middot @ ''Ch '' @ show_int (lc_channel_num s)))"

definition radio_tip :: "lora_config_summary \<Rightarrow> string" where
  "radio_tip s = ''Region: '' @ or_text (lc_region s) ''UNSET'' @ [lf]
     @ ''Frequency plan channel: '' @ show_int (lc_channel_num s) @ [lf]
     @ ''Frequency offset: '' @ signed_fixed 3 (lc_frequency_offset_mhz s) @ '' MHz'' @ [lf]
     @ ''TX power: '' @ show_int (lc_tx_power_dbm s) @ '' dBm'' @ [lf] @ ''Hop limit: '' @ show_int (lc_hop_limit s)"

definition header_radio_config :: "lora_config_summary option \<Rightarrow> dashboard_header \<Rightarrow> dashboard_header" where
  "header_radio_config summary h =
     (case summary of
        None \<Rightarrow> h\<lparr>dh_radio := (fst (dh_radio h), False)\<rparr>
      | Some s \<Rightarrow> h\<lparr>dh_radio := (radio_text s, True), dh_radio_tip := radio_tip s\<rparr>)"

definition header_connection :: "connection_state \<Rightarrow> string \<Rightarrow> dashboard_header \<Rightarrow> dashboard_header" where
  "header_connection state name h =
     (if state = CONNECTED then h\<lparr>dh_conn := ''Connected: '' @ (if name \<noteq> [] then name else ''Unknown'')\<rparr>
      else header_radio_config None (h\<lparr>dh_conn := ''Not connected''\<rparr>))"

definition update_clock :: "(instant \<Rightarrow> string) \<Rightarrow> dashboard_header \<Rightarrow> dashboard_header" where
  "update_clock clock h =
     (case dh_last_updated h of None \<Rightarrow> h | Some t \<Rightarrow> h\<lparr>dh_updated := ''Last updated: '' @ clock t\<rparr>)"

definition mark_updated :: "(instant \<Rightarrow> string) \<Rightarrow> instant \<Rightarrow> dashboard_header \<Rightarrow> dashboard_header" where
  "mark_updated clock now h = update_clock clock (h\<lparr>dh_last_updated := Some now\<rparr>)"

definition header_env :: "pyfloat option \<Rightarrow> pyfloat option \<Rightarrow> pyfloat option \<Rightarrow> dashboard_header \<Rightarrow> dashboard_header" where
  "header_env temp hum pres h =
     h\<lparr>dh_temp := show_label (map_option (\<lambda>c. sign_temp @ '' '' @ fixed 1 (fahrenheit c) @ degree @ ''F'') temp) (dh_temp h),
       dh_hum := show_label (map_option (\<lambda>r. sign_drop @ '' '' @ fixed 0 r @ ''%'') hum) (dh_hum h),
       dh_pres := show_label (map_option (\<lambda>p. sign_clock @ '' '' @ fixed 1 p @ '' hPa'') pres) (dh_pres h)\<rparr>"

definition set_paused :: "bool \<Rightarrow> dashboard_header \<Rightarrow> dashboard_header" where
  "set_paused p h =
     h\<lparr>dh_paused := p, dh_capture := (if p then ''Capture: Paused'' else ''Capture: Live''),
       dh_button := (if p then sign_play @ '' Resume'' else sign_pause @ '' Pause'')\<rparr>"

definition toggle_pause :: "dashboard_header \<Rightarrow> dashboard_header" where
  "toggle_pause h = set_paused (\<not> dh_paused h) h"

section \<open>The node inspector\<close>

record node_inspector =
  ni_node_num :: "node_id option"
  ni_heading :: string
  ni_enabled :: bool
  ni_rows :: "(string \<times> string) list"

definition inspector_rows :: "instant \<Rightarrow> node_snapshot \<Rightarrow> (string \<times> string) list" where
  "inspector_rows now n =
     [(''Long Name'', or_text (nd_long_name n) emdash), (''Short Name'', or_text (nd_short_name n) emdash),
      (''Node ID'', or_text (nd_node_id n) (bang_hex8 (nd_num n))), (''Node Number'', show_int (nd_num n)),
      (''Role'', or_text (nd_role n) emdash), (''Hardware'', or_text (nd_hw_model n) emdash),
      (''First Seen'', relative_age now (nd_first_seen n) emdash '' ago''),
      (''Last Heard'', relative_age now (nd_last_heard n) emdash '' ago''),
      (''Packets Observed'', show_nat (nd_packet_count n)), (''Text Messages'', show_nat (nd_text_count n)),
      (''RF Packets'', show_nat (nd_rf_count n)), (''MQTT Packets'', show_nat (nd_via_mqtt_count n)),
      (''SNR'', opt_cell (\<lambda>r. fixed 1 r @ '' dB'') emdash (nd_last_snr n)),
      (''RSSI'', opt_cell (\<lambda>r. show_int r @ '' dBm'') emdash (nd_last_rssi n)), (''Noise'', ''N/A''),
      (''Last Hops Used'', opt_cell show_int emdash (nd_last_hops_used n)),
      (''Last Hops Left'',
         case (nd_last_hops_used n, nd_last_hop_start n) of
           (Some u, Some s) \<Rightarrow> if u \<le> s then show_int (s - u) else emdash
         | _ \<Rightarrow> emdash),
      (''Hop Start'', opt_cell show_int emdash (nd_last_hop_start n)),
      (''Battery'', opt_cell (\<lambda>b. if b > 100 then ''Plugged in'' else fixed 0 b @ ''%'') emdash (nd_battery_level n)),
      (''Voltage'', opt_cell (\<lambda>v. fixed 2 v @ '' V'') emdash (nd_voltage n)),
      (''Channel Util.'', opt_cell (\<lambda>v. fixed 1 v @ ''%'') emdash (nd_channel_utilization n)),
      (''Air Util. TX'', opt_cell (\<lambda>v. fixed 1 v @ ''%'') emdash (nd_air_util_tx n)),
      (''Temperature'', opt_cell (\<lambda>v. fixed 1 (fahrenheit v) @ degree @ ''F'') emdash (nd_temperature_c n)),
      (''Humidity'', opt_cell (\<lambda>v. fixed 0 v @ ''%'') emdash (nd_relative_humidity n)),
      (''Pressure'', opt_cell (\<lambda>v. fixed 1 v @ '' hPa'') emdash (nd_barometric_pressure_hpa n)),
      (''Last Reading'', relative_age now (nd_last_telemetry_at n) emdash '' ago'')]"

definition show_node :: "instant \<Rightarrow> node_snapshot \<Rightarrow> node_inspector \<Rightarrow> node_inspector" where
  "show_node now n i =
     i\<lparr>ni_node_num := Some (nd_num n), ni_heading := node_display_name n, ni_enabled := True, ni_rows := inspector_rows now n\<rparr>"

definition inspector_clear :: "node_inspector \<Rightarrow> node_inspector" where
  "inspector_clear i = i\<lparr>ni_node_num := None, ni_heading := ''No node selected'', ni_enabled := False\<rparr>"

definition on_inspector_button :: "node_inspector \<Rightarrow> node_id option" where
  "on_inspector_button i = ni_node_num i"

definition inspector_new :: node_inspector where
  "inspector_new = \<lparr>ni_node_num = None, ni_heading = ''No node selected'', ni_enabled = False,
     ni_rows = map (\<lambda>k. (k, emdash)) [''Long Name'', ''Short Name'', ''Node ID'', ''Node Number'', ''Role'', ''Hardware'',
         ''First Seen'', ''Last Heard'']
       @ map (\<lambda>k. (k, ''0'')) [''Packets Observed'', ''Text Messages'', ''RF Packets'', ''MQTT Packets'']
       @ [(''SNR'', emdash), (''RSSI'', emdash), (''Noise'', ''N/A'')]
       @ map (\<lambda>k. (k, emdash)) [''Last Hops Used'', ''Last Hops Left'', ''Hop Start'', ''Battery'', ''Voltage'', ''Channel Util.'',
         ''Air Util. TX'', ''Temperature'', ''Humidity'', ''Pressure'', ''Last Reading'']\<rparr>"

lemma inspector_labels: "map fst (inspector_rows now n) = map fst (ni_rows inspector_new)"
  by (simp add: inspector_rows_def inspector_new_def)

section \<open>The filter bar, the log and the table\<close>

text \<open>Reset reports once, whatever the boxes stood on, and leaves their signals as blocked as they were.\<close>

lemma filter_reset_once:
  "snd (filter_reset b) = [current_filter filter_bar_new]
   \<and> current_filter (fst (filter_reset b)) = current_filter filter_bar_new
   \<and> cb_blocked (fb_age (fst (filter_reset b))) = cb_blocked (fb_age b)
   \<and> cb_blocked (fb_src (fst (filter_reset b))) = cb_blocked (fb_src b)
   \<and> cb_blocked (fb_pkt (fst (filter_reset b))) = cb_blocked (fb_pkt b)"
  by (simp add: filter_reset_def pick_age_def pick_source_def pick_type_def combo_select_def current_filter_def
      filter_bar_new_def Let_def)

lemma type_options_are_breakdown_rows: "PKT_OPTIONS = ''All'' # BREAKDOWN_ROWS"
  by (simp add: PKT_OPTIONS_def BREAKDOWN_ROWS_def)

text \<open>A view that follows the model's signals counts the rows the model has, also when the log is full.\<close>

fun view_count :: "model_signal \<Rightarrow> nat \<Rightarrow> nat" where
  "view_count (RowsRemoved i j) n = n - (j - i + 1)"
| "view_count (RowsInserted i j) n = n + (j - i + 1)"
| "view_count ModelReset n = 0"

lemma append_packet_signals:
  "fold view_count (snd (append_packet p rows)) (length rows) = length (fst (append_packet p rows))"
  by (simp add: append_packet_def Let_def MAX_LOG_ROWS_def)

lemma append_packet_ring: "fst (append_packet p rows) = ring_append MAX_LOG_ROWS rows p" if "length rows \<le> MAX_LOG_ROWS"
  using that by (cases rows) (auto simp: append_packet_def ring_append_def Let_def MAX_LOG_ROWS_def)

lemma log_holds_last_packets:
  "fold (\<lambda>p rows. fst (append_packet p rows)) ps [] = last_n MAX_LOG_ROWS ps"
proof (induction ps rule: rev_induct)
  case (snoc p ps)
  have "length (last_n MAX_LOG_ROWS ps) \<le> MAX_LOG_ROWS" by simp
  with snoc show ?case by (simp add: append_packet_ring ring_append_last_n)
qed simp

lemma cells_match_columns: "length (cell_renderers now) = length node_columns"
  by (simp add: cell_renderers_def node_columns_def)

lemma table_rows_mset: "mset (table_rows never nodes) = mset nodes"
  by (simp add: table_rows_def py_sorted_def)

lemma row_of_Some: "row_of num rows = Some i \<Longrightarrow> i < length rows \<and> nd_num (rows ! i) = num"
  by (induction rows arbitrary: i) (auto split: if_splits)

lemma row_of_None: "row_of num rows = None \<longleftrightarrow> num \<notin> nd_num ` set rows"
  by (induction rows) auto

lemma node_at_row_of: "row_of num rows = Some i \<Longrightarrow> map_option nd_num (node_at rows (int i)) = Some num"
  using row_of_Some [of num rows i] by (simp add: node_at_def)

end
