(* ===== verification/Packs.thy ===== *)
theory Packs
  imports Tiles "HOL-Library.While_Combinator"
begin

text \<open>
  \<open>controllers/orcmaps_controller.py\<close>, \<open>services/provisioning\<close> (capability and destinations), the setup
  wizard, the Maps tab of the device page and the part of the main window that joins them: verifying
  a card, cutting a map pack around a point, and building the regions the wizard collected one after
  the other.  The OrcMaps executables, \<open>git\<close> and the file dialogs are parameters: what they answer is
  part of the events.  The size estimate of \<open>regions.py\<close> is floating-point interpolation and a parameter
  here; theory Geo has it over the reals.
\<close>

section \<open>The worker\<close>

text \<open>The message of an error, as \<open>str(exc)\<close> gives it.\<close>

fun ppm_str :: "ppm_error \<Rightarrow> string" where
  "ppm_str NotBinaryPpm = ''OrcMaps returned an image that is not a binary PPM''"
| "ppm_str MalformedHeader = ''Malformed PPM header from OrcMaps''"
| "ppm_str (UnsupportedMaxval n) = ''Unsupported PPM maxval '' @ show_nat n"
| "ppm_str TruncatedPpm = ''Truncated PPM from OrcMaps''"

fun orc_str :: "orc_error \<Rightarrow> string" where
  "orc_str (ToolFailed m) = m"
| "orc_str (Refused m) = m"
| "orc_str (PpmError e) = ppm_str e"
| "orc_str (NoPackCovers z x y) = ''No pack covers z'' @ show_nat z @ ''/'' @ show_int x @ ''/'' @ show_int y"
| "orc_str (NoPackRendered z x y) = ''No pack rendered z'' @ show_nat z @ ''/'' @ show_int x @ ''/'' @ show_int y"
| "orc_str (DoesNotCover n z x y) =
     n @ '' does not cover z'' @ show_nat z @ ''/'' @ show_int x @ ''/'' @ show_int y"

datatype orc_job = VerifyJob orc_tools string | ProvisionJob orc_tools pin_pack_request

text \<open>
  Where the worker thread is: waiting for a slot, before the tool has been started, reading the
  output of the running tool, checking the staged pack, or checking a directory.
\<close>

datatype orc_phase =
    OrcIdle
  | Preparing orc_tools pin_pack_request
  | Cutting orc_tools pin_pack_request "string list"
  | StageCheck orc_tools pin_pack_request string
  | Checking orc_tools string

text \<open>What the worker does: log lines, the \<open>completed\<close> signal, commands it runs and the tool it terminates.\<close>

datatype orc_out =
    OrcLog string
  | OrcCompleted string bool string
  | OrcStarted "string list"
  | OrcTerminated

record orc_worker =
  ow_phase :: orc_phase
  ow_process :: bool
  ow_cancelled :: bool
  ow_queue :: "orc_job list"
  ow_quit :: bool
  ow_out :: "orc_out list"

definition orc_worker_new :: orc_worker where
  "orc_worker_new = \<lparr>ow_phase = OrcIdle, ow_process = False, ow_cancelled = False, ow_queue = [],
     ow_quit = False, ow_out = []\<rparr>"

definition orc_emit :: "orc_out \<Rightarrow> orc_worker \<Rightarrow> orc_worker" where
  "orc_emit o1 w = w\<lparr>ow_out := ow_out w @ [o1]\<rparr>"

definition orc_completed :: "string \<Rightarrow> bool \<Rightarrow> string \<Rightarrow> orc_worker \<Rightarrow> orc_worker" where
  "orc_completed operation ok detail w = (orc_emit (OrcCompleted operation ok detail) w)\<lparr>ow_phase := OrcIdle\<rparr>"

definition orc_log_lines :: "string list \<Rightarrow> orc_worker \<Rightarrow> orc_worker" where
  "orc_log_lines ls w = fold (\<lambda>l. orc_emit (OrcLog l)) ls w"

text \<open>The slot \<open>verify\<close>: up to the run of the tool, and from its end on.\<close>

definition verify_begin :: "orc_tools \<Rightarrow> string \<Rightarrow> orc_worker \<Rightarrow> orc_worker" where
  "verify_begin tools directory w = w\<lparr>ow_phase := Checking tools directory\<rparr>"

definition verify_end ::
    "host \<Rightarrow> orc_tools \<Rightarrow> string \<Rightarrow> (string list \<Rightarrow> process) \<Rightarrow> orc_worker \<Rightarrow> orc_worker" where
  "verify_end h tools directory run w =
     (case verify_directory h tools directory run of
        Inl e \<Rightarrow> orc_completed ''verify'' False (orc_str e) w
      | Inr (ok, out) \<Rightarrow>
          orc_completed ''verify'' ok
            (if ok then ''Verified '' @ emdash @ '' a device would install these packs.''
             else ''Verification failed '' @ emdash @ '' a device would not use this directory as-is.'')
            (orc_log_lines (split_lines out) w))"

text \<open>The slot \<open>provision\<close>, cut at the points where the thread blocks.\<close>

definition provision_begin :: "orc_tools \<Rightarrow> pin_pack_request \<Rightarrow> orc_worker \<Rightarrow> orc_worker" where
  "provision_begin tools req w = w\<lparr>ow_cancelled := False, ow_phase := Preparing tools req\<rparr>"

text \<open>Reading the commit and starting the tool; \<open>popen\<close> is the error of a tool that could not be started.\<close>

definition provision_start ::
    "(pyfloat \<Rightarrow> string) \<Rightarrow> (pyfloat \<Rightarrow> string) \<Rightarrow> string \<Rightarrow> process \<Rightarrow> string option
      \<Rightarrow> orc_tools \<Rightarrow> pin_pack_request \<Rightarrow> orc_worker \<Rightarrow> orc_worker" where
  "provision_start fixed6 general python git popen tools req w =
     (case provision_argv fixed6 general python tools req (checkout_commit git) of
        Inl e \<Rightarrow> orc_completed ''provision'' False (orc_str e) (w\<lparr>ow_process := False\<rparr>)
      | Inr argv \<Rightarrow>
          (case popen of
             Some e \<Rightarrow> orc_completed ''provision'' False e (w\<lparr>ow_process := False\<rparr>)
           | None \<Rightarrow> (orc_emit (OrcStarted argv) w)\<lparr>ow_process := True, ow_phase := Cutting tools req []\<rparr>))"

definition provision_line :: "string \<Rightarrow> orc_tools \<Rightarrow> pin_pack_request \<Rightarrow> string list \<Rightarrow> orc_worker \<Rightarrow> orc_worker" where
  "provision_line raw tools req ls w =
     (case stream_lines [raw] of
        [] \<Rightarrow> w
      | l # _ \<Rightarrow> (orc_emit (OrcLog l) w)\<lparr>ow_phase := Cutting tools req (ls @ [l])\<rparr>)"

definition pack_dir :: "pin_pack_request \<Rightarrow> string option" where
  "pack_dir req = map_option device_pack_dir (pp_card_root req)"

definition last_line :: "string \<Rightarrow> string" where
  "last_line out =
     (if strip out \<noteq> [] then last (split_lines (strip out)) else ''see the log'')"

definition provision_end ::
    "string + int \<Rightarrow> orc_tools \<Rightarrow> pin_pack_request \<Rightarrow> string list \<Rightarrow> orc_worker \<Rightarrow> orc_worker" where
  "provision_end exit tools req ls w =
     (let w = w\<lparr>ow_process := False\<rparr>; out = join_with [CHR 0x0A] ls
      in case exit of
           Inl e \<Rightarrow> orc_completed ''provision'' False e w
         | Inr code \<Rightarrow>
             if ow_cancelled w then orc_completed ''provision'' False ''Pack build cancelled'' w
             else if code \<noteq> 0 then orc_completed ''provision'' False (''Pack build failed: '' @ last_line out) w
             else if pp_dry_run req
             then orc_completed ''provision'' True (''Preview complete '' @ emdash @ '' nothing was cut'') w
             else case pack_dir req of
                    None \<Rightarrow> orc_completed ''provision'' True ''Pack built (nothing to stage)'' w
                  | Some dir \<Rightarrow> w\<lparr>ow_phase := StageCheck tools req dir\<rparr>)"

definition provision_check ::
    "host \<Rightarrow> (string list \<Rightarrow> process) \<Rightarrow> orc_tools \<Rightarrow> string \<Rightarrow> orc_worker \<Rightarrow> orc_worker" where
  "provision_check h run tools dir w =
     (case verify_directory h tools dir run of
        Inl e \<Rightarrow>
          orc_completed ''provision'' False (''Pack built, but verification could not run: '' @ orc_str e) w
      | Inr (ok, out) \<Rightarrow>
          (if ok then orc_completed ''provision'' True (''Pack built and verified in '' @ dir)
           else orc_completed ''provision'' False
                  (''Pack was built but failed OrcMaps'' @ [CHR 0x27] @ '' own verification '' @ emdash @ '' see the log''))
            (orc_log_lines (split_lines out) w))"

text \<open>Called from the GUI thread at any moment; \<open>alive\<close> is whether the tool was still running.\<close>

definition orc_cancel :: "bool \<Rightarrow> orc_worker \<Rightarrow> orc_worker" where
  "orc_cancel alive w =
     (let held = ow_process w; w = w\<lparr>ow_process := False, ow_cancelled := True\<rparr>
      in if held \<and> alive then orc_emit OrcTerminated w else w)"

section \<open>The facade\<close>

definition orc_verify :: "orc_tools \<Rightarrow> string \<Rightarrow> orc_worker \<Rightarrow> orc_worker" where
  "orc_verify tools directory w = w\<lparr>ow_queue := ow_queue w @ [VerifyJob tools directory]\<rparr>"

definition orc_provision :: "orc_tools \<Rightarrow> pin_pack_request \<Rightarrow> orc_worker \<Rightarrow> orc_worker" where
  "orc_provision tools req w = w\<lparr>ow_queue := ow_queue w @ [ProvisionJob tools req]\<rparr>"

definition orc_shutdown :: "bool \<Rightarrow> orc_worker \<Rightarrow> orc_worker" where
  "orc_shutdown alive w = (orc_cancel alive w)\<lparr>ow_quit := True\<rparr>"

text \<open>The event loop of the worker thread takes the next queued slot when it is idle and not told to quit.\<close>

definition orc_next :: "orc_worker \<Rightarrow> orc_worker" where
  "orc_next w =
     (case (ow_phase w, ow_queue w) of
        (OrcIdle, VerifyJob tools directory # js) \<Rightarrow>
          if ow_quit w then w else verify_begin tools directory (w\<lparr>ow_queue := js\<rparr>)
      | (OrcIdle, ProvisionJob tools req # js) \<Rightarrow>
          if ow_quit w then w else provision_begin tools req (w\<lparr>ow_queue := js\<rparr>)
      | _ \<Rightarrow> w)"

section \<open>Runs of the worker\<close>

datatype orc_event =
    AskVerify orc_tools string
  | AskProvision orc_tools pin_pack_request
  | CancelNow bool
  | ShutDown bool
  | NextSlot
  | StartTool process "string option"
  | ToolLine string
  | ToolExit "string + int"
  | CheckEnd "string list \<Rightarrow> process"

text \<open>What the worker's surroundings fix: the file system, the number formats and the interpreter.\<close>

record orc_env =
  oe_host :: host
  oe_fixed6 :: "pyfloat \<Rightarrow> string"
  oe_general :: "pyfloat \<Rightarrow> string"
  oe_python :: string

definition orc_step :: "orc_env \<Rightarrow> orc_event \<Rightarrow> orc_worker \<Rightarrow> orc_worker" where
  "orc_step env ev w =
     (case ev of
        AskVerify tools directory \<Rightarrow> orc_verify tools directory w
      | AskProvision tools req \<Rightarrow> orc_provision tools req w
      | CancelNow alive \<Rightarrow> orc_cancel alive w
      | ShutDown alive \<Rightarrow> orc_shutdown alive w
      | NextSlot \<Rightarrow> orc_next w
      | StartTool git popen \<Rightarrow>
          (case ow_phase w of
             Preparing tools req \<Rightarrow>
               provision_start (oe_fixed6 env) (oe_general env) (oe_python env) git popen tools req w
           | _ \<Rightarrow> w)
      | ToolLine raw \<Rightarrow> (case ow_phase w of Cutting tools req ls \<Rightarrow> provision_line raw tools req ls w | _ \<Rightarrow> w)
      | ToolExit exit \<Rightarrow> (case ow_phase w of Cutting tools req ls \<Rightarrow> provision_end exit tools req ls w | _ \<Rightarrow> w)
      | CheckEnd run \<Rightarrow>
          (case ow_phase w of
             StageCheck tools req dir \<Rightarrow> provision_check (oe_host env) run tools dir w
           | Checking tools directory \<Rightarrow> verify_end (oe_host env) tools directory run w
           | _ \<Rightarrow> w))"

definition orc_run :: "orc_env \<Rightarrow> orc_event list \<Rightarrow> orc_worker \<Rightarrow> orc_worker" where
  "orc_run env es w = fold (orc_step env) es w"

text \<open>Requests made, and completions reported.\<close>

fun is_ask :: "orc_event \<Rightarrow> bool" where
  "is_ask (AskVerify _ _) = True"
| "is_ask (AskProvision _ _) = True"
| "is_ask _ = False"

fun is_completion :: "orc_out \<Rightarrow> bool" where
  "is_completion (OrcCompleted _ _ _) = True"
| "is_completion _ = False"

definition completions :: "orc_worker \<Rightarrow> nat" where
  "completions w = length (filter is_completion (ow_out w))"

definition busy :: "orc_worker \<Rightarrow> nat" where
  "busy w = (case ow_phase w of OrcIdle \<Rightarrow> 0 | _ \<Rightarrow> 1)"

lemma orc_log_lines_simps [simp]:
  "ow_phase (orc_log_lines ls w) = ow_phase w" "ow_queue (orc_log_lines ls w) = ow_queue w"
  "ow_process (orc_log_lines ls w) = ow_process w" "ow_cancelled (orc_log_lines ls w) = ow_cancelled w"
  "ow_out (orc_log_lines ls w) = ow_out w @ map OrcLog ls"
  by (induction ls arbitrary: w) (simp_all add: orc_log_lines_def orc_emit_def)

lemma no_completion_in_log [simp]: "filter is_completion (map OrcLog ls) = []"
  by (induction ls) simp_all

lemmas orc_ops = orc_verify_def orc_provision_def orc_cancel_def orc_shutdown_def verify_begin_def
  verify_end_def provision_begin_def provision_start_def provision_line_def provision_end_def
  provision_check_def orc_completed_def orc_emit_def Let_def

lemma orc_step_books:
  "completions (orc_step env ev w) + busy (orc_step env ev w) + length (ow_queue (orc_step env ev w))
   = completions w + busy w + length (ow_queue w) + (if is_ask ev then 1 else 0)"
proof (cases ev)
  case NextSlot
  then show ?thesis
    by (cases "ow_phase w"; cases "ow_queue w"; simp add: orc_step_def orc_next_def)
       (simp_all add: completions_def busy_def verify_begin_def provision_begin_def split: orc_job.split)
qed (cases "ow_phase w"; force simp: orc_step_def completions_def busy_def orc_ops split: sum.split option.split list.split)+

text \<open>C32: every request is answered exactly once: whatever is asked, cancelled and answered, in any order,
  the requests made are those reported as completed, the one at work and those still queued.\<close>

theorem one_completion_per_request:
  "completions (orc_run env es orc_worker_new) + busy (orc_run env es orc_worker_new)
     + length (ow_queue (orc_run env es orc_worker_new)) = length (filter is_ask es)"
proof (induction es rule: rev_induct)
  case Nil
  show ?case by (simp add: orc_run_def orc_worker_new_def completions_def busy_def)
next
  case (snoc ev es)
  then show ?case by (simp add: orc_run_def orc_step_books)
qed

text \<open>What stands behind a reported success of a pack build.\<close>

definition build_justified :: "orc_env \<Rightarrow> orc_event \<Rightarrow> orc_worker \<Rightarrow> bool" where
  "build_justified env ev w \<longleftrightarrow>
     (\<exists>tools req ls. ow_phase w = Cutting tools req ls \<and> ev = ToolExit (Inr 0) \<and> \<not> ow_cancelled w \<and> pp_dry_run req)
     \<or> (\<exists>tools req dir run exe out. ow_phase w = StageCheck tools req dir \<and> \<not> pp_dry_run req
          \<and> pack_dir req = Some dir \<and> ev = CheckEnd run \<and> ot_verify tools = Some exe
          \<and> run [exe, resolve_pack_directory (oe_host env) dir] = Inr (0, out))"

text \<open>A tool is only running for a request that names a card, and only a real build is checked.\<close>

definition phase_ok :: "orc_worker \<Rightarrow> bool" where
  "phase_ok w \<longleftrightarrow>
     (case ow_phase w of
        Cutting tools req ls \<Rightarrow> pack_dir req \<noteq> None
      | StageCheck tools req dir \<Rightarrow> pack_dir req = Some dir \<and> \<not> pp_dry_run req
      | _ \<Rightarrow> True)"

lemma provision_argv_card: "provision_argv f g py tools req commit = Inr argv \<Longrightarrow> pp_card_root req \<noteq> None"
  by (auto simp: provision_argv_def split: option.splits)

lemma orc_step_phase_ok: "phase_ok w \<Longrightarrow> phase_ok (orc_step env ev w)"
proof (cases ev)
  case NextSlot
  assume "phase_ok w"
  with NextSlot show ?thesis
    by (cases "ow_phase w"; cases "ow_queue w"; simp add: orc_step_def orc_next_def phase_ok_def)
       (simp_all add: verify_begin_def provision_begin_def split: orc_job.split)
qed (cases "ow_phase w"; force simp: orc_step_def phase_ok_def pack_dir_def orc_ops
       dest: provision_argv_card split: sum.split option.split list.split)+

lemma orc_run_phase_ok: "phase_ok (orc_run env es orc_worker_new)"
proof (induction es rule: rev_induct)
  case Nil
  show ?case by (simp add: orc_run_def orc_worker_new_def phase_ok_def)
qed (simp add: orc_run_def orc_step_phase_ok)

lemma verify_directory_ok:
  "verify_directory h tools dir run = Inr (True, out) \<Longrightarrow>
    \<exists>exe out'. ot_verify tools = Some exe \<and> run [exe, resolve_pack_directory h dir] = Inr (0, out')"
  by (auto simp: verify_directory_def split: option.splits sum.splits)

lemma built_success_step:
  assumes ok: "phase_ok w" and out: "ow_out (orc_step env ev w) = ow_out w @ outs"
    and success: "OrcCompleted ''provision'' True d \<in> set outs"
  shows "build_justified env ev w"
proof (cases ev)
  case (StartTool git popen)
  with out success show ?thesis
    by (auto simp: orc_step_def orc_ops split: orc_phase.splits sum.splits option.splits)
next
  case (ToolLine raw)
  with out success show ?thesis
    by (auto simp: orc_step_def orc_ops split: orc_phase.splits list.splits)
next
  case (ToolExit exit)
  with out success ok show ?thesis
    by (auto simp: orc_step_def orc_ops build_justified_def phase_ok_def
        split: orc_phase.splits sum.splits option.splits if_splits)
next
  case (CheckEnd run)
  with out success ok show ?thesis
    by (auto simp: orc_step_def orc_ops build_justified_def phase_ok_def
        dest!: verify_directory_ok split: orc_phase.splits sum.splits option.splits if_splits)
next
  case NextSlot
  with out success show ?thesis
    by (auto simp: orc_step_def orc_next_def orc_ops split: orc_phase.splits list.splits orc_job.splits if_splits)
qed (use out success in \<open>auto simp: orc_step_def orc_ops split: if_splits\<close>)

text \<open>C20: a pack build is only reported as a success when it was a preview the tool finished without error and
  nobody cancelled, or when OrcMaps' own verification, run on the directory the pack was staged into,
  ended with status 0.\<close>

theorem build_success_is_verified:
  assumes "w = orc_run env es orc_worker_new" "ow_out (orc_step env ev w) = ow_out w @ outs"
    "OrcCompleted ''provision'' True d \<in> set outs"
  shows "build_justified env ev w"
  using built_success_step [OF _ assms(2,3)] orc_run_phase_ok assms(1) by simp

text \<open>A build told to stop while the tool is prepared or running.\<close>

definition stopping :: "orc_worker \<Rightarrow> bool" where
  "stopping w \<longleftrightarrow> ow_cancelled w \<and> (case ow_phase w of Preparing _ _ \<Rightarrow> True | Cutting _ _ _ \<Rightarrow> True | _ \<Rightarrow> False)"

definition first_completion :: "orc_out list \<Rightarrow> orc_out option" where
  "first_completion outs = find is_completion outs"

definition reports_failure :: "orc_out list \<Rightarrow> bool" where
  "reports_failure outs \<longleftrightarrow> (\<exists>d. first_completion outs = Some (OrcCompleted ''provision'' False d))"

lemma stopping_step:
  assumes "stopping w"
  shows "\<exists>outs. ow_out (orc_step env ev w) = ow_out w @ outs
    \<and> (reports_failure outs \<or> first_completion outs = None \<and> stopping (orc_step env ev w))"
  using assms
  by (cases ev; cases "ow_phase w")
    (auto simp: orc_step_def orc_next_def orc_ops stopping_def reports_failure_def first_completion_def
       split: sum.split option.split list.split)

lemma orc_step_extends: "\<exists>outs. ow_out (orc_step env ev w) = ow_out w @ outs"
proof (cases ev)
  case NextSlot
  then show ?thesis
    by (auto simp: orc_step_def orc_next_def orc_ops split: orc_phase.splits list.splits orc_job.splits)
qed (cases "ow_phase w"; auto simp: orc_step_def orc_ops split: sum.split option.split list.split)+

lemma orc_run_extends: "\<exists>outs. ow_out (orc_run env es w) = ow_out w @ outs"
proof (induction es arbitrary: w)
  case (Cons ev es)
  obtain o1 where "ow_out (orc_step env ev w) = ow_out w @ o1" using orc_step_extends by blast
  with Cons [of "orc_step env ev w"] show ?case by (auto simp: orc_run_def)
qed (simp add: orc_run_def)

text \<open>Once cancelled, a build that is being prepared or cut never ends as a success: whatever happens
  afterwards, the next completion reported is its failure, and until then it stays cancelled.\<close>

theorem cancelled_build_fails:
  assumes "stopping w"
  shows "\<exists>outs. ow_out (orc_run env es w) = ow_out w @ outs
    \<and> (reports_failure outs \<or> first_completion outs = None \<and> stopping (orc_run env es w))"
  using assms
proof (induction es arbitrary: w)
  case Nil
  then show ?case by (simp add: orc_run_def first_completion_def)
next
  case (Cons ev es)
  obtain o1 where o1: "ow_out (orc_step env ev w) = ow_out w @ o1"
      "reports_failure o1 \<or> first_completion o1 = None \<and> stopping (orc_step env ev w)"
    using stopping_step [OF Cons.prems] by blast
  show ?case
  proof (cases "reports_failure o1")
    case True
    obtain o2 where "ow_out (orc_run env es (orc_step env ev w)) = (ow_out w @ o1) @ o2"
      using orc_run_extends [of env es "orc_step env ev w"] o1 by auto
    with True show ?thesis
      by (intro exI [of _ "o1 @ o2"]) (auto simp: orc_run_def reports_failure_def first_completion_def find_append)
  next
    case False
    with o1 Cons.IH [of "orc_step env ev w"] obtain o2 where
      "ow_out (orc_run env es (orc_step env ev w)) = (ow_out w @ o1) @ o2"
      "reports_failure o2 \<or> first_completion o2 = None \<and> stopping (orc_run env es (orc_step env ev w))"
      by auto
    with False o1 show ?thesis
      by (intro exI [of _ "o1 @ o2"]) (auto simp: orc_run_def reports_failure_def first_completion_def find_append)
  qed
qed

text \<open>An undisturbed build gives what the service function \<open>provision_pin_pack\<close> gives.\<close>

lemma tool_lines:
  assumes "ow_phase w = Cutting tools req ls"
  shows "orc_run env (map ToolLine raw) w
    = w\<lparr>ow_out := ow_out w @ map OrcLog (stream_lines raw), ow_phase := Cutting tools req (ls @ stream_lines raw)\<rparr>"
  using assms
proof (induction raw arbitrary: w ls)
  case Nil
  then show ?case by (simp add: orc_run_def stream_lines_def)
next
  case (Cons r raw)
  have stream: "stream_lines (r # raw) = stream_lines [r] @ stream_lines raw" by (simp add: stream_lines_def)
  show ?case
  proof (cases "stream_lines [r]")
    case Nil
    with Cons stream show ?thesis by (simp add: orc_run_def orc_step_def provision_line_def)
  next
    case (Cons l xs)
    then have "xs = []" by (simp add: stream_lines_def split: if_splits)
    with Cons Cons.IH [of "(orc_emit (OrcLog l) w)\<lparr>ow_phase := Cutting tools req (ls @ [l])\<rparr>" "ls @ [l]"] Cons.prems stream
    show ?thesis by (simp add: orc_run_def orc_step_def provision_line_def orc_emit_def)
  qed
qed

definition cut_events :: "process \<Rightarrow> (string list \<Rightarrow> string + int \<times> string list) \<Rightarrow> string list \<Rightarrow> orc_event list" where
  "cut_events git run argv =
     (case run argv of
        Inl e \<Rightarrow> [StartTool git None, ToolExit (Inl e)]
      | Inr (code, raw) \<Rightarrow> StartTool git None # map ToolLine raw @ [ToolExit (Inr code)])"

text \<open>The worker reports what the service found: for an undisturbed build, a failure with the service's
  message when it refuses the request or the tool cannot run, a failure with its last line when the
  tool fails, and otherwise a success or the check of the staged pack.\<close>

theorem build_follows_service:
  assumes w: "ow_phase w = Preparing tools req" "\<not> ow_cancelled w"
    and argv: "provision_argv (oe_fixed6 env) (oe_general env) (oe_python env) tools req (checkout_commit git) = Inr argv"
    and w': "w' = orc_run env (cut_events git run argv) w"
  shows "case provision_pin_pack (oe_fixed6 env) (oe_general env) (oe_python env) tools req git run of
      Inl e \<Rightarrow> last (ow_out w') = OrcCompleted ''provision'' False (orc_str e)
    | Inr (ok, out) \<Rightarrow>
        if \<not> ok then last (ow_out w') = OrcCompleted ''provision'' False (''Pack build failed: '' @ last_line out)
        else if pp_dry_run req then (\<exists>d. last (ow_out w') = OrcCompleted ''provision'' True d)
        else \<exists>dir. pack_dir req = Some dir \<and> ow_phase w' = StageCheck tools req dir"
proof -
  define w1 where "w1 = (orc_emit (OrcStarted argv) w)\<lparr>ow_process := True, ow_phase := Cutting tools req []\<rparr>"
  have start: "orc_step env (StartTool git None) w = w1"
    using w argv by (simp add: orc_step_def provision_start_def w1_def)
  have w1: "ow_phase w1 = Cutting tools req []" "\<not> ow_cancelled w1" using w by (simp_all add: w1_def orc_emit_def)
  have card: "pp_card_root req \<noteq> None" using argv by (rule provision_argv_card)
  show ?thesis
  proof (cases "run argv")
    case (Inl e)
    then have "w' = orc_step env (ToolExit (Inl e)) w1" using w' start by (simp add: cut_events_def orc_run_def)
    with Inl argv w1 show ?thesis
      by (simp add: provision_pin_pack_def orc_step_def provision_end_def orc_completed_def orc_emit_def Let_def)
  next
    case (Inr r)
    obtain code raw where r: "r = (code, raw)" by (cases r)
    define w2 where "w2 = w1\<lparr>ow_out := ow_out w1 @ map OrcLog (stream_lines raw), ow_phase := Cutting tools req (stream_lines raw)\<rparr>"
    have "w' = orc_step env (ToolExit (Inr code)) w2"
      using w' start Inr r tool_lines [OF w1(1), of env raw] by (simp add: cut_events_def orc_run_def w2_def)
    with Inr r argv w1 card show ?thesis
      by (auto simp: provision_pin_pack_def orc_step_def w2_def provision_end_def orc_completed_def orc_emit_def
          pack_dir_def Let_def)
  qed
qed

section \<open>Where cancelling does not reach\<close>

text \<open>Before the tool runs there is nothing to terminate: it is started all the same.\<close>

lemma cancel_before_start_runs_tool:
  assumes "ow_phase w = Preparing tools req" "\<not> ow_process w"
    and "provision_argv (oe_fixed6 env) (oe_general env) (oe_python env) tools req (checkout_commit git) = Inr argv"
  shows "ow_out (orc_run env [CancelNow True, StartTool git None] w) = ow_out w @ [OrcStarted argv]"
  using assms by (simp add: orc_run_def orc_step_def orc_cancel_def provision_start_def orc_emit_def Let_def)

text \<open>While the staged pack is checked, cancelling terminates nothing and changes nothing in the outcome.\<close>

lemma cancel_in_check_is_lost:
  assumes "ow_phase w = StageCheck tools req dir" "\<not> ow_process w"
  shows "ow_out (orc_run env [CancelNow True, CheckEnd run] w) = ow_out (orc_run env [CheckEnd run] w)"
  using assms
  by (auto simp: orc_run_def orc_step_def orc_cancel_def provision_check_def orc_completed_def orc_emit_def Let_def
      split: sum.split)

text \<open>A request cancelled while it is still queued runs as if nothing had been said.\<close>

lemma cancel_of_queued_is_lost:
  assumes "ow_phase w = OrcIdle" "\<not> ow_process w" "ow_queue w = [ProvisionJob tools req]" "\<not> ow_quit w"
  shows "orc_run env [CancelNow True, NextSlot] w = orc_run env [NextSlot] w"
  using assms by (simp add: orc_run_def orc_step_def orc_cancel_def orc_next_def provision_begin_def Let_def)

section \<open>Sample runs\<close>

definition sample_env :: orc_env where
  "sample_env = \<lparr>oe_host = \<lparr>ho_env = (\<lambda>_. None), ho_sibling = [], ho_home = [], ho_is_file = (\<lambda>_. False),
       ho_is_dir = (\<lambda>_. False), ho_glob = (\<lambda>_ _. [])\<rparr>,
     oe_fixed6 = (\<lambda>_. ''44.0''), oe_general = (\<lambda>_. ''25''), oe_python = ''python''\<rparr>"

definition sample_tools :: orc_tools where
  "sample_tools = \<lparr>ot_home = ''om'', ot_inspect = ''inspect'', ot_verify = Some ''verify'',
     ot_provision_script = Some ''provision_pack.py'', ot_pmtiles_cli = None\<rparr>"

definition sample_cut :: pin_pack_request where
  "sample_cut = \<lparr>pp_source_manifest = ''oregon'', pp_lat = 44, pp_lon = -123, pp_radius_km = 25, pp_name = ''lane'',
     pp_display_name = [], pp_card_root = Some ''card'', pp_min_zoom = 1, pp_max_zoom = 13, pp_priority = 20,
     pp_dry_run = False, pp_force = False\<rparr>"

definition sample_git :: process where
  "sample_git = Inr (0, replicate 40 (CHR ''a''))"

definition sample_events :: "orc_event list" where
  "sample_events = [AskProvision sample_tools sample_cut, NextSlot, StartTool sample_git None,
     ToolLine ''plan'', ToolExit (Inr 0)]"

definition verify_passes :: "string list \<Rightarrow> process" where
  "verify_passes argv = Inr (0, ''ok'')"

lemma sample_success:
  "ow_out (orc_step sample_env (CheckEnd verify_passes) (orc_run sample_env sample_events orc_worker_new))
   = ow_out (orc_run sample_env sample_events orc_worker_new)
     @ [OrcLog ''ok'', OrcCompleted ''provision'' True ''Pack built and verified in card/orcmaps'']"
  by code_simp

theorem build_success_is_verified_witness:
  "build_justified sample_env (CheckEnd verify_passes) (orc_run sample_env sample_events orc_worker_new)"
  by (rule build_success_is_verified [OF refl sample_success]) simp

definition cutting_cancelled :: orc_worker where
  "cutting_cancelled = orc_run sample_env (take 3 sample_events @ [CancelNow True]) orc_worker_new"

lemma cutting_cancelled_stopping: "stopping cutting_cancelled"
  by code_simp

theorem cancelled_build_fails_witness:
  "\<exists>outs. ow_out (orc_run sample_env [ToolExit (Inr 0)] cutting_cancelled) = ow_out cutting_cancelled @ outs
    \<and> (reports_failure outs \<or> first_completion outs = None \<and> stopping (orc_run sample_env [ToolExit (Inr 0)] cutting_cancelled))"
  by (rule cancelled_build_fails [OF cutting_cancelled_stopping])

definition preparing :: orc_worker where
  "preparing = orc_run sample_env (take 2 sample_events) orc_worker_new"

lemma sample_argv:
  "provision_argv (oe_fixed6 sample_env) (oe_general sample_env) (oe_python sample_env)
     sample_tools sample_cut (checkout_commit sample_git)
   = Inr [''python'', ''provision_pack.py'', ''--source-manifest'', ''oregon'', ''--lat'', ''44.0'', ''--lon'', ''44.0'',
       ''--radius-km'', ''25'', ''--name'', ''lane'', ''--sd-root'', ''card'', ''--min-zoom'', ''1'', ''--max-zoom'', ''13'',
       ''--priority'', ''20'', ''--builder-commit'', replicate 40 (CHR ''a'')]"
  by code_simp

lemma preparing_phase: "ow_phase preparing = Preparing sample_tools sample_cut" "\<not> ow_cancelled preparing"
  by code_simp+

definition tool_fails :: "string list \<Rightarrow> string + int \<times> string list" where
  "tool_fails argv = Inr (2, [''plan'', ''no such source''])"

theorem build_follows_service_witness:
  "last (ow_out (orc_run sample_env (cut_events sample_git tool_fails [''python'', ''provision_pack.py'',
       ''--source-manifest'', ''oregon'', ''--lat'', ''44.0'', ''--lon'', ''44.0'', ''--radius-km'', ''25'', ''--name'', ''lane'',
       ''--sd-root'', ''card'', ''--min-zoom'', ''1'', ''--max-zoom'', ''13'', ''--priority'', ''20'', ''--builder-commit'',
       replicate 40 (CHR ''a'')]) preparing))
   = OrcCompleted ''provision'' False ''Pack build failed: no such source''"
proof -
  have "last_line (join_with [CHR 0x0A] (stream_lines [''plan'', ''no such source''])) = ''no such source''" by code_simp
  with build_follows_service [OF preparing_phase sample_argv refl, of tool_fails] show ?thesis
    by (simp add: provision_pin_pack_def sample_argv tool_fails_def)
qed

section \<open>What this machine can do\<close>

definition MODE_BUILD :: string where "MODE_BUILD = ''build''"
definition MODE_DOWNLOAD :: string where "MODE_DOWNLOAD = ''download''"
definition MODE_UNAVAILABLE :: string where "MODE_UNAVAILABLE = ''unavailable''"

definition MODE_LABELS :: "(string \<times> string) list" where
  "MODE_LABELS = [(MODE_BUILD, ''Build them here''), (MODE_DOWNLOAD, ''Download ready-made packs''),
     (MODE_UNAVAILABLE, ''Maps cannot be set up yet'')]"

text \<open>The size of a pack as a sort key: an unknown one, also a recorded zero, is infinite.\<close>

definition size_key :: "orc_pack \<Rightarrow> bool \<times> int" where
  "size_key p = (case op_size_bytes p of None \<Rightarrow> (True, 0) | Some n \<Rightarrow> if n = 0 then (True, 0) else (False, n))"

definition source_packs_for :: "orc_pack list \<Rightarrow> int \<Rightarrow> orc_pack list" where
  "source_packs_for packs max_zoom =
     sort_key (\<lambda>p. (size_key p, op_stem p)) (filter (\<lambda>p. op_max_zoom p \<ge> max_zoom) packs)"

record setup_capability =
  sc_tools :: "orc_tools option"
  sc_packs :: "orc_pack list"
  sc_deepest :: int
  sc_catalog :: bool
  sc_reasons :: "string list"

definition can_build_locally :: "setup_capability \<Rightarrow> bool" where
  "can_build_locally c =
     (case sc_tools c of
        None \<Rightarrow> False
      | Some t \<Rightarrow>
          if ot_provision_script t = None then False
          else if ot_pmtiles_cli t = None then False
          else sc_deepest c > 0)"

definition can_download :: "setup_capability \<Rightarrow> bool" where
  "can_download c = sc_catalog c"

definition setup_mode :: "setup_capability \<Rightarrow> string" where
  "setup_mode c =
     (if can_build_locally c then MODE_BUILD else if can_download c then MODE_DOWNLOAD else MODE_UNAVAILABLE)"

definition mode_label :: "setup_capability \<Rightarrow> string option" where
  "mode_label c = map_of MODE_LABELS (setup_mode c)"

definition source_for :: "setup_capability \<Rightarrow> int \<Rightarrow> orc_pack option" where
  "source_for c max_zoom = (case source_packs_for (sc_packs c) max_zoom of [] \<Rightarrow> None | p # _ \<Rightarrow> Some p)"

definition detect_capability :: "orc_tools option \<Rightarrow> orc_pack list \<Rightarrow> bool \<Rightarrow> string \<Rightarrow> setup_capability" where
  "detect_capability tools packs catalog_available catalog_reason =
     (let deepest = (if packs = [] then 0 else Max (set (map op_max_zoom packs)));
          reasons =
            (case tools of
               None \<Rightarrow>
                 [''OrcMaps'' @ [CHR 0x27] @ '' host tools were not found, so packs cannot be built on '' @
                  ''this machine. Downloading ready-made packs does not need them.'']
             | Some t \<Rightarrow>
                 (if ot_provision_script t = None
                  then [''OrcMaps'' @ [CHR 0x27] @ '' provision_pack.py was not found in the checkout, so '' @
                        ''packs cannot be cut here.''] else [])
                 @ (if ot_pmtiles_cli t = None
                    then [''The pinned go-pmtiles binary was not found in the OrcMaps '' @
                          ''checkout, so packs cannot be cut here.''] else [])
                 @ (if deepest = 0
                    then [''No source archive is deep enough to cut from. Building a '' @
                          ''region needs a state-level z13 archive first.'']
                    else if deepest < 13
                    then [''The deepest source archive here only reaches z'' @ show_int deepest @ '', so '' @
                          ''street-level detail cannot be cut from it.''] else []))
            @ (if catalog_available then []
               else [if catalog_reason \<noteq> [] then catalog_reason
                     else ''No pack catalogue is configured, so ready-made packs cannot be '' @ ''downloaded.''])
      in \<lparr>sc_tools = tools, sc_packs = packs, sc_deepest = deepest, sc_catalog = catalog_available,
          sc_reasons = reasons\<rparr>)"

definition capability_summary :: "setup_capability \<Rightarrow> string" where
  "capability_summary c =
     (if setup_mode c = MODE_BUILD
      then ''Regions will be built on this machine''
           @ (case source_for c 13 of None \<Rightarrow> [] | Some p \<Rightarrow> '' from '' @ [CHR 0x27] @ op_display_name p @ [CHR 0x27]) @ ''.''
      else if setup_mode c = MODE_DOWNLOAD
      then ''Regions will be downloaded and verified before they are installed.''
      else ''Maps cannot be set up yet '' @ emdash @ '' see the details below.'')"

section \<open>Destinations\<close>

text \<open>\<open>listing\<close> is what iterating over a directory gives: its entries, or nothing when it cannot be read.\<close>

definition is_pack_directory :: "host \<Rightarrow> (string \<Rightarrow> string list option) \<Rightarrow> string \<Rightarrow> bool" where
  "is_pack_directory h listing path =
     (if \<not> ho_is_dir h path then False
      else case listing path of
             None \<Rightarrow> False
           | Some names \<Rightarrow> list_ex (ends_with ''.manifest.json'') names)"

definition describe_destination :: "host \<Rightarrow> (string \<Rightarrow> string list option) \<Rightarrow> string \<Rightarrow> string" where
  "describe_destination h listing path =
     (if is_pack_directory h listing path
      then ''Packs will be written into '' @ path @ '' (a pack directory).''
      else ''Packs will be written into '' @ path @ [CHR 0x5C] @ ''orcmaps (a card root).'')"

definition default_map_dir :: "string \<Rightarrow> string" where
  "default_map_dir user_data_dir = path_join user_data_dir ''maps''"

section \<open>The setup wizard\<close>

definition TIER_MAX_ZOOM :: "(string \<times> int) list" where
  "TIER_MAX_ZOOM = [(''region'', 13), (''local'', 15)]"

record region =
  rg_name :: string
  rg_tier :: string
  rg_lat :: pyfloat
  rg_lon :: pyfloat
  rg_radius_km :: pyfloat
  rg_max_zoom :: int
  rg_estimate_bytes :: int

text \<open>A combo box is its items with their data, and the index of the current one.\<close>

record combo =
  cb_items :: "(string \<times> string) list"
  cb_current :: "nat option"

definition combo_clear :: combo where
  "combo_clear = \<lparr>cb_items = [], cb_current = None\<rparr>"

definition combo_add :: "string \<Rightarrow> string \<Rightarrow> combo \<Rightarrow> combo" where
  "combo_add label user_data c =
     \<lparr>cb_items = cb_items c @ [(label, user_data)],
      cb_current = (case cb_current c of None \<Rightarrow> Some 0 | Some i \<Rightarrow> Some i)\<rparr>"

definition combo_data :: "combo \<Rightarrow> string" where
  "combo_data c =
     (case cb_current c of None \<Rightarrow> [] | Some i \<Rightarrow> if i < length (cb_items c) then snd (cb_items c ! i) else [])"

record wizard =
  wz_capability :: setup_capability
  wz_regions :: "region list"
  wz_destination :: string
  wz_step :: nat
  wz_bluetooth :: bool
  wz_device :: combo
  wz_name :: string
  wz_tier :: string
  wz_lat :: pyfloat
  wz_lon :: pyfloat
  wz_radius :: pyfloat
  wz_accepted :: bool

datatype wizard_signal = SerialPortsRequested | BleScanRequested | RegionsAccepted "region list"

definition wizard_new :: "setup_capability \<Rightarrow> string \<Rightarrow> wizard" where
  "wizard_new c dest = \<lparr>wz_capability = c, wz_regions = [], wz_destination = dest, wz_step = 0, wz_bluetooth = False,
     wz_device = combo_clear, wz_name = [], wz_tier = ''region'', wz_lat = 0, wz_lon = 0, wz_radius = 25,
     wz_accepted = False\<rparr>"

definition ok_enabled :: "wizard \<Rightarrow> bool" where
  "ok_enabled w \<longleftrightarrow> wz_step w \<noteq> 0 \<or> setup_mode (wz_capability w) \<noteq> MODE_UNAVAILABLE"

definition go_back :: "wizard \<Rightarrow> wizard" where
  "go_back w = w\<lparr>wz_step := wz_step w - 1\<rparr>"

text \<open>\<open>estimate\<close> is the expected size of a pack of the given radius and zoom.\<close>

definition pending_region :: "(pyfloat \<Rightarrow> int \<Rightarrow> int) \<Rightarrow> wizard \<Rightarrow> region option" where
  "pending_region estimate w =
     (let name = strip (wz_name w)
      in if name = [] then None
         else if wz_lat w = 0 \<and> wz_lon w = 0 then None
         else let zoom = the (map_of TIER_MAX_ZOOM (wz_tier w))
              in Some \<lparr>rg_name = name, rg_tier = wz_tier w, rg_lat = wz_lat w, rg_lon = wz_lon w,
                   rg_radius_km = wz_radius w, rg_max_zoom = zoom, rg_estimate_bytes = estimate (wz_radius w) zoom\<rparr>)"

definition add_current_region :: "(pyfloat \<Rightarrow> int \<Rightarrow> int) \<Rightarrow> wizard \<Rightarrow> wizard" where
  "add_current_region estimate w =
     (case pending_region estimate w of
        None \<Rightarrow> w
      | Some r \<Rightarrow> w\<lparr>wz_regions := wz_regions w @ [r], wz_name := []\<rparr>)"

definition on_finish :: "(pyfloat \<Rightarrow> int \<Rightarrow> int) \<Rightarrow> wizard \<Rightarrow> wizard \<times> wizard_signal list" where
  "on_finish estimate w =
     (let w = (if pending_region estimate w \<noteq> None then add_current_region estimate w else w)
      in (w\<lparr>wz_accepted := True\<rparr>, [RegionsAccepted (wz_regions w)]))"

text \<open>The button reacts only while it is enabled.\<close>

definition on_ok :: "(pyfloat \<Rightarrow> int \<Rightarrow> int) \<Rightarrow> wizard \<Rightarrow> wizard \<times> wizard_signal list" where
  "on_ok estimate w =
     (if \<not> ok_enabled w then (w, [])
      else if wz_step w < 2 then (w\<lparr>wz_step := wz_step w + 1\<rparr>, [])
      else on_finish estimate w)"

definition on_refresh :: "wizard \<Rightarrow> wizard_signal list" where
  "on_refresh w = (if wz_bluetooth w then [BleScanRequested] else [SerialPortsRequested])"

definition on_transport_changed :: "bool \<Rightarrow> wizard \<Rightarrow> wizard \<times> wizard_signal list" where
  "on_transport_changed bluetooth w =
     (let w = w\<lparr>wz_bluetooth := bluetooth, wz_device := combo_clear\<rparr> in (w, on_refresh w))"

definition wizard_set_serial_ports :: "(string \<times> string) list \<Rightarrow> wizard \<Rightarrow> wizard" where
  "wizard_set_serial_ports ports w =
     (if wz_bluetooth w then w
      else w\<lparr>wz_device := fold (\<lambda>(dev, desc). combo_add (if desc \<noteq> [] then dev @ '' '' @ emdash @ '' '' @ desc else dev) dev)
               ports combo_clear\<rparr>)"

definition wizard_set_ble_devices :: "(string \<times> string) list \<Rightarrow> wizard \<Rightarrow> wizard" where
  "wizard_set_ble_devices devices w =
     w\<lparr>wz_device := fold (\<lambda>(name, addr). combo_add (name @ '' ('' @ addr @ '')'') addr) devices combo_clear\<rparr>"

definition selected_device :: "wizard \<Rightarrow> string \<times> string" where
  "selected_device w = (if wz_bluetooth w then ''ble'' else ''serial'', combo_data (wz_device w))"

definition choose_destination :: "string \<Rightarrow> wizard \<Rightarrow> wizard" where
  "choose_destination chosen w = (if chosen = [] then w else w\<lparr>wz_destination := chosen\<rparr>)"

definition set_centre :: "pyfloat \<Rightarrow> pyfloat \<Rightarrow> wizard \<Rightarrow> wizard" where
  "set_centre lat lon w = (if lat = 0 \<and> lon = 0 then w else w\<lparr>wz_lat := lat, wz_lon := lon\<rparr>)"

section \<open>The Maps tab\<close>

record maps_tab =
  mt_packs :: "orc_pack list"
  mt_tools :: bool
  mt_status :: string
  mt_log :: "string list"
  mt_rescan :: bool
  mt_verify :: bool
  mt_cut :: bool
  mt_position :: "(pyfloat \<times> pyfloat) option"
  mt_destination :: string

definition set_map_packs :: "orc_pack list \<Rightarrow> bool \<Rightarrow> string \<Rightarrow> maps_tab \<Rightarrow> maps_tab" where
  "set_map_packs packs tools_available reason t =
     t\<lparr>mt_packs := packs, mt_tools := tools_available,
       mt_status := (if tools_available
                     then ''OrcMaps found '' @ emdash @ '' '' @ show_nat (length packs) @ '' pack(s) available.''
                          @ (if reason \<noteq> [] then '' '' @ reason else [])
                     else if reason \<noteq> [] then reason else ''OrcMaps tooling was not found.''),
       mt_cut := packs \<noteq> [], mt_verify := tools_available\<rparr>"

definition append_maps_log :: "string \<Rightarrow> maps_tab \<Rightarrow> maps_tab" where
  "append_maps_log line t = t\<lparr>mt_log := mt_log t @ [line]\<rparr>"

definition set_maps_busy :: "bool \<Rightarrow> maps_tab \<Rightarrow> maps_tab" where
  "set_maps_busy b t =
     (let t = t\<lparr>mt_rescan := \<not> b, mt_verify := \<not> b, mt_cut := \<not> b\<rparr>
      in if b then t else t\<lparr>mt_cut := mt_packs t \<noteq> [], mt_verify := mt_tools t\<rparr>)"

definition maps_operation_completed :: "string \<Rightarrow> bool \<Rightarrow> string \<Rightarrow> maps_tab \<Rightarrow> maps_tab" where
  "maps_operation_completed operation success detail t =
     append_maps_log ((if success then ''OK: '' else ''ERROR: '') @ detail)
       ((set_maps_busy False t)\<lparr>mt_status := detail\<rparr>)"

text \<open>The parameters of a cut, as the tab and the setup queue hand them to the main window.\<close>

record cut_params =
  cp_source :: string
  cp_lat :: pyfloat
  cp_lon :: pyfloat
  cp_radius :: pyfloat
  cp_name :: string
  cp_display :: string
  cp_card_root :: string
  cp_dry_run :: bool

text \<open>The cut dialog as the user left it; \<open>float_of\<close> is Python's \<open>float\<close>, \<open>fixed5\<close> and \<open>general\<close> are formats.\<close>

record cut_form =
  cf_source :: string
  cf_lat :: string
  cf_lon :: string
  cf_radius :: pyfloat
  cf_pack_name :: string
  cf_display :: string
  cf_destination :: string
  cf_dry :: bool

definition cut_pack ::
    "(string \<Rightarrow> pyfloat option) \<Rightarrow> (pyfloat \<Rightarrow> string) \<Rightarrow> (pyfloat \<Rightarrow> string) \<Rightarrow> cut_form \<Rightarrow> maps_tab
      \<Rightarrow> string + maps_tab \<times> cut_params" where
  "cut_pack float_of fixed5 general f t =
     (case (float_of (cf_lat f), float_of (cf_lon f)) of
        (Some latitude, Some longitude) \<Rightarrow>
          if \<not> (-90 \<le> latitude \<and> latitude \<le> 90) \<or> \<not> (-180 \<le> longitude \<and> longitude \<le> 180)
          then Inl ''Coordinates are outside valid ranges.''
          else let name = strip (cf_pack_name f)
               in if \<not> valid_pack_name name
                  then Inl ''Pack names may contain only letters, digits, periods and hyphens.''
                  else let card_root = strip (cf_destination f)
                       in if card_root = [] then Inl ''Choose the card root the pack should be staged into.''
                          else Inr (append_maps_log
                                  (''Cutting '' @ [CHR 0x27] @ name @ [CHR 0x27] @ '' around '' @ fixed5 latitude @ '', ''
                                   @ fixed5 longitude @ '' ('' @ general (cf_radius f) @ '' km)''
                                   @ (if cf_dry f then '' '' @ emdash @ '' preview only'' else []))
                                  (set_maps_busy True (t\<lparr>mt_destination := card_root\<rparr>)),
                                \<lparr>cp_source = cf_source f, cp_lat = latitude, cp_lon = longitude, cp_radius = cf_radius f,
                                 cp_name = name, cp_display = strip (cf_display f), cp_card_root = card_root,
                                 cp_dry_run = cf_dry f\<rparr>)
      | _ \<Rightarrow> Inl ''Latitude and longitude must be numbers.'')"

definition verify_maps_directory :: "string \<Rightarrow> maps_tab \<Rightarrow> maps_tab \<times> string option" where
  "verify_maps_directory chosen t =
     (if chosen = [] then (t, None)
      else (append_maps_log (''Verifying '' @ chosen @ '' with OrcMaps'' @ ellipsis) (t\<lparr>mt_destination := chosen\<rparr>),
            Some chosen))"

section \<open>The main window\<close>

text \<open>What one look for packs finds: tools, packs, and why there are none.  The build instructions that
  follow the first sentence of the message are left out.\<close>

type_synonym found = "orc_tools option \<times> orc_pack list \<times> string"

definition discover_map_packs ::
    "host \<Rightarrow> (string \<Rightarrow> pyfloat option) \<Rightarrow> (string \<Rightarrow> pack_file list option) \<Rightarrow> load_error + found" where
  "discover_map_packs h float_of entries =
     (case find_tools h None of
        None \<Rightarrow> Inr (None, [], ''OrcMaps'' @ [CHR 0x27] @ '' host tools were not found, so offline map packs cannot be rendered.'')
      | Some tools \<Rightarrow>
          (let directories = default_pack_directories h (Some tools)
           in case discover_packs float_of (ho_is_file h) (map entries directories) of
                Inl e \<Rightarrow> Inl e
              | Inr packs \<Rightarrow>
                  if packs = []
                  then Inr (Some tools, [],
                    ''No OrcMaps map packs were found. A pack is a .pmtiles archive with '' @
                    ''a matching .manifest.json next to it.'' @ [CHR 0x0A, CHR 0x0A] @ ''Looked in:'' @ [CHR 0x0A]
                    @ join_with [CHR 0x0A] (map (\<lambda>d. ''  '' @ d) directories))
                  else Inr (Some tools, packs, [])))"

record maps_window =
  mw_tab :: maps_tab
  mw_setup_queue :: "cut_params list"
  mw_requests :: "orc_job list"
  mw_status :: string
  mw_boxes :: "string list"
  mw_position :: "(pyfloat \<times> pyfloat) option"
  mw_local_node :: "node_id option"

definition refresh_map_packs :: "found \<Rightarrow> maps_window \<Rightarrow> maps_window" where
  "refresh_map_packs found w =
     (case found of (tools, packs, reason) \<Rightarrow>
        w\<lparr>mw_tab := set_map_packs packs (tools \<noteq> None) reason (mw_tab w)\<rparr>)"

definition unavailable :: "string \<Rightarrow> maps_window \<Rightarrow> maps_window" where
  "unavailable reason w = w\<lparr>mw_tab := set_maps_busy False (mw_tab w), mw_boxes := mw_boxes w @ [reason]\<rparr>"

definition verify_map_directory :: "found \<Rightarrow> string \<Rightarrow> maps_window \<Rightarrow> maps_window" where
  "verify_map_directory found directory w =
     (case found of
        (None, _, reason) \<Rightarrow> unavailable reason w
      | (Some tools, _, _) \<Rightarrow>
          w\<lparr>mw_tab := set_maps_busy True (mw_tab w), mw_requests := mw_requests w @ [VerifyJob tools directory]\<rparr>)"

definition pack_request :: "cut_params \<Rightarrow> pin_pack_request" where
  "pack_request p = \<lparr>pp_source_manifest = cp_source p, pp_lat = cp_lat p, pp_lon = cp_lon p, pp_radius_km = cp_radius p,
     pp_name = cp_name p, pp_display_name = cp_display p, pp_card_root = Some (cp_card_root p), pp_min_zoom = 1,
     pp_max_zoom = 13, pp_priority = 20, pp_dry_run = cp_dry_run p, pp_force = False\<rparr>"

definition provision_map_pack :: "found \<Rightarrow> cut_params \<Rightarrow> maps_window \<Rightarrow> maps_window" where
  "provision_map_pack found p w =
     (case found of
        (None, _, reason) \<Rightarrow> unavailable reason w
      | (Some tools, _, reason) \<Rightarrow>
          if ot_provision_script tools = None then unavailable reason w
          else w\<lparr>mw_requests := mw_requests w @ [ProvisionJob tools (pack_request p)]\<rparr>)"

definition provision_next_setup_region :: "found \<Rightarrow> maps_window \<Rightarrow> maps_window" where
  "provision_next_setup_region found w =
     (case mw_setup_queue w of
        [] \<Rightarrow> w
      | p # ps \<Rightarrow> provision_map_pack found p (w\<lparr>mw_setup_queue := ps\<rparr>))"

definition on_orcmaps_completed :: "found \<Rightarrow> string \<Rightarrow> bool \<Rightarrow> string \<Rightarrow> maps_window \<Rightarrow> maps_window" where
  "on_orcmaps_completed found operation success detail w =
     (let w = w\<lparr>mw_tab := maps_operation_completed operation success detail (mw_tab w), mw_status := detail\<rparr>;
          w = (if success \<and> operation = ''provision'' then refresh_map_packs found w else w)
      in if operation = ''provision'' \<and> mw_setup_queue w \<noteq> []
         then if \<not> success \<and> fst found = None then w\<lparr>mw_setup_queue := []\<rparr>
              else provision_next_setup_region found w
         else w)"

definition on_position_for_device_page :: "node_id option \<Rightarrow> pyfloat \<Rightarrow> pyfloat \<Rightarrow> maps_window \<Rightarrow> maps_window" where
  "on_position_for_device_page node lat lon w =
     (if node \<noteq> None \<and> node = mw_local_node w
      then w\<lparr>mw_position := Some (lat, lon), mw_tab := (mw_tab w)\<lparr>mt_position := Some (lat, lon)\<rparr>\<rparr>
      else w)"

text \<open>The regions of the wizard, source packs resolved; a region no source is deep enough for is skipped.\<close>

definition region_params :: "wizard \<Rightarrow> region \<Rightarrow> cut_params option" where
  "region_params wz r =
     (case source_for (wz_capability wz) (rg_max_zoom r) of
        None \<Rightarrow> None
      | Some source \<Rightarrow> Some \<lparr>cp_source = op_manifest source, cp_lat = rg_lat r, cp_lon = rg_lon r, cp_radius = rg_radius_km r,
          cp_name = rg_name r, cp_display = rg_name r, cp_card_root = wz_destination wz, cp_dry_run = False\<rparr>)"

definition skipped_message :: "region \<Rightarrow> string" where
  "skipped_message r = [CHR 0x27] @ rg_name r @ [CHR 0x27] @ '' needs z'' @ show_int (rg_max_zoom r)
     @ '' detail, which no available source pack has '' @ emdash @ '' skipped''"

definition queue_region :: "wizard \<Rightarrow> region \<Rightarrow> maps_window \<times> nat \<Rightarrow> maps_window \<times> nat" where
  "queue_region wz r = (\<lambda>(w, queued).
     case region_params wz r of
       None \<Rightarrow> (w\<lparr>mw_status := skipped_message r\<rparr>, queued)
     | Some p \<Rightarrow> (w\<lparr>mw_setup_queue := mw_setup_queue w @ [p]\<rparr>, queued + 1))"

text \<open>The profile the wizard saves goes to the connection bar.\<close>

definition setup_profile :: "wizard \<Rightarrow> (string \<times> string) option" where
  "setup_profile wz = (if snd (selected_device wz) \<noteq> [] then Some (selected_device wz) else None)"

definition apply_setup_choice :: "found \<Rightarrow> wizard \<Rightarrow> maps_window \<Rightarrow> maps_window" where
  "apply_setup_choice found wz w =
     (let w = (case setup_profile wz of
                 None \<Rightarrow> w
               | Some (transport, target) \<Rightarrow>
                   w\<lparr>mw_status := ''Setup saved '' @ transport @ '' device '' @ target @ '' '' @ emdash @ '' press Connect to link it''\<rparr>);
          (w, queued) = fold (queue_region wz) (wz_regions wz) (w, 0)
      in if queued > 0
         then provision_next_setup_region found
                (w\<lparr>mw_status := ''Building '' @ show_nat queued @ '' region pack(s) '' @ emdash @ '' this can take a few minutes''\<rparr>)
         else w)"

text \<open>Whether the wizard opens: once on a fresh install, or when it is asked for.\<close>

definition offers_setup :: "bool \<Rightarrow> bool \<Rightarrow> bool" where
  "offers_setup force completed \<longleftrightarrow> force \<or> \<not> completed"

section \<open>Facts on setting up\<close>

text \<open>Cutting one region after the other: the worker answers the requests in turn, with the outcomes of
  \<open>outcome\<close>, and the window reacts to each completion.\<close>

record setup_system =
  sy_window :: maps_window
  sy_pending :: "orc_job list"
  sy_answered :: nat

definition setup_round :: "found \<Rightarrow> (nat \<Rightarrow> bool \<times> string) \<Rightarrow> setup_system \<Rightarrow> setup_system" where
  "setup_round found outcome s =
     (let (ok, detail) = outcome (sy_answered s); w = on_orcmaps_completed found ''provision'' ok detail (sy_window s)
      in \<lparr>sy_window = w,
          sy_pending = tl (sy_pending s) @ drop (length (mw_requests (sy_window s))) (mw_requests w),
          sy_answered = sy_answered s + 1\<rparr>)"

definition can_cut :: "found \<Rightarrow> orc_tools \<Rightarrow> bool" where
  "can_cut found tools \<longleftrightarrow> fst found = Some tools \<and> ot_provision_script tools \<noteq> None"

definition job_of :: "orc_tools \<Rightarrow> cut_params \<Rightarrow> orc_job" where
  "job_of tools p = ProvisionJob tools (pack_request p)"

lemma provision_next_cut:
  assumes "can_cut found tools"
  shows "mw_setup_queue (provision_next_setup_region found w) = tl (mw_setup_queue w)"
    "mw_requests (provision_next_setup_region found w)
      = mw_requests w @ map (job_of tools) (take 1 (mw_setup_queue w))"
  using assms
  by (auto simp: provision_next_setup_region_def provision_map_pack_def can_cut_def job_of_def case_prod_beta split: list.split)

lemma on_completed_cut:
  assumes "can_cut found tools"
  shows "mw_setup_queue (on_orcmaps_completed found ''provision'' ok detail w) = tl (mw_setup_queue w)"
    "mw_requests (on_orcmaps_completed found ''provision'' ok detail w)
      = mw_requests w @ map (job_of tools) (take 1 (mw_setup_queue w))"
  using assms provision_next_cut [OF assms]
  by (cases "mw_setup_queue w"; auto simp: on_orcmaps_completed_def refresh_map_packs_def can_cut_def case_prod_beta Let_def)+

lemma setup_round_cut:
  assumes "can_cut found tools"
  shows "mw_setup_queue (sy_window (setup_round found outcome s)) = tl (mw_setup_queue (sy_window s))"
    "mw_requests (sy_window (setup_round found outcome s))
      = mw_requests (sy_window s) @ map (job_of tools) (take 1 (mw_setup_queue (sy_window s)))"
    "sy_pending (setup_round found outcome s)
      = tl (sy_pending s) @ map (job_of tools) (take 1 (mw_setup_queue (sy_window s)))"
    "sy_answered (setup_round found outcome s) = sy_answered s + 1"
  using on_completed_cut [OF assms] by (simp_all add: setup_round_def case_prod_beta Let_def)

lemma take_tl: "take 1 xs @ tl xs = xs"
  by (cases xs) simp_all

text \<open>C21: the setup run ends and leaves no region out: while the tools are there, whatever the outcomes of the
  single builds, the rounds stop after one build per region and one for each that was under way; the
  queue is empty then, and every queued region was handed to the worker once, in order.\<close>

theorem setup_builds_every_region:
  assumes cut: "can_cut found tools" and busy: "sy_pending s \<noteq> []"
  shows "\<exists>t. while_option (\<lambda>s. sy_pending s \<noteq> []) (setup_round found outcome) s = Some t
    \<and> mw_setup_queue (sy_window t) = []
    \<and> mw_requests (sy_window t) = mw_requests (sy_window s) @ map (job_of tools) (mw_setup_queue (sy_window s))
    \<and> sy_answered t = sy_answered s + length (sy_pending s) + length (mw_setup_queue (sy_window s))"
proof -
  let ?b = "\<lambda>s :: setup_system. sy_pending s \<noteq> []" and ?c = "setup_round found outcome"
  let ?measure = "\<lambda>s :: setup_system. 2 * length (mw_setup_queue (sy_window s)) + length (sy_pending s)"
  define inv where "inv = (\<lambda>t :: setup_system. (mw_setup_queue (sy_window t) = [] \<or> sy_pending t \<noteq> [])
    \<and> mw_requests (sy_window t) @ map (job_of tools) (mw_setup_queue (sy_window t))
      = mw_requests (sy_window s) @ map (job_of tools) (mw_setup_queue (sy_window s))
    \<and> sy_answered t + length (sy_pending t) + length (mw_setup_queue (sy_window t))
      = sy_answered s + length (sy_pending s) + length (mw_setup_queue (sy_window s)))"
  have step: "inv (?c t) \<and> ?measure (?c t) < ?measure t" if "inv t" "?b t" for t :: setup_system
    using that setup_round_cut [OF cut, of outcome t]
    by (cases "mw_setup_queue (sy_window t)"; cases "sy_pending t") (auto simp: inv_def)
  have init: "inv s" using busy by (simp add: inv_def)
  obtain t where t: "while_option ?b ?c s = Some t"
    using measure_while_option_Some [of inv ?b ?c ?measure, OF step init] by blast
  have "inv t" using while_option_rule [of inv ?b ?c, OF _ t init] step by blast
  with while_option_stop [OF t] t show ?thesis by (auto simp: inv_def)
qed

text \<open>Once the script is gone, or the tools while the last build still succeeded, the queue is neither
  built nor dropped: the next region is taken off with a message, and the rest waits for some later
  build of the user's.\<close>

lemma stranded_regions:
  assumes "mw_setup_queue w = p # q # ps" "fst found = Some tools" "ot_provision_script tools = None"
  shows "mw_setup_queue (on_orcmaps_completed found ''provision'' ok detail w) = q # ps
    \<and> mw_requests (on_orcmaps_completed found ''provision'' ok detail w) = mw_requests w"
  using assms
  by (auto simp: on_orcmaps_completed_def refresh_map_packs_def provision_next_setup_region_def provision_map_pack_def
      unavailable_def case_prod_beta Let_def split: prod.split)

text \<open>A region is only accepted when a source reaches its zoom, but it is always cut down to zoom 13.\<close>

lemma setup_cut_stops_at_13:
  assumes "region_params wz r = Some p"
  shows "pp_max_zoom (pack_request p) = 13 \<and> (\<exists>source \<in> set (sc_packs (wz_capability wz)). op_max_zoom source \<ge> rg_max_zoom r)"
proof -
  obtain source where "source_for (wz_capability wz) (rg_max_zoom r) = Some source"
    using assms by (auto simp: region_params_def split: option.splits)
  then have "source \<in> set (source_packs_for (sc_packs (wz_capability wz)) (rg_max_zoom r))"
    by (auto simp: source_for_def split: list.splits)
  then show ?thesis by (auto simp: source_packs_for_def pack_request_def)
qed

text \<open>The list of radios of a Bluetooth scan replaces the serial ports on the serial page too.\<close>

lemma ble_list_on_serial_page:
  assumes "\<not> wz_bluetooth w"
  shows "selected_device (wizard_set_ble_devices [(name, addr)] w) = (''serial'', addr)"
  using assms by (simp add: selected_device_def wizard_set_ble_devices_def combo_add_def combo_clear_def combo_data_def)


definition sample_params :: "string \<Rightarrow> cut_params" where
  "sample_params name = \<lparr>cp_source = ''oregon'', cp_lat = 44, cp_lon = -123, cp_radius = 25, cp_name = name,
     cp_display = name, cp_card_root = ''card'', cp_dry_run = False\<rparr>"

definition sample_window :: maps_window where
  "sample_window = \<lparr>mw_tab = \<lparr>mt_packs = [], mt_tools = True, mt_status = [], mt_log = [], mt_rescan = True,
       mt_verify = True, mt_cut = False, mt_position = None, mt_destination = []\<rparr>,
     mw_setup_queue = [sample_params ''lane'', sample_params ''linn''], mw_requests = [], mw_status = [], mw_boxes = [],
     mw_position = None, mw_local_node = None\<rparr>"

definition sample_system :: setup_system where
  "sample_system = \<lparr>sy_window = sample_window, sy_pending = [job_of sample_tools (sample_params ''benton'')], sy_answered = 0\<rparr>"

lemma sample_can_cut: "can_cut (Some sample_tools, [], []) sample_tools"
  by (simp add: can_cut_def sample_tools_def)

theorem setup_builds_every_region_witness:
  "\<exists>t. while_option (\<lambda>s. sy_pending s \<noteq> []) (setup_round (Some sample_tools, [], []) (\<lambda>n. (even n, []))) sample_system = Some t
    \<and> sy_answered t = 3"
  using setup_builds_every_region [OF sample_can_cut, of sample_system "\<lambda>n. (even n, [])"]
  by (auto simp: sample_system_def sample_window_def)

section \<open>Facts on sources and dialogs\<close>

lemma pair_le_fst: "(a, b) \<le> (c, d) \<Longrightarrow> a \<le> c"
  for a c :: "'a :: linorder" and b d :: "'b :: linorder"
  by (auto simp: less_eq_prod_def)

text \<open>A region is cut from the cheapest pack that is deep enough: it reaches the zoom asked for, no deep
  enough pack of known size is smaller, and one of unknown size is only taken when all are; there is
  no source exactly when no pack is deep enough.\<close>

theorem source_is_cheapest:
  "case source_for c zoom of
     None \<Rightarrow> \<forall>p \<in> set (sc_packs c). op_max_zoom p < zoom
   | Some p \<Rightarrow> p \<in> set (sc_packs c) \<and> op_max_zoom p \<ge> zoom
       \<and> (\<forall>q \<in> set (sc_packs c). op_max_zoom q < zoom \<or> size_key p \<le> size_key q)"
proof (cases "source_packs_for (sc_packs c) zoom")
  case Nil
  then have "filter (\<lambda>p. op_max_zoom p \<ge> zoom) (sc_packs c) = []"
    by (metis source_packs_for_def length_0_conv length_sort)
  with Nil show ?thesis by (auto simp: source_for_def filter_empty_conv not_le)
next
  case (Cons p ps)
  have set: "set (p # ps) = {q \<in> set (sc_packs c). op_max_zoom q \<ge> zoom}"
    unfolding Cons [symmetric] by (simp add: source_packs_for_def)
  have "sorted (map (\<lambda>p. (size_key p, op_stem p)) (p # ps))"
    unfolding Cons [symmetric] by (simp add: source_packs_for_def)
  then have "\<forall>q \<in> set (p # ps). size_key p \<le> size_key q" by (auto dest: pair_le_fst)
  with set have "\<forall>q \<in> set (sc_packs c). op_max_zoom q < zoom \<or> size_key p \<le> size_key q"
    by (metis (mono_tags, lifting) mem_Collect_eq not_less)
  moreover have "p \<in> set (sc_packs c)" "op_max_zoom p \<ge> zoom" using set by auto
  ultimately show ?thesis using Cons by (simp add: source_for_def)
qed

text \<open>What the cut dialog lets through, the service does not refuse.\<close>

lemma dialog_cut_is_accepted:
  assumes "cut_pack float_of fixed5 general f t = Inr (t', p)" "ot_provision_script tools \<noteq> None" "commit \<noteq> []"
  shows "\<exists>argv. provision_argv g1 g2 python tools (pack_request p) commit = Inr argv"
  using assms
  by (auto simp: cut_pack_def provision_argv_def pack_request_def Let_def split: option.splits if_splits)

text \<open>The wizard checks no name: the region is queued and the worker refuses it.\<close>

lemma wizard_name_is_refused:
  assumes "region_params wz r = Some p" "\<not> valid_pack_name (rg_name r)" "ot_provision_script tools = Some script"
  shows "provision_argv g1 g2 python tools (pack_request p) commit = Inl (Refused (rg_name r))"
  using assms by (auto simp: region_params_def provision_argv_def pack_request_def split: option.splits)

lemma wizard_takes_spaces:
  "pending_region est (wizard_new c d\<lparr>wz_name := ''Lane County'', wz_lat := 44, wz_lon := -123\<rparr>) \<noteq> None
    \<and> \<not> valid_pack_name ''Lane County''"
proof -
  have "strip ''Lane County'' \<noteq> []" "\<not> valid_pack_name ''Lane County''" by code_simp+
  then show ?thesis by (simp add: pending_region_def wizard_new_def Let_def)
qed

text \<open>A machine without tools and catalogue never leaves the first step.\<close>

lemma unavailable_stays_at_start:
  assumes "setup_mode (wz_capability w) = MODE_UNAVAILABLE" "wz_step w = 0"
  shows "on_ok estimate w = (w, [])"
  using assms by (simp add: on_ok_def ok_enabled_def)

end
