(* ===== verification/MapView.thy ===== *)
theory MapView
  imports Packs
begin

text \<open>
  The map: \<open>ui/map/map_bridge.py\<close> (the calls to the page's JavaScript, held back until the page is
  ready), \<open>ui/map/map_widget.py\<close> (the basemap layer and its tile server) and the choice of the basemap
  in \<open>ui/main_window.py\<close>.  The page is what it was told to run; the JSON text of the calls is left
  out, they are values here.  Whether the server's socket can be opened is part of the events.
\<close>

section \<open>The bridge\<close>

datatype basemap =
    Online
  | Offline string string int int string

datatype js_call =
    UpdateNode node_id pyfloat pyfloat string string bool "int option" "int option"
  | ClearNodes
  | FitAll
  | FocusNode node_id
  | SetSelectedNode "node_id option"
  | RefreshSize bool
  | SetMapTheme string
  | SetBasemap basemap

record bridge =
  br_page :: bool
  br_ready :: bool
  br_pending :: "js_call list"
  br_watchdog :: bool
  br_ran :: "js_call list"
  br_warned :: "nat option"

definition bridge_new :: bridge where
  "bridge_new = \<lparr>br_page = False, br_ready = False, br_pending = [], br_watchdog = False, br_ran = [], br_warned = None\<rparr>"

definition set_page :: "bridge \<Rightarrow> bridge" where
  "set_page b = b\<lparr>br_page := True\<rparr>"

definition start_ready_watchdog :: "bridge \<Rightarrow> bridge" where
  "start_ready_watchdog b = (if br_ready b then b else b\<lparr>br_watchdog := True\<rparr>)"

definition on_ready_timeout :: "bridge \<Rightarrow> bridge" where
  "on_ready_timeout b = (if br_ready b then b else b\<lparr>br_warned := Some (length (br_pending b))\<rparr>)"

definition js_run :: "js_call \<Rightarrow> bridge \<Rightarrow> bridge" where
  "js_run c b =
     (if \<not> br_page b then b
      else if br_ready b then b\<lparr>br_ran := br_ran b @ [c]\<rparr>
      else b\<lparr>br_pending := br_pending b @ [c]\<rparr>)"

definition map_ready :: "bridge \<Rightarrow> bridge" where
  "map_ready b = b\<lparr>br_ready := True, br_watchdog := False, br_ran := br_ran b @ br_pending b, br_pending := []\<rparr>"

section \<open>The widget\<close>

text \<open>A running tile server is its state and the base of its URLs.\<close>

record map_widget =
  mp_bridge :: "bridge option"
  mp_server :: "(tile_server \<times> string) option"
  mp_pack :: "orc_pack option"
  mp_packs :: "orc_pack list"
  mp_revision :: nat
  mp_shown :: bool

text \<open>The two settings the map keeps: the theme, and the basemap source, \<open>online\<close> or the stem of a pack.\<close>

record map_state =
  ms_widget :: map_widget
  ms_theme :: string
  ms_source :: string
  ms_status :: string
  ms_boxes :: "string list"

definition STYLE_DARK :: string where "STYLE_DARK = ''orcsdr-dark''"
definition STYLE_LIGHT :: string where "STYLE_LIGHT = ''standard-light''"

definition style_for_theme :: "string \<Rightarrow> string" where
  "style_for_theme theme = (if theme = ''light'' then STYLE_LIGHT else STYLE_DARK)"

definition run_js :: "js_call \<Rightarrow> map_widget \<Rightarrow> map_widget" where
  "run_js c m = (case mp_bridge m of None \<Rightarrow> m | Some b \<Rightarrow> m\<lparr>mp_bridge := Some (js_run c b)\<rparr>)"

text \<open>\<open>_build_webengine\<close>, when the web engine is there, and the placeholder without it.\<close>

definition map_widget_new :: "bool \<Rightarrow> map_widget" where
  "map_widget_new webengine =
     \<lparr>mp_bridge = (if webengine then Some (start_ready_watchdog (set_page bridge_new)) else None), mp_server = None,
      mp_pack = None, mp_packs = [], mp_revision = 0, mp_shown = False\<rparr>"

definition stop_tile_server :: "map_widget \<Rightarrow> map_widget" where
  "stop_tile_server m = m\<lparr>mp_server := None\<rparr>"

definition url_template :: "string \<Rightarrow> string" where
  "url_template base = base @ ''/tiles/{z}/{x}/{y}.png''"

definition push_offline_basemap :: "(string \<Rightarrow> string \<times> string) \<Rightarrow> map_widget \<Rightarrow> map_widget" where
  "push_offline_basemap split m =
     (case (mp_server m, mp_pack m, mp_bridge m) of
        (Some (server, base), Some pack, Some b) \<Rightarrow>
          (let served = (if mp_packs m = [] then [pack] else mp_packs m); rev1 = mp_revision m + 1
           in run_js (SetBasemap (Offline (url_template base @ ''?v='' @ show_nat rev1) (attribution_html_for split served)
                  (Min (set (map op_min_zoom served))) (Max (set (map op_max_zoom served))) (op_display_name pack)))
                (m\<lparr>mp_revision := rev1\<rparr>))
      | _ \<Rightarrow> m)"

definition show_online_basemap :: "map_widget \<Rightarrow> map_widget" where
  "show_online_basemap m = run_js (SetBasemap Online) ((stop_tile_server m)\<lparr>mp_pack := None, mp_packs := []\<rparr>)"

text \<open>\<open>socket\<close> is the base URL of the server once its socket is bound, or the operating system's error.\<close>

datatype show_error = OrcMapsFailed orc_error | OsFailed string

definition show_offline_pack ::
    "(string \<Rightarrow> string \<times> string) \<Rightarrow> string \<Rightarrow> string + string \<Rightarrow> orc_pack \<Rightarrow> orc_pack list \<Rightarrow> map_widget
      \<Rightarrow> show_error option \<times> map_widget" where
  "show_offline_pack split theme socket pack packs m =
     (let m = stop_tile_server m; served = pack # filter (\<lambda>q. op_stem q \<noteq> op_stem pack) packs
      in case tile_server_new served (Some (style_for_theme theme)) 256 512 of
           Inl e \<Rightarrow> (Some (OrcMapsFailed e), m)
         | Inr server \<Rightarrow>
             (case socket of
                Inl e \<Rightarrow> (Some (OsFailed e), m)
              | Inr base \<Rightarrow>
                  (None, push_offline_basemap split
                     (m\<lparr>mp_server := Some (server, base), mp_pack := Some pack, mp_packs := served\<rparr>))))"

definition push_initial_theme :: "(string \<Rightarrow> string \<times> string) \<Rightarrow> map_state \<Rightarrow> map_state" where
  "push_initial_theme split s =
     (let m = run_js (SetMapTheme (ms_theme s)) (ms_widget s)
      in s\<lparr>ms_widget := (if mp_server m \<noteq> None then push_offline_basemap split m else m)\<rparr>)"

definition on_theme_changed :: "(string \<Rightarrow> string \<times> string) \<Rightarrow> string \<Rightarrow> map_state \<Rightarrow> map_state" where
  "on_theme_changed split theme s =
     (let s = s\<lparr>ms_theme := theme\<rparr>; m = ms_widget s
      in case mp_server m of
           None \<Rightarrow> s
         | Some (server, base) \<Rightarrow>
             s\<lparr>ms_widget := push_offline_basemap split
                 (m\<lparr>mp_server := Some (set_style (Some (style_for_theme theme)) server, base)\<rparr>)\<rparr>)"

text \<open>The page reports that it is ready: the held back calls run, then the theme is pushed.\<close>

definition page_ready :: "(string \<Rightarrow> string \<times> string) \<Rightarrow> map_state \<Rightarrow> map_state" where
  "page_ready split s =
     (case mp_bridge (ms_widget s) of
        None \<Rightarrow> s
      | Some b \<Rightarrow> push_initial_theme split (s\<lparr>ms_widget := (ms_widget s)\<lparr>mp_bridge := Some (map_ready b)\<rparr>\<rparr>))"

definition show_event :: "map_widget \<Rightarrow> map_widget \<times> bool" where
  "show_event m = (if mp_bridge m \<noteq> None \<and> \<not> mp_shown m then (m\<lparr>mp_shown := True\<rparr>, True) else (m, False))"

section \<open>Choosing the basemap\<close>

definition pack_label :: "orc_pack \<Rightarrow> string" where
  "pack_label p = ''Offline'' @ middot @ op_display_name p @ '' ('' @ pack_zoom_label p @ '', '' @ op_pack_class p
     @ (case op_size_bytes p of
          Some n \<Rightarrow> if n \<noteq> 0 then '', '' @ fixed 0 (of_int n / 10 ^ 6) @ '' MB'' else []
        | None \<Rightarrow> [])
     @ '')''"

definition online_label :: string where
  "online_label = ''Online'' @ middot @ ''OpenStreetMap / CARTO tiles''"

definition basemap_message :: "orc_pack \<Rightarrow> string" where
  "basemap_message p = ''Basemap: '' @ op_display_name p @ '' ('' @ pack_zoom_label p @ '', '' @ op_pack_class p @ '') ''
     @ emdash @ '' '' @ pack_attribution_text p"

definition basemap_failure :: "orc_pack \<Rightarrow> orc_error \<Rightarrow> string" where
  "basemap_failure p e = ''Could not render tiles from '' @ [CHR 0x27] @ op_display_name p @ [CHR 0x27] @ ''.''
     @ [CHR 0x0A, CHR 0x0A] @ orc_str e @ [CHR 0x0A, CHR 0x0A] @ ''Falling back to the online basemap.''"

text \<open>Only an \<open>OrcMapsError\<close> is caught; any other error leaves the slot as it stands.\<close>

definition apply_basemap_source ::
    "(string \<Rightarrow> string \<times> string) \<Rightarrow> string + string \<Rightarrow> nat \<Rightarrow> orc_pack list \<Rightarrow> map_state \<Rightarrow> map_state" where
  "apply_basemap_source split socket index packs s =
     (if index = 0
      then s\<lparr>ms_widget := show_online_basemap (ms_widget s), ms_source := ''online'',
             ms_status := ''Basemap: online tiles''\<rparr>
      else let pack = packs ! (index - 1)
           in case show_offline_pack split (ms_theme s) socket pack packs (ms_widget s) of
                (None, m) \<Rightarrow> s\<lparr>ms_widget := m, ms_source := op_stem pack, ms_status := basemap_message pack\<rparr>
              | (Some (OrcMapsFailed e), m) \<Rightarrow>
                  s\<lparr>ms_widget := show_online_basemap m, ms_source := ''online'', ms_boxes := ms_boxes s @ [basemap_failure pack e]\<rparr>
              | (Some (OsFailed e), m) \<Rightarrow> s\<lparr>ms_widget := m\<rparr>)"

fun label_index :: "'a \<Rightarrow> 'a list \<Rightarrow> nat" where
  "label_index x [] = 0"
| "label_index x (y # ys) = (if y = x then 0 else label_index x ys + 1)"

definition basemap_labels :: "orc_pack list \<Rightarrow> string list" where
  "basemap_labels packs = online_label # map pack_label packs"

text \<open>The dialog: the entry it opens on, and the entry the user picked, if any.\<close>

definition current_choice :: "orc_pack list \<Rightarrow> map_state \<Rightarrow> nat" where
  "current_choice packs s =
     (case mp_pack (ms_widget s) of
        None \<Rightarrow> 0
      | Some active \<Rightarrow>
          (let i = length (takeWhile (\<lambda>p. op_stem p \<noteq> op_stem active) packs)
           in if i < length packs then i + 1 else 0))"

definition choose_basemap_source ::
    "(string \<Rightarrow> string \<times> string) \<Rightarrow> string + string \<Rightarrow> found \<Rightarrow> (string list \<Rightarrow> string option) \<Rightarrow> map_state \<Rightarrow> map_state" where
  "choose_basemap_source split socket found pick s =
     (case found of (tools, packs, reason) \<Rightarrow>
        if tools = None \<or> packs = [] then s\<lparr>ms_boxes := ms_boxes s @ [reason]\<rparr>
        else case pick (basemap_labels packs) of
               None \<Rightarrow> s
             | Some choice \<Rightarrow>
                 apply_basemap_source split socket (label_index choice (basemap_labels packs)) packs s)"

definition restore_basemap_source ::
    "(string \<Rightarrow> string \<times> string) \<Rightarrow> string + string \<Rightarrow> found \<Rightarrow> map_state \<Rightarrow> map_state" where
  "restore_basemap_source split socket found s =
     (let stem = (if ms_source s = [] then ''online'' else ms_source s)
      in if stem = ''online'' then s
         else case found of (tools, packs, reason) \<Rightarrow>
           if tools = None then s
           else case find (\<lambda>p. op_stem p = stem) packs of
                  None \<Rightarrow> s\<lparr>ms_source := ''online''\<rparr>
                | Some pack \<Rightarrow> apply_basemap_source split socket (label_index pack packs + 1) packs s)"

definition shutdown_map :: "map_state \<Rightarrow> map_state" where
  "shutdown_map s = s\<lparr>ms_widget := stop_tile_server (ms_widget s)\<rparr>"

section \<open>Facts on the bridge\<close>

datatype bridge_event = Call js_call | Watch | ReadyTimeout | PageReady

definition bridge_step :: "bridge_event \<Rightarrow> bridge \<Rightarrow> bridge" where
  "bridge_step ev =
     (case ev of Call c \<Rightarrow> js_run c | Watch \<Rightarrow> start_ready_watchdog | ReadyTimeout \<Rightarrow> on_ready_timeout
      | PageReady \<Rightarrow> map_ready)"

definition calls_of :: "bridge_event list \<Rightarrow> js_call list" where
  "calls_of es = List.map_filter (\<lambda>ev. case ev of Call c \<Rightarrow> Some c | _ \<Rightarrow> None) es"

definition bridge_run :: "bridge_event list \<Rightarrow> bridge" where
  "bridge_run es = fold bridge_step es (set_page bridge_new)"

lemma bridge_run_inv:
  "br_page (bridge_run es) \<and> br_ran (bridge_run es) @ br_pending (bridge_run es) = calls_of es
    \<and> br_ready (bridge_run es) = (PageReady \<in> set es) \<and> (if br_ready (bridge_run es) then br_pending (bridge_run es) = [] else br_ran (bridge_run es) = [])"
proof (induction es rule: rev_induct)
  case Nil
  show ?case by (simp add: bridge_run_def bridge_new_def set_page_def calls_of_def List.map_filter_def)
next
  case (snoc ev es)
  then show ?case
    by (cases ev)
      (auto simp: bridge_run_def bridge_step_def js_run_def start_ready_watchdog_def on_ready_timeout_def map_ready_def
        calls_of_def map_filter_append map_filter_single)
qed

text \<open>No call to the map page is lost or reordered by the page loading late: once it has reported ready
  the page has run exactly the calls issued, in their order, and before that it has run none.\<close>

theorem page_runs_every_call:
  "br_ran (bridge_run es) = (if PageReady \<in> set es then calls_of es else [])"
  using bridge_run_inv [of es] by (auto split: if_splits)

section \<open>Facts on the basemap\<close>

datatype map_event =
    MapPageReady
  | ThemeChosen string
  | BasemapChosen "string + string" found "string list \<Rightarrow> string option"
  | NodeCall js_call

definition map_step :: "(string \<Rightarrow> string \<times> string) \<Rightarrow> map_event \<Rightarrow> map_state \<Rightarrow> map_state" where
  "map_step split ev s =
     (case ev of
        MapPageReady \<Rightarrow> page_ready split s
      | ThemeChosen theme \<Rightarrow> on_theme_changed split theme s
      | BasemapChosen socket found pick \<Rightarrow> choose_basemap_source split socket found pick s
      | NodeCall c \<Rightarrow> s\<lparr>ms_widget := run_js c (ms_widget s)\<rparr>)"

fun is_basemap :: "js_call \<Rightarrow> bool" where
  "is_basemap (SetBasemap _) = True"
| "is_basemap _ = False"

text \<open>The page's latest basemap, counting the calls still held back.\<close>

definition basemap_told :: "bridge \<Rightarrow> js_call option" where
  "basemap_told b =
     (let told = filter is_basemap (br_ran b @ br_pending b) in if told = [] then None else Some (last told))"

fun event_ok :: "map_event \<Rightarrow> bool" where
  "event_ok (BasemapChosen socket _ _) \<longleftrightarrow> (\<exists>base. socket = Inr base)"
| "event_ok (NodeCall c) \<longleftrightarrow> \<not> is_basemap c"
| "event_ok _ \<longleftrightarrow> True"

definition offline_layer :: "(string \<Rightarrow> string \<times> string) \<Rightarrow> string \<Rightarrow> nat \<Rightarrow> orc_pack \<Rightarrow> orc_pack list \<Rightarrow> js_call" where
  "offline_layer split base rev1 pack served =
     SetBasemap (Offline (url_template base @ ''?v='' @ show_nat rev1) (attribution_html_for split served)
       (Min (set (map op_min_zoom served))) (Max (set (map op_max_zoom served))) (op_display_name pack))"

definition online_shown :: "map_widget \<Rightarrow> bool" where
  "online_shown m \<longleftrightarrow> mp_pack m = None \<and> mp_packs m = []
     \<and> (case mp_bridge m of None \<Rightarrow> True | Some b \<Rightarrow> basemap_told b \<in> {None, Some (SetBasemap Online)})"

definition offline_shown ::
    "(string \<Rightarrow> string \<times> string) \<Rightarrow> string \<Rightarrow> string \<Rightarrow> tile_server \<Rightarrow> string \<Rightarrow> map_widget \<Rightarrow> bool" where
  "offline_shown split theme source server base m \<longleftrightarrow>
     (\<exists>pack rest. mp_pack m = Some pack \<and> op_stem pack = source \<and> mp_packs m = pack # rest
       \<and> ts_packs server = pack # rest \<and> ts_style server = Some (style_for_theme theme)
       \<and> (case mp_bridge m of None \<Rightarrow> True
          | Some b \<Rightarrow> basemap_told b = Some (offline_layer split base (mp_revision m) pack (pack # rest))))"

definition bridge_ok :: "map_widget \<Rightarrow> bool" where
  "bridge_ok m \<longleftrightarrow> (case mp_bridge m of None \<Rightarrow> True | Some b \<Rightarrow> br_page b \<and> (br_ready b \<longrightarrow> br_pending b = []))"

definition map_inv :: "(string \<Rightarrow> string \<times> string) \<Rightarrow> map_state \<Rightarrow> bool" where
  "map_inv split s \<longleftrightarrow> bridge_ok (ms_widget s)
     \<and> (case mp_server (ms_widget s) of
          None \<Rightarrow> online_shown (ms_widget s)
        | Some (server, base) \<Rightarrow> offline_shown split (ms_theme s) (ms_source s) server base (ms_widget s))"

lemma run_js_simps [simp]:
  "mp_server (run_js c m) = mp_server m" "mp_pack (run_js c m) = mp_pack m" "mp_packs (run_js c m) = mp_packs m"
  "mp_revision (run_js c m) = mp_revision m" "bridge_ok m \<Longrightarrow> bridge_ok (run_js c m)"
  "mp_bridge (run_js c m) = map_option (js_run c) (mp_bridge m)"
  by (auto simp: run_js_def bridge_ok_def js_run_def split: option.splits)

lemma told_js_run:
  assumes "br_page b" "br_ready b \<longrightarrow> br_pending b = []"
  shows "basemap_told (js_run c b) = (if is_basemap c then Some c else basemap_told b)"
  using assms by (auto simp: basemap_told_def js_run_def Let_def)

lemma told_map_ready: "basemap_told (map_ready b) = basemap_told b"
  by (simp add: basemap_told_def map_ready_def)


lemma push_offline_shown:
  assumes "bridge_ok m" "mp_server m = Some (server, base)" "mp_pack m = Some pack" "mp_packs m = pack # rest"
    "ts_packs server = pack # rest" "ts_style server = Some (style_for_theme theme)"
  shows "offline_shown split theme (op_stem pack) server base (push_offline_basemap split m)
    \<and> mp_server (push_offline_basemap split m) = Some (server, base) \<and> bridge_ok (push_offline_basemap split m)"
proof (cases "mp_bridge m")
  case None
  with assms show ?thesis by (simp add: push_offline_basemap_def offline_shown_def)
next
  case (Some b)
  let ?c = "offline_layer split base (mp_revision m + 1) pack (pack # rest)"
  have push: "push_offline_basemap split m = run_js ?c (m\<lparr>mp_revision := mp_revision m + 1\<rparr>)"
    using Some assms(2-4) by (simp add: push_offline_basemap_def offline_layer_def Let_def)
  have "bridge_ok (m\<lparr>mp_revision := mp_revision m + 1\<rparr>)" using assms(1) by (simp add: bridge_ok_def)
  moreover have "basemap_told (js_run ?c b) = Some ?c"
    using assms(1) Some by (simp add: told_js_run bridge_ok_def offline_layer_def)
  ultimately show ?thesis
    using Some assms unfolding push by (simp add: offline_shown_def)
qed

lemma show_online_inv:
  assumes "bridge_ok m"
  shows "online_shown (show_online_basemap m) \<and> mp_server (show_online_basemap m) = None \<and> bridge_ok (show_online_basemap m)"
proof -
  have "bridge_ok ((stop_tile_server m)\<lparr>mp_pack := None, mp_packs := []\<rparr>)"
    using assms by (simp add: bridge_ok_def stop_tile_server_def)
  moreover have "basemap_told (js_run (SetBasemap Online) b) = Some (SetBasemap Online)" if "mp_bridge m = Some b" for b
    using that assms by (simp add: told_js_run bridge_ok_def)
  ultimately show ?thesis
    by (cases "mp_bridge m") (simp_all add: show_online_basemap_def online_shown_def stop_tile_server_def)
qed

lemma show_offline_inv:
  assumes "bridge_ok m" "show_offline_pack split theme (Inr base) pack packs m = (r, m')"
  shows "r = None \<and> bridge_ok m' \<and> (\<exists>server. mp_server m' = Some (server, base) \<and> offline_shown split theme (op_stem pack) server base m')"
proof -
  let ?served = "pack # filter (\<lambda>q. op_stem q \<noteq> op_stem pack) packs"
  obtain server where server: "tile_server_new ?served (Some (style_for_theme theme)) 256 512 = Inr server"
      "ts_packs server = ?served" "ts_style server = Some (style_for_theme theme)"
    by (simp add: tile_server_new_def)
  let ?m = "(stop_tile_server m)\<lparr>mp_server := Some (server, base), mp_pack := Some pack, mp_packs := ?served\<rparr>"
  have ok: "bridge_ok ?m" using assms(1) by (simp add: bridge_ok_def stop_tile_server_def)
  have "offline_shown split theme (op_stem pack) server base (push_offline_basemap split ?m)
      \<and> mp_server (push_offline_basemap split ?m) = Some (server, base) \<and> bridge_ok (push_offline_basemap split ?m)"
    using ok server(2,3) by (intro push_offline_shown [where rest = "filter (\<lambda>q. op_stem q \<noteq> op_stem pack) packs"]) simp_all
  with assms(2) server(1) show ?thesis by (auto simp: show_offline_pack_def Let_def)
qed

lemma apply_basemap_inv:
  assumes "map_inv split s"
  shows "map_inv split (apply_basemap_source split (Inr base) index packs s)"
proof (cases "index = 0")
  case True
  with assms show_online_inv [of "ms_widget s"] show ?thesis
    by (simp add: apply_basemap_source_def map_inv_def)
next
  case False
  obtain r m' where shown: "show_offline_pack split (ms_theme s) (Inr base) (packs ! (index - 1)) packs (ms_widget s) = (r, m')"
    by (cases "show_offline_pack split (ms_theme s) (Inr base) (packs ! (index - 1)) packs (ms_widget s)")
  have "bridge_ok (ms_widget s)" using assms by (simp add: map_inv_def)
  from show_offline_inv [OF this shown] False shown show ?thesis
    by (auto simp: apply_basemap_source_def map_inv_def Let_def)
qed


lemma offline_shown_run_js:
  assumes "bridge_ok m" "offline_shown split theme source server base m" "\<not> is_basemap c"
  shows "offline_shown split theme source server base (run_js c m)"
  using assms by (cases "mp_bridge m") (auto simp: offline_shown_def told_js_run bridge_ok_def)

lemma online_shown_run_js:
  assumes "bridge_ok m" "online_shown m" "\<not> is_basemap c"
  shows "online_shown (run_js c m)"
  using assms by (cases "mp_bridge m") (auto simp: online_shown_def told_js_run bridge_ok_def)

lemma node_call_inv:
  assumes "map_inv split s" "\<not> is_basemap c"
  shows "map_inv split (s\<lparr>ms_widget := run_js c (ms_widget s)\<rparr>)"
  using assms offline_shown_run_js online_shown_run_js
  by (auto simp: map_inv_def split: option.splits prod.splits)

text \<open>Pushing the layer again, for another style or a page that has just loaded.\<close>

lemma repush_inv:
  assumes "bridge_ok m" "offline_shown split old source server base m"
    and "server' = set_style (Some (style_for_theme theme)) server"
  shows "offline_shown split theme source server' base (push_offline_basemap split (m\<lparr>mp_server := Some (server', base)\<rparr>))
    \<and> mp_server (push_offline_basemap split (m\<lparr>mp_server := Some (server', base)\<rparr>)) = Some (server', base)
    \<and> bridge_ok (push_offline_basemap split (m\<lparr>mp_server := Some (server', base)\<rparr>))"
proof -
  obtain pack rest where p: "mp_pack m = Some pack" "op_stem pack = source" "mp_packs m = pack # rest" "ts_packs server = pack # rest"
    using assms(2) by (auto simp: offline_shown_def)
  have "ts_packs server' = ts_packs server" "ts_style server' = Some (style_for_theme theme)"
    using assms(3) by (simp_all add: set_style_def)
  moreover have "bridge_ok (m\<lparr>mp_server := Some (server', base)\<rparr>)" using assms(1) by (simp add: bridge_ok_def)
  ultimately show ?thesis
    using push_offline_shown [of "m\<lparr>mp_server := Some (server', base)\<rparr>" server' base pack rest theme split] p by simp
qed

lemma theme_inv:
  assumes "map_inv split s"
  shows "map_inv split (on_theme_changed split theme s)"
proof (cases "mp_server (ms_widget s)")
  case None
  with assms show ?thesis by (simp add: on_theme_changed_def map_inv_def)
next
  case (Some sb)
  obtain server base where "sb = (server, base)" by (cases sb)
  with Some assms repush_inv [of "ms_widget s" split "ms_theme s" "ms_source s" server base _ theme] show ?thesis
    by (simp add: on_theme_changed_def map_inv_def Let_def)
qed

lemma map_ready_inv:
  assumes "map_inv split s" "mp_bridge (ms_widget s) = Some b"
  shows "map_inv split (s\<lparr>ms_widget := (ms_widget s)\<lparr>mp_bridge := Some (map_ready b)\<rparr>\<rparr>)"
proof -
  have "bridge_ok ((ms_widget s)\<lparr>mp_bridge := Some (map_ready b)\<rparr>)"
    using assms by (simp add: map_inv_def bridge_ok_def map_ready_def)
  moreover have "online_shown ((ms_widget s)\<lparr>mp_bridge := Some (map_ready b)\<rparr>) = online_shown (ms_widget s)"
    using assms(2) by (simp add: online_shown_def told_map_ready)
  moreover have "offline_shown split t src server base ((ms_widget s)\<lparr>mp_bridge := Some (map_ready b)\<rparr>)
      = offline_shown split t src server base (ms_widget s)" for t src server base
    using assms(2) by (simp add: offline_shown_def told_map_ready)
  ultimately show ?thesis using assms(1) by (auto simp: map_inv_def split: option.splits)
qed

lemma set_style_same [simp]: "set_style (ts_style server) server = server"
  by (simp add: set_style_def)

lemma page_ready_inv:
  assumes "map_inv split s"
  shows "map_inv split (page_ready split s)"
proof (cases "mp_bridge (ms_widget s)")
  case None
  with assms show ?thesis by (simp add: page_ready_def)
next
  case (Some b)
  define s1 where "s1 = s\<lparr>ms_widget := (ms_widget s)\<lparr>mp_bridge := Some (map_ready b)\<rparr>\<rparr>"
  define s2 where "s2 = s1\<lparr>ms_widget := run_js (SetMapTheme (ms_theme s1)) (ms_widget s1)\<rparr>"
  have s2: "map_inv split s2"
    unfolding s2_def s1_def using map_ready_inv [OF assms Some] by (rule node_call_inv) simp
  show ?thesis
  proof (cases "mp_server (ms_widget s2)")
    case None
    then have "page_ready split s = s2"
      using Some by (simp add: page_ready_def push_initial_theme_def s1_def s2_def Let_def)
    with s2 show ?thesis by simp
  next
    case (Some sb)
    obtain server base where sb: "sb = (server, base)" by (cases sb)
    have ready: "page_ready split s = s2\<lparr>ms_widget := push_offline_basemap split (ms_widget s2)\<rparr>"
      using Some \<open>mp_bridge (ms_widget s) = Some b\<close>
      by (simp add: page_ready_def push_initial_theme_def s1_def s2_def Let_def)
    have shown: "bridge_ok (ms_widget s2)" "offline_shown split (ms_theme s2) (ms_source s2) server base (ms_widget s2)"
      using s2 Some sb by (simp_all add: map_inv_def)
    then have style: "ts_style server = Some (style_for_theme (ms_theme s2))" by (auto simp: offline_shown_def)
    then have set: "server = set_style (Some (style_for_theme (ms_theme s2))) server" by (metis set_style_same)
    have "(ms_widget s2)\<lparr>mp_server := Some (server, base)\<rparr> = ms_widget s2" using Some sb by simp
    with repush_inv [OF shown set] show ?thesis unfolding ready by (simp add: map_inv_def)
  qed
qed

lemma choose_inv:
  assumes "map_inv split s"
  shows "map_inv split (choose_basemap_source split (Inr base) found pick s)"
proof -
  have box: "map_inv split (s\<lparr>ms_boxes := bs\<rparr>)" for bs
    using assms by (auto simp: map_inv_def split: option.splits)
  show ?thesis
    using assms box apply_basemap_inv [OF assms]
    by (auto simp: choose_basemap_source_def split: prod.splits option.splits)
qed

lemma restore_inv:
  assumes "map_inv split s" "mp_server (ms_widget s) = None"
  shows "map_inv split (restore_basemap_source split (Inr base) found s)"
proof -
  have "map_inv split (s\<lparr>ms_source := x\<rparr>)" for x using assms by (simp add: map_inv_def)
  then show ?thesis
    using assms(1) apply_basemap_inv [OF assms(1)]
    by (auto simp: restore_basemap_source_def Let_def split: prod.splits option.splits)
qed

text \<open>The state a start of the program with these settings makes.\<close>

definition map_start :: "bool \<Rightarrow> string \<Rightarrow> string \<Rightarrow> map_state" where
  "map_start webengine theme source =
     \<lparr>ms_widget = map_widget_new webengine, ms_theme = theme, ms_source = source, ms_status = [], ms_boxes = []\<rparr>"

lemma map_start_inv: "map_inv split (map_start webengine theme source)"
  by (simp add: map_inv_def map_start_def map_widget_new_def bridge_ok_def online_shown_def basemap_told_def
      set_page_def bridge_new_def start_ready_watchdog_def)

lemma map_step_inv:
  assumes "map_inv split s" "event_ok ev"
  shows "map_inv split (map_step split ev s)"
  using assms page_ready_inv theme_inv choose_inv node_call_inv
  by (cases ev) (auto simp: map_step_def)


text \<open>A socket that cannot be opened is no \<open>OrcMapsError\<close>: the running server is gone, but the window neither
  falls back nor says so, and the page keeps the layer of the dead server.\<close>

lemma failed_socket_leaves_dead_layer:
  assumes "mp_server (ms_widget s) = Some server"
  shows "apply_basemap_source split (Inl e) (Suc i) packs s = s\<lparr>ms_widget := (ms_widget s)\<lparr>mp_server := None\<rparr>\<rparr>"
  by (simp add: apply_basemap_source_def show_offline_pack_def tile_server_new_def stop_tile_server_def Let_def)

text \<open>Two packs with the same label: picking the second one chooses the first.\<close>

lemma twin_labels_choose_first:
  assumes "pack_label p = pack_label q" "pack_label p \<noteq> online_label"
  shows "label_index (basemap_labels [p, q] ! 2) (basemap_labels [p, q]) = 1"
  using assms by (simp add: basemap_labels_def)

definition plain_link :: "string \<Rightarrow> string \<times> string" where
  "plain_link url = ([], [])"

definition sample_map_events :: "map_event list" where
  "sample_map_events = [NodeCall ClearNodes, MapPageReady, ThemeChosen ''light'',
     BasemapChosen (Inr ''http://127.0.0.1:2'') (Some sample_tools, [sample_pack ''oregon'' None], []) (\<lambda>ls. Some (ls ! 1))]"


end
