(* ===== verification/Monitor.thy ===== *)
theory Monitor
  imports Panels MapView
begin

text \<open>
  The pages that show the network: \<open>ui/monitor/monitor_page.py\<close>, \<open>ui/nodes/nodes_page.py\<close>,
  \<open>format_distance\<close> of \<open>analytics/distance.py\<close>, and the handlers of \<open>ui/main_window.py\<close> that feed
  them.  The great-circle distance (\<open>haversine_km\<close>, floating-point trigonometry, over the reals
  in theory Geo) and the clock's text are parameters.
\<close>

section \<open>Distances\<close>

definition format_distance :: "pyfloat \<Rightarrow> bool \<Rightarrow> string" where
  "format_distance km use_metric =
     (if use_metric then (if km < 1 then fixed 0 (km * 1000) @ '' m'' else fixed 2 km @ '' km'')
      else let mi = km * (621371 / 10 ^ 6)
           in if mi < 1/10 then fixed 0 (km * (328084 / 100)) @ '' ft'' else fixed 2 mi @ '' mi'')"

section \<open>The page's state\<close>

record rank_panels =
  rp_last_heard :: ranking
  rp_most_pkts :: ranking
  rp_nearby :: ranking
  rp_signal :: ranking
  rp_msgs :: ranking

record hop_panels =
  hp_counts :: "bar list"
  hp_pct :: "bar list"

record dist_panel =
  dp_breakdown :: "bar list"
  dp_channels :: "(int \<times> bar) list"
  dp_roles :: "bar list"
  dp_hardware :: "bar list"

record monitor_page =
  mo_header :: dashboard_header
  mo_filter_bar :: filter_bar
  mo_map :: map_widget
  mo_chart :: activity_chart
  mo_log :: "network_packet list"
  mo_inspector :: node_inspector
  mo_ranks :: rank_panels
  mo_cards :: "(string \<times> string) list"
  mo_signal_card :: multi_card
  mo_hops :: hop_panels
  mo_dist :: dist_panel
  mo_session_start :: "instant option"
  mo_session_pkts :: nat
  mo_nodes :: "(node_id \<times> node_snapshot) list"
  mo_recent :: "network_packet list"
  mo_filter :: active_filter
  mo_local :: "node_id option"
  mo_map_has_nodes :: bool
  mo_positions :: "(node_id \<times> pyfloat \<times> pyfloat) list"
  mo_channel_names :: "(int \<times> string) list"
  mo_selected :: "node_id option"

definition MAX_RECENT :: nat where "MAX_RECENT = 10000"
definition ROW_LIMIT :: nat where "ROW_LIMIT = 50"

text \<open>The cards by their attribute's name; the signal card has three fields of its own.\<close>

definition initial_cards :: "(string \<times> string) list" where
  "initial_cards = [(''direct'', emdash), (''active'', emdash), (''total'', emdash), (''ppm'', emdash), (''pph'', emdash),
     (''session'', ''0''), (''elapsed'', ''0s''), (''infra'', emdash), (''clients'', emdash), (''closest'', emdash), (''farthest'', emdash)]"

definition rank_panels_new :: rank_panels where
  "rank_panels_new = \<lparr>rp_last_heard = ranking_new ''LAST HEARD'' ''OLDEST HEARD'' 50,
     rp_most_pkts = ranking_new ''MOST PACKETS'' ''FEWEST PACKETS'' 50, rp_nearby = ranking_new ''NEARBY'' ''FARTHEST'' 50,
     rp_signal = ranking_new ''STRONGEST DIRECT'' ''WEAKEST DIRECT'' 50,
     rp_msgs = ranking_new ''MESSAGES SENT'' ''FEWEST MESSAGES'' 50\<rparr>"

text \<open>\<open>for panel in self._rank_panels\<close>.\<close>

definition each_panel :: "(ranking \<Rightarrow> ranking) \<Rightarrow> rank_panels \<Rightarrow> rank_panels" where
  "each_panel f r = \<lparr>rp_last_heard = f (rp_last_heard r), rp_most_pkts = f (rp_most_pkts r), rp_nearby = f (rp_nearby r),
     rp_signal = f (rp_signal r), rp_msgs = f (rp_msgs r)\<rparr>"

definition monitor_new :: "bool \<Rightarrow> monitor_page" where
  "monitor_new webengine =
     \<lparr>mo_header = header_new, mo_filter_bar = filter_bar_new, mo_map = map_widget_new webengine, mo_chart = chart_new,
      mo_log = [], mo_inspector = inspector_new,
      mo_ranks = rank_panels_new, mo_cards = initial_cards,
      mo_signal_card = multi_card_new [''SNR'', ''RSSI'', ''Noise''],
      mo_hops = \<lparr>hp_counts = hop_counts_panel [], hp_pct = percent_hops_panel []\<rparr>,
      mo_dist = \<lparr>dp_breakdown = breakdown_panel [], dp_channels = [], dp_roles = [], dp_hardware = []\<rparr>,
      mo_session_start = None, mo_session_pkts = 0, mo_nodes = [], mo_recent = [],
      mo_filter = current_filter filter_bar_new, mo_local = None, mo_map_has_nodes = False, mo_positions = [],
      mo_channel_names = [], mo_selected = None\<rparr>"

definition card_value :: "string \<Rightarrow> string \<Rightarrow> monitor_page \<Rightarrow> monitor_page" where
  "card_value name v m = m\<lparr>mo_cards := odict_put name v (mo_cards m)\<rparr>"

section \<open>What the controller and the ingestor report\<close>

definition monitor_connection :: "instant \<Rightarrow> connection_state \<Rightarrow> string \<Rightarrow> monitor_page \<Rightarrow> monitor_page" where
  "monitor_connection now state name m =
     (let m = m\<lparr>mo_header := header_connection state name (mo_header m)\<rparr>
      in if state = CONNECTED \<and> mo_session_start m = None then m\<lparr>mo_session_start := Some now\<rparr> else m)"

definition on_packet_ingested :: "(instant \<Rightarrow> string) \<Rightarrow> instant \<Rightarrow> network_packet \<Rightarrow> monitor_page \<Rightarrow> monitor_page" where
  "on_packet_ingested clock now p m =
     (if dh_paused (mo_header m) then m
      else card_value ''session'' (show_nat (mo_session_pkts m + 1))
        (m\<lparr>mo_session_pkts := mo_session_pkts m + 1, mo_recent := ring_append MAX_RECENT (mo_recent m) p,
           mo_chart := record_packet (pk_portnum p) (mo_chart m), mo_log := fst (append_packet p (mo_log m)),
           mo_header := mark_updated clock now (mo_header m)\<rparr>))"

definition monitor_node_updated :: "node_snapshot \<Rightarrow> monitor_page \<Rightarrow> monitor_page" where
  "monitor_node_updated n m = m\<lparr>mo_nodes := odict_put (nd_num n) n (mo_nodes m)\<rparr>"

definition on_stats_updated :: "nat \<Rightarrow> nat \<Rightarrow> monitor_page \<Rightarrow> monitor_page" where
  "on_stats_updated ppm pph m = card_value ''pph'' (show_nat pph) (card_value ''ppm'' (show_nat ppm) m)"

definition on_local_telemetry ::
    "pyfloat option \<Rightarrow> pyfloat option \<Rightarrow> pyfloat option \<Rightarrow> monitor_page \<Rightarrow> monitor_page" where
  "on_local_telemetry temp hum pres m = m\<lparr>mo_header := header_env temp hum pres (mo_header m)\<rparr>"

definition monitor_local_node :: "node_id option \<Rightarrow> monitor_page \<Rightarrow> monitor_page" where
  "monitor_local_node num m = m\<lparr>mo_local := num\<rparr>"

definition monitor_radio_config :: "lora_config_summary option \<Rightarrow> monitor_page \<Rightarrow> monitor_page" where
  "monitor_radio_config s m = m\<lparr>mo_header := header_radio_config s (mo_header m)\<rparr>"

definition monitor_channels :: "channel_summary list \<Rightarrow> monitor_page \<Rightarrow> monitor_page" where
  "monitor_channels cs m = m\<lparr>mo_channel_names := fold (\<lambda>c d. odict_put (cs_index c) (cs_name c) d) cs []\<rparr>"

definition on_position_updated :: "instant \<Rightarrow> position_sample \<Rightarrow> monitor_page \<Rightarrow> monitor_page" where
  "on_position_updated now s m =
     (case (ps_latitude s, ps_longitude s) of
        (Some lat, Some lon) \<Rightarrow>
          (let num = ps_node_num s; node = map_of (mo_nodes m) num;
               name = (case node of Some n \<Rightarrow> node_display_name n | None \<Rightarrow> bang_hex8 num);
               role = (case node of Some n \<Rightarrow> or_text (nd_role n) [] | None \<Rightarrow> []);
               heard = (case node of
                          Some n \<Rightarrow> map_option (\<lambda>t. py_int_of_float (of_int (now - t) / 1000000)) (nd_last_heard n)
                        | None \<Rightarrow> None);
               hops = (case node of Some n \<Rightarrow> nd_last_hops_used n | None \<Rightarrow> None)
           in m\<lparr>mo_positions := odict_put num (lat, lon) (mo_positions m),
                mo_map := run_js (UpdateNode num lat lon name role (Some num = mo_local m) hops heard) (mo_map m),
                mo_map_has_nodes := True\<rparr>)
      | _ \<Rightarrow> m)"

section \<open>Selection\<close>

definition monitor_selected :: "node_id option \<Rightarrow> monitor_page \<Rightarrow> monitor_page" where
  "monitor_selected num m =
     m\<lparr>mo_selected := num, mo_map := run_js (SetSelectedNode num) (mo_map m),
       mo_ranks := each_panel (set_selected_node num) (mo_ranks m)\<rparr>"

text \<open>The second result is the node the page announces by \<open>node_selected\<close>.\<close>

definition on_ranking_node_selected :: "instant \<Rightarrow> node_id \<Rightarrow> monitor_page \<Rightarrow> monitor_page \<times> node_id" where
  "on_ranking_node_selected now num m =
     (let m = (case map_of (mo_nodes m) num of
                 Some n \<Rightarrow> m\<lparr>mo_inspector := show_node now n (mo_inspector m)\<rparr> | None \<Rightarrow> m)
      in (monitor_selected (Some num) m, num))"

definition fit_map :: "monitor_page \<Rightarrow> monitor_page" where
  "fit_map m = (if mo_map_has_nodes m then m\<lparr>mo_map := run_js FitAll (mo_map m)\<rparr> else m)"

definition clear_map :: "monitor_page \<Rightarrow> monitor_page" where
  "clear_map m = monitor_selected None (m\<lparr>mo_map := run_js ClearNodes (mo_map m), mo_map_has_nodes := False\<rparr>)"

definition focus_node_on_map :: "instant \<Rightarrow> node_id \<Rightarrow> monitor_page \<Rightarrow> monitor_page \<times> node_id" where
  "focus_node_on_map now num m =
     on_ranking_node_selected now num
       (if map_of (mo_positions m) num \<noteq> None then m\<lparr>mo_map := run_js (FocusNode num) (mo_map m)\<rparr> else m)"

definition tick_elapsed :: "instant \<Rightarrow> monitor_page \<Rightarrow> monitor_page" where
  "tick_elapsed now m =
     (case mo_session_start m of
        None \<Rightarrow> m
      | Some t \<Rightarrow> card_value ''elapsed'' (format_elapsed (py_int_of_float (of_int (now - t) / 1000000))) m)"

section \<open>The refresh\<close>

text \<open>The age narrows the nodes and the packets, the source and the type the packets alone.\<close>

definition matches_packet_type :: "network_packet \<Rightarrow> string \<Rightarrow> bool" where
  "matches_packet_type p type_filter =
     (let category = packet_category (pk_portnum p) (pk_pki_encrypted p)
      in if type_filter = ''Unknown/Encrypted'' then category = ''Unknown Port'' \<or> category = ''Encrypted/Undecoded''
         else category = type_filter)"

definition age_cutoff :: "instant \<Rightarrow> int \<Rightarrow> instant" where
  "age_cutoff now age_s = now - age_s * 1000000"

definition scope_nodes :: "instant \<Rightarrow> active_filter \<Rightarrow> node_snapshot list \<Rightarrow> node_snapshot list" where
  "scope_nodes now f nodes =
     (case af_age_s f of
        None \<Rightarrow> nodes
      | Some a \<Rightarrow> filter (\<lambda>n. case nd_last_heard n of None \<Rightarrow> False | Some t \<Rightarrow> t \<ge> age_cutoff now a) nodes)"

definition source_matches :: "string \<Rightarrow> network_packet \<Rightarrow> bool" where
  "source_matches src p =
     (if src = ''RF only'' then pk_via_mqtt p = Some False
      else if src = ''MQTT-path'' then pk_via_mqtt p = Some True
      else if src = ''Unknown transport'' then pk_via_mqtt p = None else True)"

definition scope_packets :: "instant \<Rightarrow> active_filter \<Rightarrow> network_packet list \<Rightarrow> network_packet list" where
  "scope_packets now f pkts =
     (let pkts = (case af_age_s f of None \<Rightarrow> pkts | Some a \<Rightarrow> filter (\<lambda>p. pk_observed_at p \<ge> age_cutoff now a) pkts);
          pkts = filter (source_matches (af_source f)) pkts
      in if af_type f \<noteq> ''All'' then filter (\<lambda>p. matches_packet_type p (af_type f)) pkts else pkts)"

text \<open>The one pass over the packets.\<close>

record sender_stats =
  sx_counts :: "(node_id \<times> nat) list"
  sx_best_snr :: "(node_id \<times> pyfloat) list"
  sx_msgs :: "(node_id \<times> nat) list"
  sx_snrs :: "pyfloat list"
  sx_rssis :: "int list"

definition stats_new :: sender_stats where
  "stats_new = \<lparr>sx_counts = [], sx_best_snr = [], sx_msgs = [], sx_snrs = [], sx_rssis = []\<rparr>"

definition stats_packet :: "network_packet \<Rightarrow> sender_stats \<Rightarrow> sender_stats" where
  "stats_packet p s =
     (let direct = packet_is_direct_rf p;
          s = (if direct
               then s\<lparr>sx_snrs := sx_snrs s @ (case pk_rx_snr p of None \<Rightarrow> [] | Some r \<Rightarrow> [r]),
                      sx_rssis := sx_rssis s @ (case pk_rx_rssi p of None \<Rightarrow> [] | Some r \<Rightarrow> [r])\<rparr>
               else s)
      in case pk_sender_num p of
           None \<Rightarrow> s
         | Some sender \<Rightarrow>
             (let s = s\<lparr>sx_counts := counter_add sender (sx_counts s)\<rparr>;
                  s = (if pk_portnum p = Some PORTNUM_TEXT then s\<lparr>sx_msgs := counter_add sender (sx_msgs s)\<rparr> else s)
              in case pk_rx_snr p of
                   None \<Rightarrow> s
                 | Some r \<Rightarrow>
                     if \<not> direct then s
                     else case map_of (sx_best_snr s) sender of
                            None \<Rightarrow> s\<lparr>sx_best_snr := odict_put sender r (sx_best_snr s)\<rparr>
                          | Some best \<Rightarrow> if r > best then s\<lparr>sx_best_snr := odict_put sender r (sx_best_snr s)\<rparr> else s))"

definition sender_stats_of :: "network_packet list \<Rightarrow> sender_stats" where
  "sender_stats_of pkts = fold stats_packet pkts stats_new"

text \<open>The statistics one at a time, each by its own pass: the reference the one pass is measured against.\<close>

definition packets_from :: "node_id \<Rightarrow> network_packet list \<Rightarrow> network_packet list" where
  "packets_from num pkts = filter (\<lambda>p. pk_sender_num p = Some num) pkts"

definition direct_readings :: "(network_packet \<Rightarrow> 'a option) \<Rightarrow> network_packet list \<Rightarrow> 'a list" where
  "direct_readings reading pkts = List.map_filter reading (filter packet_is_direct_rf pkts)"

definition best_reading :: "pyfloat list \<Rightarrow> pyfloat option" where
  "best_reading rs = (if rs = [] then None else Some (Max (set rs)))"

lemma best_reading_snoc: "best_reading (rs @ [r]) = Some (case best_reading rs of None \<Rightarrow> r | Some b \<Rightarrow> if r > b then r else b)"
proof (cases "rs = []")
  case False
  have "Max (insert r (set rs)) = max r (Max (set rs))" using False by (intro Max_insert) auto
  then have "best_reading (rs @ [r]) = Some (max r (Max (set rs)))" by (simp add: best_reading_def)
  with False show ?thesis by (simp add: best_reading_def max_def not_le del: Max_less_iff)
qed (simp add: best_reading_def)

lemma direct_readings_snoc:
  "direct_readings f (ps @ [p]) = direct_readings f ps
     @ (if packet_is_direct_rf p then case f p of None \<Rightarrow> [] | Some r \<Rightarrow> [r] else [])"
  by (auto simp: direct_readings_def List.map_filter_def split: option.splits)

lemma packets_from_snoc:
  "packets_from num (ps @ [p]) = packets_from num ps @ (if pk_sender_num p = Some num then [p] else [])"
  by (simp add: packets_from_def)

lemma stats_snoc: "sender_stats_of (ps @ [p]) = stats_packet p (sender_stats_of ps)"
  by (simp add: sender_stats_of_def)

lemma stats_readings:
  "sx_snrs (sender_stats_of pkts) = direct_readings pk_rx_snr pkts
   \<and> sx_rssis (sender_stats_of pkts) = direct_readings pk_rx_rssi pkts"
proof (induction pkts rule: rev_induct)
  case Nil
  then show ?case by (simp add: sender_stats_of_def stats_new_def direct_readings_def List.map_filter_def)
next
  case (snoc p ps)
  then show ?case by (auto simp: stats_snoc stats_packet_def direct_readings_snoc Let_def split: option.splits)
qed

definition positive :: "nat \<Rightarrow> nat option" where
  "positive n = (if n = 0 then None else Some n)"

lemma stats_packet_counts:
  "map_of (sx_counts (stats_packet p s)) num
     = (if pk_sender_num p = Some num
        then Some (case map_of (sx_counts s) num of None \<Rightarrow> 1 | Some n \<Rightarrow> Suc n) else map_of (sx_counts s) num)"
  by (cases "pk_sender_num p"; cases "pk_rx_snr p"; cases "packet_is_direct_rf p";
      simp add: stats_packet_def counter_add_lookup Let_def split: option.split)

lemma stats_packet_msgs:
  "map_of (sx_msgs (stats_packet p s)) num
     = (if pk_sender_num p = Some num \<and> pk_portnum p = Some PORTNUM_TEXT
        then Some (case map_of (sx_msgs s) num of None \<Rightarrow> 1 | Some n \<Rightarrow> Suc n) else map_of (sx_msgs s) num)"
  by (cases "pk_sender_num p"; cases "pk_rx_snr p"; cases "packet_is_direct_rf p";
      simp add: stats_packet_def counter_add_lookup Let_def split: option.split)

lemma stats_packet_best:
  "map_of (sx_best_snr (stats_packet p s)) num
     = (if pk_sender_num p = Some num \<and> packet_is_direct_rf p \<and> pk_rx_snr p \<noteq> None
        then Some (case map_of (sx_best_snr s) num of
                     None \<Rightarrow> the (pk_rx_snr p)
                   | Some b \<Rightarrow> if the (pk_rx_snr p) > b then the (pk_rx_snr p) else b)
        else map_of (sx_best_snr s) num)"
  by (cases "pk_sender_num p"; cases "pk_rx_snr p"; cases "packet_is_direct_rf p";
      simp add: stats_packet_def update_conv' Let_def split: option.split)

lemma stats_counts:
  "map_of (sx_counts (sender_stats_of pkts)) num = positive (length (packets_from num pkts))"
proof (induction pkts rule: rev_induct)
  case Nil
  then show ?case by (simp add: sender_stats_of_def stats_new_def packets_from_def positive_def)
next
  case (snoc p ps)
  then show ?case by (simp add: stats_snoc stats_packet_counts packets_from_snoc positive_def)
qed

definition texts_from :: "node_id \<Rightarrow> network_packet list \<Rightarrow> network_packet list" where
  "texts_from num pkts = filter (\<lambda>p. pk_portnum p = Some PORTNUM_TEXT) (packets_from num pkts)"

lemma stats_msgs:
  "map_of (sx_msgs (sender_stats_of pkts)) num = positive (length (texts_from num pkts))"
proof (induction pkts rule: rev_induct)
  case Nil
  then show ?case by (simp add: sender_stats_of_def stats_new_def packets_from_def texts_from_def positive_def)
next
  case (snoc p ps)
  then show ?case by (simp add: stats_snoc stats_packet_msgs packets_from_snoc texts_from_def positive_def)
qed

lemma stats_best:
  "map_of (sx_best_snr (sender_stats_of pkts)) num = best_reading (direct_readings pk_rx_snr (packets_from num pkts))"
proof (induction pkts rule: rev_induct)
  case Nil
  then show ?case
    by (simp add: sender_stats_of_def stats_new_def packets_from_def direct_readings_def List.map_filter_def best_reading_def)
next
  case (snoc p ps)
  then show ?case
    by (cases "pk_rx_snr p")
       (simp_all add: stats_snoc stats_packet_best packets_from_snoc direct_readings_snoc best_reading_snoc
          split: option.split)
qed

section \<open>The refresh, continued\<close>

definition node_name :: "(node_id \<times> node_snapshot) list \<Rightarrow> node_id \<Rightarrow> string" where
  "node_name nodes num = (case map_of nodes num of Some n \<Rightarrow> node_display_name n | None \<Rightarrow> bang_hex8 num)"

definition last_heard_items :: "instant \<Rightarrow> bool \<Rightarrow> node_snapshot list \<Rightarrow> rank_item list" where
  "last_heard_items now flipped nodes =
     (let heard = py_sorted (\<lambda>n. the (nd_last_heard n)) (\<not> flipped) (filter (\<lambda>n. nd_last_heard n \<noteq> None) nodes)
      in map (\<lambda>n. (nd_num n, node_display_name n, node_short_display n, relative_age now (nd_last_heard n) emdash []))
           (take ROW_LIMIT heard))"

definition count_items ::
    "(node_id \<Rightarrow> string) \<Rightarrow> (nat \<Rightarrow> string) \<Rightarrow> bool \<Rightarrow> (node_id \<times> nat) list \<Rightarrow> rank_item list" where
  "count_items name detail flipped counts =
     map (\<lambda>(num, cnt). (num, name num, [], detail cnt)) (take ROW_LIMIT (py_sorted snd (\<not> flipped) counts))"

definition share_text :: "(node_id \<times> nat) list \<Rightarrow> nat \<Rightarrow> string" where
  "share_text counts cnt = show_nat cnt @ ''  ('' @ show_nat (cnt * 100 div counts_total counts) @ ''%)''"

definition signal_items :: "(node_id \<Rightarrow> string) \<Rightarrow> bool \<Rightarrow> (node_id \<times> pyfloat) list \<Rightarrow> rank_item list" where
  "signal_items name flipped best =
     map (\<lambda>(num, snr). (num, name num, [], fixed 1 snr @ '' dB'')) (take ROW_LIMIT (py_sorted snd (\<not> flipped) best))"

definition local_position :: "monitor_page \<Rightarrow> (pyfloat \<times> pyfloat) option" where
  "local_position m = (case mo_local m of None \<Rightarrow> None | Some num \<Rightarrow> map_of (mo_positions m) num)"

definition distances_from ::
    "(pyfloat \<Rightarrow> pyfloat \<Rightarrow> pyfloat \<Rightarrow> pyfloat \<Rightarrow> pyfloat) \<Rightarrow> pyfloat \<times> pyfloat \<Rightarrow> node_id option \<Rightarrow> node_id set
      \<Rightarrow> (node_id \<times> pyfloat \<times> pyfloat) list \<Rightarrow> (node_id \<times> pyfloat) list" where
  "distances_from km here me scoped positions =
     map (\<lambda>(num, lat, lon). (num, km (fst here) (snd here) lat lon))
       (filter (\<lambda>(num, _). Some num \<noteq> me \<and> num \<in> scoped) positions)"

definition nearby_items :: "(node_id \<Rightarrow> string) \<Rightarrow> bool \<Rightarrow> (node_id \<times> pyfloat) list \<Rightarrow> rank_item list" where
  "nearby_items name flipped ds =
     map (\<lambda>(num, km). (num, name num, [], format_distance km True)) (take ROW_LIMIT (py_sorted snd flipped ds))"

definition median :: "'a :: linorder list \<Rightarrow> 'a option" where
  "median xs = (if xs = [] then None else Some (sort xs ! (length xs div 2)))"

definition infra_roles :: "string list" where
  "infra_roles = [''ROUTER'', ''ROUTER_LATE'', ''CLIENT_BASE'', ''ROUTER_CLIENT'', ''REPEATER'']"

definition infra_count :: "node_snapshot list \<Rightarrow> nat" where
  "infra_count nodes = length (filter (\<lambda>n. upper (or_text (nd_role n) []) \<in> set infra_roles) nodes)"

definition nodes_heard_direct :: "node_snapshot list \<Rightarrow> node_id set" where
  "nodes_heard_direct nodes = nd_num ` set (filter node_is_direct nodes)"

definition active_nodes :: "instant \<Rightarrow> int option \<Rightarrow> node_snapshot list \<Rightarrow> node_id set" where
  "active_nodes now age_s nodes =
     nd_num ` set (filter (\<lambda>n. case nd_last_heard n of None \<Rightarrow> False
         | Some t \<Rightarrow> now - t \<le> (case age_s of Some a \<Rightarrow> (if a = 0 then 3600 else a) | None \<Rightarrow> 3600) * 1000000) nodes)"

text \<open>\<open>_refresh_rankings\<close>, panel by panel.\<close>

definition refresh_ranks ::
    "(pyfloat \<Rightarrow> pyfloat \<Rightarrow> pyfloat \<Rightarrow> pyfloat \<Rightarrow> pyfloat) \<Rightarrow> instant \<Rightarrow> monitor_page \<Rightarrow> rank_panels" where
  "refresh_ranks km now m =
     (let r = mo_ranks m; f = mo_filter m;
          nodes = scope_nodes now f (map snd (mo_nodes m));
          stats = sender_stats_of (scope_packets now f (mo_recent m)); name = node_name (mo_nodes m);
          near = (case local_position m of
                    None \<Rightarrow> []
                  | Some here \<Rightarrow> nearby_items name (is_flipped (rp_nearby r))
                      (distances_from km here (mo_local m) (nd_num ` set nodes) (mo_positions m)))
      in \<lparr>rp_last_heard = update_rows (last_heard_items now (is_flipped (rp_last_heard r)) nodes) (rp_last_heard r),
          rp_most_pkts = update_rows (count_items name (share_text (sx_counts stats)) (is_flipped (rp_most_pkts r)) (sx_counts stats))
             (rp_most_pkts r),
          rp_nearby = update_rows near (rp_nearby r),
          rp_signal = update_rows (signal_items name (is_flipped (rp_signal r)) (sx_best_snr stats)) (rp_signal r),
          rp_msgs = update_rows (count_items name show_nat (is_flipped (rp_msgs r)) (sx_msgs stats)) (rp_msgs r)\<rparr>)"

definition closest_text :: "(node_id \<times> pyfloat) list \<Rightarrow> string" where
  "closest_text ds = (if ds = [] then emdash else format_distance (Min (set (map snd ds))) True)"

definition farthest_text :: "(node_id \<times> pyfloat) list \<Rightarrow> string" where
  "farthest_text ds = (if ds = [] then emdash else format_distance (Max (set (map snd ds))) True)"

definition refresh_cards ::
    "(pyfloat \<Rightarrow> pyfloat \<Rightarrow> pyfloat \<Rightarrow> pyfloat \<Rightarrow> pyfloat) \<Rightarrow> instant \<Rightarrow> monitor_page \<Rightarrow> monitor_page" where
  "refresh_cards km now m =
     (let f = mo_filter m; all_nodes = map snd (mo_nodes m); nodes = scope_nodes now f all_nodes;
          ds = (case local_position m of
                  None \<Rightarrow> []
                | Some here \<Rightarrow> distances_from km here (mo_local m) (nd_num ` set nodes) (mo_positions m));
          infra = infra_count nodes
      in card_value ''clients'' (show_int (int (length nodes) - int infra)) (card_value ''infra'' (show_nat infra)
         (card_value ''total'' (show_nat (length all_nodes))
         (card_value ''active'' (show_nat (card (active_nodes now (af_age_s f) nodes)))
         (card_value ''direct'' (show_nat (card (nodes_heard_direct all_nodes)))
         (card_value ''farthest'' (farthest_text ds) (card_value ''closest'' (closest_text ds) m)))))))"

definition refresh_signal :: "network_packet list \<Rightarrow> multi_card \<Rightarrow> multi_card" where
  "refresh_signal pkts c =
     (let stats = sender_stats_of pkts
      in set_card_field ''Noise'' ''N/A''
         (set_card_field ''RSSI'' (opt_cell (\<lambda>r. show_int r @ '' dBm'') emdash (median (sx_rssis stats)))
         (set_card_field ''SNR'' (opt_cell (\<lambda>r. fixed 1 r @ '' dB'') emdash (median (sx_snrs stats))) c)))"

definition refresh_rankings ::
    "(pyfloat \<Rightarrow> pyfloat \<Rightarrow> pyfloat \<Rightarrow> pyfloat \<Rightarrow> pyfloat) \<Rightarrow> instant \<Rightarrow> monitor_page \<Rightarrow> monitor_page" where
  "refresh_rankings km now m =
     (let f = mo_filter m; nodes = scope_nodes now f (map snd (mo_nodes m)); pkts = scope_packets now f (mo_recent m)
      in (refresh_cards km now m)\<lparr>mo_ranks := refresh_ranks km now m, mo_signal_card := refresh_signal pkts (mo_signal_card m),
           mo_hops := \<lparr>hp_counts = hop_counts_panel pkts, hp_pct = percent_hops_panel pkts\<rparr>,
           mo_dist := \<lparr>dp_breakdown = breakdown_panel pkts, dp_channels = channels_panel pkts (mo_channel_names m),
             dp_roles = roles_panel nodes, dp_hardware = hardware_panel nodes\<rparr>\<rparr>)"

definition on_filter_changed ::
    "(pyfloat \<Rightarrow> pyfloat \<Rightarrow> pyfloat \<Rightarrow> pyfloat \<Rightarrow> pyfloat) \<Rightarrow> instant \<Rightarrow> active_filter \<Rightarrow> monitor_page \<Rightarrow> monitor_page" where
  "on_filter_changed km now f m = refresh_rankings km now (m\<lparr>mo_filter := f\<rparr>)"

section \<open>The filters and the panels agree\<close>

text \<open>A packet passes the type filter of a row exactly if it is counted in that row.\<close>

lemma matches_type_row:
  "l \<in> set BREAKDOWN_ROWS \<Longrightarrow> matches_packet_type p l \<longleftrightarrow> breakdown_label p = l"
proof -
  have "packet_category (pk_portnum p) (pk_pki_encrypted p) \<noteq> ''Unknown/Encrypted''"
    by (auto simp: packet_category_def category_mapping_def split: option.splits)
  moreover assume "l \<in> set BREAKDOWN_ROWS"
  then have "l \<noteq> ''Unknown Port''" "l \<noteq> ''Encrypted/Undecoded''" by (auto simp: BREAKDOWN_ROWS_def)
  ultimately show ?thesis by (auto simp: matches_packet_type_def breakdown_label_def Let_def)
qed

lemma source_partition:
  "length (filter (source_matches ''RF only'') ps) + length (filter (source_matches ''MQTT-path'') ps)
     + length (filter (source_matches ''Unknown transport'') ps) = length ps"
proof (induction ps)
  case (Cons p ps)
  then show ?case by (cases "pk_via_mqtt p"; cases "the (pk_via_mqtt p)"; simp add: source_matches_def)
qed simp

lemma scope_packets_All:
  "l \<in> set BREAKDOWN_ROWS \<Longrightarrow>
     scope_packets now (f\<lparr>af_type := l\<rparr>) ps
       = filter (\<lambda>p. breakdown_label p = l) (scope_packets now (f\<lparr>af_type := ''All''\<rparr>) ps)"
proof -
  assume l: "l \<in> set BREAKDOWN_ROWS"
  then have "l \<noteq> ''All''" by (auto simp: BREAKDOWN_ROWS_def)
  with matches_type_row [OF l] show ?thesis
    by (simp add: scope_packets_def Let_def split: option.split)
qed

section \<open>Everything that happens to the page\<close>

datatype monitor_event =
    MonConnection connection_state string
  | MonPacket network_packet
  | MonNode node_snapshot
  | MonStats nat nat
  | MonTelemetry "pyfloat option" "pyfloat option" "pyfloat option"
  | MonLocal "node_id option"
  | MonRadio "lora_config_summary option"
  | MonChannels "channel_summary list"
  | MonPosition position_sample
  | MonSelect node_id
  | MonFocus node_id
  | MonFit
  | MonClear
  | MonPause
  | MonFilter active_filter
  | MonFlip nat
  | MonRankTimer
  | MonTick

definition flip_panel :: "nat \<Rightarrow> rank_panels \<Rightarrow> rank_panels" where
  "flip_panel i r =
     (if i = 0 then r\<lparr>rp_last_heard := flip_ranking (rp_last_heard r)\<rparr>
      else if i = 1 then r\<lparr>rp_most_pkts := flip_ranking (rp_most_pkts r)\<rparr>
      else if i = 2 then r\<lparr>rp_nearby := flip_ranking (rp_nearby r)\<rparr>
      else if i = 3 then r\<lparr>rp_signal := flip_ranking (rp_signal r)\<rparr>
      else r\<lparr>rp_msgs := flip_ranking (rp_msgs r)\<rparr>)"

fun monitor_step ::
    "(pyfloat \<Rightarrow> pyfloat \<Rightarrow> pyfloat \<Rightarrow> pyfloat \<Rightarrow> pyfloat) \<Rightarrow> (instant \<Rightarrow> string) \<Rightarrow> instant \<times> monitor_event
      \<Rightarrow> monitor_page \<Rightarrow> monitor_page" where
  "monitor_step km clock (now, MonConnection s name) m = monitor_connection now s name m"
| "monitor_step km clock (now, MonPacket p) m = on_packet_ingested clock now p m"
| "monitor_step km clock (now, MonNode n) m = monitor_node_updated n m"
| "monitor_step km clock (now, MonStats ppm pph) m = on_stats_updated ppm pph m"
| "monitor_step km clock (now, MonTelemetry t h p) m = on_local_telemetry t h p m"
| "monitor_step km clock (now, MonLocal num) m = monitor_local_node num m"
| "monitor_step km clock (now, MonRadio s) m = monitor_radio_config s m"
| "monitor_step km clock (now, MonChannels cs) m = monitor_channels cs m"
| "monitor_step km clock (now, MonPosition s) m = on_position_updated now s m"
| "monitor_step km clock (now, MonSelect num) m = fst (on_ranking_node_selected now num m)"
| "monitor_step km clock (now, MonFocus num) m = fst (focus_node_on_map now num m)"
| "monitor_step km clock (now, MonFit) m = fit_map m"
| "monitor_step km clock (now, MonClear) m = clear_map m"
| "monitor_step km clock (now, MonPause) m = m\<lparr>mo_header := toggle_pause (mo_header m)\<rparr>"
| "monitor_step km clock (now, MonFilter f) m = on_filter_changed km now f m"
| "monitor_step km clock (now, MonFlip i) m = m\<lparr>mo_ranks := flip_panel i (mo_ranks m)\<rparr>"
| "monitor_step km clock (now, MonRankTimer) m = refresh_rankings km now m"
| "monitor_step km clock (now, MonTick) m = tick_elapsed now m"

text \<open>All five panels highlight the node that is selected, and no row of another node.\<close>

definition panel_ok :: "node_id option \<Rightarrow> ranking \<Rightarrow> bool" where
  "panel_ok sel p \<longleftrightarrow> ranking_wf p \<and> rg_selected p = sel"

definition panels_ok :: "node_id option \<Rightarrow> rank_panels \<Rightarrow> bool" where
  "panels_ok sel r \<longleftrightarrow> panel_ok sel (rp_last_heard r) \<and> panel_ok sel (rp_most_pkts r) \<and> panel_ok sel (rp_nearby r)
     \<and> panel_ok sel (rp_signal r) \<and> panel_ok sel (rp_msgs r)"

lemma panel_ok_select: "panel_ok sel p \<Longrightarrow> panel_ok num (set_selected_node num p)"
  by (simp add: panel_ok_def ranking_wf_select) (simp add: set_selected_node_def)

lemma panel_ok_update: "panel_ok sel p \<Longrightarrow> panel_ok sel (update_rows items p)"
  by (simp add: panel_ok_def ranking_wf_update) (simp add: update_rows_def Let_def)

lemma panel_ok_flip: "panel_ok sel p \<Longrightarrow> panel_ok sel (flip_ranking p)"
  by (simp add: panel_ok_def ranking_wf_flip) (simp add: flip_ranking_def Let_def)

lemmas panels_simps = panels_ok_def panel_ok_select panel_ok_update panel_ok_flip

lemma card_value_keeps [simp]:
  "mo_ranks (card_value c v m) = mo_ranks m" "mo_selected (card_value c v m) = mo_selected m"
  "mo_recent (card_value c v m) = mo_recent m" "mo_log (card_value c v m) = mo_log m"
  "mo_session_pkts (card_value c v m) = mo_session_pkts m" "mo_header (card_value c v m) = mo_header m"
  by (simp_all add: card_value_def)

lemma refresh_keeps [simp]:
  "mo_selected (refresh_rankings km now m) = mo_selected m" "mo_recent (refresh_rankings km now m) = mo_recent m"
  "mo_log (refresh_rankings km now m) = mo_log m" "mo_session_pkts (refresh_rankings km now m) = mo_session_pkts m"
  "mo_header (refresh_rankings km now m) = mo_header m" "mo_ranks (refresh_rankings km now m) = refresh_ranks km now m"
  by (simp_all add: refresh_rankings_def refresh_cards_def Let_def)

lemma refresh_ranks_ok: "panels_ok sel (mo_ranks m) \<Longrightarrow> panels_ok sel (refresh_ranks km now m)"
  by (simp add: refresh_ranks_def Let_def panels_simps)

lemma each_panel_ok: "panels_ok sel r \<Longrightarrow> panels_ok num (each_panel (set_selected_node num) r)"
  by (auto simp: each_panel_def panels_ok_def panel_ok_select)

lemma flip_panel_ok: "panels_ok sel r \<Longrightarrow> panels_ok sel (flip_panel i r)"
  by (simp add: flip_panel_def panels_simps)

lemma monitor_selected_ok: "panels_ok sel (mo_ranks m) \<Longrightarrow> panels_ok num (mo_ranks (monitor_selected num m)) \<and> mo_selected (monitor_selected num m) = num"
  by (simp add: monitor_selected_def each_panel_ok)

definition monitor_wf :: "monitor_page \<Rightarrow> bool" where
  "monitor_wf m \<longleftrightarrow> panels_ok (mo_selected m) (mo_ranks m)"

lemma monitor_wf_step: "monitor_wf m \<Longrightarrow> monitor_wf (monitor_step km clock e m)"
proof -
  assume wf: "monitor_wf m"
  obtain now ev where e: "e = (now, ev)" by fastforce
  have sel: "panels_ok (mo_selected m) (mo_ranks m') \<Longrightarrow> monitor_wf (monitor_selected num m')" for num m'
    using monitor_selected_ok [of "mo_selected m" m' num] by (simp add: monitor_wf_def)
  show ?thesis
  proof (cases ev)
    case (MonSelect num)
    then show ?thesis using wf sel by (simp add: e on_ranking_node_selected_def monitor_wf_def Let_def split: option.split)
  next
    case (MonFocus num)
    then show ?thesis using wf sel
      by (simp add: e focus_node_on_map_def on_ranking_node_selected_def monitor_wf_def Let_def split: option.split)
  next
    case MonClear
    then show ?thesis using wf sel by (simp add: e clear_map_def monitor_wf_def)
  next
    case (MonFilter f)
    then show ?thesis using wf refresh_ranks_ok [of "mo_selected m" "m\<lparr>mo_filter := f\<rparr>"]
      by (simp add: e on_filter_changed_def monitor_wf_def)
  qed (use wf in \<open>simp_all add: e monitor_wf_def monitor_connection_def on_packet_ingested_def monitor_node_updated_def
      on_stats_updated_def on_local_telemetry_def monitor_local_node_def monitor_radio_config_def monitor_channels_def
      on_position_updated_def fit_map_def tick_elapsed_def refresh_ranks_ok flip_panel_ok Let_def split: option.split\<close>)
qed

lemma monitor_wf_new: "monitor_wf (monitor_new webengine)"
  by (simp add: monitor_wf_def monitor_new_def panels_ok_def panel_ok_def rank_panels_new_def ranking_wf_def ranking_new_def)

lemma monitor_wf_run: "monitor_wf (fold (monitor_step km clock) evs (monitor_new webengine))"
proof (induction evs rule: rev_induct)
  case (snoc e evs)
  then show ?case by (simp add: monitor_wf_step)
qed (simp add: monitor_wf_new)

definition panel_list :: "rank_panels \<Rightarrow> ranking list" where
  "panel_list r = [rp_last_heard r, rp_most_pkts r, rp_nearby r, rp_signal r, rp_msgs r]"

text \<open>After any run of the page, a row on screen in any of the five ranking panels is highlighted exactly if
  it stands for the selected node, and clicking a row on screen announces the node it stands for.\<close>
lemma monitor_highlights_selected:
  "\<forall>panel \<in> set (panel_list (mo_ranks (fold (monitor_step km clock) evs (monitor_new webengine)))).
     \<forall>i < length (rg_rows panel). \<exists>num.
       click_row i panel = Some num \<and>
       (rk_visible (rg_rows panel ! i) \<longrightarrow>
          (rk_selected (rg_rows panel ! i)
             \<longleftrightarrow> Some num = mo_selected (fold (monitor_step km clock) evs (monitor_new webengine))))"
proof -
  let ?m = "fold (monitor_step km clock) evs (monitor_new webengine)"
  have "panel_ok (mo_selected ?m) panel" if "panel \<in> set (panel_list (mo_ranks ?m))" for panel
    using monitor_wf_run that by (auto simp: monitor_wf_def panels_ok_def panel_list_def)
  moreover have "\<exists>num. click_row i panel = Some num \<and>
      (rk_visible (rg_rows panel ! i) \<longrightarrow> (rk_selected (rg_rows panel ! i) \<longleftrightarrow> Some num = sel))"
    if "panel_ok sel panel" "i < length (rg_rows panel)" for panel i sel
  proof -
    have "rg_rows panel ! i \<in> set (rg_rows panel)" using that(2) by simp
    with that show ?thesis by (auto simp: panel_ok_def ranking_wf_def click_row_def)
  qed
  ultimately show ?thesis by blast
qed

definition heard_packet :: "instant \<Rightarrow> node_id \<Rightarrow> int \<Rightarrow> network_packet" where
  "heard_packet now sender port = \<lparr>pk_session_id = [], pk_observed_at = now, pk_rx_time = None, pk_sender_num = Some sender,
     pk_sender_id = None, pk_destination_num = None, pk_packet_id = None, pk_channel_index = None, pk_portnum = Some port,
     pk_portnum_name = [], pk_text = None, pk_payload_size = None, pk_rx_snr = None, pk_rx_rssi = None, pk_hop_start = None,
     pk_hop_limit = None, pk_hops_used = None, pk_via_mqtt = None, pk_transport_mechanism = None, pk_pki_encrypted = None,
     pk_want_ack = None, pk_priority = None, pk_raw_metadata_json = None\<rparr>"

section \<open>What the panels count\<close>

text \<open>C27: the one pass over the packets gives what separate passes would: per sender the number of its packets
  and of its texts and the best signal of its direct packets, and the signal readings of all direct packets, in
  order.\<close>
theorem one_pass_statistics:
  "map_of (sx_counts (sender_stats_of pkts)) num = positive (length (packets_from num pkts))
   \<and> map_of (sx_msgs (sender_stats_of pkts)) num = positive (length (texts_from num pkts))
   \<and> map_of (sx_best_snr (sender_stats_of pkts)) num = best_reading (direct_readings pk_rx_snr (packets_from num pkts))
   \<and> sx_snrs (sender_stats_of pkts) = direct_readings pk_rx_snr pkts
   \<and> sx_rssis (sender_stats_of pkts) = direct_readings pk_rx_rssi pkts"
  using stats_counts stats_msgs stats_best stats_readings by simp

lemma refresh_dist:
  "dp_breakdown (mo_dist (refresh_rankings km now m)) = breakdown_panel (scope_packets now (mo_filter m) (mo_recent m))"
  "dp_channels (mo_dist (refresh_rankings km now m))
     = channels_panel (scope_packets now (mo_filter m) (mo_recent m)) (mo_channel_names m)"
  "mo_hops (refresh_rankings km now m)
     = \<lparr>hp_counts = hop_counts_panel (scope_packets now (mo_filter m) (mo_recent m)),
        hp_pct = percent_hops_panel (scope_packets now (mo_filter m) (mo_recent m))\<rparr>"
  by (simp_all add: refresh_rankings_def Let_def)

lemma breakdown_row_count:
  "(l, pct, n) \<in> set (breakdown_panel ps) \<longleftrightarrow>
     l \<in> set BREAKDOWN_ROWS \<and> n = length (filter (\<lambda>p. breakdown_label p = l) ps)
     \<and> pct = n * 100 div (if ps = [] then 1 else length ps)"
  by (auto simp: breakdown_panel_def fixed_bars_def counts_of_lookup counts_total_of)

lemma breakdown_total: "sum_list (map (snd \<circ> snd) (breakdown_panel ps)) = length ps"
  unfolding breakdown_panel_def
  by (rule fixed_bars_complete [OF breakdown_rows_distinct]) (simp add: breakdown_label_row)

lemma channels_total: "sum_list (map (snd \<circ> snd \<circ> snd) (channels_panel ps names)) = length ps"
proof -
  have "sum_list (map (snd \<circ> snd \<circ> snd) (channels_panel ps names)) = sum_list (map snd (py_sorted snd True (counts_of channel_of ps)))"
    by (simp add: channels_panel_def Let_def comp_def case_prod_beta)
  also have "\<dots> = sum_list (map snd (counts_of channel_of ps))"
    by (simp flip: sum_mset_sum_list add: py_sorted_def)
  also have "\<dots> = length ps" by (rule counts_of_total)
  finally show ?thesis .
qed

lemma percent_hops_total: "sum_list (map (snd \<circ> snd) (percent_hops_panel ps)) = length ps"
proof -
  have "map (snd \<circ> snd) (percent_hops_panel ps) = map (snd \<circ> snd) (fixed_bars HOP_BUCKETS (counts_of hop_bucket ps))"
    by (simp add: percent_hops_panel_def hop_bar_def comp_def case_prod_beta)
  moreover have "sum_list (map (snd \<circ> snd) (fixed_bars HOP_BUCKETS (counts_of hop_bucket ps))) = length ps"
    by (rule fixed_bars_complete [OF hop_buckets_distinct]) (simp add: hop_bucket_row)
  ultimately show ?thesis by (simp only:)
qed

text \<open>C28: with the type filter on All, the packet breakdown, the hop efficiency and the channel panel each count
  every packet of the scope once, and a row of the breakdown counts exactly the packets that stay in scope when
  the user picks that row's name in the type filter.\<close>
theorem panels_agree_with_filter:
  assumes "af_type (mo_filter m) = ''All''"
    and "(l, pct, n) \<in> set (dp_breakdown (mo_dist (refresh_rankings km now m)))"
  shows "length (scope_packets now ((mo_filter m)\<lparr>af_type := l\<rparr>) (mo_recent m)) = n \<and> l \<in> set PKT_OPTIONS \<and> pct \<le> 100
    \<and> sum_list (map (snd \<circ> snd) (dp_breakdown (mo_dist (refresh_rankings km now m))))
        = length (scope_packets now (mo_filter m) (mo_recent m))
    \<and> sum_list (map (snd \<circ> snd) (hp_pct (mo_hops (refresh_rankings km now m))))
        = length (scope_packets now (mo_filter m) (mo_recent m))
    \<and> sum_list (map (snd \<circ> snd \<circ> snd) (dp_channels (mo_dist (refresh_rankings km now m))))
        = length (scope_packets now (mo_filter m) (mo_recent m))"
proof -
  have all: "(mo_filter m)\<lparr>af_type := ''All''\<rparr> = mo_filter m" using assms(1) by simp
  from assms(2) have row: "l \<in> set BREAKDOWN_ROWS"
    "n = length (filter (\<lambda>p. breakdown_label p = l) (scope_packets now (mo_filter m) (mo_recent m)))"
    by (simp_all add: refresh_dist breakdown_row_count)
  from assms(2) have "pct \<le> 100" unfolding refresh_dist breakdown_panel_def by (rule fixed_bars_share)
  with row scope_packets_All [OF row(1), of now "mo_filter m" "mo_recent m"] show ?thesis
    by (simp add: all refresh_dist breakdown_total percent_hops_total channels_total type_options_are_breakdown_rows)
qed

lemma panels_agree_with_filter_witness:
  "length (scope_packets 4 \<lparr>af_age_s = Some 3600, af_source = ''All observed'', af_type = ''Position''\<rparr>
     [heard_packet 0 5 1, heard_packet 1 6 3, heard_packet 2 6 3]) = 2"
proof -
  let ?ps = "[heard_packet 0 5 1, heard_packet 1 6 3, heard_packet 2 6 3]"
  let ?m = "(monitor_new False)\<lparr>mo_recent := ?ps\<rparr>"
  have f: "mo_filter ?m = \<lparr>af_age_s = Some 3600, af_source = ''All observed'', af_type = ''All''\<rparr>"
    by (simp add: monitor_new_def current_filter_def filter_bar_new_def AGE_OPTIONS_def SRC_OPTIONS_def PKT_OPTIONS_def)
  have r: "mo_recent ?m = ?ps" by simp
  have scope: "scope_packets 4 (mo_filter ?m) ?ps = ?ps" unfolding f by code_simp
  have labels: "map breakdown_label ?ps = [''Text'', ''Position'', ''Position'']" by code_simp
  have row: "(''Position'', 66, 2) \<in> set (dp_breakdown (mo_dist (refresh_rankings (\<lambda>_ _ _ _. 0) 4 ?m)))"
    unfolding refresh_dist r scope breakdown_row_count using labels by (simp add: BREAKDOWN_ROWS_def)
  from f have "af_type (mo_filter ?m) = ''All''" by simp
  from panels_agree_with_filter [OF this row] show ?thesis by (simp add: f r)
qed

section \<open>What is kept\<close>

fun heard_while_live :: "bool \<Rightarrow> (instant \<times> monitor_event) list \<Rightarrow> network_packet list" where
  "heard_while_live paused [] = []"
| "heard_while_live paused ((now, e) # es) =
     (case e of
        MonPacket p \<Rightarrow> (if paused then heard_while_live paused es else p # heard_while_live paused es)
      | MonPause \<Rightarrow> heard_while_live (\<not> paused) es
      | _ \<Rightarrow> heard_while_live paused es)"


definition kept_ok :: "network_packet list \<Rightarrow> monitor_page \<Rightarrow> bool" where
  "kept_ok ps m \<longleftrightarrow> mo_session_pkts m = length ps \<and> mo_recent m = last_n MAX_RECENT ps \<and> mo_log m = last_n MAX_LOG_ROWS ps"

lemma kept_new: "kept_ok [] (monitor_new webengine)"
  by (simp add: kept_ok_def monitor_new_def)

lemma step_keeps:
  assumes "e \<noteq> MonPause" "\<forall>p. e \<noteq> MonPacket p"
  shows "mo_session_pkts (monitor_step km clock (now, e) m) = mo_session_pkts m
    \<and> mo_recent (monitor_step km clock (now, e) m) = mo_recent m \<and> mo_log (monitor_step km clock (now, e) m) = mo_log m
    \<and> dh_paused (mo_header (monitor_step km clock (now, e) m)) = dh_paused (mo_header m)"
  using assms
  by (cases e)
     (simp_all add: monitor_connection_def monitor_node_updated_def on_stats_updated_def on_local_telemetry_def
        monitor_local_node_def monitor_radio_config_def monitor_channels_def on_position_updated_def fit_map_def
        tick_elapsed_def on_filter_changed_def on_ranking_node_selected_def focus_node_on_map_def clear_map_def
        monitor_selected_def header_connection_def header_radio_config_def header_env_def Let_def split: option.split)

lemma packet_kept:
  "kept_ok ps m \<Longrightarrow> \<not> dh_paused (mo_header m) \<Longrightarrow> kept_ok (ps @ [p]) (on_packet_ingested clock now p m)"
  by (simp add: kept_ok_def on_packet_ingested_def append_packet_ring ring_append_last_n)

lemma header_pause_kept:
  "dh_paused (mark_updated clock now h) = dh_paused h" "dh_paused (toggle_pause h) = (\<not> dh_paused h)"
  by (simp_all add: mark_updated_def update_clock_def toggle_pause_def set_paused_def split: option.split)

lemma run_keeps:
  "kept_ok ps m \<Longrightarrow> kept_ok (ps @ heard_while_live (dh_paused (mo_header m)) evs) (fold (monitor_step km clock) evs m)"
proof (induction evs arbitrary: ps m)
  case (Cons e evs)
  obtain now ev where e: "e = (now, ev)" by fastforce
  show ?case
  proof (cases "ev = MonPause")
    case True
    have "kept_ok ps (monitor_step km clock e m)" using Cons.prems by (simp add: e True kept_ok_def)
    from Cons.IH [OF this] show ?thesis by (simp add: e True header_pause_kept)
  next
    case False
    show ?thesis
    proof (cases "\<exists>p. ev = MonPacket p")
      case True
      then obtain p where ev: "ev = MonPacket p" by blast
      show ?thesis
      proof (cases "dh_paused (mo_header m)")
        case True
        then show ?thesis using Cons.IH [OF Cons.prems] by (simp add: e ev on_packet_ingested_def)
      next
        case live: False
        have h: "dh_paused (mo_header (on_packet_ingested clock now p m)) = dh_paused (mo_header m)"
          using live by (simp add: on_packet_ingested_def header_pause_kept)
        from Cons.IH [OF packet_kept [OF Cons.prems live, of p clock now]] live show ?thesis by (simp add: e ev h)
      qed
    next
      case no: False
      then have "kept_ok ps (monitor_step km clock e m)"
        using Cons.prems step_keeps [of ev km clock now m] \<open>ev \<noteq> MonPause\<close> by (simp add: e kept_ok_def)
      moreover have "heard_while_live b (e # evs) = heard_while_live b evs" for b
        using no \<open>ev \<noteq> MonPause\<close> by (cases ev) (simp_all add: e)
      ultimately show ?thesis
        using Cons.IH [of ps "monitor_step km clock e m"] step_keeps [of ev km clock now m] no \<open>ev \<noteq> MonPause\<close>
        by (simp add: e)
    qed
  qed
qed simp

text \<open>The page's counter, its buffer and its log are the packets that came while the capture was live: all of them
  counted, the last 10000 in the buffer and the last 20000 in the log.  What comes while it is paused is lost to
  the page for good, the session's counter included.\<close>

lemma monitor_keeps_live_packets:
  "kept_ok (heard_while_live False evs) (fold (monitor_step km clock) evs (monitor_new webengine))"
proof -
  have "dh_paused (mo_header (monitor_new webengine)) = False" by (simp add: monitor_new_def header_new_def)
  with run_keeps [OF kept_new, of webengine evs km clock] show ?thesis by simp
qed

lemma session_card_misses_paused:
  "mo_session_pkts (fold (monitor_step km clock) [(0, MonPause), (1, MonPacket p), (2, MonPause)] (monitor_new webengine)) = 0"
  using monitor_keeps_live_packets [of "[(0, MonPause), (1, MonPacket p), (2, MonPause)]" km clock webengine]
  by (simp add: kept_ok_def)

section \<open>The Nodes page\<close>

record nodes_page =
  np_rows :: "node_snapshot list"
  np_search :: string
  np_current :: "node_id option"
  np_selected :: "node_id option"
  np_inspector :: node_inspector
  np_count :: string
  np_announced :: "node_id list"

definition nodes_page_new :: nodes_page where
  "nodes_page_new = \<lparr>np_rows = [], np_search = [], np_current = None, np_selected = None, np_inspector = inspector_new,
     np_count = ''0 nodes'', np_announced = []\<rparr>"

text \<open>The proxy shows the rows with the search text in any column, whatever its case.\<close>

definition row_shown :: "instant \<Rightarrow> string \<Rightarrow> node_snapshot \<Rightarrow> bool" where
  "row_shown now search n \<longleftrightarrow> search = [] \<or> list_ex (\<lambda>render. contains (lower search) (lower (render n))) (cell_renderers now)"

definition shown_nodes :: "instant \<Rightarrow> nodes_page \<Rightarrow> node_snapshot list" where
  "shown_nodes now p = filter (row_shown now (np_search p)) (np_rows p)"

definition on_row_changed :: "instant \<Rightarrow> node_snapshot option \<Rightarrow> nodes_page \<Rightarrow> nodes_page" where
  "on_row_changed now node p =
     (case node of
        None \<Rightarrow> p
      | Some n \<Rightarrow> p\<lparr>np_selected := Some (nd_num n), np_inspector := show_node now n (np_inspector p),
                    np_announced := np_announced p @ [nd_num n]\<rparr>)"

text \<open>\<open>setCurrentIndex\<close> reports a change of the current row, and only a change.\<close>

definition set_current :: "instant \<Rightarrow> node_snapshot \<Rightarrow> nodes_page \<Rightarrow> nodes_page" where
  "set_current now n p =
     (if np_current p = Some (nd_num n) then p else on_row_changed now (Some n) (p\<lparr>np_current := Some (nd_num n)\<rparr>))"

definition select_row :: "instant \<Rightarrow> node_id \<Rightarrow> nodes_page \<Rightarrow> nodes_page" where
  "select_row now num p =
     (case row_of num (np_rows p) of
        None \<Rightarrow> p
      | Some row \<Rightarrow> (let n = np_rows p ! row in if \<not> row_shown now (np_search p) n then p else set_current now n p))"

definition count_text :: "instant \<Rightarrow> nodes_page \<Rightarrow> string" where
  "count_text now p = show_nat (length (shown_nodes now p)) @ '' node(s)''"

definition reselect :: "instant \<Rightarrow> nodes_page \<Rightarrow> nodes_page" where
  "reselect now p = (case np_selected p of None \<Rightarrow> p | Some num \<Rightarrow> select_row now num p)"

text \<open>Resetting the model clears the current row without a report.\<close>

definition update_nodes :: "instant \<Rightarrow> instant \<Rightarrow> node_snapshot list \<Rightarrow> nodes_page \<Rightarrow> nodes_page" where
  "update_nodes never now nodes p =
     (let p = p\<lparr>np_rows := table_rows never nodes, np_current := None\<rparr>
      in reselect now (p\<lparr>np_count := count_text now p\<rparr>))"

definition select_node :: "instant \<Rightarrow> node_id \<Rightarrow> nodes_page \<Rightarrow> nodes_page" where
  "select_node now num p = select_row now num (p\<lparr>np_selected := Some num\<rparr>)"

text \<open>When the current row is filtered out, Qt makes another row current, if one is left: \<open>next_row\<close>.\<close>

definition on_search :: "instant \<Rightarrow> string \<Rightarrow> node_snapshot option \<Rightarrow> nodes_page \<Rightarrow> nodes_page" where
  "on_search now search next_row p =
     (let p = p\<lparr>np_search := search\<rparr>;
          p = (case np_current p of
                 None \<Rightarrow> p
               | Some num \<Rightarrow>
                   if num \<in> nd_num ` set (shown_nodes now p) then p
                   else on_row_changed now next_row (p\<lparr>np_current := map_option nd_num next_row\<rparr>))
      in reselect now (p\<lparr>np_count := count_text now p\<rparr>))"

text \<open>The context menu: what each entry makes the window do, with the user's answer to the question about
  removing.\<close>

datatype node_request =
    MessageRequested node_id string
  | ShowOnMapRequested node_id
  | PositionRequested node_id
  | TelemetryRequested node_id
  | TracerouteRequested node_id
  | FavoriteRequested node_id bool
  | RemoveRequested node_id
  | CopyText string

datatype menu_entry =
    EntryMessage | EntryMap | EntryPosition | EntryTelemetry | EntryTraceroute | EntryFavorite | EntryUnfavorite
  | EntryCopyName | EntryCopyId | EntryCopyNumber | EntryRemove bool

fun menu_chosen :: "node_snapshot \<Rightarrow> menu_entry \<Rightarrow> node_request option" where
  "menu_chosen n EntryMessage = Some (MessageRequested (nd_num n) (node_display_name n))"
| "menu_chosen n EntryMap = Some (ShowOnMapRequested (nd_num n))"
| "menu_chosen n EntryPosition = Some (PositionRequested (nd_num n))"
| "menu_chosen n EntryTelemetry = Some (TelemetryRequested (nd_num n))"
| "menu_chosen n EntryTraceroute = Some (TracerouteRequested (nd_num n))"
| "menu_chosen n EntryFavorite = Some (FavoriteRequested (nd_num n) True)"
| "menu_chosen n EntryUnfavorite = Some (FavoriteRequested (nd_num n) False)"
| "menu_chosen n EntryCopyName = Some (CopyText (node_display_name n))"
| "menu_chosen n EntryCopyId = Some (CopyText (or_text (nd_node_id n) (bang_hex8 (nd_num n))))"
| "menu_chosen n EntryCopyNumber = Some (CopyText (show_int (nd_num n)))"
| "menu_chosen n (EntryRemove yes) = (if yes then Some (RemoveRequested (nd_num n)) else None)"

definition on_context_menu :: "instant \<Rightarrow> node_snapshot option \<Rightarrow> menu_entry option \<Rightarrow> nodes_page \<Rightarrow> nodes_page \<times> node_request option" where
  "on_context_menu now here entry p =
     (case here of
        None \<Rightarrow> (p, None)
      | Some n \<Rightarrow> (set_current now n p, case entry of None \<Rightarrow> None | Some e \<Rightarrow> menu_chosen n e))"

lemma set_current_result [simp]:
  "np_rows (set_current now n p) = np_rows p" "np_search (set_current now n p) = np_search p"
  "np_current (set_current now n p) = Some (nd_num n)"
  by (simp_all add: set_current_def on_row_changed_def)

text \<open>A selected node stays selected through refreshes as long as the table holds it, and while its row is shown
  it is the current row.\<close>

lemma select_row_selected: "np_selected p = Some num \<Longrightarrow> np_selected (select_row now num p) = Some num"
proof -
  assume s: "np_selected p = Some num"
  show ?thesis
  proof (cases "row_of num (np_rows p)")
    case (Some row)
    then have "nd_num (np_rows p ! row) = num" by (rule row_of_Some [THEN conjunct2])
    with Some s show ?thesis by (simp add: select_row_def set_current_def on_row_changed_def Let_def)
  qed (simp add: select_row_def s)
qed

lemma update_nodes_keeps_selection:
  assumes "np_selected p = Some num"
  shows "np_selected (update_nodes never now nodes p) = Some num
    \<and> (\<forall>row. row_of num (table_rows never nodes) = Some row \<and> row_shown now (np_search p) (table_rows never nodes ! row)
         \<longrightarrow> np_current (update_nodes never now nodes p) = Some num)"
proof -
  let ?p = "p\<lparr>np_rows := table_rows never nodes, np_current := None\<rparr>"
  let ?q = "?p\<lparr>np_count := count_text now ?p\<rparr>"
  have u: "update_nodes never now nodes p = select_row now num ?q"
    using assms by (simp add: update_nodes_def reselect_def Let_def)
  have "np_selected (select_row now num ?q) = Some num" by (rule select_row_selected) (simp add: assms)
  moreover have "np_current (select_row now num ?q) = Some num"
    if "row_of num (table_rows never nodes) = Some row" "row_shown now (np_search p) (table_rows never nodes ! row)" for row
    using that row_of_Some [OF that(1)] by (simp add: select_row_def Let_def)
  ultimately show ?thesis unfolding u by blast
qed

text \<open>A search that hides the selected node forgets it: Qt's move to another row overwrites the remembered node,
  so clearing the search does not bring it back.\<close>

lemma search_forgets_selection:
  assumes "np_selected p = Some num" "np_current p = Some num" "num \<notin> nd_num ` set (filter (row_shown now search) (np_rows p))"
  shows "np_selected (on_search now search (Some n) p) = Some (nd_num n)"
proof -
  let ?p = "p\<lparr>np_search := search\<rparr>"
  let ?q = "on_row_changed now (Some n) (?p\<lparr>np_current := Some (nd_num n)\<rparr>)"
  let ?r = "?q\<lparr>np_count := count_text now ?q\<rparr>"
  have q: "np_selected ?r = Some (nd_num n)" by (simp add: on_row_changed_def)
  have "on_search now search (Some n) p = select_row now (nd_num n) ?r"
    using assms(2,3) q by (simp add: on_search_def shown_nodes_def reselect_def Let_def)
  with select_row_selected [OF q] show ?thesis by simp
qed

section \<open>The window between them\<close>

text \<open>\<open>nw_known\<close> is what the ingestor's \<open>get_nodes\<close> returns; \<open>nw_dm_nodes\<close> the nodes last handed to the side
  bar.\<close>

record network_window =
  nw_monitor :: monitor_page
  nw_nodes :: nodes_page
  nw_known :: "node_snapshot list"
  nw_dm_nodes :: "node_snapshot list"
  nw_dirty :: bool
  nw_page :: nat
  nw_local :: "node_id option"

definition on_node_snapshot :: "node_snapshot \<Rightarrow> network_window \<Rightarrow> network_window" where
  "on_node_snapshot n w = w\<lparr>nw_monitor := monitor_node_updated n (nw_monitor w), nw_dirty := True\<rparr>"

definition show_known :: "instant \<Rightarrow> instant \<Rightarrow> network_window \<Rightarrow> network_window" where
  "show_known never now w = w\<lparr>nw_nodes := update_nodes never now (nw_known w) (nw_nodes w), nw_dm_nodes := nw_known w\<rparr>"

definition flush_node_updates :: "instant \<Rightarrow> instant \<Rightarrow> network_window \<Rightarrow> network_window" where
  "flush_node_updates never now w = (if \<not> nw_dirty w then w else show_known never now (w\<lparr>nw_dirty := False\<rparr>))"

definition on_nodedb_seeded :: "instant \<Rightarrow> instant \<Rightarrow> network_window \<Rightarrow> network_window" where
  "on_nodedb_seeded never now w = show_known never now w"

definition on_show_node_on_map :: "instant \<Rightarrow> node_id \<Rightarrow> network_window \<Rightarrow> network_window" where
  "on_show_node_on_map now num w =
     (case focus_node_on_map now num (nw_monitor w) of
        (m, announced) \<Rightarrow> w\<lparr>nw_page := 1, nw_monitor := m, nw_nodes := select_node now announced (nw_nodes w)\<rparr>)"

definition on_telemetry :: "telemetry_sample \<Rightarrow> network_window \<Rightarrow> network_window" where
  "on_telemetry t w =
     (if Some (tl_node_num t) = nw_local w
      then w\<lparr>nw_monitor := on_local_telemetry (tl_temperature_c t) (tl_relative_humidity t) (tl_barometric_pressure_hpa t)
                (nw_monitor w)\<rparr>
      else w)"

text \<open>A click on the monitor page selects the node on both pages.\<close>

definition on_monitor_selected :: "instant \<Rightarrow> node_id \<Rightarrow> network_window \<Rightarrow> network_window" where
  "on_monitor_selected now num w =
     (case on_ranking_node_selected now num (nw_monitor w) of
        (m, announced) \<Rightarrow> w\<lparr>nw_monitor := m, nw_nodes := select_node now announced (nw_nodes w)\<rparr>)"

lemma pages_select_together:
  "mo_selected (nw_monitor (on_monitor_selected now num w)) = Some num
   \<and> np_selected (nw_nodes (on_monitor_selected now num w)) = Some num"
  by (simp add: on_monitor_selected_def on_ranking_node_selected_def monitor_selected_def select_node_def
      select_row_selected Let_def)

text \<open>After a flush the table and the side bar show what the ingestor knows.\<close>

lemma rows_select_row [simp]: "np_rows (select_row now num p) = np_rows p"
  by (simp add: select_row_def Let_def split: option.split)

lemma rows_update_nodes [simp]: "np_rows (update_nodes never now nodes p) = table_rows never nodes"
  by (simp add: update_nodes_def reselect_def Let_def split: option.split)

lemma flush_shows_known:
  "nw_dirty w \<Longrightarrow> np_rows (nw_nodes (flush_node_updates never now w)) = table_rows never (nw_known w)
     \<and> nw_dm_nodes (flush_node_updates never now w) = nw_known w \<and> \<not> nw_dirty (flush_node_updates never now w)"
  by (simp add: flush_node_updates_def show_known_def)

end
