(* ===== verification/Connection.thy ===== *)
theory Connection
  imports Panels
begin

text \<open>
  The connection bar (\<open>ui/widgets/connection_bar.py\<close>) and the window's handlers around it in
  \<open>ui/main_window.py\<close>: choosing a transport and a device, restoring the saved profile, the state shown, and
  what is asked of the supervisor and the radio's controller.  Both device boxes have a placeholder text, so
  that adding entries selects none.
\<close>

section \<open>The bar\<close>

record device_combo =
  dc_items :: "(string \<times> string) list"
  dc_index :: "nat option"

definition device_combo_new :: device_combo where
  "device_combo_new = \<lparr>dc_items = [], dc_index = None\<rparr>"

definition combo_address :: "device_combo \<Rightarrow> string" where
  "combo_address c = (case dc_index c of None \<Rightarrow> [] | Some i \<Rightarrow> if i < length (dc_items c) then snd (dc_items c ! i) else [])"

fun find_address :: "string \<Rightarrow> (string \<times> string) list \<Rightarrow> nat option" where
  "find_address a [] = None"
| "find_address a (x # xs) = (if snd x = a then Some 0 else map_option Suc (find_address a xs))"

record connection_bar =
  cn_state :: connection_state
  cn_transport :: nat
  cn_shown :: nat
  cn_ble :: device_combo
  cn_preferred :: string
  cn_serial :: device_combo
  cn_host :: string
  cn_port :: int
  cn_dot :: "string \<times> string"
  cn_label :: string
  cn_tip :: string
  cn_device :: string
  cn_can_connect :: bool
  cn_can_disconnect :: bool

datatype bar_signal =
    ScanAsked
  | ConnectBleAsked string
  | ConnectTcpAsked string int
  | ConnectSerialAsked string
  | PortsAsked
  | DisconnectAsked

definition dot_full :: string where "dot_full = [CHR 0xE2, CHR 0x97, CHR 0x8F]"
definition dot_ring :: string where "dot_ring = [CHR 0xE2, CHR 0x97, CHR 0x89]"
definition dot_dashed :: string where "dot_dashed = [CHR 0xE2, CHR 0x97, CHR 0x8C]"
definition cross :: string where "cross = [CHR 0xE2, CHR 0x9C, CHR 0x95]"

fun state_symbol :: "connection_state \<Rightarrow> string \<times> string" where
  "state_symbol DISCONNECTED = (dot_full, ''disconnected'')"
| "state_symbol SCANNING = (dot_ring, ''scanning'')"
| "state_symbol CONNECTING = (dot_dashed, ''connecting'')"
| "state_symbol SYNCING = (dot_dashed, ''connecting'')"
| "state_symbol CONNECTED = (dot_full, ''connected'')"
| "state_symbol RECONNECTING = (dot_dashed, ''connecting'')"
| "state_symbol DISCONNECTING = (dot_dashed, ''connecting'')"
| "state_symbol ERROR = (cross, ''error'')"

fun state_label :: "connection_state \<Rightarrow> string" where
  "state_label DISCONNECTED = ''Disconnected''"
| "state_label SCANNING = ''Scanning'' @ ellipsis"
| "state_label CONNECTING = ''Connecting'' @ ellipsis"
| "state_label SYNCING = ''Downloading config'' @ ellipsis"
| "state_label CONNECTED = ''Connected''"
| "state_label RECONNECTING = ''Reconnecting'' @ ellipsis"
| "state_label DISCONNECTING = ''Disconnecting'' @ ellipsis"
| "state_label ERROR = ''Connection failed''"

definition bar_busy :: "connection_state \<Rightarrow> bool" where
  "bar_busy s \<longleftrightarrow> s \<in> {SCANNING, CONNECTING, SYNCING, RECONNECTING, DISCONNECTING}"

definition update_controls :: "connection_bar \<Rightarrow> connection_bar" where
  "update_controls b =
     (let s = cn_state b; connected = (s = CONNECTED)
      in b\<lparr>cn_can_connect := \<not> bar_busy s \<and> \<not> connected, cn_can_disconnect := connected \<or> bar_busy s,
           cn_device := (if connected then cn_device b else [])\<rparr>)"

definition connection_bar_new :: connection_bar where
  "connection_bar_new = update_controls
     \<lparr>cn_state = DISCONNECTED, cn_transport = 0, cn_shown = 0, cn_ble = device_combo_new, cn_preferred = [],
      cn_serial = device_combo_new, cn_host = [], cn_port = 4403, cn_dot = (dot_full, ''disconnected''),
      cn_label = ''Disconnected'', cn_tip = [], cn_device = [], cn_can_connect = True, cn_can_disconnect = False\<rparr>"

text \<open>Making an entry of the Bluetooth box current remembers its address.\<close>

definition ble_choose :: "nat option \<Rightarrow> connection_bar \<Rightarrow> connection_bar" where
  "ble_choose i b =
     (if dc_index (cn_ble b) = i then b
      else let b = b\<lparr>cn_ble := (cn_ble b)\<lparr>dc_index := i\<rparr>\<rparr>; a = combo_address (cn_ble b)
           in if a \<noteq> [] then b\<lparr>cn_preferred := a\<rparr> else b)"

definition ble_items :: "(string \<times> string) list \<Rightarrow> connection_bar \<Rightarrow> connection_bar" where
  "ble_items items b = b\<lparr>cn_ble := (cn_ble b)\<lparr>dc_items := items\<rparr>\<rparr>"

definition select_ble_address :: "string \<Rightarrow> bool \<Rightarrow> connection_bar \<Rightarrow> connection_bar \<times> bool" where
  "select_ble_address address add_if_missing b =
     (case find_address address (dc_items (cn_ble b)) of
        Some i \<Rightarrow> ((ble_choose (Some i) b)\<lparr>cn_preferred := address\<rparr>, True)
      | None \<Rightarrow>
          if \<not> add_if_missing then (b, False)
          else let items = dc_items (cn_ble b) @ [(''Last used  ('' @ address @ '')'', address)]
               in ((ble_choose (Some (length items - 1)) (ble_items items b))\<lparr>cn_preferred := address\<rparr>, True))"

definition set_ble_devices :: "ble_device_summary list \<Rightarrow> connection_bar \<Rightarrow> connection_bar" where
  "set_ble_devices devices b =
     (let preferred = cn_preferred b;
          b = ble_items (map (\<lambda>d. (bd_name d @ ''  ('' @ bd_address d @ '')'', bd_address d)) devices) (ble_choose None b)
      in if preferred \<noteq> [] \<and> find_address preferred (dc_items (cn_ble b)) \<noteq> None
         then fst (select_ble_address preferred False b)
         else if devices \<noteq> [] then ble_choose (Some 0) b else b)"

definition set_serial_ports :: "serial_port_summary list \<Rightarrow> connection_bar \<Rightarrow> connection_bar" where
  "set_serial_ports ports b =
     b\<lparr>cn_serial := \<lparr>dc_items = map (\<lambda>p. (sp_device p @ ''  ('' @ sp_description p @ '')'', sp_device p)) ports,
                    dc_index = (if ports \<noteq> [] then Some 0 else None)\<rparr>\<rparr>"

definition current_transport :: "connection_bar \<Rightarrow> string" where
  "current_transport b = [''ble'', ''tcp'', ''serial''] ! cn_transport b"

definition connecting_expectation :: "connection_bar \<Rightarrow> string" where
  "connecting_expectation b =
     (if current_transport b = ''ble'' then ''discovery and pairing can take up to a minute'' else [])"

definition connecting_label :: "connection_state \<Rightarrow> string \<Rightarrow> connection_bar \<Rightarrow> string" where
  "connecting_label s label b =
     (if (s = CONNECTING \<or> s = RECONNECTING) \<and> connecting_expectation b \<noteq> [] then label @ '' (Bluetooth: slow)'' else label)"

definition bar_set_state :: "connection_state \<Rightarrow> string \<Rightarrow> connection_bar \<Rightarrow> connection_bar" where
  "bar_set_state s detail b =
     (let b = b\<lparr>cn_state := s\<rparr>; label = state_label s
      in update_controls (b\<lparr>cn_dot := state_symbol s, cn_label := connecting_label s label b,
                            cn_tip := (if detail \<noteq> [] then detail else label)\<rparr>))"

definition set_device_name :: "string \<Rightarrow> connection_bar \<Rightarrow> connection_bar" where
  "set_device_name name b = b\<lparr>cn_device := (if name \<noteq> [] then ''  '' @ name else [])\<rparr>"

definition bar_transport_changed :: "nat \<Rightarrow> connection_bar \<Rightarrow> connection_bar \<times> bar_signal list" where
  "bar_transport_changed i b =
     (b\<lparr>cn_shown := i\<rparr>,
      (if i = 2 \<and> dc_items (cn_serial b) = [] then [PortsAsked] else [])
      @ (if i = 0 \<and> dc_items (cn_ble b) = [] then [ScanAsked] else []))"

definition choose_transport :: "nat \<Rightarrow> connection_bar \<Rightarrow> connection_bar \<times> bar_signal list" where
  "choose_transport i b =
     (if i = cn_transport b then (b, []) else bar_transport_changed i (b\<lparr>cn_transport := i\<rparr>))"

definition transport_index :: "string \<Rightarrow> nat option" where
  "transport_index t = map_of [(''ble'', 0), (''tcp'', 1), (''serial'', 2)] t"

text \<open>The port box takes values from 1 to 65535.\<close>

definition bar_restore_profile :: "connection_profile \<Rightarrow> connection_bar \<Rightarrow> connection_bar \<times> bar_signal list" where
  "bar_restore_profile p b =
     (let b = (if cp_ble_address p \<noteq> [] then fst (select_ble_address (cp_ble_address p) True b) else b);
          (b, sigs) = (case transport_index (cp_transport p) of
                         None \<Rightarrow> (b, [])
                       | Some i \<Rightarrow>
                           (case choose_transport i b of
                              (b, s1) \<Rightarrow> (case bar_transport_changed i b of (b, s2) \<Rightarrow> (b, s1 @ s2))));
          b = (if cp_tcp_host p \<noteq> [] then b\<lparr>cn_host := cp_tcp_host p\<rparr> else b);
          b = (if cp_tcp_port p \<noteq> 0 \<and> cp_tcp_port p \<noteq> 4403 then b\<lparr>cn_port := max 1 (min 65535 (cp_tcp_port p))\<rparr> else b);
          b = (if cp_serial_port p = [] then b
               else case find_address (cp_serial_port p) (dc_items (cn_serial b)) of
                      Some i \<Rightarrow> b\<lparr>cn_serial := (cn_serial b)\<lparr>dc_index := Some i\<rparr>\<rparr>
                    | None \<Rightarrow> b\<lparr>cn_serial := \<lparr>dc_items = dc_items (cn_serial b) @ [(cp_serial_port p, cp_serial_port p)],
                                              dc_index = Some (length (dc_items (cn_serial b)))\<rparr>\<rparr>)
      in (b, sigs))"

definition on_connect :: "connection_bar \<Rightarrow> bar_signal list" where
  "on_connect b =
     (if cn_transport b = 0 then
        (let a = combo_address (cn_ble b) in if a = [] then [ScanAsked] else [ConnectBleAsked a])
      else if cn_transport b = 1 then
        (let h = strip (cn_host b) in if h \<noteq> [] then [ConnectTcpAsked h (cn_port b)] else [])
      else (let p = combo_address (cn_serial b) in if p \<noteq> [] then [ConnectSerialAsked p] else []))"

section \<open>The window\<close>

text \<open>What the handlers ask for, in order: of the supervisor, of the radio's controller, of the user.\<close>

datatype window_call =
    SetProfile connection_profile
  | CancelSupervisor
  | CallScanBle
  | CallListPorts
  | CallConnectBle string
  | CallConnectTcp string int
  | CallConnectSerial string
  | CallDisconnect
  | PairingDialog user_facing_error
  | WarningBox string string
  | SaveSession network_session

record connection_window =
  xw_bar :: connection_bar
  xw_header :: dashboard_header
  xw_status :: string
  xw_connected :: bool
  xw_local :: "int option"
  xw_profile :: "connection_profile option"
  xw_session :: network_session
  xw_calls :: "window_call list"

definition ask :: "window_call list \<Rightarrow> connection_window \<Rightarrow> connection_window" where
  "ask cs w = w\<lparr>xw_calls := xw_calls w @ cs\<rparr>"

definition profile_for :: "string \<Rightarrow> connection_profile" where
  "profile_for t = \<lparr>cp_transport = t, cp_ble_address = [], cp_tcp_host = [], cp_tcp_port = 4403, cp_serial_port = []\<rparr>"

fun on_bar_signal :: "bar_signal \<Rightarrow> connection_window \<Rightarrow> connection_window" where
  "on_bar_signal ScanAsked w = ask [CallScanBle] w"
| "on_bar_signal PortsAsked w = ask [CallListPorts] w"
| "on_bar_signal (ConnectBleAsked a) w =
     (let p = (profile_for ''ble'')\<lparr>cp_ble_address := a\<rparr>
      in ask [SetProfile p, CallConnectBle a] (w\<lparr>xw_profile := Some p\<rparr>))"
| "on_bar_signal (ConnectTcpAsked h port) w =
     (let p = (profile_for ''tcp'')\<lparr>cp_tcp_host := h, cp_tcp_port := port\<rparr>
      in ask [SetProfile p, CallConnectTcp h port] (w\<lparr>xw_profile := Some p\<rparr>))"
| "on_bar_signal (ConnectSerialAsked d) w =
     (let p = (profile_for ''serial'')\<lparr>cp_serial_port := d\<rparr>
      in ask [SetProfile p, CallConnectSerial d] (w\<lparr>xw_profile := Some p\<rparr>))"
| "on_bar_signal DisconnectAsked w = ask [CancelSupervisor, CallDisconnect] w"

definition press_connect :: "connection_window \<Rightarrow> connection_window" where
  "press_connect w = (if cn_can_connect (xw_bar w) then fold on_bar_signal (on_connect (xw_bar w)) w else w)"

definition press_disconnect :: "connection_window \<Rightarrow> connection_window" where
  "press_disconnect w = (if cn_can_disconnect (xw_bar w) then on_bar_signal DisconnectAsked w else w)"

definition status_message :: "connection_bar \<Rightarrow> connection_state \<Rightarrow> string \<Rightarrow> string" where
  "status_message b s detail =
     (let message = (case s of
          DISCONNECTED \<Rightarrow> ''Disconnected''
        | SCANNING \<Rightarrow> ''Scanning for BLE devices'' @ ellipsis
        | CONNECTING \<Rightarrow> ''Connecting to '' @ detail @ ellipsis
        | SYNCING \<Rightarrow> ''Downloading radio configuration'' @ ellipsis
        | CONNECTED \<Rightarrow> ''Connected '' @ emdash @ '' '' @ detail
        | DISCONNECTING \<Rightarrow> ''Disconnecting'' @ ellipsis
        | ERROR \<Rightarrow> ''Error: '' @ detail
        | RECONNECTING \<Rightarrow> ''reconnecting'')
      in if s = CONNECTING \<and> connecting_expectation b \<noteq> []
         then message @ ''  ('' @ connecting_expectation b @ '')'' else message)"

definition on_connection_state :: "connection_state \<Rightarrow> string \<Rightarrow> connection_window \<Rightarrow> connection_window" where
  "on_connection_state s detail w =
     (let b = bar_set_state s detail (xw_bar w)
      in w\<lparr>xw_bar := b, xw_header := header_connection s [] (xw_header w), xw_status := status_message b s detail,
           xw_connected := (s = CONNECTED)\<rparr>)"

definition device_name :: "device_summary \<Rightarrow> string" where
  "device_name d = or_text (ds_long_name d) (or_text (ds_short_name d) (or_text (ds_node_id d) ''Radio''))"

definition on_connected :: "device_summary \<Rightarrow> connection_window \<Rightarrow> connection_window" where
  "on_connected d w =
     (let name = device_name d;
          w = w\<lparr>xw_bar := set_device_name name (xw_bar w), xw_header := header_connection CONNECTED name (xw_header w),
                xw_local := ds_node_num d, xw_status := ''Connected to '' @ name\<rparr>
      in case xw_profile w of
           None \<Rightarrow> w
         | Some p \<Rightarrow>
             (let s = (xw_session w)\<lparr>se_transport := cp_transport p, se_connection_target := profile_connection_target p\<rparr>
              in ask [SaveSession s] (w\<lparr>xw_session := s\<rparr>)))"

definition on_link_lost :: "string \<Rightarrow> connection_window \<Rightarrow> connection_window" where
  "on_link_lost reason w =
     w\<lparr>xw_bar := set_device_name [] (xw_bar w), xw_header := header_env None None None (xw_header w), xw_local := None,
       xw_status := ''Disconnected '' @ emdash @ '' '' @ reason\<rparr>"

definition warning_sign :: string where "warning_sign = [CHR 0xE2, CHR 0x9A, CHR 0xA0]"

definition on_error :: "user_facing_error \<Rightarrow> connection_window \<Rightarrow> connection_window" where
  "on_error e w =
     (let w = w\<lparr>xw_status := warning_sign @ ''  '' @ ue_title e @ '': '' @ ue_message e\<rparr>
      in if ue_code e = BLE_PAIRING_REQUIRED then ask [PairingDialog e] w
         else if ue_recoverable e then w else ask [WarningBox (ue_title e) (ue_message e)] w)"

definition restore_saved :: "connection_profile option \<Rightarrow> connection_window \<Rightarrow> connection_window" where
  "restore_saved saved w =
     (case saved of
        None \<Rightarrow> w
      | Some p \<Rightarrow> (case bar_restore_profile p (xw_bar w) of (b, sigs) \<Rightarrow> fold on_bar_signal sigs (w\<lparr>xw_bar := b\<rparr>)))"

section \<open>What holds of the bar\<close>

text \<open>Exactly one of the two buttons can be pressed.\<close>

definition bar_ok :: "connection_bar \<Rightarrow> bool" where
  "bar_ok b \<longleftrightarrow> (cn_can_connect b \<longleftrightarrow> cn_state b \<in> {DISCONNECTED, ERROR}) \<and> (cn_can_disconnect b \<longleftrightarrow> cn_state b \<notin> {DISCONNECTED, ERROR})
     \<and> cn_transport b < 3 \<and> 1 \<le> cn_port b \<and> cn_port b \<le> 65535
     \<and> (combo_address (cn_ble b) \<noteq> [] \<longrightarrow> cn_preferred b = combo_address (cn_ble b))"

lemma bar_ok_state: "bar_ok b \<Longrightarrow> bar_ok (bar_set_state s detail b)"
  by (cases s) (simp_all add: bar_ok_def bar_set_state_def update_controls_def bar_busy_def Let_def)

lemma bar_ok_new: "bar_ok connection_bar_new"
  by (simp add: bar_ok_def connection_bar_new_def update_controls_def bar_busy_def combo_address_def device_combo_new_def Let_def)

lemma find_address_Some: "find_address a xs = Some i \<Longrightarrow> i < length xs \<and> snd (xs ! i) = a"
  by (induction xs arbitrary: i) (auto split: if_splits)

lemma find_address_None: "find_address a xs = None \<longleftrightarrow> a \<notin> snd ` set xs"
  by (induction xs) auto

lemma ble_choose_fields [simp]:
  "dc_items (cn_ble (ble_choose i b)) = dc_items (cn_ble b)" "dc_index (cn_ble (ble_choose i b)) = i"
  "cn_can_connect (ble_choose i b) = cn_can_connect b" "cn_can_disconnect (ble_choose i b) = cn_can_disconnect b"
  "cn_state (ble_choose i b) = cn_state b" "cn_transport (ble_choose i b) = cn_transport b"
  "cn_port (ble_choose i b) = cn_port b" "cn_serial (ble_choose i b) = cn_serial b"
  by (auto simp: ble_choose_def Let_def)

lemma ble_items_fields [simp]:
  "dc_items (cn_ble (ble_items xs b)) = xs" "dc_index (cn_ble (ble_items xs b)) = dc_index (cn_ble b)"
  "cn_can_connect (ble_items xs b) = cn_can_connect b" "cn_can_disconnect (ble_items xs b) = cn_can_disconnect b"
  "cn_state (ble_items xs b) = cn_state b" "cn_transport (ble_items xs b) = cn_transport b"
  "cn_port (ble_items xs b) = cn_port b" "cn_serial (ble_items xs b) = cn_serial b"
  "cn_preferred (ble_items xs b) = cn_preferred b"
  by (simp_all add: ble_items_def)

text \<open>A scan keeps the chosen device if it turns up again, and the address it had before it was chosen by
  restoring.\<close>

lemma select_ble_found:
  assumes "find_address a (dc_items (cn_ble b)) = Some i"
  shows "combo_address (cn_ble (fst (select_ble_address a add b))) = a \<and> cn_preferred (fst (select_ble_address a add b)) = a"
  using find_address_Some [OF assms] assms by (simp add: select_ble_address_def combo_address_def)

lemma select_ble_added:
  assumes "find_address a (dc_items (cn_ble b)) = None"
  shows "combo_address (cn_ble (fst (select_ble_address a True b))) = a \<and> cn_preferred (fst (select_ble_address a True b)) = a"
  using assms by (simp add: select_ble_address_def combo_address_def Let_def)

lemma scan_keeps_choice:
  assumes "cn_preferred b = a" "a \<noteq> []" "a \<in> bd_address ` set devices"
  shows "combo_address (cn_ble (set_ble_devices devices b)) = a"
proof -
  let ?items = "map (\<lambda>d. (bd_name d @ ''  ('' @ bd_address d @ '')'', bd_address d)) devices"
  let ?b = "ble_items ?items (ble_choose None b)"
  have "a \<in> snd ` set ?items" using assms(3) by force
  then obtain i where i: "find_address a (dc_items (cn_ble ?b)) = Some i"
    using find_address_None [of a ?items] by (cases "find_address a ?items") auto
  then have "set_ble_devices devices b = fst (select_ble_address a False ?b)"
    using assms(1,2) by (simp add: set_ble_devices_def Let_def)
  with select_ble_found [OF i] show ?thesis by simp
qed

text \<open>Connecting asks the supervisor to keep what the radio is asked to connect to.\<close>

lemma connect_supervises_target:
  assumes "xw_calls (press_connect w) = xw_calls w @ [SetProfile p, c]"
  shows "xw_profile (press_connect w) = Some p \<and>
    (c = CallConnectBle (cp_ble_address p) \<and> cp_transport p = ''ble''
     \<or> c = CallConnectTcp (cp_tcp_host p) (cp_tcp_port p) \<and> cp_transport p = ''tcp''
     \<or> c = CallConnectSerial (cp_serial_port p) \<and> cp_transport p = ''serial'')"
  using assms
  by (auto simp: press_connect_def on_connect_def ask_def profile_for_def Let_def split: if_splits)

text \<open>The saved serial port does not survive the list of ports that restoring it asks for: it is read back as the
  first port of the list.\<close>

lemma restored_port_lost:
  assumes "cp_transport p = ''serial''" "cp_serial_port p = ''COM7''" "cp_ble_address p = []" "cp_tcp_host p = []"
    "cp_tcp_port p = 4403"
  shows "snd (bar_restore_profile p connection_bar_new) = [PortsAsked, PortsAsked]
    \<and> on_connect (fst (bar_restore_profile p connection_bar_new)) = [ConnectSerialAsked ''COM7'']
    \<and> on_connect (set_serial_ports [\<lparr>sp_device = ''COM3'', sp_description = ''other''\<rparr>,
          \<lparr>sp_device = ''COM7'', sp_description = ''radio''\<rparr>] (fst (bar_restore_profile p connection_bar_new)))
        = [ConnectSerialAsked ''COM3'']"
  using assms
  by (simp add: bar_restore_profile_def transport_index_def choose_transport_def bar_transport_changed_def
      connection_bar_new_def update_controls_def device_combo_new_def set_serial_ports_def on_connect_def
      combo_address_def Let_def)

section \<open>Everything that happens to the bar\<close>

datatype bar_event =
    BarDevices "ble_device_summary list"
  | BarPorts "serial_port_summary list"
  | BarState connection_state string
  | BarName string
  | BarTransport nat
  | BarDevice nat
  | BarPort nat
  | BarHost string
  | BarTcpPort int
  | BarRestore connection_profile

definition bar_step :: "bar_event \<Rightarrow> connection_bar \<Rightarrow> connection_bar" where
  "bar_step e b =
     (case e of
        BarDevices ds \<Rightarrow> set_ble_devices ds b
      | BarPorts ps \<Rightarrow> set_serial_ports ps b
      | BarState s detail \<Rightarrow> bar_set_state s detail b
      | BarName n \<Rightarrow> set_device_name n b
      | BarTransport i \<Rightarrow> if cn_can_connect b \<and> i < 3 then fst (choose_transport i b) else b
      | BarDevice i \<Rightarrow> if cn_can_connect b \<and> i < length (dc_items (cn_ble b)) then ble_choose (Some i) b else b
      | BarPort i \<Rightarrow> if cn_can_connect b \<and> i < length (dc_items (cn_serial b))
                     then b\<lparr>cn_serial := (cn_serial b)\<lparr>dc_index := Some i\<rparr>\<rparr> else b
      | BarHost h \<Rightarrow> if cn_can_connect b then b\<lparr>cn_host := h\<rparr> else b
      | BarTcpPort p \<Rightarrow> if cn_can_connect b then b\<lparr>cn_port := max 1 (min 65535 p)\<rparr> else b
      | BarRestore p \<Rightarrow> fst (bar_restore_profile p b))"

lemma ble_choose_preferred:
  "bar_ok b \<Longrightarrow> combo_address (cn_ble (ble_choose i b)) \<noteq> [] \<Longrightarrow> cn_preferred (ble_choose i b) = combo_address (cn_ble (ble_choose i b))"
  by (auto simp: ble_choose_def bar_ok_def Let_def split: if_splits)

lemma bar_ok_choose: "bar_ok b \<Longrightarrow> bar_ok (ble_choose i b)"
  using ble_choose_preferred [of b i] by (auto simp: bar_ok_def)

lemma bar_ok_items: "bar_ok b \<Longrightarrow> dc_index (cn_ble b) = None \<Longrightarrow> bar_ok (ble_items xs b)"
  by (auto simp: bar_ok_def combo_address_def)

lemma bar_ok_append: "bar_ok b \<Longrightarrow> bar_ok ((ble_choose (Some (length (dc_items (cn_ble b))))
    (ble_items (dc_items (cn_ble b) @ [x]) b))\<lparr>cn_preferred := snd x\<rparr>)"
  by (auto simp: bar_ok_def combo_address_def)

lemma bar_ok_select: "bar_ok b \<Longrightarrow> bar_ok (fst (select_ble_address a add b))"
proof (cases "find_address a (dc_items (cn_ble b))")
  case (Some i)
  moreover assume "bar_ok b"
  ultimately show ?thesis using select_ble_found [OF Some] bar_ok_choose [of b "Some i"]
    by (simp add: select_ble_address_def bar_ok_def)
next
  case None
  assume "bar_ok b"
  with None bar_ok_append [of b "(''Last used  ('' @ a @ '')'', a)"] show ?thesis
    by (simp add: select_ble_address_def Let_def)
qed

lemma bar_ok_devices: "bar_ok b \<Longrightarrow> bar_ok (set_ble_devices ds b)"
proof -
  assume ok: "bar_ok b"
  let ?b = "ble_items (map (\<lambda>d. (bd_name d @ ''  ('' @ bd_address d @ '')'', bd_address d)) ds) (ble_choose None b)"
  have "bar_ok ?b" using bar_ok_items [OF bar_ok_choose [OF ok]] by simp
  then show ?thesis unfolding set_ble_devices_def Let_def by (simp only: bar_ok_select bar_ok_choose split: if_split) blast
qed

lemma bar_ok_transport: "bar_ok b \<Longrightarrow> i < 3 \<Longrightarrow> bar_ok (fst (choose_transport i b))"
  by (simp add: choose_transport_def bar_transport_changed_def bar_ok_def)

lemma bar_ok_shown: "bar_ok b \<Longrightarrow> bar_ok (fst (bar_transport_changed i b))"
  by (simp add: bar_transport_changed_def bar_ok_def)

lemma bar_ok_fields:
  "bar_ok (b\<lparr>cn_serial := s\<rparr>) = bar_ok b" "bar_ok (b\<lparr>cn_host := h\<rparr>) = bar_ok b"
  "bar_ok b \<Longrightarrow> bar_ok (b\<lparr>cn_port := max 1 (min 65535 p)\<rparr>)"
  by (simp_all add: bar_ok_def)

lemma bar_ok_restore: "bar_ok b \<Longrightarrow> bar_ok (fst (bar_restore_profile p b))"
proof -
  assume "bar_ok b"
  define b1 where "b1 = (if cp_ble_address p \<noteq> [] then fst (select_ble_address (cp_ble_address p) True b) else b)"
  have b1: "bar_ok b1" using \<open>bar_ok b\<close> bar_ok_select by (simp add: b1_def)
  define b2 where "b2 = (case transport_index (cp_transport p) of None \<Rightarrow> b1
      | Some i \<Rightarrow> fst (bar_transport_changed i (fst (choose_transport i b1))))"
  have "transport_index t = Some i \<Longrightarrow> i < 3" for t i
    by (simp add: transport_index_def split: if_splits)
  then have b2: "bar_ok b2" using b1 by (simp add: bar_ok_shown bar_ok_transport b2_def split: option.split)
  obtain sigs where "(case transport_index (cp_transport p) of None \<Rightarrow> (b1, [])
      | Some i \<Rightarrow> (case choose_transport i b1 of (b, s1) \<Rightarrow> (case bar_transport_changed i b of (b, s2) \<Rightarrow> (b, s1 @ s2)))) = (b2, sigs)"
    by (cases "transport_index (cp_transport p)") (simp_all add: b2_def case_prod_beta)
  with b2 show ?thesis
    by (simp add: bar_restore_profile_def b1_def [symmetric] bar_ok_fields Let_def split: option.split)
qed

lemma bar_ok_step: "bar_ok b \<Longrightarrow> bar_ok (bar_step e b)"
  by (cases e)
     (simp_all add: bar_step_def bar_ok_devices bar_ok_state bar_ok_choose bar_ok_transport bar_ok_restore,
      simp_all add: bar_ok_def set_serial_ports_def set_device_name_def)

text \<open>Whatever happens to the bar, exactly one of Connect and Disconnect can be pressed, Connect only while there is
  no connection and none is being made, and the device that would be connected to is the one remembered.\<close>

lemma bar_always_ok: "bar_ok (fold bar_step es connection_bar_new)"
proof (induction es rule: rev_induct)
  case (snoc e es)
  then show ?case by (simp add: bar_ok_step)
qed (simp add: bar_ok_new)

end
