(* ===== verification/Waterfall.thy ===== *)
theory Waterfall
  imports Intel PyValue
begin

text \<open>
  The displays of a band: \<open>ui/spectrum/waterfall_view.py\<close> (history, fitted display range, markers),
  \<open>ui/widgets/levels_control.py\<close> and the grid of \<open>ui/sigint/waterfall3d_view.py\<close> (thinning and
  scaling).  A reading that is not a finite number is \<open>None\<close>; readings and levels are exact numbers, the
  rounding of floats is left out, and so is the painting.  The lemmas show that the history is the last rows pushed,
  that the control never asks the view for an empty window, and that thinning meets its limit and keeps the newest row.
\<close>

section \<open>The waterfall\<close>

type_synonym db_row = "pyfloat option list"

definition HISTORY_ROWS :: nat where "HISTORY_ROWS = 300"
definition AUTO_LOW_PERCENTILE :: pyfloat where "AUTO_LOW_PERCENTILE = 5"
definition AUTO_HIGH_PERCENTILE :: pyfloat where "AUTO_HIGH_PERCENTILE = 99"
definition MIN_LEVELS_SPAN_DB :: pyfloat where "MIN_LEVELS_SPAN_DB = 10"
definition AUTO_REFIT_ROWS :: int where "AUTO_REFIT_ROWS = 12"
definition REFIT_EPSILON_DB :: pyfloat where "REFIT_EPSILON_DB = 1/2"

record waterfall =
  wv_bins :: nat
  wv_history :: "db_row list option"
  wv_center :: pyfloat
  wv_span :: pyfloat
  wv_auto :: bool
  wv_levels :: "pyfloat \<times> pyfloat"
  wv_countdown :: int
  wv_fits :: nat
  wv_view :: "(pyfloat \<times> pyfloat) option"

definition waterfall_new :: waterfall where
  "waterfall_new = \<lparr>wv_bins = 0, wv_history = None, wv_center = 0, wv_span = 0, wv_auto = True, wv_levels = (- 60, 10),
     wv_countdown = 0, wv_fits = 0, wv_view = None\<rparr>"

definition no_data :: "nat \<Rightarrow> db_row" where
  "no_data bins = replicate bins None"

definition configure :: "pyfloat \<Rightarrow> pyfloat \<Rightarrow> nat \<Rightarrow> waterfall \<Rightarrow> waterfall" where
  "configure center width bins v =
     v\<lparr>wv_center := center, wv_span := width, wv_bins := bins, wv_history := Some (replicate HISTORY_ROWS (no_data bins)),
       wv_countdown := 0, wv_fits := 0, wv_view := Some (center - width / 2, center + width / 2)\<rparr>"

text \<open>\<open>set_levels\<close> raises \<open>ValueError\<close> for an empty window; the flag of the others says whether
  \<open>levels_changed\<close> was emitted.\<close>

datatype levels_error = LevelsInverted pyfloat pyfloat

definition set_levels :: "pyfloat \<Rightarrow> pyfloat \<Rightarrow> waterfall \<Rightarrow> levels_error + waterfall" where
  "set_levels low high v = (if high \<le> low then Inl (LevelsInverted low high) else Inr (v\<lparr>wv_levels := (low, high)\<rparr>))"

definition finite_readings :: "waterfall \<Rightarrow> pyfloat list" where
  "finite_readings v = (case wv_history v of None \<Rightarrow> [] | Some h \<Rightarrow> concat (map (List.map_filter (\<lambda>r. r)) h))"

definition fitted_window :: "pyfloat list \<Rightarrow> pyfloat \<times> pyfloat" where
  "fitted_window rs =
     (let low = percentile rs AUTO_LOW_PERCENTILE; high = percentile rs AUTO_HIGH_PERCENTILE
      in if high - low < MIN_LEVELS_SPAN_DB
         then (let c = (low + high) / 2 in (c - MIN_LEVELS_SPAN_DB / 2, c + MIN_LEVELS_SPAN_DB / 2)) else (low, high))"

definition fit_levels_now :: "waterfall \<Rightarrow> levels_error + waterfall \<times> bool" where
  "fit_levels_now v =
     (if wv_history v = None \<or> length (finite_readings v) < wv_bins v then Inr (v, False)
      else let (low, high) = fitted_window (finite_readings v); v = v\<lparr>wv_fits := wv_fits v + 1\<rparr>
           in if \<bar>low - fst (wv_levels v)\<bar> < REFIT_EPSILON_DB \<and> \<bar>high - snd (wv_levels v)\<bar> < REFIT_EPSILON_DB
              then Inr (v, False)
              else and_then (set_levels low high v) (\<lambda>v. Inr (v, True)))"

definition fit_levels :: "waterfall \<Rightarrow> levels_error + waterfall \<times> bool" where
  "fit_levels v = fit_levels_now (v\<lparr>wv_countdown := AUTO_REFIT_ROWS\<rparr>)"

definition push_row :: "db_row \<Rightarrow> waterfall \<Rightarrow> levels_error + waterfall \<times> bool" where
  "push_row row v =
     (case wv_history v of
        None \<Rightarrow> Inr (v, False)
      | Some h \<Rightarrow>
          if length row \<noteq> wv_bins v then Inr (v, False)
          else let v = v\<lparr>wv_history := Some (tl h @ [row])\<rparr>
               in if \<not> wv_auto v then Inr (v, False)
                  else if wv_fits v = 0 \<or> wv_countdown v \<le> 0 then fit_levels v
                  else Inr (v\<lparr>wv_countdown := wv_countdown v - 1\<rparr>, False))"

definition set_auto_levels :: "bool \<Rightarrow> waterfall \<Rightarrow> levels_error + waterfall \<times> bool" where
  "set_auto_levels enabled v =
     (let v = v\<lparr>wv_auto := enabled\<rparr>
      in if enabled then fit_levels_now (v\<lparr>wv_fits := 0\<rparr>)
         else and_then (set_levels (fst (wv_levels v)) (snd (wv_levels v)) v) (\<lambda>v. Inr (v, True)))"

definition clear_history :: "waterfall \<Rightarrow> waterfall" where
  "clear_history v = v\<lparr>wv_history := map_option (\<lambda>_. replicate HISTORY_ROWS (no_data (wv_bins v))) (wv_history v)\<rparr>"

definition reset_view :: "waterfall \<Rightarrow> waterfall" where
  "reset_view v =
     (if wv_bins v = 0 then v else v\<lparr>wv_view := Some (wv_center v - wv_span v / 2, wv_center v + wv_span v / 2)\<rparr>)"

section \<open>Markers\<close>

text \<open>A drawn marker: its edges in Hz, its label, the colour of the band and of the label, and whether it is
  drawn strong.\<close>

record drawn_marker =
  dm_low :: pyfloat
  dm_high :: pyfloat
  dm_label :: string
  dm_colour :: string
  dm_label_colour :: string
  dm_strong :: bool

definition marked_active :: "string \<Rightarrow> bool" where
  "marked_active label \<longleftrightarrow> contains ''active'' (lower label) \<or> contains ''nominal'' (lower label)"

definition draw_marker :: "channel_marker list \<Rightarrow> channel_marker \<Rightarrow> drawn_marker" where
  "draw_marker custom m =
     (let center = mk_center m * 10 ^ 6; half = mk_bandwidth m * 10 ^ 3 / 2; active = marked_active (mk_label m);
          own = (m \<in> set custom);
          colour = (if own then ''#FFB800'' else if active then ''#00D4FF'' else ''#3A4870'')
      in \<lparr>dm_low = center - half, dm_high = center + half, dm_label = mk_label m, dm_colour = colour,
          dm_label_colour = (if active \<or> own then colour else ''#5A6690''), dm_strong = (active \<or> own)\<rparr>)"

definition draw_markers :: "channel_marker list \<Rightarrow> channel_marker list \<Rightarrow> drawn_marker list" where
  "draw_markers markers custom = map (draw_marker custom) markers"

section \<open>The levels control\<close>

text \<open>A \<open>QDoubleSpinBox\<close> rounds to its decimals and stays in its range.\<close>

definition spin_value :: "pyfloat \<Rightarrow> pyfloat \<Rightarrow> nat \<Rightarrow> pyfloat \<Rightarrow> pyfloat" where
  "spin_value lo hi decimals x = max lo (min hi (of_int (round_half_even (x * 10 ^ decimals)) / 10 ^ decimals))"

record levels_control =
  lv_view :: waterfall
  lv_auto :: bool
  lv_low :: pyfloat
  lv_high :: pyfloat

definition level_box :: "pyfloat \<Rightarrow> pyfloat" where
  "level_box x = spin_value (- 200) 200 1 x"

definition sync_from_view :: "levels_control \<Rightarrow> levels_control" where
  "sync_from_view c = c\<lparr>lv_low := level_box (fst (wv_levels (lv_view c))), lv_high := level_box (snd (wv_levels (lv_view c)))\<rparr>"

definition levels_control_new :: "waterfall \<Rightarrow> levels_control" where
  "levels_control_new v = sync_from_view \<lparr>lv_view = v, lv_auto = wv_auto v, lv_low = 0, lv_high = 0\<rparr>"

definition boxes_enabled :: "levels_control \<Rightarrow> bool" where
  "boxes_enabled c \<longleftrightarrow> \<not> lv_auto c"

text \<open>The view's new state, and the boxes following it if it announced its levels.\<close>

definition view_did :: "waterfall \<times> bool \<Rightarrow> levels_control \<Rightarrow> levels_control" where
  "view_did r c = (let c = c\<lparr>lv_view := fst r\<rparr> in if snd r then sync_from_view c else c)"

definition on_limits_edited :: "levels_control \<Rightarrow> levels_error + levels_control" where
  "on_limits_edited c =
     (if lv_auto c then Inr c
      else let low = lv_low c; high = lv_high c;
               (high, c) = (if high \<le> low then (low + 1, c\<lparr>lv_high := level_box (low + 1)\<rparr>) else (high, c))
           in and_then (set_levels low high (lv_view c)) (\<lambda>v. Inr (view_did (v, True) c)))"

definition on_auto_toggled :: "bool \<Rightarrow> levels_control \<Rightarrow> levels_error + levels_control" where
  "on_auto_toggled enabled c =
     (let c = c\<lparr>lv_auto := enabled\<rparr>
      in and_then (set_auto_levels enabled (lv_view c))
           (\<lambda>r. if enabled then Inr (view_did r c) else on_limits_edited (view_did r c)))"

definition edit_low :: "pyfloat \<Rightarrow> levels_control \<Rightarrow> levels_error + levels_control" where
  "edit_low x c = (if level_box x = lv_low c then Inr c else on_limits_edited (c\<lparr>lv_low := level_box x\<rparr>))"

definition edit_high :: "pyfloat \<Rightarrow> levels_control \<Rightarrow> levels_error + levels_control" where
  "edit_high x c = (if level_box x = lv_high c then Inr c else on_limits_edited (c\<lparr>lv_high := level_box x\<rparr>))"

definition press_fit :: "levels_control \<Rightarrow> levels_error + levels_control" where
  "press_fit c = and_then (fit_levels (lv_view c)) (\<lambda>r. Inr (view_did r c))"

definition row_arrives :: "db_row \<Rightarrow> levels_control \<Rightarrow> levels_error + levels_control" where
  "row_arrives row c = and_then (push_row row (lv_view c)) (\<lambda>r. Inr (view_did r c))"

section \<open>The 3D grid\<close>

definition stride :: "int \<Rightarrow> int \<Rightarrow> int" where
  "stride n limit = (if limit \<le> 0 then 1 else max 1 (- (- n div limit)))"

text \<open>\<open>xs[offset::step]\<close>\<close>

definition every :: "nat \<Rightarrow> nat \<Rightarrow> 'a list \<Rightarrow> 'a list" where
  "every offset step xs = map (\<lambda>i. xs ! i) (filter (\<lambda>i. offset \<le> i \<and> (i - offset) mod step = 0) [0..<length xs])"

definition thin :: "int \<Rightarrow> 'a list \<Rightarrow> 'a list" where
  "thin limit xs = (let step = nat (stride (int (length xs)) limit) in every ((length xs - 1) mod step) step xs)"

definition decimate :: "int \<Rightarrow> int \<Rightarrow> db_row list \<Rightarrow> db_row list" where
  "decimate max_rows max_bins history =
     (if history = [] \<or> hd history = [] then history else map (thin max_bins) (thin max_rows history))"

definition SPAN_DB :: pyfloat where "SPAN_DB = 30"
definition FLOOR_OFFSET_DB :: pyfloat where "FLOOR_OFFSET_DB = 6"

definition normalise :: "pyfloat \<Rightarrow> pyfloat \<Rightarrow> pyfloat \<Rightarrow> db_row list \<Rightarrow> pyfloat list list" where
  "normalise floor_percentile span_db floor_offset grid =
     (let finite = concat (map (List.map_filter (\<lambda>r. r)) grid)
      in if finite = [] then map (map (\<lambda>_. 0)) grid
         else let floor_db = percentile finite floor_percentile - floor_offset
              in map (map (\<lambda>r. case r of None \<Rightarrow> 0 | Some p \<Rightarrow> max 0 (min 1 ((p - floor_db) / span_db)))) grid)"

record waterfall3d =
  w3_bins :: nat
  w3_history :: "db_row list option"
  w3_available :: bool
  w3_surface :: bool
  w3_notice :: bool
  w3_timer :: bool

definition configure3d :: "nat \<Rightarrow> nat \<Rightarrow> waterfall3d \<Rightarrow> waterfall3d" where
  "configure3d rows bins w = w\<lparr>w3_bins := bins, w3_history := Some (replicate rows (replicate bins (Some 0)))\<rparr>"

definition push_row3d :: "db_row \<Rightarrow> waterfall3d \<Rightarrow> waterfall3d" where
  "push_row3d row w =
     (case w3_history w of
        None \<Rightarrow> w
      | Some h \<Rightarrow> if length row \<noteq> w3_bins w then w else w\<lparr>w3_history := Some (tl h @ [row])\<rparr>)"

text \<open>\<open>builds\<close>: creating the OpenGL surface works.\<close>

definition activate3d :: "bool \<Rightarrow> waterfall3d \<Rightarrow> waterfall3d \<times> bool" where
  "activate3d builds w =
     (if w3_surface w then (w\<lparr>w3_timer := True\<rparr>, True)
      else if \<not> w3_available w then (w\<lparr>w3_notice := True\<rparr>, False)
      else if \<not> builds then (w\<lparr>w3_available := False, w3_notice := True\<rparr>, False)
      else (w\<lparr>w3_surface := True, w3_timer := True\<rparr>, True))"

definition stop3d :: "waterfall3d \<Rightarrow> waterfall3d" where
  "stop3d w = w\<lparr>w3_timer := False\<rparr>"

section \<open>The history is the last rows\<close>

definition history_is :: "db_row list \<Rightarrow> waterfall \<Rightarrow> bool" where
  "history_is rows v \<longleftrightarrow> wv_history v = Some (last_n HISTORY_ROWS (replicate HISTORY_ROWS (no_data (wv_bins v)) @ rows))"

lemma history_configure: "history_is [] (configure c w bins v)"
  by (simp add: history_is_def configure_def last_n_def)

lemma set_levels_keeps:
  "set_levels l h v = Inr v' \<Longrightarrow> wv_history v' = wv_history v \<and> wv_bins v' = wv_bins v \<and> wv_auto v' = wv_auto v"
  by (auto simp: set_levels_def split: if_splits)

lemma fitted_window_wide: "snd (fitted_window rs) - fst (fitted_window rs) \<ge> MIN_LEVELS_SPAN_DB"
  by (simp add: fitted_window_def MIN_LEVELS_SPAN_DB_def Let_def)

lemma fitted_window_open: "fst (fitted_window rs) < snd (fitted_window rs)"
  using fitted_window_wide [of rs] by (simp add: MIN_LEVELS_SPAN_DB_def)

text \<open>Fitting never raises: it leaves the view alone while there is too little data, only counts when the window
  would hardly move, and moves the window otherwise.\<close>

definition fit_ready :: "waterfall \<Rightarrow> bool" where
  "fit_ready v \<longleftrightarrow> wv_history v \<noteq> None \<and> wv_bins v \<le> length (finite_readings v)"

definition near :: "pyfloat \<times> pyfloat \<Rightarrow> pyfloat \<times> pyfloat \<Rightarrow> bool" where
  "near a b \<longleftrightarrow> \<bar>fst a - fst b\<bar> < REFIT_EPSILON_DB \<and> \<bar>snd a - snd b\<bar> < REFIT_EPSILON_DB"

lemma fit_now_result:
  "fit_levels_now v =
     (if \<not> fit_ready v then Inr (v, False)
      else if near (fitted_window (finite_readings v)) (wv_levels v) then Inr (v\<lparr>wv_fits := wv_fits v + 1\<rparr>, False)
      else Inr (v\<lparr>wv_fits := wv_fits v + 1, wv_levels := fitted_window (finite_readings v)\<rparr>, True))"
proof -
  obtain l h where w: "fitted_window (finite_readings v) = (l, h)" by fastforce
  then have "\<not> h \<le> l" using fitted_window_open [of "finite_readings v"] by simp
  then show ?thesis
    by (simp add: fit_levels_now_def fit_ready_def near_def set_levels_def and_then_def w Let_def not_less)
qed

definition levels_open :: "waterfall \<Rightarrow> bool" where
  "levels_open v \<longleftrightarrow> fst (wv_levels v) < snd (wv_levels v)"

lemma fit_keeps_open:
  assumes "levels_open v"
  shows "\<exists>v' b. fit_levels v = Inr (v', b) \<and> levels_open v' \<and> wv_history v' = wv_history v \<and> wv_bins v' = wv_bins v
    \<and> wv_auto v' = wv_auto v \<and> (\<not> b \<longrightarrow> wv_levels v' = wv_levels v)"
proof -
  let ?v = "v\<lparr>wv_countdown := AUTO_REFIT_ROWS\<rparr>"
  have "fst (fitted_window rs) < snd (fitted_window rs)" for rs by (rule fitted_window_open)
  with assms show ?thesis unfolding fit_levels_def fit_now_result by (auto simp: levels_open_def)
qed

lemma tl_ring_append: "length h = n \<Longrightarrow> 0 < n \<Longrightarrow> tl h @ [x] = ring_append n h x"
  by (cases h) (auto simp: ring_append_def)

lemma push_row_result:
  assumes "levels_open v" "history_is rows v" "length row = wv_bins v"
  shows "\<exists>v' b. push_row row v = Inr (v', b) \<and> levels_open v' \<and> history_is (rows @ [row]) v' \<and> wv_bins v' = wv_bins v
    \<and> wv_auto v' = wv_auto v \<and> (\<not> b \<longrightarrow> wv_levels v' = wv_levels v)"
proof -
  let ?pad = "replicate HISTORY_ROWS (no_data (wv_bins v))"
  let ?h = "last_n HISTORY_ROWS (?pad @ rows)"
  let ?v = "v\<lparr>wv_history := Some (tl ?h @ [row])\<rparr>"
  have "length ?h = HISTORY_ROWS" by simp
  then have "tl ?h @ [row] = ring_append HISTORY_ROWS ?h row"
    by (rule tl_ring_append) (simp add: HISTORY_ROWS_def)
  then have "tl ?h @ [row] = last_n HISTORY_ROWS (?pad @ rows @ [row])" by (simp add: ring_append_last_n)
  then have hist: "history_is (rows @ [row]) (?v\<lparr>wv_countdown := c\<rparr>)" "history_is (rows @ [row]) ?v" for c
    by (simp_all add: history_is_def)
  have op: "levels_open ?v" "levels_open (?v\<lparr>wv_countdown := c\<rparr>)" for c using assms(1) by (simp_all add: levels_open_def)
  obtain v' b where fit: "fit_levels ?v = Inr (v', b)" "levels_open v'" "wv_history v' = wv_history ?v" "wv_bins v' = wv_bins ?v"
    "wv_auto v' = wv_auto ?v" "\<not> b \<longrightarrow> wv_levels v' = wv_levels ?v"
    using fit_keeps_open [OF op(1)] by blast
  then have "history_is (rows @ [row]) v'" using hist(2) by (simp add: history_is_def)
  moreover have "push_row row v = (if \<not> wv_auto v then Inr (?v, False)
      else if wv_fits v = 0 \<or> wv_countdown v \<le> 0 then fit_levels ?v
      else Inr (?v\<lparr>wv_countdown := wv_countdown v - 1\<rparr>, False))"
    using assms(2,3) by (simp add: push_row_def history_is_def)
  ultimately show ?thesis using fit hist op by (cases "wv_auto v") (simp_all add: exI [of _ False])
qed


section \<open>The levels control never fails\<close>

text \<open>The window of the view is open, and the boxes show it, rounded and cut to their range.\<close>

definition control_ok :: "levels_control \<Rightarrow> bool" where
  "control_ok c \<longleftrightarrow> levels_open (lv_view c) \<and> wv_auto (lv_view c) = lv_auto c
     \<and> lv_low c = level_box (fst (wv_levels (lv_view c))) \<and> lv_high c = level_box (snd (wv_levels (lv_view c)))"

lemma control_ok_did:
  assumes "control_ok c" "levels_open v" "wv_auto v = lv_auto c" "\<not> b \<longrightarrow> wv_levels v = wv_levels (lv_view c)"
  shows "control_ok (view_did (v, b) c)"
  using assms by (simp add: control_ok_def view_did_def sync_from_view_def Let_def)

lemma limits_edited_ok:
  assumes "wv_auto (lv_view c) = lv_auto c" "\<not> lv_auto c"
  shows "\<exists>c'. on_limits_edited c = Inr c' \<and> control_ok c' \<and> lv_auto c' = lv_auto c"
proof -
  let ?high = "if lv_high c \<le> lv_low c then lv_low c + 1 else lv_high c"
  have op: "\<not> ?high \<le> lv_low c" by (simp add: not_le)
  obtain d where d: "on_limits_edited c = Inr (view_did ((lv_view c)\<lparr>wv_levels := (lv_low c, ?high)\<rparr>, True) d)"
    "lv_auto d = lv_auto c"
  proof (cases "lv_high c \<le> lv_low c")
    case True
    then show ?thesis
      using that [of "c\<lparr>lv_high := level_box (lv_low c + 1)\<rparr>"] assms(2)
      by (simp add: on_limits_edited_def set_levels_def and_then_def Let_def)
  next
    case False
    then show ?thesis using that [of c] assms(2) by (simp add: on_limits_edited_def set_levels_def and_then_def Let_def)
  qed
  then show ?thesis
    using op assms(1) by (simp add: view_did_def sync_from_view_def control_ok_def levels_open_def not_le Let_def)
qed

lemma edit_ok:
  assumes "control_ok c" "\<not> lv_auto c"
  shows "\<exists>c'. edit_low x c = Inr c' \<and> control_ok c'" "\<exists>c'. edit_high x c = Inr c' \<and> control_ok c'"
proof -
  have a: "wv_auto (lv_view c) = lv_auto c" using assms(1) by (simp add: control_ok_def)
  show "\<exists>c'. edit_low x c = Inr c' \<and> control_ok c'"
    using limits_edited_ok [of "c\<lparr>lv_low := level_box x\<rparr>"] a assms by (auto simp: edit_low_def)
  show "\<exists>c'. edit_high x c = Inr c' \<and> control_ok c'"
    using limits_edited_ok [of "c\<lparr>lv_high := level_box x\<rparr>"] a assms by (auto simp: edit_high_def)
qed

lemma fit_ok: "control_ok c \<Longrightarrow> \<exists>c'. press_fit c = Inr c' \<and> control_ok c'"
proof -
  assume ok: "control_ok c"
  then obtain v' b where r: "fit_levels (lv_view c) = Inr (v', b)" "levels_open v'" "wv_auto v' = wv_auto (lv_view c)"
    "\<not> b \<longrightarrow> wv_levels v' = wv_levels (lv_view c)"
    using fit_keeps_open [of "lv_view c"] by (auto simp: control_ok_def)
  then have "control_ok (view_did (v', b) c)" using ok by (intro control_ok_did) (simp_all add: control_ok_def)
  then show ?thesis using r by (simp add: press_fit_def and_then_def)
qed

lemma row_ok: "control_ok c \<Longrightarrow> \<exists>c'. row_arrives row c = Inr c' \<and> control_ok c'"
proof -
  assume ok: "control_ok c"
  let ?v = "lv_view c"
  have "\<exists>v' b. push_row row ?v = Inr (v', b) \<and> levels_open v' \<and> wv_auto v' = wv_auto ?v \<and> (\<not> b \<longrightarrow> wv_levels v' = wv_levels ?v)"
  proof (cases "wv_history ?v")
    case None
    then show ?thesis using ok by (simp add: push_row_def control_ok_def exI [of _ False])
  next
    case (Some h)
    have "levels_open (?v\<lparr>wv_history := Some (tl h @ [row])\<rparr>)" using ok by (simp add: control_ok_def levels_open_def)
    from fit_keeps_open [OF this] Some ok show ?thesis
      by (auto simp: push_row_def control_ok_def levels_open_def Let_def)
  qed
  then obtain v' b where r: "push_row row ?v = Inr (v', b)" "levels_open v'" "wv_auto v' = wv_auto ?v"
    "\<not> b \<longrightarrow> wv_levels v' = wv_levels ?v" by blast
  then have "control_ok (view_did (v', b) c)" using ok by (intro control_ok_did) (simp_all add: control_ok_def)
  then show ?thesis using r by (simp add: row_arrives_def and_then_def)
qed

lemma auto_ok: "control_ok c \<Longrightarrow> \<exists>c'. on_auto_toggled e c = Inr c' \<and> control_ok c'"
proof -
  assume ok: "control_ok c"
  let ?c = "c\<lparr>lv_auto := e\<rparr>"
  show ?thesis
  proof (cases e)
    case True
    let ?v = "(lv_view c)\<lparr>wv_auto := True, wv_fits := 0\<rparr>"
    have "levels_open ?v" using ok by (simp add: control_ok_def levels_open_def)
    then have "levels_open (?v\<lparr>wv_fits := 1, wv_levels := fitted_window rs\<rparr>)" "levels_open (?v\<lparr>wv_fits := 1\<rparr>)" for rs
      using fitted_window_open by (simp_all add: levels_open_def)
    then have "\<exists>v' b. fit_levels_now ?v = Inr (v', b) \<and> levels_open v' \<and> wv_auto v' \<and> (\<not> b \<longrightarrow> wv_levels v' = wv_levels (lv_view c))"
      unfolding fit_now_result using \<open>levels_open ?v\<close> by (auto simp: levels_open_def)
    then obtain v' b where r: "fit_levels_now ?v = Inr (v', b)" "levels_open v'" "wv_auto v'"
      "\<not> b \<longrightarrow> wv_levels v' = wv_levels (lv_view c)" by blast
    have "control_ok (view_did (v', b) ?c)"
      using ok r True by (auto simp: view_did_def sync_from_view_def control_ok_def Let_def)
    then show ?thesis using r True by (simp add: on_auto_toggled_def set_auto_levels_def and_then_def Let_def)
  next
    case False
    let ?v = "(lv_view c)\<lparr>wv_auto := False\<rparr>"
    let ?d = "view_did (?v\<lparr>wv_levels := wv_levels (lv_view c)\<rparr>, True) ?c"
    have "\<not> snd (wv_levels (lv_view c)) \<le> fst (wv_levels (lv_view c))" using ok by (simp add: control_ok_def levels_open_def)
    then have "on_auto_toggled e c = on_limits_edited ?d"
      using False by (simp add: on_auto_toggled_def set_auto_levels_def set_levels_def and_then_def Let_def)
    moreover have "wv_auto (lv_view ?d) = lv_auto ?d" "\<not> lv_auto ?d" using False by (simp_all add: view_did_def sync_from_view_def Let_def)
    ultimately show ?thesis using limits_edited_ok [of ?d] by auto
  qed
qed

datatype control_event = RowArrives db_row | AutoToggled bool | LowEdited pyfloat | HighEdited pyfloat | FitPressed

fun control_step :: "control_event \<Rightarrow> levels_control \<Rightarrow> levels_error + levels_control" where
  "control_step (RowArrives row) c = row_arrives row c"
| "control_step (AutoToggled e) c = on_auto_toggled e c"
| "control_step (LowEdited x) c = (if boxes_enabled c then edit_low x c else Inr c)"
| "control_step (HighEdited x) c = (if boxes_enabled c then edit_high x c else Inr c)"
| "control_step FitPressed c = press_fit c"

fun control_run :: "control_event list \<Rightarrow> levels_control \<Rightarrow> levels_error + levels_control" where
  "control_run [] c = Inr c"
| "control_run (e # es) c = and_then (control_step e c) (control_run es)"

lemma control_step_ok: "control_ok c \<Longrightarrow> \<exists>c'. control_step e c = Inr c' \<and> control_ok c'"
  using row_ok auto_ok edit_ok fit_ok by (cases e) (auto simp: boxes_enabled_def)

lemma control_run_ok: "control_ok c \<Longrightarrow> \<exists>c'. control_run es c = Inr c' \<and> control_ok c'"
proof (induction es arbitrary: c)
  case (Cons e es)
  then obtain c' where "control_step e c = Inr c'" "control_ok c'" using control_step_ok by blast
  with Cons.IH [of c'] show ?case by (simp add: and_then_def)
qed simp

lemma control_ok_new: "levels_open v \<Longrightarrow> control_ok (levels_control_new v)"
  by (simp add: control_ok_def levels_control_new_def sync_from_view_def)

text \<open>Whatever rows arrive and however the range is switched, edited and fitted, setting the
  display range is never refused: the run ends with an open window, and the boxes show that window.\<close>
theorem levels_never_inverted:
  "\<exists>c. control_run es (levels_control_new (configure center width bins waterfall_new)) = Inr c
     \<and> fst (wv_levels (lv_view c)) < snd (wv_levels (lv_view c))
     \<and> lv_low c = level_box (fst (wv_levels (lv_view c))) \<and> lv_high c = level_box (snd (wv_levels (lv_view c)))"
proof -
  have "levels_open (configure center width bins waterfall_new)" by (simp add: levels_open_def configure_def waterfall_new_def)
  from control_run_ok [OF control_ok_new [OF this]] show ?thesis by (auto simp: control_ok_def levels_open_def)
qed

section \<open>The 3D grid: bounds and the newest row\<close>

lemma stride_pos: "1 \<le> stride n limit"
  by (simp add: stride_def)

lemma stride_enough: "0 < limit \<Longrightarrow> n \<le> limit * stride n limit"
proof -
  assume l: "0 < limit"
  have "n \<le> limit * (- (- n div limit))"
  proof -
    have "limit * (- n div limit) + - n mod limit = - n" by simp
    moreover have "0 \<le> - n mod limit" using l by simp
    ultimately show ?thesis by (simp only: mult_minus_right)
  qed
  also have "\<dots> \<le> limit * max 1 (- (- n div limit))" using l by (intro mult_left_mono) auto
  finally show ?thesis using l by (simp add: stride_def)
qed

text \<open>\<open>xs[offset::step]\<close> by its indices: \<open>offset, offset + step, \<dots>\<close>.\<close>

definition every_index :: "nat \<Rightarrow> nat \<Rightarrow> nat \<Rightarrow> nat list" where
  "every_index offset step n = filter (\<lambda>i. offset \<le> i \<and> (i - offset) mod step = 0) [0..<n]"

lemma every_indices: "every offset step xs = map (\<lambda>i. xs ! i) (every_index offset step (length xs))"
  by (simp add: every_def every_index_def)

lemma every_index_card: "0 < step \<Longrightarrow> offset < step \<Longrightarrow> offset < n \<Longrightarrow> length (every_index offset step n) = (n - 1 - offset) div step + 1"
proof -
  assume a: "0 < step" "offset < step" "offset < n"
  have "set (every_index offset step n) = (\<lambda>k. offset + k * step) ` {..(n - 1 - offset) div step}"
  proof (rule set_eqI, rule iffI)
    fix i
    assume "i \<in> set (every_index offset step n)"
    then have i: "offset \<le> i" "i < n" "(i - offset) mod step = 0" by (auto simp: every_index_def)
    then have "i = offset + (i - offset) div step * step"
      by (metis add.right_neutral div_mult_mod_eq le_add_diff_inverse)
    moreover have "(i - offset) div step \<le> (n - 1 - offset) div step" using i by (intro div_le_mono) simp
    ultimately show "i \<in> (\<lambda>k. offset + k * step) ` {..(n - 1 - offset) div step}" by blast
  next
    fix i
    assume "i \<in> (\<lambda>k. offset + k * step) ` {..(n - 1 - offset) div step}"
    then obtain k where k: "i = offset + k * step" "k \<le> (n - 1 - offset) div step" by auto
    then have "k * step \<le> n - 1 - offset" using a(1)
      by (metis div_times_less_eq_dividend le_trans mult_le_mono1)
    with k a show "i \<in> set (every_index offset step n)" by (auto simp: every_index_def)
  qed
  then have "card (set (every_index offset step n)) = (n - 1 - offset) div step + 1"
    using a(1) by (simp add: card_image inj_on_def)
  moreover have "distinct (every_index offset step n)" by (simp add: every_index_def)
  ultimately show ?thesis by (simp add: distinct_card)
qed

lemma thin_fits:
  assumes "0 < limit"
  shows "int (length (thin limit xs)) \<le> limit"
proof (cases "xs = []")
  case True
  then show ?thesis using assms by (simp add: thin_def every_def Let_def)
next
  case False
  let ?step = "nat (stride (int (length xs)) limit)" let ?n = "length xs"
  have pos: "0 < ?step" using stride_pos [of "int ?n" limit] by simp
  have off: "(?n - 1) mod ?step < ?step" "(?n - 1) mod ?step < ?n"
    using pos False by (simp_all add: le_less_trans [OF mod_less_eq_dividend])
  have "length (thin limit xs) = (?n - 1 - (?n - 1) mod ?step) div ?step + 1"
    using every_index_card [OF pos off] by (simp add: thin_def every_indices Let_def)
  also have "(?n - 1 - (?n - 1) mod ?step) div ?step = (?n - 1) div ?step"
    using pos by (simp add: minus_mod_eq_div_mult)
  finally have len: "length (thin limit xs) = (?n - 1) div ?step + 1" .
  have "int ?n \<le> limit * int ?step" using stride_enough [OF assms, of "int ?n"] stride_pos [of "int ?n" limit] by simp
  then have "?n \<le> nat limit * ?step" using assms by (metis int_ops(7) nat_0_le nat_le_iff less_imp_le of_nat_le_iff)
  then have "?n - 1 < nat limit * ?step" using False by (cases xs) auto
  then have "(?n - 1) div ?step < nat limit" by (simp add: less_mult_imp_div_less)
  then show ?thesis using len by simp
qed

text \<open>The newest row, and the last bin of each, are never thinned away.\<close>

lemma thin_keeps_last:
  assumes "xs \<noteq> []"
  shows "thin limit xs \<noteq> [] \<and> last (thin limit xs) = last xs"
proof -
  let ?step = "nat (stride (int (length xs)) limit)" let ?n = "length xs"
  let ?off = "(?n - 1) mod ?step"
  obtain m where m: "?n = Suc m" using assms by (cases xs) auto
  have "every_index ?off ?step (Suc m) = every_index ?off ?step m @ [m]"
    using m by (simp add: every_index_def minus_mod_eq_div_mult)
  then have "thin limit xs = map (\<lambda>i. xs ! i) (every_index ?off ?step m) @ [xs ! m]"
    by (simp add: thin_def every_indices m Let_def)
  then show ?thesis using assms m by (simp add: last_conv_nth)
qed

lemma normalise_unit: "row \<in> set (normalise q s off g) \<Longrightarrow> x \<in> set row \<Longrightarrow> 0 \<le> x \<and> x \<le> 1"
  by (auto simp: normalise_def Let_def split: if_splits option.splits)

text \<open>The 3D history starts with readings of 0 dB, not with missing ones: with one row of -50 dB noise heard, the
  rows never measured are drawn above the floor and the noise below it.\<close>

lemma unwritten_rows_stand_out:
  "normalise 20 SPAN_DB FLOOR_OFFSET_DB (the (w3_history (push_row3d [Some (- 50), Some (- 50)]
      (configure3d 10 2 \<lparr>w3_bins = 0, w3_history = None, w3_available = True, w3_surface = False, w3_notice = False, w3_timer = False\<rparr>))))
   = replicate 9 [1/5, 1/5] @ [[0, 0]]"
  by code_simp

end
