(* ===== verification/Sigint.thy ===== *)
theory Sigint
  imports Dongles Waterfall Panels Firmware
begin

text \<open>
  The SIGINT tab, \<open>ui/sigint/sigint_page.py\<close>: presets and tuning, the capture, the recording and the band scan
  it asks its two controllers for, the slot and node tables.  A handler gives the page and the calls it makes on the
  controllers, in order.  \<open>h\<close> is where the tools are looked for, \<open>general\<close> is Python's \<open>:g\<close> format and
  \<open>builds\<close> says whether the OpenGL surface can be created.  The file and message dialogs are answered at once.
\<close>

definition MAX_INTEL_ROWS :: nat where "MAX_INTEL_ROWS = 40"
definition MAX_SLOT_ROWS :: nat where "MAX_SLOT_ROWS = 14"
definition DEFAULT_CENTER_MHZ :: pyfloat where "DEFAULT_CENTER_MHZ = 906875 / 1000"
definition DEFAULT_RATE_MSPS :: pyfloat where "DEFAULT_RATE_MSPS = 2"
definition DEFAULT_REGION :: string where "DEFAULT_REGION = ''US''"
definition DEFAULT_GAIN_DB :: pyfloat where "DEFAULT_GAIN_DB = 16"

section \<open>State\<close>

text \<open>The tuning controls; the preset box is \<open>None\<close> on its last entry, Custom.\<close>

record tuning =
  tn_preset :: "string option"
  tn_region :: string
  tn_center :: pyfloat
  tn_rate :: pyfloat
  tn_gain :: pyfloat
  tn_bin :: pyfloat

record activity =
  ac_sdr :: bool
  ac_scan :: bool
  ac_capturing :: bool
  ac_scanning :: bool
  ac_recording :: bool
  ac_capture_btn :: string
  ac_scan_btn :: string
  ac_record_btn :: string

record sigint_labels =
  sl_status :: string
  sl_hint :: string
  sl_note :: string
  sl_coverage :: string
  sl_scan_status :: string
  sl_summary :: string

record sigint_page =
  sg_tuning :: tuning
  sg_activity :: activity
  sg_labels :: sigint_labels
  sg_enabled :: bool
  sg_dongles :: "(string \<times> int) list"
  sg_dongle :: nat
  sg_dongle_tip :: string
  sg_levels :: levels_control
  sg_3d :: waterfall3d
  sg_markers :: "drawn_marker list"
  sg_curve :: "(pyfloat \<times> pyfloat option) list"
  sg_slots :: "(string list \<times> bool) list"
  sg_intel :: "(string list \<times> bool \<times> string) list"
  sg_last :: "capture_info option"

datatype page_call =
    SdrStart pyfloat pyfloat pyfloat int
  | SdrStop
  | SdrArm string
  | SdrStopRecording
  | SdrShutdown
  | ScanStart scan_request
  | ScanStop
  | ScanShutdown

definition center_box :: "pyfloat \<Rightarrow> pyfloat" where "center_box = spin_value 24 1766 4"
definition rate_box :: "pyfloat \<Rightarrow> pyfloat" where "rate_box = spin_value (1/4) (32/10) 2"
definition gain_box :: "pyfloat \<Rightarrow> pyfloat" where "gain_box = spin_value 0 (496/10) 1"
definition bin_box :: "pyfloat \<Rightarrow> pyfloat" where "bin_box = spin_value 5 2500 0"

definition say_status :: "string \<Rightarrow> sigint_page \<Rightarrow> sigint_page" where
  "say_status message p = p\<lparr>sg_labels := (sg_labels p)\<lparr>sl_status := message\<rparr>\<rparr>"

abbreviation on_activity :: "(activity \<Rightarrow> activity) \<Rightarrow> sigint_page \<Rightarrow> sigint_page" where
  "on_activity f p \<equiv> p\<lparr>sg_activity := f (sg_activity p)\<rparr>"

section \<open>Presets and tuning\<close>

definition preset_describe :: "(pyfloat \<Rightarrow> string) \<Rightarrow> sdr_preset \<Rightarrow> string" where
  "preset_describe general s =
     sp_label s @ '' '' @ emdash @ '' '' @ fixed 4 (sp_center_mhz s) @ '' MHz '' @ [CHR 0xC2, CHR 0xB1] @ '' ''
       @ fixed 2 (sp_span_mhz s / 2) @ '' MHz, gain '' @ general (sp_gain_db s) @ '' dB''"

definition refresh_recording_hint :: "sigint_page \<Rightarrow> sigint_page" where
  "refresh_recording_hint p =
     (let per_second = estimated_bytes_per_second (tn_rate (sg_tuning p) * 10 ^ 6)
      in p\<lparr>sg_labels := (sg_labels p)\<lparr>sl_hint := ''Record raw I/Q: '' @ format_size per_second @ ''/s (''
             @ format_size (per_second * 60) @ '' per minute)''\<rparr>\<rparr>)"

text \<open>The controls are written with their signals blocked.\<close>

definition tune_to :: "sdr_preset \<Rightarrow> tuning \<Rightarrow> tuning" where
  "tune_to s t =
     t\<lparr>tn_region := (case sp_region s of
           Some r \<Rightarrow> if r \<in> fst ` set MESHTASTIC_REGIONS then r else tn_region t
         | None \<Rightarrow> tn_region t),
       tn_center := center_box (sp_center_mhz s), tn_rate := rate_box (sp_span_mhz s), tn_gain := gain_box (sp_gain_db s)\<rparr>"

definition apply_preset ::
    "(pyfloat \<Rightarrow> string) \<Rightarrow> (string \<Rightarrow> string) \<Rightarrow> sdr_preset \<Rightarrow> bool \<Rightarrow> sigint_page \<Rightarrow> sigint_page" where
  "apply_preset general note s announce p =
     (let p = p\<lparr>sg_tuning := tune_to s (sg_tuning p), sg_markers := draw_markers (sp_markers s) []\<rparr>;
          p = refresh_recording_hint (p\<lparr>sg_labels := (sg_labels p)\<lparr>sl_note := note (sp_key s)\<rparr>\<rparr>)
      in if announce then say_status (preset_describe general s) p else p)"

definition on_preset_changed ::
    "(pyfloat \<Rightarrow> string) \<Rightarrow> (string \<Rightarrow> string) \<Rightarrow> sdr_preset list \<Rightarrow> sigint_page \<Rightarrow> sigint_page" where
  "on_preset_changed general note presets p =
     (case tn_preset (sg_tuning p) of
        None \<Rightarrow> p
      | Some key \<Rightarrow> (case get_preset presets key of None \<Rightarrow> p | Some s \<Rightarrow> apply_preset general note s True p))"

definition on_manual_tuning_change :: "sigint_page \<Rightarrow> sigint_page" where
  "on_manual_tuning_change p = p\<lparr>sg_tuning := (sg_tuning p)\<lparr>tn_preset := None\<rparr>\<rparr>"

text \<open>A box announces a change only when its value moves.\<close>

definition choose_preset ::
    "(pyfloat \<Rightarrow> string) \<Rightarrow> (string \<Rightarrow> string) \<Rightarrow> sdr_preset list \<Rightarrow> string option \<Rightarrow> sigint_page \<Rightarrow> sigint_page" where
  "choose_preset general note presets key p =
     (if key = tn_preset (sg_tuning p) \<or> key \<notin> insert None (Some ` sp_key ` set presets) then p
      else on_preset_changed general note presets (p\<lparr>sg_tuning := (sg_tuning p)\<lparr>tn_preset := key\<rparr>\<rparr>))"

datatype edit = EditRegion string | EditCenter pyfloat | EditRate pyfloat | EditGain pyfloat

fun edited :: "edit \<Rightarrow> tuning \<Rightarrow> tuning" where
  "edited (EditRegion r) t = (if r \<in> fst ` set MESHTASTIC_REGIONS then t\<lparr>tn_region := r\<rparr> else t)"
| "edited (EditCenter x) t = t\<lparr>tn_center := center_box x\<rparr>"
| "edited (EditRate x) t = t\<lparr>tn_rate := rate_box x\<rparr>"
| "edited (EditGain x) t = t\<lparr>tn_gain := gain_box x\<rparr>"

definition edit_tuning :: "edit \<Rightarrow> sigint_page \<Rightarrow> sigint_page" where
  "edit_tuning e p =
     (let t = edited e (sg_tuning p)
      in if t = sg_tuning p then p else on_manual_tuning_change (p\<lparr>sg_tuning := t\<rparr>))"

definition edit_bin :: "pyfloat \<Rightarrow> sigint_page \<Rightarrow> sigint_page" where
  "edit_bin x p = p\<lparr>sg_tuning := (sg_tuning p)\<lparr>tn_bin := bin_box x\<rparr>\<rparr>"

section \<open>Availability, dongles and the device check\<close>

definition refresh_availability :: "tool_host \<Rightarrow> sigint_page \<Rightarrow> sigint_page" where
  "refresh_availability h p =
     (let (available, reason) = tools_available h; p = p\<lparr>sg_enabled := available\<rparr>
      in if available then p else say_status reason p)"

definition show_startup_status :: "tool_host \<Rightarrow> sigint_page \<Rightarrow> sigint_page" where
  "show_startup_status h p =
     (let (available, reason) = tools_available h in if available then say_status reason p else p)"

definition chosen_dongle :: "sigint_page \<Rightarrow> int" where
  "chosen_dongle p = (if sg_dongle p < length (sg_dongles p) then snd (sg_dongles p ! sg_dongle p) else 0)"

definition index_of_data :: "'b \<Rightarrow> ('a \<times> 'b) list \<Rightarrow> nat option" where
  "index_of_data x items = (case filter (\<lambda>i. snd (items ! i) = x) [0..<length items] of [] \<Rightarrow> None | i # _ \<Rightarrow> Some i)"

definition refresh_dongles :: "tool_host \<Rightarrow> tool_run \<Rightarrow> sigint_page \<Rightarrow> sigint_page" where
  "refresh_dongles h run p =
     (let (devices, message) = list_devices h run;
          chosen = chosen_dongle p;
          items = (if devices = [] then [(''0 (none detected)'', 0)] else [])
                @ map (\<lambda>d. (device_label d, int (de_index d))) devices;
          tip = join_with [lf] (map device_describe devices)
      in say_status message
           (p\<lparr>sg_dongles := items, sg_dongle := (case index_of_data chosen items of Some i \<Rightarrow> i | None \<Rightarrow> 0),
              sg_dongle_tip := (if tip \<noteq> [] then tip else message)\<rparr>))"

text \<open>\<open>message.splitlines()[0]\<close>; an empty message has no first line, and the handler ends there.\<close>

definition show_first_line :: "string \<Rightarrow> (sigint_page \<Rightarrow> sigint_page) \<Rightarrow> sigint_page \<Rightarrow> sigint_page" where
  "show_first_line message rest p = (case split_lines message of [] \<Rightarrow> p | l # _ \<Rightarrow> rest (say_status l p))"

definition on_probe :: "tool_host \<Rightarrow> tool_run \<Rightarrow> sigint_page \<Rightarrow> sigint_page" where
  "on_probe h run p =
     (if ac_capturing (sg_activity p) \<or> ac_scanning (sg_activity p)
      then say_status ''stop the capture before checking the dongle'' p
      else show_first_line (snd (probe_device h run)) (\<lambda>p. p) (say_status (''checking the dongle'' @ ellipsis) p))"

section \<open>The capture\<close>

text \<open>The controllers are made when they are first needed; a call on one that was never made is not made.\<close>

definition ensure_capture :: "sigint_page \<Rightarrow> sigint_page" where
  "ensure_capture = on_activity (\<lambda>a. a\<lparr>ac_sdr := True\<rparr>)"

definition call_sdr :: "page_call \<Rightarrow> sigint_page \<Rightarrow> page_call list" where
  "call_sdr c p = (if ac_sdr (sg_activity p) then [c] else [])"

definition stop_capture :: "tool_host \<Rightarrow> sigint_page \<Rightarrow> sigint_page \<times> page_call list" where
  "stop_capture h p =
     (let calls = call_sdr SdrStop p;
          p = on_activity (\<lambda>a. a\<lparr>ac_capturing := False, ac_capture_btn := ''Start''\<rparr>) p;
          p = (if ac_recording (sg_activity p)
               then on_activity (\<lambda>a. a\<lparr>ac_recording := False, ac_record_btn := ''Record''\<rparr>) p else p)
      in (refresh_availability h p, calls))"

definition stop_scan :: "tool_host \<Rightarrow> string \<Rightarrow> sigint_page \<Rightarrow> sigint_page \<times> page_call list" where
  "stop_scan h message p =
     (let calls = (if ac_scan (sg_activity p) then [ScanStop] else []);
          p = on_activity (\<lambda>a. a\<lparr>ac_scanning := False, ac_scan_btn := ''Scan region''\<rparr>) p;
          p = (if message \<noteq> [] then say_status message p else p)
      in (refresh_availability h p, calls))"

definition on_capture_clicked :: "tool_host \<Rightarrow> bool \<Rightarrow> sigint_page \<Rightarrow> sigint_page \<times> page_call list" where
  "on_capture_clicked h builds p =
     (if ac_capturing (sg_activity p) then stop_capture h p
      else let (p, freed) = (if ac_scanning (sg_activity p)
                             then stop_scan h ''stopped the band scan to free the dongle'' p else (p, []));
               center_hz = tn_center (sg_tuning p) * 10 ^ 6; rate_hz = tn_rate (sg_tuning p) * 10 ^ 6;
               p = p\<lparr>sg_levels := (sg_levels p)\<lparr>lv_view := configure center_hz rate_hz 1024 (lv_view (sg_levels p))\<rparr>,
                     sg_3d := fst (activate3d builds (configure3d HISTORY_ROWS 1024 (sg_3d p)))\<rparr>;
               p = ensure_capture p
           in (on_activity (\<lambda>a. a\<lparr>ac_capturing := True, ac_capture_btn := ''Stop''\<rparr>) p,
               freed @ [SdrStart center_hz rate_hz (tn_gain (sg_tuning p)) (chosen_dongle p)]))"

definition on_row :: "pyfloat list \<Rightarrow> sigint_page \<Rightarrow> levels_error + sigint_page" where
  "on_row row p =
     and_then (row_arrives (map Some row) (sg_levels p))
       (\<lambda>c. Inr (p\<lparr>sg_levels := c, sg_3d := push_row3d (map Some row) (sg_3d p)\<rparr>))"

definition on_capture_started :: "tool_host \<Rightarrow> pyfloat \<Rightarrow> pyfloat \<Rightarrow> nat \<Rightarrow> sigint_page \<Rightarrow> sigint_page" where
  "on_capture_started h center_hz rate_hz bins p =
     refresh_availability h
       (say_status (''capturing '' @ fixed 3 (center_hz / 10 ^ 6) @ '' MHz at '' @ fixed 2 (rate_hz / 10 ^ 6) @ '' MS/s, ''
          @ show_nat bins @ '' bins'') p)"

definition capture_over :: "sigint_page \<Rightarrow> sigint_page" where
  "capture_over = on_activity (\<lambda>a. a\<lparr>ac_capturing := False, ac_capture_btn := ''Start''\<rparr>)"

definition on_capture_stopped :: "tool_host \<Rightarrow> string \<Rightarrow> sigint_page \<Rightarrow> sigint_page" where
  "on_capture_stopped h message p =
     (let p = say_status message (capture_over p) in refresh_availability h (p\<lparr>sg_3d := stop3d (sg_3d p)\<rparr>))"

definition on_capture_error :: "tool_host \<Rightarrow> string \<Rightarrow> sigint_page \<Rightarrow> sigint_page" where
  "on_capture_error h message p = show_first_line message (refresh_availability h) (capture_over p)"

section \<open>Recording\<close>

definition recording_over :: "sigint_page \<Rightarrow> sigint_page" where
  "recording_over = on_activity (\<lambda>a. a\<lparr>ac_recording := False, ac_record_btn := ''Record''\<rparr>)"

definition on_record_clicked ::
    "tool_host \<Rightarrow> bool \<Rightarrow> string \<Rightarrow> sigint_page \<Rightarrow> sigint_page \<times> page_call list" where
  "on_record_clicked h builds chosen p =
     (if ac_recording (sg_activity p) then (recording_over p, call_sdr SdrStopRecording p)
      else if chosen = [] then (p, [])
      else let p = ensure_capture p;
               (p, stopped) = (if ac_capturing (sg_activity p) then stop_capture h p else (p, []));
               (p, started) = on_capture_clicked h builds p;
               calls = stopped @ SdrArm chosen # started
           in if \<not> ac_capturing (sg_activity p) then (p, calls)
              else (say_status (''recording to '' @ base_name chosen)
                      (on_activity (\<lambda>a. a\<lparr>ac_recording := True, ac_record_btn := ''Stop rec''\<rparr>) p), calls))"

definition on_recording_finished :: "capture_info \<Rightarrow> sigint_page \<Rightarrow> sigint_page" where
  "on_recording_finished info p =
     say_status (''recorded '' @ capture_describe info) (recording_over (p\<lparr>sg_last := Some info\<rparr>))"

definition on_recording_failed :: "string \<Rightarrow> sigint_page \<Rightarrow> sigint_page" where
  "on_recording_failed message p = show_first_line message (\<lambda>p. p) (recording_over p)"

section \<open>The band survey\<close>

definition on_scan_clicked :: "tool_host \<Rightarrow> sigint_page \<Rightarrow> sigint_page \<times> page_call list" where
  "on_scan_clicked h p =
     (if ac_scanning (sg_activity p) then stop_scan h ''scan stopped'' p
      else let (p, freed) =
                 (if ac_capturing (sg_activity p)
                  then (let (p, c) = stop_capture h p in (say_status ''stopped the capture to free the dongle'' p, c))
                  else (p, []))
           in case map_of MESHTASTIC_REGIONS (tn_region (sg_tuning p)) of
                None \<Rightarrow> (say_status ''pick a region to scan'' p, freed)
              | Some band \<Rightarrow>
                  (on_activity (\<lambda>a. a\<lparr>ac_scan := True, ac_scanning := True, ac_scan_btn := ''Stop scan''\<rparr>) p,
                   freed @ [ScanStart \<lparr>sr_low_hz = br_start band * 10 ^ 6, sr_high_hz = br_end band * 10 ^ 6,
                     sr_bin_hz = tn_bin (sg_tuning p) * 10 ^ 3, sr_interval_s = 1, sr_gain_db = tn_gain (sg_tuning p),
                     sr_device_index = chosen_dongle p\<rparr>]))"

definition on_scan_started :: "tool_host \<Rightarrow> pyfloat \<Rightarrow> pyfloat \<Rightarrow> pyfloat \<Rightarrow> sigint_page \<Rightarrow> sigint_page" where
  "on_scan_started h low_hz high_hz bin_hz p =
     (let p = say_status (''scanning '' @ fixed 1 (low_hz / 10 ^ 6) @ ''-'' @ fixed 1 (high_hz / 10 ^ 6) @ '' MHz'') p
      in refresh_availability h (p\<lparr>sg_labels := (sg_labels p)\<lparr>sl_scan_status := fixed 1 (bin_hz / 10 ^ 3) @ '' kHz bins''\<rparr>\<rparr>))"

definition scan_over :: "sigint_page \<Rightarrow> sigint_page" where
  "scan_over = on_activity (\<lambda>a. a\<lparr>ac_scanning := False, ac_scan_btn := ''Scan region''\<rparr>)"

definition on_scan_stopped :: "tool_host \<Rightarrow> string \<Rightarrow> sigint_page \<Rightarrow> sigint_page" where
  "on_scan_stopped h message p = refresh_availability h (say_status message (scan_over p))"

definition on_scan_error :: "tool_host \<Rightarrow> string \<Rightarrow> sigint_page \<Rightarrow> sigint_page" where
  "on_scan_error h message p = show_first_line message (refresh_availability h) (scan_over p)"

text \<open>A reading that was measured but is not a number prints as \<open>nan\<close>.\<close>

definition fixed_or_nan :: "nat \<Rightarrow> pyfloat option \<Rightarrow> string" where
  "fixed_or_nan n x = (case x of Some v \<Rightarrow> fixed n v | None \<Rightarrow> ''nan'')"

definition slot_cells :: "slot_occupancy \<Rightarrow> string list" where
  "slot_cells s =
     (if has_data s
      then [so_label s, fixed 4 (so_center_hz s / 10 ^ 6), fixed_or_nan 1 (so_peak_db s),
            ''+'' @ fixed_or_nan 1 (peak_over_floor_db s), slot_status s]
      else [so_label s, fixed 4 (so_center_hz s / 10 ^ 6), emdash, emdash, slot_status s])"

definition fill_slot_table :: "occupancy_report \<Rightarrow> (string list \<times> bool) list" where
  "fill_slot_table r = map (\<lambda>s. (slot_cells s, looks_busy s)) (take MAX_SLOT_ROWS (or_slots r))"

definition refresh_slots :: "pyfloat list \<Rightarrow> pyfloat option list \<Rightarrow> sigint_page \<Rightarrow> sigint_page" where
  "refresh_slots frequencies readings p =
     (case rank_slots frequencies readings
             (meshtastic_markers (tn_region (sg_tuning p)) None 0 (int MAX_SLOT_ROWS) None) FLOOR_PERCENTILE of
        Inl _ \<Rightarrow> p
      | Inr report \<Rightarrow> p\<lparr>sg_slots := fill_slot_table report\<rparr>)"

definition on_band :: "band_picture \<Rightarrow> sigint_page \<Rightarrow> sigint_page" where
  "on_band picture p =
     (let fs = row_frequencies (bp_row picture); readings = pw_power_db (bp_row picture)
      in refresh_slots fs readings
           (p\<lparr>sg_curve := zip (map (\<lambda>f. f / 10 ^ 6) fs) readings,
              sg_labels := (sg_labels p)\<lparr>sl_coverage := fixed 0 (bp_coverage picture * 100)
                @ ''% of bins measured over '' @ show_nat (bp_sweeps picture) @ '' sweeps''\<rparr>\<rparr>))"

section \<open>Packet intelligence\<close>

definition routing_text :: "node_intel \<Rightarrow> string" where
  "routing_text n =
     (let parts = (if ni_direct n > 0 then [''direct x'' @ show_nat (ni_direct n)] else [])
                @ (if ni_relayed n > 0 then [''relayed x'' @ show_nat (ni_relayed n)] else [])
                @ (if ni_via_mqtt n > 0 then [''mqtt x'' @ show_nat (ni_via_mqtt n)] else [])
      in if parts = [] then emdash else join_with '', '' parts)"

definition intel_cells :: "node_intel \<Rightarrow> string list" where
  "intel_cells n =
     [ni_label n, fixed 2 (ni_airtime_s n) @ '' s'', fixed 0 (ni_airtime_share n * 100) @ ''%'', show_nat (ni_packets n),
      fixed 1 (ni_packets_per_minute n),
      case ss_median_snr (ni_signal n) of Some s \<Rightarrow> signed_fixed 1 s | None \<Rightarrow> emdash,
      ni_snr_trend n, routing_text n, top_portnum n]"

text \<open>The cells of a row, whether they are yellow, and their tooltip.\<close>

definition intel_row :: "node_intel \<Rightarrow> string list \<times> bool \<times> string" where
  "intel_row n =
     (intel_cells n, ni_is_unfamiliar n,
      if ni_is_unfamiliar n then ''Heard over RF, and this mesh has no prior record of it''
      else if ni_snr_trend n = ''rising'' then ''Signal strengthening'' else [])"

definition intel_summary :: "intel_report \<Rightarrow> string" where
  "intel_summary r =
     show_nat (ir_analysed r) @ '' packets over '' @ format_duration (ir_window_s r) @ middot @ ''channel busy ''
       @ fixed 1 (ir_channel_duty_cycle r * 100) @ ''%''
       @ (if foreign r \<noteq> [] then middot @ show_nat (length (foreign r)) @ '' unfamiliar'' else [])
       @ (if overhead r > 1/100 then middot @ fixed 0 (overhead r * 100) @ ''% of packets had no payload size'' else [])"

definition fill_intel_table :: "intel_report \<Rightarrow> sigint_page \<Rightarrow> sigint_page" where
  "fill_intel_table r p =
     p\<lparr>sg_intel := map intel_row (take MAX_INTEL_ROWS (ir_nodes r)),
       sg_labels := (sg_labels p)\<lparr>sl_summary := intel_summary r\<rparr>\<rparr>"

definition set_packets ::
    "network_packet list \<Rightarrow> node_id list \<Rightarrow> (node_id \<times> string) list \<Rightarrow> string option \<Rightarrow> sigint_page \<Rightarrow> sigint_page" where
  "set_packets packets known labels preset p =
     (if packets = [] then p\<lparr>sg_intel := [], sg_labels := (sg_labels p)\<lparr>sl_summary := ''no traffic yet''\<rparr>\<rparr>
      else fill_intel_table
             (analyse_packets packets (params_for_preset preset) labels known (case preset of Some s \<Rightarrow> s | None \<Rightarrow> [])) p)"

section \<open>Building and closing the page\<close>

definition sigint_page_new ::
    "tool_host \<Rightarrow> (pyfloat \<Rightarrow> string) \<Rightarrow> (string \<Rightarrow> string) \<Rightarrow> bool \<Rightarrow> sdr_preset list \<Rightarrow> sigint_page" where
  "sigint_page_new h general note available presets =
     apply_preset general note (default_preset presets) False
       (refresh_recording_hint (show_startup_status h (refresh_availability h
         \<lparr>sg_tuning = \<lparr>tn_preset = (case presets of [] \<Rightarrow> None | s # _ \<Rightarrow> Some (sp_key s)), tn_region = DEFAULT_REGION,
              tn_center = center_box DEFAULT_CENTER_MHZ, tn_rate = rate_box DEFAULT_RATE_MSPS,
              tn_gain = gain_box DEFAULT_GAIN_DB, tn_bin = bin_box 50\<rparr>,
          sg_activity = \<lparr>ac_sdr = False, ac_scan = False, ac_capturing = False, ac_scanning = False, ac_recording = False,
              ac_capture_btn = ''Start'', ac_scan_btn = ''Scan region'', ac_record_btn = ''Record''\<rparr>,
          sg_labels = \<lparr>sl_status = [], sl_hint = [], sl_note = [], sl_coverage = [], sl_scan_status = [], sl_summary = []\<rparr>,
          sg_enabled = True, sg_dongles = [(''0'', 0)], sg_dongle = 0, sg_dongle_tip = [],
          sg_levels = levels_control_new waterfall_new,
          sg_3d = \<lparr>w3_bins = 0, w3_history = None, w3_available = available, w3_surface = False, w3_notice = False,
              w3_timer = False\<rparr>,
          sg_markers = [], sg_curve = [], sg_slots = [], sg_intel = [], sg_last = None\<rparr>)))"

definition sigint_shutdown :: "sigint_page \<Rightarrow> sigint_page \<times> page_call list" where
  "sigint_shutdown p =
     (let a = sg_activity p
      in (p\<lparr>sg_3d := stop3d (sg_3d p), sg_activity := a\<lparr>ac_sdr := False, ac_scan := False, ac_capturing := False, ac_scanning := False\<rparr>\<rparr>,
          (if ac_sdr a then [SdrShutdown] else []) @ (if ac_scan a then [ScanShutdown] else [])))"

section \<open>The page's events\<close>

record page_env =
  pv_host :: tool_host
  pv_general :: "pyfloat \<Rightarrow> string"
  pv_note :: "string \<Rightarrow> string"
  pv_builds :: bool
  pv_presets :: "sdr_preset list"

datatype user_event =
    ChoosePreset "string option"
  | Tune edit
  | SetBin pyfloat
  | ChooseDongle nat
  | RefreshDongles tool_run
  | ProbeDongle tool_run
  | CaptureClicked
  | RecordClicked string
  | ScanClicked
  | UseLevels control_event
  | TabShown
  | PacketsHeard "network_packet list" "node_id list" "(node_id \<times> string) list" "string option"

datatype sigint_event = User user_event | FromSdr sdr_output | FromScan scan_output

text \<open>Rows reach the levels control with the capture, not from its user.\<close>

definition use_levels :: "control_event \<Rightarrow> sigint_page \<Rightarrow> levels_error + sigint_page" where
  "use_levels e p =
     (case e of RowArrives _ \<Rightarrow> Inr p | _ \<Rightarrow> and_then (control_step e (sg_levels p)) (\<lambda>c. Inr (p\<lparr>sg_levels := c\<rparr>)))"

fun user_does :: "page_env \<Rightarrow> user_event \<Rightarrow> sigint_page \<Rightarrow> levels_error + sigint_page \<times> page_call list" where
  "user_does v (ChoosePreset k) p = Inr (choose_preset (pv_general v) (pv_note v) (pv_presets v) k p, [])"
| "user_does v (Tune e) p = Inr (edit_tuning e p, [])"
| "user_does v (SetBin x) p = Inr (edit_bin x p, [])"
| "user_does v (ChooseDongle i) p = Inr (p\<lparr>sg_dongle := min i (length (sg_dongles p) - 1)\<rparr>, [])"
| "user_does v (RefreshDongles run) p = Inr (refresh_dongles (pv_host v) run p, [])"
| "user_does v (ProbeDongle run) p = Inr (on_probe (pv_host v) run p, [])"
| "user_does v CaptureClicked p = Inr (if sg_enabled p then on_capture_clicked (pv_host v) (pv_builds v) p else (p, []))"
| "user_does v (RecordClicked path) p =
     Inr (if sg_enabled p then on_record_clicked (pv_host v) (pv_builds v) path p else (p, []))"
| "user_does v ScanClicked p = Inr (if sg_enabled p then on_scan_clicked (pv_host v) p else (p, []))"
| "user_does v (UseLevels e) p = and_then (use_levels e p) (\<lambda>p. Inr (p, []))"
| "user_does v TabShown p = Inr (p\<lparr>sg_3d := fst (activate3d (pv_builds v) (sg_3d p))\<rparr>, [])"
| "user_does v (PacketsHeard ps known labels preset) p = Inr (set_packets ps known labels preset p, [])"

fun sdr_says :: "page_env \<Rightarrow> sdr_output \<Rightarrow> sigint_page \<Rightarrow> levels_error + sigint_page" where
  "sdr_says v (RowReady row) p = on_row row p"
| "sdr_says v (Started c r b) p = Inr (on_capture_started (pv_host v) c r b p)"
| "sdr_says v (Stopped m) p = Inr (on_capture_stopped (pv_host v) m p)"
| "sdr_says v (Error m) p = Inr (on_capture_error (pv_host v) m p)"
| "sdr_says v (RecordingFinished i) p = Inr (on_recording_finished i p)"
| "sdr_says v (RecordingFailed m) p = Inr (on_recording_failed m p)"
| "sdr_says v (Terminate pid) p = Inr p"

fun scan_says :: "page_env \<Rightarrow> scan_output \<Rightarrow> sigint_page \<Rightarrow> sigint_page" where
  "scan_says v (SweepReady sweep) p = p"
| "scan_says v (BandReady picture) p = on_band picture p"
| "scan_says v (ScanStarted l h b) p = on_scan_started (pv_host v) l h b p"
| "scan_says v (ScanStopped m) p = on_scan_stopped (pv_host v) m p"
| "scan_says v (ScanError m) p = on_scan_error (pv_host v) m p"
| "scan_says v (ScanTerminate pid) p = p"

fun sigint_step :: "page_env \<Rightarrow> sigint_event \<Rightarrow> sigint_page \<Rightarrow> levels_error + sigint_page \<times> page_call list" where
  "sigint_step v (User u) p = user_does v u p"
| "sigint_step v (FromSdr out) p = and_then (sdr_says v out p) (\<lambda>p. Inr (p, []))"
| "sigint_step v (FromScan out) p = Inr (scan_says v out p, [])"

text \<open>A run of the page and what happened in it: each event, and after it the calls it led to.\<close>

datatype page_item = Happened sigint_event | Called page_call

fun page_run ::
    "page_env \<Rightarrow> sigint_event list \<Rightarrow> sigint_page \<Rightarrow> levels_error + sigint_page \<times> page_item list" where
  "page_run v [] p = Inr (p, [])"
| "page_run v (e # es) p =
     and_then (sigint_step v e p) (\<lambda>(p, calls).
       and_then (page_run v es p) (\<lambda>(p, items). Inr (p, Happened e # map Called calls @ items)))"

section \<open>The calls are orderly\<close>

text \<open>What the page last said or heard of each tool: \<open>c\<close>, the capture was started and neither stopped nor heard to
  be over; \<open>s\<close> the same for the scan.  \<open>orderly\<close> demands that a tool is only started when both
  are over, and a recording only armed when the capture is.\<close>

fun told :: "page_item \<Rightarrow> bool \<times> bool \<Rightarrow> bool \<times> bool" where
  "told (Called (SdrStart _ _ _ _)) (c, s) = (True, s)"
| "told (Called SdrStop) (c, s) = (False, s)"
| "told (Called (ScanStart _)) (c, s) = (c, True)"
| "told (Called ScanStop) (c, s) = (c, False)"
| "told (Happened (FromSdr (Stopped _))) (c, s) = (False, s)"
| "told (Happened (FromSdr (Error _))) (c, s) = (False, s)"
| "told (Happened (FromScan (ScanStopped _))) (c, s) = (c, False)"
| "told (Happened (FromScan (ScanError _))) (c, s) = (c, False)"
| "told _ cs = cs"

fun allowed :: "page_item \<Rightarrow> bool \<times> bool \<Rightarrow> bool" where
  "allowed (Called (SdrStart _ _ _ _)) (c, s) = (\<not> c \<and> \<not> s)"
| "allowed (Called (ScanStart _)) (c, s) = (\<not> c \<and> \<not> s)"
| "allowed (Called (SdrArm _)) (c, s) = (\<not> c)"
| "allowed _ cs = True"

fun orderly :: "bool \<times> bool \<Rightarrow> page_item list \<Rightarrow> bool" where
  "orderly cs [] \<longleftrightarrow> True"
| "orderly cs (i # is) \<longleftrightarrow> allowed i cs \<and> orderly (told i cs) is"

lemma orderly_append: "orderly cs (xs @ ys) \<longleftrightarrow> orderly cs xs \<and> orderly (fold told xs cs) ys"
  by (induction xs arbitrary: cs) auto

definition sigint_busy :: "sigint_page \<Rightarrow> bool \<times> bool" where
  "sigint_busy p = (ac_capturing (sg_activity p), ac_scanning (sg_activity p))"

definition activity_ok :: "activity \<Rightarrow> bool" where
  "activity_ok a \<longleftrightarrow> \<not> (ac_capturing a \<and> ac_scanning a) \<and> (ac_capturing a \<longrightarrow> ac_sdr a) \<and> (ac_scanning a \<longrightarrow> ac_scan a)
     \<and> ac_capture_btn a = (if ac_capturing a then ''Stop'' else ''Start'')
     \<and> ac_scan_btn a = (if ac_scanning a then ''Stop scan'' else ''Scan region'')
     \<and> ac_record_btn a = (if ac_recording a then ''Stop rec'' else ''Record'')"

lemmas page_simps = say_status_def refresh_recording_hint_def refresh_availability_def show_startup_status_def
  show_first_line_def edit_bin_def

lemma quiet_activity [simp]:
  "sg_activity (say_status m p) = sg_activity p"
  "sg_activity (refresh_recording_hint p) = sg_activity p"
  "sg_activity (refresh_availability h p) = sg_activity p"
  "sg_activity (show_startup_status h p) = sg_activity p"
  "sg_activity (apply_preset g n s b p) = sg_activity p"
  "sg_activity (on_manual_tuning_change p) = sg_activity p"
  "sg_activity (edit_tuning e p) = sg_activity p"
  "sg_activity (edit_bin x p) = sg_activity p"
  "sg_activity (refresh_dongles h run p) = sg_activity p"
  "sg_activity (on_band picture p) = sg_activity p"
  "sg_activity (set_packets ps known labels preset p) = sg_activity p"
  by (simp_all add: page_simps apply_preset_def on_manual_tuning_change_def edit_tuning_def refresh_dongles_def on_band_def
      refresh_slots_def set_packets_def fill_intel_table_def Let_def split: prod.split sum.split)

lemma quiet_levels [simp]:
  "sg_levels (say_status m p) = sg_levels p"
  "sg_levels (refresh_recording_hint p) = sg_levels p"
  "sg_levels (refresh_availability h p) = sg_levels p"
  "sg_levels (show_startup_status h p) = sg_levels p"
  "sg_levels (apply_preset g n s b p) = sg_levels p"
  "sg_levels (on_manual_tuning_change p) = sg_levels p"
  "sg_levels (edit_tuning e p) = sg_levels p"
  "sg_levels (edit_bin x p) = sg_levels p"
  "sg_levels (refresh_dongles h run p) = sg_levels p"
  "sg_levels (on_band picture p) = sg_levels p"
  "sg_levels (set_packets ps known labels preset p) = sg_levels p"
  by (simp_all add: page_simps apply_preset_def on_manual_tuning_change_def edit_tuning_def refresh_dongles_def on_band_def
      refresh_slots_def set_packets_def fill_intel_table_def Let_def split: prod.split sum.split)

lemma quiet_tuning [simp]:
  "sg_tuning (say_status m p) = sg_tuning p"
  "sg_tuning (refresh_recording_hint p) = sg_tuning p"
  "sg_tuning (refresh_availability h p) = sg_tuning p"
  "sg_tuning (show_startup_status h p) = sg_tuning p"
  "sg_tuning (refresh_dongles h run p) = sg_tuning p"
  "sg_tuning (on_band picture p) = sg_tuning p"
  "sg_tuning (set_packets ps known labels preset p) = sg_tuning p"
  by (simp_all add: page_simps refresh_dongles_def on_band_def
      refresh_slots_def set_packets_def fill_intel_table_def Let_def split: prod.split sum.split)

lemma quiet_more [simp]:
  "sg_activity (on_preset_changed g n ps p) = sg_activity p" "sg_levels (on_preset_changed g n ps p) = sg_levels p"
  "sg_activity (choose_preset g n ps k p) = sg_activity p" "sg_levels (choose_preset g n ps k p) = sg_levels p"
  "sg_activity (on_probe h run p) = sg_activity p" "sg_levels (on_probe h run p) = sg_levels p"
  "sg_tuning (on_probe h run p) = sg_tuning p"
  by (simp_all add: on_preset_changed_def choose_preset_def on_probe_def show_first_line_def split: option.split list.split)

text \<open>The page's own consistency, and what an event leaves of it.\<close>

definition page_ok :: "sigint_page \<Rightarrow> bool" where
  "page_ok p \<longleftrightarrow> activity_ok (sg_activity p) \<and> control_ok (sg_levels p)"

lemma page_ok_cong: "sg_activity q = sg_activity p \<Longrightarrow> sg_levels q = sg_levels p \<Longrightarrow> page_ok q = page_ok p"
  by (simp add: page_ok_def)

definition keeps :: "sigint_page \<Rightarrow> sigint_page \<times> page_call list \<Rightarrow> bool" where
  "keeps p r \<longleftrightarrow> page_ok (fst r) \<and> sg_tuning (fst r) = sg_tuning p
     \<and> orderly (sigint_busy p) (map Called (snd r)) \<and> fold told (map Called (snd r)) (sigint_busy p) = sigint_busy (fst r)"

lemma quiet_keeps: "page_ok p \<Longrightarrow> sg_activity q = sg_activity p \<Longrightarrow> sg_levels q = sg_levels p \<Longrightarrow> sg_tuning q = sg_tuning p \<Longrightarrow> keeps p (q, [])"
  by (simp add: keeps_def page_ok_def sigint_busy_def)

lemma stop_capture_keeps: "page_ok p \<Longrightarrow> ac_capturing (sg_activity p) \<Longrightarrow> keeps p (stop_capture h p)"
  by (auto simp: keeps_def stop_capture_def call_sdr_def page_ok_def activity_ok_def sigint_busy_def Let_def)

lemma stop_scan_keeps: "page_ok p \<Longrightarrow> ac_scanning (sg_activity p) \<Longrightarrow> keeps p (stop_scan h m p)"
  by (auto simp: keeps_def stop_scan_def page_ok_def activity_ok_def sigint_busy_def Let_def)

lemma configure_ok: "control_ok c \<Longrightarrow> control_ok (c\<lparr>lv_view := configure f w n (lv_view c)\<rparr>)"
  by (simp add: control_ok_def levels_open_def configure_def)

text \<open>Putting two calls one after the other.\<close>

lemma keeps_then:
  assumes "keeps p (q, cs)" "keeps q (r, ds)"
  shows "keeps p (r, cs @ ds)"
  using assms by (simp add: keeps_def orderly_append)

lemma begin_capture_keeps:
  assumes "page_ok p" "\<not> ac_capturing (sg_activity p)" "\<not> ac_scanning (sg_activity p)"
  shows "keeps p (on_capture_clicked h builds p)" "ac_capturing (sg_activity (fst (on_capture_clicked h builds p)))"
  using assms configure_ok [of "sg_levels p"]
  by (simp_all add: on_capture_clicked_def keeps_def ensure_capture_def page_ok_def activity_ok_def sigint_busy_def Let_def)

lemma stop_scan_done: "\<not> ac_scanning (sg_activity (fst (stop_scan h m p)))"
  "ac_capturing (sg_activity (fst (stop_scan h m p))) = ac_capturing (sg_activity p)"
  by (simp_all add: stop_scan_def Let_def)

lemma stop_capture_done: "\<not> ac_capturing (sg_activity (fst (stop_capture h p)))"
  "ac_scanning (sg_activity (fst (stop_capture h p))) = ac_scanning (sg_activity p)"
  by (simp_all add: stop_capture_def Let_def)

lemma start_capture_keeps:
  assumes "page_ok p" "\<not> ac_capturing (sg_activity p)"
  shows "keeps p (on_capture_clicked h builds p)" "ac_capturing (sg_activity (fst (on_capture_clicked h builds p)))"
proof -
  have "keeps p (on_capture_clicked h builds p) \<and> ac_capturing (sg_activity (fst (on_capture_clicked h builds p)))"
  proof (cases "ac_scanning (sg_activity p)")
    case True
    let ?m = "''stopped the band scan to free the dongle''"
    obtain q cs where q: "stop_scan h ?m p = (q, cs)" by fastforce
    have kq: "keeps p (q, cs)" using stop_scan_keeps [OF assms(1) True, of h ?m] q by simp
    have nq: "\<not> ac_capturing (sg_activity q)" "\<not> ac_scanning (sg_activity q)"
      using stop_scan_done [of h ?m p] assms(2) q by simp_all
    have "page_ok q" using kq by (simp add: keeps_def)
    from begin_capture_keeps [OF this nq, of h builds] have kr: "keeps q (on_capture_clicked h builds q)"
      "ac_capturing (sg_activity (fst (on_capture_clicked h builds q)))" by simp_all
    have "on_capture_clicked h builds p = (fst (on_capture_clicked h builds q), cs @ snd (on_capture_clicked h builds q))"
      using True assms(2) q nq by (simp add: on_capture_clicked_def Let_def)
    then show ?thesis using keeps_then [OF kq] kr by (metis fst_conv prod.collapse)
  next
    case False
    then show ?thesis using begin_capture_keeps [OF assms] by simp
  qed
  then show "keeps p (on_capture_clicked h builds p)" "ac_capturing (sg_activity (fst (on_capture_clicked h builds p)))"
    by simp_all
qed

lemma capture_clicked_keeps: "page_ok p \<Longrightarrow> keeps p (on_capture_clicked h builds p)"
  using start_capture_keeps(1) stop_capture_keeps
  by (cases "ac_capturing (sg_activity p)") (simp_all add: on_capture_clicked_def)

lemma begin_scan_keeps:
  assumes "page_ok p" "\<not> ac_capturing (sg_activity p)" "\<not> ac_scanning (sg_activity p)"
  shows "keeps p (on_scan_clicked h p)"
  using assms by (simp add: on_scan_clicked_def keeps_def page_ok_def activity_ok_def sigint_busy_def split: option.split)

lemma scan_clicked_keeps:
  assumes "page_ok p"
  shows "keeps p (on_scan_clicked h p)"
proof -
  consider (stop) "ac_scanning (sg_activity p)" | (free) "\<not> ac_scanning (sg_activity p)" "\<not> ac_capturing (sg_activity p)"
    | (busy) "\<not> ac_scanning (sg_activity p)" "ac_capturing (sg_activity p)" by blast
  then show ?thesis
  proof cases
    case stop
    then show ?thesis using stop_scan_keeps [OF assms] by (simp add: on_scan_clicked_def)
  next
    case free
    then show ?thesis using begin_scan_keeps [OF assms] by simp
  next
    case busy
    obtain q0 cs where q0: "stop_capture h p = (q0, cs)" by fastforce
    let ?q = "say_status ''stopped the capture to free the dongle'' q0"
    have kq: "keeps p (?q, cs)"
      using stop_capture_keeps [OF assms busy(2), of h] q0 by (simp add: keeps_def page_ok_def sigint_busy_def)
    have nq: "\<not> ac_capturing (sg_activity ?q)" "\<not> ac_scanning (sg_activity ?q)"
      using stop_capture_done [of h p] busy q0 by simp_all
    have "page_ok ?q" using kq by (simp add: keeps_def)
    from begin_scan_keeps [OF this nq, of h] have kr: "keeps ?q (on_scan_clicked h ?q)" .
    have "on_scan_clicked h p = (fst (on_scan_clicked h ?q), cs @ snd (on_scan_clicked h ?q))"
      using busy q0 nq by (simp add: on_scan_clicked_def split: option.split)
    then show ?thesis using keeps_then [OF kq] kr by (metis prod.collapse)
  qed
qed

lemma record_clicked_keeps:
  assumes ok: "page_ok p"
  shows "keeps p (on_record_clicked h builds chosen p)"
proof (cases "ac_recording (sg_activity p) \<or> chosen = []")
  case True
  then show ?thesis using ok
    by (auto simp: on_record_clicked_def recording_over_def call_sdr_def keeps_def page_ok_def activity_ok_def sigint_busy_def)
next
  case False
  let ?p = "ensure_capture p"
  have p: "page_ok ?p" "sigint_busy ?p = sigint_busy p" "sg_tuning ?p = sg_tuning p" "ac_recording (sg_activity ?p) = ac_recording (sg_activity p)"
    using ok by (simp_all add: ensure_capture_def page_ok_def activity_ok_def sigint_busy_def)
  obtain q cs where q: "(if ac_capturing (sg_activity ?p) then stop_capture h ?p else (?p, [])) = (q, cs)" by fastforce
  have kq: "keeps ?p (q, cs)"
  proof (cases "ac_capturing (sg_activity ?p)")
    case True
    then show ?thesis using stop_capture_keeps [OF p(1) True, of h] q by simp
  next
    case no: False
    then show ?thesis using quiet_keeps [OF p(1), of ?p] q by simp
  qed
  have nq: "\<not> ac_capturing (sg_activity q)" using q stop_capture_done [of h ?p] by (auto split: if_splits)
  obtain r ds where r: "on_capture_clicked h builds q = (r, ds)" by fastforce
  have okq: "page_ok q" using kq by (simp add: keeps_def)
  from start_capture_keeps [OF okq nq, of h builds] r have kr: "keeps q (r, ds)" "ac_capturing (sg_activity r)"
    by simp_all
  have "keeps q (q, [SdrArm chosen])" using okq nq by (simp add: keeps_def sigint_busy_def)
  with kq kr(1) have "keeps ?p (r, cs @ [SdrArm chosen] @ ds)" by (intro keeps_then)
  then have k: "keeps p (r, cs @ SdrArm chosen # ds)" using p by (simp add: keeps_def)
  let ?r = "say_status (''recording to '' @ base_name chosen)
      (on_activity (\<lambda>a. a\<lparr>ac_recording := True, ac_record_btn := ''Stop rec''\<rparr>) r)"
  have "on_record_clicked h builds chosen p = (?r, cs @ SdrArm chosen # ds)"
    using False kr(2) q r by (simp add: on_record_clicked_def p(4) split: prod.split)
  moreover have "keeps p (?r, cs @ SdrArm chosen # ds)"
    using k by (simp add: keeps_def page_ok_def activity_ok_def sigint_busy_def say_status_def)
  ultimately show ?thesis by simp
qed

lemma use_levels_ok:
  assumes "control_ok (sg_levels p)"
  shows "\<exists>c. use_levels e p = Inr (p\<lparr>sg_levels := c\<rparr>) \<and> control_ok c"
proof (cases "\<exists>row. e = RowArrives row")
  case True
  then show ?thesis using assms by (auto simp: use_levels_def intro: exI [of _ "sg_levels p"])
next
  case False
  obtain c where "control_step e (sg_levels p) = Inr c" "control_ok c" using control_step_ok [OF assms] by blast
  with False show ?thesis by (cases e) (auto simp: use_levels_def and_then_def simp del: control_step.simps)
qed

lemma edits_presets:
  "tn_preset (edited e t) = tn_preset t"
  by (cases e) simp_all

text \<open>Every event is handled without an exception, and leaves the page consistent.\<close>

lemma user_does_keeps:
  assumes ok: "page_ok p"
  shows "\<exists>q calls. user_does v u p = Inr (q, calls) \<and> page_ok q
    \<and> orderly (sigint_busy p) (map Called calls) \<and> fold told (map Called calls) (sigint_busy p) = sigint_busy q"
proof -
  have k: "keeps p r \<Longrightarrow> user_does v u p = Inr r \<Longrightarrow> ?thesis" for r by (cases r) (simp add: keeps_def)
  have quiet: "user_does v u p = Inr (q, []) \<Longrightarrow> sg_activity q = sg_activity p \<Longrightarrow> sg_levels q = sg_levels p \<Longrightarrow> ?thesis" for q
    using ok by (simp add: sigint_busy_def page_ok_def)
  show ?thesis
  proof (cases u)
    case CaptureClicked
    then show ?thesis
      using k [OF capture_clicked_keeps [OF ok], of "pv_host v" "pv_builds v"] quiet [of p] by (cases "sg_enabled p") simp_all
  next
    case (RecordClicked path)
    then show ?thesis
      using k [OF record_clicked_keeps [OF ok], of "pv_host v" "pv_builds v" path] quiet [of p] by (cases "sg_enabled p") simp_all
  next
    case ScanClicked
    then show ?thesis
      using k [OF scan_clicked_keeps [OF ok], of "pv_host v"] quiet [of p] by (cases "sg_enabled p") simp_all
  next
    case (UseLevels e)
    obtain c where "use_levels e p = Inr (p\<lparr>sg_levels := c\<rparr>)" "control_ok c"
      using use_levels_ok [of p e] ok by (auto simp: page_ok_def)
    with UseLevels ok show ?thesis by (simp add: and_then_def page_ok_def sigint_busy_def)
  qed (use ok in \<open>simp_all add: page_ok_def sigint_busy_def\<close>)
qed

lemma row_keeps:
  assumes "page_ok p"
  shows "\<exists>q. on_row row p = Inr q \<and> page_ok q \<and> sigint_busy q = sigint_busy p"
proof -
  obtain c where "row_arrives (map Some row) (sg_levels p) = Inr c" "control_ok c"
    using row_ok [of "sg_levels p" "map Some row"] assms by (auto simp: page_ok_def)
  with assms show ?thesis by (simp add: on_row_def and_then_def page_ok_def sigint_busy_def)
qed

lemma activity_over:
  "activity_ok a \<Longrightarrow> activity_ok (a\<lparr>ac_capturing := False, ac_capture_btn := ''Start''\<rparr>)"
  "activity_ok a \<Longrightarrow> activity_ok (a\<lparr>ac_scanning := False, ac_scan_btn := ''Scan region''\<rparr>)"
  "activity_ok a \<Longrightarrow> activity_ok (a\<lparr>ac_recording := False, ac_record_btn := ''Record''\<rparr>)"
  by (simp_all add: activity_ok_def)

lemma first_line_quiet:
  assumes "\<And>q. sg_activity (f q) = sg_activity q" "\<And>q. sg_levels (f q) = sg_levels q"
  shows "sg_activity (show_first_line m f p) = sg_activity p" "sg_levels (show_first_line m f p) = sg_levels p"
  using assms by (simp_all add: show_first_line_def split: list.split)

lemma sdr_says_keeps:
  assumes "page_ok p"
  shows "\<exists>q. sdr_says v out p = Inr q \<and> page_ok q \<and> sigint_busy q = told (Happened (FromSdr out)) (sigint_busy p)"
proof (cases out)
  case (RowReady row)
  then show ?thesis using row_keeps [OF assms, of row] by (simp add: sigint_busy_def)
qed (use assms in \<open>simp_all add: page_ok_def sigint_busy_def on_capture_started_def on_capture_stopped_def capture_over_def
      on_capture_error_def on_recording_finished_def recording_over_def on_recording_failed_def first_line_quiet activity_over Let_def\<close>)

lemma scan_says_keeps:
  assumes "page_ok p"
  shows "page_ok (scan_says v out p) \<and> sigint_busy (scan_says v out p) = told (Happened (FromScan out)) (sigint_busy p)"
  using assms
  by (cases out) (simp_all add: page_ok_def sigint_busy_def on_scan_started_def on_scan_stopped_def scan_over_def
      on_scan_error_def first_line_quiet activity_over Let_def)

lemma sigint_step_keeps:
  assumes "page_ok p"
  shows "\<exists>q calls. sigint_step v e p = Inr (q, calls) \<and> page_ok q
    \<and> orderly (sigint_busy p) (Happened e # map Called calls) \<and> fold told (Happened e # map Called calls) (sigint_busy p) = sigint_busy q"
proof (cases e)
  case (User u)
  then show ?thesis using user_does_keeps [OF assms, of v u] by (cases "sigint_busy p") auto
next
  case (FromSdr out)
  then show ?thesis using sdr_says_keeps [OF assms, of v out] by (cases "sigint_busy p") (auto simp: and_then_def)
next
  case (FromScan out)
  then show ?thesis using scan_says_keeps [OF assms, of v out] by (cases "sigint_busy p") auto
qed

lemma page_run_keeps:
  "page_ok p \<Longrightarrow> \<exists>q items. page_run v es p = Inr (q, items) \<and> page_ok q \<and> orderly (sigint_busy p) items
    \<and> fold told items (sigint_busy p) = sigint_busy q"
proof (induction es arbitrary: p)
  case (Cons e es)
  obtain q calls where q: "sigint_step v e p = Inr (q, calls)" "page_ok q"
    "orderly (sigint_busy p) (Happened e # map Called calls)" "fold told (Happened e # map Called calls) (sigint_busy p) = sigint_busy q"
    using sigint_step_keeps [OF Cons.prems, of v e] by blast
  obtain r items where "page_run v es q = Inr (r, items)" "page_ok r" "orderly (sigint_busy q) items" "fold told items (sigint_busy q) = sigint_busy r"
    using Cons.IH [OF q(2)] by blast
  then show ?case using q
      orderly_append [of "sigint_busy p" "Happened e # map Called calls" items] by (simp add: and_then_def)
qed simp

lemma page_ok_new: "page_ok (sigint_page_new h general note available presets)"
proof -
  have "levels_open waterfall_new" by (simp add: levels_open_def waterfall_new_def)
  then show ?thesis by (simp add: sigint_page_new_def page_ok_def activity_ok_def control_ok_new)
qed

lemma sigint_busy_new: "sigint_busy (sigint_page_new h general note available presets) = (False, False)"
  by (simp add: sigint_page_new_def sigint_busy_def)


section \<open>The preset box tells the truth\<close>

definition shows_preset :: "sdr_preset \<Rightarrow> tuning \<Rightarrow> bool" where
  "shows_preset s t \<longleftrightarrow> tn_center t = sp_center_mhz s \<and> tn_rate t = sp_span_mhz s \<and> tn_gain t = sp_gain_db s
     \<and> (case sp_region s of None \<Rightarrow> True | Some r \<Rightarrow> tn_region t = r)"

definition box_honest :: "sdr_preset list \<Rightarrow> tuning \<Rightarrow> bool" where
  "box_honest presets t \<longleftrightarrow>
     (case tn_preset t of
        None \<Rightarrow> True
      | Some k \<Rightarrow> (case get_preset presets k of None \<Rightarrow> False | Some s \<Rightarrow> shows_preset s t))"

text \<open>The boxes hold a preset's numbers without rounding or cutting them, and its region is in the list.\<close>

definition preset_fits :: "sdr_preset \<Rightarrow> bool" where
  "preset_fits s \<longleftrightarrow> center_box (sp_center_mhz s) = sp_center_mhz s \<and> rate_box (sp_span_mhz s) = sp_span_mhz s
     \<and> gain_box (sp_gain_db s) = sp_gain_db s
     \<and> (case sp_region s of None \<Rightarrow> True | Some r \<Rightarrow> r \<in> fst ` set MESHTASTIC_REGIONS)"

lemma presets_fit: "(case PRESETS of Inl _ \<Rightarrow> False | Inr ps \<Rightarrow> list_all preset_fits ps)"
  by code_simp

lemma tune_to_shows: "preset_fits s \<Longrightarrow> shows_preset s (tune_to s t)"
  by (auto simp: preset_fits_def shows_preset_def tune_to_def split: option.splits)

lemma get_preset_SomeD: "get_preset ps k = Some s \<Longrightarrow> s \<in> set ps \<and> sp_key s = k"
  unfolding get_preset_def by (drule find_sound) simp

lemma get_preset_found:
  assumes "k \<in> sp_key ` set ps"
  shows "\<exists>s. get_preset ps k = Some s \<and> s \<in> set ps"
proof -
  obtain t where "t \<in> set (rev ps)" "sp_key t = k" using assms by auto
  then obtain s where "find (\<lambda>p. sp_key p = k) (rev ps) = Some s" using find_complete [of t] by metis
  then have "get_preset ps k = Some s" by (simp add: get_preset_def)
  then show ?thesis using get_preset_SomeD by blast
qed

lemma get_preset_first:
  assumes "ps = s # rest" "distinct (map sp_key ps)"
  shows "get_preset ps (sp_key s) = Some s"
proof -
  obtain t where t: "get_preset ps (sp_key s) = Some t" "t \<in> set ps"
    using get_preset_found [of "sp_key s" ps] assms(1) by auto
  then have "sp_key t = sp_key s" using get_preset_SomeD by blast
  moreover have "inj_on sp_key (set ps)" using assms(2) by (simp add: distinct_map)
  ultimately have "t = s" using t(2) assms(1) by (intro inj_onD [of sp_key "set ps"]) simp_all
  with t(1) show ?thesis by simp
qed

lemma tune_to_preset [simp]: "tn_preset (tune_to s t) = tn_preset t"
  by (simp add: tune_to_def)

text \<open>Only the preset box and the tuning controls touch the tuning.\<close>

definition retunes :: "sigint_event \<Rightarrow> bool" where
  "retunes e \<longleftrightarrow> (case e of User u \<Rightarrow> (case u of ChoosePreset _ \<Rightarrow> True | Tune _ \<Rightarrow> True | SetBin _ \<Rightarrow> True | _ \<Rightarrow> False) | _ \<Rightarrow> False)"

lemma first_line_tuning: "(\<And>q. sg_tuning (f q) = sg_tuning q) \<Longrightarrow> sg_tuning (show_first_line m f p) = sg_tuning p"
  by (simp add: show_first_line_def split: list.split)

lemma sdr_says_tuning: "sdr_says v out p = Inr q \<Longrightarrow> sg_tuning q = sg_tuning p"
  by (cases out) (auto simp: on_row_def and_then_Inr on_capture_started_def on_capture_stopped_def capture_over_def
      on_capture_error_def on_recording_finished_def recording_over_def on_recording_failed_def first_line_tuning Let_def)

lemma scan_says_tuning: "sg_tuning (scan_says v out p) = sg_tuning p"
  by (cases out) (simp_all add: on_scan_started_def on_scan_stopped_def scan_over_def on_scan_error_def first_line_tuning Let_def)

lemma user_tuning:
  assumes "page_ok p" "user_does v u p = Inr (q, calls)" "\<not> retunes (User u)"
  shows "sg_tuning q = sg_tuning p"
proof (cases u)
  case CaptureClicked
  then show ?thesis using assms capture_clicked_keeps [OF assms(1), of "pv_host v" "pv_builds v"]
    by (auto simp: keeps_def split: if_splits)
next
  case (RecordClicked path)
  then show ?thesis using assms record_clicked_keeps [OF assms(1), of "pv_host v" "pv_builds v" path]
    by (auto simp: keeps_def split: if_splits)
next
  case ScanClicked
  then show ?thesis using assms scan_clicked_keeps [OF assms(1), of "pv_host v"]
    by (auto simp: keeps_def split: if_splits)
next
  case (UseLevels e)
  then show ?thesis using assms(2)
    by (cases e) (auto simp: use_levels_def and_then_Inr simp del: control_step.simps)
qed (use assms in \<open>auto simp: retunes_def\<close>)

lemma quiet_tuning_kept:
  assumes "page_ok p" "sigint_step v e p = Inr (q, calls)" "\<not> retunes e"
  shows "sg_tuning q = sg_tuning p"
  using assms user_tuning sdr_says_tuning by (cases e) (auto simp: and_then_Inr scan_says_tuning)

lemma retuning_honest:
  assumes "list_all preset_fits (pv_presets v)" "box_honest (pv_presets v) (sg_tuning p)" "user_does v u p = Inr (q, calls)"
    "retunes (User u)"
  shows "box_honest (pv_presets v) (sg_tuning q)"
proof (cases u)
  case (ChoosePreset key)
  then have q: "q = choose_preset (pv_general v) (pv_note v) (pv_presets v) key p" using assms(3) by simp
  show ?thesis
  proof (cases key)
    case None
    then show ?thesis using assms(2) q by (simp add: choose_preset_def on_preset_changed_def box_honest_def)
  next
    case (Some k)
    show ?thesis
    proof (cases "key = tn_preset (sg_tuning p) \<or> k \<notin> sp_key ` set (pv_presets v)")
      case True
      then show ?thesis using assms(2) q Some by (auto simp: choose_preset_def image_iff)
    next
      case False
      then obtain s where s: "get_preset (pv_presets v) k = Some s" "s \<in> set (pv_presets v)"
        using get_preset_found by blast
      then have fits: "preset_fits s" using assms(1) by (simp add: list_all_iff)
      let ?t = "tune_to s ((sg_tuning p)\<lparr>tn_preset := Some k\<rparr>)"
      have "choose_preset (pv_general v) (pv_note v) (pv_presets v) key p
          = apply_preset (pv_general v) (pv_note v) s True (p\<lparr>sg_tuning := (sg_tuning p)\<lparr>tn_preset := Some k\<rparr>\<rparr>)"
        using s(1) False Some by (simp add: choose_preset_def on_preset_changed_def inj_image_mem_iff)
      then have "sg_tuning q = ?t" using q by (simp add: apply_preset_def Let_def)
      then show ?thesis using s(1) tune_to_shows [OF fits] by (simp add: box_honest_def)
    qed
  qed
next
  case (Tune e)
  then show ?thesis using assms(2,3) by (auto simp: edit_tuning_def on_manual_tuning_change_def box_honest_def Let_def)
next
  case (SetBin x)
  then show ?thesis using assms(2,3)
    by (auto simp: edit_bin_def box_honest_def shows_preset_def split: option.splits)
qed (use assms(4) in \<open>simp_all add: retunes_def\<close>)

lemma step_honest:
  assumes "list_all preset_fits (pv_presets v)" "page_ok p" "box_honest (pv_presets v) (sg_tuning p)"
    "sigint_step v e p = Inr (q, calls)"
  shows "box_honest (pv_presets v) (sg_tuning q)"
proof (cases "retunes e")
  case True
  then obtain u where "e = User u" by (cases e) (auto simp: retunes_def)
  then show ?thesis using retuning_honest [OF assms(1,3)] assms(4) True by simp
next
  case False
  then show ?thesis using quiet_tuning_kept [OF assms(2,4)] assms(3) by simp
qed

lemma run_honest:
  assumes "list_all preset_fits (pv_presets v)"
  shows "page_ok p \<Longrightarrow> box_honest (pv_presets v) (sg_tuning p) \<Longrightarrow> page_run v es p = Inr (q, items)
    \<Longrightarrow> box_honest (pv_presets v) (sg_tuning q)"
proof (induction es arbitrary: p items)
  case (Cons e es)
  obtain r calls where r: "sigint_step v e p = Inr (r, calls)" "page_ok r" using sigint_step_keeps [OF Cons.prems(1)] by blast
  then obtain more where "page_run v es r = Inr (q, more)" using Cons.prems(3) by (auto simp: and_then_def split: sum.splits)
  then show ?case using Cons.IH r step_honest [OF assms Cons.prems(1,2) r(1)] by blast
qed simp

lemma honest_new:
  assumes "list_all preset_fits ps" "ps = s # rest" "distinct (map sp_key ps)"
  shows "box_honest ps (sg_tuning (sigint_page_new h general note available ps))"
proof -
  have t: "tn_preset (sg_tuning (sigint_page_new h general note available ps)) = Some (sp_key s)"
    "\<exists>t. sg_tuning (sigint_page_new h general note available ps) = tune_to s t"
    using assms(2) by (simp_all add: sigint_page_new_def apply_preset_def default_preset_def Let_def) blast
  have "preset_fits s" using assms(1,2) by simp
  with t get_preset_first [OF assms(2,3)] show ?thesis by (auto simp: box_honest_def tune_to_shows)
qed

text \<open>C38: whenever the SIGINT page names a preset, the region, centre, span and gain are exactly that preset's, whatever
  was clicked, edited, captured and scanned before; editing any of them by hand makes it say Custom.\<close>
theorem preset_box_honest:
  "case PRESETS of
     Inl _ \<Rightarrow> False
   | Inr ps \<Rightarrow>
       (case page_run (v\<lparr>pv_presets := ps\<rparr>) es (sigint_page_new (pv_host v) (pv_general v) (pv_note v) available ps) of
          Inl _ \<Rightarrow> False
        | Inr (p, items) \<Rightarrow> box_honest ps (sg_tuning p))"
proof -
  obtain ps where "PRESETS = Inr ps" using presets_fit by (auto split: sum.split_asm)
  then have ps: "PRESETS = Inr ps" "list_all preset_fits ps" "length ps = 7" "distinct (map sp_key ps)"
    using presets_fit presets_build unfolding \<open>PRESETS = Inr ps\<close> by simp_all
  then obtain s rest where "ps = s # rest" by (cases ps) auto
  let ?v = "v\<lparr>pv_presets := ps\<rparr>" let ?p = "sigint_page_new (pv_host v) (pv_general v) (pv_note v) available ps"
  obtain p items where "page_run ?v es ?p = Inr (p, items)" using page_run_keeps [OF page_ok_new] by blast
  moreover from this have "box_honest ps (sg_tuning p)"
    using run_honest [of ?v ?p es p items] honest_new [OF ps(2) \<open>ps = s # rest\<close> ps(4)] ps(2) page_ok_new by simp
  ultimately show ?thesis unfolding ps(1) by simp
qed

end
