(* ===== verification/SigintRun.thy ===== *)
theory SigintRun
  imports Sigint
begin

text \<open>
  The SIGINT page with its two workers: the calls of the page on \<open>SdrController\<close> and \<open>ScanController\<close>
  (\<open>services/sdr_source.py\<close>, \<open>services/rtl_scan.py\<close>), the starts that wait on the worker's thread, and the
  signals that wait on the GUI thread.  A schedule is a list of events in the order they happen.  Each controller is
  number 0 of the workers of \<open>Dongles\<close>.
\<close>

record run_world =
  rw_page :: page_env
  rw_iso :: "instant \<Rightarrow> string"
  rw_sidecar_ok :: bool
  rw_now :: instant

record sigint_run =
  rn_page :: sigint_page
  rn_dongles :: dongle_system
  rn_sdr_jobs :: "(pyfloat \<times> pyfloat \<times> pyfloat \<times> int) list"
  rn_scan_jobs :: "scan_request list"
  rn_inbox :: "sigint_event list"

definition run_new :: "run_world \<Rightarrow> bool \<Rightarrow> sigint_run" where
  "run_new w available =
     \<lparr>rn_page = sigint_page_new (pv_host (rw_page w)) (pv_general (rw_page w)) (pv_note (rw_page w)) available
         (pv_presets (rw_page w)),
      rn_dongles = dongle_system_new (\<lambda>c. case c of Inl _ \<Rightarrow> ''the SIGINT spectrum'' | Inr _ \<Rightarrow> ''the SIGINT band scan''),
      rn_sdr_jobs = [], rn_scan_jobs = [], rn_inbox = []\<rparr>"

text \<open>The workers, changed in place: \<open>stop\<close>, \<open>arm_recording\<close> and \<open>stop_recording\<close> are called from the GUI thread.\<close>

definition on_sdr :: "(sdr_worker \<Rightarrow> sdr_worker) \<Rightarrow> sigint_run \<Rightarrow> sigint_run" where
  "on_sdr f r =
     (let s = rn_dongles r in r\<lparr>rn_dongles := with_sdr 0 (f (dg_sdr s 0), dg_leases s) (dg_looping s (Inl 0)) s\<rparr>)"

definition on_scan_worker :: "(scan_worker \<Rightarrow> scan_worker) \<Rightarrow> sigint_run \<Rightarrow> sigint_run" where
  "on_scan_worker f r =
     (let s = rn_dongles r in r\<lparr>rn_dongles := with_scan 0 (f (dg_scan s 0), dg_leases s) (dg_looping s (Inr 0)) s\<rparr>)"

text \<open>A signal sent on the GUI thread is handled at once, one sent by a worker's thread waits in the inbox.\<close>

fun tell_page :: "run_world \<Rightarrow> sdr_output list \<Rightarrow> sigint_run \<Rightarrow> levels_error + sigint_run" where
  "tell_page w [] r = Inr r"
| "tell_page w (out # outs) r =
     and_then (sdr_says (rw_page w) out (rn_page r)) (\<lambda>p. tell_page w outs (r\<lparr>rn_page := p\<rparr>))"

fun perform :: "run_world \<Rightarrow> page_call \<Rightarrow> sigint_run \<Rightarrow> levels_error + sigint_run" where
  "perform w (SdrStart c rate g d) r = Inr (r\<lparr>rn_sdr_jobs := rn_sdr_jobs r @ [(c, rate, g, d)]\<rparr>)"
| "perform w SdrStop r = Inr (on_sdr (\<lambda>s. fst (sdr_stop True s)) r)"
| "perform w (SdrArm path) r = Inr (on_sdr (arm_recording (Some path) None) r)"
| "perform w SdrStopRecording r =
     (let out = snd (stop_recording (rw_iso w) (rw_sidecar_ok w) (rw_now w) (dg_sdr (rn_dongles r) 0))
      in tell_page w out (on_sdr (\<lambda>s. fst (stop_recording (rw_iso w) (rw_sidecar_ok w) (rw_now w) s)) r))"
| "perform w SdrShutdown r = Inr ((on_sdr (\<lambda>s. fst (sdr_stop True s)) r)\<lparr>rn_sdr_jobs := []\<rparr>)"
| "perform w (ScanStart q) r = Inr (r\<lparr>rn_scan_jobs := rn_scan_jobs r @ [q]\<rparr>)"
| "perform w ScanStop r = Inr (on_scan_worker (\<lambda>s. fst (scan_stop True s)) r)"
| "perform w ScanShutdown r = Inr ((on_scan_worker (\<lambda>s. fst (scan_stop True s)) r)\<lparr>rn_scan_jobs := []\<rparr>)"

fun perform_all :: "run_world \<Rightarrow> page_call list \<Rightarrow> sigint_run \<Rightarrow> levels_error + sigint_run" where
  "perform_all w [] r = Inr r"
| "perform_all w (c # cs) r = and_then (perform w c r) (perform_all w cs)"

datatype run_event =
    Gui user_event
  | Deliver
  | SdrThread start_world
  | SdrReads spectrum "(nat \<times> string) option" string
  | SdrLeaves child_end
  | ScanThread "string + nat"
  | ScanReads "string \<Rightarrow> pyfloat option" string
  | ScanLeaves child_end

text \<open>An event that cannot happen (nothing waits, the thread is busy or idle) changes nothing.\<close>

fun run_step :: "run_world \<Rightarrow> run_event \<Rightarrow> sigint_run \<Rightarrow> levels_error + sigint_run" where
  "run_step w (Gui u) r =
     and_then (user_does (rw_page w) u (rn_page r)) (\<lambda>(p, calls). perform_all w calls (r\<lparr>rn_page := p\<rparr>))"
| "run_step w Deliver r =
     (case rn_inbox r of
        [] \<Rightarrow> Inr r
      | e # es \<Rightarrow>
          and_then (sigint_step (rw_page w) e (rn_page r))
            (\<lambda>(p, calls). perform_all w calls (r\<lparr>rn_page := p, rn_inbox := es\<rparr>)))"
| "run_step w (SdrThread env) r =
     (case rn_sdr_jobs r of
        [] \<Rightarrow> Inr r
      | (c, rate, g, d) # jobs \<Rightarrow>
          (let s = rn_dongles r in
           if dg_looping s (Inl 0) then Inr r
           else let (wl, out, entered) = sdr_begin env c rate g d (dg_sdr s 0) (dg_leases s)
                in Inr (r\<lparr>rn_dongles := with_sdr 0 wl entered s, rn_sdr_jobs := jobs,
                          rn_inbox := rn_inbox r @ map FromSdr out\<rparr>)))"
| "run_step w (SdrReads spec fault raw) r =
     (let s = rn_dongles r in
      if \<not> dg_looping s (Inl 0) \<or> \<not> sw_running (dg_sdr s 0) then Inr r
      else let (v, out) = sdr_round spec (rw_iso w) (rw_sidecar_ok w) (rw_now w) fault raw (dg_sdr s 0)
           in Inr (r\<lparr>rn_dongles := with_sdr 0 (v, dg_leases s) True s, rn_inbox := rn_inbox r @ map FromSdr out\<rparr>))"
| "run_step w (SdrLeaves ending) r =
     (let s = rn_dongles r in
      if \<not> dg_looping s (Inl 0) then Inr r
      else let (wl, out) = sdr_leave (rw_iso w) (rw_sidecar_ok w) (rw_now w) ending (dg_sdr s 0) (dg_leases s)
           in Inr (r\<lparr>rn_dongles := with_sdr 0 wl False s, rn_inbox := rn_inbox r @ map FromSdr out\<rparr>))"
| "run_step w (ScanThread popen) r =
     (case rn_scan_jobs r of
        [] \<Rightarrow> Inr r
      | q # jobs \<Rightarrow>
          (let s = rn_dongles r in
           if dg_looping s (Inr 0) then Inr r
           else let (vl, out, entered) = scan_begin (pv_general (rw_page w)) (pv_host (rw_page w)) popen q
                      (dg_scan s 0) (dg_leases s)
                in Inr (r\<lparr>rn_dongles := with_scan 0 vl entered s, rn_scan_jobs := jobs,
                          rn_inbox := rn_inbox r @ map FromScan out\<rparr>)))"
| "run_step w (ScanReads float_of raw) r =
     (let s = rn_dongles r in
      if \<not> dg_looping s (Inr 0) \<or> \<not> nw_running (dg_scan s 0) then Inr r
      else let (v, out) = scan_round float_of raw (dg_scan s 0)
           in Inr (r\<lparr>rn_dongles := with_scan 0 (v, dg_leases s) True s, rn_inbox := rn_inbox r @ map FromScan out\<rparr>))"
| "run_step w (ScanLeaves ending) r =
     (let s = rn_dongles r in
      if \<not> dg_looping s (Inr 0) then Inr r
      else let (vl, out) = scan_leave ending (dg_scan s 0) (dg_leases s)
           in Inr (r\<lparr>rn_dongles := with_scan 0 vl False s, rn_inbox := rn_inbox r @ map FromScan out\<rparr>))"

fun run_all :: "run_world \<Rightarrow> run_event list \<Rightarrow> sigint_run \<Rightarrow> levels_error + sigint_run" where
  "run_all w [] r = Inr r"
| "run_all w (e # es) r = and_then (run_step w e r) (run_all w es)"

section \<open>No schedule breaks the page or shares a dongle\<close>

definition run_ok :: "sigint_run \<Rightarrow> bool" where
  "run_ok r \<longleftrightarrow> page_ok (rn_page r) \<and> dongle_inv (rn_dongles r)"

text \<open>A change that leaves owner, child and device alone.\<close>

lemma on_sdr_ok:
  assumes "run_ok r" "sw_owner (f (dg_sdr (rn_dongles r) 0)) = sw_owner (dg_sdr (rn_dongles r) 0)"
    "sw_proc (f (dg_sdr (rn_dongles r) 0)) = sw_proc (dg_sdr (rn_dongles r) 0)"
    "sw_device (f (dg_sdr (rn_dongles r) 0)) = sw_device (dg_sdr (rn_dongles r) 0)"
  shows "run_ok (on_sdr f r)"
proof -
  let ?s = "rn_dongles r"
  have inv: "dongle_inv ?s" using assms(1) by (simp add: run_ok_def)
  note d = dongle_invD [OF inv]
  have "(open_device ?s)(Inl 0 := if sw_proc (f (dg_sdr ?s 0)) \<noteq> None then Some (sw_device (f (dg_sdr ?s 0))) else None)
      = open_device ?s"
    using assms(3,4) by (auto simp: fun_eq_iff open_device_def)
  with d(3) have hon: "sdr.honoured owner_name ((open_device ?s)(Inl 0 := if sw_proc (f (dg_sdr ?s 0)) \<noteq> None
      then Some (sw_device (f (dg_sdr ?s 0))) else None)) (dg_leases ?s)" by (simp only:)
  have "dongle_inv (with_sdr 0 (f (dg_sdr ?s 0), dg_leases ?s) (dg_looping ?s (Inl 0)) ?s)"
  proof (rule dongle_invI_sdr [OF inv], unfold fst_conv snd_conv)
    show "sw_owner (f (dg_sdr ?s 0)) = owner_name (Inl 0)" using d(1) [of 0] assms(2) by simp
    show "dg_looping ?s (Inl 0) \<or> sw_proc (f (dg_sdr ?s 0)) = None" using d(4) [of 0] assms(3) by simp
  qed (rule hon)
  with assms(1) show ?thesis by (simp add: run_ok_def on_sdr_def Let_def)
qed

lemma scan_stop_ok:
  assumes "run_ok r"
  shows "run_ok (on_scan_worker (\<lambda>s. fst (scan_stop True s)) r)"
proof -
  obtain v out where v: "scan_stop True (dg_scan (rn_dongles r) 0) = (v, out)" by fastforce
  from dongle_inv_step [OF scan_stops [OF v]] assms v show ?thesis by (simp add: run_ok_def on_scan_worker_def Let_def)
qed

lemma tell_page_ok: "run_ok r \<Longrightarrow> \<exists>r'. tell_page w outs r = Inr r' \<and> run_ok r'"
proof (induction outs arbitrary: r)
  case (Cons out outs)
  obtain p where "sdr_says (rw_page w) out (rn_page r) = Inr p" "page_ok p"
    using sdr_says_keeps [of "rn_page r" "rw_page w" out] Cons.prems by (auto simp: run_ok_def)
  with Cons show ?case by (simp add: and_then_def run_ok_def)
qed simp

lemma perform_ok: "run_ok r \<Longrightarrow> \<exists>r'. perform w c r = Inr r' \<and> run_ok r'"
proof (cases c)
  case (SdrArm path)
  moreover assume "run_ok r"
  ultimately show ?thesis using on_sdr_ok [of r "arm_recording (Some path) None"] by (simp add: arm_recording_def)
next
  case SdrStopRecording
  moreover assume "run_ok r"
  ultimately show ?thesis
    using on_sdr_ok [of r "\<lambda>s. fst (stop_recording (rw_iso w) (rw_sidecar_ok w) (rw_now w) s)"]
    by (simp add: tell_page_ok stop_recording_def Let_def)
qed (auto simp: on_sdr_ok scan_stop_ok, simp_all add: run_ok_def on_sdr_ok [unfolded run_ok_def] scan_stop_ok [unfolded run_ok_def])

lemma perform_all_ok: "run_ok r \<Longrightarrow> \<exists>r'. perform_all w cs r = Inr r' \<and> run_ok r'"
proof (induction cs arbitrary: r)
  case (Cons c cs)
  obtain r' where "perform w c r = Inr r'" "run_ok r'" using perform_ok [OF Cons.prems] by blast
  with Cons.IH show ?case by (simp add: and_then_def)
qed simp

text \<open>The events of the workers' threads are steps of the dongle system.\<close>

lemma thread_step:
  assumes "run_step w e r = Inr r'" "e \<notin> range Gui" "e \<noteq> Deliver"
  shows "rn_page r' = rn_page r" "rn_dongles r' = rn_dongles r \<or> dongle_step (rn_dongles r) (rn_dongles r')"
  using assms
  by (cases e; fastforce simp: Let_def intro: dongle_step.intros split: list.splits prod.splits if_splits)+

lemma run_step_ok:
  assumes "run_ok r"
  shows "\<exists>r'. run_step w e r = Inr r' \<and> run_ok r'"
proof -
  consider u where "e = Gui u" | "e = Deliver" | "e \<notin> range Gui" "e \<noteq> Deliver" by blast
  then show ?thesis
  proof cases
    case 1
    obtain p calls where "user_does (rw_page w) u (rn_page r) = Inr (p, calls)" "page_ok p"
      using user_does_keeps [of "rn_page r" "rw_page w" u] assms by (auto simp: run_ok_def)
    with 1 assms show ?thesis using perform_all_ok [of "r\<lparr>rn_page := p\<rparr>"] by (simp add: and_then_def run_ok_def)
  next
    case 2
    show ?thesis
    proof (cases "rn_inbox r")
      case Nil
      with 2 assms show ?thesis by simp
    next
      case (Cons x es)
      obtain p calls where "sigint_step (rw_page w) x (rn_page r) = Inr (p, calls)" "page_ok p"
        using sigint_step_keeps [of "rn_page r" "rw_page w" x] assms by (auto simp: run_ok_def)
      with 2 Cons assms show ?thesis
        using perform_all_ok [of "r\<lparr>rn_page := p, rn_inbox := es\<rparr>"] by (simp add: and_then_def run_ok_def)
    qed
  next
    case 3
    have "\<exists>r'. run_step w e r = Inr r'"
      using 3 by (cases e) (auto simp: Let_def split: list.split prod.split)
    then obtain r' where r': "run_step w e r = Inr r'" by blast
    from thread_step [OF r' 3] assms have "run_ok r'" by (auto simp: run_ok_def dest: dongle_inv_step)
    with r' show ?thesis by blast
  qed
qed

lemma run_all_ok: "run_ok r \<Longrightarrow> \<exists>r'. run_all w es r = Inr r' \<and> run_ok r'"
proof (induction es arbitrary: r)
  case (Cons e es)
  obtain r' where "run_step w e r = Inr r'" "run_ok r'" using run_step_ok [OF Cons.prems] by blast
  with Cons.IH show ?case by (simp add: and_then_def)
qed simp

lemma run_ok_new: "run_ok (run_new w available)"
  by (simp add: run_ok_def run_new_def page_ok_new dongle_inv_new)

text \<open>Under every schedule of the user, the two workers' threads and the signals between them, the SIGINT page
  handles every event without an exception, its buttons name what it believes is running and never both, and its
  capture and its scan never have a child on the same dongle.\<close>
theorem sigint_run_safe:
  "\<exists>r. run_all w es (run_new w available) = Inr r \<and> activity_ok (sg_activity (rn_page r))
     \<and> \<not> (\<exists>d. open_device (rn_dongles r) (Inl 0) = Some d \<and> open_device (rn_dongles r) (Inr 0) = Some d)"
proof -
  obtain r where r: "run_all w es (run_new w available) = Inr r" "run_ok r" using run_all_ok [OF run_ok_new] by blast
  then have "sdr.honoured owner_name (open_device (rn_dongles r)) (dg_leases (rn_dongles r))"
    by (intro dongle_invD(3)) (simp add: run_ok_def)
  from sdr.honoured_exclusive [OF this _ _ owner_name_inj]
  have "\<not> (\<exists>d. open_device (rn_dongles r) (Inl 0) = Some d \<and> open_device (rn_dongles r) (Inr 0) = Some d)" by blast
  with r show ?thesis by (auto simp: run_ok_def page_ok_def)
qed

section \<open>What the schedules show of the code\<close>

text \<open>The page at rest, with both buttons usable, and its worker at rest.\<close>

definition at_rest :: "sigint_run \<Rightarrow> bool" where
  "at_rest r \<longleftrightarrow> sg_enabled (rn_page r) \<and> \<not> ac_capturing (sg_activity (rn_page r)) \<and> \<not> ac_scanning (sg_activity (rn_page r))
     \<and> \<not> sw_running (dg_sdr (rn_dongles r) 0) \<and> rn_sdr_jobs r = [] \<and> rn_inbox r = []"

lemma start_at_rest:
  assumes "\<not> ac_capturing (sg_activity p)" "\<not> ac_scanning (sg_activity p)"
  shows "\<exists>q c rate g d. on_capture_clicked h builds p = (q, [SdrStart c rate g d]) \<and> sg_enabled q = sg_enabled p
    \<and> sg_activity q = (sg_activity p)\<lparr>ac_sdr := True, ac_capturing := True, ac_capture_btn := ''Stop''\<rparr>"
  using assms by (simp add: on_capture_clicked_def ensure_capture_def Let_def)

lemma stop_after_start:
  assumes "ac_capturing (sg_activity p)" "ac_sdr (sg_activity p)"
  shows "\<exists>q. stop_capture h p = (q, [SdrStop]) \<and> ac_capturing (sg_activity q) = False
    \<and> ac_capture_btn (sg_activity q) = ''Start''"
  using assms by (simp add: stop_capture_def call_sdr_def Let_def)

text \<open>A stop that comes before the worker's thread took the start finds nothing to stop: the start still waits, and
  runs, while the page says Start.\<close>

lemma stop_before_start_lost:
  assumes "at_rest r"
  shows "\<exists>r'. run_all w [Gui CaptureClicked, Gui CaptureClicked] r = Inr r' \<and> rn_sdr_jobs r' \<noteq> []
    \<and> ac_capture_btn (sg_activity (rn_page r')) = ''Start'' \<and> dg_sdr (rn_dongles r') 0 = dg_sdr (rn_dongles r) 0"
proof -
  obtain q c rate g d where q: "on_capture_clicked (pv_host (rw_page w)) (pv_builds (rw_page w)) (rn_page r) = (q, [SdrStart c rate g d])"
    "sg_enabled q" "ac_capturing (sg_activity q)" "ac_sdr (sg_activity q)"
    using start_at_rest [of "rn_page r" "pv_host (rw_page w)" "pv_builds (rw_page w)"] assms by (auto simp: at_rest_def)
  obtain q' where q': "stop_capture (pv_host (rw_page w)) q = (q', [SdrStop])" "ac_capture_btn (sg_activity q') = ''Start''"
    using stop_after_start [OF q(3,4), of "pv_host (rw_page w)"] by auto
  have click: "on_capture_clicked (pv_host (rw_page w)) (pv_builds (rw_page w)) q = (q', [SdrStop])"
    using q(3) q'(1) by (simp add: on_capture_clicked_def)
  have "fst (sdr_stop True (dg_sdr (rn_dongles r) 0)) = dg_sdr (rn_dongles r) 0"
    using assms by (simp add: sdr_stop_def at_rest_def)
  then show ?thesis using q q' click assms
    by (simp add: and_then_def at_rest_def on_sdr_def with_sdr_def Let_def)
qed

text \<open>Record during a capture restarts it: the end of the first capture is reported after the second start was asked
  for, and the page takes it for the second one.\<close>

lemma record_shows_start:
  assumes "sg_enabled (rn_page r)" "ac_capturing (sg_activity (rn_page r))" "ac_sdr (sg_activity (rn_page r))"
    "\<not> ac_scanning (sg_activity (rn_page r))" "\<not> ac_recording (sg_activity (rn_page r))" "path \<noteq> []" "rn_inbox r = []"
    "dg_looping (rn_dongles r) (Inl 0)" "sw_recorder (dg_sdr (rn_dongles r) 0) = None"
  shows "\<exists>r'. run_all w [Gui (RecordClicked path), SdrLeaves ending, Deliver] r = Inr r' \<and> rn_sdr_jobs r' \<noteq> []
    \<and> ac_capture_btn (sg_activity (rn_page r')) = ''Start'' \<and> ac_record_btn (sg_activity (rn_page r')) = ''Stop rec''"
proof -
  let ?h = "pv_host (rw_page w)" and ?b = "pv_builds (rw_page w)" and ?p = "rn_page r"
  obtain q1 where q1: "stop_capture ?h (ensure_capture ?p) = (q1, [SdrStop])" "\<not> ac_capturing (sg_activity q1)"
    using stop_after_start [of "ensure_capture ?p" ?h] assms(2) by (auto simp: ensure_capture_def)
  moreover have "\<not> ac_scanning (sg_activity q1)"
    using stop_capture_done(2) [of ?h "ensure_capture ?p"] q1(1) assms(4) by (simp add: ensure_capture_def)
  ultimately obtain q2 c rate g d where q2: "on_capture_clicked ?h ?b q1 = (q2, [SdrStart c rate g d])"
    "ac_capturing (sg_activity q2)"
    using start_at_rest [of q1 ?h ?b] by auto
  let ?q = "say_status (''recording to '' @ base_name path)
      (on_activity (\<lambda>a. a\<lparr>ac_recording := True, ac_record_btn := ''Stop rec''\<rparr>) q2)"
  have "ac_capturing (sg_activity (ensure_capture ?p))" "\<not> ac_recording (sg_activity (ensure_capture ?p))"
    using assms by (simp_all add: ensure_capture_def)
  then have click: "on_record_clicked ?h ?b path ?p = (?q, [SdrStop, SdrArm path, SdrStart c rate g d])"
    using q1 q2 assms(5,6) by (simp add: on_record_clicked_def)
  have leave: "snd (sdr_leave (rw_iso w) (rw_sidecar_ok w) (rw_now w) ending
        (arm_recording (Some path) None (fst (sdr_stop True (dg_sdr (rn_dongles r) 0)))) l) = [Stopped ''Capture stopped'']" for l
    using assms(9) by (simp add: sdr_leave_def sdr_close_def finish_recording_def arm_recording_def sdr_stop_def Let_def)
  show ?thesis using assms(1,7,8) leave
    by (simp add: click and_then_def on_sdr_def with_sdr_def Let_def case_prod_beta on_capture_stopped_def capture_over_def)
qed

text \<open>Nothing disarms a recording: the next capture opens the same file again, and empties it.\<close>

lemma armed_again:
  assumes "sw_record_to v = Some path" "st_open_error env = None"
  shows "\<exists>rec. sw_recorder (fst (open_recorder env c rate g (fst (stop_recording to_iso ok now v)))) = Some rec
    \<and> rc_path rec = path \<and> rc_content rec = []"
  using assms by (auto simp: open_recorder_def stop_recording_def finish_recording_def recorder_new_def split: option.split)

text \<open>A scan right after a capture finds the dongle still leased to the capture.\<close>

lemma scan_finds_own_lease:
  assumes "sdr.honoured owner_name (open_device s) (dg_leases s)" "open_device s (Inl 0) = Some (sr_device_index q)"
    and "\<not> nw_running (dg_scan s 0)" "nw_owner (dg_scan s 0) = owner_name (Inr 0)" "find_tool h ''rtl_power'' \<noteq> None"
  shows "\<exists>complaint. scan_begin general h popen q (dg_scan s 0) (dg_leases s)
    = (((dg_scan s 0)\<lparr>nw_device := sr_device_index q\<rparr>, dg_leases s), [ScanError complaint], False)"
proof -
  have "owner_name (Inl 0) \<noteq> owner_name (Inr 0)" by (simp add: owner_name_def)
  moreover obtain label where "dg_leases s (sr_device_index q) = Some (owner_name (Inl 0), label)"
    using assms(1,2) unfolding sdr.honoured_def by (force simp: holder_of_def)
  ultimately show ?thesis using assms(3-5)
    by (auto simp: scan_begin_def scan_command_def acquire_sdr_def Let_def)
qed

text \<open>The size a recording will have is worked out when a preset is applied, not when the rate is edited.\<close>

lemma hint_misses_edit: "sl_hint (sg_labels (edit_tuning (EditRate x) p)) = sl_hint (sg_labels p)"
  by (simp add: edit_tuning_def on_manual_tuning_change_def Let_def)

end
