(* ===== verification/Spectrum.thy ===== *)
theory Spectrum
  imports Sigint Controller
begin

text \<open>
  The Spectrum page, \<open>ui/spectrum/spectrum_page.py\<close>: the band and its channel markers, the markers a user adds, the
  tuning that follows the radio, and the capture.  The page keeps its own controller, beside that of the SIGINT page.
\<close>

section \<open>State\<close>

text \<open>The region box is empty (\<open>None\<close>) or on a key of the protocol's list.\<close>

record spectrum_page =
  su_meshcore :: bool
  su_band :: "string option"
  su_center :: pyfloat
  su_rate :: pyfloat
  su_gain :: pyfloat
  su_live_region :: "string option"
  su_live_preset :: "string option"
  su_live_channel :: int
  su_custom :: "channel_marker list"
  su_drawn :: "drawn_marker list"
  su_marked :: "string \<times> string"
  su_warning :: string
  su_status :: string
  su_notice :: "string \<times> bool"
  su_enabled :: bool
  su_running :: bool
  su_button :: string
  su_has_sdr :: bool
  su_levels :: levels_control

definition band_keys :: "bool \<Rightarrow> string list" where
  "band_keys meshcore = (if meshcore then map fst MESHCORE_PLANS else map fst MESHTASTIC_REGIONS)"

definition spectrum_center :: "pyfloat \<Rightarrow> pyfloat" where "spectrum_center = spin_value 24 1766 3"

section \<open>Markers\<close>

definition base_markers :: "spectrum_page \<Rightarrow> channel_marker list" where
  "base_markers p =
     (case su_band p of
        None \<Rightarrow> []
      | Some key \<Rightarrow>
          if su_meshcore p then meshcore_markers key
          else meshtastic_markers key (su_live_preset p)
                 (if Some key = su_live_region p then su_live_channel p else 0) 2 None)"

definition current_markers :: "spectrum_page \<Rightarrow> channel_marker list" where
  "current_markers p = base_markers p @ su_custom p"

definition primary_marker :: "channel_marker list \<Rightarrow> channel_marker list \<Rightarrow> channel_marker" where
  "primary_marker base markers =
     (case find (\<lambda>m. marked_active (mk_label m)) base of
        Some m \<Rightarrow> m
      | None \<Rightarrow> if base \<noteq> [] then hd base else hd markers)"

definition nominal_tip :: string where
  "nominal_tip = ''The radio reports channel 0, which means the firmware picks the '' @
     ''actual slot by hashing the channel name. This marks the nominal '' @
     ''slot 0 '' @ emdash @ '' the real transmissions may sit elsewhere in the band, so '' @
     ''trust the energy in the waterfall over this marker.''"

text \<open>The toolbar's text and its tooltip.\<close>

definition marked_text :: "channel_marker list \<Rightarrow> channel_marker list \<Rightarrow> string \<times> string" where
  "marked_text base markers =
     (if markers = [] then ([], [])
      else let primary = primary_marker base markers
           in (''Marked: '' @ mk_label primary @ '' @ '' @ fixed 3 (mk_center primary) @ '' MHz'',
               if contains ''nominal'' (lower (mk_label primary)) then nominal_tip
               else fixed 0 (mk_bandwidth primary) @ '' kHz wide, centred on '' @ fixed 3 (mk_center primary) @ '' MHz.''))"

definition apply_markers :: "spectrum_page \<Rightarrow> spectrum_page" where
  "apply_markers p =
     p\<lparr>su_drawn := draw_markers (current_markers p) (su_custom p),
       su_marked := marked_text (base_markers p) (current_markers p)\<rparr>"

definition add_custom_marker :: "string \<Rightarrow> pyfloat \<Rightarrow> pyfloat \<Rightarrow> spectrum_page \<Rightarrow> spectrum_page" where
  "add_custom_marker text freq bandwidth p =
     (let freq = spin_value 24 1766 3 freq; bandwidth = spin_value 1 1000 0 bandwidth;
          lbl = (if strip text \<noteq> [] then strip text else fixed 3 freq @ '' MHz'')
      in apply_markers (p\<lparr>su_custom := su_custom p @ [\<lparr>mk_label = lbl, mk_center = freq, mk_bandwidth = bandwidth\<rparr>]\<rparr>))"

definition clear_custom_markers :: "spectrum_page \<Rightarrow> spectrum_page" where
  "clear_custom_markers p = apply_markers (p\<lparr>su_custom := []\<rparr>)"

section \<open>The band\<close>

definition target_mhz :: "string \<Rightarrow> spectrum_page \<Rightarrow> pyfloat option" where
  "target_mhz key p =
     (if su_meshcore p then map_option sc_freq (map_of MESHCORE_PLANS key)
      else case map_of MESHTASTIC_REGIONS key of
        None \<Rightarrow> None
      | Some band \<Rightarrow>
          (case find (\<lambda>m. contains ''active'' (lower (mk_label m))) (base_markers p) of
             Some m \<Rightarrow> Some (mk_center m)
           | None \<Rightarrow> Some (br_center band)))"

definition on_band_changed :: "spectrum_page \<Rightarrow> spectrum_page" where
  "on_band_changed p =
     (case su_band p of
        None \<Rightarrow> p
      | Some key \<Rightarrow>
          (if key = [] then p
           else apply_markers
             (case target_mhz key p of
                None \<Rightarrow> p
              | Some t \<Rightarrow>
                  p\<lparr>su_warning :=
                      (if \<not> (24 \<le> t \<and> t \<le> 1766)
                       then [CHR 0xE2, CHR 0x9A, CHR 0xA0] @ '' '' @ fixed 1 t @ '' MHz is outside this SDR'' @ [CHR 0x27] @ ''s tunable range (24-1766 MHz) ''
                         @ emdash @ '' showing the closest available frequency instead.''
                       else []),
                    su_center := spectrum_center t\<rparr>)))"

definition select_band :: "string \<Rightarrow> spectrum_page \<Rightarrow> spectrum_page" where
  "select_band key p =
     (if key \<in> set (band_keys (su_meshcore p)) \<and> su_band p \<noteq> Some key then on_band_changed (p\<lparr>su_band := Some key\<rparr>) else p)"

definition on_protocol_changed :: "spectrum_page \<Rightarrow> spectrum_page" where
  "on_protocol_changed p =
     (let keys = band_keys (su_meshcore p);
          default = py_or_str (su_live_region p) (Some ''US'')
      in on_band_changed
           (p\<lparr>su_band := (if su_meshcore p \<or> the default \<notin> set keys then (case keys of [] \<Rightarrow> None | k # _ \<Rightarrow> Some k) else default)\<rparr>))"

definition select_protocol :: "bool \<Rightarrow> spectrum_page \<Rightarrow> spectrum_page" where
  "select_protocol meshcore p = (if su_meshcore p = meshcore then p else on_protocol_changed (p\<lparr>su_meshcore := meshcore\<rparr>))"

definition spectrum_radio_config :: "lora_config_summary option \<Rightarrow> spectrum_page \<Rightarrow> spectrum_page" where
  "spectrum_radio_config summary p =
     (case summary of
        None \<Rightarrow> p\<lparr>su_live_region := None\<rparr>
      | Some s \<Rightarrow>
          (let p = p\<lparr>su_live_region := lc_region s, su_live_preset := (if lc_use_preset s then lc_modem_preset s else None),
                    su_live_channel := lc_channel_num s\<rparr>;
               p = (if truthy_str (lc_region s) then select_band (the (lc_region s)) (select_protocol False p) else p)
           in apply_markers p))"

section \<open>The capture\<close>

definition spectrum_availability :: "tool_host \<Rightarrow> spectrum_page \<Rightarrow> spectrum_page" where
  "spectrum_availability h p =
     (let (available, reason) = tools_available h; p = p\<lparr>su_enabled := available\<rparr>
      in if available then p\<lparr>su_status := reason, su_notice := (fst (su_notice p), False)\<rparr>
         else p\<lparr>su_status := ''RTL-SDR unavailable'',
                su_notice := (''RTL-SDR spectrum monitoring is unavailable.'' @ [lf, lf] @ reason @ [lf, lf]
                  @ ''This view shows raw RF energy in the band '' @ emdash @ '' it does not decode ''
                  @ ''LoRa packets. Mesh traffic continues to come from the connected radio.'', True)\<rparr>)"

definition spectrum_start :: "spectrum_page \<Rightarrow> spectrum_page \<times> page_call list" where
  "spectrum_start p =
     (p\<lparr>su_has_sdr := True, su_running := True, su_button := ''Stop'', su_status := ''Starting'' @ ellipsis\<rparr>,
      [SdrStart (su_center p * 10 ^ 6) (su_rate p * 10 ^ 6) (su_gain p) 0])"

definition spectrum_stop :: "spectrum_page \<Rightarrow> spectrum_page \<times> page_call list" where
  "spectrum_stop p = (p\<lparr>su_running := False, su_button := ''Start''\<rparr>, if su_has_sdr p then [SdrStop] else [])"

definition on_start_stop :: "spectrum_page \<Rightarrow> spectrum_page \<times> page_call list" where
  "on_start_stop p = (if su_running p then spectrum_stop p else spectrum_start p)"

definition on_started :: "pyfloat \<Rightarrow> pyfloat \<Rightarrow> nat \<Rightarrow> spectrum_page \<Rightarrow> spectrum_page" where
  "on_started center_hz width_hz bins p =
     (apply_markers (p\<lparr>su_levels := (su_levels p)\<lparr>lv_view := configure center_hz width_hz bins (lv_view (su_levels p))\<rparr>\<rparr>))
       \<lparr>su_status := ''Capturing '' @ emdash @ '' '' @ fixed 3 (center_hz / 10 ^ 6) @ '' MHz, '' @ fixed 2 (width_hz / 10 ^ 6)
          @ '' MS/s''\<rparr>"

definition on_stopped :: "string \<Rightarrow> spectrum_page \<Rightarrow> spectrum_page" where
  "on_stopped reason p = p\<lparr>su_running := False, su_button := ''Start'', su_status := reason\<rparr>"

definition on_sdr_error :: "string \<Rightarrow> spectrum_page \<Rightarrow> spectrum_page" where
  "on_sdr_error message p =
     p\<lparr>su_running := False, su_button := ''Start'', su_status := ''Error'', su_notice := (message, True)\<rparr>"

definition spectrum_shutdown :: "spectrum_page \<Rightarrow> spectrum_page \<times> page_call list" where
  "spectrum_shutdown p = (p\<lparr>su_has_sdr := False\<rparr>, if su_has_sdr p then [SdrShutdown] else [])"

definition spectrum_page_new :: "tool_host \<Rightarrow> spectrum_page" where
  "spectrum_page_new h =
     spectrum_availability h (on_protocol_changed
       \<lparr>su_meshcore = False, su_band = None, su_center = spectrum_center 915, su_rate = rate_box (24/10),
        su_gain = gain_box DEFAULT_GAIN_DB, su_live_region = None, su_live_preset = None, su_live_channel = 0,
        su_custom = [], su_drawn = [], su_marked = ([], []), su_warning = [], su_status = [], su_notice = ([], False),
        su_enabled = True, su_running = False, su_button = ''Start'', su_has_sdr = False,
        su_levels = levels_control_new waterfall_new\<rparr>)"

section \<open>The page's events\<close>

datatype spectrum_event =
    SelectProtocol bool
  | SelectBand string
  | SetCenter pyfloat
  | SetRate pyfloat
  | SetGain pyfloat
  | AddMarker string pyfloat pyfloat
  | ClearMarkers
  | RadioConfig "lora_config_summary option"
  | StartStop
  | SdrSays sdr_output

fun spectrum_does :: "spectrum_event \<Rightarrow> spectrum_page \<Rightarrow> levels_error + spectrum_page \<times> page_call list" where
  "spectrum_does (SelectProtocol m) p = Inr (select_protocol m p, [])"
| "spectrum_does (SelectBand key) p = Inr (select_band key p, [])"
| "spectrum_does (SetCenter x) p = Inr (p\<lparr>su_center := spectrum_center x\<rparr>, [])"
| "spectrum_does (SetRate x) p = Inr (p\<lparr>su_rate := rate_box x\<rparr>, [])"
| "spectrum_does (SetGain x) p = Inr (p\<lparr>su_gain := gain_box x\<rparr>, [])"
| "spectrum_does (AddMarker t f b) p = Inr (add_custom_marker t f b p, [])"
| "spectrum_does ClearMarkers p = Inr (clear_custom_markers p, [])"
| "spectrum_does (RadioConfig s) p = Inr (spectrum_radio_config s p, [])"
| "spectrum_does StartStop p = Inr (if su_enabled p then on_start_stop p else (p, []))"
| "spectrum_does (SdrSays (RowReady row)) p =
     and_then (row_arrives (map Some row) (su_levels p)) (\<lambda>c. Inr (p\<lparr>su_levels := c\<rparr>, []))"
| "spectrum_does (SdrSays (Started c r b)) p = Inr (on_started c r b p, [])"
| "spectrum_does (SdrSays (Stopped m)) p = Inr (on_stopped m p, [])"
| "spectrum_does (SdrSays (Error m)) p = Inr (on_sdr_error m p, [])"
| "spectrum_does (SdrSays _) p = Inr (p, [])"

fun spectrum_run :: "spectrum_event list \<Rightarrow> spectrum_page \<Rightarrow> levels_error + spectrum_page" where
  "spectrum_run [] p = Inr p"
| "spectrum_run (e # es) p = and_then (spectrum_does e p) (\<lambda>(p, calls). spectrum_run es p)"

section \<open>The markers on show are the current ones\<close>

definition markers_shown :: "spectrum_page \<Rightarrow> bool" where
  "markers_shown p \<longleftrightarrow> su_drawn p = draw_markers (current_markers p) (su_custom p)
     \<and> su_marked p = marked_text (base_markers p) (current_markers p)"

lemma base_markers_cong:
  "su_band q = su_band p \<Longrightarrow> su_meshcore q = su_meshcore p \<Longrightarrow> su_live_region q = su_live_region p
    \<Longrightarrow> su_live_preset q = su_live_preset p \<Longrightarrow> su_live_channel q = su_live_channel p \<Longrightarrow> base_markers q = base_markers p"
  by (simp add: base_markers_def split: option.split)

lemma base_markers_display [simp]:
  "base_markers (p\<lparr>su_drawn := d, su_marked := m\<rparr>) = base_markers p"
  "base_markers (p\<lparr>su_levels := c\<rparr>) = base_markers p" "base_markers (p\<lparr>su_center := x\<rparr>) = base_markers p"
  by (rule base_markers_cong; simp)+

lemma apply_markers_parts [simp]:
  "su_custom (apply_markers p) = su_custom p" "base_markers (apply_markers p) = base_markers p"
  "su_levels (apply_markers p) = su_levels p" "su_warning (apply_markers p) = su_warning p"
  "su_center (apply_markers p) = su_center p" "su_meshcore (apply_markers p) = su_meshcore p" "su_band (apply_markers p) = su_band p"
  by (simp_all add: apply_markers_def)

lemma markers_applied [simp]: "markers_shown (apply_markers p)"
  by (simp add: markers_shown_def apply_markers_def current_markers_def)

lemma markers_shown_cong:
  "markers_shown p \<Longrightarrow> base_markers q = base_markers p \<Longrightarrow> su_custom q = su_custom p
    \<Longrightarrow> su_drawn q = su_drawn p \<Longrightarrow> su_marked q = su_marked p \<Longrightarrow> markers_shown q"
  by (simp add: markers_shown_def current_markers_def)

lemma band_keys_sample:
  "band_keys True \<noteq> [] \<and> list_all (\<lambda>k. k \<noteq> []) (band_keys True)"
  "band_keys False \<noteq> [] \<and> list_all (\<lambda>k. k \<noteq> []) (band_keys False)"
  by code_simp+

lemma band_keys_ok: "band_keys m \<noteq> [] \<and> list_all (\<lambda>k. k \<noteq> []) (band_keys m)"
  by (cases m) (simp_all only: band_keys_sample simp_thms)

lemma band_changed_shown: "su_band p = Some k \<Longrightarrow> k \<noteq> [] \<Longrightarrow> markers_shown (on_band_changed p)"
  by (simp add: on_band_changed_def)

lemma select_band_shown:
  assumes "markers_shown p"
  shows "markers_shown (select_band key p)"
proof (cases "key \<in> set (band_keys (su_meshcore p)) \<and> su_band p \<noteq> Some key")
  case True
  then have "key \<noteq> []" using band_keys_ok [of "su_meshcore p"] by (auto simp: list_all_iff)
  with True show ?thesis using band_changed_shown [of "p\<lparr>su_band := Some key\<rparr>" key] by (simp add: select_band_def)
next
  case False
  then show ?thesis using assms by (simp only: select_band_def if_False)
qed

lemma protocol_changed_shown: "markers_shown (on_protocol_changed p)"
proof -
  let ?keys = "band_keys (su_meshcore p)"
  let ?d = "py_or_str (su_live_region p) (Some ''US'')"
  obtain k ks where keys: "?keys = k # ks" using band_keys_ok [of "su_meshcore p"] by (cases ?keys) auto
  have d: "\<exists>x. ?d = Some x \<and> x \<noteq> []"
    by (cases "truthy_str (su_live_region p)") (auto simp: py_or_str_def truthy_str_def split: option.splits)
  have "k \<noteq> []" using band_keys_ok [of "su_meshcore p"] keys by simp
  with d keys obtain b where "(if su_meshcore p \<or> the ?d \<notin> set ?keys then (case ?keys of [] \<Rightarrow> None | k # _ \<Rightarrow> Some k) else ?d) = Some b"
    "b \<noteq> []" by (cases "su_meshcore p \<or> the ?d \<notin> set ?keys") auto
  then show ?thesis using band_changed_shown [of "p\<lparr>su_band := Some b\<rparr>" b] by (simp only: on_protocol_changed_def Let_def) simp
qed

lemma band_changed_levels [simp]: "su_levels (on_band_changed p) = su_levels p"
  by (auto simp: on_band_changed_def split: option.split)

lemma select_band_levels [simp]: "su_levels (select_band k p) = su_levels p"
  by (simp add: select_band_def)

lemma protocol_levels [simp]: "su_levels (on_protocol_changed p) = su_levels p" "su_levels (select_protocol m p) = su_levels p"
  by (simp_all only: select_protocol_def on_protocol_changed_def Let_def band_changed_levels if_split) simp_all

lemma radio_levels [simp]: "su_levels (spectrum_radio_config s p) = su_levels p"
  by (cases s) (simp_all add: spectrum_radio_config_def Let_def)

lemma shown_status [simp]: "markers_shown (p\<lparr>su_status := s\<rparr>) = markers_shown p"
proof -
  have "base_markers (p\<lparr>su_status := s\<rparr>) = base_markers p" by (rule base_markers_cong) simp_all
  then show ?thesis by (simp add: markers_shown_def current_markers_def)
qed

lemma shown_after_event:
  assumes "markers_shown p" "e \<noteq> RadioConfig None" "spectrum_does e p = Inr (q, calls)"
  shows "markers_shown q"
proof -
  have same: "markers_shown q" if "su_drawn q = su_drawn p" "su_marked q = su_marked p" "su_custom q = su_custom p" "su_band q = su_band p"
    "su_meshcore q = su_meshcore p" "su_live_region q = su_live_region p" "su_live_preset q = su_live_preset p"
    "su_live_channel q = su_live_channel p" for q
    using that by (intro markers_shown_cong [OF assms(1)] base_markers_cong) simp_all
  show ?thesis
  proof (cases e)
    case (SelectProtocol m)
    then show ?thesis using assms protocol_changed_shown by (auto simp: select_protocol_def)
  next
    case (SelectBand k)
    then show ?thesis using assms select_band_shown by auto
  next
    case (AddMarker t f b)
    then show ?thesis using assms(3) by (auto simp: add_custom_marker_def Let_def)
  next
    case ClearMarkers
    then show ?thesis using assms(3) by (auto simp: clear_custom_markers_def)
  next
    case (RadioConfig s)
    then show ?thesis using assms(2,3) by (auto simp: spectrum_radio_config_def Let_def split: option.splits)
  next
    case StartStop
    then show ?thesis using assms(3) same [of q]
      by (auto simp: on_start_stop_def spectrum_stop_def spectrum_start_def split: if_splits)
  next
    case (SdrSays out)
    show ?thesis
    proof (cases out)
      case (Started c r b)
      let ?p = "p\<lparr>su_levels := (su_levels p)\<lparr>lv_view := configure c r b (lv_view (su_levels p))\<rparr>\<rparr>"
      have "markers_shown (apply_markers ?p)" by simp
      then show ?thesis using assms(3) SdrSays Started by (auto simp: on_started_def)
    qed (use assms(3) SdrSays same [of q] in \<open>auto simp: and_then_Inr on_stopped_def on_sdr_error_def\<close>)
  qed (use assms(3) same [of q] in auto)
qed

lemma spectrum_never_raises:
  assumes "control_ok (su_levels p)"
  shows "\<exists>q calls. spectrum_does e p = Inr (q, calls) \<and> control_ok (su_levels q)"
proof (cases e)
  case (SdrSays out)
  show ?thesis
  proof (cases out)
    case (RowReady row)
    then show ?thesis using row_ok [OF assms, of "map Some row"] SdrSays by (auto simp: and_then_def)
  qed (use assms SdrSays configure_ok [OF assms] in \<open>simp_all add: on_started_def on_stopped_def on_sdr_error_def\<close>)
qed (use assms in \<open>simp_all add: add_custom_marker_def clear_custom_markers_def on_start_stop_def spectrum_start_def
      spectrum_stop_def Let_def\<close>)

text \<open>After any events, whatever order they come in, the waterfall and the toolbar show the markers that the band, the
  radio and the user's own list call for; a radio without a LoRa configuration is the exception.\<close>

lemma spectrum_markers_current:
  "markers_shown p \<Longrightarrow> control_ok (su_levels p) \<Longrightarrow> RadioConfig None \<notin> set es
    \<Longrightarrow> \<exists>q. spectrum_run es p = Inr q \<and> markers_shown q"
proof (induction es arbitrary: p)
  case (Cons e es)
  obtain q calls where q: "spectrum_does e p = Inr (q, calls)" "control_ok (su_levels q)"
    using spectrum_never_raises [OF Cons.prems(2)] by blast
  have "e \<noteq> RadioConfig None" using Cons.prems(3) by auto
  from shown_after_event [OF Cons.prems(1) this q(1)] show ?case
    using Cons.IH [of q] Cons.prems(3) q by (simp add: and_then_def)
qed simp

section \<open>Tuning to a band\<close>

text \<open>The centre is the band's, moved into the tuner's range, and the warning says when it was moved.\<close>

lemma band_changed_tunes:
  assumes "su_band p = Some key" "key \<noteq> []" "target_mhz key p = Some t"
  shows "su_center (on_band_changed p) = spectrum_center t" "su_warning (on_band_changed p) = [] \<longleftrightarrow> 24 \<le> t \<and> t \<le> 1766"
  using assms by (simp_all add: on_band_changed_def)

text \<open>The 2.4 GHz region is out of reach.\<close>

lemma lora_24_out_of_reach:
  "map_option br_center (map_of MESHTASTIC_REGIONS ''LORA_24'') = Some (9767 / 4)" "spectrum_center (9767 / 4) = 1766"
  by code_simp+

text \<open>A radio that reports the region already chosen does not move the centre to its slot.\<close>

lemma radio_keeps_centre:
  assumes "lc_region s = Some k" "su_band p = Some k" "\<not> su_meshcore p"
  shows "su_center (spectrum_radio_config (Some s) p) = su_center p"
  using assms by (simp add: spectrum_radio_config_def select_protocol_def select_band_def truthy_str_def Let_def)

lemma active_slot_off_screen:
  "map_option (\<lambda>f. f < 915 - rate_box (24 / 10) / 2) (meshtastic_channel_frequency ''US'' 250 20) = Some True"
  by code_simp

text \<open>A radio without a LoRa configuration leaves the markers of the one before.\<close>

lemma none_config_keeps_markers:
  "su_drawn (spectrum_radio_config None p) = su_drawn p" "su_marked (spectrum_radio_config None p) = su_marked p"
  by (simp_all add: spectrum_radio_config_def)

end
