(* ===== verification/Geo.thy ===== *)
theory Geo
  imports Complex_Main PyValue
begin

text \<open>
  The program's calculations with transcendental functions, over the exact reals: the size estimates of
  \<open>services/provisioning/regions.py\<close>, the great circle of \<open>analytics/distance.py\<close> and the Web Mercator tiles
  of \<open>services/orcmaps.py\<close>.  The rounding of
  floats is left out; \<open>round_half\<close> is Python's \<open>round\<close>.  The lemmas show that an estimate passes through the
  measured cuts and grows with the radius and the zoom, and that a distance is defined, symmetric and at most half
  the circumference, and that a tile's index is found from its centre.
\<close>

section \<open>Size estimates\<close>

definition DENSITY_Z13 :: real where "DENSITY_Z13 = 332"
definition DENSITY_Z9 :: real where "DENSITY_Z9 = 328 / 10"
definition MEASURED_PIN_CUTS :: "(real \<times> real) list" where
  "MEASURED_PIN_CUTS = [(25, 4060000), (50, 7340000), (100, 20300000)]"
definition ZOOM_SCALE_PER_LEVEL :: real where "ZOOM_SCALE_PER_LEVEL = (DENSITY_Z13 / DENSITY_Z9) powr (1 / 4)"
definition BAND_LOW :: real where "BAND_LOW = 1 / 2"
definition BAND_HIGH :: real where "BAND_HIGH = 2"
definition KM_PER_DEGREE_LAT :: real where "KM_PER_DEGREE_LAT = 11132 / 100"

definition round_half :: "real \<Rightarrow> int" where
  "round_half x =
     (let f = \<lfloor>x\<rfloor>; d = x - of_int f
      in if d < 1/2 then f else if d > 1/2 then f + 1 else if even f then f else f + 1)"

record size_estimate =
  se_low :: int
  se_expected :: int
  se_high :: int
  se_basis :: string

definition format_expected :: "size_estimate \<Rightarrow> string" where
  "format_expected e = fixed 0 (of_int (se_expected e) / 1000000) @ '' MB''"

definition format_range :: "size_estimate \<Rightarrow> string" where
  "format_range e =
     fixed 0 (of_int (se_low e) / 1000000) @ endash @ fixed 0 (of_int (se_high e) / 1000000) @ '' MB''"

definition zoom_scale :: "int \<Rightarrow> int \<Rightarrow> real" where
  "zoom_scale max_zoom reference_zoom = ZOOM_SCALE_PER_LEVEL powi (max_zoom - reference_zoom)"

definition radians :: "real \<Rightarrow> real" where
  "radians d = d * (pi / 180)"

definition bbox_area_km2 :: "real \<Rightarrow> real \<Rightarrow> real \<Rightarrow> real \<Rightarrow> real" where
  "bbox_area_km2 west south east north =
     (let height = \<bar>north - south\<bar> * KM_PER_DEGREE_LAT; mean_lat = radians ((north + south) / 2);
          width = \<bar>east - west\<bar> * KM_PER_DEGREE_LAT * \<bar>cos mean_lat\<bar>
      in width * height)"

text \<open>The two measured points to interpolate between.\<close>

definition segment_of :: "real \<Rightarrow> (real \<times> real) \<times> (real \<times> real)" where
  "segment_of x =
     (let points = MEASURED_PIN_CUTS; n = length points
      in if x \<le> fst (points ! 0) then (points ! 0, points ! 1)
         else if x \<ge> fst (points ! (n - 1)) then (points ! (n - 2), points ! (n - 1))
         else case find (\<lambda>i. fst (points ! i) \<le> x \<and> x \<le> fst (points ! (i + 1))) [0..<n - 1] of
                Some i \<Rightarrow> (points ! i, points ! (i + 1))
              | None \<Rightarrow> (points ! 0, points ! (n - 1)))"

definition interp :: "real \<Rightarrow> real" where
  "interp x =
     (let (lower, upper) = segment_of x; width = ln (fst upper / fst lower)
      in if width = 0 then snd lower
         else (let fraction = ln (x / fst lower) / width
               in exp (ln (snd lower) + fraction * ln (snd upper / snd lower))))"

definition estimate_of :: "real \<Rightarrow> string \<Rightarrow> size_estimate" where
  "estimate_of expected basis =
     \<lparr>se_low = round_half (expected * BAND_LOW), se_expected = round_half expected,
      se_high = round_half (expected * BAND_HIGH), se_basis = basis\<rparr>"

definition zoom_note :: "int \<Rightarrow> string" where
  "zoom_note max_zoom = (if max_zoom \<noteq> 13 then '', scaled for z<='' @ show_int max_zoom else [])"

definition estimate_radius_pack_bytes :: "real \<Rightarrow> int \<Rightarrow> size_estimate" where
  "estimate_radius_pack_bytes radius_km max_zoom =
     estimate_of (interp (max radius_km (1/2)) * zoom_scale max_zoom 13)
       (''Interpolated from measured 25/50/100 km cuts of an 84 MB z1-13 source (4.1/7.3/20.3 MB)'' @ zoom_note max_zoom)"

text \<open>\<open>commas\<close> prints a number without decimals and with commas between thousands.\<close>

definition estimate_area_pack_bytes :: "(real \<Rightarrow> string) \<Rightarrow> real \<Rightarrow> int \<Rightarrow> size_estimate" where
  "estimate_area_pack_bytes commas area_km2 max_zoom =
     (let density = DENSITY_Z13 * zoom_scale max_zoom 13
      in estimate_of (max area_km2 1 * density)
           (''Measured density 332 B/km'' @ [CHR 0xC2, CHR 0xB2] @ '' at z<=13 (Oregon: 84.6 MB over 254,800 km''
              @ [CHR 0xC2, CHR 0xB2] @ '') applied to '' @ commas area_km2 @ '' km'' @ [CHR 0xC2, CHR 0xB2]
              @ zoom_note max_zoom))"

definition estimate_region_bytes ::
    "(real \<Rightarrow> string) \<Rightarrow> real option \<Rightarrow> (real \<times> real \<times> real \<times> real) option \<Rightarrow> int \<Rightarrow> string + size_estimate" where
  "estimate_region_bytes commas radius_km bbox max_zoom =
     (if (radius_km = None) = (bbox = None) then Inl ''give exactly one of radius_km or bbox''
      else case radius_km of
        Some r \<Rightarrow> Inr (estimate_radius_pack_bytes r max_zoom)
      | None \<Rightarrow>
          (case the bbox of (west, south, east, north) \<Rightarrow>
             Inr (estimate_area_pack_bytes commas (bbox_area_km2 west south east north) max_zoom)))"

section \<open>Great circles\<close>

definition EARTH_RADIUS_KM :: real where "EARTH_RADIUS_KM = 6371"

text \<open>\<open>math.atan2 y x\<close>: the argument of \<open>x + i y\<close>.\<close>

definition atan2 :: "real \<Rightarrow> real \<Rightarrow> real" where
  "atan2 y x = Arg (Complex x y)"

definition half_chord :: "real \<Rightarrow> real \<Rightarrow> real \<Rightarrow> real \<Rightarrow> real" where
  "half_chord lat1 lon1 lat2 lon2 =
     sin (radians (lat2 - lat1) / 2) ^ 2
       + cos (radians lat1) * cos (radians lat2) * sin (radians (lon2 - lon1) / 2) ^ 2"

text \<open>\<open>math.sqrt\<close> raises for a negative argument.\<close>

definition haversine_km :: "real \<Rightarrow> real \<Rightarrow> real \<Rightarrow> real \<Rightarrow> real option" where
  "haversine_km lat1 lon1 lat2 lon2 =
     (let a = half_chord lat1 lon1 lat2 lon2
      in if a < 0 \<or> 1 - a < 0 then None
         else Some (EARTH_RADIUS_KM * (2 * atan2 (sqrt a) (sqrt (1 - a)))))"

definition haversine_mi :: "real \<Rightarrow> real \<Rightarrow> real \<Rightarrow> real \<Rightarrow> real option" where
  "haversine_mi lat1 lon1 lat2 lon2 = map_option (\<lambda>km. km * (621371 / 1000000)) (haversine_km lat1 lon1 lat2 lon2)"

definition bearing_deg :: "real \<Rightarrow> real \<Rightarrow> real \<Rightarrow> real \<Rightarrow> real" where
  "bearing_deg lat1 lon1 lat2 lon2 =
     (let p1 = radians lat1; p2 = radians lat2; dl = radians (lon2 - lon1);
          x = sin dl * cos p2; y = cos p1 * sin p2 - sin p1 * cos p2 * cos dl;
          d = atan2 x y * (180 / pi) + 360
      in d - 360 * of_int \<lfloor>d / 360\<rfloor>)"

section \<open>Facts on the estimates\<close>

definition power_curve :: "real \<times> real \<Rightarrow> real \<times> real \<Rightarrow> real \<Rightarrow> real" where
  "power_curve l u x = exp (ln (snd l) + ln (x / fst l) / ln (fst u / fst l) * ln (snd u / snd l))"

lemma power_curve_ends:
  assumes "0 < fst l" "fst l < fst u" "0 < snd l" "0 < snd u"
  shows "power_curve l u (fst l) = snd l" "power_curve l u (fst u) = snd u"
proof -
  have "ln (fst u / fst l) > 0" using assms by simp
  then show "power_curve l u (fst l) = snd l" "power_curve l u (fst u) = snd u"
    using assms by (simp_all add: power_curve_def ln_div)
qed

lemma power_curve_mono:
  assumes "0 < fst l" "fst l < fst u" "0 < snd l" "snd l \<le> snd u" "0 < x" "x \<le> y"
  shows "power_curve l u x \<le> power_curve l u y"
proof -
  have "ln (x / fst l) \<le> ln (y / fst l)" using assms by (simp add: divide_right_mono)
  then have "ln (x / fst l) / ln (fst u / fst l) \<le> ln (y / fst l) / ln (fst u / fst l)"
    using assms by (intro divide_right_mono) simp_all
  moreover have "0 \<le> ln (snd u / snd l)" using assms by simp
  ultimately show ?thesis unfolding power_curve_def by (simp only: exp_le_cancel_iff add_le_cancel_left mult_right_mono)
qed

lemma interp_curves:
  "interp x = (if x \<le> 50 then power_curve (25, 4060000) (50, 7340000) x else power_curve (50, 7340000) (100, 20300000) x)"
proof -
  have "segment_of x = (if x \<le> 50 then ((25, 4060000), (50, 7340000)) else ((50, 7340000), (100, 20300000)))"
    by (auto simp: segment_of_def MEASURED_PIN_CUTS_def upt_rec numeral_2_eq_2 Let_def)
  then show ?thesis by (simp add: interp_def power_curve_def Let_def)
qed

text \<open>The estimate is the measurement at a measured radius.\<close>

lemma interp_measured: "(r, s) \<in> set MEASURED_PIN_CUTS \<Longrightarrow> interp r = s"
  using power_curve_ends [of "(25, 4060000)" "(50, 7340000)"] power_curve_ends [of "(50, 7340000)" "(100, 20300000)"]
  by (auto simp: MEASURED_PIN_CUTS_def interp_curves)

lemma interp_mono:
  assumes "0 < x" "x \<le> y"
  shows "interp x \<le> interp y"
proof -
  let ?l = "(25, 4060000) :: real \<times> real" and ?m = "(50, 7340000) :: real \<times> real" and ?u = "(100, 20300000) :: real \<times> real"
  have knot: "power_curve ?l ?m 50 = 7340000" "power_curve ?m ?u 50 = 7340000"
    using power_curve_ends [of ?l ?m] power_curve_ends [of ?m ?u] by simp_all
  have first: "power_curve ?l ?m a \<le> power_curve ?l ?m b" and second: "power_curve ?m ?u a \<le> power_curve ?m ?u b"
    if "0 < a" "a \<le> b" for a b using that power_curve_mono [of ?l ?m a b] power_curve_mono [of ?m ?u a b] by simp_all
  consider "y \<le> 50" | "x \<le> 50" "50 < y" | "50 < x" by linarith
  then show ?thesis
  proof cases
    case 1
    then show ?thesis using first assms by (simp add: interp_curves)
  next
    case 2
    then show ?thesis using first [of x 50] second [of 50 y] assms knot by (simp add: interp_curves)
  next
    case 3
    then show ?thesis using second assms by (simp add: interp_curves)
  qed
qed

lemma interp_pos: "0 < interp x"
  by (simp add: interp_curves power_curve_def)

lemma round_half_mono:
  assumes "x \<le> y"
  shows "round_half x \<le> round_half y"
proof (cases "\<lfloor>x\<rfloor> = \<lfloor>y\<rfloor>")
  case True
  have step: "(if a < 1/2 then f else if a > 1/2 then f + 1 else if even f then f else f + 1)
      \<le> (if b < 1/2 then f else if b > 1/2 then f + 1 else if even f then f else f + 1)" if "a \<le> b" for a b :: real and f :: int
    using that by (cases "a < 1/2"; cases "b < 1/2"; cases "a > 1/2"; cases "b > 1/2") simp_all
  show ?thesis unfolding round_half_def Let_def True by (rule step) (use assms in simp)
next
  case False
  then have "\<lfloor>x\<rfloor> + 1 \<le> \<lfloor>y\<rfloor>" using floor_mono [OF assms] by simp
  moreover have "round_half x \<le> \<lfloor>x\<rfloor> + 1" "\<lfloor>y\<rfloor> \<le> round_half y" by (auto simp: round_half_def Let_def)
  ultimately show ?thesis by simp
qed

lemma zoom_scale_base: "1 < ZOOM_SCALE_PER_LEVEL"
  by (simp add: ZOOM_SCALE_PER_LEVEL_def DENSITY_Z13_def DENSITY_Z9_def)

lemma zoom_scale_pos: "0 < zoom_scale z r"
  using zoom_scale_base by (simp add: zoom_scale_def)

lemma zoom_scale_mono: "z \<le> z' \<Longrightarrow> zoom_scale z r \<le> zoom_scale z' r"
  using zoom_scale_base by (simp add: zoom_scale_def power_int_increasing)

text \<open>The scale reproduces both measured densities.\<close>

lemma zoom_scale_measured: "DENSITY_Z13 * zoom_scale 13 13 = DENSITY_Z13" "DENSITY_Z13 * zoom_scale 9 13 = DENSITY_Z9"
proof -
  let ?r = "DENSITY_Z13 / DENSITY_Z9"
  have r: "0 < ?r" by (simp add: DENSITY_Z13_def DENSITY_Z9_def)
  have "ZOOM_SCALE_PER_LEVEL ^ 4 = (?r powr (1/4)) powr 4"
    unfolding ZOOM_SCALE_PER_LEVEL_def using r powr_realpow [of "?r powr (1/4)" 4] by simp
  also have "\<dots> = ?r powr 1" unfolding powr_powr by simp
  also have "\<dots> = ?r" using r by (intro powr_one) simp
  finally have four: "ZOOM_SCALE_PER_LEVEL ^ 4 = ?r" .
  have "zoom_scale 9 13 = inverse (ZOOM_SCALE_PER_LEVEL ^ 4)" by (simp add: zoom_scale_def power_int_def power_inverse)
  then show "DENSITY_Z13 * zoom_scale 9 13 = DENSITY_Z9" unfolding four by (simp add: DENSITY_Z13_def DENSITY_Z9_def)
  show "DENSITY_Z13 * zoom_scale 13 13 = DENSITY_Z13" by (simp add: zoom_scale_def)
qed

lemma estimate_of_band: "0 \<le> x \<Longrightarrow> se_low (estimate_of x b) \<le> se_expected (estimate_of x b)
    \<and> se_expected (estimate_of x b) \<le> se_high (estimate_of x b)"
  by (simp add: estimate_of_def BAND_LOW_def BAND_HIGH_def round_half_mono)

text \<open>A wider or deeper region is never estimated smaller.\<close>

lemma estimate_radius_grows:
  assumes "r \<le> r'" "z \<le> z'"
  shows "se_expected (estimate_radius_pack_bytes r z) \<le> se_expected (estimate_radius_pack_bytes r' z')"
    "0 \<le> se_low (estimate_radius_pack_bytes r z)"
    "se_low (estimate_radius_pack_bytes r z) \<le> se_expected (estimate_radius_pack_bytes r z)"
    "se_expected (estimate_radius_pack_bytes r z) \<le> se_high (estimate_radius_pack_bytes r z)"
proof -
  have "interp (max r (1/2)) * zoom_scale z 13 \<le> interp (max r' (1/2)) * zoom_scale z' 13"
    using assms interp_pos [of "max r' (1/2)"] zoom_scale_pos [of z 13]
    by (intro mult_mono interp_mono zoom_scale_mono) (auto simp: less_max_iff_disj intro: less_imp_le)
  then show "se_expected (estimate_radius_pack_bytes r z) \<le> se_expected (estimate_radius_pack_bytes r' z')"
    by (simp add: estimate_radius_pack_bytes_def estimate_of_def round_half_mono)
  have pos: "0 \<le> interp (max r (1/2)) * zoom_scale z 13"
    using interp_pos [of "max r (1/2)"] zoom_scale_pos [of z 13] by simp
  then show "se_low (estimate_radius_pack_bytes r z) \<le> se_expected (estimate_radius_pack_bytes r z)"
    "se_expected (estimate_radius_pack_bytes r z) \<le> se_high (estimate_radius_pack_bytes r z)"
    using estimate_of_band unfolding estimate_radius_pack_bytes_def by blast+
  have "round_half 0 \<le> round_half (interp (max r (1/2)) * zoom_scale z 13 * BAND_LOW)"
    using pos by (intro round_half_mono) (simp add: BAND_LOW_def)
  then show "0 \<le> se_low (estimate_radius_pack_bytes r z)"
    by (simp add: estimate_radius_pack_bytes_def estimate_of_def round_half_def)
qed

section \<open>Facts on distances\<close>

definition latitude :: "real \<Rightarrow> bool" where
  "latitude x \<longleftrightarrow> - 90 \<le> x \<and> x \<le> 90"

lemma cos_latitude: "latitude x \<Longrightarrow> 0 \<le> cos (radians x)"
proof -
  assume "latitude x"
  then have "- 90 * (pi / 180) \<le> x * (pi / 180)" "x * (pi / 180) \<le> 90 * (pi / 180)"
    unfolding latitude_def by (intro mult_right_mono; simp)+
  then show ?thesis unfolding radians_def by (intro cos_ge_zero) simp_all
qed

text \<open>Between two places the argument of both square roots is not negative.\<close>

lemma half_chord_range:
  assumes "latitude lat1" "latitude lat2"
  shows "0 \<le> half_chord lat1 lon1 lat2 lon2" "half_chord lat1 lon1 lat2 lon2 \<le> 1"
proof -
  let ?c = "cos (radians lat1) * cos (radians lat2)" and ?d = "radians (lat2 - lat1)"
  have c: "0 \<le> ?c" using assms cos_latitude by simp
  then show "0 \<le> half_chord lat1 lon1 lat2 lon2" by (simp add: half_chord_def)
  have "?d = radians lat2 - radians lat1" unfolding radians_def by (rule left_diff_distrib)
  then have "2 * ?c = cos ?d + cos (radians lat1 + radians lat2)"
    by (simp only: \<open>?d = _\<close> cos_add cos_diff) (simp add: algebra_simps)
  also have "\<dots> \<le> cos ?d + 1" by simp
  also have "cos ?d = 2 * cos (?d / 2) ^ 2 - 1" using cos_double_cos [of "?d / 2"] by simp
  finally have "?c \<le> cos (?d / 2) ^ 2" by simp
  moreover have "?c * sin (radians (lon2 - lon1) / 2) ^ 2 \<le> ?c * 1"
    using c by (intro mult_left_mono) (simp_all add: power_le_one_iff abs_square_le_1)
  ultimately have "half_chord lat1 lon1 lat2 lon2 \<le> sin (?d / 2) ^ 2 + cos (?d / 2) ^ 2"
    unfolding half_chord_def by linarith
  then show "half_chord lat1 lon1 lat2 lon2 \<le> 1" by simp
qed

lemma half_chord_sym: "half_chord lat1 lon1 lat2 lon2 = half_chord lat2 lon2 lat1 lon1"
proof -
  have "radians (a - b) / 2 = - (radians (b - a) / 2)" for a b by (simp add: radians_def field_simps)
  then have "sin (radians (a - b) / 2) ^ 2 = sin (radians (b - a) / 2) ^ 2" for a b by (metis power2_minus sin_minus)
  then show ?thesis by (simp add: half_chord_def mult.commute)
qed

lemma atan2_arcsin:
  assumes "0 \<le> a" "a \<le> 1"
  shows "atan2 (sqrt a) (sqrt (1 - a)) = arcsin (sqrt a)"
proof -
  let ?t = "arcsin (sqrt a)"
  have s: "- 1 \<le> sqrt a" "sqrt a \<le> 1" using assms by (simp_all add: order_trans [of _ 0])
  have "Complex (sqrt (1 - a)) (sqrt a) = cis ?t"
    using s assms by (simp add: cis.code cos_arcsin)
  moreover have "- pi < ?t" "?t \<le> pi" using arcsin_bounded [OF s] pi_gt_zero by linarith+
  ultimately show ?thesis unfolding atan2_def using cis_Arg_unique [of "cis ?t" ?t] by simp
qed

lemma haversine_arcsin:
  assumes "latitude lat1" "latitude lat2"
  shows "haversine_km lat1 lon1 lat2 lon2 = Some (EARTH_RADIUS_KM * (2 * arcsin (sqrt (half_chord lat1 lon1 lat2 lon2))))"
  using half_chord_range [OF assms, of lon1 lon2] by (simp add: haversine_km_def atan2_arcsin Let_def)

text \<open>Between two places the distance is defined, at most half the circumference, the same both ways, and nothing from
  a place to itself.\<close>

lemma haversine_metric:
  assumes "latitude lat1" "latitude lat2"
  shows "\<exists>km. haversine_km lat1 lon1 lat2 lon2 = Some km \<and> 0 \<le> km \<and> km \<le> pi * EARTH_RADIUS_KM"
    "haversine_km lat2 lon2 lat1 lon1 = haversine_km lat1 lon1 lat2 lon2"
    "haversine_km lat1 lon1 lat1 lon1 = Some 0"
proof -
  let ?a = "half_chord lat1 lon1 lat2 lon2"
  have s: "0 \<le> sqrt ?a" "sqrt ?a \<le> 1" using half_chord_range [OF assms, of lon1 lon2] by simp_all
  have "arcsin 0 \<le> arcsin (sqrt ?a)" using s by (intro arcsin_le_arcsin) simp_all
  moreover have "arcsin (sqrt ?a) \<le> pi / 2" using arcsin_bounded [of "sqrt ?a"] s by simp
  ultimately have "0 \<le> 2 * arcsin (sqrt ?a)" "2 * arcsin (sqrt ?a) \<le> pi" by simp_all
  then have "0 \<le> EARTH_RADIUS_KM * (2 * arcsin (sqrt ?a))" "EARTH_RADIUS_KM * (2 * arcsin (sqrt ?a)) \<le> EARTH_RADIUS_KM * pi"
    by (simp_all add: EARTH_RADIUS_KM_def)
  then show "\<exists>km. haversine_km lat1 lon1 lat2 lon2 = Some km \<and> 0 \<le> km \<and> km \<le> pi * EARTH_RADIUS_KM"
    using haversine_arcsin [OF assms] by (simp add: mult.commute)
  show "haversine_km lat2 lon2 lat1 lon1 = haversine_km lat1 lon1 lat2 lon2"
    by (simp only: haversine_km_def half_chord_sym [of lat2 lon2])
  have "half_chord lat1 lon1 lat1 lon1 = 0" by (simp add: half_chord_def radians_def)
  then show "haversine_km lat1 lon1 lat1 lon1 = Some 0"
    using haversine_arcsin [OF assms(1,1), of lon1 lon1] by simp
qed

lemma bearing_range: "0 \<le> bearing_deg lat1 lon1 lat2 lon2 \<and> bearing_deg lat1 lon1 lat2 lon2 < 360"
proof -
  have "0 \<le> d - 360 * of_int \<lfloor>d / 360\<rfloor>" "d - 360 * of_int \<lfloor>d / 360\<rfloor> < 360" for d :: real
    using of_int_floor_le [of "d / 360"] real_of_int_floor_add_one_gt [of "d / 360"] by (simp_all add: field_simps)
  then show ?thesis by (simp add: bearing_deg_def Let_def)
qed

section \<open>Map tiles\<close>

text \<open>The Web Mercator tiles of \<open>services/orcmaps.py\<close>.  \<open>int()\<close> of a float truncates towards zero.\<close>

definition degrees :: "real \<Rightarrow> real" where
  "degrees r = r * (180 / pi)"

definition int_of_real :: "real \<Rightarrow> int" where
  "int_of_real x = (if 0 \<le> x then \<lfloor>x\<rfloor> else \<lceil>x\<rceil>)"

definition tile_center_deg :: "nat \<Rightarrow> int \<Rightarrow> int \<Rightarrow> real \<times> real" where
  "tile_center_deg z x y =
     (let n = 2 ^ z; lon = (of_int x + 1/2) / n * 360 - 180;
          lat = degrees (arctan (sinh (pi * (1 - 2 * (of_int y + 1/2) / n))))
      in (lat, lon))"

definition tile_index_deg :: "real \<Rightarrow> real \<Rightarrow> nat \<Rightarrow> int \<times> int" where
  "tile_index_deg lat lon z =
     (let n = 2 ^ z; x = int_of_real ((lon + 180) / 360 * n);
          lat_rad = radians (max (min lat (8505112878 / 100000000)) (- (8505112878 / 100000000)));
          y = int_of_real ((1 - arsinh (tan lat_rad) / pi) / 2 * n)
      in (min (max x 0) (2 ^ z - 1), min (max y 0) (2 ^ z - 1)))"

definition tile_edge_lat :: "nat \<Rightarrow> int \<Rightarrow> real" where
  "tile_edge_lat z y = degrees (arctan (sinh (pi * (1 - 2 * of_int y / 2 ^ z))))"

section \<open>Facts on tiles\<close>

lemma radians_degrees [simp]: "radians (degrees r) = r"
  by (simp add: radians_def degrees_def)

lemma degrees_less: "degrees a < degrees b \<longleftrightarrow> a < b"
  unfolding degrees_def by (rule mult_less_cancel_right_pos) simp

lemma int_of_real_half: "0 \<le> k \<Longrightarrow> int_of_real (of_int k + 1/2) = k"
  by (simp add: int_of_real_def floor_eq_iff)

text \<open>An index is a tile of its zoom level, wherever the coordinate is.\<close>

lemma tile_index_range:
  assumes "tile_index_deg lat lon z = (x, y)"
  shows "0 \<le> x \<and> x < 2 ^ z \<and> 0 \<le> y \<and> y < 2 ^ z"
proof -
  have "0 \<le> min (max k 0) (2 ^ z - 1) \<and> min (max k 0) (2 ^ z - 1) < (2 ^ z :: int)" for k by auto
  then show ?thesis using assms by (auto simp: tile_index_deg_def Let_def)
qed

text \<open>The index of a tile's centre is the tile, where the clamp of the latitude does not cut it.\<close>

lemma tile_index_center:
  assumes "0 \<le> x" "x < 2 ^ z" "0 \<le> y" "y < 2 ^ z" "tile_center_deg z x y = (lat, lon)"
    "\<bar>lat\<bar> \<le> 8505112878 / 100000000"
  shows "tile_index_deg lat lon z = (x, y)"
proof -
  let ?n = "2 ^ z :: real"
  let ?a = "pi * (1 - 2 * (of_int y + 1/2) / ?n)"
  have lat: "lat = degrees (arctan (sinh ?a))" and lon: "lon = (of_int x + 1/2) / ?n * 360 - 180"
    using assms(5) by (simp_all add: tile_center_deg_def Let_def)
  have "max (min lat (8505112878 / 100000000)) (- (8505112878 / 100000000)) = lat"
    using assms(6) by linarith
  then have e1: "arsinh (tan (radians (max (min lat (8505112878 / 100000000)) (- (8505112878 / 100000000))))) = ?a"
    by (simp add: lat tan_arctan arsinh_sinh_real)
  have e2: "(1 - ?a / pi) / 2 * ?n = of_int y + 1/2" by (simp add: field_simps)
  have e3: "(lon + 180) / 360 * ?n = of_int x + 1/2" by (simp add: lon)
  show ?thesis unfolding tile_index_deg_def Let_def e1 e2 e3
    using assms(1-4) by (simp only: int_of_real_half) simp
qed

text \<open>Rows run from north to south: the lower edge of a tile is the upper edge of the next, and below its own.\<close>

lemma tile_edge_decreasing: "y < y' \<Longrightarrow> tile_edge_lat z y' < tile_edge_lat z y"
proof -
  assume "y < y'"
  then have "pi * (1 - 2 * of_int y' / 2 ^ z) < pi * (1 - 2 * of_int y / 2 ^ z)"
    by (simp add: divide_strict_right_mono)
  then show ?thesis
    by (simp add: tile_edge_lat_def degrees_less arctan_less_iff)
qed

lemma tile_edges_around_center:
  assumes "tile_center_deg z x y = (lat, lon)"
  shows "tile_edge_lat z (y + 1) < lat" "lat < tile_edge_lat z y"
proof -
  have lat: "lat = degrees (arctan (sinh (pi * (1 - 2 * (of_int y + 1/2) / 2 ^ z))))"
    using assms by (simp add: tile_center_deg_def Let_def)
  have "pi * (1 - 2 * of_int (y + 1) / 2 ^ z) < pi * (1 - 2 * (of_int y + 1/2) / 2 ^ z)"
    "pi * (1 - 2 * (of_int y + 1/2) / 2 ^ z) < pi * (1 - 2 * of_int y / 2 ^ z)"
    by (simp_all add: divide_strict_right_mono)
  then show "tile_edge_lat z (y + 1) < lat" "lat < tile_edge_lat z y"
    unfolding lat tile_edge_lat_def degrees_less arctan_less_iff sinh_real_less_iff by blast+
qed

end
