(* ===== verification/Startup.thy ===== *)
theory Startup
  imports PyValue
begin

text \<open>
  Start-up and what surrounds the program: the command line and exception hook of \<open>app.py\<close>,
  \<open>services/app_logging.py\<close>, the environment set by \<open>packaging/runtime_hooks\<close>, the map page's assets
  (\<open>scripts/fetch_vendors.py\<close>, \<open>ensure_qwebchannel_asset\<close> of \<open>ui/map/map_widget.py\<close>), and the opening of the
  setup wizard and the closing of the window in \<open>ui/main_window.py\<close>.  Files are a map from paths to
  bytes; downloads, Qt's resource and faults of the file system are parameters; what is called on other
  parts is a list of effects in order.
\<close>

section \<open>Files\<close>

type_synonym file_map = "string \<Rightarrow> string option"

text \<open>\<open>write_bytes\<close>: the whole text, or, where the file system fails after \<open>n\<close> bytes, what was written by
  then.  The flag tells whether it returned.\<close>

definition write_bytes :: "nat option \<Rightarrow> string \<Rightarrow> string \<Rightarrow> file_map \<Rightarrow> bool \<times> file_map" where
  "write_bytes fault path data fs =
     (case fault of None \<Rightarrow> (True, fs(path \<mapsto> data)) | Some n \<Rightarrow> (False, fs(path \<mapsto> take n data)))"

section \<open>The bridge script of the map page\<close>

datatype qt_resource = Unregistered | CannotOpen | Contents string

text \<open>What else may raise on the way: the first look at the file, the imports, \<open>mkdir\<close>.\<close>

record asset_env =
  ae_stat_raises :: bool
  ae_import_raises :: bool
  ae_resource :: qt_resource
  ae_mkdir_raises :: bool
  ae_write_fault :: "nat option"

definition ensure_qwebchannel_asset :: "asset_env \<Rightarrow> string \<Rightarrow> file_map \<Rightarrow> string option \<times> file_map" where
  "ensure_qwebchannel_asset e web_dir fs =
     (let target = web_dir @ ''/vendor/qwebchannel.js''
      in if ae_stat_raises e then (None, fs)
         else if (case fs target of Some data \<Rightarrow> data \<noteq> [] | None \<Rightarrow> False) then (Some target, fs)
         else if ae_import_raises e then (None, fs)
         else case ae_resource e of
           Unregistered \<Rightarrow> (None, fs)
         | CannotOpen \<Rightarrow> (None, fs)
         | Contents data \<Rightarrow>
             if data = [] \<or> ae_mkdir_raises e then (None, fs)
             else (case write_bytes (ae_write_fault e) target data fs of
                     (True, fs') \<Rightarrow> (Some target, fs')
                   | (False, fs') \<Rightarrow> (None, fs')))"

section \<open>Fetching the vendored files\<close>

definition LEAFLET_VERSION :: string where "LEAFLET_VERSION = ''1.9.4''"
definition MARKERCLUSTER_VERSION :: string where "MARKERCLUSTER_VERSION = ''1.5.3''"

definition ASSETS :: "(string \<times> string) list" where
  "ASSETS =
     (let leaflet = ''https://unpkg.com/leaflet@'' @ LEAFLET_VERSION @ ''/dist/'';
          cluster = ''https://unpkg.com/leaflet.markercluster@'' @ MARKERCLUSTER_VERSION @ ''/dist/''
      in [(leaflet @ ''leaflet.js'', ''leaflet/leaflet.js''),
          (leaflet @ ''leaflet.css'', ''leaflet/leaflet.css''),
          (leaflet @ ''images/marker-icon.png'', ''leaflet/images/marker-icon.png''),
          (leaflet @ ''images/marker-shadow.png'', ''leaflet/images/marker-shadow.png''),
          (leaflet @ ''images/marker-icon-2x.png'', ''leaflet/images/marker-icon-2x.png''),
          (cluster @ ''leaflet.markercluster.js'', ''markercluster/leaflet.markercluster.js''),
          (cluster @ ''MarkerCluster.css'', ''markercluster/MarkerCluster.css''),
          (cluster @ ''MarkerCluster.Default.css'', ''markercluster/MarkerCluster.Default.css'')])"

text \<open>What a download gives: it raises (as \<open>mkdir\<close> before it may), or the bytes, with the fault their
  writing meets.\<close>

datatype download_result = DownloadRaises | Downloaded string "nat option"

definition fetch :: "download_result \<Rightarrow> string \<Rightarrow> file_map \<Rightarrow> bool \<times> file_map" where
  "fetch out dest fs =
     (case out of DownloadRaises \<Rightarrow> (False, fs) | Downloaded data fault \<Rightarrow> write_bytes fault dest data fs)"

fun fetch_assets :: "(string \<Rightarrow> download_result) \<Rightarrow> string \<Rightarrow> (string \<times> string) list \<Rightarrow> file_map \<Rightarrow> nat \<times> file_map" where
  "fetch_assets net vendor [] fs = (0, fs)"
| "fetch_assets net vendor ((url, rel) # rest) fs =
     (let dest = vendor @ ''/'' @ rel
      in if fs dest \<noteq> None then fetch_assets net vendor rest fs
         else (let (ok, fs') = fetch (net url) dest fs; (errors, fs'') = fetch_assets net vendor rest fs'
               in ((if ok then 0 else 1) + errors, fs'')))"

text \<open>\<open>helper\<close>: whether the module of the helper can be imported.\<close>

definition write_qwebchannel_asset :: "bool \<Rightarrow> asset_env \<Rightarrow> string \<Rightarrow> file_map \<Rightarrow> bool \<times> file_map" where
  "write_qwebchannel_asset helper e web fs =
     (if (case fs (web @ ''/vendor/qwebchannel.js'') of Some data \<Rightarrow> data \<noteq> [] | None \<Rightarrow> False) then (True, fs)
      else if \<not> helper then (False, fs)
      else (case ensure_qwebchannel_asset e web fs of (path, fs') \<Rightarrow> (path \<noteq> None, fs')))"

text \<open>The exit code of the script.\<close>

definition fetch_vendors_main ::
    "(string \<Rightarrow> download_result) \<Rightarrow> bool \<Rightarrow> asset_env \<Rightarrow> string \<Rightarrow> file_map \<Rightarrow> nat \<times> file_map" where
  "fetch_vendors_main net helper e web fs =
     (let (errors, fs1) = fetch_assets net (web @ ''/vendor'') ASSETS fs;
          (ok, fs2) = write_qwebchannel_asset helper e web fs1
      in (if errors + (if ok then 0 else 1) > 0 then 1 else 0, fs2))"

section \<open>Facts on the assets\<close>

lemma write_bytes_simps [simp]: "write_bytes None p data fs = (True, fs(p \<mapsto> data))"
  "write_bytes (Some n) p data fs = (False, fs(p \<mapsto> take n data))"
  by (simp_all add: write_bytes_def)

text \<open>A file that is there and not empty is returned untouched; what is returned is there and not empty.\<close>

lemma asset_kept:
  assumes "fs (web @ ''/vendor/qwebchannel.js'') = Some data" "data \<noteq> []" "\<not> ae_stat_raises e"
  shows "ensure_qwebchannel_asset e web fs = (Some (web @ ''/vendor/qwebchannel.js''), fs)"
  using assms by (simp add: ensure_qwebchannel_asset_def)

lemma asset_returned_exists:
  assumes "ensure_qwebchannel_asset e web fs = (Some p, fs')"
  shows "\<exists>data. fs' p = Some data \<and> data \<noteq> [] \<and> (fs' = fs \<or> ae_resource e = Contents data)"
  using assms by (cases "ae_write_fault e")
    (auto simp: ensure_qwebchannel_asset_def Let_def split: if_splits qt_resource.splits option.splits)

lemma asset_elsewhere_untouched:
  "p \<noteq> web @ ''/vendor/qwebchannel.js'' \<Longrightarrow> snd (ensure_qwebchannel_asset e web fs) p = fs p"
  by (cases "ae_write_fault e")
    (auto simp: ensure_qwebchannel_asset_def Let_def split: qt_resource.splits option.splits)

text \<open>Files already there are never touched, and with no error counted every asset is there.\<close>

lemma fetch_keeps: "fs p = Some data \<Longrightarrow> snd (fetch_assets net vendor as fs) p = Some data"
proof (induction net vendor as fs rule: fetch_assets.induct)
  case (2 net vendor url rel rest fs)
  let ?dest = "vendor @ ''/'' @ rel"
  show ?case
  proof (cases "fs ?dest = None")
    case True
    obtain ok fs' where f: "fetch (net url) ?dest fs = (ok, fs')" by (rule prod.exhaust)
    have "p \<noteq> ?dest" using True 2(3) by auto
    then have "fs' p = Some data" using f 2(3)
      by (auto simp: fetch_def write_bytes_def split: download_result.splits option.splits)
    with 2(2) [OF refl _ f [symmetric] refl] True f show ?thesis by (simp add: Let_def case_prod_beta)
  next
    case False
    with 2 show ?thesis by (simp add: Let_def)
  qed
qed simp

lemma fetch_complete:
  "fst (fetch_assets net vendor as fs) = 0 \<Longrightarrow> (url, rel) \<in> set as \<Longrightarrow>
    snd (fetch_assets net vendor as fs) (vendor @ ''/'' @ rel) \<noteq> None"
proof (induction net vendor as fs rule: fetch_assets.induct)
  case (2 net vendor url' rel' rest fs)
  let ?dest = "vendor @ ''/'' @ rel'"
  show ?case
  proof (cases "fs ?dest = None")
    case True
    obtain ok fs' where f: "fetch (net url') ?dest fs = (ok, fs')" by (rule prod.exhaust)
    with 2(3) True have ok: ok "fst (fetch_assets net vendor rest fs') = 0"
      by (simp_all add: Let_def case_prod_beta split: if_splits)
    then obtain data where "fs' ?dest = Some data"
      using f by (auto simp: fetch_def write_bytes_def split: download_result.splits option.splits)
    then have "snd (fetch_assets net vendor rest fs') ?dest = Some data" by (rule fetch_keeps)
    with 2(2) [OF refl _ f [symmetric] refl ok(2)] 2(4) True f show ?thesis
      by (auto simp: Let_def case_prod_beta)
  next
    case False
    then obtain data where "fs ?dest = Some data" by blast
    then have "snd (fetch_assets net vendor rest fs) ?dest = Some data" by (rule fetch_keeps)
    with 2 False show ?thesis by (auto simp: Let_def)
  qed
qed simp

lemma fetch_present: "\<forall>(url, rel) \<in> set as. fs (vendor @ ''/'' @ rel) \<noteq> None \<Longrightarrow>
    fetch_assets net vendor as fs = (0, fs)"
  by (induction as) (auto simp: Let_def)

text \<open>A run that succeeded can be repeated without a network: it finds everything and changes nothing.\<close>

lemma fetch_rerun_offline:
  assumes "fst (fetch_vendors_main net helper e web fs) = 0"
  shows "fetch_vendors_main (\<lambda>_. DownloadRaises) helper' e' web (snd (fetch_vendors_main net helper e web fs))
    = (0, snd (fetch_vendors_main net helper e web fs))"
proof -
  let ?v = "web @ ''/vendor''" and ?q = "web @ ''/vendor/qwebchannel.js''"
  obtain n fs1 where f: "fetch_assets net ?v ASSETS fs = (n, fs1)" by (rule prod.exhaust)
  obtain ok fs2 where w: "write_qwebchannel_asset helper e web fs1 = (ok, fs2)" by (rule prod.exhaust)
  from assms f w have n: "n = 0" and ok: ok by (simp_all add: fetch_vendors_main_def split: if_splits)
  have there: "\<exists>data. fs1 (?v @ ''/'' @ rel) = Some data" if "(url, rel) \<in> set ASSETS" for url rel
    using fetch_complete [of net ?v ASSETS fs url rel] f n that by auto
  have keep: "fs2 p = fs1 p" if "p \<noteq> ?q" for p
    using w that asset_elsewhere_untouched [of p web e fs1]
    by (auto simp: write_qwebchannel_asset_def split: if_splits option.splits prod.splits)
  have rels: "rel \<noteq> ''qwebchannel.js''" if "(url, rel) \<in> set ASSETS" for url rel
    using that by (auto simp: ASSETS_def Let_def)
  have "\<forall>(url, rel) \<in> set ASSETS. fs2 (?v @ ''/'' @ rel) \<noteq> None"
    using there keep rels by fastforce
  then have a: "fetch_assets (\<lambda>_. DownloadRaises) ?v ASSETS fs2 = (0, fs2)" by (rule fetch_present)
  have "\<exists>data. fs2 ?q = Some data \<and> data \<noteq> []"
  proof (cases "fs1 ?q = None \<or> fs1 ?q = Some []")
    case True
    with w ok obtain path where "ensure_qwebchannel_asset e web fs1 = (Some path, fs2)"
      by (auto simp: write_qwebchannel_asset_def split: if_splits prod.splits)
    moreover from this have "path = ?q"
      by (auto simp: ensure_qwebchannel_asset_def Let_def write_bytes_def
          split: if_splits qt_resource.splits option.splits)
    ultimately show ?thesis using asset_returned_exists by blast
  next
    case False
    with w show ?thesis by (auto simp: write_qwebchannel_asset_def)
  qed
  then have "write_qwebchannel_asset helper' e' web fs2 = (True, fs2)"
    by (auto simp: write_qwebchannel_asset_def)
  with a f w n ok show ?thesis by (simp add: fetch_vendors_main_def)
qed

text \<open>A write that breaks off leaves a part of the file, and the next run takes it for the file.\<close>

lemma truncated_download_kept:
  assumes "fs (vendor @ ''/'' @ rel) = None" "net url = Downloaded data (Some n)"
  shows "fst (fetch_assets net vendor [(url, rel)] fs) = 1 \<and>
    snd (fetch_assets net vendor [(url, rel)] fs) (vendor @ ''/'' @ rel) = Some (take n data) \<and>
    fetch_assets net' vendor [(url, rel)] (snd (fetch_assets net vendor [(url, rel)] fs))
      = (0, snd (fetch_assets net vendor [(url, rel)] fs))"
  using assms by (simp add: fetch_def)

section \<open>Logging\<close>

datatype log_handler = RotatingFile string nat nat int string | ConsoleHandler int string

definition DEBUG :: int where "DEBUG = 10"
definition INFO :: int where "INFO = 20"
definition WARNING :: int where "WARNING = 30"

record logging_state =
  lg_configured :: bool
  lg_level :: int
  lg_handlers :: "log_handler list"

text \<open>\<open>log_dir\<close> is what \<open>platformdirs\<close> answers; its creation may raise.\<close>

definition configure_logging :: "string \<Rightarrow> bool \<Rightarrow> bool \<Rightarrow> logging_state \<Rightarrow> bool \<times> logging_state" where
  "configure_logging log_dir mkdir_raises debug s =
     (if lg_configured s then (True, s)
      else if mkdir_raises then (False, s\<lparr>lg_configured := True\<rparr>)
      else (True, s\<lparr>lg_configured := True, lg_level := (if debug then DEBUG else INFO),
             lg_handlers := lg_handlers s @
               [RotatingFile (log_dir @ ''/meshchat.log'') (5 * 1024 * 1024) 3 DEBUG
                  ''%(asctime)s  %(levelname)-8s  %(name)s  %(message)s'',
                ConsoleHandler (if debug then DEBUG else WARNING) ''%(levelname)s %(name)s: %(message)s'']\<rparr>))"

text \<open>The handlers are installed once, however often it is called; a first call that fails is the last one
  that tries.\<close>

lemma configure_logging_once:
  "snd (configure_logging d' m' debug' (snd (configure_logging d m debug s))) = snd (configure_logging d m debug s)"
  by (simp add: configure_logging_def)

lemma configure_logging_no_retry:
  "\<not> lg_configured s \<Longrightarrow> configure_logging d' False debug' (snd (configure_logging d True debug s))
    = (True, s\<lparr>lg_configured := True\<rparr>)"
  by (simp add: configure_logging_def)

section \<open>Unhandled exceptions\<close>

datatype hook_effect = DefaultHook | LogCritical | CrashDialog | LogDialogFailure

text \<open>\<open>interrupt\<close>: the exception is a \<open>KeyboardInterrupt\<close>; \<open>qt\<close>: the import works and there is an
  application; \<open>dialog_raises\<close>: anything in building or running the box does.\<close>

definition excepthook :: "bool \<Rightarrow> bool option \<Rightarrow> bool \<Rightarrow> hook_effect list" where
  "excepthook interrupt qt dialog_raises =
     (if interrupt then [DefaultHook]
      else LogCritical #
        (case qt of
           None \<Rightarrow> [LogDialogFailure]
         | Some False \<Rightarrow> []
         | Some True \<Rightarrow> if dialog_raises then [LogDialogFailure] else [CrashDialog]))"

lemma unhandled_logged_first:
  "\<not> interrupt \<Longrightarrow> \<exists>more. excepthook interrupt qt r = LogCritical # more \<and> LogCritical \<notin> set more"
  by (auto simp: excepthook_def split: option.splits bool.splits)

section \<open>The command line\<close>

record command_line =
  cl_help :: bool
  cl_debug :: bool
  cl_first_run :: bool
  cl_version :: bool

text \<open>\<open>parse_known_args\<close>: a flag may be abbreviated, nothing is read after \<open>--\<close>, unknown arguments are left
  alone.  A flag given a value (\<open>--debug=1\<close>) ends the program with a usage message and is left out.\<close>

definition flag_given :: "string \<Rightarrow> string list \<Rightarrow> bool" where
  "flag_given flag args = list_ex (\<lambda>a. length a > 2 \<and> take (length a) flag = a) (takeWhile (\<lambda>a. a \<noteq> ''--'') args)"

definition parse_args :: "string list \<Rightarrow> command_line" where
  "parse_args args = \<lparr>cl_help = (flag_given ''--help'' args \<or> ''-h'' \<in> set (takeWhile (\<lambda>a. a \<noteq> ''--'') args)),
     cl_debug = flag_given ''--debug'' args, cl_first_run = flag_given ''--first-run'' args,
     cl_version = flag_given ''--version'' args\<rparr>"

type_synonym environment = "string \<Rightarrow> string option"

definition setdefault :: "string \<Rightarrow> string \<Rightarrow> environment \<Rightarrow> environment" where
  "setdefault k v env = (if env k = None then env(k \<mapsto> v) else env)"

definition main_environment :: "environment \<Rightarrow> environment" where
  "main_environment env =
     setdefault ''QSG_RHI_BACKEND'' ''opengl''
       (setdefault ''QTWEBENGINE_CHROMIUM_FLAGS'' ''--disable-gpu-sandbox''
         (setdefault ''QT_AUTO_SCREEN_SCALE_FACTOR'' ''1'' env))"

text \<open>The hook of the packaged program runs before; \<open>base\<close> is the directory of the bundle.\<close>

definition runtime_hook :: "string \<Rightarrow> (string \<Rightarrow> bool) \<Rightarrow> environment \<Rightarrow> environment" where
  "runtime_hook base is_dir env =
     (let pyside = base @ ''/PySide6'';
          env = (if is_dir pyside then setdefault ''QTWEBENGINEPROCESS_PATH'' (pyside @ ''/QtWebEngineProcess.exe'') env
                 else env)
      in setdefault ''QT_AUTO_SCREEN_SCALE_FACTOR'' ''1''
           (setdefault ''QTWEBENGINE_CHROMIUM_FLAGS'' ''--disable-gpu-sandbox --no-sandbox'' env))"

datatype main_effect =
    PrintHelp
  | PrintVersion string
  | ConfigureLogging bool
  | InstallHook
  | Environment environment
  | NewApplication string string string
  | ApplyStylesheet
  | NewWindow
  | ShowWindow
  | FirstRun bool
  | ExecLoop

text \<open>\<open>installed\<close>: the version of an installed distribution.\<close>

definition app_main ::
    "string \<Rightarrow> (string \<Rightarrow> string option) \<Rightarrow> string \<Rightarrow> environment \<Rightarrow> string list \<Rightarrow> main_effect list" where
  "app_main version installed python env argv =
     (let args = parse_args argv
      in if cl_help args then [PrintHelp]
         else if cl_version args then
           PrintVersion (''OrcMesh '' @ version)
           # map (\<lambda>d. PrintVersion (d @ (case installed d of Some v \<Rightarrow> '' '' @ v | None \<Rightarrow> '' (not installed)'')))
               [''meshtastic'', ''PySide6'', ''pyqtgraph'']
           @ [PrintVersion (''Python '' @ python)]
         else [ConfigureLogging (cl_debug args), InstallHook, Environment (main_environment env),
               NewApplication ''MeshChat'' ''MeshChat'' ''OrcMesh'', ApplyStylesheet, NewWindow, ShowWindow,
               FirstRun (cl_first_run args), ExecLoop])"

text \<open>Nothing of the program is built before the log and the hook are in place, and asking for the version
  builds nothing.\<close>

lemma main_order:
  assumes "NewWindow \<in> set (app_main version installed python env argv)"
  shows "\<exists>d rest. app_main version installed python env argv = ConfigureLogging d # InstallHook # rest"
    "\<not> cl_version (parse_args argv)"
  using assms by (auto simp: app_main_def Let_def split: if_splits)

text \<open>What the user's environment says is never overridden, and a packaged program keeps what its hook set.\<close>

lemma setdefault_keeps: "env k = Some v \<Longrightarrow> setdefault k' v' env k = Some v"
  by (auto simp: setdefault_def)

lemma environment_respected:
  "env k = Some v \<Longrightarrow> main_environment (runtime_hook base is_dir env) k = Some v"
  by (simp add: main_environment_def runtime_hook_def Let_def setdefault_keeps)

lemma environment_set:
  "main_environment env ''QSG_RHI_BACKEND'' \<noteq> None"
  "main_environment (runtime_hook base is_dir (\<lambda>_. None)) ''QTWEBENGINE_CHROMIUM_FLAGS''
    = Some ''--disable-gpu-sandbox --no-sandbox''"
  by (simp_all add: main_environment_def runtime_hook_def setdefault_def Let_def)

section \<open>Opening the setup wizard and closing the window\<close>

datatype first_run_effect =
    SetCentre "pyfloat \<times> pyfloat"
  | WirePorts | WireBle | RememberSetup | ExecWizard | UnwirePorts | UnwireBle | ApplySetup

datatype dialog_outcome = Accepted | Rejected | DialogRaises

definition maybe_run_first_run ::
    "bool \<Rightarrow> bool \<Rightarrow> (pyfloat \<times> pyfloat) option \<Rightarrow> dialog_outcome \<Rightarrow> first_run_effect list" where
  "maybe_run_first_run force completed position outcome =
     (if \<not> force \<and> completed then []
      else (case position of None \<Rightarrow> [] | Some p \<Rightarrow> [SetCentre p])
        @ [WirePorts, WireBle, RememberSetup, ExecWizard, UnwirePorts, UnwireBle]
        @ (if outcome = Accepted then [ApplySetup] else []))"

text \<open>However the dialog ends, no signal of the controller stays connected to it, and it is not offered
  again by itself; the choice is applied only when it was accepted, and then after unwiring.\<close>

lemma wizard_unwired:
  assumes "ExecWizard \<in> set (maybe_run_first_run force completed position outcome)"
  shows "\<exists>before after. maybe_run_first_run force completed position outcome
      = before @ [WirePorts, WireBle, RememberSetup, ExecWizard, UnwirePorts, UnwireBle] @ after \<and>
    set after \<subseteq> {ApplySetup} \<and> (ApplySetup \<in> set after \<longleftrightarrow> outcome = Accepted)"
proof -
  have "force \<or> \<not> completed" using assms by (auto simp: maybe_run_first_run_def split: if_splits)
  then have run: "\<not> (\<not> force \<and> completed)" by blast
  show ?thesis unfolding maybe_run_first_run_def if_not_P [OF run]
    by (rule exI [of _ "case position of None \<Rightarrow> [] | Some p \<Rightarrow> [SetCentre p]"],
        rule exI [of _ "if outcome = Accepted then [ApplySetup] else []"])
      auto
qed

datatype close_effect =
    SaveGeometry | StopSpectrum | StopSigint | StopFirmware | StopMap | StopOrcMaps | StopRadio | StopStore
  | QuitExport | WaitExport | CloseBase

definition close_event :: "bool \<Rightarrow> close_effect list" where
  "close_event exporting =
     [SaveGeometry, StopSpectrum, StopSigint, StopFirmware, StopMap, StopOrcMaps, StopRadio, StopStore]
     @ (if exporting then [QuitExport, WaitExport] else []) @ [CloseBase]"

text \<open>Every source of writes is stopped before the store.\<close>

lemma store_stopped_last:
  "\<exists>before after. close_event exporting = before @ StopStore # after \<and>
    {StopSpectrum, StopSigint, StopFirmware, StopMap, StopOrcMaps, StopRadio} \<subseteq> set before \<and>
    set after \<subseteq> {QuitExport, WaitExport, CloseBase}"
  by (rule exI [of _ "[SaveGeometry, StopSpectrum, StopSigint, StopFirmware, StopMap, StopOrcMaps, StopRadio]"],
      rule exI [of _ "(if exporting then [QuitExport, WaitExport] else []) @ [CloseBase]"])
    (auto simp: close_event_def)

end
