(* ===== verification/Window.thy ===== *)
theory Window
  imports Startup Sigint Store
begin

text \<open>
  What \<open>ui/main_window.py\<close> itself holds together: the wiring of signals to slots its constructor makes, the
  navigation rail, what it remembers of the stored nodes at launch and hands to the SIGINT page, the
  queued clean-up, and the small dialogs.  The handlers the wiring leads to are modelled with the
  components they serve.
\<close>

section \<open>The wiring\<close>

text \<open>The connections in the order they are made, which is the order Qt calls the slots of a signal in.  The
  supervisor connects itself to the controller when it is built, before the window does.\<close>

definition supervisor_wiring :: "(string \<times> string) list" where
  "supervisor_wiring =
     [(''controller.connected'', ''supervisor._on_connected''),
      (''controller.disconnected'', ''supervisor._on_disconnected''),
      (''controller.error_occurred'', ''supervisor._on_error'')]"

definition bar_wiring :: "(string \<times> string) list" where
  "bar_wiring =
     [(''conn_bar.scan_requested'', ''controller.scan_ble''),
      (''conn_bar.connect_ble_requested'', ''_on_connect_ble_requested''),
      (''conn_bar.connect_tcp_requested'', ''_on_connect_tcp_requested''),
      (''conn_bar.connect_serial_requested'', ''_on_connect_serial_requested''),
      (''conn_bar.list_serial_ports_requested'', ''controller.list_serial_ports''),
      (''conn_bar.disconnect_requested'', ''_on_disconnect_requested'')]"

definition chat_wiring :: "(string \<times> string) list" where
  "chat_wiring =
     [(''channel_list.channel_selected'', ''_on_channel_selected''),
      (''channel_list.dm_target_selected'', ''_on_dm_selected''),
      (''chat_view.send_requested'', ''_on_send''),
      (''chat_view.send_direct_requested'', ''_on_send_dm'')]"

definition nodes_wiring :: "(string \<times> string) list" where
  "nodes_wiring =
     [(''nodes_page.message_requested'', ''_on_node_message_requested''),
      (''nodes_page.show_on_map_requested'', ''_on_show_node_on_map''),
      (''nodes_page.position_requested'', ''controller.request_position''),
      (''nodes_page.telemetry_requested'', ''controller.request_telemetry''),
      (''nodes_page.traceroute_requested'', ''controller.send_traceroute''),
      (''nodes_page.favorite_requested'', ''controller.set_favorite''),
      (''nodes_page.remove_node_requested'', ''controller.remove_node''),
      (''monitor_page.node_selected'', ''nodes_page.select_node'')]"

definition device_wiring :: "(string \<times> string) list" where
  "device_wiring =
     [(''device_page.refresh_requested'', ''controller.refresh_device_controls''),
      (''device_page.save_section_requested'', ''controller.apply_device_section''),
      (''device_page.owner_requested'', ''controller.set_owner''),
      (''device_page.channel_requested'', ''controller.update_channel''),
      (''device_page.reboot_requested'', ''controller.reboot_device''),
      (''device_page.shutdown_requested'', ''controller.shutdown_device''),
      (''device_page.reset_nodedb_requested'', ''controller.reset_nodedb''),
      (''device_page.factory_reset_requested'', ''controller.factory_reset''),
      (''device_page.fixed_position_requested'', ''controller.set_fixed_position''),
      (''device_page.remove_fixed_position_requested'', ''controller.remove_fixed_position''),
      (''device_page.firmware_discover_requested'', ''firmware_controller.discover''),
      (''device_page.firmware_prepare_requested'', ''firmware_controller.prepare''),
      (''device_page.firmware_flash_requested'', ''_on_firmware_flash_requested''),
      (''device_page.firmware_probe_requested'', ''_on_firmware_probe_requested''),
      (''device_page.firmware_backup_requested'', ''_on_firmware_backup_requested''),
      (''device_page.profile_backup_requested'', ''controller.backup_device_profile''),
      (''device_page.profile_restore_requested'', ''controller.restore_device_profile''),
      (''device_page.serial_console_start_requested'', ''_on_serial_console_requested''),
      (''device_page.serial_console_stop_requested'', ''_on_serial_console_stopped'')]"

definition controller_wiring :: "(string \<times> string) list" where
  "controller_wiring =
     [(''controller.connection_state_changed'', ''_on_state_changed''),
      (''controller.connected'', ''_on_connected''),
      (''controller.disconnected'', ''_on_disconnected''),
      (''controller.channels_updated'', ''_on_channels_updated''),
      (''controller.channels_updated'', ''monitor_page.set_channels''),
      (''controller.lora_config_updated'', ''monitor_page.set_radio_config''),
      (''controller.lora_config_updated'', ''spectrum_page.set_radio_config''),
      (''controller.lora_config_updated'', ''_remember_lora_config''),
      (''controller.message_received'', ''_on_message_received''),
      (''controller.message_status_changed'', ''_on_message_status''),
      (''controller.ble_scan_finished'', ''conn_bar.set_ble_devices''),
      (''controller.serial_ports_found'', ''conn_bar.set_serial_ports''),
      (''controller.nodedb_synced'', ''ingestor.seed_from_nodedb''),
      (''controller.node_action_completed'', ''_on_node_action_completed''),
      (''controller.error_occurred'', ''_on_error''),
      (''controller.raw_packet'', ''ingestor.ingest_raw''),
      (''controller.device_controls_updated'', ''_on_device_controls_updated''),
      (''controller.device_operation_completed'', ''_on_device_operation''),
      (''controller.profile_operation_completed'', ''device_page.profile_completed''),
      (''firmware_controller.release_found'', ''device_page.set_firmware_release''),
      (''firmware_controller.progress'', ''device_page.set_firmware_progress''),
      (''firmware_controller.bundle_ready'', ''device_page.set_firmware_bundle''),
      (''firmware_controller.log'', ''device_page.append_firmware_log''),
      (''firmware_controller.completed'', ''_on_firmware_completed''),
      (''device_page.maps_refresh_requested'', ''_refresh_map_packs''),
      (''device_page.maps_verify_requested'', ''_verify_map_directory''),
      (''device_page.maps_provision_requested'', ''_provision_map_pack''),
      (''orcmaps.log'', ''device_page.append_maps_log''),
      (''orcmaps.completed'', ''_on_orcmaps_completed'')]"

definition ingestor_wiring :: "(string \<times> string) list" where
  "ingestor_wiring =
     [(''ingestor.position_updated'', ''_on_position_for_device_page''),
      (''ingestor.packet_ingested'', ''monitor_page.on_packet_ingested''),
      (''ingestor.node_updated'', ''_on_node_snapshot''),
      (''ingestor.position_updated'', ''monitor_page.on_position_updated''),
      (''ingestor.telemetry_updated'', ''_on_telemetry''),
      (''ingestor.stats_updated'', ''monitor_page.on_stats_updated''),
      (''ingestor.nodedb_seeded'', ''_on_nodedb_seeded'')]"

definition timer_wiring :: "(string \<times> string) list" where
  "timer_wiring =
     [(''node_refresh_timer.timeout'', ''_flush_node_updates''),
      (''node_refresh_timer.timeout'', ''_refresh_sigint_intel'')]"

definition wiring :: "(string \<times> string) list" where
  "wiring = supervisor_wiring @ bar_wiring @ chat_wiring @ nodes_wiring @ device_wiring @ controller_wiring
     @ ingestor_wiring @ timer_wiring"

lemmas wiring_defs = wiring_def supervisor_wiring_def bar_wiring_def chat_wiring_def
  nodes_wiring_def device_wiring_def controller_wiring_def
  ingestor_wiring_def timer_wiring_def

definition receivers :: "string \<Rightarrow> string list" where
  "receivers signal = map snd (filter (\<lambda>c. fst c = signal) wiring)"

text \<open>The supervisor hears of a connection before the window does.\<close>

lemma supervisor_first: "receivers ''controller.connected'' = [''supervisor._on_connected'', ''_on_connected'']"
  unfolding receivers_def wiring_defs by code_simp

text \<open>A packet has one way in, and a request of the Nodes or the Device page one receiver.\<close>

lemma packet_way_in: "receivers ''controller.raw_packet'' = [''ingestor.ingest_raw'']"
  unfolding receivers_def wiring_defs by code_simp

lemma requests_wired_once:
  "distinct (filter (\<lambda>s. take 11 s = ''device_page'' \<or> take 11 s = ''nodes_page.'') (map fst wiring))"
  unfolding wiring_defs by code_simp

section \<open>The navigation rail\<close>

datatype tab_page = ChatTab | MonitorTab | NodesTab | SpectrumTab | DeviceTab | SigintTab

definition stack_pages :: "tab_page list" where
  "stack_pages = [ChatTab, MonitorTab, NodesTab, SpectrumTab, DeviceTab, SigintTab]"

definition nav_rail :: "tab_page list" where
  "nav_rail = [ChatTab, MonitorTab, NodesTab, SpectrumTab, SigintTab, DeviceTab]"

fun nav_index :: "tab_page \<Rightarrow> nat" where
  "nav_index ChatTab = 0"
| "nav_index MonitorTab = 1"
| "nav_index NodesTab = 2"
| "nav_index SpectrumTab = 3"
| "nav_index DeviceTab = 4"
| "nav_index SigintTab = 5"

text \<open>Every button opens its own page, though rail and stack are in different orders.\<close>

lemma nav_opens_page: "nav_index b < length stack_pages \<and> stack_pages ! nav_index b = b \<and> b \<in> set nav_rail"
  by (cases b) (simp_all add: stack_pages_def nav_rail_def)

section \<open>What the window remembers of the stored nodes\<close>

definition known_node_nums :: "(node_id \<times> node_row) list \<Rightarrow> node_id list" where
  "known_node_nums rows = map fst rows"

definition node_labels :: "(node_id \<times> node_row) list \<Rightarrow> (node_id \<times> string) list" where
  "node_labels rows = map (\<lambda>(n, r).
     (n, case py_or_str (nr_long_name r) (nr_short_name r) of Some s \<Rightarrow> s | None \<Rightarrow> [])) rows"

text \<open>The SIGINT page gets the session's packets only while it is on screen.\<close>

definition refresh_sigint_intel ::
    "tab_page \<Rightarrow> lora_config_summary option \<Rightarrow> network_packet list \<Rightarrow> node_id list \<Rightarrow> (node_id \<times> string) list
       \<Rightarrow> user_event option" where
  "refresh_sigint_intel current summary recent known labels =
     (if current \<noteq> SigintTab then None
      else Some (PacketsHeard recent known labels
        (case summary of Some s \<Rightarrow> if lc_use_preset s then lc_modem_preset s else None | None \<Rightarrow> None)))"

definition DEFAULT_RETAIN_DAYS :: int where "DEFAULT_RETAIN_DAYS = 30"

definition prune_old_data :: "store \<Rightarrow> store" where
  "prune_old_data st = prune_async DEFAULT_RETAIN_DAYS st"

section \<open>Small dialogs\<close>

text \<open>\<open>os.startfile\<close> exists on Windows only, where it may raise \<open>OSError\<close>.\<close>

datatype shell_result = Opened string | Told string | Escapes string

definition open_windows_bluetooth_settings :: "bool \<Rightarrow> bool \<Rightarrow> shell_result" where
  "open_windows_bluetooth_settings win32 os_error =
     (if win32 then
        (if os_error then Told ''Could not open Bluetooth settings automatically'' else Opened ''ms-settings:bluetooth'')
      else Told ''Bluetooth settings shortcut is only available on Windows'')"

definition open_log_folder :: "bool \<Rightarrow> bool \<Rightarrow> bool \<Rightarrow> string \<Rightarrow> shell_result" where
  "open_log_folder win32 mkdir_raises os_error log_dir =
     (if mkdir_raises then Escapes ''OSError''
      else if \<not> win32 then Escapes ''AttributeError''
      else if os_error then Escapes ''OSError'' else Opened log_dir)"

definition show_pairing_required_dialog :: "bool \<Rightarrow> bool \<Rightarrow> bool \<Rightarrow> shell_result option" where
  "show_pairing_required_dialog open_clicked win32 os_error =
     (if open_clicked then Some (open_windows_bluetooth_settings win32 os_error) else None)"

text \<open>\<open>attr\<close>: the library's \<open>__version__\<close>, which it does not have.\<close>

definition copy_diagnostic :: "string \<Rightarrow> string \<Rightarrow> string option \<Rightarrow> string option \<Rightarrow> string" where
  "copy_diagnostic version python pyside attr =
     join_with [lf]
       [''OrcMesh '' @ version, ''Python '' @ python,
        ''PySide6 '' @ (case pyside of Some v \<Rightarrow> v | None \<Rightarrow> ''?''),
        ''meshtastic '' @ (case attr of Some v \<Rightarrow> v | None \<Rightarrow> ''?'')]"

text \<open>The node to remove, when the question was answered with yes.\<close>

definition confirm_remove :: "bool \<Rightarrow> node_id \<Rightarrow> node_id option" where
  "confirm_remove yes node_num = (if yes then Some node_num else None)"

text \<open>The pairing dialog never lets an exception out; the log folder does, on every system but Windows.\<close>

lemma bluetooth_settings_safe: "show_pairing_required_dialog c w e \<noteq> Some (Escapes x)"
  by (simp add: show_pairing_required_dialog_def open_windows_bluetooth_settings_def)

lemma log_folder_needs_windows: "open_log_folder False False e d = Escapes ''AttributeError''"
  by (simp add: open_log_folder_def)

section \<open>Unfamiliar nodes\<close>

lemma acc_add_unfamiliar:
  "ia_unfamiliar (acc_add params known s p a) \<longleftrightarrow> ia_unfamiliar a \<or> s \<notin> set known"
  by (simp add: acc_add_def Let_def split: option.split)

lemma intel_unfamiliar:
  "\<forall>n a. map_of (is_accs st) n = Some a \<longrightarrow> ia_unfamiliar a = (n \<notin> set known) \<Longrightarrow>
    map_of (is_accs (fold (intel_add params known) ps st)) n = Some a \<Longrightarrow> ia_unfamiliar a = (n \<notin> set known)"
proof (induction ps arbitrary: st)
  case (Cons p ps)
  have "\<forall>n a. map_of (is_accs (intel_add params known p st)) n = Some a \<longrightarrow> ia_unfamiliar a = (n \<notin> set known)"
    using Cons.prems(1)
    by (auto simp: intel_add_def odict_put_lookup acc_add_unfamiliar intel_acc_new_def Let_def
        split: option.splits if_splits)
  from Cons.IH [OF this] Cons.prems(2) show ?case by simp
qed simp

text \<open>The report marks just those senders that the database did not know at launch.\<close>

lemma foreign_are_new:
  assumes "n \<in> set (ir_nodes (analyse_packets ps params labels (known_node_nums rows) l))"
  shows "ni_is_unfamiliar n \<longleftrightarrow> node_intel.ni_node_num n \<notin> fst ` set rows"
proof -
  let ?st = "fold (intel_add params (known_node_nums rows)) ps
      \<lparr>is_accs = [], is_unattributed = 0, is_unsized = 0, is_portnums = []\<rparr>"
  from assms obtain k a where k: "(k, a) \<in> set (is_accs ?st)"
    "node_intel.ni_node_num n = k" "ni_is_unfamiliar n = ia_unfamiliar a"
    by (auto simp: analyse_packets_def node_intel_of_def Let_def)
  have "distinct (odict_keys (is_accs ?st))" using intel_inv_run [of params ps] by (simp add: intel_inv_def)
  with k(1) have "map_of (is_accs ?st) k = Some a" by simp
  then have "ia_unfamiliar a = (k \<notin> set (known_node_nums rows))"
    by (rule intel_unfamiliar [rotated]) simp
  with k(2,3) show ?thesis by (simp add: known_node_nums_def)
qed

text \<open>A node heard through MQTT alone is called heard over RF.\<close>

lemma mqtt_called_rf:
  assumes "pk_sender_num p = Some k" "k \<notin> set known" "pk_via_mqtt p = Some True" "\<not> packet_is_direct_rf p"
  shows "\<exists>n. ir_nodes (analyse_packets [p] params labels known l) = [n] \<and> ni_packets n = 1 \<and>
    ni_via_mqtt n = 1 \<and> ni_direct n = 0 \<and> ni_relayed n = 0 \<and>
    snd (snd (intel_row n)) = ''Heard over RF, and this mesh has no prior record of it''"
  using assms
  by (simp add: analyse_packets_def intel_add_def acc_add_def node_intel_of_def intel_row_def
      intel_acc_new_def Let_def split: option.split)

end
