(* ===== verification/Facade.thy ===== *)
theory Facade
  imports DeviceConfig
begin

text \<open>
  The facade \<open>MeshtasticController\<close> of \<open>controllers/meshtastic_controller.py\<close>: what the GUI asks for is posted to
  the worker's thread and carried out there one slot at a time, in the order it was asked, between the
  library's callbacks.  Qt's event queue is a list; that the thread runs is not assumed.
\<close>

section \<open>Commands\<close>

datatype radio_command =
    ScanBle
  | ConnectBle string
  | ConnectTcp string int
  | ListSerialPorts
  | ConnectSerial string
  | Disconnect
  | EnterReconnecting string
  | SendChannelText string int string
  | SendDirectText string int string
  | RequestPosition int
  | RequestTelemetry int
  | Traceroute int int
  | Favorite int bool
  | Remove int
  | RefreshControls
  | ApplySection string pydict
  | Owner string string
  | UpdateChannel pydict
  | BackupProfile string
  | RestoreProfile string
  | RebootDevice int
  | ShutdownDevice int
  | ResetNodedb
  | FactoryResetDevice bool
  | FixedPosition pyfloat pyfloat int
  | RemoveFixed
  | StopWorker

text \<open>The defaults of the facade's arguments.\<close>

definition default_tcp :: "string \<Rightarrow> radio_command" where "default_tcp host = ConnectTcp host 4403"
definition default_traceroute :: "int \<Rightarrow> radio_command" where "default_traceroute n = Traceroute n 7"
definition default_reboot :: radio_command where "default_reboot = RebootDevice 2"
definition default_shutdown :: radio_command where "default_shutdown = ShutdownDevice 2"
definition default_factory_reset :: radio_command where "default_factory_reset = FactoryResetDevice False"

text \<open>What the slot of a command does, for every outcome of the library calls it makes: \<open>carries_out pb c w
  node w' node'\<close>.  Callbacks may come in while an interface is being opened.\<close>

inductive carries_out ::
    "protobuf \<Rightarrow> radio_command \<Rightarrow> worker \<Rightarrow> radio_node \<Rightarrow> worker \<Rightarrow> radio_node \<Rightarrow> bool" for pb where
  co_scan: "carries_out pb ScanBle w n (scan_ble outcome w) n"
| co_ports: "carries_out pb ListSerialPorts w n (list_serial_ports ports w) n"
| co_ble: "(\<And>i. opened_ble = Inr i \<Longrightarrow> i \<notin> opened w) \<Longrightarrow>
    carries_out pb (ConnectBle a) w n (connect_ble a opened_ble w) n"
| co_tcp: "(\<And>i. opened_tcp = Inr i \<Longrightarrow> i \<notin> opened w) \<Longrightarrow>
    carries_out pb (ConnectTcp h p) w n (connect_tcp h p opened_tcp w) n"
| co_serial: "(\<And>i. opened_serial = Inr i \<Longrightarrow> i \<notin> opened w) \<Longrightarrow>
    carries_out pb (ConnectSerial d) w n (connect_serial d opened_serial w) n"
| co_interrupted: "c \<in> {ConnectBle a, ConnectTcp a port, ConnectSerial a} \<Longrightarrow> may_connect w \<Longrightarrow> i \<notin> opened w \<Longrightarrow>
    callback_step\<^sup>*\<^sup>* (begin_connect sp d w) w1 \<Longrightarrow> callback_step\<^sup>*\<^sup>* (store_interface i w1) w2 \<Longrightarrow>
    carries_out pb c w n (announce_syncing w2) n"
| co_disconnect: "carries_out pb Disconnect w n (disconnect w) n"
| co_reconnecting: "carries_out pb (EnterReconnecting d) w n (enter_reconnecting d w) n"
| co_channel: "carries_out pb (SendChannelText t c l) w n (send_channel_text t c l sent w) n"
| co_direct: "carries_out pb (SendDirectText t d l) w n (send_direct_text t d l sent w) n"
| co_position: "carries_out pb (RequestPosition k) w n (request_position k raised w) n"
| co_telemetry: "carries_out pb (RequestTelemetry k) w n (request_telemetry k raised w) n"
| co_traceroute: "carries_out pb (Traceroute k hops) w n (send_traceroute k hops raised w) n"
| co_favorite: "carries_out pb (Favorite k b) w n (set_favorite k b raised w) n"
| co_remove: "carries_out pb (Remove k) w n (remove_node k raised w) n"
| co_controls: "carries_out pb RefreshControls w n (refresh_device_controls e w) n"
| co_section: "carries_out pb (ApplySection s changes) w n
    (fst (apply_device_section pb we e s changes (w, n))) (snd (apply_device_section pb we e s changes (w, n)))"
| co_owner: "carries_out pb (Owner long short) w n (set_owner long short raised e w) n"
| co_update: "carries_out pb (UpdateChannel changes) w n
    (fst (update_channel pb we e changes (w, n))) (snd (update_channel pb we e changes (w, n)))"
| co_backup: "carries_out pb (BackupProfile path) w n (backup_device_profile saved w) n"
| co_restore: "carries_out pb (RestoreProfile path) w n (restore_device_profile restored e w) n'"
| co_reboot: "carries_out pb (RebootDevice s) w n (reboot_device s raised w) n"
| co_shutdown: "carries_out pb (ShutdownDevice s) w n (shutdown_device s raised w) n"
| co_nodedb: "carries_out pb ResetNodedb w n (reset_nodedb raised w) n"
| co_factory: "carries_out pb (FactoryResetDevice full) w n (factory_reset full raised w) n"
| co_fixed: "carries_out pb (FixedPosition lat lon alt) w n (set_fixed_position lat lon alt raised w) n"
| co_unfixed: "carries_out pb RemoveFixed w n (remove_fixed_position raised w) n"
| co_stop: "carries_out pb StopWorker w n (shutdown w) n"

section \<open>The facade\<close>

record radio_facade =
  rf_asked :: "radio_command list"
  rf_posted :: "radio_command list"
  rf_done :: "radio_command list"
  rf_worker :: worker
  rf_node :: radio_node

definition facade_new :: "radio_node \<Rightarrow> radio_facade" where
  "facade_new node = \<lparr>rf_asked = [], rf_posted = [], rf_done = [], rf_worker = worker_new, rf_node = node\<rparr>"

definition post :: "radio_command \<Rightarrow> radio_facade \<Rightarrow> radio_facade" where
  "post c f = f\<lparr>rf_asked := rf_asked f @ [c], rf_posted := rf_posted f @ [c]\<rparr>"

text \<open>\<open>shutdown\<close> posts the worker's slot and quits the thread: nothing is served after that slot.\<close>

inductive facade_step :: "protobuf \<Rightarrow> radio_facade \<Rightarrow> radio_facade \<Rightarrow> bool" for pb where
  posts: "facade_step pb f (post c f)"
| serves: "rf_posted f = c # cs \<Longrightarrow> StopWorker \<notin> set (rf_done f) \<Longrightarrow> carries_out pb c (rf_worker f) (rf_node f) w n \<Longrightarrow>
    facade_step pb f (f\<lparr>rf_posted := cs, rf_done := rf_done f @ [c], rf_worker := w, rf_node := n\<rparr>)"
| hears: "callback_step (rf_worker f) w \<Longrightarrow> facade_step pb f (f\<lparr>rf_worker := w\<rparr>)"

section \<open>What holds of it\<close>

lemma node_action_step:
  "neutral report \<Longrightarrow> neutral (Radio call) \<Longrightarrow> worker_inv w \<Longrightarrow>
    worker_inv (node_action what call report ttl pre raised w)"
  by (rule worker_step_inv [OF st_action])

lemma local_action_step:
  "neutral (Radio call) \<Longrightarrow> worker_inv w \<Longrightarrow> worker_inv (run_local_node_action act call raised w)"
  by (rule worker_step_inv [OF st_local])

text \<open>Every slot but the last keeps the worker's invariant.\<close>

lemma carries_out_inv:
  assumes "carries_out pb c w n w' n'" "c \<noteq> StopWorker" "worker_inv w"
  shows "worker_inv w'"
  using assms
proof cases
  case co_scan
  then show ?thesis using assms(3) worker_step_inv [OF st_scan] by simp
next
  case co_ports
  then show ?thesis using assms(3) worker_step_inv [OF st_ports] by simp
next
  case (co_ble outcome a)
  then show ?thesis using assms(3) worker_step_inv [OF st_ble] by blast
next
  case (co_tcp outcome h p)
  then show ?thesis using assms(3) worker_step_inv [OF st_tcp] by blast
next
  case (co_serial outcome d)
  then show ?thesis using assms(3) worker_step_inv [OF st_serial] by blast
next
  case (co_interrupted a port i sp d w1 w2)
  then show ?thesis using assms(3) worker_step_inv [OF st_window] by blast
next
  case (co_section changes we e s)
  then show ?thesis using settings_slots_keep_worker_inv(1) [OF assms(3)] by simp
next
  case (co_update changes we e)
  then show ?thesis using settings_slots_keep_worker_inv(2) [OF assms(3)] by simp
qed (use assms(3) worker_step_inv [OF st_disconnect] worker_step_inv [OF st_reconnecting]
      worker_step_inv [OF st_controls] worker_step_inv [OF st_owner] worker_step_inv [OF st_backup]
      worker_step_inv [OF st_restore]
   in \<open>simp_all add: send_channel_text_def send_direct_text_def send_text_inv request_position_def
      request_telemetry_def send_traceroute_def set_favorite_def remove_node_def reboot_device_def
      shutdown_device_def reset_nodedb_def factory_reset_def set_fixed_position_def
      remove_fixed_position_def node_action_step local_action_step\<close>)

lemma shutdown_closes:
  assumes "worker_inv w"
  shows "wk_interface (shutdown w) = None \<and> opened (shutdown w) = closed (shutdown w)"
  using assms
  by (auto simp: shutdown_def unsubscribe_def close_interface_def worker_inv_def opened_def closed_def
      split: option.splits)

definition facade_ok :: "radio_facade \<Rightarrow> bool" where
  "facade_ok f \<longleftrightarrow> rf_asked f = rf_done f @ rf_posted f \<and>
     (if StopWorker \<in> set (rf_done f)
      then wk_interface (rf_worker f) = None \<and> opened (rf_worker f) = closed (rf_worker f)
      else worker_inv (rf_worker f))"

lemma facade_step_ok:
  assumes "facade_step pb f f'" "facade_ok f"
  shows "facade_ok f'"
  using assms(1)
proof cases
  case (posts c)
  with assms(2) show ?thesis by (auto simp: facade_ok_def post_def)
next
  case (serves c cs w n)
  show ?thesis
  proof (cases "c = StopWorker")
    case True
    with serves(4) have "w = shutdown (rf_worker f)" by (auto elim: carries_out.cases)
    with True serves(1-3) assms(2) shutdown_closes show ?thesis by (simp add: facade_ok_def)
  next
    case False
    with serves assms(2) carries_out_inv [OF serves(4) False] show ?thesis by (simp add: facade_ok_def)
  qed
next
  case (hears w)
  show ?thesis
  proof (cases "StopWorker \<in> set (rf_done f)")
    case True
    with assms(2) callback_inactive [OF hears(2)] hears(1) show ?thesis by (simp add: facade_ok_def)
  next
    case False
    with assms(2) quiet_inv [OF _ callback_quiet [OF hears(2)]] hears(1) show ?thesis
      by (simp add: facade_ok_def)
  qed
qed

text \<open>Whatever the GUI asks for and however the library answers, commands are carried out once each and in
  the order they were asked for, and once the program has been told to stop no radio interface is left
  open.\<close>

lemma facade_serves_in_order:
  assumes "(facade_step pb)\<^sup>*\<^sup>* (facade_new node) f"
  shows "rf_asked f = rf_done f @ rf_posted f"
    "StopWorker \<in> set (rf_done f) \<Longrightarrow> opened (rf_worker f) = closed (rf_worker f)"
    "StopWorker \<notin> set (rf_done f) \<Longrightarrow> worker_inv (rf_worker f)"
proof -
  have "facade_ok (facade_new node)" by (simp add: facade_ok_def facade_new_def worker_new_inv)
  with assms have "facade_ok f" by (induction rule: rtranclp_induct) (auto dest: facade_step_ok)
  then show "rf_asked f = rf_done f @ rf_posted f"
    "StopWorker \<in> set (rf_done f) \<Longrightarrow> opened (rf_worker f) = closed (rf_worker f)"
    "StopWorker \<notin> set (rf_done f) \<Longrightarrow> worker_inv (rf_worker f)" by (auto simp: facade_ok_def)
qed

text \<open>After that nothing happens to the worker any more.\<close>

lemma stopped_stays_stopped:
  assumes "facade_step pb f f'" "StopWorker \<in> set (rf_done f)" "wk_interface (rf_worker f) = None"
  shows "rf_done f' = rf_done f \<and> rf_worker f' = rf_worker f"
  using assms by cases (auto simp: post_def dest: callback_inactive)

end
