(* ===== verification/Spec2Isabelle.thy ===== *)
theory Spec2Isabelle
  imports Pipeline Schema Supervisor Tiles Dongles DevicePage Intel Chat Export Monitor Connection Waterfall
    SigintRun Spectrum Geo Startup Window Facade
begin

text \<open>
  OrcMesh: a verification development.

  OrcMesh (\<open>src/meshchat\<close>) is a desktop console for LoRa mesh radios.  A worker thread owns the
  radio; what it hears goes to an ingestor on the GUI thread, from there to the pages and to a SQLite store
  with a writer thread of its own; RTL-SDR tools feed a spectrum and a SIGINT page; a map draws the nodes
  from tile packs on disk that a third worker builds; a fourth flashes firmware.  The theories below follow
  that layout, one per part, each definition translated from the lines the manifest names, in the order of
  the file it comes from.

  \<^bold>\<open>Conventions.\<close>  A dataclass is a record, an enum a datatype, a Python dict a map or
  an association list where order or iteration counts, \<open>deque(maxlen)\<close> a list cut by
  \<open>ring_append\<close>.  Python's integers are \<open>int\<close> or \<open>nat\<close>; floats are
  exact: rationals (\<open>pyfloat\<close>) where the code only adds, scales and compares, reals in Geo,
  where it takes logarithms and sines.  Rounding is therefore not modelled and is outside every statement.
  A function that may raise returns \<open>error + 'a\<close> or an option, one branch per exception the
  code lets out or catches.  A slot of a thread is one step; where the code blocks in the middle of a slot
  (a child process, a queue), the slot is cut there.  Clocks, random numbers, the outcome of a library call
  and of a child process are arguments or part of the events, so that a statement for all of them covers
  whatever they do.  Emitted Qt signals are kept as lists in the order of emission.

  \<^bold>\<open>Foundations.\<close>
  Prelude (rings, odicts, lists), PyText (\<open>str\<close> methods: strip, split, title, int parsing) and
  PyValue (JSON-like values, the coercions of the code, \<open>round\<close>, \<open>float\<close>, UTF-8
  validity) hold what Python gives. Models is \<open>models/*.py\<close>; Metrics is
  \<open>analytics/hop_metrics.py\<close>, \<open>packet_classifier.py\<close>,
  \<open>aggregations.py\<close> and \<open>utils/time_format.py\<close>; Rates is
  \<open>analytics/rolling_rates.py\<close> with the window count it implements.

  \<^bold>\<open>From the radio to the disk.\<close>
  Controller: the worker of \<open>controllers/meshtastic_controller.py\<close> as a state with its slots
  and the library's callbacks; \<open>worker_inv\<close> holds over every interleaving, each send is
  answered once, callbacks of an interface that was let go have no effect.  Facade: the commands the GUI
  posts to that worker, carried out in order, with no interface left open at the end.  Supervisor:
  \<open>services/connection_supervisor.py\<close>, its back-off of 2, 5, 15, 30 and then 60 seconds and its
  persisted profile.  Ingestor: \<open>services/packet_ingestor.py\<close>; the duplicate cache of at most
  5000 keys that evicts 2500 and forgets after 120 seconds, the node table, positions, telemetry and both
  ways of seeding; \<open>accounts\<close> ties counters, recent list and node table to the packets
  announced.  Database: the rows and every SQL statement of \<open>services/monitor_store.py\<close> as
  functions on them.  Schema: \<open>database/schema.py\<close>, scripts that may raise at any statement.
  Store: the queue of 10000, savepoints, the three retries, batches of 100, maintenance and the writer loop.
  Pipeline: ingestor, queue, writer thread and shutdown interleaved; its ledger shows that every announced
  item is written, in hand, queued or counted as lost, and what that leaves in the database when the store
  is closed.

  \<^bold>\<open>Conversations and views.\<close>
  Chat (\<open>ui/chat_view.py\<close>, \<open>ui/widgets/channel_list.py\<close>, the chat handlers of the
  window): the bubbles on screen against the conversations, and the conversations against what is reloaded
  from the database. Panels (the panels of \<open>ui/monitor\<close>), Monitor
  (\<open>monitor_page.py\<close>, \<open>ui/nodes\<close>, the feeding handlers of the window): one pass
  over the packets against separate passes, and the panels against the filter. Connection
  (\<open>ui/widgets/connection_bar.py\<close>).  Export (\<open>services/export_service.py\<close>): the
  CSV writer with a reader that gives the rows back.  Intel (\<open>analytics/packet_intel.py\<close>,
  \<open>slot_occupancy.py\<close>, \<open>signal_metrics.py\<close>) and Bands
  (\<open>lora_bands.py\<close>, \<open>lora_airtime.py\<close>, \<open>sdr_presets.py\<close>).

  \<^bold>\<open>Spectrum.\<close>
  Leases (\<open>services/rtl_tools.py\<close>): finding tools, reading the device table, ending a child,
  and the registry of leases.  Recorder (\<open>services/iq_recorder.py\<close>), Sdr
  (\<open>services/sdr_source.py\<close>) and Scan (\<open>services/rtl_scan.py\<close>): the recording, the
  two workers with their children, stitching of sweeps and the band picture.  Dongles runs any number of
  both workers over one registry: no dongle is opened twice.  Waterfall
  (\<open>ui/spectrum/waterfall_view.py\<close>, \<open>ui/sigint/waterfall3d_view.py\<close>,
  \<open>ui/widgets/levels_control.py\<close>), Sigint and Spectrum (the two pages, every handler);
  SigintRun puts the SIGINT page, its two workers, their queues and the page's inbox together under every
  schedule.

  \<^bold>\<open>Maps.\<close>
  Tiles (\<open>services/orcmaps.py\<close>): pack discovery, coverage, attribution, PPM and PNG, requests
  to the tools, the tile cache and the server in front of it, which answers as if there were no cache.
  Packs (\<open>controllers/orcmaps_controller.py\<close>, \<open>services/provisioning\<close>,
  \<open>ui/setup/setup_wizard.py\<close>, the Maps tab): a build counts as a success only when verified,
  each request is completed once, the wizard's regions are all built.  Geo
  (\<open>provisioning/regions.py\<close>, \<open>analytics/distance.py\<close>): the size and time
  estimates, which grow with the radius, and great-circle distance as a metric.  MapView
  (\<open>ui/map/map_bridge.py\<close>, \<open>map_widget.py\<close>): no call is lost before the page is
  ready and the map shows the basemap that was chosen.

  \<^bold>\<open>The device.\<close>
  Firmware (\<open>services/firmware.py\<close>, \<open>controllers/firmware_controller.py\<close>): release
  to bundle to flash; what is written was downloaded, hashed and confirmed by the bootloader first.
  DeviceConfig (\<open>services/device_config.py\<close>, \<open>device_profile.py\<close>,
  \<open>models/device_control.py\<close>): reading, writing, backing up and restoring settings, their types
  and their secrets.  DevicePage (\<open>ui/device/device_page.py\<close> and the window's hand-over of the
  USB port): forms that read back, and flashing only as confirmed.

  \<^bold>\<open>Around it.\<close>
  Startup (\<open>app.py\<close>, \<open>services/app_logging.py\<close>, the packaged program's runtime
  hook, \<open>scripts/fetch_vendors.py\<close> and the bridge script of the map page): what is set up in
  which order, and that assets once complete stay complete.  Window (\<open>ui/main_window.py\<close>): the
  table of connections the constructor makes, the rail, what is remembered of the stored nodes, and the
  small dialogs.

  \<^bold>\<open>Interfaces.\<close>
  Three contracts are locales, each interpreted on the code's own operations: \<open>settings\<close>
  (Database: get after write), \<open>exclusive_resource\<close> (Leases: at most one holder) and
  \<open>memo_cache\<close> (Tiles: an entry is what the computation gives).  The clients' lemmas are proved
  inside them once.

  \<^bold>\<open>Loops and bounds.\<close>
  Loops over data are structural recursion.  The retries of a write are bounded by
  \<open>MAX_WRITE_RETRIES\<close> (3) in the code and by the same number in the model; the writer loop, the
  workers' read loops and the queues run over an explicit list of what arrives, or as a step relation, so
  that nothing is assumed of when it ends.  The setup run of the wizard is a \<open>while\<close> loop shown
  to end; closing the store has a measure (\<open>closing_terminates\<close>).  The only
  counter of the model's own is that of \<open>replace_go\<close>, which starts one above the length of the text it
  walks, so it never runs out.

  \<^bold>\<open>Parameters.\<close>
  What is not under \<open>src\<close> is an argument: the meshtastic library (its interface object,
  protobuf messages and enum names), SQLite's faults, sha256 and zlib, JSON text, float formatting and
  parsing, the FFT, the OrcMaps executables, \<open>git\<close> and \<open>rtl_*\<close> children, the
  network, zip archives, esptool, the file system and the dialogs' answers.  Hypotheses on them are stated
  in the theorem that needs them, and each such theorem has a concrete instance.

  \<^bold>\<open>What modelling showed.\<close>
  Lemmas such as \<open>vacuum_runs_before_prune\<close>, \<open>begin_failure_uncounted\<close>,
  \<open>shutdown_hangs\<close>, \<open>stop_before_start_lost\<close>, \<open>record_shows_start\<close>
  and \<open>unwritten_rows_stand_out\<close> pin down behaviour that differs from what the code or its
  comments intend.

  \<^bold>\<open>Not modelled.\<close>
  Layout, style sheets, colours and painting of the widgets (\<open>ui/theme.py\<close>, the building code
  of the pages, of the menus and of \<open>ui/main_window.py\<close>,
  \<open>ui/widgets/message_bubble.py\<close>, the camera and redraw of the 3D view): they keep no state the
  program reads.  \<open>ui/map/logging_web_page.py\<close> forwards console lines to the log.  The facades
  of the firmware, SDR and scan workers (\<open>*Controller\<close>) forward only; the queues of such
  threads are modelled in Packs, SigintRun and Facade.  Locks: each guarded operation is one step.  Binding
  and stopping the HTTP server and its \<open>/status\<close> text, the page's own JavaScript, and the texts
  of log lines. \<open>scripts/capture_screenshots.py\<close> takes pictures of the widgets.
\<close>

end
